(* ===== verification/Prelude.thy ===== *)
theory Prelude
  imports Main "HOL-Library.Word"
begin

text \<open>
  What every theory of the development shares.

  \<^item> The basic types of the Go server: UUIDs (the 16 bytes of a \<^verbatim>\<open>pgtype.UUID\<close>, read as one
    number), points in time (nanoseconds), nullable columns (\<^typ>\<open>'a option\<close>: a
    \<^verbatim>\<open>pgtype\<close> value whose \<^verbatim>\<open>Valid\<close> flag is false is \<^term>\<open>None\<close>), machine integers.
  \<^item> Go errors as values, with the wrapping of \<^verbatim>\<open>fmt.Errorf("...: %w", err)\<close> and
    \<^verbatim>\<open>errors.Is\<close>; results of fallible functions as sums.
  \<^item> JSON values, as the payloads of bus events need them.
  \<^item> Tables as lists of rows: the statements \<^verbatim>\<open>SELECT\<close>, \<^verbatim>\<open>UPDATE ... WHERE\<close> and
    \<^verbatim>\<open>ORDER BY ... LIMIT 1\<close> and the facts about them that the component proofs use.
\<close>

named_theorems res_simps "inversion of results: when a fallible computation succeeds"
named_theorems tab_simps "rows, keys and updates of tables"

section \<open>Basic types\<close>

type_synonym uuid = nat
type_synonym time = int
type_synonym pgtext = "string option"
type_synonym i32 = "32 word"
type_synonym i64 = "64 word"
type_synonym numeric = "int \<times> int"

section \<open>Go errors and results\<close>

datatype go_error =
    ErrNoRows
  | ErrStaleRun
  | ErrLifecycleUnavailable
  | ErrInvalidLoopConfiguration
  | ErrLoopNotFound
  | ErrConstraint
  | ErrInfra string
  | ErrMsg string
  | ErrWrap string go_error
  | ErrDetail go_error string

text \<open>
  \<^verbatim>\<open>errors.Is(err, target)\<close> for the sentinel errors: unwrap until the target is met.
\<close>

fun error_is :: "go_error \<Rightarrow> go_error \<Rightarrow> bool" where
  "error_is (ErrWrap p e) target \<longleftrightarrow> ErrWrap p e = target \<or> error_is e target"
| "error_is (ErrDetail e p) target \<longleftrightarrow> ErrDetail e p = target \<or> error_is e target"
| "error_is e target \<longleftrightarrow> e = target"

text \<open>The text an error prints (\<^verbatim>\<open>err.Error()\<close>); messages of the database are a parameter.\<close>

fun error_text :: "(go_error \<Rightarrow> string) \<Rightarrow> go_error \<Rightarrow> string" where
  "error_text f (ErrWrap p err) = p @ '': '' @ error_text f err"
| "error_text f (ErrDetail err p) = error_text f err @ '': '' @ p"
| "error_text f (ErrMsg m) = m"
| "error_text f err = f err"

type_synonym 'a res = "go_error + 'a"

text \<open>
  \<^verbatim>\<open>x, err := r; if err != nil { return ..., fmt.Errorf("p: %w", err) }\<close>, and the same
  with the error passed on as it is.
\<close>

definition or_wrap :: "string \<Rightarrow> 'a res \<Rightarrow> ('a \<Rightarrow> 'b res) \<Rightarrow> 'b res" where
  "or_wrap p r k = (case r of Inl e \<Rightarrow> Inl (ErrWrap p e) | Inr a \<Rightarrow> k a)"

definition or_fail :: "'a res \<Rightarrow> ('a \<Rightarrow> 'b res) \<Rightarrow> 'b res" where
  "or_fail r k = (case r of Inl e \<Rightarrow> Inl e | Inr a \<Rightarrow> k a)"

definition is_ok :: "'a res \<Rightarrow> bool" where
  "is_ok r \<longleftrightarrow> (case r of Inl _ \<Rightarrow> False | Inr _ \<Rightarrow> True)"

lemma or_wrap_simps [simp]:
  "or_wrap p (Inl e) k = Inl (ErrWrap p e)" "or_wrap p (Inr a) k = k a"
  by (simp_all add: or_wrap_def)

lemma or_fail_simps [simp]: "or_fail (Inl e) k = Inl e" "or_fail (Inr a) k = k a"
  by (simp_all add: or_fail_def)

lemma is_ok_simps [simp]: "\<not> is_ok (Inl e)" "is_ok (Inr a)"
  by (simp_all add: is_ok_def)

lemma or_wrap_Inr [res_simps]: "or_wrap p r k = Inr b \<longleftrightarrow> (\<exists>a. r = Inr a \<and> k a = Inr b)"
  by (cases r) auto

lemma or_fail_Inr [res_simps]: "or_fail r k = Inr b \<longleftrightarrow> (\<exists>a. r = Inr a \<and> k a = Inr b)"
  by (cases r) auto

lemma if_Inr [res_simps]:
  "(if P then Inl e else r) = Inr b \<longleftrightarrow> \<not> P \<and> r = Inr b"
  "(if P then r else Inl e) = Inr b \<longleftrightarrow> P \<and> r = Inr b"
  by simp_all

lemma error_is_wrap [simp]:
  "error_is (ErrWrap p e) ErrNoRows = error_is e ErrNoRows"
  "error_is (ErrWrap p e) ErrStaleRun = error_is e ErrStaleRun"
  "error_is (ErrWrap p e) ErrInvalidLoopConfiguration = error_is e ErrInvalidLoopConfiguration"
  by simp_all

text \<open>
  \<^verbatim>\<open>if err := step; err != nil { return err }\<close> for steps that change a state: what a failed step has
  changed stays.
\<close>

definition and_then :: "'s \<times> 'a res \<Rightarrow> ('s \<Rightarrow> 'a \<Rightarrow> 's \<times> 'b res) \<Rightarrow> 's \<times> 'b res" where
  "and_then r k = (case r of (s, Inl err) \<Rightarrow> (s, Inl err) | (s, Inr a) \<Rightarrow> k s a)"

lemma and_then_simps [simp]: "and_then (s, Inl err) k = (s, Inl err)" "and_then (s, Inr a) k = k s a"
  by (simp_all add: and_then_def)

lemma and_then_Inr [res_simps]:
  "and_then r k = (s', Inr b) \<longleftrightarrow> (\<exists>s a. r = (s, Inr a) \<and> k s a = (s', Inr b))"
  by (cases r rule: prod.exhaust; cases "snd r") (auto simp: and_then_def split: sum.splits)

section \<open>JSON values\<close>

datatype json =
    JNull
  | JBool bool
  | JInt int
  | JStr string
  | JArr "json list"
  | JObj "(string \<times> json) list"

text \<open>A Go \<^verbatim>\<open>map[string]any\<close> with string keys; assignment replaces or adds a key.\<close>

type_synonym jmap = "(string \<times> json) list"

definition jset :: "string \<Rightarrow> json \<Rightarrow> jmap \<Rightarrow> jmap" where
  "jset k v m = (if k \<in> fst ` set m then map (\<lambda>(k', v'). if k' = k then (k', v) else (k', v')) m
                 else m @ [(k, v)])"

definition jstr_opt :: "pgtext \<Rightarrow> json" where
  "jstr_opt t = (case t of None \<Rightarrow> JNull | Some s \<Rightarrow> JStr s)"

lemma map_of_jset: "map_of (jset k v m) = (map_of m)(k \<mapsto> v)"
proof -
  have repl: "map_of (map (\<lambda>(k', v'). if k' = k then (k', v) else (k', v')) m)
      = (if k \<in> fst ` set m then (map_of m)(k \<mapsto> v) else map_of m)" for m :: jmap
    by (induction m) (auto simp: fun_eq_iff split: prod.splits)
  show ?thesis
  proof (cases "k \<in> fst ` set m")
    case True
    then show ?thesis by (simp add: jset_def repl)
  next
    case False
    then have "map_of m k = None" by (simp add: map_of_eq_None_iff)
    with False show ?thesis by (auto simp: jset_def map_add_def fun_eq_iff split: option.splits)
  qed
qed

section \<open>Tables\<close>

text \<open>
  A table is the list of its rows. \<open>select_one\<close> is the first row a \<^verbatim>\<open>WHERE\<close> clause admits
  (what \<^verbatim>\<open>QueryRow(...).Scan\<close> reads); \<open>upd_where\<close> is \<^verbatim>\<open>UPDATE ... SET ... WHERE\<close>.
\<close>

definition select_one :: "('r \<Rightarrow> bool) \<Rightarrow> 'r list \<Rightarrow> 'r res" where
  "select_one P rows = (case filter P rows of [] \<Rightarrow> Inl ErrNoRows | r # _ \<Rightarrow> Inr r)"

definition upd_where :: "('r \<Rightarrow> bool) \<Rightarrow> ('r \<Rightarrow> 'r) \<Rightarrow> 'r list \<Rightarrow> 'r list" where
  "upd_where P f rows = map (\<lambda>r. if P r then f r else r) rows"

text \<open>\<^verbatim>\<open>ORDER BY key LIMIT 1\<close>: the first row no other row is strictly before.\<close>

fun first_by :: "('r \<Rightarrow> 'r \<Rightarrow> bool) \<Rightarrow> 'r list \<Rightarrow> 'r option" where
  "first_by prior [] = None"
| "first_by prior (r # rs) =
     (case first_by prior rs of None \<Rightarrow> Some r
      | Some r' \<Rightarrow> Some (if prior r' r then r' else r))"

lemma select_one_Inr:
  "select_one P rows = Inr r \<Longrightarrow> r \<in> set rows \<and> P r"
  by (auto simp: select_one_def filter_eq_Cons_iff split: list.splits)

lemma select_one_Inl: "select_one P rows = Inl e \<longleftrightarrow> e = ErrNoRows \<and> (\<forall>r\<in>set rows. \<not> P r)"
  by (cases "filter P rows") (auto simp: select_one_def filter_empty_conv filter_eq_Cons_iff)

lemma select_one_found: "r \<in> set rows \<Longrightarrow> P r \<Longrightarrow> \<exists>r'. select_one P rows = Inr r'"
  by (cases "select_one P rows") (auto simp: select_one_Inl)

lemma select_one_key:
  assumes "distinct (map key rows)" "r \<in> set rows" "P r" "\<And>s. s \<in> set rows \<Longrightarrow> P s \<Longrightarrow> key s = key r"
  shows "select_one P rows = Inr r"
proof -
  obtain s where s: "select_one P rows = Inr s"
    using select_one_found [of r rows P] assms(2,3) by blast
  then have in_s: "s \<in> set rows" "P s" by (auto dest: select_one_Inr)
  have "inj_on key (set rows)" using assms(1) by (simp add: distinct_map)
  then have "s = r" using assms(4) [OF in_s] in_s(1) assms(2) by (simp add: inj_on_def)
  with s show ?thesis by simp
qed

lemma length_upd_where [simp]: "length (upd_where P f rows) = length rows"
  by (simp add: upd_where_def)

lemma set_upd_where [tab_simps]: "set (upd_where P f rows) = (\<lambda>r. if P r then f r else r) ` set rows"
  by (simp add: upd_where_def)

lemma map_upd_where:
  assumes "\<And>r. r \<in> set rows \<Longrightarrow> P r \<Longrightarrow> key (f r) = key r"
  shows "map key (upd_where P f rows) = map key rows"
  using assms by (auto simp: upd_where_def)

lemma upd_where_id: "(\<And>r. r \<in> set rows \<Longrightarrow> \<not> P r) \<Longrightarrow> upd_where P f rows = rows"
  by (simp add: upd_where_def map_idI)

lemma first_by_None [simp]: "first_by prior rs = None \<longleftrightarrow> rs = []"
  by (induction rs) (auto split: option.splits)

lemma first_by_in: "first_by prior rs = Some r \<Longrightarrow> r \<in> set rs"
  by (induction rs arbitrary: r) (auto split: option.splits if_splits)

lemma first_by_least:
  assumes "first_by prior rs = Some r" "s \<in> set rs"
    and asym: "\<And>a b. prior a b \<Longrightarrow> \<not> prior b a"
    and negt: "\<And>a b c. \<not> prior a b \<Longrightarrow> \<not> prior b c \<Longrightarrow> \<not> prior a c"
  shows "\<not> prior s r"
  using assms(1,2)
proof (induction rs arbitrary: r s)
  case Nil
  then show ?case by simp
next
  case (Cons x xs)
  show ?case
  proof (cases "first_by prior xs")
    case None
    with Cons.prems have "s = r" by simp
    with asym show ?thesis by blast
  next
    case (Some y)
    have least: "\<And>s. s \<in> set xs \<Longrightarrow> \<not> prior s y" using Cons.IH Some by blast
    show ?thesis
    proof (cases "prior y x")
      case True
      with Cons.prems Some have "r = y" by simp
      have "\<not> prior x y" using True asym by blast
      with Cons.prems(2) least \<open>r = y\<close> show ?thesis by auto
    next
      case False
      with Cons.prems Some have "r = x" by simp
      have "\<not> prior s x" if "s \<in> set xs" using negt [OF least [OF that] False] .
      with Cons.prems(2) \<open>r = x\<close> asym show ?thesis by auto
    qed
  qed
qed

text \<open>Counting the rows of a filtered table under a pointwise update.\<close>

lemma length_filter_map_mono:
  assumes "\<And>r. r \<in> set rows \<Longrightarrow> Q (f r) \<Longrightarrow> Q r"
  shows "length (filter Q (map f rows)) \<le> length (filter Q rows)"
  using assms by (induction rows) auto

lemma distinct_map_filter_mono:
  assumes "distinct (map k (filter Q rows))"
    and "\<And>r. r \<in> set rows \<Longrightarrow> Q' (f r) \<Longrightarrow> Q r \<and> k (f r) = k r"
  shows "distinct (map k (filter Q' (map f rows)))"
  using assms
proof (induction rows)
  case Nil
  then show ?case by simp
next
  case (Cons r rows)
  have IH: "distinct (map k (filter Q' (map f rows)))"
    using Cons by (auto split: if_splits)
  show ?case
  proof (cases "Q' (f r)")
    case True
    then have Q: "Q r" "k (f r) = k r" using Cons.prems(2) by auto
    have "k r \<notin> k ` (f ` {x \<in> set rows. Q' (f x)})"
      using Cons.prems Q by force
    with True IH Q show ?thesis by auto
  next
    case False
    with IH show ?thesis by simp
  qed
qed

lemma distinct_key_eq:
  "distinct (map key rows) \<Longrightarrow> r \<in> set rows \<Longrightarrow> s \<in> set rows \<Longrightarrow> key r = key s \<Longrightarrow> r = s"
  by (auto simp: distinct_map inj_on_def)

lemma enumerate_snd: "(n, x) \<in> set (enumerate k xs) \<Longrightarrow> x \<in> set xs"
  by (auto simp: enumerate_eq_zip dest: set_zip_rightD)

lemma in_enumerate: "x \<in> set xs \<Longrightarrow> \<exists>n. (n, x) \<in> set (enumerate k xs)"
  by (induction xs arbitrary: k) auto

lemma in_filter_map: "x \<in> set xs \<Longrightarrow> P (f x) \<Longrightarrow> f x \<in> set (filter P (map f xs))"
  by simp

lemma select_one_none: "(\<And>r. r \<in> set rows \<Longrightarrow> \<not> P r) \<Longrightarrow> select_one P rows = Inl ErrNoRows"
  by (simp add: select_one_Inl)

lemma map_of_drop_key: "map_of (filter (\<lambda>(j, _). j \<noteq> k) m) i = (if i = k then None else map_of m i)"
  by (induction m) auto

text \<open>Selecting by a column an update leaves alone.\<close>

lemma select_one_map:
  assumes "\<And>r. Q (g r) \<longleftrightarrow> Q r"
  shows "select_one Q (map g rows) = map_sum id g (select_one Q rows)"
proof -
  have "filter Q (map g rows) = map g (filter Q rows)"
    using assms by (induction rows) simp_all
  then show ?thesis by (simp add: select_one_def split: list.splits)
qed

lemma select_one_upd_where:
  assumes "\<And>r. P r \<Longrightarrow> Q (f r) \<longleftrightarrow> Q r"
  shows "select_one Q (upd_where P f rows) = map_sum id (\<lambda>r. if P r then f r else r) (select_one Q rows)"
  unfolding upd_where_def by (rule select_one_map) (use assms in auto)

lemma length_filter_map_less:
  assumes "\<And>r. r \<in> set rows \<Longrightarrow> Q (f r) \<Longrightarrow> Q r" "v \<in> set rows" "Q v" "\<not> Q (f v)"
  shows "length (filter Q (map f rows)) < length (filter Q rows)"
proof -
  obtain as bs where rows: "rows = as @ v # bs" using split_list [OF assms(2)] by blast
  have "length (filter Q (map f as)) \<le> length (filter Q as)" "length (filter Q (map f bs)) \<le> length (filter Q bs)"
    by (rule length_filter_map_mono; use assms(1) rows in simp)+
  with rows assms(3,4) show ?thesis by simp
qed

end
