(* ===== verification/Store.thy ===== *)
theory Store
  imports Prelude
begin

text \<open>
  The database of the server: the rows the modelled code reads and writes
  (\<^verbatim>\<open>server/pkg/db/generated/models.go\<close>), the tables as one state record, and the
  constraints of the schema (\<^verbatim>\<open>server/migrations\<close>) that a statement must satisfy.

  A statement computes the new state; \<open>commit_stmt\<close> lets it through when every constraint
  holds and fails with a constraint violation otherwise, as PostgreSQL does at the end of the
  statement. What a transaction takes from its surroundings is an \<^emph>\<open>environment\<close>: the
  transaction time \<^verbatim>\<open>now()\<close>, the UUIDs that \<^verbatim>\<open>gen_random_uuid()\<close> will draw, and whether
  the connection lets the transaction begin and commit.
\<close>

section \<open>Rows\<close>

datatype wstatus = Queued | Dispatched | Running | Completed | Failed | Cancelled

fun status_str :: "wstatus \<Rightarrow> string" where
  "status_str Queued = ''queued''"
| "status_str Dispatched = ''dispatched''"
| "status_str Running = ''running''"
| "status_str Completed = ''completed''"
| "status_str Failed = ''failed''"
| "status_str Cancelled = ''cancelled''"

record agent_row =
  ag_id :: uuid
  ag_workspace :: uuid
  ag_name :: string
  ag_avatar_url :: pgtext
  ag_runtime_mode :: string
  ag_runtime_config :: string
  ag_visibility :: string
  ag_status :: string
  ag_max_concurrent :: int
  ag_owner :: "uuid option"
  ag_created_at :: time
  ag_updated_at :: time
  ag_description :: string
  ag_tools :: string
  ag_triggers :: string
  ag_runtime :: "uuid option"
  ag_instructions :: string
  ag_archived_at :: "time option"
  ag_archived_by :: "uuid option"
  ag_provider :: string
  ag_model_override :: pgtext
  ag_provider_config :: string

record runtime_row =
  rt_id :: uuid
  rt_workspace :: uuid
  rt_daemon_id :: pgtext
  rt_name :: string
  rt_mode :: string
  rt_provider :: string
  rt_status :: string
  rt_device_info :: string
  rt_metadata :: string
  rt_last_seen :: "time option"
  rt_created_at :: time
  rt_updated_at :: time

record issue_row =
  is_id :: uuid
  is_workspace :: uuid
  is_title :: string
  is_description :: pgtext
  is_status :: string
  is_priority :: string
  is_assignee_type :: pgtext
  is_assignee :: "uuid option"
  is_number :: int
  is_creator_type :: string
  is_creator :: uuid
  is_parent :: "uuid option"
  is_due :: "time option"
  is_created_at :: time
  is_updated_at :: time

record task_row =
  tk_id :: uuid
  tk_agent :: uuid
  tk_issue :: uuid
  tk_status :: wstatus
  tk_priority :: int
  tk_dispatched_at :: "time option"
  tk_started_at :: "time option"
  tk_completed_at :: "time option"
  tk_result :: "string option"
  tk_error :: pgtext
  tk_created_at :: time
  tk_context :: "string option"
  tk_runtime :: uuid
  tk_session :: pgtext
  tk_work_dir :: pgtext
  tk_trigger_comment :: "uuid option"
  tk_retry_count :: int
  tk_max_retries :: int
  tk_task_type :: string
  tk_loop :: "uuid option"
  tk_active_run :: "uuid option"

record run_row =
  rn_id :: uuid
  rn_task :: uuid
  rn_agent :: "uuid option"
  rn_status :: wstatus
  rn_started_at :: "time option"
  rn_completed_at :: "time option"
  rn_duration_ms :: "i32 option"
  rn_exit_code :: "i32 option"
  rn_total_steps :: "i32 option"
  rn_total_tokens :: "i32 option"
  rn_total_cost :: "numeric option"
  rn_output :: pgtext
  rn_error :: pgtext
  rn_created_at :: time
  rn_session :: pgtext
  rn_work_dir :: pgtext

record outbox_row =
  ob_id :: uuid
  ob_work_item :: uuid
  ob_run :: "uuid option"
  ob_type :: string
  ob_version :: int
  ob_payload :: jmap
  ob_created_at :: time
  ob_available_at :: time
  ob_locked_at :: "time option"
  ob_lock_token :: "uuid option"
  ob_processed_at :: "time option"
  ob_dead_at :: "time option"
  ob_attempts :: nat
  ob_last_error :: pgtext

record delivery_row =
  dl_event :: uuid
  dl_consumer :: string
  dl_attempts :: nat
  dl_available_at :: time
  dl_last_error :: pgtext
  dl_dead_at :: "time option"

record loop_row =
  lr_id :: uuid
  lr_issue :: uuid
  lr_workspace :: uuid
  lr_status :: string
  lr_stage :: pgtext
  lr_iteration :: int
  lr_max_iterations :: int
  lr_pr_url :: pgtext
  lr_pr_number :: "int option"
  lr_branch :: pgtext
  lr_agent :: "uuid option"
  lr_config :: string
  lr_failure_reason :: pgtext
  lr_started_at :: "time option"
  lr_completed_at :: "time option"
  lr_created_at :: time
  lr_updated_at :: time

record comment_row =
  cm_id :: uuid
  cm_issue :: uuid
  cm_workspace :: uuid
  cm_author_type :: string
  cm_author :: uuid
  cm_content :: string
  cm_type :: string
  cm_created_at :: time
  cm_parent :: "uuid option"
  cm_event :: "uuid option"

record metric_row =
  mt_id :: uuid
  mt_workspace :: uuid
  mt_task :: uuid
  mt_issue :: uuid
  mt_run :: "uuid option"
  mt_provider :: string
  mt_model :: string
  mt_runtime_mode :: string
  mt_task_type :: string
  mt_priority :: string
  mt_status :: string
  mt_error_category :: pgtext
  mt_duration_ms :: i64
  mt_token_input :: i32
  mt_token_output :: i32

record trace_row =
  xt_id :: uuid
  xt_run :: uuid
  xt_task :: uuid
  xt_agent :: "uuid option"
  xt_issue :: "uuid option"
  xt_provider :: string
  xt_model :: string
  xt_status :: string
  xt_start :: time
  xt_end :: "time option"

record activity_row =
  ac_id :: uuid
  ac_workspace :: uuid
  ac_issue :: "uuid option"
  ac_actor_type :: pgtext
  ac_actor :: "uuid option"
  ac_action :: string
  ac_details :: string
  ac_created_at :: time
  ac_event :: "uuid option"

record inbox_row =
  ib_id :: uuid
  ib_workspace :: uuid
  ib_recipient_type :: string
  ib_recipient :: uuid
  ib_type :: string
  ib_severity :: string
  ib_issue :: "uuid option"
  ib_title :: string
  ib_body :: pgtext
  ib_read :: bool
  ib_archived :: bool
  ib_created_at :: time
  ib_actor_type :: pgtext
  ib_actor :: "uuid option"
  ib_details :: string
  ib_event :: "uuid option"

record subscriber_row =
  sb_issue :: uuid
  sb_user_type :: string
  sb_user :: uuid
  sb_reason :: string
  sb_created_at :: time

record member_row =
  mb_workspace :: uuid
  mb_user :: uuid
  mb_role :: string

section \<open>The database and its constraints\<close>

record db =
  agents :: "agent_row list"
  runtimes :: "runtime_row list"
  issues :: "issue_row list"
  tasks :: "task_row list"
  runs :: "run_row list"
  outbox :: "outbox_row list"
  receipts :: "(uuid \<times> string) list"
  deliveries :: "delivery_row list"
  loops :: "loop_row list"
  comments :: "comment_row list"
  metrics :: "metric_row list"
  xtraces :: "trace_row list"
  activities :: "activity_row list"
  inbox :: "inbox_row list"
  subscribers :: "subscriber_row list"
  members :: "member_row list"

text \<open>
  \<open>e_now\<close> is the transaction timestamp, \<open>e_wall\<close> the clock of the Go process, \<open>e_gen\<close> the UUIDs
  the statements of the transaction draw, \<open>e_locked\<close> the rows another transaction holds locked
  (what \<^verbatim>\<open>FOR UPDATE SKIP LOCKED\<close> passes over).
\<close>

record env =
  e_now :: time
  e_wall :: time
  e_gen :: "nat \<Rightarrow> uuid"
  e_locked :: "uuid \<Rightarrow> bool"
  e_begin :: bool
  e_commit :: bool

definition active :: "wstatus \<Rightarrow> bool" where
  "active s \<longleftrightarrow> s = Dispatched \<or> s = Running"

definition pending :: "wstatus \<Rightarrow> bool" where
  "pending s \<longleftrightarrow> s = Queued \<or> s = Dispatched"

definition terminal :: "wstatus \<Rightarrow> bool" where
  "terminal s \<longleftrightarrow> s = Completed \<or> s = Failed \<or> s = Cancelled"

lemma active_simps [simp]:
  "active Dispatched" "active Running" "\<not> active Queued" "\<not> active Completed"
  "\<not> active Failed" "\<not> active Cancelled"
  by (simp_all add: active_def)

lemma pending_simps [simp]:
  "pending Queued" "pending Dispatched" "\<not> pending Running" "\<not> pending Completed"
  "\<not> pending Failed" "\<not> pending Cancelled"
  by (simp_all add: pending_def)

lemma terminal_simps [simp]:
  "terminal Completed" "terminal Failed" "terminal Cancelled" "\<not> terminal Queued"
  "\<not> terminal Dispatched" "\<not> terminal Running"
  by (simp_all add: terminal_def)

text \<open>\<^verbatim>\<open>idx_one_pending_task_per_issue\<close>: at most one queued or dispatched task per issue.\<close>

definition one_pending_per_issue :: "task_row list \<Rightarrow> bool" where
  "one_pending_per_issue ts \<longleftrightarrow> distinct (map tk_issue (filter (\<lambda>t. pending (tk_status t)) ts))"

text \<open>\<^verbatim>\<open>uq_agent_task_queue_active_run\<close> and the \<^verbatim>\<open>task_type\<close> check.\<close>

definition unique_active_run :: "task_row list \<Rightarrow> bool" where
  "unique_active_run ts \<longleftrightarrow> distinct (map tk_active_run (filter (\<lambda>t. tk_active_run t \<noteq> None) ts))"

definition task_types :: "string list" where
  "task_types = [''standard'', ''loop_plan'', ''loop_develop'', ''loop_review'', ''loop_fix'']"

text \<open>\<^verbatim>\<open>uq_task_runs_active_task\<close>: at most one active run per task.\<close>

definition one_active_run_per_task :: "run_row list \<Rightarrow> bool" where
  "one_active_run_per_task rs \<longleftrightarrow> distinct (map rn_task (filter (\<lambda>r. active (rn_status r)) rs))"

definition task_constraints :: "db \<Rightarrow> bool" where
  "task_constraints d \<longleftrightarrow>
     distinct (map tk_id (tasks d)) \<and> one_pending_per_issue (tasks d) \<and> unique_active_run (tasks d) \<and>
     (\<forall>t\<in>set (tasks d). tk_task_type t \<in> set task_types \<and> tk_agent t \<in> ag_id ` set (agents d) \<and>
        tk_issue t \<in> is_id ` set (issues d) \<and> tk_runtime t \<in> rt_id ` set (runtimes d) \<and>
        (\<forall>r. tk_active_run t = Some r \<longrightarrow> r \<in> rn_id ` set (runs d)))"

definition run_constraints :: "db \<Rightarrow> bool" where
  "run_constraints d \<longleftrightarrow>
     distinct (map rn_id (runs d)) \<and> one_active_run_per_task (runs d) \<and>
     (\<forall>r\<in>set (runs d). rn_status r \<noteq> Queued \<and> rn_task r \<in> tk_id ` set (tasks d))"

definition outbox_constraints :: "db \<Rightarrow> bool" where
  "outbox_constraints d \<longleftrightarrow>
     distinct (map ob_id (outbox d)) \<and>
     (\<forall>e\<in>set (outbox d). 0 < ob_version e \<and> ob_work_item e \<in> tk_id ` set (tasks d) \<and>
        (\<forall>r. ob_run e = Some r \<longrightarrow> r \<in> rn_id ` set (runs d)))"

text \<open>How the two foreign keys that may be NULL are evaluated.\<close>

lemma task_constraints_code [code]:
  "task_constraints d \<longleftrightarrow>
     distinct (map tk_id (tasks d)) \<and> one_pending_per_issue (tasks d) \<and> unique_active_run (tasks d) \<and>
     (\<forall>t\<in>set (tasks d). tk_task_type t \<in> set task_types \<and> tk_agent t \<in> ag_id ` set (agents d) \<and>
        tk_issue t \<in> is_id ` set (issues d) \<and> tk_runtime t \<in> rt_id ` set (runtimes d) \<and>
        (case tk_active_run t of None \<Rightarrow> True | Some r \<Rightarrow> r \<in> rn_id ` set (runs d)))"
  unfolding task_constraints_def by (auto split: option.splits)

lemma outbox_constraints_code [code]:
  "outbox_constraints d \<longleftrightarrow>
     distinct (map ob_id (outbox d)) \<and>
     (\<forall>e\<in>set (outbox d). 0 < ob_version e \<and> ob_work_item e \<in> tk_id ` set (tasks d) \<and>
        (case ob_run e of None \<Rightarrow> True | Some r \<Rightarrow> r \<in> rn_id ` set (runs d)))"
  unfolding outbox_constraints_def by (auto split: option.splits)

definition db_constraints :: "db \<Rightarrow> bool" where
  "db_constraints d \<longleftrightarrow> task_constraints d \<and> run_constraints d \<and> outbox_constraints d"

definition commit_stmt :: "db \<Rightarrow> db res" where
  "commit_stmt d = (if db_constraints d then Inr d else Inl ErrConstraint)"

lemma commit_stmt_Inr [res_simps]: "commit_stmt d = Inr d' \<longleftrightarrow> d' = d \<and> db_constraints d"
  by (auto simp: commit_stmt_def)

lemma commit_stmt_ok: "db_constraints d \<Longrightarrow> commit_stmt d = Inr d"
  by (simp add: commit_stmt_def)

lemmas constraint_defs = db_constraints_def task_constraints_def run_constraints_def
  outbox_constraints_def one_pending_per_issue_def unique_active_run_def one_active_run_per_task_def

section \<open>Rows by primary key\<close>

text \<open>\<^verbatim>\<open>WHERE id = $1\<close>: a parameter that is NULL matches no row.\<close>

definition get_task :: "db \<Rightarrow> uuid option \<Rightarrow> task_row res" where
  "get_task d i = select_one (\<lambda>t. Some (tk_id t) = i) (tasks d)"

definition get_run :: "db \<Rightarrow> uuid option \<Rightarrow> run_row res" where
  "get_run d i = select_one (\<lambda>r. Some (rn_id r) = i) (runs d)"

definition get_agent :: "db \<Rightarrow> uuid option \<Rightarrow> agent_row res" where
  "get_agent d i = select_one (\<lambda>a. Some (ag_id a) = i) (agents d)"

definition get_issue :: "db \<Rightarrow> uuid option \<Rightarrow> issue_row res" where
  "get_issue d i = select_one (\<lambda>a. Some (is_id a) = i) (issues d)"

definition get_runtime :: "db \<Rightarrow> uuid option \<Rightarrow> runtime_row res" where
  "get_runtime d i = select_one (\<lambda>a. Some (rt_id a) = i) (runtimes d)"

lemma get_task_Inr: "get_task d i = Inr t \<Longrightarrow> t \<in> set (tasks d) \<and> i = Some (tk_id t)"
  unfolding get_task_def by (drule select_one_Inr) auto

lemma get_run_Inr: "get_run d i = Inr r \<Longrightarrow> r \<in> set (runs d) \<and> i = Some (rn_id r)"
  unfolding get_run_def by (drule select_one_Inr) auto

lemma get_agent_Inr: "get_agent d i = Inr a \<Longrightarrow> a \<in> set (agents d) \<and> i = Some (ag_id a)"
  unfolding get_agent_def by (drule select_one_Inr) auto

lemma get_task_key:
  "distinct (map tk_id (tasks d)) \<Longrightarrow> t \<in> set (tasks d) \<Longrightarrow> get_task d (Some (tk_id t)) = Inr t"
  unfolding get_task_def by (rule select_one_key [where key = tk_id]) auto

lemma get_run_key:
  "distinct (map rn_id (runs d)) \<Longrightarrow> r \<in> set (runs d) \<Longrightarrow> get_run d (Some (rn_id r)) = Inr r"
  unfolding get_run_def by (rule select_one_key [where key = rn_id]) auto

text \<open>Statements that leave the lifecycle tables alone keep every constraint.\<close>

lemma db_constraints_cong:
  assumes "tasks d' = tasks d" "runs d' = runs d" "outbox d' = outbox d" "agents d' = agents d"
    "issues d' = issues d" "runtimes d' = runtimes d"
  shows "db_constraints d' = db_constraints d"
  using assms by (simp add: constraint_defs)

end
