(* ===== verification/Queries.thy ===== *)
theory Queries
  imports Store
begin

text \<open>
  The SQL statements of the Work Item lifecycle (\<^verbatim>\<open>server/pkg/db/queries/agent.sql\<close>,
  \<^verbatim>\<open>traces.sql\<close>, \<^verbatim>\<open>runtime.sql\<close>, \<^verbatim>\<open>lifecycle_outbox.sql\<close>, compiled into
  \<^verbatim>\<open>server/pkg/db/generated\<close>). One definition per statement: its \<^verbatim>\<open>WHERE\<close> clause, its
  \<^verbatim>\<open>SET\<close> list, its \<^verbatim>\<open>RETURNING\<close> row; \<open>ErrNoRows\<close> where a \<^verbatim>\<open>:one\<close> statement matches nothing.
  The common table expressions of one statement all read the state before it.
\<close>

section \<open>Lifecycle facts\<close>

definition status_payload :: "wstatus \<Rightarrow> jmap" where
  "status_payload s = [(''status'', JStr (status_str s))]"

definition new_outbox_row :: "env \<Rightarrow> nat \<Rightarrow> uuid \<Rightarrow> uuid option \<Rightarrow> string \<Rightarrow> int \<Rightarrow> jmap \<Rightarrow> outbox_row" where
  "new_outbox_row e n w r ty v p =
     \<lparr>ob_id = e_gen e n, ob_work_item = w, ob_run = r, ob_type = ty, ob_version = v, ob_payload = p,
      ob_created_at = e_now e, ob_available_at = e_now e, ob_locked_at = None, ob_lock_token = None,
      ob_processed_at = None, ob_dead_at = None, ob_attempts = 0, ob_last_error = None\<rparr>"

definition append_lifecycle_outbox_event ::
    "env \<Rightarrow> nat \<Rightarrow> db \<Rightarrow> uuid \<Rightarrow> uuid option \<Rightarrow> string \<Rightarrow> int \<Rightarrow> jmap \<Rightarrow> (db \<times> outbox_row) res" where
  "append_lifecycle_outbox_event e n d w r ty v p =
     (let row = new_outbox_row e n w r ty v p in
      or_fail (commit_stmt (d\<lparr>outbox := outbox d @ [row]\<rparr>)) (\<lambda>d'. Inr (d', row)))"

section \<open>Work Items\<close>

record create_task_params =
  ct_agent :: "uuid option"
  ct_runtime :: "uuid option"
  ct_issue :: "uuid option"
  ct_priority :: int
  ct_trigger :: "uuid option"
  ct_task_type :: pgtext
  ct_loop :: "uuid option"

definition create_agent_task :: "env \<Rightarrow> nat \<Rightarrow> db \<Rightarrow> create_task_params \<Rightarrow> (db \<times> task_row) res" where
  "create_agent_task e n d p =
     (case (ct_agent p, ct_runtime p, ct_issue p) of
        (Some a, Some r, Some i) \<Rightarrow>
          (let t = \<lparr>tk_id = e_gen e n, tk_agent = a, tk_issue = i, tk_status = Queued,
                    tk_priority = ct_priority p, tk_dispatched_at = None, tk_started_at = None,
                    tk_completed_at = None, tk_result = None, tk_error = None,
                    tk_created_at = e_now e, tk_context = None, tk_runtime = r, tk_session = None,
                    tk_work_dir = None, tk_trigger_comment = ct_trigger p, tk_retry_count = 0,
                    tk_max_retries = 3,
                    tk_task_type = (case ct_task_type p of None \<Rightarrow> ''standard'' | Some ty \<Rightarrow> ty),
                    tk_loop = ct_loop p, tk_active_run = None\<rparr>
           in or_fail (commit_stmt (d\<lparr>tasks := tasks d @ [t]\<rparr>)) (\<lambda>d'. Inr (d', t)))
      | _ \<Rightarrow> Inl ErrConstraint)"

text \<open>A queued task is claimable when no task of its issue is dispatched or running.\<close>

definition claimable :: "db \<Rightarrow> task_row \<Rightarrow> bool" where
  "claimable d t \<longleftrightarrow> tk_status t = Queued \<and>
     \<not> (\<exists>a\<in>set (tasks d). tk_issue a = tk_issue t \<and> active (tk_status a))"

definition claim_before :: "task_row \<Rightarrow> task_row \<Rightarrow> bool" where
  "claim_before a b \<longleftrightarrow> tk_priority b < tk_priority a \<or>
     tk_priority a = tk_priority b \<and> tk_created_at a < tk_created_at b"

definition new_run_row :: "env \<Rightarrow> task_row \<Rightarrow> run_row" where
  "new_run_row e t =
     \<lparr>rn_id = e_gen e 0, rn_task = tk_id t, rn_agent = Some (tk_agent t), rn_status = Dispatched,
      rn_started_at = Some (e_now e), rn_completed_at = None, rn_duration_ms = None,
      rn_exit_code = None, rn_total_steps = Some 0, rn_total_tokens = Some 0,
      rn_total_cost = Some (0, 0), rn_output = None, rn_error = None, rn_created_at = e_now e,
      rn_session = None, rn_work_dir = None\<rparr>"

definition dispatch_candidate :: "env \<Rightarrow> db \<Rightarrow> task_row \<Rightarrow> (db \<times> uuid \<times> uuid) res" where
  "dispatch_candidate e d t =
     (let run = new_run_row e t;
          ts = upd_where (\<lambda>x. tk_id x = tk_id t \<and> tk_status x = Queued)
                 (\<lambda>x. x\<lparr>tk_status := Dispatched, tk_dispatched_at := Some (e_now e),
                        tk_active_run := Some (rn_id run)\<rparr>) (tasks d)
      in or_fail (commit_stmt (d\<lparr>tasks := ts, runs := runs d @ [run]\<rparr>))
           (\<lambda>d'. Inr (d', tk_id t, rn_id run)))"

definition claim_agent_task_run :: "env \<Rightarrow> db \<Rightarrow> uuid option \<Rightarrow> (db \<times> uuid \<times> uuid) res" where
  "claim_agent_task_run e d agent =
     (case first_by claim_before
             (filter (\<lambda>t. Some (tk_agent t) = agent \<and> claimable d t \<and> \<not> e_locked e (tk_id t)) (tasks d)) of
        None \<Rightarrow> Inl ErrNoRows
      | Some t \<Rightarrow> dispatch_candidate e d t)"

definition claim_agent_task_run_by_id :: "env \<Rightarrow> db \<Rightarrow> uuid \<Rightarrow> (db \<times> uuid \<times> uuid) res" where
  "claim_agent_task_run_by_id e d i =
     or_fail (select_one (\<lambda>t. tk_id t = i \<and> claimable d t) (tasks d)) (dispatch_candidate e d)"

definition reject_queued_agent_task :: "env \<Rightarrow> db \<Rightarrow> uuid \<Rightarrow> pgtext \<Rightarrow> (db \<times> uuid) res" where
  "reject_queued_agent_task e d i err =
     (let P = (\<lambda>t. tk_id t = i \<and> tk_status t = Queued);
          f = (\<lambda>t. t\<lparr>tk_status := Failed, tk_completed_at := Some (e_now e), tk_error := err\<rparr>)
      in or_fail (select_one P (tasks d)) (\<lambda>t.
         or_fail (commit_stmt (d\<lparr>tasks := upd_where P f (tasks d),
             outbox := outbox d @ [new_outbox_row e 0 (tk_id t) None ''work_item.rejected'' 1
                                    (status_payload Failed)]\<rparr>))
           (\<lambda>d'. Inr (d', tk_id t))))"

text \<open>A \<^verbatim>\<open>UPDATE agent_task_queue ... WHERE P RETURNING *\<close> that must match a row.\<close>

definition update_task :: "db \<Rightarrow> (task_row \<Rightarrow> bool) \<Rightarrow> (task_row \<Rightarrow> task_row) \<Rightarrow> (db \<times> task_row) res" where
  "update_task d P f =
     or_fail (select_one P (tasks d)) (\<lambda>t.
     or_fail (commit_stmt (d\<lparr>tasks := upd_where P f (tasks d)\<rparr>)) (\<lambda>d'. Inr (d', f t)))"

definition update_run :: "db \<Rightarrow> (run_row \<Rightarrow> bool) \<Rightarrow> (run_row \<Rightarrow> run_row) \<Rightarrow> (db \<times> run_row) res" where
  "update_run d P f =
     or_fail (select_one P (runs d)) (\<lambda>r.
     or_fail (commit_stmt (d\<lparr>runs := upd_where P f (runs d)\<rparr>)) (\<lambda>d'. Inr (d', f r)))"

definition set_agent_task_running :: "env \<Rightarrow> db \<Rightarrow> uuid option \<Rightarrow> uuid option \<Rightarrow> (db \<times> task_row) res" where
  "set_agent_task_running e d i r =
     update_task d (\<lambda>t. Some (tk_id t) = i \<and> r \<noteq> None \<and> tk_active_run t = r \<and> tk_status t = Dispatched)
       (\<lambda>t. t\<lparr>tk_status := Running, tk_started_at := Some (e_now e)\<rparr>)"

definition complete_agent_task_for_run ::
    "env \<Rightarrow> db \<Rightarrow> uuid option \<Rightarrow> uuid option \<Rightarrow> string option \<Rightarrow> pgtext \<Rightarrow> pgtext \<Rightarrow> (db \<times> task_row) res" where
  "complete_agent_task_for_run e d i r result sess dir =
     update_task d (\<lambda>t. Some (tk_id t) = i \<and> r \<noteq> None \<and> tk_active_run t = r \<and> tk_status t = Running)
       (\<lambda>t. t\<lparr>tk_status := Completed, tk_completed_at := Some (e_now e), tk_result := result,
              tk_session := sess, tk_work_dir := dir, tk_active_run := None\<rparr>)"

definition checkpoint_agent_task_session_for_run ::
    "db \<Rightarrow> uuid option \<Rightarrow> uuid option \<Rightarrow> pgtext \<Rightarrow> pgtext \<Rightarrow> (db \<times> task_row) res" where
  "checkpoint_agent_task_session_for_run d i r sess dir =
     update_task d (\<lambda>t. Some (tk_id t) = i \<and> r \<noteq> None \<and> tk_active_run t = r \<and> tk_status t = Running)
       (\<lambda>t. t\<lparr>tk_session := sess, tk_work_dir := dir\<rparr>)"

definition fail_agent_task_for_run ::
    "env \<Rightarrow> db \<Rightarrow> uuid option \<Rightarrow> uuid option \<Rightarrow> pgtext \<Rightarrow> (db \<times> task_row) res" where
  "fail_agent_task_for_run e d i r err =
     update_task d (\<lambda>t. Some (tk_id t) = i \<and> r \<noteq> None \<and> tk_active_run t = r \<and> active (tk_status t))
       (\<lambda>t. t\<lparr>tk_status := Failed, tk_completed_at := Some (e_now e), tk_error := err,
              tk_active_run := None\<rparr>)"

definition requeued_task :: "task_row \<Rightarrow> task_row" where
  "requeued_task t = t\<lparr>tk_status := Queued, tk_completed_at := None, tk_error := None,
     tk_retry_count := tk_retry_count t + 1, tk_dispatched_at := None, tk_started_at := None,
     tk_active_run := None\<rparr>"

definition retry_agent_task :: "db \<Rightarrow> uuid option \<Rightarrow> (db \<times> task_row) res" where
  "retry_agent_task d i =
     update_task d (\<lambda>t. Some (tk_id t) = i \<and> (tk_status t = Failed \<or> active (tk_status t)) \<and>
                        tk_retry_count t < tk_max_retries t)
       requeued_task"

definition cancel_agent_task :: "env \<Rightarrow> db \<Rightarrow> uuid option \<Rightarrow> (db \<times> task_row) res" where
  "cancel_agent_task e d i =
     update_task d (\<lambda>t. Some (tk_id t) = i \<and> (tk_status t = Queued \<or> active (tk_status t)))
       (\<lambda>t. t\<lparr>tk_status := Cancelled, tk_completed_at := Some (e_now e), tk_active_run := None\<rparr>)"

definition count_running_tasks :: "db \<Rightarrow> uuid option \<Rightarrow> nat" where
  "count_running_tasks d a = length (filter (\<lambda>t. Some (tk_agent t) = a \<and> active (tk_status t)) (tasks d))"

definition has_active_task_for_issue :: "db \<Rightarrow> uuid option \<Rightarrow> bool" where
  "has_active_task_for_issue d i \<longleftrightarrow>
     (\<exists>t\<in>set (tasks d). Some (tk_issue t) = i \<and> (tk_status t = Queued \<or> active (tk_status t)))"

definition has_pending_task_for_issue :: "db \<Rightarrow> uuid option \<Rightarrow> bool" where
  "has_pending_task_for_issue d i \<longleftrightarrow> (\<exists>t\<in>set (tasks d). Some (tk_issue t) = i \<and> pending (tk_status t))"

definition has_pending_task_for_issue_and_agent :: "db \<Rightarrow> uuid option \<Rightarrow> uuid option \<Rightarrow> bool" where
  "has_pending_task_for_issue_and_agent d i a \<longleftrightarrow>
     (\<exists>t\<in>set (tasks d). Some (tk_issue t) = i \<and> Some (tk_agent t) = a \<and> pending (tk_status t))"

text \<open>\<^verbatim>\<open>ORDER BY priority DESC, created_at ASC\<close>, as an insertion sort on the claim order.\<close>

fun insert_by :: "('r \<Rightarrow> 'r \<Rightarrow> bool) \<Rightarrow> 'r \<Rightarrow> 'r list \<Rightarrow> 'r list" where
  "insert_by prior r [] = [r]"
| "insert_by prior r (s # ss) = (if prior s r then s # insert_by prior r ss else r # s # ss)"

definition sort_by :: "('r \<Rightarrow> 'r \<Rightarrow> bool) \<Rightarrow> 'r list \<Rightarrow> 'r list" where
  "sort_by prior rs = foldr (insert_by prior) rs []"

lemma set_insert_by: "set (insert_by prior r ss) = insert r (set ss)"
  by (induction ss) auto

lemma set_sort_by [simp]: "set (sort_by prior rs) = set rs"
  by (induction rs) (simp_all add: sort_by_def set_insert_by)

lemma distinct_sort_by: "distinct (map f (sort_by b rs)) = distinct (map f rs)"
proof -
  have ins: "distinct (map f (insert_by b r ss)) \<longleftrightarrow> f r \<notin> f ` set ss \<and> distinct (map f ss)" for r ss
    by (induction ss) (auto simp: set_insert_by)
  have "set (foldr (insert_by b) rs []) = set rs" for rs by (induction rs) (simp_all add: set_insert_by)
  then show ?thesis unfolding sort_by_def by (induction rs) (simp_all add: ins)
qed

definition list_pending_tasks_by_runtime :: "db \<Rightarrow> uuid option \<Rightarrow> task_row list" where
  "list_pending_tasks_by_runtime d r =
     sort_by claim_before (filter (\<lambda>t. Some (tk_runtime t) = r \<and> pending (tk_status t)) (tasks d))"

section \<open>Runs\<close>

definition set_task_run_running :: "env \<Rightarrow> db \<Rightarrow> uuid option \<Rightarrow> uuid option \<Rightarrow> (db \<times> run_row) res" where
  "set_task_run_running e d r t =
     update_run d (\<lambda>x. Some (rn_id x) = r \<and> Some (rn_task x) = t \<and> rn_status x = Dispatched)
       (\<lambda>x. x\<lparr>rn_status := Running, rn_started_at := Some (e_now e)\<rparr>)"

definition checkpoint_task_run :: "db \<Rightarrow> uuid option \<Rightarrow> pgtext \<Rightarrow> pgtext \<Rightarrow> (db \<times> run_row) res" where
  "checkpoint_task_run d r sess dir =
     update_run d (\<lambda>x. Some (rn_id x) = r \<and> rn_status x = Running)
       (\<lambda>x. x\<lparr>rn_session := sess, rn_work_dir := dir\<rparr>)"

record complete_run_params =
  cr_status :: wstatus
  cr_duration_ms :: "i32 option"
  cr_exit_code :: "i32 option"
  cr_total_steps :: "i32 option"
  cr_total_tokens :: "i32 option"
  cr_total_cost :: "numeric option"
  cr_output :: pgtext
  cr_error :: pgtext
  cr_session :: pgtext
  cr_work_dir :: pgtext

definition closed_run :: "env \<Rightarrow> complete_run_params \<Rightarrow> run_row \<Rightarrow> run_row" where
  "closed_run e p x = x\<lparr>rn_status := cr_status p, rn_completed_at := Some (e_now e),
     rn_duration_ms := cr_duration_ms p, rn_exit_code := cr_exit_code p,
     rn_total_steps := cr_total_steps p, rn_total_tokens := cr_total_tokens p,
     rn_total_cost := cr_total_cost p, rn_output := cr_output p, rn_error := cr_error p,
     rn_session := cr_session p, rn_work_dir := cr_work_dir p\<rparr>"

definition complete_task_run :: "env \<Rightarrow> db \<Rightarrow> uuid option \<Rightarrow> complete_run_params \<Rightarrow> (db \<times> run_row) res" where
  "complete_task_run e d r p = update_run d (\<lambda>x. Some (rn_id x) = r) (closed_run e p)"

text \<open>\<^verbatim>\<open>ORDER BY created_at DESC, id DESC LIMIT 1\<close>\<close>

definition run_newer :: "run_row \<Rightarrow> run_row \<Rightarrow> bool" where
  "run_newer a b \<longleftrightarrow> rn_created_at b < rn_created_at a \<or>
     rn_created_at a = rn_created_at b \<and> rn_id b < rn_id a"

definition latest_run :: "db \<Rightarrow> uuid option \<Rightarrow> run_row option" where
  "latest_run d t = first_by run_newer (filter (\<lambda>r. Some (rn_task r) = t) (runs d))"

definition get_latest_task_run :: "db \<Rightarrow> uuid option \<Rightarrow> run_row res" where
  "get_latest_task_run d t = (case latest_run d t of None \<Rightarrow> Inl ErrNoRows | Some r \<Rightarrow> Inr r)"

text \<open>\<^verbatim>\<open>GetActiveTaskRun\<close> (\<^verbatim>\<open>task_message.sql\<close>): the run, if the task points at it and both run.\<close>

definition get_active_task_run :: "db \<Rightarrow> uuid option \<Rightarrow> uuid option \<Rightarrow> run_row res" where
  "get_active_task_run d t r =
     select_one (\<lambda>x. Some (rn_id x) = r \<and> Some (rn_task x) = t \<and> rn_status x = Running \<and>
        (\<exists>k\<in>set (tasks d). tk_id k = rn_task x \<and> tk_active_run k = Some (rn_id x))) (runs d)"

section \<open>Batch statements\<close>

text \<open>
  Cancel by issue, cancel by agent, fail stale and fail offline share one shape: lock the
  target tasks, close their active runs, update the tasks, append one fact per target.
\<close>

definition batch_events :: "env \<Rightarrow> string \<Rightarrow> (uuid \<times> uuid option \<times> wstatus) list \<Rightarrow> outbox_row list" where
  "batch_events e ty xs =
     map (\<lambda>(n, w, r, s). new_outbox_row e n w r ty 1 (status_payload s)) (enumerate 0 xs)"

definition close_batch ::
    "env \<Rightarrow> db \<Rightarrow> (task_row \<Rightarrow> bool) \<Rightarrow> (run_row \<Rightarrow> run_row) \<Rightarrow> (task_row \<Rightarrow> task_row) \<Rightarrow> string
       \<Rightarrow> (db \<times> uuid list) res" where
  "close_batch e d P rf tf ty =
     (let targets = filter P (tasks d);
          rs = upd_where (\<lambda>r. Some (rn_id r) \<in> tk_active_run ` set targets \<and> active (rn_status r)) rf (runs d);
          ts = upd_where P tf (tasks d);
          evs = batch_events e ty (map (\<lambda>t. (tk_id t, tk_active_run t, tk_status (tf t))) targets)
      in or_fail (commit_stmt (d\<lparr>tasks := ts, runs := rs, outbox := outbox d @ evs\<rparr>))
           (\<lambda>d'. Inr (d', map tk_id targets)))"

definition cancelled_task :: "env \<Rightarrow> task_row \<Rightarrow> task_row" where
  "cancelled_task e t = t\<lparr>tk_status := Cancelled, tk_completed_at := Some (e_now e), tk_active_run := None\<rparr>"

definition failed_task :: "env \<Rightarrow> string \<Rightarrow> task_row \<Rightarrow> task_row" where
  "failed_task e msg t = t\<lparr>tk_status := Failed, tk_completed_at := Some (e_now e),
     tk_error := Some msg, tk_active_run := None\<rparr>"

definition cancelled_run :: "env \<Rightarrow> run_row \<Rightarrow> run_row" where
  "cancelled_run e r = r\<lparr>rn_status := Cancelled, rn_completed_at := Some (e_now e)\<rparr>"

definition failed_run :: "env \<Rightarrow> string \<Rightarrow> run_row \<Rightarrow> run_row" where
  "failed_run e msg r = r\<lparr>rn_status := Failed, rn_completed_at := Some (e_now e), rn_error := Some msg\<rparr>"

definition cancel_agent_tasks_by_issue :: "env \<Rightarrow> db \<Rightarrow> uuid option \<Rightarrow> (db \<times> uuid list) res" where
  "cancel_agent_tasks_by_issue e d i =
     close_batch e d (\<lambda>t. Some (tk_issue t) = i \<and> (tk_status t = Queued \<or> active (tk_status t)))
       (cancelled_run e) (cancelled_task e) ''run.cancelled''"

definition cancel_agent_tasks_by_agent :: "env \<Rightarrow> db \<Rightarrow> uuid option \<Rightarrow> (db \<times> uuid list) res" where
  "cancel_agent_tasks_by_agent e d a =
     close_batch e d (\<lambda>t. Some (tk_agent t) = a \<and> (tk_status t = Queued \<or> active (tk_status t)))
       (cancelled_run e) (cancelled_task e) ''run.cancelled''"

definition older_than :: "time \<Rightarrow> time \<Rightarrow> time option \<Rightarrow> bool" where
  "older_than now limit at \<longleftrightarrow> (case at of None \<Rightarrow> False | Some x \<Rightarrow> x < now - limit)"

definition stale_task :: "env \<Rightarrow> time \<Rightarrow> time \<Rightarrow> task_row \<Rightarrow> bool" where
  "stale_task e dispatch_timeout running_timeout t \<longleftrightarrow>
     tk_status t = Dispatched \<and> older_than (e_now e) dispatch_timeout (tk_dispatched_at t) \<or>
     tk_status t = Running \<and> older_than (e_now e) running_timeout (tk_started_at t)"

definition fail_stale_tasks_stmt :: "env \<Rightarrow> db \<Rightarrow> time \<Rightarrow> time \<Rightarrow> (db \<times> uuid list) res" where
  "fail_stale_tasks_stmt e d dispatch_timeout running_timeout =
     close_batch e d (stale_task e dispatch_timeout running_timeout)
       (failed_run e ''task timed out'') (failed_task e ''task timed out'') ''run.failed''"

definition offline_runtime :: "db \<Rightarrow> uuid \<Rightarrow> bool" where
  "offline_runtime d r \<longleftrightarrow> (\<exists>x\<in>set (runtimes d). rt_id x = r \<and> rt_status x = ''offline'')"

definition fail_tasks_for_offline_runtimes_stmt :: "env \<Rightarrow> db \<Rightarrow> (db \<times> uuid list) res" where
  "fail_tasks_for_offline_runtimes_stmt e d =
     close_batch e d (\<lambda>t. active (tk_status t) \<and> offline_runtime d (tk_runtime t))
       (failed_run e ''runtime went offline'') (failed_task e ''runtime went offline'') ''run.failed''"

text \<open>
  Recovery after a daemon restart: requeue what has retry budget left, fail the rest; a task
  the offline sweep already failed is picked up again, and then its latest run is the one
  the fact names.
\<close>

definition recover_target :: "uuid option \<Rightarrow> task_row \<Rightarrow> bool" where
  "recover_target r t \<longleftrightarrow> Some (tk_runtime t) = r \<and>
     (active (tk_status t) \<or> tk_status t = Failed \<and> tk_error t = Some ''runtime went offline'')"

definition recover_run_id :: "db \<Rightarrow> task_row \<Rightarrow> uuid option" where
  "recover_run_id d t = (case tk_active_run t of Some r \<Rightarrow> Some r
     | None \<Rightarrow> map_option rn_id (latest_run d (Some (tk_id t))))"

definition recovered_task :: "env \<Rightarrow> task_row \<Rightarrow> task_row" where
  "recovered_task e t =
     (let retry = tk_retry_count t < tk_max_retries t in
      t\<lparr>tk_status := (if retry then Queued else Failed),
        tk_completed_at := (if retry then None else Some (e_now e)),
        tk_error := (if retry then None else Some ''runtime restarted and retry budget was exhausted''),
        tk_retry_count := (if retry then tk_retry_count t + 1 else tk_retry_count t),
        tk_dispatched_at := None, tk_started_at := None, tk_active_run := None\<rparr>)"

definition recover_event_type :: "wstatus \<Rightarrow> string" where
  "recover_event_type s = (if s = Queued then ''run.retry_scheduled'' else ''run.failed'')"

definition recover_tasks_for_runtime_stmt ::
    "env \<Rightarrow> db \<Rightarrow> uuid option \<Rightarrow> (db \<times> (uuid \<times> uuid option \<times> wstatus) list) res" where
  "recover_tasks_for_runtime_stmt e d rt =
     (let targets = filter (recover_target rt) (tasks d);
          rs = upd_where (\<lambda>r. Some (rn_id r) \<in> recover_run_id d ` set targets \<and> active (rn_status r))
                 (failed_run e ''runtime restarted; task queued for resume'') (runs d);
          ts = upd_where (recover_target rt) (recovered_task e) (tasks d);
          emitting = filter (\<lambda>t. tk_status (recovered_task e t) = Queued \<or> active (tk_status t)) targets;
          evs = map (\<lambda>(n, t). new_outbox_row e n (tk_id t) (recover_run_id d t)
                     (recover_event_type (tk_status (recovered_task e t))) 1
                     (status_payload (tk_status (recovered_task e t)))) (enumerate 0 emitting)
      in or_fail (commit_stmt (d\<lparr>tasks := ts, runs := rs, outbox := outbox d @ evs\<rparr>))
           (\<lambda>d'. Inr (d', map (\<lambda>t. (tk_id t, recover_run_id d t, tk_status (recovered_task e t))) targets)))"

end
