(* ===== verification/RunLifecycle.thy ===== *)
theory RunLifecycle
  imports Queries
begin

text \<open>
  The authoritative write module of attempt-scoped transitions
  (\<^verbatim>\<open>server/internal/service/run_lifecycle.go\<close>, \<^verbatim>\<open>lifecycle_event.go\<close>): one definition per
  method of \<^verbatim>\<open>RunLifecycle\<close>. A method that runs a transaction returns the new state only on
  commit; an error carries no state, because the deferred rollback discards the transaction.
\<close>

section \<open>Identities, events, helpers\<close>

record run_ref =
  rr_work_item :: "uuid option"
  rr_run :: "uuid option"

record run_completion =
  rc_result :: "string option"
  rc_session :: string
  rc_work_dir :: string
  rc_duration_ms :: i64
  rc_total_tokens :: i64

text \<open>Which parts of the receiver are not nil: the module, its connection pool, its queries.\<close>

record lifecycle_handle =
  lh_self :: bool
  lh_starter :: bool
  lh_queries :: bool

definition lifecycle_event_version :: int where
  "lifecycle_event_version = 1"

definition ev_started :: string where "ev_started = ''run.started''"
definition ev_checkpoint :: string where "ev_checkpoint = ''run.checkpointed''"
definition ev_completed :: string where "ev_completed = ''run.completed''"
definition ev_failed :: string where "ev_failed = ''run.failed''"
definition ev_retry :: string where "ev_retry = ''run.retry_scheduled''"
definition ev_cancelled :: string where "ev_cancelled = ''run.cancelled''"
definition ev_rejected :: string where "ev_rejected = ''work_item.rejected''"

lemmas ev_defs = ev_started_def ev_checkpoint_def ev_completed_def ev_failed_def ev_retry_def
  ev_cancelled_def ev_rejected_def

definition opt_text :: "string \<Rightarrow> pgtext" where
  "opt_text s = (if s = '''' then None else Some s)"

definition contains_status :: "wstatus list \<Rightarrow> wstatus \<Rightarrow> bool" where
  "contains_status ss s \<longleftrightarrow> s \<in> set ss"

text \<open>\<^verbatim>\<open>clampInt32\<close>: \<^verbatim>\<open>^uint32(0) >> 1\<close> is the largest 32-bit integer.\<close>

definition clamp_int32 :: "i64 \<Rightarrow> i32" where
  "clamp_int32 v = (if 2147483647 < sint v then 2147483647 else if sint v < 0 then 0 else ucast v)"

text \<open>
  \<^verbatim>\<open>time.Since(t).Milliseconds()\<close>: the difference saturates at the 64-bit bounds and the
  division truncates toward zero.
\<close>

definition since_ms :: "env \<Rightarrow> time \<Rightarrow> i64" where
  "since_ms e t = (let ns = max (- (2 ^ 63)) (min (2 ^ 63 - 1) (e_wall e - t))
                   in word_of_int (sgn ns * (\<bar>ns\<bar> div 1000000)))"

definition append_event :: "env \<Rightarrow> db \<Rightarrow> string \<Rightarrow> task_row \<Rightarrow> uuid option \<Rightarrow> db res" where
  "append_event e d ty t r =
     or_wrap (''append '' @ ty @ '' lifecycle event'')
       (append_lifecycle_outbox_event e 1 d (tk_id t) r ty lifecycle_event_version (status_payload (tk_status t)))
       (\<lambda>(d', _). Inr d')"

text \<open>Lock the Work Item and the Run, check that they belong together, apply, commit.\<close>

definition with_locked_run ::
    "lifecycle_handle \<Rightarrow> env \<Rightarrow> db \<Rightarrow> run_ref \<Rightarrow> wstatus list \<Rightarrow> wstatus list
       \<Rightarrow> (db \<Rightarrow> task_row \<Rightarrow> run_row \<Rightarrow> (db \<times> task_row) res) \<Rightarrow> (db \<times> task_row) res" where
  "with_locked_run l e d ref task_statuses run_statuses app =
     (if \<not> (lh_self l \<and> lh_starter l \<and> lh_queries l) then Inl ErrLifecycleUnavailable
      else if rr_work_item ref = None \<or> rr_run ref = None then Inl ErrStaleRun
      else if \<not> e_begin e then Inl (ErrWrap ''begin lifecycle transition'' (ErrInfra ''begin''))
      else (case get_task d (rr_work_item ref) of
              Inl _ \<Rightarrow> Inl ErrStaleRun
            | Inr task \<Rightarrow>
                (case get_run d (rr_run ref) of
                   Inl _ \<Rightarrow> Inl ErrStaleRun
                 | Inr run \<Rightarrow>
                     if Some (rn_task run) \<noteq> rr_work_item ref \<or> tk_active_run task \<noteq> rr_run ref \<or>
                        tk_status task \<noteq> rn_status run \<or>
                        \<not> contains_status task_statuses (tk_status task) \<or>
                        \<not> contains_status run_statuses (rn_status run)
                     then Inl ErrStaleRun
                     else or_fail (app d task run) (\<lambda>out.
                       if e_commit e then Inr out
                       else Inl (ErrWrap ''commit lifecycle transition'' (ErrInfra ''commit''))))))"

section \<open>Transitions of one Run\<close>

definition lc_start :: "lifecycle_handle \<Rightarrow> env \<Rightarrow> db \<Rightarrow> run_ref \<Rightarrow> (db \<times> task_row) res" where
  "lc_start l e d ref = with_locked_run l e d ref [Dispatched] [Dispatched] (\<lambda>d _ _.
     or_wrap ''start run'' (set_task_run_running e d (rr_run ref) (rr_work_item ref)) (\<lambda>(d, _).
     or_wrap ''start work item'' (set_agent_task_running e d (rr_work_item ref) (rr_run ref)) (\<lambda>(d, task).
     or_fail (append_event e d ev_started task (rr_run ref)) (\<lambda>d. Inr (d, task)))))"

definition lc_assert_running :: "lifecycle_handle \<Rightarrow> db \<Rightarrow> run_ref \<Rightarrow> task_row res" where
  "lc_assert_running l d ref =
     (if \<not> (lh_self l \<and> lh_queries l) then Inl ErrLifecycleUnavailable
      else if rr_work_item ref = None \<or> rr_run ref = None then Inl ErrStaleRun
      else (case get_active_task_run d (rr_work_item ref) (rr_run ref) of
              Inl _ \<Rightarrow> Inl ErrStaleRun
            | Inr _ \<Rightarrow> (case get_task d (rr_work_item ref) of
                Inl _ \<Rightarrow> Inl ErrStaleRun
              | Inr task \<Rightarrow> if tk_status task \<noteq> Running \<or> tk_active_run task \<noteq> rr_run ref
                            then Inl ErrStaleRun else Inr task)))"

definition lc_status :: "lifecycle_handle \<Rightarrow> db \<Rightarrow> run_ref \<Rightarrow> task_row res" where
  "lc_status l d ref =
     (if \<not> (lh_self l \<and> lh_queries l) \<or> rr_work_item ref = None \<or> rr_run ref = None then Inl ErrStaleRun
      else (case get_task d (rr_work_item ref) of
              Inl _ \<Rightarrow> Inl ErrStaleRun
            | Inr task \<Rightarrow>
                (case tk_active_run task of
                   Some r \<Rightarrow> if Some r \<noteq> rr_run ref then Inl ErrStaleRun else Inr task
                 | None \<Rightarrow> (case get_latest_task_run d (rr_work_item ref) of
                     Inl _ \<Rightarrow> Inl ErrStaleRun
                   | Inr latest \<Rightarrow> if Some (rn_id latest) \<noteq> rr_run ref then Inl ErrStaleRun else Inr task))))"

definition lc_checkpoint ::
    "lifecycle_handle \<Rightarrow> env \<Rightarrow> db \<Rightarrow> run_ref \<Rightarrow> string \<Rightarrow> string \<Rightarrow> (db \<times> task_row) res" where
  "lc_checkpoint l e d ref session_id work_dir = with_locked_run l e d ref [Running] [Running] (\<lambda>d _ _.
     or_wrap ''checkpoint run''
       (checkpoint_task_run d (rr_run ref) (opt_text session_id) (opt_text work_dir)) (\<lambda>(d, _).
     or_wrap ''checkpoint work item''
       (checkpoint_agent_task_session_for_run d (rr_work_item ref) (rr_run ref)
          (opt_text session_id) (opt_text work_dir)) (\<lambda>(d, task).
     or_fail (append_event e d ev_checkpoint task (rr_run ref)) (\<lambda>d. Inr (d, task)))))"

definition completion_params :: "run_completion \<Rightarrow> complete_run_params" where
  "completion_params c =
     \<lparr>cr_status = Completed, cr_duration_ms = Some (clamp_int32 (rc_duration_ms c)),
      cr_exit_code = Some 0, cr_total_steps = Some 0,
      cr_total_tokens = Some (clamp_int32 (rc_total_tokens c)), cr_total_cost = None,
      cr_output = (case rc_result c of None \<Rightarrow> None | Some s \<Rightarrow> opt_text s), cr_error = None,
      cr_session = opt_text (rc_session c), cr_work_dir = opt_text (rc_work_dir c)\<rparr>"

definition lc_complete ::
    "lifecycle_handle \<Rightarrow> env \<Rightarrow> db \<Rightarrow> run_ref \<Rightarrow> run_completion \<Rightarrow> (db \<times> task_row) res" where
  "lc_complete l e d ref c = with_locked_run l e d ref [Running] [Running] (\<lambda>d _ _.
     or_wrap ''complete run'' (complete_task_run e d (rr_run ref) (completion_params c)) (\<lambda>(d, _).
     or_wrap ''complete work item''
       (complete_agent_task_for_run e d (rr_work_item ref) (rr_run ref) (rc_result c)
          (opt_text (rc_session c)) (opt_text (rc_work_dir c))) (\<lambda>(d, task).
     or_fail (append_event e d ev_completed task (rr_run ref)) (\<lambda>d. Inr (d, task)))))"

definition failure_params :: "env \<Rightarrow> run_row \<Rightarrow> string \<Rightarrow> complete_run_params" where
  "failure_params e run msg =
     \<lparr>cr_status = Failed,
      cr_duration_ms = Some (clamp_int32 (case rn_started_at run of None \<Rightarrow> 0 | Some t \<Rightarrow> since_ms e t)),
      cr_exit_code = None, cr_total_steps = rn_total_steps run,
      cr_total_tokens = rn_total_tokens run, cr_total_cost = rn_total_cost run,
      cr_output = rn_output run, cr_error = opt_text msg,
      cr_session = rn_session run, cr_work_dir = rn_work_dir run\<rparr>"

definition lc_fail_with ::
    "lifecycle_handle \<Rightarrow> env \<Rightarrow> db \<Rightarrow> run_ref \<Rightarrow> string \<Rightarrow> wstatus list \<Rightarrow> (db \<times> task_row) res" where
  "lc_fail_with l e d ref msg allowed = with_locked_run l e d ref allowed allowed (\<lambda>d _ run.
     or_wrap ''fail run'' (complete_task_run e d (rr_run ref) (failure_params e run msg)) (\<lambda>(d, _).
     or_wrap ''fail work item''
       (fail_agent_task_for_run e d (rr_work_item ref) (rr_run ref) (Some msg)) (\<lambda>(d, task).
     or_fail (append_event e d ev_failed task (rr_run ref)) (\<lambda>d. Inr (d, task)))))"

definition lc_fail :: "lifecycle_handle \<Rightarrow> env \<Rightarrow> db \<Rightarrow> run_ref \<Rightarrow> string \<Rightarrow> (db \<times> task_row) res" where
  "lc_fail l e d ref msg = lc_fail_with l e d ref msg [Dispatched, Running]"

definition retry_params :: "run_row \<Rightarrow> string \<Rightarrow> complete_run_params" where
  "retry_params run msg =
     \<lparr>cr_status = Failed, cr_duration_ms = None, cr_exit_code = None,
      cr_total_steps = rn_total_steps run, cr_total_tokens = rn_total_tokens run,
      cr_total_cost = rn_total_cost run, cr_output = rn_output run, cr_error = opt_text msg,
      cr_session = rn_session run, cr_work_dir = rn_work_dir run\<rparr>"

definition lc_retry_tx :: "lifecycle_handle \<Rightarrow> env \<Rightarrow> db \<Rightarrow> run_ref \<Rightarrow> string \<Rightarrow> (db \<times> task_row) res" where
  "lc_retry_tx l e d ref msg =
     with_locked_run l e d ref [Dispatched, Running] [Dispatched, Running] (\<lambda>d _ run.
       or_wrap ''close run for retry'' (complete_task_run e d (rr_run ref) (retry_params run msg)) (\<lambda>(d, _).
       or_wrap ''retry work item'' (retry_agent_task d (rr_work_item ref)) (\<lambda>(d, task).
       or_fail (append_event e d ev_retry task (rr_run ref)) (\<lambda>d. Inr (d, task)))))"

text \<open>
  \<^verbatim>\<open>RetryActive\<close> returns \<^verbatim>\<open>(task, retried, err)\<close>: no row updated means the budget is spent, which
  is reported as \<open>None\<close> (not retried) and not as an error.
\<close>

definition lc_retry_active ::
    "lifecycle_handle \<Rightarrow> env \<Rightarrow> db \<Rightarrow> run_ref \<Rightarrow> string \<Rightarrow> (db \<times> task_row option) res" where
  "lc_retry_active l e d ref msg =
     (case lc_retry_tx l e d ref msg of
        Inl err \<Rightarrow> if error_is err ErrNoRows then Inr (d, None) else Inl err
      | Inr (d', task) \<Rightarrow> Inr (d', Some task))"

section \<open>Cancellation\<close>

definition cancel_params :: "run_row \<Rightarrow> complete_run_params" where
  "cancel_params run =
     \<lparr>cr_status = Cancelled, cr_duration_ms = None, cr_exit_code = None,
      cr_total_steps = rn_total_steps run, cr_total_tokens = rn_total_tokens run,
      cr_total_cost = rn_total_cost run, cr_output = rn_output run, cr_error = rn_error run,
      cr_session = rn_session run, cr_work_dir = rn_work_dir run\<rparr>"

definition close_active_for_cancel :: "env \<Rightarrow> db \<Rightarrow> task_row \<Rightarrow> uuid option \<Rightarrow> db res" where
  "close_active_for_cancel e d locked work_item =
     (case tk_active_run locked of
        Some r \<Rightarrow>
          (case get_run d (Some r) of
             Inl _ \<Rightarrow> Inl ErrStaleRun
           | Inr run \<Rightarrow>
               if Some (rn_task run) \<noteq> work_item \<or> tk_status locked \<noteq> rn_status run \<or>
                  \<not> contains_status [Dispatched, Running] (rn_status run)
               then Inl ErrStaleRun
               else or_wrap ''cancel run'' (complete_task_run e d (Some (rn_id run)) (cancel_params run))
                      (\<lambda>(d, _). Inr d))
      | None \<Rightarrow> if contains_status [Dispatched, Running] (tk_status locked) then Inl ErrStaleRun else Inr d)"

definition lc_cancel :: "lifecycle_handle \<Rightarrow> env \<Rightarrow> db \<Rightarrow> uuid option \<Rightarrow> (db \<times> task_row \<times> uuid option) res" where
  "lc_cancel l e d work_item =
     (if \<not> (lh_self l \<and> lh_starter l \<and> lh_queries l) \<or> work_item = None then Inl ErrLifecycleUnavailable
      else if \<not> e_begin e then Inl (ErrWrap ''begin cancel transition'' (ErrInfra ''begin''))
      else or_fail (get_task d work_item) (\<lambda>locked.
           or_fail (close_active_for_cancel e d locked work_item) (\<lambda>d1.
           or_wrap ''cancel work item'' (cancel_agent_task e d1 work_item) (\<lambda>(d2, task).
           or_fail (append_event e d2 ev_cancelled task (tk_active_run locked)) (\<lambda>d3.
             if e_commit e then Inr (d3, task, tk_active_run locked)
             else Inl (ErrWrap ''commit cancel transition'' (ErrInfra ''commit'')))))))"

definition lc_cancel_for_issue :: "lifecycle_handle \<Rightarrow> env \<Rightarrow> db \<Rightarrow> uuid option \<Rightarrow> (db \<times> nat) res" where
  "lc_cancel_for_issue l e d i =
     (if \<not> (lh_self l \<and> lh_queries l) \<or> i = None then Inl ErrLifecycleUnavailable
      else or_wrap ''cancel issue work items'' (cancel_agent_tasks_by_issue e d i)
             (\<lambda>(d', evs). Inr (d', length evs)))"

definition lc_cancel_for_agent :: "lifecycle_handle \<Rightarrow> env \<Rightarrow> db \<Rightarrow> uuid option \<Rightarrow> (db \<times> nat) res" where
  "lc_cancel_for_agent l e d a =
     (if \<not> (lh_self l \<and> lh_queries l) \<or> a = None then Inl ErrLifecycleUnavailable
      else or_wrap ''cancel agent work items'' (cancel_agent_tasks_by_agent e d a)
             (\<lambda>(d', evs). Inr (d', length evs)))"

section \<open>Sweeps and recovery\<close>

definition lc_fail_stale_tasks :: "lifecycle_handle \<Rightarrow> env \<Rightarrow> db \<Rightarrow> time \<Rightarrow> time \<Rightarrow> (db \<times> nat) res" where
  "lc_fail_stale_tasks l e d dispatch_timeout running_timeout =
     (if \<not> (lh_self l \<and> lh_queries l) then Inl ErrLifecycleUnavailable
      else or_wrap ''fail stale work items'' (fail_stale_tasks_stmt e d dispatch_timeout running_timeout)
             (\<lambda>(d', evs). Inr (d', length evs)))"

definition lc_fail_tasks_for_offline_runtimes :: "lifecycle_handle \<Rightarrow> env \<Rightarrow> db \<Rightarrow> (db \<times> nat) res" where
  "lc_fail_tasks_for_offline_runtimes l e d =
     (if \<not> (lh_self l \<and> lh_queries l) then Inl ErrLifecycleUnavailable
      else or_wrap ''fail offline runtime work items'' (fail_tasks_for_offline_runtimes_stmt e d)
             (\<lambda>(d', evs). Inr (d', length evs)))"

definition lc_recover_tasks_for_runtime :: "lifecycle_handle \<Rightarrow> env \<Rightarrow> db \<Rightarrow> uuid option \<Rightarrow> (db \<times> nat \<times> nat) res" where
  "lc_recover_tasks_for_runtime l e d rt =
     (if \<not> (lh_self l \<and> lh_queries l) \<or> rt = None then Inl ErrLifecycleUnavailable
      else or_wrap ''recover runtime work items'' (recover_tasks_for_runtime_stmt e d rt)
             (\<lambda>(d', rows). Inr (d', length (filter (\<lambda>(_, _, s). s = Queued) rows),
                                    length (filter (\<lambda>(_, _, s). s = Failed) rows))))"

end
