(* ===== verification/LifecycleInv.thy ===== *)
theory LifecycleInv
  imports RunLifecycle
begin

text \<open>
  The invariant of the Work Item lifecycle (\<^verbatim>\<open>CONTEXT.md\<close>, "Lifecycle invariants") and the
  general lemmas by which every operation is shown to keep it: one for statements that
  rewrite rows in place, one for a transition of a single Work Item and its Run.
\<close>

section \<open>The invariant\<close>

definition runs_of :: "db \<Rightarrow> uuid \<Rightarrow> nat" where
  "runs_of d i = length (filter (\<lambda>r. rn_task r = i) (runs d))"

text \<open>
  A dispatched or running Work Item points at a Run of its own in the same status; any other
  points at none; a Run that is dispatched or running is the one its Work Item points at.
\<close>

definition linked :: "db \<Rightarrow> bool" where
  "linked d \<longleftrightarrow>
     (\<forall>t\<in>set (tasks d). active (tk_status t) \<longrightarrow>
        (\<exists>r\<in>set (runs d). tk_active_run t = Some (rn_id r) \<and> rn_task r = tk_id t \<and>
           rn_status r = tk_status t)) \<and>
     (\<forall>t\<in>set (tasks d). \<not> active (tk_status t) \<longrightarrow> tk_active_run t = None) \<and>
     (\<forall>r\<in>set (runs d). active (rn_status r) \<longrightarrow>
        (\<exists>t\<in>set (tasks d). tk_id t = rn_task r \<and> tk_active_run t = Some (rn_id r)))"

text \<open>The attempts a Work Item may have used: one per retry, and one more once it was claimed.\<close>

definition allowance :: "task_row \<Rightarrow> int" where
  "allowance t = tk_retry_count t + (if tk_status t = Queued then 0 else 1)"

definition within_budget :: "db \<Rightarrow> bool" where
  "within_budget d \<longleftrightarrow> (\<forall>t\<in>set (tasks d).
     0 \<le> tk_retry_count t \<and> tk_retry_count t \<le> tk_max_retries t \<and> int (runs_of d (tk_id t)) \<le> allowance t)"

definition serial_per_issue :: "db \<Rightarrow> bool" where
  "serial_per_issue d \<longleftrightarrow> distinct (map tk_issue (filter (\<lambda>t. active (tk_status t)) (tasks d)))"

definition facts_bound :: "db \<Rightarrow> bool" where
  "facts_bound d \<longleftrightarrow> (\<forall>e\<in>set (outbox d). \<forall>i. ob_run e = Some i \<longrightarrow>
     (\<exists>r\<in>set (runs d). rn_id r = i \<and> rn_task r = ob_work_item e))"

definition lc_inv :: "db \<Rightarrow> bool" where
  "lc_inv d \<longleftrightarrow> db_constraints d \<and> linked d \<and> within_budget d \<and> serial_per_issue d \<and> facts_bound d"

lemma lc_invD:
  assumes "lc_inv d"
  shows "db_constraints d" "linked d" "within_budget d" "serial_per_issue d" "facts_bound d"
  using assms by (simp_all add: lc_inv_def)

lemma constraints_keys:
  assumes "db_constraints d"
  shows "distinct (map tk_id (tasks d))" "distinct (map rn_id (runs d))" "distinct (map ob_id (outbox d))"
  using assms by (simp_all add: constraint_defs)

lemma same_task:
  "db_constraints d \<Longrightarrow> t \<in> set (tasks d) \<Longrightarrow> u \<in> set (tasks d) \<Longrightarrow> tk_id t = tk_id u \<Longrightarrow> t = u"
  by (rule distinct_key_eq [OF constraints_keys(1)])

lemma same_run:
  "db_constraints d \<Longrightarrow> r \<in> set (runs d) \<Longrightarrow> s \<in> set (runs d) \<Longrightarrow> rn_id r = rn_id s \<Longrightarrow> r = s"
  by (rule distinct_key_eq [OF constraints_keys(2)])

lemma active_linked:
  assumes "linked d" "t \<in> set (tasks d)" "active (tk_status t)"
  obtains r where "r \<in> set (runs d)" "tk_active_run t = Some (rn_id r)" "rn_task r = tk_id t"
    "rn_status r = tk_status t"
  using assms by (auto simp: linked_def)

lemma inactive_unlinked: "linked d \<Longrightarrow> t \<in> set (tasks d) \<Longrightarrow> \<not> active (tk_status t) \<Longrightarrow> tk_active_run t = None"
  by (simp add: linked_def)

lemma run_linked:
  assumes "linked d" "r \<in> set (runs d)" "active (rn_status r)"
  obtains t where "t \<in> set (tasks d)" "tk_id t = rn_task r" "tk_active_run t = Some (rn_id r)"
  using assms by (auto simp: linked_def)

lemma runs_of_map:
  "runs d' = map G (runs d) \<Longrightarrow> (\<And>r. r \<in> set (runs d) \<Longrightarrow> rn_task (G r) = rn_task r) \<Longrightarrow> runs_of d' i = runs_of d i"
proof -
  assume eq: "runs d' = map G (runs d)" and G: "\<And>r. r \<in> set (runs d) \<Longrightarrow> rn_task (G r) = rn_task r"
  have "filter (\<lambda>r. rn_task r = i) (map G (runs d)) = map G (filter (\<lambda>r. rn_task (G r) = i) (runs d))"
    by (simp add: filter_map comp_def)
  also have "filter (\<lambda>r. rn_task (G r) = i) (runs d) = filter (\<lambda>r. rn_task r = i) (runs d)"
    using G by (intro filter_cong) auto
  finally show ?thesis by (simp add: runs_of_def eq)
qed

section \<open>Statements that rewrite rows in place\<close>

text \<open>
  What a pointwise rewriting of the tasks (\<open>F\<close>) and runs (\<open>G\<close>) has to respect. The pair
  condition is the heart: a Work Item and the Run it points at move together.
\<close>

definition rewrite_ok :: "db \<Rightarrow> (task_row \<Rightarrow> task_row) \<Rightarrow> (run_row \<Rightarrow> run_row) \<Rightarrow> bool" where
  "rewrite_ok d F G \<longleftrightarrow>
     (\<forall>t\<in>set (tasks d). tk_id (F t) = tk_id t \<and> tk_issue (F t) = tk_issue t \<and>
        0 \<le> tk_retry_count (F t) \<and> tk_retry_count (F t) \<le> tk_max_retries (F t) \<and> allowance t \<le> allowance (F t) \<and>
        (active (tk_status (F t)) \<longrightarrow> active (tk_status t) \<and> tk_active_run (F t) = tk_active_run t) \<and>
        (\<not> active (tk_status (F t)) \<longrightarrow> tk_active_run (F t) = None)) \<and>
     (\<forall>r\<in>set (runs d). rn_id (G r) = rn_id r \<and> rn_task (G r) = rn_task r \<and>
        (active (rn_status (G r)) \<longrightarrow> active (rn_status r))) \<and>
     (\<forall>t\<in>set (tasks d). \<forall>r\<in>set (runs d). tk_active_run t = Some (rn_id r) \<longrightarrow> rn_task r = tk_id t \<longrightarrow>
        active (tk_status t) \<longrightarrow> rn_status r = tk_status t \<longrightarrow>
        (active (tk_status (F t)) \<longrightarrow> rn_status (G r) = tk_status (F t)) \<and>
        (active (rn_status (G r)) \<longrightarrow> active (tk_status (F t))))"

lemma rewrite_okD:
  assumes "rewrite_ok d F G"
  shows "t \<in> set (tasks d) \<Longrightarrow> tk_id (F t) = tk_id t" "t \<in> set (tasks d) \<Longrightarrow> tk_issue (F t) = tk_issue t"
    "t \<in> set (tasks d) \<Longrightarrow> 0 \<le> tk_retry_count (F t) \<and> tk_retry_count (F t) \<le> tk_max_retries (F t)"
    "t \<in> set (tasks d) \<Longrightarrow> allowance t \<le> allowance (F t)"
    "t \<in> set (tasks d) \<Longrightarrow> active (tk_status (F t)) \<Longrightarrow> active (tk_status t) \<and> tk_active_run (F t) = tk_active_run t"
    "t \<in> set (tasks d) \<Longrightarrow> \<not> active (tk_status (F t)) \<Longrightarrow> tk_active_run (F t) = None"
    "r \<in> set (runs d) \<Longrightarrow> rn_id (G r) = rn_id r" "r \<in> set (runs d) \<Longrightarrow> rn_task (G r) = rn_task r"
    "r \<in> set (runs d) \<Longrightarrow> active (rn_status (G r)) \<Longrightarrow> active (rn_status r)"
    "t \<in> set (tasks d) \<Longrightarrow> r \<in> set (runs d) \<Longrightarrow> tk_active_run t = Some (rn_id r) \<Longrightarrow> rn_task r = tk_id t \<Longrightarrow>
       active (tk_status t) \<Longrightarrow> rn_status r = tk_status t \<Longrightarrow>
       (active (tk_status (F t)) \<longrightarrow> rn_status (G r) = tk_status (F t)) \<and>
       (active (rn_status (G r)) \<longrightarrow> active (tk_status (F t)))"
  using assms unfolding rewrite_ok_def by blast+

lemma linked_rewrite:
  assumes L: "linked d" and C: "db_constraints d" and ok: "rewrite_ok d F G"
    and ts: "tasks d' = map F (tasks d)" and rs: "runs d' = map G (runs d)"
  shows "linked d'"
  unfolding linked_def
proof (intro conjI ballI impI)
  fix t' assume t': "t' \<in> set (tasks d')" "active (tk_status t')"
  then obtain t where t: "t \<in> set (tasks d)" "t' = F t" using ts by auto
  with rewrite_okD(5) [OF ok] t' have act: "active (tk_status t)" "tk_active_run (F t) = tk_active_run t" by auto
  from L t(1) act(1) obtain r where r: "r \<in> set (runs d)" "tk_active_run t = Some (rn_id r)"
    "rn_task r = tk_id t" "rn_status r = tk_status t" by (rule active_linked)
  with rewrite_okD(10) [OF ok t(1) r(1)] act t'(2) t(2) have "rn_status (G r) = tk_status (F t)" by auto
  then show "\<exists>r\<in>set (runs d'). tk_active_run t' = Some (rn_id r) \<and> rn_task r = tk_id t' \<and> rn_status r = tk_status t'"
    using r act t rs rewrite_okD(1,7,8) [OF ok] by (intro bexI [of _ "G r"]) auto
next
  fix t' assume t': "t' \<in> set (tasks d')" "\<not> active (tk_status t')"
  then show "tk_active_run t' = None" using ts rewrite_okD(6) [OF ok] by auto
next
  fix r' assume r': "r' \<in> set (runs d')" "active (rn_status r')"
  then obtain r where r: "r \<in> set (runs d)" "r' = G r" using rs by auto
  with r' rewrite_okD(9) [OF ok] have act: "active (rn_status r)" by auto
  from L r(1) act obtain t where t: "t \<in> set (tasks d)" "tk_id t = rn_task r" "tk_active_run t = Some (rn_id r)"
    by (rule run_linked)
  have tact: "active (tk_status t)" using inactive_unlinked [OF L t(1)] t(3) by auto
  from L t(1) tact obtain s where s: "s \<in> set (runs d)" "tk_active_run t = Some (rn_id s)"
    "rn_task s = tk_id t" "rn_status s = tk_status t" by (rule active_linked)
  have "s = r" using same_run [OF C s(1) r(1)] s(2) t(3) by simp
  with s have st: "rn_status r = tk_status t" by simp
  have "active (tk_status (F t))"
    using rewrite_okD(10) [OF ok t(1) r(1) t(3) t(2) [symmetric] tact st] r'(2) r(2) by simp
  then show "\<exists>t\<in>set (tasks d'). tk_id t = rn_task r' \<and> tk_active_run t = Some (rn_id r')"
    using t r ts rewrite_okD(1,5,7,8) [OF ok] by (intro bexI [of _ "F t"]) auto
qed

lemma lc_inv_rewrite:
  assumes inv: "lc_inv d" and ok: "rewrite_ok d F G" and C': "db_constraints d'"
    and ts: "tasks d' = map F (tasks d)" and rs: "runs d' = map G (runs d)"
    and ob: "outbox d' = outbox d @ evs"
    and evs: "\<And>e i. e \<in> set evs \<Longrightarrow> ob_run e = Some i \<Longrightarrow> \<exists>r\<in>set (runs d). rn_id r = i \<and> rn_task r = ob_work_item e"
  shows "lc_inv d'"
proof -
  note I = lc_invD [OF inv]
  have "linked d'" using I(2,1) ok ts rs by (rule linked_rewrite)
  moreover have "within_budget d'"
    unfolding within_budget_def
  proof
    fix t' assume "t' \<in> set (tasks d')"
    then obtain t where t: "t \<in> set (tasks d)" "t' = F t" using ts by auto
    have "runs_of d' (tk_id t') = runs_of d (tk_id t)"
      using runs_of_map [OF rs] rewrite_okD(1,8) [OF ok] t by auto
    then show "0 \<le> tk_retry_count t' \<and> tk_retry_count t' \<le> tk_max_retries t' \<and> int (runs_of d' (tk_id t')) \<le> allowance t'"
      using I(3) t rewrite_okD(3,4) [OF ok t(1)] by (auto simp: within_budget_def)
  qed
  moreover have "serial_per_issue d'"
    unfolding serial_per_issue_def ts
    using rewrite_okD(2,5) [OF ok] I(4)
    by (intro distinct_map_filter_mono [where Q = "\<lambda>t. active (tk_status t)"])
      (auto simp: serial_per_issue_def)
  moreover have "facts_bound d'"
    unfolding facts_bound_def
  proof (intro ballI allI impI)
    fix e i assume e: "e \<in> set (outbox d')" "ob_run e = Some i"
    have "\<exists>r\<in>set (runs d). rn_id r = i \<and> rn_task r = ob_work_item e"
      using e ob evs I(5) by (auto simp: facts_bound_def)
    then show "\<exists>r\<in>set (runs d'). rn_id r = i \<and> rn_task r = ob_work_item e"
      using rs rewrite_okD(7,8) [OF ok] by auto
  qed
  ultimately show ?thesis using C' by (simp add: lc_inv_def)
qed

end
