(* ===== verification/LifecycleOps.thy ===== *)
theory LifecycleOps
  imports LifecycleInv
begin

text \<open>
  Every operation of \<^verbatim>\<open>RunLifecycle\<close> against the invariant. The transitions of one Run are
  characterised exactly (\<open>transition\<close>: which rows change, how, and the one fact appended); the
  batch statements are characterised as rewritings. Preservation of the invariant,
  immutability of closed Runs and the durable facts all follow from these two shapes.
\<close>

named_theorems transitions "what a successful call did to the state"

section \<open>Updates at one key\<close>

definition at_task :: "uuid \<Rightarrow> (task_row \<Rightarrow> task_row) \<Rightarrow> task_row \<Rightarrow> task_row" where
  "at_task i f t = (if tk_id t = i then f t else t)"

definition at_run :: "uuid \<Rightarrow> (run_row \<Rightarrow> run_row) \<Rightarrow> run_row \<Rightarrow> run_row" where
  "at_run i g r = (if rn_id r = i then g r else r)"

lemma at_task_same [simp]: "at_task (tk_id t) f t = f t"
  by (simp add: at_task_def)

lemma at_run_same [simp]: "at_run (rn_id r) g r = g r"
  by (simp add: at_run_def)

lemma update_task_Inr:
  "update_task d P f = Inr (d', t') \<longleftrightarrow> (\<exists>t. select_one P (tasks d) = Inr t \<and> t' = f t \<and>
     d' = d\<lparr>tasks := upd_where P f (tasks d)\<rparr> \<and> db_constraints d')"
  by (auto simp: update_task_def res_simps)

lemma update_run_Inr:
  "update_run d P f = Inr (d', r') \<longleftrightarrow> (\<exists>r. select_one P (runs d) = Inr r \<and> r' = f r \<and>
     d' = d\<lparr>runs := upd_where P f (runs d)\<rparr> \<and> db_constraints d')"
  by (auto simp: update_run_def res_simps)

lemma update_task_at:
  assumes U: "update_task d P f = Inr (d', t')" and C: "db_constraints d" and t: "t \<in> set (tasks d)"
    and P: "\<And>x. P x \<Longrightarrow> tk_id x = tk_id t"
  shows "P t \<and> t' = f t \<and> d' = d\<lparr>tasks := map (at_task (tk_id t) f) (tasks d)\<rparr> \<and> db_constraints d'"
proof -
  from U obtain x where x: "select_one P (tasks d) = Inr x" "t' = f x"
    "d' = d\<lparr>tasks := upd_where P f (tasks d)\<rparr>" "db_constraints d'" by (auto simp: update_task_Inr update_run_Inr)
  from x(1) have in_x: "x \<in> set (tasks d)" "P x" by (auto dest: select_one_Inr)
  have xt: "x = t" by (rule same_task [OF C in_x(1) t P [OF in_x(2)]])
  have "upd_where P f (tasks d) = map (at_task (tk_id t) f) (tasks d)"
    unfolding upd_where_def
  proof (rule map_cong)
    fix y assume y: "y \<in> set (tasks d)"
    have "P y \<longleftrightarrow> tk_id y = tk_id t"
    proof
      show "P y \<Longrightarrow> tk_id y = tk_id t" by (rule P)
      assume "tk_id y = tk_id t"
      then have "y = t" by (rule same_task [OF C y t])
      with in_x xt show "P y" by simp
    qed
    then show "(if P y then f y else y) = at_task (tk_id t) f y" by (simp add: at_task_def)
  qed simp
  with x in_x xt show ?thesis by simp
qed

lemma update_run_at:
  assumes U: "update_run d P f = Inr (d', r')" and C: "db_constraints d" and r: "r \<in> set (runs d)"
    and P: "\<And>x. P x \<Longrightarrow> rn_id x = rn_id r"
  shows "P r \<and> r' = f r \<and> d' = d\<lparr>runs := map (at_run (rn_id r) f) (runs d)\<rparr> \<and> db_constraints d'"
proof -
  from U obtain x where x: "select_one P (runs d) = Inr x" "r' = f x"
    "d' = d\<lparr>runs := upd_where P f (runs d)\<rparr>" "db_constraints d'" by (auto simp: update_task_Inr update_run_Inr)
  from x(1) have in_x: "x \<in> set (runs d)" "P x" by (auto dest: select_one_Inr)
  have xr: "x = r" by (rule same_run [OF C in_x(1) r P [OF in_x(2)]])
  have "upd_where P f (runs d) = map (at_run (rn_id r) f) (runs d)"
    unfolding upd_where_def
  proof (rule map_cong)
    fix y assume y: "y \<in> set (runs d)"
    have "P y \<longleftrightarrow> rn_id y = rn_id r"
    proof
      show "P y \<Longrightarrow> rn_id y = rn_id r" by (rule P)
      assume "rn_id y = rn_id r"
      then have "y = r" by (rule same_run [OF C y r])
      with in_x xr show "P y" by simp
    qed
    then show "(if P y then f y else y) = at_run (rn_id r) f y" by (simp add: at_run_def)
  qed simp
  with x in_x xr show ?thesis by simp
qed

lemma append_event_Inr:
  "append_event e d ty t r = Inr d' \<longleftrightarrow>
     d' = d\<lparr>outbox := outbox d @ [new_outbox_row e 1 (tk_id t) r ty 1 (status_payload (tk_status t))]\<rparr> \<and>
     db_constraints d'"
  by (auto simp: append_event_def append_lifecycle_outbox_event_def lifecycle_event_version_def
      Let_def res_simps)

section \<open>One Work Item and its Run\<close>

definition current_pair :: "db \<Rightarrow> run_ref \<Rightarrow> task_row \<Rightarrow> run_row \<Rightarrow> bool" where
  "current_pair d ref t r \<longleftrightarrow> t \<in> set (tasks d) \<and> r \<in> set (runs d) \<and>
     rr_work_item ref = Some (tk_id t) \<and> rr_run ref = Some (rn_id r) \<and>
     tk_active_run t = Some (rn_id r) \<and> rn_task r = tk_id t \<and> rn_status r = tk_status t"

definition moved ::
    "env \<Rightarrow> db \<Rightarrow> task_row \<Rightarrow> run_row \<Rightarrow> (task_row \<Rightarrow> task_row) \<Rightarrow> (run_row \<Rightarrow> run_row) \<Rightarrow> string \<Rightarrow> db" where
  "moved e d t r f g ty =
     d\<lparr>tasks := map (at_task (tk_id t) f) (tasks d), runs := map (at_run (rn_id r) g) (runs d),
       outbox := outbox d @ [new_outbox_row e 1 (tk_id t) (Some (rn_id r)) ty 1
                               (status_payload (tk_status (f t)))]\<rparr>"

definition transition ::
    "env \<Rightarrow> db \<Rightarrow> run_ref \<Rightarrow> (task_row \<Rightarrow> bool) \<Rightarrow> (task_row \<Rightarrow> task_row) \<Rightarrow> (run_row \<Rightarrow> run_row \<Rightarrow> run_row)
       \<Rightarrow> string \<Rightarrow> db \<Rightarrow> task_row \<Rightarrow> bool" where
  "transition e d ref guard f g ty d' t' \<longleftrightarrow>
     (\<exists>t r. current_pair d ref t r \<and> guard t \<and> t' = f t \<and>
        d' = moved e d t r f (g r) ty \<and> db_constraints d')"

lemma with_locked_run_Inr:
  assumes W: "with_locked_run l e d ref ss ss' app = Inr out"
  obtains t r where "current_pair d ref t r" "tk_status t \<in> set ss" "tk_status t \<in> set ss'" "app d t r = Inr out"
proof -
  from W obtain t r where "get_task d (rr_work_item ref) = Inr t" "get_run d (rr_run ref) = Inr r"
    "Some (rn_task r) = rr_work_item ref" "tk_active_run t = rr_run ref" "tk_status t = rn_status r"
    "tk_status t \<in> set ss" "tk_status t \<in> set ss'" "app d t r = Inr out"
    by (auto simp: with_locked_run_def contains_status_def res_simps split: if_splits sum.splits)
  then show thesis
    by (intro that [of t r]) (auto simp: current_pair_def dest!: get_task_Inr get_run_Inr)
qed

definition started_task :: "env \<Rightarrow> task_row \<Rightarrow> task_row" where
  "started_task e t = t\<lparr>tk_status := Running, tk_started_at := Some (e_now e)\<rparr>"

definition started_run :: "env \<Rightarrow> run_row \<Rightarrow> run_row" where
  "started_run e r = r\<lparr>rn_status := Running, rn_started_at := Some (e_now e)\<rparr>"

definition checkpointed_task :: "pgtext \<Rightarrow> pgtext \<Rightarrow> task_row \<Rightarrow> task_row" where
  "checkpointed_task s w t = t\<lparr>tk_session := s, tk_work_dir := w\<rparr>"

definition checkpointed_run :: "pgtext \<Rightarrow> pgtext \<Rightarrow> run_row \<Rightarrow> run_row" where
  "checkpointed_run s w r = r\<lparr>rn_session := s, rn_work_dir := w\<rparr>"

definition completed_task :: "env \<Rightarrow> run_completion \<Rightarrow> task_row \<Rightarrow> task_row" where
  "completed_task e c t = t\<lparr>tk_status := Completed, tk_completed_at := Some (e_now e),
     tk_result := rc_result c, tk_session := opt_text (rc_session c),
     tk_work_dir := opt_text (rc_work_dir c), tk_active_run := None\<rparr>"

text \<open>The two row updates and the appended fact, put together.\<close>

lemma pair_steps:
  assumes cp: "current_pair d ref t r" and C: "db_constraints d"
    and UR: "update_run d P g = Inr (d1, r')" and P: "\<And>x. P x \<Longrightarrow> rn_id x = rn_id r"
    and UT: "update_task d1 Q f = Inr (d2, t')" and Q: "\<And>x. Q x \<Longrightarrow> tk_id x = tk_id t"
    and A: "append_event e d2 ty t' (Some (rn_id r)) = Inr d3" and id: "tk_id (f t) = tk_id t"
  shows "Q t \<and> t' = f t \<and> d3 = moved e d t r f g ty \<and> db_constraints d3"
proof -
  have r: "r \<in> set (runs d)" and t: "t \<in> set (tasks d)" using cp by (auto simp: current_pair_def)
  have d1: "d1 = d\<lparr>runs := map (at_run (rn_id r) g) (runs d)\<rparr>" "db_constraints d1"
    using update_run_at [OF UR C r P] by auto
  then have "t \<in> set (tasks d1)" using t by simp
  from update_task_at [OF UT d1(2) this Q]
  have d2: "Q t" "t' = f t" "d2 = d1\<lparr>tasks := map (at_task (tk_id t) f) (tasks d1)\<rparr>" by auto
  with A d1 id show ?thesis by (auto simp: append_event_Inr moved_def)
qed

text \<open>A locked transaction of this shape is a transition.\<close>

lemma transition_of_steps:
  assumes W: "with_locked_run l e d ref ss ss' app = Inr (d', t')" and C: "db_constraints d"
    and steps: "\<And>t r. app d t r = Inr (d', t') \<Longrightarrow> \<exists>d1 r1 d2. update_run d P (g r) = Inr (d1, r1) \<and>
      update_task d1 Q f = Inr (d2, t') \<and> append_event e d2 ty t' (rr_run ref) = Inr d'"
    and P: "\<And>x. P x \<Longrightarrow> Some (rn_id x) = rr_run ref"
    and Q: "\<And>x. Q x \<Longrightarrow> Some (tk_id x) = rr_work_item ref"
    and id: "\<And>t. tk_id (f t) = tk_id t"
    and guard: "\<And>t. tk_status t \<in> set ss \<Longrightarrow> Q t \<Longrightarrow> guard t"
  shows "transition e d ref guard f g ty d' t'"
proof -
  from W obtain t r where cp: "current_pair d ref t r" and st: "tk_status t \<in> set ss"
    and app: "app d t r = Inr (d', t')" by (rule with_locked_run_Inr)
  from cp have refs: "rr_run ref = Some (rn_id r)" "rr_work_item ref = Some (tk_id t)"
    by (simp_all add: current_pair_def)
  from steps [OF app] obtain d1 r1 d2 where s: "update_run d P (g r) = Inr (d1, r1)"
    "update_task d1 Q f = Inr (d2, t')" "append_event e d2 ty t' (Some (rn_id r)) = Inr d'"
    unfolding refs by blast
  have "Q t \<and> t' = f t \<and> d' = moved e d t r f (g r) ty \<and> db_constraints d'"
    using cp C s(1) _ s(2) _ s(3) id by (rule pair_steps) (auto dest: P Q simp: refs)
  with cp guard [OF st] show ?thesis unfolding transition_def by blast
qed

lemmas row_updates = started_task_def [abs_def] started_run_def [abs_def]
  checkpointed_task_def [abs_def] checkpointed_run_def [abs_def] completed_task_def [abs_def]
  failed_task_def [abs_def] closed_run_def [abs_def] requeued_task_def [abs_def]

lemma lc_start_transition [transitions]:
  assumes "lc_start l e d ref = Inr (d', t')" "db_constraints d"
  shows "transition e d ref (\<lambda>t. tk_status t = Dispatched) (started_task e) (\<lambda>_. started_run e) ev_started d' t'"
  using assms unfolding lc_start_def
  by (rule transition_of_steps [where
      P = "\<lambda>x. Some (rn_id x) = rr_run ref \<and> Some (rn_task x) = rr_work_item ref \<and> rn_status x = Dispatched" and
      Q = "\<lambda>t. Some (tk_id t) = rr_work_item ref \<and> rr_run ref \<noteq> None \<and> tk_active_run t = rr_run ref \<and> tk_status t = Dispatched"])
    (auto simp: res_simps set_task_run_running_def set_agent_task_running_def row_updates)

lemma lc_checkpoint_transition [transitions]:
  assumes "lc_checkpoint l e d ref s w = Inr (d', t')" "db_constraints d"
  shows "transition e d ref (\<lambda>t. tk_status t = Running) (checkpointed_task (opt_text s) (opt_text w))
    (\<lambda>_. checkpointed_run (opt_text s) (opt_text w)) ev_checkpoint d' t'"
  using assms unfolding lc_checkpoint_def
  by (rule transition_of_steps [where
      P = "\<lambda>x. Some (rn_id x) = rr_run ref \<and> rn_status x = Running" and
      Q = "\<lambda>t. Some (tk_id t) = rr_work_item ref \<and> rr_run ref \<noteq> None \<and> tk_active_run t = rr_run ref \<and> tk_status t = Running"])
    (auto simp: res_simps checkpoint_task_run_def checkpoint_agent_task_session_for_run_def row_updates)

lemma lc_complete_transition [transitions]:
  assumes "lc_complete l e d ref c = Inr (d', t')" "db_constraints d"
  shows "transition e d ref (\<lambda>t. tk_status t = Running) (completed_task e c)
    (\<lambda>_. closed_run e (completion_params c)) ev_completed d' t'"
  using assms unfolding lc_complete_def
  by (rule transition_of_steps [where
      P = "\<lambda>x. Some (rn_id x) = rr_run ref" and
      Q = "\<lambda>t. Some (tk_id t) = rr_work_item ref \<and> rr_run ref \<noteq> None \<and> tk_active_run t = rr_run ref \<and> tk_status t = Running"])
    (auto simp: res_simps complete_task_run_def complete_agent_task_for_run_def row_updates)

lemma lc_fail_transition [transitions]:
  assumes "lc_fail l e d ref msg = Inr (d', t')" "db_constraints d"
  shows "transition e d ref (\<lambda>t. active (tk_status t)) (failed_task e msg)
    (\<lambda>r. closed_run e (failure_params e r msg)) ev_failed d' t'"
  using assms unfolding lc_fail_def lc_fail_with_def
  by (rule transition_of_steps [where
      P = "\<lambda>x. Some (rn_id x) = rr_run ref" and
      Q = "\<lambda>t. Some (tk_id t) = rr_work_item ref \<and> rr_run ref \<noteq> None \<and> tk_active_run t = rr_run ref \<and> active (tk_status t)"])
    (auto simp: res_simps complete_task_run_def fail_agent_task_for_run_def row_updates)

lemma lc_retry_transition [transitions]:
  assumes "lc_retry_tx l e d ref msg = Inr (d', t')" "db_constraints d"
  shows "transition e d ref (\<lambda>t. active (tk_status t) \<and> tk_retry_count t < tk_max_retries t) requeued_task
    (\<lambda>r. closed_run e (retry_params r msg)) ev_retry d' t'"
  using assms unfolding lc_retry_tx_def
  by (rule transition_of_steps [where
      P = "\<lambda>x. Some (rn_id x) = rr_run ref" and
      Q = "\<lambda>t. Some (tk_id t) = rr_work_item ref \<and> (tk_status t = Failed \<or> active (tk_status t)) \<and> tk_retry_count t < tk_max_retries t"])
    (auto simp: res_simps complete_task_run_def retry_agent_task_def requeued_task_def)

section \<open>Preservation by transitions\<close>

lemma lc_inv_transition:
  assumes inv: "lc_inv d" and tr: "transition e d ref guard f g ty d' t'"
    and f: "\<And>t. guard t \<Longrightarrow> tk_id (f t) = tk_id t \<and> tk_issue (f t) = tk_issue t \<and>
      tk_max_retries (f t) = tk_max_retries t \<and> (tk_retry_count (f t) = tk_retry_count t \<or>
      tk_retry_count (f t) = tk_retry_count t + 1 \<and> tk_retry_count t < tk_max_retries t) \<and> allowance t \<le> allowance (f t)"
    and act: "\<And>t. guard t \<Longrightarrow> active (tk_status t)"
    and link: "\<And>t r. guard t \<Longrightarrow> rn_status r = tk_status t \<Longrightarrow>
      active (tk_status (f t)) \<and> tk_active_run (f t) = tk_active_run t \<and> rn_status (g r r) = tk_status (f t) \<or>
      \<not> active (tk_status (f t)) \<and> tk_active_run (f t) = None \<and> \<not> active (rn_status (g r r))"
    and g: "\<And>r x. rn_id (g r x) = rn_id x \<and> rn_task (g r x) = rn_task x"
  shows "lc_inv d'"
proof -
  from tr obtain t r where cp: "current_pair d ref t r" and gd: "guard t"
    and d': "d' = moved e d t r f (g r) ty" and C': "db_constraints d'" by (auto simp: transition_def)
  note I = lc_invD [OF inv]
  have t: "t \<in> set (tasks d)" and r: "r \<in> set (runs d)" and tr: "tk_active_run t = Some (rn_id r)"
    "rn_task r = tk_id t" "rn_status r = tk_status t" using cp by (auto simp: current_pair_def)
  have tact: "active (tk_status t)" using act gd by blast
  have ti: "x = t" if "x \<in> set (tasks d)" "tk_id x = tk_id t" for x using same_task [OF I(1) that(1) t that(2)] .
  have ri: "x = r" if "x \<in> set (runs d)" "rn_id x = rn_id r" for x using same_run [OF I(1) that(1) r that(2)] .
  have inactive: "tk_active_run x = None" if "x \<in> set (tasks d)" "\<not> active (tk_status x)" for x
    using inactive_unlinked [OF I(2) that] .
  have budget: "0 \<le> tk_retry_count x \<and> tk_retry_count x \<le> tk_max_retries x" if "x \<in> set (tasks d)" for x
    using I(3) that by (simp add: within_budget_def)
  have "rewrite_ok d (at_task (tk_id t) f) (at_run (rn_id r) (g r))"
    unfolding rewrite_ok_def
  proof (intro conjI ballI impI)
    fix x assume x: "x \<in> set (tasks d)"
    show "tk_id (at_task (tk_id t) f x) = tk_id x" "tk_issue (at_task (tk_id t) f x) = tk_issue x"
      "allowance x \<le> allowance (at_task (tk_id t) f x)"
      using f [OF gd] ti [OF x] by (auto simp: at_task_def)
    show "0 \<le> tk_retry_count (at_task (tk_id t) f x)"
      "tk_retry_count (at_task (tk_id t) f x) \<le> tk_max_retries (at_task (tk_id t) f x)"
      using f [OF gd] ti [OF x] budget [OF x] by (auto simp: at_task_def)
    show "active (tk_status x)" "tk_active_run (at_task (tk_id t) f x) = tk_active_run x"
      if "active (tk_status (at_task (tk_id t) f x))"
      using that link [OF gd tr(3)] tact ti [OF x] by (auto simp: at_task_def split: if_splits)
    show "tk_active_run (at_task (tk_id t) f x) = None" if "\<not> active (tk_status (at_task (tk_id t) f x))"
      using that link [OF gd tr(3)] ti [OF x] inactive [OF x] by (auto simp: at_task_def split: if_splits)
  next
    fix x assume x: "x \<in> set (runs d)"
    show "rn_id (at_run (rn_id r) (g r) x) = rn_id x" "rn_task (at_run (rn_id r) (g r) x) = rn_task x"
      using g by (simp_all add: at_run_def)
    show "active (rn_status x)" if "active (rn_status (at_run (rn_id r) (g r) x))"
      using that link [OF gd tr(3)] tact tr(3) ri [OF x] by (auto simp: at_run_def split: if_splits)
  next
    fix x y assume xy: "x \<in> set (tasks d)" "y \<in> set (runs d)" "tk_active_run x = Some (rn_id y)"
      "rn_task y = tk_id x" "active (tk_status x)" "rn_status y = tk_status x"
    have both: "x = t \<longleftrightarrow> y = r"
    proof
      show "x = t \<Longrightarrow> y = r" using xy(3) tr(1) by (intro ri [OF xy(2)]) simp
      show "y = r \<Longrightarrow> x = t" using xy(4) tr(2) by (intro ti [OF xy(1)]) simp
    qed
    have atx: "at_task (tk_id t) f x = (if x = t then f t else x)"
      using ti [OF xy(1)] by (auto simp: at_task_def)
    have aty: "at_run (rn_id r) (g r) y = (if y = r then g r r else y)"
      using ri [OF xy(2)] by (auto simp: at_run_def)
    show "rn_status (at_run (rn_id r) (g r) y) = tk_status (at_task (tk_id t) f x)"
      if "active (tk_status (at_task (tk_id t) f x))"
      using that link [OF gd tr(3)] both xy(6) unfolding atx aty by (auto split: if_splits)
    show "active (tk_status (at_task (tk_id t) f x))" if "active (rn_status (at_run (rn_id r) (g r) y))"
      using that link [OF gd tr(3)] both xy(5) unfolding atx aty by (auto split: if_splits)
  qed
  then show ?thesis
  proof (rule lc_inv_rewrite [OF inv _ C'])
    show "tasks d' = map (at_task (tk_id t) f) (tasks d)" "runs d' = map (at_run (rn_id r) (g r)) (runs d)"
      "outbox d' = outbox d @ [new_outbox_row e 1 (tk_id t) (Some (rn_id r)) ty 1 (status_payload (tk_status (f t)))]"
      by (simp_all add: d' moved_def)
    show "\<exists>x\<in>set (runs d). rn_id x = i \<and> rn_task x = ob_work_item ev"
      if "ev \<in> set [new_outbox_row e 1 (tk_id t) (Some (rn_id r)) ty 1 (status_payload (tk_status (f t)))]"
        "ob_run ev = Some i" for ev i
      using that r tr(2) by (auto simp: new_outbox_row_def)
  qed
qed

section \<open>The transitions keep the invariant\<close>

lemma lc_start_inv: "lc_inv d \<Longrightarrow> lc_start l e d ref = Inr (d', t') \<Longrightarrow> lc_inv d'"
  by (rule lc_inv_transition [OF _ lc_start_transition])
    (auto simp: lc_inv_def started_task_def started_run_def allowance_def)

lemma lc_checkpoint_inv: "lc_inv d \<Longrightarrow> lc_checkpoint l e d ref s w = Inr (d', t') \<Longrightarrow> lc_inv d'"
  by (rule lc_inv_transition [OF _ lc_checkpoint_transition])
    (auto simp: lc_inv_def checkpointed_task_def checkpointed_run_def allowance_def)

lemma lc_complete_inv: "lc_inv d \<Longrightarrow> lc_complete l e d ref c = Inr (d', t') \<Longrightarrow> lc_inv d'"
  by (rule lc_inv_transition [OF _ lc_complete_transition])
    (auto simp: lc_inv_def completed_task_def closed_run_def completion_params_def allowance_def)

lemma lc_fail_inv: "lc_inv d \<Longrightarrow> lc_fail l e d ref msg = Inr (d', t') \<Longrightarrow> lc_inv d'"
  by (rule lc_inv_transition [OF _ lc_fail_transition])
    (auto simp: lc_inv_def failed_task_def closed_run_def failure_params_def allowance_def)

lemma lc_retry_tx_inv: "lc_inv d \<Longrightarrow> lc_retry_tx l e d ref msg = Inr (d', t') \<Longrightarrow> lc_inv d'"
  by (rule lc_inv_transition [OF _ lc_retry_transition])
    (auto simp: lc_inv_def requeued_task_def closed_run_def retry_params_def allowance_def)

lemma lc_retry_active_Inr:
  "lc_retry_active l e d ref msg = Inr (d', out) \<longleftrightarrow>
     (\<exists>t. lc_retry_tx l e d ref msg = Inr (d', t) \<and> out = Some t) \<or>
     (\<exists>err. lc_retry_tx l e d ref msg = Inl err \<and> error_is err ErrNoRows \<and> d' = d \<and> out = None)"
  by (auto simp: lc_retry_active_def split: sum.splits)

lemma lc_retry_active_inv: "lc_inv d \<Longrightarrow> lc_retry_active l e d ref msg = Inr (d', out) \<Longrightarrow> lc_inv d'"
  using lc_retry_tx_inv by (auto simp: lc_retry_active_Inr)

end
