(* ===== verification/LifecycleBatch.thy ===== *)
theory LifecycleBatch
  imports LifecycleOps
begin

text \<open>
  Cancellation of one Work Item, and the batch statements (cancel by issue, cancel by agent,
  the stale and offline sweeps, recovery), against the invariant. Also the statements that
  create, claim and reject a Work Item.
\<close>

section \<open>Statements that close rows\<close>

definition closes :: "(task_row \<Rightarrow> task_row) \<Rightarrow> task_row \<Rightarrow> bool" where
  "closes f t \<longleftrightarrow> tk_id (f t) = tk_id t \<and> tk_issue (f t) = tk_issue t \<and> \<not> active (tk_status (f t)) \<and>
     tk_active_run (f t) = None \<and> 0 \<le> tk_retry_count (f t) \<and>
     tk_retry_count (f t) \<le> tk_max_retries (f t) \<and> allowance t \<le> allowance (f t)"

lemma closing_rewrite_ok:
  assumes inv: "lc_inv d"
    and f: "\<And>t. t \<in> set (tasks d) \<Longrightarrow> P t \<Longrightarrow> closes f t"
    and g: "\<And>r. Q r \<Longrightarrow> rn_id (g r) = rn_id r \<and> rn_task (g r) = rn_task r \<and> \<not> active (rn_status (g r))"
    and PQ: "\<And>t r. t \<in> set (tasks d) \<Longrightarrow> r \<in> set (runs d) \<Longrightarrow> tk_active_run t = Some (rn_id r) \<Longrightarrow>
      active (tk_status t) \<Longrightarrow> rn_status r = tk_status t \<Longrightarrow> P t \<longleftrightarrow> Q r"
  shows "rewrite_ok d (\<lambda>t. if P t then f t else t) (\<lambda>r. if Q r then g r else r)"
proof -
  have keep: "0 \<le> tk_retry_count t \<and> tk_retry_count t \<le> tk_max_retries t" if "t \<in> set (tasks d)" for t
    using lc_invD(3) [OF inv] that by (simp add: within_budget_def)
  have inactive: "tk_active_run t = None" if "t \<in> set (tasks d)" "\<not> active (tk_status t)" for t
    using inactive_unlinked [OF lc_invD(2) [OF inv] that] .
  show ?thesis
    unfolding rewrite_ok_def
    using f g keep inactive PQ by (simp add: closes_def)
qed

lemma closes_cancelled: "lc_inv d \<Longrightarrow> t \<in> set (tasks d) \<Longrightarrow> closes (cancelled_task e) t"
  by (auto simp: closes_def cancelled_task_def allowance_def lc_inv_def within_budget_def)

lemma closes_failed: "lc_inv d \<Longrightarrow> t \<in> set (tasks d) \<Longrightarrow> closes (failed_task e msg) t"
  by (auto simp: closes_def failed_task_def allowance_def lc_inv_def within_budget_def)

section \<open>Cancellation of one Work Item\<close>

definition dequeued :: "env \<Rightarrow> db \<Rightarrow> task_row \<Rightarrow> db" where
  "dequeued e d t = d\<lparr>tasks := map (at_task (tk_id t) (cancelled_task e)) (tasks d),
     outbox := outbox d @ [new_outbox_row e 1 (tk_id t) None ev_cancelled 1 (status_payload Cancelled)]\<rparr>"

lemma lc_cancel_cases:
  assumes "lc_cancel l e d w = Inr (d', t', r')" and C: "db_constraints d"
  obtains
    (run) t :: task_row and r :: run_row where "w = Some (tk_id t)" "r' = Some (rn_id r)"
      "transition e d \<lparr>rr_work_item = w, rr_run = r'\<rparr> (\<lambda>t. active (tk_status t)) (cancelled_task e)
         (\<lambda>r. closed_run e (cancel_params r)) ev_cancelled d' t'"
  | (queued) t :: task_row where "t \<in> set (tasks d)" "w = Some (tk_id t)" "r' = None" "tk_status t = Queued"
      "t' = cancelled_task e t" "d' = dequeued e d t" "db_constraints d'"
proof -
  from assms(1) obtain t d1 d2 where t: "get_task d w = Inr t" and cl: "close_active_for_cancel e d t w = Inr d1"
    and ct: "cancel_agent_task e d1 w = Inr (d2, t')" and ap: "append_event e d2 ev_cancelled t' (tk_active_run t) = Inr d'"
    and r': "r' = tk_active_run t"
    by (auto simp: lc_cancel_def res_simps split: if_splits)
  from get_task_Inr [OF t] have tin: "t \<in> set (tasks d)" and w: "w = Some (tk_id t)" by auto
  let ?P = "\<lambda>x. Some (tk_id x) = w \<and> (tk_status x = Queued \<or> active (tk_status x))"
  have ct': "update_task d1 ?P (cancelled_task e) = Inr (d2, t')"
    using ct by (simp add: cancel_agent_task_def cancelled_task_def [abs_def])
  show thesis
  proof (cases "tk_active_run t")
    case (Some i)
    with cl obtain r r1 where r: "r \<in> set (runs d)" "i = rn_id r" "rn_task r = tk_id t"
      "tk_status t = rn_status r" "active (rn_status r)"
      and ur: "complete_task_run e d (Some (rn_id r)) (cancel_params r) = Inr (d1, r1)"
      by (auto simp: close_active_for_cancel_def contains_status_def w active_def res_simps
          split: sum.splits if_splits dest!: get_run_Inr)
    let ?ref = "\<lparr>rr_work_item = w, rr_run = r'\<rparr>"
    have cp: "current_pair d ?ref t r" using tin r w r' Some by (simp add: current_pair_def)
    have "?P t \<and> t' = cancelled_task e t \<and>
        d' = moved e d t r (cancelled_task e) (closed_run e (cancel_params r)) ev_cancelled \<and> db_constraints d'"
      using cp C ur [unfolded complete_task_run_def] _ ct' _ ap [unfolded Some r(2)]
      by (rule pair_steps) (auto simp: w cancelled_task_def)
    then have "transition e d ?ref (\<lambda>t. active (tk_status t)) (cancelled_task e)
         (\<lambda>r. closed_run e (cancel_params r)) ev_cancelled d' t'"
      using cp r unfolding transition_def by metis
    then show thesis using run [of t r] w r' Some r(2) by simp
  next
    case None
    with cl have d1: "d1 = d" and na: "\<not> active (tk_status t)"
      by (auto simp: close_active_for_cancel_def contains_status_def active_def split: if_splits)
    from update_task_at [OF ct' [unfolded d1] C tin]
    have "?P t" "t' = cancelled_task e t" "d2 = d\<lparr>tasks := map (at_task (tk_id t) (cancelled_task e)) (tasks d)\<rparr>"
      by (auto simp: w)
    then show thesis
      using queued [of t] tin w r' None na ap
      by (auto simp: append_event_Inr dequeued_def cancelled_task_def)
  qed
qed

lemma lc_cancel_inv:
  assumes inv: "lc_inv d" and ok: "lc_cancel l e d w = Inr (d', t', r')"
  shows "lc_inv d'"
proof -
  note I = lc_invD [OF inv]
  from ok I(1) show ?thesis
  proof (cases rule: lc_cancel_cases)
    case (run t r)
    show ?thesis
      by (rule lc_inv_transition [OF inv run(3)])
        (auto simp: cancelled_task_def closed_run_def cancel_params_def allowance_def)
  next
    case (queued t)
    have ti: "x = t" if "x \<in> set (tasks d)" "tk_id x = tk_id t" for x
      using same_task [OF I(1) that(1) queued(1) that(2)] .
    have "rewrite_ok d (\<lambda>x. if tk_id x = tk_id t then cancelled_task e x else x) (\<lambda>r. if False then r else r)"
      using queued(4) by (intro closing_rewrite_ok [OF inv]) (auto simp: closes_cancelled [OF inv] dest!: ti)
    then show ?thesis
      using queued(7) by (rule lc_inv_rewrite [OF inv]) (auto simp: queued(6) dequeued_def new_outbox_row_def at_task_def)
  qed
qed

section \<open>Batches\<close>

lemma same_active_run:
  assumes "lc_inv d" "t \<in> set (tasks d)" "u \<in> set (tasks d)" "tk_active_run t = tk_active_run u"
    "tk_active_run t \<noteq> None"
  shows "t = u"
proof -
  have "unique_active_run (tasks d)" using lc_invD(1) [OF assms(1)] by (simp add: constraint_defs)
  then show ?thesis using assms(2-5) unfolding unique_active_run_def
    by (intro distinct_key_eq [where key = tk_active_run and rows = "filter (\<lambda>t. tk_active_run t \<noteq> None) (tasks d)"]) auto
qed

lemma active_run_row:
  assumes "linked d" "t \<in> set (tasks d)" "tk_active_run t = Some i"
  shows "\<exists>r\<in>set (runs d). rn_id r = i \<and> rn_task r = tk_id t \<and> rn_status r = tk_status t \<and> active (tk_status t)"
proof -
  have "active (tk_status t)" using inactive_unlinked [OF assms(1,2)] assms(3) by auto
  with assms show ?thesis by (metis active_linked option.sel)
qed

lemma close_batch_Inr:
  "close_batch e d P rf tf ty = Inr (d', ids) \<longleftrightarrow> ids = map tk_id (filter P (tasks d)) \<and>
     d' = d\<lparr>tasks := map (\<lambda>t. if P t then tf t else t) (tasks d),
            runs := map (\<lambda>r. if Some (rn_id r) \<in> tk_active_run ` set (filter P (tasks d)) \<and> active (rn_status r)
                             then rf r else r) (runs d),
            outbox := outbox d @ batch_events e ty
              (map (\<lambda>t. (tk_id t, tk_active_run t, tk_status (tf t))) (filter P (tasks d)))\<rparr> \<and>
     db_constraints d'"
  by (auto simp: close_batch_def Let_def res_simps upd_where_def)

lemma set_batch_events:
  "ev \<in> set (batch_events e ty xs) \<Longrightarrow>
     \<exists>n w r s. (w, r, s) \<in> set xs \<and> ev = new_outbox_row e n w r ty 1 (status_payload s)"
proof -
  assume "ev \<in> set (batch_events e ty xs)"
  then obtain n where "n < length xs" "ev = (case xs ! n of (w, r, s) \<Rightarrow> new_outbox_row e n w r ty 1 (status_payload s))"
    by (auto simp: batch_events_def in_set_enumerate_eq)
  moreover obtain w r s where "xs ! n = (w, r, s)" by (cases "xs ! n")
  ultimately show ?thesis using nth_mem [of n xs] by auto
qed

lemma close_batch_inv:
  assumes inv: "lc_inv d" and ok: "close_batch e d P rf tf ty = Inr (d', ids)"
    and tf: "\<And>t. t \<in> set (tasks d) \<Longrightarrow> P t \<Longrightarrow> closes tf t"
    and rf: "\<And>r. rn_id (rf r) = rn_id r \<and> rn_task (rf r) = rn_task r \<and> \<not> active (rn_status (rf r))"
  shows "lc_inv d'"
proof -
  let ?Q = "\<lambda>r. Some (rn_id r) \<in> tk_active_run ` set (filter P (tasks d)) \<and> active (rn_status r)"
  have PQ: "P t \<longleftrightarrow> ?Q r" if "t \<in> set (tasks d)" "r \<in> set (runs d)" "tk_active_run t = Some (rn_id r)"
    "active (tk_status t)" "rn_status r = tk_status t" for t r
  proof
    assume "P t"
    with that show "?Q r" by (auto intro!: image_eqI [of _ _ t])
  next
    note tr = that
    assume "?Q r"
    then obtain u where u: "u \<in> set (tasks d)" "P u" "tk_active_run t = tk_active_run u" using tr(3) by auto
    have "t = u" by (rule same_active_run [OF inv tr(1) u(1) u(3)]) (simp add: tr(3))
    with u show "P t" by simp
  qed
  have "rewrite_ok d (\<lambda>t. if P t then tf t else t) (\<lambda>r. if ?Q r then rf r else r)"
    using inv tf rf PQ by (rule closing_rewrite_ok)
  then show ?thesis
  proof (rule lc_inv_rewrite [OF inv])
    show "db_constraints d'" using ok unfolding close_batch_Inr by blast
    show "tasks d' = map (\<lambda>t. if P t then tf t else t) (tasks d)"
      "runs d' = map (\<lambda>r. if ?Q r then rf r else r) (runs d)"
      "outbox d' = outbox d @ batch_events e ty
              (map (\<lambda>t. (tk_id t, tk_active_run t, tk_status (tf t))) (filter P (tasks d)))"
      using ok unfolding close_batch_Inr by auto
  next
    fix ev i assume "ev \<in> set (batch_events e ty (map (\<lambda>t. (tk_id t, tk_active_run t, tk_status (tf t))) (filter P (tasks d))))"
      and i: "ob_run ev = Some i"
    from set_batch_events [OF this(1)] i obtain t where "t \<in> set (tasks d)" "tk_active_run t = Some i" "ob_work_item ev = tk_id t"
      by (auto simp: new_outbox_row_def)
    with active_run_row [OF lc_invD(2) [OF inv]] show "\<exists>r\<in>set (runs d). rn_id r = i \<and> rn_task r = ob_work_item ev"
      by fastforce
  qed
qed

lemma run_closers [simp]:
  "rn_id (cancelled_run e r) = rn_id r" "rn_task (cancelled_run e r) = rn_task r" "rn_status (cancelled_run e r) = Cancelled"
  "rn_id (failed_run e m r) = rn_id r" "rn_task (failed_run e m r) = rn_task r" "rn_status (failed_run e m r) = Failed"
  by (simp_all add: cancelled_run_def failed_run_def)

lemmas batch_stmts = cancel_agent_tasks_by_issue_def cancel_agent_tasks_by_agent_def
  fail_stale_tasks_stmt_def fail_tasks_for_offline_runtimes_stmt_def

lemmas batch_ops = lc_cancel_for_issue_def lc_cancel_for_agent_def lc_fail_stale_tasks_def
  lc_fail_tasks_for_offline_runtimes_def

lemma lc_batch_inv:
  assumes "lc_inv d"
  shows "lc_cancel_for_issue l e d i = Inr (d', n) \<Longrightarrow> lc_inv d'"
    "lc_cancel_for_agent l e d a = Inr (d', n) \<Longrightarrow> lc_inv d'"
    "lc_fail_stale_tasks l e d dt rt = Inr (d', n) \<Longrightarrow> lc_inv d'"
    "lc_fail_tasks_for_offline_runtimes l e d = Inr (d', n) \<Longrightarrow> lc_inv d'"
  using assms
  by (auto simp: batch_ops batch_stmts res_simps split: if_splits elim!: close_batch_inv [rotated]
      intro: closes_cancelled closes_failed)

section \<open>Recovery after a restart\<close>

lemma latest_run_in:
  "latest_run d (Some i) = Some r \<Longrightarrow> r \<in> set (runs d) \<and> rn_task r = i"
  unfolding latest_run_def by (drule first_by_in) auto

lemma recover_run_id_bound:
  assumes "linked d" "t \<in> set (tasks d)" "recover_run_id d t = Some i"
  shows "\<exists>r\<in>set (runs d). rn_id r = i \<and> rn_task r = tk_id t"
proof (cases "tk_active_run t")
  case None
  with assms(3) obtain r where "latest_run d (Some (tk_id t)) = Some r" "rn_id r = i"
    by (auto simp: recover_run_id_def)
  then show ?thesis by (auto dest: latest_run_in)
next
  case (Some j)
  with assms active_run_row [OF assms(1,2)] show ?thesis by (auto simp: recover_run_id_def)
qed

lemma closes_recovered:
  assumes "lc_inv d" "t \<in> set (tasks d)" "recover_target rt t"
  shows "closes (recovered_task e) t"
proof -
  have "0 \<le> tk_retry_count t" "tk_retry_count t \<le> tk_max_retries t" "tk_status t \<noteq> Queued"
    using lc_invD(3) [OF assms(1)] assms(2,3) by (auto simp: within_budget_def recover_target_def)
  then show ?thesis by (auto simp: closes_def recovered_task_def Let_def allowance_def)
qed

lemma recover_Inr:
  "recover_tasks_for_runtime_stmt e d rt = Inr (d', rows) \<Longrightarrow>
     (\<exists>evs. tasks d' = map (\<lambda>t. if recover_target rt t then recovered_task e t else t) (tasks d) \<and>
       runs d' = map (\<lambda>r. if Some (rn_id r) \<in> recover_run_id d ` set (filter (recover_target rt) (tasks d)) \<and>
                            active (rn_status r)
                         then failed_run e ''runtime restarted; task queued for resume'' r else r) (runs d) \<and>
       outbox d' = outbox d @ evs \<and> db_constraints d' \<and>
       (\<forall>ev\<in>set evs. \<exists>t\<in>set (tasks d). ob_work_item ev = tk_id t \<and> ob_run ev = recover_run_id d t))"
  unfolding recover_tasks_for_runtime_stmt_def Let_def res_simps upd_where_def commit_stmt_Inr
  by (auto simp: new_outbox_row_def dest!: enumerate_snd; blast)

lemma recover_inv:
  assumes inv: "lc_inv d" and ok: "recover_tasks_for_runtime_stmt e d rt = Inr (d', rows)"
  shows "lc_inv d'"
proof -
  let ?T = "recover_target rt" and ?g = "failed_run e ''runtime restarted; task queued for resume''"
  let ?Q = "\<lambda>r. Some (rn_id r) \<in> recover_run_id d ` set (filter ?T (tasks d)) \<and> active (rn_status r)"
  note I = lc_invD [OF inv]
  obtain evs where S: "tasks d' = map (\<lambda>t. if ?T t then recovered_task e t else t) (tasks d)"
    "runs d' = map (\<lambda>r. if ?Q r then ?g r else r) (runs d)" "outbox d' = outbox d @ evs" "db_constraints d'"
    and evs: "\<And>ev. ev \<in> set evs \<Longrightarrow> \<exists>t\<in>set (tasks d). ob_work_item ev = tk_id t \<and> ob_run ev = recover_run_id d t"
    using recover_Inr [OF ok] by blast
  have PQ: "?T t \<longleftrightarrow> ?Q r" if tr: "t \<in> set (tasks d)" "r \<in> set (runs d)" "tk_active_run t = Some (rn_id r)"
    "active (tk_status t)" "rn_status r = tk_status t" for t r
  proof
    assume "?T t"
    with tr show "?Q r" by (auto simp: recover_run_id_def intro!: image_eqI [of _ _ t])
  next
    assume "?Q r"
    then obtain u where u: "u \<in> set (tasks d)" "?T u" "recover_run_id d u = Some (rn_id r)" by auto
    from recover_run_id_bound [OF I(2) u(1,3)] obtain s where s: "s \<in> set (runs d)" "rn_id s = rn_id r" "rn_task s = tk_id u"
      by blast
    from active_run_row [OF I(2) tr(1,3)] obtain s' where s': "s' \<in> set (runs d)" "rn_id s' = rn_id r" "rn_task s' = tk_id t"
      by blast
    have "s' = s" by (rule same_run [OF I(1) s'(1) s(1)]) (simp add: s'(2) s(2))
    then have "tk_id t = tk_id u" using s(3) s'(3) by simp
    then have "t = u" by (rule same_task [OF I(1) tr(1) u(1)])
    with u show "?T t" by simp
  qed
  have "rewrite_ok d (\<lambda>t. if ?T t then recovered_task e t else t) (\<lambda>r. if ?Q r then ?g r else r)"
    using inv closes_recovered [OF inv] _ PQ by (rule closing_rewrite_ok) auto
  then show ?thesis
    using S(4,1,2,3)
  proof (rule lc_inv_rewrite [OF inv])
    fix ev i assume ev: "ev \<in> set evs" "ob_run ev = Some i"
    from evs [OF ev(1)] obtain t where t: "t \<in> set (tasks d)" "ob_work_item ev = tk_id t" "ob_run ev = recover_run_id d t"
      by blast
    show "\<exists>r\<in>set (runs d). rn_id r = i \<and> rn_task r = ob_work_item ev"
      using recover_run_id_bound [OF I(2) t(1)] t ev(2) by simp
  qed
qed

lemma lc_recover_inv:
  "lc_inv d \<Longrightarrow> lc_recover_tasks_for_runtime l e d rt = Inr (d', n, m) \<Longrightarrow> lc_inv d'"
  by (auto simp: lc_recover_tasks_for_runtime_def res_simps split: if_splits intro: recover_inv)

end
