(* ===== verification/LifecycleClaim.thy ===== *)
theory LifecycleClaim
  imports LifecycleBatch
begin

text \<open>
  The statements that create, claim and reject a Work Item, against the invariant; what a
  claim chooses; and the lifecycle as a transition system whose reachable states all satisfy
  the invariant.
\<close>

section \<open>Creation\<close>

lemma create_agent_task_Inr:
  "create_agent_task e n d p = Inr (d', t) \<Longrightarrow>
     d' = d\<lparr>tasks := tasks d @ [t]\<rparr> \<and> db_constraints d' \<and> tk_id t = e_gen e n \<and> tk_status t = Queued \<and>
     tk_retry_count t = 0 \<and> tk_max_retries t = 3 \<and> tk_active_run t = None \<and>
     Some (tk_agent t) = ct_agent p \<and> Some (tk_issue t) = ct_issue p \<and> Some (tk_runtime t) = ct_runtime p \<and>
     tk_priority t = ct_priority p \<and> tk_trigger_comment t = ct_trigger p \<and> tk_loop t = ct_loop p \<and>
     tk_task_type t = (case ct_task_type p of None \<Rightarrow> ''standard'' | Some ty \<Rightarrow> ty)"
  by (auto simp: create_agent_task_def Let_def res_simps split: option.splits)

lemma run_task_known: "db_constraints d \<Longrightarrow> r \<in> set (runs d) \<Longrightarrow> rn_task r \<in> tk_id ` set (tasks d)"
  by (simp add: constraint_defs)

lemma create_agent_task_inv:
  assumes inv: "lc_inv d" and ok: "create_agent_task e n d p = Inr (d', t)"
  shows "lc_inv d'"
proof -
  note I = lc_invD [OF inv] and S = create_agent_task_Inr [OF ok]
  have C': "db_constraints d'" using S by blast
  have d': "tasks d' = tasks d @ [t]" "runs d' = runs d" "outbox d' = outbox d" using S by simp_all
  have fresh: "tk_id t \<notin> tk_id ` set (tasks d)"
    using constraints_keys(1) [of d'] S unfolding d'(1) by auto
  have "rn_task r \<noteq> tk_id t" if "r \<in> set (runs d)" for r
    using run_task_known [OF I(1) that] fresh by auto
  then have "runs_of d (tk_id t) = 0" by (simp add: runs_of_def filter_empty_conv)
  then have "within_budget d'"
    using I(3) S d' by (auto simp: within_budget_def runs_of_def allowance_def)
  moreover have "linked d'"
    using I(2) S d' unfolding linked_def by auto
  moreover have "serial_per_issue d'" "facts_bound d'"
    using I(4,5) S d' by (simp_all add: serial_per_issue_def facts_bound_def)
  ultimately show ?thesis using C' by (simp add: lc_inv_def)
qed

section \<open>Claiming\<close>

definition dispatched_task :: "env \<Rightarrow> task_row \<Rightarrow> task_row" where
  "dispatched_task e t = t\<lparr>tk_status := Dispatched, tk_dispatched_at := Some (e_now e),
     tk_active_run := Some (e_gen e 0)\<rparr>"

lemma dispatch_candidate_Inr:
  assumes ok: "dispatch_candidate e d t = Inr (d', i, r)" and C: "db_constraints d"
    and t: "t \<in> set (tasks d)" "tk_status t = Queued"
  shows "i = tk_id t \<and> r = e_gen e 0 \<and> db_constraints d' \<and>
    d' = d\<lparr>tasks := map (at_task (tk_id t) (dispatched_task e)) (tasks d), runs := runs d @ [new_run_row e t]\<rparr>"
proof -
  have "upd_where (\<lambda>x. tk_id x = tk_id t \<and> tk_status x = Queued) (dispatched_task e) (tasks d)
      = map (at_task (tk_id t) (dispatched_task e)) (tasks d)"
    unfolding upd_where_def
  proof (rule map_cong [OF refl])
    fix x assume "x \<in> set (tasks d)"
    then have "tk_id x = tk_id t \<Longrightarrow> x = t" using same_task [OF C _ t(1)] by blast
    with t(2) show "(if tk_id x = tk_id t \<and> tk_status x = Queued then dispatched_task e x else x)
        = at_task (tk_id t) (dispatched_task e) x" by (auto simp: at_task_def)
  qed
  with ok show ?thesis
    by (auto simp: dispatch_candidate_def Let_def res_simps dispatched_task_def [abs_def] new_run_row_def)
qed

lemma new_run_simps [simp]:
  "rn_id (new_run_row e t) = e_gen e 0" "rn_task (new_run_row e t) = tk_id t"
  "rn_status (new_run_row e t) = Dispatched" "rn_agent (new_run_row e t) = Some (tk_agent t)"
  by (simp_all add: new_run_row_def)


lemma dispatched_simps [simp]:
  "tk_id (dispatched_task e t) = tk_id t" "tk_issue (dispatched_task e t) = tk_issue t"
  "tk_status (dispatched_task e t) = Dispatched" "tk_active_run (dispatched_task e t) = Some (e_gen e 0)"
  "tk_retry_count (dispatched_task e t) = tk_retry_count t" "tk_max_retries (dispatched_task e t) = tk_max_retries t"
  by (simp_all add: dispatched_task_def)

lemma distinct_issue_add:
  assumes "distinct (map tk_id ts)" "distinct (map tk_issue (filter (\<lambda>x. A (tk_status x)) ts))"
    "t \<in> set ts" "\<And>a. a \<in> set ts \<Longrightarrow> tk_issue a = tk_issue t \<Longrightarrow> \<not> A (tk_status a)"
    and f: "tk_issue (f t) = tk_issue t"
  shows "distinct (map tk_issue (filter (\<lambda>x. A (tk_status x)) (map (at_task (tk_id t) f) ts)))"
  using assms(1-4)
proof (induction ts)
  case Nil
  then show ?case by simp
next
  case (Cons x xs)
  have at: "map (at_task (tk_id t) f) xs = xs" if "x = t"
  proof (rule map_idI)
    fix a assume "a \<in> set xs"
    then have "tk_id a \<in> tk_id ` set xs" by (rule imageI)
    moreover have "tk_id t \<notin> tk_id ` set xs" using Cons.prems(1) that by simp
    ultimately have "tk_id a \<noteq> tk_id t" by metis
    then show "at_task (tk_id t) f a = a" by (simp add: at_task_def)
  qed
  show ?case
  proof (cases "x = t")
    case True
    then have eq: "map (at_task (tk_id t) f) (x # xs) = f t # xs" using at by simp
    show ?thesis using Cons.prems(2,4) True f unfolding eq by (auto split: if_splits)
  next
    case False
    then have t: "t \<in> set xs" "tk_id x \<noteq> tk_id t" using Cons.prems(1,3) by auto
    have one: "a = t" if "a \<in> set xs" "tk_id a = tk_id t" for a
      using distinct_key_eq [of tk_id xs a t] Cons.prems(1) that t(1) by simp
    have "distinct (map tk_issue (filter (\<lambda>x. A (tk_status x)) (map (at_task (tk_id t) f) xs)))"
      using Cons.prems t by (intro Cons.IH) (auto split: if_splits)
    moreover have "tk_issue x \<notin> tk_issue ` {a \<in> set (map (at_task (tk_id t) f) xs). A (tk_status a)}"
      if "A (tk_status x)"
    proof
      assume "tk_issue x \<in> tk_issue ` {a \<in> set (map (at_task (tk_id t) f) xs). A (tk_status a)}"
      then obtain a where a: "a \<in> set xs" "A (tk_status (at_task (tk_id t) f a))"
        "tk_issue x = tk_issue (at_task (tk_id t) f a)" by auto
      show False
      proof (cases "tk_id a = tk_id t")
        case True
        with a one f have "tk_issue x = tk_issue t" by (auto simp: at_task_def)
        with Cons.prems(4) [of x] that show False by simp
      next
        case False
        with a Cons.prems(2) that show False by (auto simp: at_task_def)
      qed
    qed
    moreover have "at_task (tk_id t) f x = x" using t by (simp add: at_task_def)
    ultimately show ?thesis by simp
  qed
qed

lemma dispatch_inv:
  assumes inv: "lc_inv d" and t: "t \<in> set (tasks d)" "claimable d t"
    and ok: "dispatch_candidate e d t = Inr (d', i, r)"
  shows "lc_inv d'"
proof -
  note I = lc_invD [OF inv]
  have q: "tk_status t = Queued" and free: "\<And>a. a \<in> set (tasks d) \<Longrightarrow> tk_issue a = tk_issue t \<Longrightarrow> \<not> active (tk_status a)"
    using t(2) by (auto simp: claimable_def)
  from dispatch_candidate_Inr [OF ok I(1) t(1) q] have C': "db_constraints d'"
    and ts: "tasks d' = map (at_task (tk_id t) (dispatched_task e)) (tasks d)"
    and rs: "runs d' = runs d @ [new_run_row e t]" and ob: "outbox d' = outbox d" by auto
  have ti: "x = t" if "x \<in> set (tasks d)" "tk_id x = tk_id t" for x
    using same_task [OF I(1) that(1) t(1) that(2)] .
  have idle: "tk_active_run t = None" using inactive_unlinked [OF I(2) t(1)] q by simp
  have at: "at_task (tk_id t) (dispatched_task e) x = (if x = t then dispatched_task e t else x)"
    if "x \<in> set (tasks d)" for x using ti [OF that] by (auto simp: at_task_def)
  have "linked d'"
    unfolding linked_def
  proof (intro conjI ballI impI)
    fix x assume "x \<in> set (tasks d')" "active (tk_status x)"
    then obtain y where y: "y \<in> set (tasks d)" "x = (if y = t then dispatched_task e t else y)" using ts at by auto
    show "\<exists>r\<in>set (runs d'). tk_active_run x = Some (rn_id r) \<and> rn_task r = tk_id x \<and> rn_status r = tk_status x"
    proof (cases "y = t")
      case True
      with y rs show ?thesis by simp
    next
      case False
      then have x: "x = y" using y by simp
      from I(2) y(1) \<open>active (tk_status x)\<close> [unfolded x] obtain r where r: "r \<in> set (runs d)"
        "tk_active_run y = Some (rn_id r)" "rn_task r = tk_id y" "rn_status r = tk_status y" by (rule active_linked)
      then show ?thesis using x rs by (intro bexI [of _ r]) simp_all
    qed
  next
    fix x assume "x \<in> set (tasks d')" "\<not> active (tk_status x)"
    then show "tk_active_run x = None" using ts at inactive_unlinked [OF I(2)] by (auto split: if_splits)
  next
    fix x assume x: "x \<in> set (runs d')" "active (rn_status x)"
    show "\<exists>u\<in>set (tasks d'). tk_id u = rn_task x \<and> tk_active_run u = Some (rn_id x)"
    proof (cases "x \<in> set (runs d)")
      case True
      from I(2) True x(2) obtain u where u: "u \<in> set (tasks d)" "tk_id u = rn_task x" "tk_active_run u = Some (rn_id x)"
        by (rule run_linked)
      then have "at_task (tk_id t) (dispatched_task e) u = u" using at idle by auto
      then have "u \<in> set (tasks d')" using ts u(1) by (metis image_eqI list.set_map)
      with u show ?thesis by blast
    next
      case False
      then have "x = new_run_row e t" using x rs by simp
      moreover have "dispatched_task e t \<in> set (tasks d')" using ts t(1) by force
      ultimately show ?thesis by (intro bexI [of _ "dispatched_task e t"]) simp_all
    qed
  qed
  moreover have "within_budget d'"
    unfolding within_budget_def
  proof
    fix x assume "x \<in> set (tasks d')"
    then obtain y where y: "y \<in> set (tasks d)" "x = (if y = t then dispatched_task e t else y)" using ts at by auto
    have "runs_of d' (tk_id y) = runs_of d (tk_id y) + (if y = t then 1 else 0)"
      using rs ti [OF y(1)] by (auto simp: runs_of_def)
    with y I(3) q show "0 \<le> tk_retry_count x \<and> tk_retry_count x \<le> tk_max_retries x \<and>
        int (runs_of d' (tk_id x)) \<le> allowance x"
      by (auto simp: within_budget_def allowance_def split: if_splits)
  qed
  moreover have "serial_per_issue d'"
    using I(4) free t(1) constraints_keys(1) [OF I(1)] unfolding serial_per_issue_def ts
    by (intro distinct_issue_add) auto
  moreover have "facts_bound d'" using I(5) rs ob by (auto simp: facts_bound_def)
  ultimately show ?thesis using C' by (simp add: lc_inv_def)
qed

lemma claim_before_order:
  "claim_before a b \<Longrightarrow> \<not> claim_before b a"
  "\<not> claim_before a b \<Longrightarrow> \<not> claim_before b c \<Longrightarrow> \<not> claim_before a c"
  by (auto simp: claim_before_def)

text \<open>The row a claim for an agent picks.\<close>

definition claim_choice :: "env \<Rightarrow> db \<Rightarrow> uuid option \<Rightarrow> task_row option" where
  "claim_choice e d a = first_by claim_before
     (filter (\<lambda>t. Some (tk_agent t) = a \<and> claimable d t \<and> \<not> e_locked e (tk_id t)) (tasks d))"

lemma claim_choice_Some:
  assumes "claim_choice e d a = Some t"
  shows "t \<in> set (tasks d)" "Some (tk_agent t) = a" "claimable d t" "\<not> e_locked e (tk_id t)"
    "\<And>u. u \<in> set (tasks d) \<Longrightarrow> Some (tk_agent u) = a \<Longrightarrow> claimable d u \<Longrightarrow> \<not> e_locked e (tk_id u) \<Longrightarrow>
       \<not> claim_before u t"
  using first_by_in [OF assms [unfolded claim_choice_def]]
    first_by_least [OF assms [unfolded claim_choice_def] _ claim_before_order] by auto

lemma claim_by_agent_alt:
  "claim_agent_task_run e d a =
     (case claim_choice e d a of None \<Rightarrow> Inl ErrNoRows | Some t \<Rightarrow> dispatch_candidate e d t)"
  by (simp add: claim_agent_task_run_def claim_choice_def)

lemma claim_inv:
  "lc_inv d \<Longrightarrow> claim_agent_task_run e d a = Inr (d', i, r) \<Longrightarrow> lc_inv d'"
  "lc_inv d \<Longrightarrow> claim_agent_task_run_by_id e d w = Inr (d', i, r) \<Longrightarrow> lc_inv d'"
  by (auto simp: claim_by_agent_alt claim_agent_task_run_by_id_def res_simps split: option.splits
      dest!: select_one_Inr intro: dispatch_inv claim_choice_Some)

section \<open>Rejection\<close>

definition rejected_task :: "env \<Rightarrow> pgtext \<Rightarrow> task_row \<Rightarrow> task_row" where
  "rejected_task e err t = t\<lparr>tk_status := Failed, tk_completed_at := Some (e_now e), tk_error := err\<rparr>"

lemma reject_Inr:
  assumes "reject_queued_agent_task e d i err = Inr (d', j)"
  shows "j = i \<and> db_constraints d' \<and>
    d' = d\<lparr>tasks := map (\<lambda>t. if tk_id t = i \<and> tk_status t = Queued then rejected_task e err t else t) (tasks d),
           outbox := outbox d @ [new_outbox_row e 0 i None ''work_item.rejected'' 1 (status_payload Failed)]\<rparr> \<and>
    (\<exists>t\<in>set (tasks d). tk_id t = i \<and> tk_status t = Queued)"
  using assms
  by (auto simp: reject_queued_agent_task_def Let_def res_simps upd_where_def rejected_task_def [abs_def]
      dest!: select_one_Inr)

lemma reject_inv:
  assumes inv: "lc_inv d" and ok: "reject_queued_agent_task e d i err = Inr (d', j)"
  shows "lc_inv d'"
proof -
  note S = reject_Inr [OF ok] and I = lc_invD [OF inv]
  have cl: "closes (rejected_task e err) t" if "t \<in> set (tasks d)" "tk_id t = i \<and> tk_status t = Queued" for t
  proof -
    have "tk_active_run t = None" using inactive_unlinked [OF I(2) that(1)] that(2) by simp
    then show ?thesis
      using that I(3) by (auto simp: closes_def rejected_task_def allowance_def within_budget_def)
  qed
  have "rewrite_ok d (\<lambda>t. if tk_id t = i \<and> tk_status t = Queued then rejected_task e err t else t)
      (\<lambda>r. if False then r else r)"
    using inv cl by (rule closing_rewrite_ok) auto
  then show ?thesis
    by (rule lc_inv_rewrite [OF inv]) (use S in \<open>auto simp: new_outbox_row_def\<close>)
qed

section \<open>The lifecycle as a transition system\<close>

text \<open>
  One step is one committed call on the lifecycle, in any environment; or a write of another
  part of the server, which may touch every other table and the delivery columns of the
  outbox but no Work Item, no Run and no fact. Concurrent calls are serialised by the row
  locks their statements take, so a history of the database is a sequence of such steps.
\<close>

definition fact_of :: "outbox_row \<Rightarrow> uuid \<times> uuid \<times> uuid option \<times> string \<times> int \<times> jmap" where
  "fact_of ev = (ob_id ev, ob_work_item ev, ob_run ev, ob_type ev, ob_version ev, ob_payload ev)"

inductive lc_step :: "db \<Rightarrow> db \<Rightarrow> bool" where
  step_create: "create_agent_task e n d p = Inr (d', t) \<Longrightarrow> lc_step d d'"
| step_claim: "claim_agent_task_run e d a = Inr (d', i, r) \<Longrightarrow> lc_step d d'"
| step_claim_id: "claim_agent_task_run_by_id e d w = Inr (d', i, r) \<Longrightarrow> lc_step d d'"
| step_reject: "reject_queued_agent_task e d w err = Inr (d', i) \<Longrightarrow> lc_step d d'"
| step_start: "lc_start l e d ref = Inr (d', t) \<Longrightarrow> lc_step d d'"
| step_checkpoint: "lc_checkpoint l e d ref s w = Inr (d', t) \<Longrightarrow> lc_step d d'"
| step_complete: "lc_complete l e d ref c = Inr (d', t) \<Longrightarrow> lc_step d d'"
| step_fail: "lc_fail l e d ref msg = Inr (d', t) \<Longrightarrow> lc_step d d'"
| step_retry: "lc_retry_active l e d ref msg = Inr (d', out) \<Longrightarrow> lc_step d d'"
| step_cancel: "lc_cancel l e d wi = Inr (d', t, ri) \<Longrightarrow> lc_step d d'"
| step_cancel_issue: "lc_cancel_for_issue l e d ii = Inr (d', n) \<Longrightarrow> lc_step d d'"
| step_cancel_agent: "lc_cancel_for_agent l e d ai = Inr (d', n) \<Longrightarrow> lc_step d d'"
| step_stale: "lc_fail_stale_tasks l e d dt rt = Inr (d', n) \<Longrightarrow> lc_step d d'"
| step_offline: "lc_fail_tasks_for_offline_runtimes l e d = Inr (d', n) \<Longrightarrow> lc_step d d'"
| step_recover: "lc_recover_tasks_for_runtime l e d ri = Inr (d', n, m) \<Longrightarrow> lc_step d d'"
| step_other: "tasks d' = tasks d \<Longrightarrow> runs d' = runs d \<Longrightarrow> map fact_of (outbox d') = map fact_of (outbox d) \<Longrightarrow>
    db_constraints d' \<Longrightarrow> lc_step d d'"

inductive lc_reachable :: "db \<Rightarrow> bool" where
  reach_init: "tasks d = [] \<Longrightarrow> runs d = [] \<Longrightarrow> outbox d = [] \<Longrightarrow> lc_reachable d"
| reach_step: "lc_reachable d \<Longrightarrow> lc_step d d' \<Longrightarrow> lc_reachable d'"

lemma facts_bound_other:
  assumes "facts_bound d" "runs d' = runs d" "map fact_of (outbox d') = map fact_of (outbox d)"
  shows "facts_bound d'"
  unfolding facts_bound_def
proof (intro ballI allI impI)
  fix ev i assume ev: "ev \<in> set (outbox d')" "ob_run ev = Some i"
  then have "fact_of ev \<in> set (map fact_of (outbox d))" using assms(3) by (metis image_eqI list.set_map)
  then obtain ev' where "ev' \<in> set (outbox d)" "fact_of ev = fact_of ev'" by auto
  with assms(1,2) ev(2) show "\<exists>r\<in>set (runs d'). rn_id r = i \<and> rn_task r = ob_work_item ev"
    by (auto simp: facts_bound_def fact_of_def)
qed

lemma lc_inv_other:
  assumes "lc_inv d" "tasks d' = tasks d" "runs d' = runs d" "map fact_of (outbox d') = map fact_of (outbox d)"
    "db_constraints d'"
  shows "lc_inv d'"
  using assms facts_bound_other [of d d']
  by (auto simp: lc_inv_def linked_def within_budget_def runs_of_def serial_per_issue_def)

lemma lc_step_inv:
  assumes "lc_step d d'" "lc_inv d"
  shows "lc_inv d'"
  using assms
  by (induction rule: lc_step.induct)
    (blast intro: create_agent_task_inv claim_inv reject_inv lc_start_inv lc_checkpoint_inv lc_complete_inv
      lc_fail_inv lc_retry_active_inv lc_cancel_inv lc_batch_inv lc_recover_inv lc_inv_other)+

lemma lc_inv_init: "tasks d = [] \<Longrightarrow> runs d = [] \<Longrightarrow> outbox d = [] \<Longrightarrow> lc_inv d"
  by (simp add: lc_inv_def constraint_defs linked_def within_budget_def serial_per_issue_def facts_bound_def)

lemma lc_reachable_inv: "lc_reachable d \<Longrightarrow> lc_inv d"
  by (induction rule: lc_reachable.induct) (simp_all add: lc_inv_init lc_step_inv)

end
