(* ===== verification/LifecycleEffect.thy ===== *)
theory LifecycleEffect
  imports LifecycleClaim
begin

text \<open>
  What one step of the lifecycle may do to the rows that exist: the graph of Work Item
  statuses, the permanence of closed Runs, the growth of the log of facts, and the fact that
  accompanies every change of status.
\<close>

section \<open>The effect of a step\<close>

fun status_edge :: "wstatus \<Rightarrow> wstatus \<Rightarrow> bool" where
  "status_edge Queued s = (s \<in> {Queued, Dispatched, Failed, Cancelled})"
| "status_edge Dispatched s = (s \<in> {Dispatched, Running, Failed, Cancelled, Queued})"
| "status_edge Running s = (s \<in> {Running, Completed, Failed, Cancelled, Queued})"
| "status_edge Failed s = (s \<in> {Failed, Queued})"
| "status_edge Completed s = (s = Completed)"
| "status_edge Cancelled s = (s = Cancelled)"

definition task_moves :: "task_row \<Rightarrow> task_row \<Rightarrow> bool" where
  "task_moves t t' \<longleftrightarrow> tk_id t' = tk_id t \<and> tk_issue t' = tk_issue t \<and> tk_agent t' = tk_agent t \<and>
     tk_runtime t' = tk_runtime t \<and> tk_max_retries t' = tk_max_retries t \<and>
     tk_task_type t' = tk_task_type t \<and> tk_loop t' = tk_loop t \<and>
     tk_retry_count t \<le> tk_retry_count t' \<and> status_edge (tk_status t) (tk_status t')"

definition run_moves :: "run_row \<Rightarrow> run_row \<Rightarrow> bool" where
  "run_moves r r' \<longleftrightarrow> rn_id r' = rn_id r \<and> rn_task r' = rn_task r \<and> (\<not> active (rn_status r) \<longrightarrow> r' = r)"

text \<open>A change of status other than a claim is reported by a fact among \<open>evs\<close>.\<close>

definition reported :: "task_row \<Rightarrow> task_row \<Rightarrow> outbox_row list \<Rightarrow> bool" where
  "reported t t' evs \<longleftrightarrow> tk_status t' \<noteq> tk_status t \<and> tk_status t' \<noteq> Dispatched \<longrightarrow>
     (\<exists>ev\<in>set evs. ob_work_item ev = tk_id t \<and> ob_payload ev = status_payload (tk_status t'))"

definition step_effect :: "db \<Rightarrow> db \<Rightarrow> bool" where
  "step_effect d d' \<longleftrightarrow>
     (\<exists>evs. map fact_of (outbox d') = map fact_of (outbox d) @ map fact_of evs \<and>
        (\<forall>t\<in>set (tasks d). \<exists>t'\<in>set (tasks d'). task_moves t t' \<and> reported t t' evs)) \<and>
     (\<forall>r\<in>set (runs d). \<exists>r'\<in>set (runs d'). run_moves r r')"

lemma status_edge_refl [simp]: "status_edge s s"
  by (cases s) auto

lemma task_moves_refl [simp]: "task_moves t t"
  by (simp add: task_moves_def)

lemma run_moves_refl [simp]: "run_moves r r"
  by (simp add: run_moves_def)

lemma reported_refl [simp]: "reported t t evs"
  by (simp add: reported_def)

lemma effect_rewrite:
  assumes "tasks d' = map F (tasks d) @ xs" "runs d' = map G (runs d) @ ys" "outbox d' = outbox d @ evs"
    and "\<And>t. t \<in> set (tasks d) \<Longrightarrow> task_moves t (F t) \<and> reported t (F t) evs"
    and "\<And>r. r \<in> set (runs d) \<Longrightarrow> run_moves r (G r)"
  shows "step_effect d d'"
  unfolding step_effect_def assms(1-3)
  using assms(4,5) by (intro conjI exI [of _ evs]) auto

lemma effect_transition:
  assumes tr: "transition e d ref guard f g ty d' t'" and C: "db_constraints d"
    and f: "\<And>t. guard t \<Longrightarrow> active (tk_status t) \<and> task_moves t (f t)"
    and g: "\<And>r x. rn_id (g r x) = rn_id x \<and> rn_task (g r x) = rn_task x"
  shows "step_effect d d'"
proof -
  from tr obtain t r where cp: "current_pair d ref t r" and gd: "guard t"
    and d': "d' = moved e d t r f (g r) ty" by (auto simp: transition_def)
  have t: "t \<in> set (tasks d)" and r: "r \<in> set (runs d)" and st: "rn_status r = tk_status t"
    using cp by (auto simp: current_pair_def)
  have f': "active (tk_status t)" "task_moves t (f t)" using f [OF gd] by auto
  have ti: "x = t" if "x \<in> set (tasks d)" "tk_id x = tk_id t" for x using same_task [OF C that(1) t that(2)] .
  have ri: "x = r" if "x \<in> set (runs d)" "rn_id x = rn_id r" for x using same_run [OF C that(1) r that(2)] .
  let ?ev = "new_outbox_row e 1 (tk_id t) (Some (rn_id r)) ty 1 (status_payload (tk_status (f t)))"
  show ?thesis
  proof (rule effect_rewrite)
    show "tasks d' = map (at_task (tk_id t) f) (tasks d) @ []" "runs d' = map (at_run (rn_id r) (g r)) (runs d) @ []"
      "outbox d' = outbox d @ [?ev]" by (simp_all add: d' moved_def)
    show "task_moves x (at_task (tk_id t) f x) \<and> reported x (at_task (tk_id t) f x) [?ev]"
      if "x \<in> set (tasks d)" for x
      using ti [OF that] f'(2) by (auto simp: at_task_def reported_def new_outbox_row_def)
    show "run_moves x (at_run (rn_id r) (g r) x)" if "x \<in> set (runs d)" for x
      using ri [OF that] g f'(1) st by (auto simp: at_run_def run_moves_def)
  qed
qed

lemmas moves_simps = task_moves_def started_task_def checkpointed_task_def completed_task_def
  failed_task_def cancelled_task_def requeued_task_def started_run_def checkpointed_run_def closed_run_def

lemma active_edge: "active s \<Longrightarrow> status_edge s Failed \<and> status_edge s Cancelled \<and> status_edge s Queued"
  by (cases s) auto

lemma start_effect: "lc_start l e d ref = Inr (d', t') \<Longrightarrow> db_constraints d \<Longrightarrow> step_effect d d'"
  by (rule effect_transition [OF lc_start_transition]) (auto simp: moves_simps)

lemma checkpoint_effect: "lc_checkpoint l e d ref s w = Inr (d', t') \<Longrightarrow> db_constraints d \<Longrightarrow> step_effect d d'"
  by (rule effect_transition [OF lc_checkpoint_transition]) (auto simp: moves_simps)

lemma complete_effect: "lc_complete l e d ref c = Inr (d', t') \<Longrightarrow> db_constraints d \<Longrightarrow> step_effect d d'"
  by (rule effect_transition [OF lc_complete_transition]) (auto simp: moves_simps)

lemma fail_effect: "lc_fail l e d ref msg = Inr (d', t') \<Longrightarrow> db_constraints d \<Longrightarrow> step_effect d d'"
  by (rule effect_transition [OF lc_fail_transition]) (auto simp: moves_simps dest: active_edge)

lemma retry_effect: "lc_retry_tx l e d ref msg = Inr (d', t') \<Longrightarrow> db_constraints d \<Longrightarrow> step_effect d d'"
  by (rule effect_transition [OF lc_retry_transition]) (auto simp: moves_simps dest: active_edge)

lemma cancel_effect:
  assumes "lc_cancel l e d w = Inr (d', t', r')" "db_constraints d"
  shows "step_effect d d'"
  using assms
proof (cases rule: lc_cancel_cases)
  case (run t r)
  show ?thesis
    by (rule effect_transition [OF run(3) assms(2)]) (auto simp: moves_simps dest: active_edge)
next
  case (queued t)
  have ti: "x = t" if "x \<in> set (tasks d)" "tk_id x = tk_id t" for x
    using same_task [OF assms(2) that(1) queued(1) that(2)] .
  show ?thesis
  proof (rule effect_rewrite)
    show "tasks d' = map (at_task (tk_id t) (cancelled_task e)) (tasks d) @ []" "runs d' = map id (runs d) @ []"
      "outbox d' = outbox d @ [new_outbox_row e 1 (tk_id t) None ev_cancelled 1 (status_payload Cancelled)]"
      by (simp_all add: queued(6) dequeued_def)
  qed (use queued(4) in \<open>auto simp: at_task_def moves_simps reported_def new_outbox_row_def dest!: ti\<close>)
qed

lemma in_batch_events:
  assumes "x \<in> set xs"
  shows "\<exists>n. new_outbox_row e n (fst x) (fst (snd x)) ty 1 (status_payload (snd (snd x))) \<in> set (batch_events e ty xs)"
proof -
  from in_enumerate [OF assms] obtain n where "(n, x) \<in> set (enumerate 0 xs)" by blast
  then have "(\<lambda>(n, w, r, s). new_outbox_row e n w r ty 1 (status_payload s)) (n, x) \<in> set (batch_events e ty xs)"
    unfolding batch_events_def set_map by (rule imageI)
  then show ?thesis by (auto split: prod.splits)
qed

lemma close_batch_effect:
  assumes ok: "close_batch e d P rf tf ty = Inr (d', ids)"
    and tf: "\<And>t. P t \<Longrightarrow> task_moves t (tf t)"
    and rf: "\<And>r. rn_id (rf r) = rn_id r \<and> rn_task (rf r) = rn_task r"
  shows "step_effect d d'"
proof (rule effect_rewrite)
  let ?Q = "\<lambda>r. Some (rn_id r) \<in> tk_active_run ` set (filter P (tasks d)) \<and> active (rn_status r)"
  let ?xs = "map (\<lambda>t. (tk_id t, tk_active_run t, tk_status (tf t))) (filter P (tasks d))"
  show "tasks d' = map (\<lambda>t. if P t then tf t else t) (tasks d) @ []"
    "runs d' = map (\<lambda>r. if ?Q r then rf r else r) (runs d) @ []" "outbox d' = outbox d @ batch_events e ty ?xs"
    using ok unfolding close_batch_Inr by auto
  show "run_moves r (if ?Q r then rf r else r)" for r using rf by (auto simp: run_moves_def)
  fix t assume t: "t \<in> set (tasks d)"
  show "task_moves t (if P t then tf t else t) \<and> reported t (if P t then tf t else t) (batch_events e ty ?xs)"
  proof (cases "P t")
    case True
    then have "(tk_id t, tk_active_run t, tk_status (tf t)) \<in> set ?xs" using t by auto
    from in_batch_events [OF this] obtain n where
      "new_outbox_row e n (tk_id t) (tk_active_run t) ty 1 (status_payload (tk_status (tf t))) \<in> set (batch_events e ty ?xs)"
      by auto
    then have "reported t (tf t) (batch_events e ty ?xs)"
      unfolding reported_def by (auto simp: new_outbox_row_def intro!: bexI)
    with True tf show ?thesis by simp
  qed simp
qed

lemma batch_effect:
  "lc_cancel_for_issue l e d i = Inr (d', n) \<Longrightarrow> step_effect d d'"
  "lc_cancel_for_agent l e d a = Inr (d', n) \<Longrightarrow> step_effect d d'"
  "lc_fail_stale_tasks l e d dt rt = Inr (d', n) \<Longrightarrow> step_effect d d'"
  "lc_fail_tasks_for_offline_runtimes l e d = Inr (d', n) \<Longrightarrow> step_effect d d'"
  by (auto simp: batch_ops batch_stmts res_simps split: if_splits elim!: close_batch_effect
      simp: moves_simps stale_task_def dest: active_edge)

lemma recover_effect:
  assumes "recover_tasks_for_runtime_stmt e d rt = Inr (d', rows)"
  shows "step_effect d d'"
proof (rule effect_rewrite)
  let ?T = "recover_target rt"
  let ?Q = "\<lambda>r. Some (rn_id r) \<in> recover_run_id d ` set (filter ?T (tasks d)) \<and> active (rn_status r)"
  let ?em = "filter (\<lambda>t. tk_status (recovered_task e t) = Queued \<or> active (tk_status t)) (filter ?T (tasks d))"
  let ?ev = "\<lambda>(n, t). new_outbox_row e n (tk_id t) (recover_run_id d t) (recover_event_type (tk_status (recovered_task e t))) 1
                     (status_payload (tk_status (recovered_task e t)))"
  show "tasks d' = map (\<lambda>t. if ?T t then recovered_task e t else t) (tasks d) @ []"
    "runs d' = map (\<lambda>r. if ?Q r then failed_run e ''runtime restarted; task queued for resume'' r else r) (runs d) @ []"
    "outbox d' = outbox d @ map ?ev (enumerate 0 ?em)"
    using assms unfolding recover_tasks_for_runtime_stmt_def Let_def res_simps upd_where_def commit_stmt_Inr by auto
  show "run_moves r (if ?Q r then failed_run e ''runtime restarted; task queued for resume'' r else r)" for r
    by (auto simp: run_moves_def)
  fix t assume t: "t \<in> set (tasks d)"
  show "task_moves t (if ?T t then recovered_task e t else t) \<and>
      reported t (if ?T t then recovered_task e t else t) (map ?ev (enumerate 0 ?em))"
  proof (cases "?T t")
    case True
    have "reported t (recovered_task e t) (map ?ev (enumerate 0 ?em))"
    proof (cases "t \<in> set ?em")
      case True
      then obtain n where "(n, t) \<in> set (enumerate 0 ?em)" using in_enumerate by metis
      then have "?ev (n, t) \<in> set (map ?ev (enumerate 0 ?em))" unfolding set_map by (rule imageI)
      then show ?thesis unfolding reported_def by (auto simp: new_outbox_row_def intro!: bexI)
    next
      case False
      with t \<open>?T t\<close> have "tk_status (recovered_task e t) \<noteq> Queued" "\<not> active (tk_status t)" by auto
      then show ?thesis using \<open>?T t\<close>
        by (auto simp: reported_def recovered_task_def recover_target_def Let_def split: if_splits)
    qed
    moreover have "task_moves t (recovered_task e t)" using True
      by (auto simp: task_moves_def recovered_task_def recover_target_def Let_def active_def)
    ultimately show ?thesis using True by simp
  qed simp
qed

lemma create_effect: "create_agent_task e n d p = Inr (d', t) \<Longrightarrow> step_effect d d'"
  by (rule effect_rewrite [where F = id and G = id and xs = "[t]" and ys = "[]" and evs = "[]"])
    (auto dest!: create_agent_task_Inr)

lemma dispatch_effect:
  assumes ok: "dispatch_candidate e d t = Inr (d', i, r)" and C: "db_constraints d"
    and t: "t \<in> set (tasks d)" "claimable d t"
  shows "step_effect d d'"
proof (rule effect_rewrite)
  have q: "tk_status t = Queued" using t(2) by (simp add: claimable_def)
  note S = dispatch_candidate_Inr [OF ok C t(1) q]
  have ti: "x = t" if "x \<in> set (tasks d)" "tk_id x = tk_id t" for x using same_task [OF C that(1) t(1) that(2)] .
  show "tasks d' = map (at_task (tk_id t) (dispatched_task e)) (tasks d) @ []"
    "runs d' = map id (runs d) @ [new_run_row e t]" "outbox d' = outbox d @ []" using S by auto
  show "task_moves x (at_task (tk_id t) (dispatched_task e) x) \<and> reported x (at_task (tk_id t) (dispatched_task e) x) []"
    if "x \<in> set (tasks d)" for x
    using ti [OF that] q by (auto simp: at_task_def task_moves_def reported_def dispatched_task_def)
qed simp

lemma claim_effect:
  "db_constraints d \<Longrightarrow> claim_agent_task_run e d a = Inr (d', i, r) \<Longrightarrow> step_effect d d'"
  "db_constraints d \<Longrightarrow> claim_agent_task_run_by_id e d w = Inr (d', i, r) \<Longrightarrow> step_effect d d'"
  by (auto simp: claim_by_agent_alt claim_agent_task_run_by_id_def res_simps split: option.splits
      dest!: select_one_Inr intro: dispatch_effect claim_choice_Some)

lemma reject_effect:
  assumes "reject_queued_agent_task e d i err = Inr (d', j)"
  shows "step_effect d d'"
proof (rule effect_rewrite)
  note S = reject_Inr [OF assms]
  let ?F = "\<lambda>t. if tk_id t = i \<and> tk_status t = Queued then rejected_task e err t else t"
  let ?ev = "new_outbox_row e 0 i None ''work_item.rejected'' 1 (status_payload Failed)"
  show "tasks d' = map ?F (tasks d) @ []" "runs d' = map id (runs d) @ []" "outbox d' = outbox d @ [?ev]"
    using S by auto
  show "task_moves t (?F t) \<and> reported t (?F t) [?ev]" for t
    by (auto simp: task_moves_def reported_def rejected_task_def new_outbox_row_def)
qed simp

lemma other_effect:
  "tasks d' = tasks d \<Longrightarrow> runs d' = runs d \<Longrightarrow> map fact_of (outbox d') = map fact_of (outbox d) \<Longrightarrow> step_effect d d'"
  unfolding step_effect_def using task_moves_refl reported_refl run_moves_refl
  by (intro conjI exI [of _ "[]"] ballI) fastforce+

lemma step_effect_refl: "step_effect d d"
  by (rule other_effect) simp_all

lemma lc_recover_effect: "lc_recover_tasks_for_runtime l e d rt = Inr (d', n, m) \<Longrightarrow> step_effect d d'"
  by (auto simp: lc_recover_tasks_for_runtime_def res_simps split: if_splits intro: recover_effect)

lemma lc_retry_active_effect:
  "lc_retry_active l e d ref msg = Inr (d', out) \<Longrightarrow> db_constraints d \<Longrightarrow> step_effect d d'"
  by (auto simp: lc_retry_active_Inr step_effect_refl intro: retry_effect)

lemma lc_step_effect:
  assumes "lc_step d d'" "db_constraints d"
  shows "step_effect d d'"
  using assms
  by (induction rule: lc_step.induct)
    (blast intro: create_effect claim_effect reject_effect start_effect checkpoint_effect complete_effect
      fail_effect lc_retry_active_effect cancel_effect batch_effect lc_recover_effect other_effect)+

text \<open>Along a history a Work Item keeps what it was created with.\<close>

definition same_work_item :: "task_row \<Rightarrow> task_row \<Rightarrow> bool" where
  "same_work_item t t' \<longleftrightarrow> tk_id t' = tk_id t \<and> tk_issue t' = tk_issue t \<and> tk_agent t' = tk_agent t \<and>
     tk_runtime t' = tk_runtime t \<and> tk_task_type t' = tk_task_type t \<and> tk_loop t' = tk_loop t \<and>
     tk_max_retries t' = tk_max_retries t"

lemma history_keeps_task:
  assumes "lc_step\<^sup>*\<^sup>* d d'" "lc_reachable d" "t \<in> set (tasks d)"
  shows "\<exists>t'\<in>set (tasks d'). same_work_item t t'"
  using assms(1)
proof (induction rule: rtranclp_induct)
  case base
  show ?case using assms(3) by (auto simp: same_work_item_def)
next
  case (step y z)
  then obtain u where u: "u \<in> set (tasks y)" "same_work_item t u" by blast
  have "lc_reachable y" using step(1) assms(2) by (induction rule: rtranclp_induct) (auto intro: reach_step)
  then have "db_constraints y" by (rule lc_invD(1) [OF lc_reachable_inv])
  with lc_step_effect [OF step(2)] u(1) obtain v where "v \<in> set (tasks z)" "task_moves u v"
    by (fastforce simp: step_effect_def)
  with u(2) show ?case by (intro bexI [of _ v]) (auto simp: same_work_item_def task_moves_def)
qed

end
