(* ===== verification/LifecycleExact.thy ===== *)
theory LifecycleExact
  imports LifecycleEffect
begin

text \<open>
  The converse direction: when the calls of \<^verbatim>\<open>RunLifecycle\<close> succeed, and with exactly which
  result. A callback that carries a stale reference is refused with \<open>ErrStaleRun\<close>; a callback
  for the current Run in the right status goes through; a retry collides with the schema
  when the issue has another Work Item waiting.
\<close>

section \<open>References that are not current\<close>

definition handle_ok :: "lifecycle_handle \<Rightarrow> bool" where
  "handle_ok l \<longleftrightarrow> lh_self l \<and> lh_starter l \<and> lh_queries l"

text \<open>The reference names a Work Item and the Run it points at, in one of the statuses.\<close>

definition ref_current :: "db \<Rightarrow> run_ref \<Rightarrow> wstatus list \<Rightarrow> bool" where
  "ref_current d ref ss \<longleftrightarrow> (\<exists>t\<in>set (tasks d). \<exists>r\<in>set (runs d).
     current_pair d ref t r \<and> tk_status t \<in> set ss)"

lemma with_locked_run_stale:
  assumes "handle_ok l" "e_begin e" "\<not> ref_current d ref ss"
  shows "with_locked_run l e d ref ss ss' app = Inl ErrStaleRun"
proof -
  have "Some (rn_task r) \<noteq> rr_work_item ref \<or> tk_active_run t \<noteq> rr_run ref \<or> tk_status t \<noteq> rn_status r \<or>
      \<not> contains_status ss (tk_status t) \<or> \<not> contains_status ss' (rn_status r)"
    if "get_task d (rr_work_item ref) = Inr t" "get_run d (rr_run ref) = Inr r" for t r
  proof (rule ccontr)
    assume n: "\<not> ?thesis"
    from get_task_Inr [OF that(1)] get_run_Inr [OF that(2)] n have "current_pair d ref t r" "tk_status t \<in> set ss"
      "t \<in> set (tasks d)" "r \<in> set (runs d)"
      by (auto simp: current_pair_def contains_status_def)
    with assms(3) show False unfolding ref_current_def by blast
  qed
  then show ?thesis
    using assms(1,2) by (auto simp: with_locked_run_def handle_ok_def split: sum.splits)
qed

lemma with_locked_run_current:
  assumes h: "handle_ok l" "e_begin e" and C: "db_constraints d" and cp: "current_pair d ref t r"
    and st: "tk_status t \<in> set ss" "tk_status t \<in> set ss'"
  shows "with_locked_run l e d ref ss ss' app = or_fail (app d t r) (\<lambda>out.
    if e_commit e then Inr out else Inl (ErrWrap ''commit lifecycle transition'' (ErrInfra ''commit'')))"
proof -
  have "get_task d (rr_work_item ref) = Inr t" "get_run d (rr_run ref) = Inr r"
    using cp get_task_key [OF constraints_keys(1) [OF C]] get_run_key [OF constraints_keys(2) [OF C]]
    by (simp_all add: current_pair_def)
  then show ?thesis
    using h cp st by (simp add: with_locked_run_def handle_ok_def contains_status_def current_pair_def)
qed

section \<open>Updates that must succeed\<close>

lemma update_run_ok:
  assumes C: "db_constraints d" and r: "r \<in> set (runs d)" "P r" and P: "\<And>x. P x \<Longrightarrow> rn_id x = rn_id r"
    and C': "db_constraints (d\<lparr>runs := map (at_run (rn_id r) g) (runs d)\<rparr>)"
  shows "update_run d P g = Inr (d\<lparr>runs := map (at_run (rn_id r) g) (runs d)\<rparr>, g r)"
proof -
  have sel: "select_one P (runs d) = Inr r"
    using constraints_keys(2) [OF C] r P by (rule select_one_key)
  have "upd_where P g (runs d) = map (at_run (rn_id r) g) (runs d)"
    unfolding upd_where_def
  proof (rule map_cong [OF refl])
    fix y assume y: "y \<in> set (runs d)"
    have "P y \<longleftrightarrow> rn_id y = rn_id r" using P r same_run [OF C y r(1)] by blast
    then show "(if P y then g y else y) = at_run (rn_id r) g y" by (simp add: at_run_def)
  qed
  with sel C' show ?thesis by (simp add: update_run_def commit_stmt_ok)
qed

lemma update_task_ok:
  assumes C: "db_constraints d" and t: "t \<in> set (tasks d)" "P t" and P: "\<And>x. P x \<Longrightarrow> tk_id x = tk_id t"
    and C': "db_constraints (d\<lparr>tasks := map (at_task (tk_id t) f) (tasks d)\<rparr>)"
  shows "update_task d P f = Inr (d\<lparr>tasks := map (at_task (tk_id t) f) (tasks d)\<rparr>, f t)"
proof -
  have sel: "select_one P (tasks d) = Inr t"
    using constraints_keys(1) [OF C] t P by (rule select_one_key)
  have "upd_where P f (tasks d) = map (at_task (tk_id t) f) (tasks d)"
    unfolding upd_where_def
  proof (rule map_cong [OF refl])
    fix y assume y: "y \<in> set (tasks d)"
    have "P y \<longleftrightarrow> tk_id y = tk_id t" using P t same_task [OF C y t(1)] by blast
    then show "(if P y then f y else y) = at_task (tk_id t) f y" by (simp add: at_task_def)
  qed
  with sel C' show ?thesis by (simp add: update_task_def commit_stmt_ok)
qed

text \<open>Rewritings of the runs, of the tasks, and a new fact keep the constraints.\<close>

lemma constraints_runs:
  assumes C: "db_constraints d" and G: "\<And>r. r \<in> set (runs d) \<Longrightarrow> rn_id (G r) = rn_id r \<and> rn_task (G r) = rn_task r \<and>
      rn_status (G r) \<noteq> Queued \<and> (active (rn_status (G r)) \<longrightarrow> active (rn_status r))"
  shows "db_constraints (d\<lparr>runs := map G (runs d)\<rparr>)"
proof -
  have "map (rn_id \<circ> G) (runs d) = map rn_id (runs d)" using G by simp
  then have ids: "rn_id ` G ` set (runs d) = rn_id ` set (runs d)" "distinct (map (rn_id \<circ> G) (runs d))"
    using constraints_keys(2) [OF C] G by (auto simp: image_image simp del: map_eq_conv)
  have "distinct (map rn_task (filter (\<lambda>r. active (rn_status r)) (map G (runs d))))"
    using C G by (intro distinct_map_filter_mono [where Q = "\<lambda>r. active (rn_status r)"]) (auto simp: constraint_defs)
  then show ?thesis
    using C G ids unfolding constraint_defs by simp
qed

lemma constraints_tasks:
  assumes C: "db_constraints d" and F: "\<And>t. t \<in> set (tasks d) \<Longrightarrow> tk_id (F t) = tk_id t \<and> tk_issue (F t) = tk_issue t \<and>
      tk_agent (F t) = tk_agent t \<and> tk_runtime (F t) = tk_runtime t \<and> tk_task_type (F t) = tk_task_type t \<and>
      (tk_active_run (F t) \<noteq> None \<longrightarrow> tk_active_run (F t) = tk_active_run t)"
    and one: "one_pending_per_issue (map F (tasks d))"
  shows "db_constraints (d\<lparr>tasks := map F (tasks d)\<rparr>)"
proof -
  have "map (tk_id \<circ> F) (tasks d) = map tk_id (tasks d)" using F by simp
  then have ids: "tk_id ` F ` set (tasks d) = tk_id ` set (tasks d)" "distinct (map (tk_id \<circ> F) (tasks d))"
    using constraints_keys(1) [OF C] F by (auto simp: image_image simp del: map_eq_conv)
  have "distinct (map tk_active_run (filter (\<lambda>t. tk_active_run t \<noteq> None) (map F (tasks d))))"
    using C F by (intro distinct_map_filter_mono [where Q = "\<lambda>t. tk_active_run t \<noteq> None"]) (auto simp: constraint_defs)
  moreover have "\<forall>t\<in>set (map F (tasks d)). tk_task_type t \<in> set task_types \<and> tk_agent t \<in> ag_id ` set (agents d) \<and>
        tk_issue t \<in> is_id ` set (issues d) \<and> tk_runtime t \<in> rt_id ` set (runtimes d) \<and>
        (\<forall>r. tk_active_run t = Some r \<longrightarrow> r \<in> rn_id ` set (runs d))"
  proof
    fix t' assume "t' \<in> set (map F (tasks d))"
    then obtain t where t: "t \<in> set (tasks d)" "t' = F t" by auto
    have "tk_active_run t' = Some r \<Longrightarrow> tk_active_run t = Some r" for r using F [OF t(1)] t(2) by auto
    with C F [OF t(1)] t show "tk_task_type t' \<in> set task_types \<and> tk_agent t' \<in> ag_id ` set (agents d) \<and>
        tk_issue t' \<in> is_id ` set (issues d) \<and> tk_runtime t' \<in> rt_id ` set (runtimes d) \<and>
        (\<forall>r. tk_active_run t' = Some r \<longrightarrow> r \<in> rn_id ` set (runs d))"
      unfolding constraint_defs by simp
  qed
  ultimately show ?thesis
    using C ids one unfolding constraint_defs by simp
qed

lemma pending_rewrite:
  assumes "db_constraints d" and "\<And>t. t \<in> set (tasks d) \<Longrightarrow> tk_issue (F t) = tk_issue t \<and>
      (pending (tk_status (F t)) \<longrightarrow> pending (tk_status t))"
  shows "one_pending_per_issue (map F (tasks d))"
  using assms unfolding one_pending_per_issue_def
  by (intro distinct_map_filter_mono [where Q = "\<lambda>t. pending (tk_status t)"]) (auto simp: constraint_defs)

lemma constraints_event:
  assumes "db_constraints d" "ob_id ev \<notin> ob_id ` set (outbox d)" "0 < ob_version ev"
    "ob_work_item ev \<in> tk_id ` set (tasks d)" "\<And>r. ob_run ev = Some r \<Longrightarrow> r \<in> rn_id ` set (runs d)"
  shows "db_constraints (d\<lparr>outbox := outbox d @ [ev]\<rparr>)"
  using assms unfolding constraint_defs by auto

section \<open>A current callback goes through\<close>

definition fresh_event :: "env \<Rightarrow> db \<Rightarrow> bool" where
  "fresh_event e d \<longleftrightarrow> e_gen e 1 \<notin> ob_id ` set (outbox d)"

lemma pair_steps_ok:
  assumes C: "db_constraints d" and cp: "current_pair d ref t r" and fr: "fresh_event e d"
    and P: "P r" "\<And>x. P x \<Longrightarrow> rn_id x = rn_id r" and Q: "Q t" "\<And>x. Q x \<Longrightarrow> tk_id x = tk_id t"
    and g: "rn_id (g r) = rn_id r \<and> rn_task (g r) = rn_task r \<and> rn_status (g r) \<noteq> Queued \<and>
      (active (rn_status (g r)) \<longrightarrow> active (rn_status r))"
    and f: "tk_id (f t) = tk_id t \<and> tk_issue (f t) = tk_issue t \<and> tk_agent (f t) = tk_agent t \<and>
      tk_runtime (f t) = tk_runtime t \<and> tk_task_type (f t) = tk_task_type t \<and>
      (tk_active_run (f t) \<noteq> None \<longrightarrow> tk_active_run (f t) = tk_active_run t)"
    and one: "one_pending_per_issue (map (at_task (tk_id t) f) (tasks d))"
  shows "\<exists>d1 d2. update_run d P g = Inr (d1, g r) \<and> update_task d1 Q f = Inr (d2, f t) \<and>
    append_event e d2 ty (f t) (Some (rn_id r)) = Inr (moved e d t r f g ty)"
proof -
  have t: "t \<in> set (tasks d)" and r: "r \<in> set (runs d)" using cp by (auto simp: current_pair_def)
  have at: "at_task (tk_id t) f x = (if x = t then f t else x)" if "x \<in> set (tasks d)" for x
    using same_task [OF C that t] by (auto simp: at_task_def)
  have ar: "at_run (rn_id r) g x = (if x = r then g r else x)" if "x \<in> set (runs d)" for x
    using same_run [OF C that r] by (auto simp: at_run_def)
  let ?d1 = "d\<lparr>runs := map (at_run (rn_id r) g) (runs d)\<rparr>"
  let ?d2 = "?d1\<lparr>tasks := map (at_task (tk_id t) f) (tasks d)\<rparr>"
  have nq: "rn_status x \<noteq> Queued" if "x \<in> set (runs d)" for x using C that by (simp add: constraint_defs)
  have C1: "db_constraints ?d1" using C by (rule constraints_runs) (use ar g nq in auto)
  have C2: "db_constraints ?d2"
    using constraints_tasks [OF C1, of "at_task (tk_id t) f"] at f one by simp
  have UR: "update_run d P g = Inr (?d1, g r)" using C r P C1 by (rule update_run_ok)
  have t1: "t \<in> set (tasks ?d1)" and C2': "db_constraints (?d1\<lparr>tasks := map (at_task (tk_id t) f) (tasks ?d1)\<rparr>)"
    using t C2 by simp_all
  from update_task_ok [where P = Q and f = f, OF C1 t1 Q C2'] have UT: "update_task ?d1 Q f = Inr (?d2, f t)" by simp
  have "tk_id t \<in> tk_id ` set (tasks ?d2)" using t f at by (force simp: image_image)
  moreover have "rn_id r \<in> rn_id ` set (runs ?d2)" using r g ar by (force simp: image_image)
  moreover have "moved e d t r f g ty = ?d2\<lparr>outbox := outbox ?d2 @
      [new_outbox_row e 1 (tk_id t) (Some (rn_id r)) ty 1 (status_payload (tk_status (f t)))]\<rparr>"
    by (simp add: moved_def)
  ultimately have "db_constraints (moved e d t r f g ty)"
    using constraints_event [OF C2, of "new_outbox_row e 1 (tk_id t) (Some (rn_id r)) ty 1 (status_payload (tk_status (f t)))"] fr
    by (simp add: new_outbox_row_def fresh_event_def)
  then have "append_event e ?d2 ty (f t) (Some (rn_id r)) = Inr (moved e d t r f g ty)"
    using f by (simp add: append_event_Inr moved_def)
  with UR UT show ?thesis by blast
qed

text \<open>The environment lets the transaction through.\<close>

definition env_ok :: "lifecycle_handle \<Rightarrow> env \<Rightarrow> db \<Rightarrow> bool" where
  "env_ok l e d \<longleftrightarrow> handle_ok l \<and> e_begin e \<and> e_commit e \<and> fresh_event e d"

lemma env_okD:
  assumes "env_ok l e d"
  shows "handle_ok l" "e_begin e" "e_commit e" "fresh_event e d"
  using assms by (simp_all add: env_ok_def)

lemma pending_at:
  assumes "db_constraints d" "t \<in> set (tasks d)" "tk_issue (f t) = tk_issue t"
    "pending (tk_status (f t)) \<Longrightarrow> pending (tk_status t)"
  shows "one_pending_per_issue (map (at_task (tk_id t) f) (tasks d))"
proof (rule pending_rewrite [OF assms(1)])
  fix x assume x: "x \<in> set (tasks d)"
  have "tk_id x = tk_id t \<Longrightarrow> x = t" using same_task [OF assms(1) x assms(2)] .
  with assms(3,4) show "tk_issue (at_task (tk_id t) f x) = tk_issue x \<and>
      (pending (tk_status (at_task (tk_id t) f x)) \<longrightarrow> pending (tk_status x))"
    by (auto simp: at_task_def)
qed

text \<open>A locked transaction of the common shape, run on the current pair.\<close>

lemma locked_ok:
  assumes ok: "env_ok l e d" and C: "db_constraints d" and cp: "current_pair d ref t r"
    and st: "tk_status t \<in> set ss"
    and app: "\<And>d1 r1 d2 t2. update_run d P g = Inr (d1, r1) \<Longrightarrow> update_task d1 Q f = Inr (d2, t2) \<Longrightarrow>
      append_event e d2 ty t2 (rr_run ref) = Inr (moved e d t r f g ty) \<Longrightarrow>
      app d t r = Inr (moved e d t r f g ty, t2)"
    and P: "P r" "\<And>x. P x \<Longrightarrow> rn_id x = rn_id r" and Q: "Q t" "\<And>x. Q x \<Longrightarrow> tk_id x = tk_id t"
    and g: "rn_id (g r) = rn_id r \<and> rn_task (g r) = rn_task r \<and> rn_status (g r) \<noteq> Queued \<and>
      (active (rn_status (g r)) \<longrightarrow> active (rn_status r))"
    and f: "tk_id (f t) = tk_id t \<and> tk_issue (f t) = tk_issue t \<and> tk_agent (f t) = tk_agent t \<and>
      tk_runtime (f t) = tk_runtime t \<and> tk_task_type (f t) = tk_task_type t \<and>
      (tk_active_run (f t) \<noteq> None \<longrightarrow> tk_active_run (f t) = tk_active_run t)"
    and one: "one_pending_per_issue (map (at_task (tk_id t) f) (tasks d))"
  shows "with_locked_run l e d ref ss ss app = Inr (moved e d t r f g ty, f t)"
proof -
  note ok' = env_okD [OF ok]
  have rr: "rr_run ref = Some (rn_id r)" using cp by (simp add: current_pair_def)
  obtain d1 d2 where s: "update_run d P g = Inr (d1, g r)" "update_task d1 Q f = Inr (d2, f t)"
    "append_event e d2 ty (f t) (Some (rn_id r)) = Inr (moved e d t r f g ty)"
    using pair_steps_ok [where P = P and Q = Q and g = g and f = f, OF C cp ok'(4) P Q g f one] by blast
  have "app d t r = Inr (moved e d t r f g ty, f t)"
    using s unfolding rr [symmetric] by (rule app)
  then show ?thesis
    unfolding with_locked_run_current [OF ok'(1,2) C cp st st] by (simp add: ok'(3))
qed

lemma pair_refs:
  assumes "current_pair d ref t r"
  shows "rr_work_item ref = Some (tk_id t)" "rr_run ref = Some (rn_id r)" "t \<in> set (tasks d)"
    "tk_active_run t = Some (rn_id r)" "rn_task r = tk_id t" "rn_status r = tk_status t"
  using assms by (simp_all add: current_pair_def)

lemma lc_start_ok:
  assumes ok: "env_ok l e d" and C: "db_constraints d" and cp: "current_pair d ref t r" and st: "tk_status t = Dispatched"
  shows "lc_start l e d ref = Inr (moved e d t r (started_task e) (started_run e) ev_started, started_task e t)"
  unfolding lc_start_def
  by (rule locked_ok [OF ok C cp, where
      P = "\<lambda>x. Some (rn_id x) = rr_run ref \<and> Some (rn_task x) = rr_work_item ref \<and> rn_status x = Dispatched" and
      Q = "\<lambda>t. Some (tk_id t) = rr_work_item ref \<and> rr_run ref \<noteq> None \<and> tk_active_run t = rr_run ref \<and> tk_status t = Dispatched"])
    (use pair_refs [OF cp] st in \<open>auto simp: set_task_run_running_def set_agent_task_running_def row_updates
       intro!: pending_at [OF C]\<close>)

lemma lc_complete_ok:
  assumes ok: "env_ok l e d" and C: "db_constraints d" and cp: "current_pair d ref t r" and st: "tk_status t = Running"
  shows "lc_complete l e d ref c =
    Inr (moved e d t r (completed_task e c) (closed_run e (completion_params c)) ev_completed, completed_task e c t)"
  unfolding lc_complete_def
  by (rule locked_ok [OF ok C cp, where
      P = "\<lambda>x. Some (rn_id x) = rr_run ref" and
      Q = "\<lambda>t. Some (tk_id t) = rr_work_item ref \<and> rr_run ref \<noteq> None \<and> tk_active_run t = rr_run ref \<and> tk_status t = Running"])
    (use pair_refs [OF cp] st in \<open>auto simp: complete_task_run_def complete_agent_task_for_run_def row_updates
       completion_params_def intro!: pending_at [OF C]\<close>)

lemma lc_checkpoint_ok:
  assumes ok: "env_ok l e d" and C: "db_constraints d" and cp: "current_pair d ref t r" and st: "tk_status t = Running"
  shows "lc_checkpoint l e d ref s w =
    Inr (moved e d t r (checkpointed_task (opt_text s) (opt_text w)) (checkpointed_run (opt_text s) (opt_text w)) ev_checkpoint,
         checkpointed_task (opt_text s) (opt_text w) t)"
  unfolding lc_checkpoint_def
  by (rule locked_ok [OF ok C cp, where
      P = "\<lambda>x. Some (rn_id x) = rr_run ref \<and> rn_status x = Running" and
      Q = "\<lambda>t. Some (tk_id t) = rr_work_item ref \<and> rr_run ref \<noteq> None \<and> tk_active_run t = rr_run ref \<and> tk_status t = Running"])
    (use pair_refs [OF cp] st in \<open>auto simp: checkpoint_task_run_def checkpoint_agent_task_session_for_run_def row_updates
       intro!: pending_at [OF C]\<close>)

lemma lc_fail_ok:
  assumes ok: "env_ok l e d" and C: "db_constraints d" and cp: "current_pair d ref t r" and st: "active (tk_status t)"
  shows "lc_fail l e d ref msg =
    Inr (moved e d t r (failed_task e msg) (closed_run e (failure_params e r msg)) ev_failed, failed_task e msg t)"
  unfolding lc_fail_def lc_fail_with_def
  by (rule locked_ok [OF ok C cp, where
      P = "\<lambda>x. Some (rn_id x) = rr_run ref" and
      Q = "\<lambda>t. Some (tk_id t) = rr_work_item ref \<and> rr_run ref \<noteq> None \<and> tk_active_run t = rr_run ref \<and> active (tk_status t)"])
    (use pair_refs [OF cp] st in \<open>auto simp: complete_task_run_def fail_agent_task_for_run_def row_updates
       failure_params_def active_def intro!: pending_at [OF C]\<close>)

section \<open>Retries\<close>

lemma requeued_ok:
  "tk_id (requeued_task t) = tk_id t \<and> tk_issue (requeued_task t) = tk_issue t \<and>
   tk_agent (requeued_task t) = tk_agent t \<and> tk_runtime (requeued_task t) = tk_runtime t \<and>
   tk_task_type (requeued_task t) = tk_task_type t \<and> tk_active_run (requeued_task t) = None \<and>
   tk_status (requeued_task t) = Queued"
  by (simp add: requeued_task_def)

text \<open>No other Work Item of the issue waits in the queue.\<close>

definition queue_free :: "db \<Rightarrow> task_row \<Rightarrow> bool" where
  "queue_free d t \<longleftrightarrow> (\<forall>u\<in>set (tasks d). tk_issue u = tk_issue t \<longrightarrow> tk_id u \<noteq> tk_id t \<longrightarrow> \<not> pending (tk_status u))"

lemma one_pending_requeue:
  assumes C: "db_constraints d" and t: "t \<in> set (tasks d)"
    and f: "tk_id (f t) = tk_id t" "tk_issue (f t) = tk_issue t" "pending (tk_status (f t))"
  shows "one_pending_per_issue (map (at_task (tk_id t) f) (tasks d)) \<longleftrightarrow> queue_free d t"
proof
  assume "queue_free d t"
  show "one_pending_per_issue (map (at_task (tk_id t) f) (tasks d))"
  proof (cases "pending (tk_status t)")
    case True
    then show ?thesis using f by (intro pending_at [OF C t]) simp_all
  next
    case False
    have "\<not> pending (tk_status a)" if "a \<in> set (tasks d)" "tk_issue a = tk_issue t" for a
    proof (cases "tk_id a = tk_id t")
      case True
      then have "a = t" by (rule same_task [OF C that(1) t])
      with False show ?thesis by simp
    qed (use that \<open>queue_free d t\<close> in \<open>auto simp: queue_free_def\<close>)
    then show ?thesis
      unfolding one_pending_per_issue_def using C t f constraints_keys(1) [OF C]
      by (intro distinct_issue_add) (auto simp: constraint_defs)
  qed
next
  assume one: "one_pending_per_issue (map (at_task (tk_id t) f) (tasks d))"
  show "queue_free d t"
    unfolding queue_free_def
  proof (intro ballI impI notI)
    fix u assume u: "u \<in> set (tasks d)" "tk_issue u = tk_issue t" "tk_id u \<noteq> tk_id t" "pending (tk_status u)"
    let ?ts = "filter (\<lambda>x. pending (tk_status x)) (map (at_task (tk_id t) f) (tasks d))"
    have at_u: "at_task (tk_id t) f u = u" using u(3) by (simp add: at_task_def)
    have in_u: "u \<in> set ?ts"
      using in_filter_map [OF u(1), of "\<lambda>x. pending (tk_status x)" "at_task (tk_id t) f"] u(4) unfolding at_u by blast
    have in_t: "f t \<in> set ?ts"
      using in_filter_map [OF t, of "\<lambda>x. pending (tk_status x)" "at_task (tk_id t) f"] f(3) unfolding at_task_same by blast
    have "distinct (map tk_issue ?ts)" using one by (simp add: one_pending_per_issue_def)
    then have "u = f t" by (rule distinct_key_eq [OF _ in_u in_t]) (simp add: u(2) f(2))
    with u(3) f(1) show False by simp
  qed
qed

lemma lc_retry_ok:
  assumes ok: "env_ok l e d" and C: "db_constraints d" and cp: "current_pair d ref t r" and st: "active (tk_status t)"
    and budget: "tk_retry_count t < tk_max_retries t" and free: "queue_free d t"
  shows "lc_retry_active l e d ref msg =
    Inr (moved e d t r requeued_task (closed_run e (retry_params r msg)) ev_retry, Some (requeued_task t))"
proof -
  have one: "one_pending_per_issue (map (at_task (tk_id t) requeued_task) (tasks d))"
    using one_pending_requeue [OF C pair_refs(3) [OF cp], of requeued_task] requeued_ok [of t] free by simp
  have "lc_retry_tx l e d ref msg =
    Inr (moved e d t r requeued_task (closed_run e (retry_params r msg)) ev_retry, requeued_task t)"
    unfolding lc_retry_tx_def
    by (rule locked_ok [OF ok C cp, where
        P = "\<lambda>x. Some (rn_id x) = rr_run ref" and
        Q = "\<lambda>t. Some (tk_id t) = rr_work_item ref \<and> (tk_status t = Failed \<or> active (tk_status t)) \<and> tk_retry_count t < tk_max_retries t"])
      (use pair_refs [OF cp] st budget one requeued_ok [of t] in \<open>auto simp: complete_task_run_def retry_agent_task_def
         closed_run_def [abs_def] retry_params_def active_def\<close>)
  then show ?thesis by (simp add: lc_retry_active_def)
qed

lemma closed_run_constraints:
  assumes C: "db_constraints d" and r: "r \<in> set (runs d)" and s: "cr_status p \<noteq> Queued" "\<not> active (cr_status p)"
  shows "update_run d (\<lambda>x. Some (rn_id x) = Some (rn_id r)) (closed_run e p) =
    Inr (d\<lparr>runs := map (at_run (rn_id r) (closed_run e p)) (runs d)\<rparr>, closed_run e p r)"
    "db_constraints (d\<lparr>runs := map (at_run (rn_id r) (closed_run e p)) (runs d)\<rparr>)"
proof -
  have nq: "rn_status x \<noteq> Queued" if "x \<in> set (runs d)" for x using C that by (simp add: constraint_defs)
  show C': "db_constraints (d\<lparr>runs := map (at_run (rn_id r) (closed_run e p)) (runs d)\<rparr>)"
    using C by (rule constraints_runs) (use s nq in \<open>auto simp: at_run_def closed_run_def\<close>)
  show "update_run d (\<lambda>x. Some (rn_id x) = Some (rn_id r)) (closed_run e p) =
    Inr (d\<lparr>runs := map (at_run (rn_id r) (closed_run e p)) (runs d)\<rparr>, closed_run e p r)"
    by (rule update_run_ok [OF C r _ _ C']) auto
qed

lemma lc_retry_spent:
  assumes ok: "env_ok l e d" and C: "db_constraints d" and cp: "current_pair d ref t r" and st: "active (tk_status t)"
    and spent: "tk_max_retries t \<le> tk_retry_count t"
  shows "lc_retry_active l e d ref msg = Inr (d, None)"
proof -
  note ok' = env_okD [OF ok] and rf = pair_refs [OF cp]
  have r: "r \<in> set (runs d)" using cp by (simp add: current_pair_def)
  have x_not: "Some (tk_id x) = Some (tk_id t) \<Longrightarrow> tk_retry_count x < tk_max_retries x \<Longrightarrow> x \<notin> set (tasks d)" for x
    using same_task [OF C _ rf(3)] spent by fastforce
  have no: "retry_agent_task (d\<lparr>runs := rs\<rparr>) (Some (tk_id t)) = Inl ErrNoRows" for rs
  proof -
    have "select_one (\<lambda>x. Some (tk_id x) = Some (tk_id t) \<and> (tk_status x = Failed \<or> active (tk_status x)) \<and>
        tk_retry_count x < tk_max_retries x) (tasks d) = Inl ErrNoRows"
      by (rule select_one_none) (use x_not in blast)
    then show ?thesis by (simp add: retry_agent_task_def update_task_def)
  qed
  have in_ss: "tk_status t \<in> set [Dispatched, Running]" using st by (auto simp: active_def)
  have "lc_retry_tx l e d ref msg = Inl (ErrWrap ''retry work item'' ErrNoRows)"
    unfolding lc_retry_tx_def with_locked_run_current [OF ok'(1,2) C cp in_ss in_ss]
    using closed_run_constraints(1) [OF C r, of "retry_params r msg" e] rf(1,2) no
    by (simp add: complete_task_run_def retry_params_def)
  then show ?thesis by (simp add: lc_retry_active_def)
qed

lemma lc_retry_blocked:
  assumes ok: "env_ok l e d" and C: "db_constraints d" and cp: "current_pair d ref t r" and st: "active (tk_status t)"
    and budget: "tk_retry_count t < tk_max_retries t" and blocked: "\<not> queue_free d t"
  shows "lc_retry_active l e d ref msg = Inl (ErrWrap ''retry work item'' ErrConstraint)"
proof -
  note ok' = env_okD [OF ok] and rf = pair_refs [OF cp]
  let ?Q = "\<lambda>x. Some (tk_id x) = Some (tk_id t) \<and> (tk_status x = Failed \<or> active (tk_status x)) \<and> tk_retry_count x < tk_max_retries x"
  have r: "r \<in> set (runs d)" using cp by (simp add: current_pair_def)
  let ?d1 = "d\<lparr>runs := map (at_run (rn_id r) (closed_run e (retry_params r msg))) (runs d)\<rparr>"
  have sel: "select_one ?Q (tasks d) = Inr t"
    by (rule select_one_key [OF constraints_keys(1) [OF C] rf(3)]) (use st budget in auto)
  have "upd_where ?Q requeued_task (tasks d) = map (at_task (tk_id t) requeued_task) (tasks d)"
    unfolding upd_where_def
  proof (rule map_cong [OF refl])
    fix y assume y: "y \<in> set (tasks d)"
    have "tk_id y = tk_id t \<Longrightarrow> y = t" using same_task [OF C y rf(3)] .
    with st budget show "(if ?Q y then requeued_task y else y) = at_task (tk_id t) requeued_task y"
      by (auto simp: at_task_def)
  qed
  moreover have "\<not> one_pending_per_issue (map (at_task (tk_id t) requeued_task) (tasks d))"
    using one_pending_requeue [OF C rf(3), of requeued_task] requeued_ok [of t] blocked by simp
  ultimately have no: "retry_agent_task ?d1 (Some (tk_id t)) = Inl ErrConstraint"
    using sel by (simp add: retry_agent_task_def update_task_def commit_stmt_def db_constraints_def task_constraints_def)
  have in_ss: "tk_status t \<in> set [Dispatched, Running]" using st by (auto simp: active_def)
  have "lc_retry_tx l e d ref msg = Inl (ErrWrap ''retry work item'' ErrConstraint)"
    unfolding lc_retry_tx_def with_locked_run_current [OF ok'(1,2) C cp in_ss in_ss]
    using closed_run_constraints(1) [OF C r, of "retry_params r msg" e] rf(1,2) no
    by (simp add: complete_task_run_def retry_params_def)
  then show ?thesis by (simp add: lc_retry_active_def)
qed

text \<open>Recovery of a runtime as a whole fails when one of its Work Items has a waiting sibling.\<close>

lemma recover_blocked:
  assumes t: "t \<in> set (tasks d)" "recover_target rt t" "tk_retry_count t < tk_max_retries t"
    and u: "u \<in> set (tasks d)" "tk_issue u = tk_issue t" "tk_status u = Queued" "tk_id u \<noteq> tk_id t"
  shows "recover_tasks_for_runtime_stmt e d rt = Inl ErrConstraint"
proof -
  let ?F = "\<lambda>x. if recover_target rt x then recovered_task e x else x"
  let ?ts = "filter (\<lambda>x. pending (tk_status x)) (map ?F (tasks d))"
  have rec_t: "tk_status (recovered_task e t) = Queued" "tk_issue (recovered_task e t) = tk_issue t"
    "tk_id (recovered_task e t) = tk_id t" using t(3) by (simp_all add: recovered_task_def)
  have "?F t \<in> set ?ts" using t(1,2) rec_t by simp
  then have in_t: "recovered_task e t \<in> set ?ts" using t(2) by simp
  have not_u: "\<not> recover_target rt u" using u(3) by (simp add: recover_target_def)
  have "?F u \<in> set ?ts" using u(1,3) not_u by simp
  then have in_u: "u \<in> set ?ts" using not_u by simp
  have "\<not> one_pending_per_issue (map ?F (tasks d))"
  proof
    assume "one_pending_per_issue (map ?F (tasks d))"
    then have "distinct (map tk_issue ?ts)" by (simp add: one_pending_per_issue_def)
    then have "u = recovered_task e t" by (rule distinct_key_eq [OF _ in_u in_t]) (simp add: u(2) rec_t(2))
    with u(4) rec_t(3) show False by simp
  qed
  then show ?thesis
    by (simp add: recover_tasks_for_runtime_stmt_def Let_def commit_stmt_def db_constraints_def task_constraints_def upd_where_def)
qed

end
