(* ===== verification/LifecycleDemo.thy ===== *)
theory LifecycleDemo
  imports LifecycleExact
begin

text \<open>
  A concrete history on which the lifecycle properties are exhibited: a workspace with one
  agent, one online and one offline runtime and two issues; three Work Items are created,
  claimed and started. Everything here is computed by the definitions of the model.
\<close>

definition demo_agent :: agent_row where
  "demo_agent = \<lparr>ag_id = 10, ag_workspace = 1, ag_name = ''dev'', ag_avatar_url = None,
     ag_runtime_mode = ''local'', ag_runtime_config = ''{}'', ag_visibility = ''workspace'',
     ag_status = ''idle'', ag_max_concurrent = 2, ag_owner = Some 2, ag_created_at = 0, ag_updated_at = 0,
     ag_description = '''', ag_tools = '''', ag_triggers = '''', ag_runtime = Some 20,
     ag_instructions = '''', ag_archived_at = None, ag_archived_by = None, ag_provider = ''claude'',
     ag_model_override = None, ag_provider_config = ''''\<rparr>"

definition demo_runtime :: "uuid \<Rightarrow> string \<Rightarrow> runtime_row" where
  "demo_runtime i s = \<lparr>rt_id = i, rt_workspace = 1, rt_daemon_id = Some ''d'', rt_name = ''r'', rt_mode = ''local'',
     rt_provider = ''claude'', rt_status = s, rt_device_info = '''', rt_metadata = '''', rt_last_seen = Some 0,
     rt_created_at = 0, rt_updated_at = 0\<rparr>"

definition demo_issue :: "uuid \<Rightarrow> issue_row" where
  "demo_issue i = \<lparr>is_id = i, is_workspace = 1, is_title = ''t'', is_description = None, is_status = ''todo'',
     is_priority = ''high'', is_assignee_type = Some ''agent'', is_assignee = Some 10, is_number = int i - 29,
     is_creator_type = ''member'', is_creator = 7, is_parent = None, is_due = None, is_created_at = 0, is_updated_at = 0\<rparr>"

definition demo0 :: db where
  "demo0 = \<lparr>agents = [demo_agent], runtimes = [demo_runtime 20 ''online'', demo_runtime 21 ''offline''],
     issues = [demo_issue 30, demo_issue 31], tasks = [], runs = [], outbox = [], receipts = [], deliveries = [],
     loops = [], comments = [], metrics = [], xtraces = [], activities = [], inbox = [], subscribers = [],
     members = []\<rparr>"

text \<open>The \<open>k\<close>-th transaction draws the identifiers from \<open>1000 k\<close> on and runs at time \<open>k\<close> hours.\<close>

definition demo_env :: "nat \<Rightarrow> env" where
  "demo_env k = \<lparr>e_now = int k * 3600000000000, e_wall = int k * 3600000000000, e_gen = (\<lambda>n. 1000 * k + n),
     e_locked = (\<lambda>_. False), e_begin = True, e_commit = True\<rparr>"

definition demo_handle :: lifecycle_handle where
  "demo_handle = \<lparr>lh_self = True, lh_starter = True, lh_queries = True\<rparr>"

definition demo_params :: "uuid \<Rightarrow> uuid \<Rightarrow> int \<Rightarrow> create_task_params" where
  "demo_params rt i p = \<lparr>ct_agent = Some 10, ct_runtime = Some rt, ct_issue = Some i, ct_priority = p,
     ct_trigger = None, ct_task_type = None, ct_loop = None\<rparr>"

text \<open>
  Create a Work Item on issue 30, claim it, start its Run; from there, either complete it
  (\<open>demo5\<close>) or queue one more Work Item on the same issue (\<open>demo4\<close>).
\<close>

definition demo_queued :: "nat \<Rightarrow> int \<Rightarrow> task_row" where
  "demo_queued k p = \<lparr>tk_id = 1000 * k, tk_agent = 10, tk_issue = 30, tk_status = Queued, tk_priority = p,
     tk_dispatched_at = None, tk_started_at = None, tk_completed_at = None, tk_result = None, tk_error = None,
     tk_created_at = int k * 3600000000000, tk_context = None, tk_runtime = 20, tk_session = None,
     tk_work_dir = None, tk_trigger_comment = None, tk_retry_count = 0, tk_max_retries = 3,
     tk_task_type = ''standard'', tk_loop = None, tk_active_run = None\<rparr>"

definition demo1 :: db where "demo1 = demo0\<lparr>tasks := [demo_queued 1 3]\<rparr>"

definition demo_dispatched :: task_row where "demo_dispatched = dispatched_task (demo_env 2) (demo_queued 1 3)"
definition demo_new_run :: run_row where "demo_new_run = new_run_row (demo_env 2) (demo_queued 1 3)"

definition demo2 :: db where
  "demo2 = demo1\<lparr>tasks := [demo_dispatched], runs := [demo_new_run]\<rparr>"

definition demo_ref :: run_ref where
  "demo_ref = \<lparr>rr_work_item = Some 1000, rr_run = Some 2000\<rparr>"

definition demo_task :: task_row where "demo_task = started_task (demo_env 3) demo_dispatched"
definition demo_run :: run_row where "demo_run = started_run (demo_env 3) demo_new_run"

definition demo3 :: db where
  "demo3 = demo2\<lparr>tasks := [demo_task], runs := [demo_run],
     outbox := [new_outbox_row (demo_env 3) 1 1000 (Some 2000) ''run.started'' 1 (status_payload Running)]\<rparr>"

definition demo4 :: db where
  "demo4 = demo3\<lparr>tasks := [demo_task, demo_queued 4 1]\<rparr>"

definition demo_completion :: run_completion where
  "demo_completion = \<lparr>rc_result = Some ''done'', rc_session = ''s'', rc_work_dir = ''w'', rc_duration_ms = 5,
     rc_total_tokens = 7\<rparr>"

definition demo_done :: task_row where "demo_done = completed_task (demo_env 5) demo_completion demo_task"
definition demo_closed :: run_row where
  "demo_closed = closed_run (demo_env 5) (completion_params demo_completion) demo_run"

definition demo5 :: db where
  "demo5 = demo3\<lparr>tasks := [demo_done], runs := [demo_closed],
     outbox := outbox demo3 @ [new_outbox_row (demo_env 5) 1 1000 (Some 2000) ''run.completed'' 1 (status_payload Completed)]\<rparr>"

lemmas demo_rows = demo_agent_def demo_runtime_def demo_issue_def demo0_def demo_env_def demo_handle_def
  demo_params_def demo_queued_def demo_dispatched_def demo_new_run_def demo_ref_def demo_task_def demo_run_def
  dispatched_task_def new_run_row_def started_task_def started_run_def

lemma demo1_step:
  "create_agent_task (demo_env 1) 0 demo0 (demo_params 20 30 3) = Inr (demo1, demo_queued 1 3)"
  by (simp add: create_agent_task_def commit_stmt_def Let_def or_fail_def constraint_defs task_types_def demo1_def demo_rows)

lemma demo2_step:
  "claim_agent_task_run (demo_env 2) demo1 (Some 10) = Inr (demo2, 1000, 2000)"
  by (simp add: claim_agent_task_run_def dispatch_candidate_def claimable_def upd_where_def commit_stmt_def Let_def or_fail_def
      constraint_defs task_types_def demo1_def demo2_def demo_rows)

lemma demo2_inv: "lc_inv demo2"
proof (rule claim_inv(1) [OF create_agent_task_inv [OF _ demo1_step] demo2_step])
  show "lc_inv demo0" by (rule lc_inv_init) (simp_all add: demo0_def)
qed

lemma demo3_step: "lc_start demo_handle (demo_env 3) demo2 demo_ref = Inr (demo3, demo_task)"
proof -
  have "lc_start demo_handle (demo_env 3) demo2 demo_ref = Inr (moved (demo_env 3) demo2 demo_dispatched demo_new_run
      (started_task (demo_env 3)) (started_run (demo_env 3)) ev_started, demo_task)"
    unfolding demo_task_def
    by (rule lc_start_ok [OF _ lc_invD(1) [OF demo2_inv]])
      (simp_all add: env_ok_def handle_ok_def fresh_event_def current_pair_def demo2_def demo1_def demo_rows)
  moreover have "moved (demo_env 3) demo2 demo_dispatched demo_new_run
      (started_task (demo_env 3)) (started_run (demo_env 3)) ev_started = demo3"
    by (simp add: moved_def demo3_def demo2_def demo1_def at_task_def at_run_def ev_started_def demo_rows)
  ultimately show ?thesis by simp
qed

lemma demo4_step:
  "create_agent_task (demo_env 4) 0 demo3 (demo_params 20 30 1) = Inr (demo4, demo_queued 4 1)"
  by (simp add: create_agent_task_def commit_stmt_def Let_def or_fail_def constraint_defs task_types_def demo4_def demo3_def demo2_def demo1_def
      new_outbox_row_def demo_rows)

lemma demo_reachable:
  "lc_reachable demo0" "lc_reachable demo2" "lc_reachable demo3" "lc_reachable demo4"
proof -
  show r0: "lc_reachable demo0" by (rule reach_init) (simp_all add: demo0_def)
  have r1: "lc_reachable demo1" using r0 step_create [OF demo1_step] by (rule reach_step)
  show r2: "lc_reachable demo2" using r1 step_claim [OF demo2_step] by (rule reach_step)
  show r3: "lc_reachable demo3" using r2 step_start [OF demo3_step] by (rule reach_step)
  show "lc_reachable demo4" using r3 step_create [OF demo4_step] by (rule reach_step)
qed

lemma demo_constraints: "db_constraints demo2" "db_constraints demo3" "db_constraints demo4"
  using demo_reachable [THEN lc_reachable_inv] by (simp_all add: lc_inv_def)

lemma demo_pair:
  "current_pair demo2 demo_ref demo_dispatched demo_new_run" "tk_status demo_dispatched = Dispatched"
  "current_pair demo3 demo_ref demo_task demo_run" "current_pair demo4 demo_ref demo_task demo_run"
  "tk_status demo_task = Running"
  by (simp_all add: current_pair_def demo4_def demo3_def demo2_def demo_rows)

lemma demo_env_ok:
  "env_ok demo_handle (demo_env 3) demo2" "env_ok demo_handle (demo_env 5) demo3" "env_ok demo_handle (demo_env 5) demo4"
  by (simp_all add: env_ok_def handle_ok_def fresh_event_def demo4_def demo3_def demo2_def demo1_def
      new_outbox_row_def demo_rows)

lemma demo5_step:
  "lc_complete demo_handle (demo_env 5) demo3 demo_ref demo_completion = Inr (demo5, demo_done)"
proof -
  have "lc_complete demo_handle (demo_env 5) demo3 demo_ref demo_completion =
      Inr (moved (demo_env 5) demo3 demo_task demo_run (completed_task (demo_env 5) demo_completion)
        (closed_run (demo_env 5) (completion_params demo_completion)) ev_completed, demo_done)"
    unfolding demo_done_def
    by (rule lc_complete_ok [OF demo_env_ok(2) demo_constraints(2) demo_pair(3,5)])
  moreover have "moved (demo_env 5) demo3 demo_task demo_run (completed_task (demo_env 5) demo_completion)
        (closed_run (demo_env 5) (completion_params demo_completion)) ev_completed = demo5"
    by (simp add: moved_def demo5_def demo3_def at_task_def at_run_def ev_completed_def demo_done_def demo_closed_def
        completed_task_def demo_rows)
  ultimately show ?thesis by simp
qed

lemma demo5_reachable: "lc_reachable demo5"
  using demo_reachable(3) step_complete [OF demo5_step] by (rule reach_step)

text \<open>One more Work Item after the first is completed.\<close>

definition demo6 :: db where
  "demo6 = demo5\<lparr>tasks := [demo_done, demo_queued 6 1]\<rparr>"

lemma demo6_step:
  "create_agent_task (demo_env 6) 0 demo5 (demo_params 20 30 1) = Inr (demo6, demo_queued 6 1)"
  by (simp add: create_agent_task_def commit_stmt_def Let_def or_fail_def constraint_defs task_types_def demo6_def demo5_def
      demo3_def demo2_def demo1_def demo_done_def demo_closed_def completed_task_def closed_run_def completion_params_def
      new_outbox_row_def demo_rows)

end
