(* ===== verification/LifecycleProps.thy ===== *)
theory LifecycleProps
  imports LifecycleDemo
begin

text \<open>
  The properties of the Work Item lifecycle, each with the instance that shows its hypotheses
  can hold.
\<close>

lemmas reach = lc_reachable_inv [THEN lc_invD(1)] lc_reachable_inv [THEN lc_invD(2)]
  lc_reachable_inv [THEN lc_invD(3)] lc_reachable_inv [THEN lc_invD(4)] lc_reachable_inv [THEN lc_invD(5)]

lemma reachable_steps: "lc_step\<^sup>*\<^sup>* d d' \<Longrightarrow> lc_reachable d \<Longrightarrow> lc_reachable d'"
  by (induction rule: rtranclp_induct) (auto intro: reach_step)

section \<open>Work Items and their Runs\<close>

text \<open>C1. In every reachable state of the database, a Work Item is dispatched or running exactly
  when it points at a Run; that Run is its own, is the only dispatched or running Run it has, and
  is in the same status as the Work Item.\<close>

theorem active_work_item_has_one_run:
  assumes "lc_reachable d" "t \<in> set (tasks d)"
  shows "(active (tk_status t) \<longrightarrow> (\<exists>r\<in>set (runs d). tk_active_run t = Some (rn_id r) \<and>
            rn_status r = tk_status t \<and> {s \<in> set (runs d). rn_task s = tk_id t \<and> active (rn_status s)} = {r})) \<and>
         (\<not> active (tk_status t) \<longrightarrow> tk_active_run t = None \<and>
            {s \<in> set (runs d). rn_task s = tk_id t \<and> active (rn_status s)} = {})"
proof -
  note R = reach [OF assms(1)]
  have one: "tk_active_run t = Some (rn_id s)" if "s \<in> set (runs d)" "rn_task s = tk_id t" "active (rn_status s)" for s
  proof -
    note sr = that
    obtain u where u: "u \<in> set (tasks d)" "tk_id u = rn_task s" "tk_active_run u = Some (rn_id s)"
      using run_linked [OF R(2) sr(1,3)] .
    then have "u = t" using sr(2) by (intro same_task [OF R(1) u(1) assms(2)]) simp
    with u show ?thesis by simp
  qed
  show ?thesis
  proof (cases "active (tk_status t)")
    case True
    obtain r where r: "r \<in> set (runs d)" "tk_active_run t = Some (rn_id r)" "rn_task r = tk_id t" "rn_status r = tk_status t"
      using active_linked [OF R(2) assms(2) True] .
    have "s = r" if "s \<in> set (runs d)" "rn_task s = tk_id t" "active (rn_status s)" for s
      using one [OF that] r(2) by (intro same_run [OF R(1) that(1) r(1)]) simp
    then have "{s \<in> set (runs d). rn_task s = tk_id t \<and> active (rn_status s)} = {r}"
      using r(1,3) True unfolding r(4) [symmetric] by blast
    with r(1,2,4) True show ?thesis by blast
  next
    case False
    have none: "tk_active_run t = None" using inactive_unlinked [OF R(2) assms(2) False] .
    have "\<not> (rn_task s = tk_id t \<and> active (rn_status s))" if "s \<in> set (runs d)" for s
      using one [OF that] none by auto
    with none False show ?thesis by blast
  qed
qed

lemma active_work_item_has_one_run_witness:
  "{s \<in> set (runs demo3). rn_task s = 1000 \<and> active (rn_status s)} = {demo_run} \<and> tk_active_run demo_task = Some 2000"
proof -
  have mem: "demo_task \<in> set (tasks demo3)" by (simp add: demo3_def)
  have "tk_active_run demo_task = Some 2000" "tk_id demo_task = 1000" "active (tk_status demo_task)"
    "set (runs demo3) = {demo_run}"
    by (simp_all add: demo3_def demo_rows)
  with active_work_item_has_one_run [OF demo_reachable(3) mem] show ?thesis by auto
qed

text \<open>C2. The retry budget bounds the attempts: in every reachable state a Work Item has at most
  one Run per retry it was granted plus one, and never more retries than \<^verbatim>\<open>max_retries\<close>.\<close>

theorem attempts_within_budget:
  assumes "lc_reachable d" "t \<in> set (tasks d)"
  shows "int (runs_of d (tk_id t)) \<le> tk_retry_count t + 1 \<and> tk_retry_count t \<le> tk_max_retries t"
proof -
  have "int (runs_of d (tk_id t)) \<le> allowance t" "tk_retry_count t \<le> tk_max_retries t"
    using reach(3) [OF assms(1)] assms(2) by (auto simp: within_budget_def)
  moreover have "allowance t \<le> tk_retry_count t + 1" by (simp add: allowance_def)
  ultimately show ?thesis by linarith
qed

lemma attempts_within_budget_witness:
  "runs_of demo3 1000 = 1 \<and> int (runs_of demo3 (tk_id demo_task)) \<le> tk_retry_count demo_task + 1"
proof -
  have "demo_task \<in> set (tasks demo3)" "runs_of demo3 1000 = 1" by (simp_all add: runs_of_def demo3_def demo_rows)
  with attempts_within_budget [OF demo_reachable(3)] show ?thesis by auto
qed

text \<open>C3. Execution is serial per issue: two dispatched or running Work Items of one issue are
  the same Work Item.\<close>

theorem one_active_work_item_per_issue:
  assumes "lc_reachable d" "t \<in> set (tasks d)" "u \<in> set (tasks d)" "tk_issue t = tk_issue u"
    "active (tk_status t)" "active (tk_status u)"
  shows "t = u"
proof -
  have "distinct (map tk_issue (filter (\<lambda>t. active (tk_status t)) (tasks d)))"
    using reach(4) [OF assms(1)] by (simp add: serial_per_issue_def)
  then show ?thesis by (rule distinct_key_eq) (use assms in auto)
qed

lemma one_active_work_item_per_issue_witness: "active (tk_status demo_task) \<and> demo_task = hd (tasks demo4)"
proof -
  have "demo_task \<in> set (tasks demo4)" "hd (tasks demo4) \<in> set (tasks demo4)"
    "tk_issue demo_task = tk_issue (hd (tasks demo4))" "active (tk_status demo_task)" "active (tk_status (hd (tasks demo4)))"
    by (simp_all add: demo4_def demo_rows)
  with one_active_work_item_per_issue [OF demo_reachable(4)] show ?thesis by auto
qed

section \<open>What later steps may do\<close>

text \<open>A closed Run is permanent: once completed, failed or cancelled, no later history of
  lifecycle calls changes any of its columns or removes it.\<close>

theorem closed_run_permanent:
  assumes "lc_reachable d" "lc_step\<^sup>*\<^sup>* d d'" "r \<in> set (runs d)" "\<not> active (rn_status r)"
  shows "r \<in> set (runs d')"
  using assms(2)
proof (induction rule: rtranclp_induct)
  case base
  show ?case by (rule assms(3))
next
  case (step y z)
  have "db_constraints y" using reach(1) [OF reachable_steps [OF step(1) assms(1)]] .
  with lc_step_effect [OF step(2)] step.IH obtain r' where "r' \<in> set (runs z)" "run_moves r r'"
    by (auto simp: step_effect_def)
  with assms(4) show ?case by (simp add: run_moves_def)
qed

lemma closed_run_permanent_witness: "demo_closed \<in> set (runs demo6) \<and> rn_status demo_closed = Completed"
proof -
  have "lc_step\<^sup>*\<^sup>* demo5 demo6" using step_create [OF demo6_step] by (rule r_into_rtranclp)
  moreover have "demo_closed \<in> set (runs demo5)" "rn_status demo_closed = Completed"
    by (simp_all add: demo5_def demo_closed_def closed_run_def completion_params_def)
  ultimately show ?thesis using closed_run_permanent [OF demo5_reachable, of demo6 demo_closed] by simp
qed

text \<open>Completed and cancelled are final for a Work Item: through any later history it keeps
  its identity, its issue, its agent, its runtime and its status.\<close>

theorem terminal_work_item_absorbing:
  assumes "lc_reachable d" "lc_step\<^sup>*\<^sup>* d d'" "t \<in> set (tasks d)" "tk_status t = Completed \<or> tk_status t = Cancelled"
  shows "\<exists>t'\<in>set (tasks d'). tk_id t' = tk_id t \<and> tk_status t' = tk_status t \<and> tk_issue t' = tk_issue t \<and>
    tk_agent t' = tk_agent t \<and> tk_runtime t' = tk_runtime t"
  using assms(2)
proof (induction rule: rtranclp_induct)
  case base
  show ?case using assms(3) by blast
next
  case (step y z)
  then obtain u where u: "u \<in> set (tasks y)" "tk_id u = tk_id t" "tk_status u = tk_status t" "tk_issue u = tk_issue t"
    "tk_agent u = tk_agent t" "tk_runtime u = tk_runtime t" by blast
  have "db_constraints y" using reach(1) [OF reachable_steps [OF step(1) assms(1)]] .
  with lc_step_effect [OF step(2)] u(1) obtain v where "v \<in> set (tasks z)" "task_moves u v"
    by (fastforce simp: step_effect_def)
  with u assms(4) show ?case by (intro bexI [of _ v]) (auto simp: task_moves_def)
qed

lemma terminal_work_item_absorbing_witness:
  "\<exists>t'\<in>set (tasks demo6). tk_id t' = 1000 \<and> tk_status t' = Completed"
proof -
  have st: "lc_step\<^sup>*\<^sup>* demo5 demo6" using step_create [OF demo6_step] by (rule r_into_rtranclp)
  have d: "demo_done \<in> set (tasks demo5)" "tk_status demo_done = Completed" "tk_id demo_done = 1000"
    by (simp_all add: demo5_def demo_done_def completed_task_def demo_rows)
  from terminal_work_item_absorbing [OF demo5_reachable st d(1)] d show ?thesis by auto
qed

text \<open>C4. No Work Item changes silently: every step that changes the status of a Work Item, other
  than dispatching it to a claimant, appends a fact about that Work Item carrying its new status,
  and facts already written stay as they are and in their order.\<close>

theorem no_silent_status_change:
  assumes "lc_reachable d" "lc_step d d'" "t \<in> set (tasks d)" "t' \<in> set (tasks d')" "tk_id t' = tk_id t"
    "tk_status t' \<noteq> tk_status t" "tk_status t' \<noteq> Dispatched"
  shows "status_edge (tk_status t) (tk_status t') \<and>
    (\<exists>new. map fact_of (outbox d') = map fact_of (outbox d) @ map fact_of new \<and>
       (\<exists>ev\<in>set new. ob_work_item ev = tk_id t \<and> ob_payload ev = status_payload (tk_status t')))"
proof -
  have C': "db_constraints d'" using assms(1,2) by (meson reach(1) reach_step)
  from lc_step_effect [OF assms(2) reach(1) [OF assms(1)]] obtain new where
    new: "map fact_of (outbox d') = map fact_of (outbox d) @ map fact_of new"
    and eff: "\<forall>t\<in>set (tasks d). \<exists>t'\<in>set (tasks d'). task_moves t t' \<and> reported t t' new"
    unfolding step_effect_def by blast
  from eff assms(3) obtain u where u: "u \<in> set (tasks d')" "task_moves t u" "reported t u new" by blast
  have "u = t'" by (rule same_task [OF C' u(1) assms(4)]) (use u(2) assms(5) in \<open>simp add: task_moves_def\<close>)
  then have "task_moves t t'" "reported t t' new" using u by simp_all
  then show ?thesis using new assms(6,7) unfolding task_moves_def reported_def by blast
qed

lemma no_silent_status_change_witness:
  "\<exists>new. map fact_of (outbox demo5) = map fact_of (outbox demo3) @ map fact_of new \<and>
     (\<exists>ev\<in>set new. ob_work_item ev = 1000 \<and> ob_payload ev = [(''status'', JStr ''completed'')])"
proof -
  have mem: "demo_task \<in> set (tasks demo3)" "demo_done \<in> set (tasks demo5)" by (simp_all add: demo3_def demo5_def)
  have "tk_id demo_done = tk_id demo_task" "tk_status demo_done \<noteq> tk_status demo_task" "tk_status demo_done \<noteq> Dispatched"
    and s: "tk_id demo_task = 1000" "status_payload (tk_status demo_done) = [(''status'', JStr ''completed'')]"
    by (simp_all add: demo_done_def completed_task_def demo_rows status_payload_def)
  from no_silent_status_change [OF demo_reachable(3) step_complete [OF demo5_step] mem this(1-3)]
  show ?thesis unfolding s by blast
qed

section \<open>Callbacks\<close>

text \<open>A stale callback changes nothing: when the reference does not name a Work Item together
  with the Run it currently points at, in a status the call expects, then starting, checkpointing,
  completing, failing and retrying all return \<^verbatim>\<open>ErrStaleRun\<close>.\<close>

theorem stale_callback_refused:
  assumes "handle_ok l" "e_begin e"
  shows "(\<not> ref_current d ref [Dispatched] \<longrightarrow> lc_start l e d ref = Inl ErrStaleRun) \<and>
    (\<not> ref_current d ref [Running] \<longrightarrow> lc_checkpoint l e d ref s w = Inl ErrStaleRun \<and>
      lc_complete l e d ref c = Inl ErrStaleRun) \<and>
    (\<not> ref_current d ref [Dispatched, Running] \<longrightarrow> lc_fail l e d ref msg = Inl ErrStaleRun \<and>
      lc_retry_active l e d ref msg = Inl ErrStaleRun)"
  using with_locked_run_stale [OF assms]
  by (simp add: lc_start_def lc_checkpoint_def lc_complete_def lc_fail_def lc_fail_with_def
      lc_retry_active_def lc_retry_tx_def)

lemma stale_callback_refused_witness:
  "lc_start demo_handle (demo_env 5) demo3 demo_ref = Inl ErrStaleRun \<and>
   lc_complete demo_handle (demo_env 5) demo2 demo_ref demo_completion = Inl ErrStaleRun \<and>
   lc_retry_active demo_handle (demo_env 6) demo5 demo_ref ''x'' = Inl ErrStaleRun"
proof -
  have h: "handle_ok demo_handle" "e_begin (demo_env k)" for k by (simp_all add: handle_ok_def demo_handle_def demo_env_def)
  have "\<not> ref_current demo3 demo_ref [Dispatched]" "\<not> ref_current demo2 demo_ref [Running]"
    "\<not> ref_current demo5 demo_ref [Dispatched, Running]"
    by (simp_all add: ref_current_def current_pair_def demo2_def demo3_def demo5_def demo_done_def completed_task_def demo_rows)
  with stale_callback_refused [OF h] show ?thesis by blast
qed

text \<open>C5. A current callback goes through: on the Run a Work Item points at, in the expected
  status, start, checkpoint, complete and fail succeed with exactly the two row updates of the
  handler and one appended fact, and touch no other row.\<close>

theorem current_callback_succeeds:
  assumes "lc_reachable d" "env_ok l e d" "current_pair d ref t r"
  shows "(tk_status t = Dispatched \<longrightarrow>
      lc_start l e d ref = Inr (moved e d t r (started_task e) (started_run e) ev_started, started_task e t)) \<and>
    (tk_status t = Running \<longrightarrow>
      lc_checkpoint l e d ref s w = Inr (moved e d t r (checkpointed_task (opt_text s) (opt_text w))
        (checkpointed_run (opt_text s) (opt_text w)) ev_checkpoint, checkpointed_task (opt_text s) (opt_text w) t) \<and>
      lc_complete l e d ref c = Inr (moved e d t r (completed_task e c) (closed_run e (completion_params c)) ev_completed,
        completed_task e c t)) \<and>
    (active (tk_status t) \<longrightarrow>
      lc_fail l e d ref msg = Inr (moved e d t r (failed_task e msg) (closed_run e (failure_params e r msg)) ev_failed,
        failed_task e msg t))"
proof -
  note pre = assms(2) reach(1) [OF assms(1)] assms(3)
  show ?thesis using lc_start_ok [OF pre] lc_checkpoint_ok [OF pre] lc_complete_ok [OF pre] lc_fail_ok [OF pre] by simp
qed

lemma current_callback_succeeds_witness:
  "lc_fail demo_handle (demo_env 5) demo3 demo_ref ''boom'' =
     Inr (moved (demo_env 5) demo3 demo_task demo_run (failed_task (demo_env 5) ''boom'')
       (closed_run (demo_env 5) (failure_params (demo_env 5) demo_run ''boom'')) ev_failed,
       failed_task (demo_env 5) ''boom'' demo_task)"
  using current_callback_succeeds [OF demo_reachable(3) demo_env_ok(2) demo_pair(3)] demo_pair(5) by simp

text \<open>Retrying an active Run: with budget left and no other Work Item of the issue waiting,
  the Run is closed as failed and the Work Item queued again with one retry more; with the budget
  spent the call reports not retried and the state is untouched; and when another Work Item of
  the issue is waiting, the call fails with a constraint violation.\<close>

theorem retry_active_outcome:
  assumes "lc_reachable d" "env_ok l e d" "current_pair d ref t r" "active (tk_status t)"
  shows "lc_retry_active l e d ref msg =
    (if tk_max_retries t \<le> tk_retry_count t then Inr (d, None)
     else if queue_free d t
     then Inr (moved e d t r requeued_task (closed_run e (retry_params r msg)) ev_retry, Some (requeued_task t))
     else Inl (ErrWrap ''retry work item'' ErrConstraint))"
  using assms reach(1) [OF assms(1)] lc_retry_ok lc_retry_spent lc_retry_blocked by simp

lemma retry_active_outcome_witness:
  "lc_retry_active demo_handle (demo_env 5) demo3 demo_ref ''x'' =
     Inr (moved (demo_env 5) demo3 demo_task demo_run requeued_task (closed_run (demo_env 5) (retry_params demo_run ''x''))
       ev_retry, Some (requeued_task demo_task)) \<and>
   lc_retry_active demo_handle (demo_env 5) demo4 demo_ref ''x'' = Inl (ErrWrap ''retry work item'' ErrConstraint)"
proof -
  have "active (tk_status demo_task)" "\<not> tk_max_retries demo_task \<le> tk_retry_count demo_task"
    "queue_free demo3 demo_task" "\<not> queue_free demo4 demo_task"
    by (simp_all add: demo_rows queue_free_def demo3_def demo4_def)
  with retry_active_outcome [OF demo_reachable(3) demo_env_ok(2) demo_pair(3), of "''x''"]
    retry_active_outcome [OF demo_reachable(4) demo_env_ok(3) demo_pair(4), of "''x''"]
  show ?thesis by simp
qed

text \<open>Recovery after a daemon restart is all or nothing: if one Work Item of the runtime is to
  be requeued while another Work Item of its issue is already queued, the whole statement fails
  and nothing of the runtime is recovered.\<close>

theorem recovery_blocked_by_waiting_sibling:
  assumes "handle_ok l" "t \<in> set (tasks d)" "recover_target (Some rt) t" "tk_retry_count t < tk_max_retries t"
    "u \<in> set (tasks d)" "tk_issue u = tk_issue t" "tk_status u = Queued" "tk_id u \<noteq> tk_id t"
  shows "lc_recover_tasks_for_runtime l e d (Some rt) = Inl (ErrWrap ''recover runtime work items'' ErrConstraint)"
  using recover_blocked [OF assms(2-8)] assms(1) by (simp add: lc_recover_tasks_for_runtime_def handle_ok_def)

lemma recovery_blocked_by_waiting_sibling_witness:
  "lc_reachable demo4 \<and> lc_recover_tasks_for_runtime demo_handle (demo_env 6) demo4 (Some 20) =
     Inl (ErrWrap ''recover runtime work items'' ErrConstraint)"
proof
  show "lc_reachable demo4" by (rule demo_reachable)
  show "lc_recover_tasks_for_runtime demo_handle (demo_env 6) demo4 (Some 20) =
     Inl (ErrWrap ''recover runtime work items'' ErrConstraint)"
    by (rule recovery_blocked_by_waiting_sibling [where t = demo_task and u = "demo_queued 4 1"])
      (simp_all add: handle_ok_def recover_target_def demo4_def demo_rows)
qed

section \<open>Claims\<close>

text \<open>C6. A successful claim for an agent dispatches one of the agent's own queued Work Items that
  no other transaction holds, whose issue has nothing dispatched or running, and before which no
  other claimable Work Item comes in the order of priority, then age; the claim opens a fresh
  dispatched Run for it and changes no other row.\<close>

theorem claim_takes_first_claimable:
  assumes "lc_reachable d" "claim_agent_task_run e d a = Inr (d', i, r)"
  shows "\<exists>t\<in>set (tasks d). tk_id t = i \<and> Some (tk_agent t) = a \<and> claimable d t \<and> \<not> e_locked e i \<and>
    (\<forall>u\<in>set (tasks d). Some (tk_agent u) = a \<longrightarrow> claimable d u \<longrightarrow> \<not> e_locked e (tk_id u) \<longrightarrow> \<not> claim_before u t) \<and>
    r = e_gen e 0 \<and> r \<notin> rn_id ` set (runs d) \<and>
    d' = d\<lparr>tasks := map (at_task i (dispatched_task e)) (tasks d), runs := runs d @ [new_run_row e t]\<rparr>"
proof -
  from assms(2) obtain t where ch: "claim_choice e d a = Some t" and di: "dispatch_candidate e d t = Inr (d', i, r)"
    by (auto simp: claim_by_agent_alt split: option.splits)
  note c = claim_choice_Some [OF ch]
  have q: "tk_status t = Queued" using c(3) by (simp add: claimable_def)
  note S = dispatch_candidate_Inr [OF di reach(1) [OF assms(1)] c(1) q]
  have "db_constraints d'" "runs d' = runs d @ [new_run_row e t]" using S by auto
  then have "e_gen e 0 \<notin> rn_id ` set (runs d)"
    using constraints_keys(2) [of d'] by simp
  with S c show ?thesis by (intro bexI [of _ t]) auto
qed

lemma claim_takes_first_claimable_witness:
  "(\<exists>t\<in>set (tasks demo1). tk_id t = 1000 \<and> claimable demo1 t) \<and> 2000 \<notin> rn_id ` set (runs demo1)"
proof -
  have r1: "lc_reachable demo1" using demo_reachable(1) step_create [OF demo1_step] by (rule reach_step)
  from claim_takes_first_claimable [OF r1 demo2_step] show ?thesis by auto
qed

text \<open>What a sweep that fails the Work Items \<open>P\<close> with the message \<open>msg\<close> makes of the state.\<close>

definition swept :: "env \<Rightarrow> db \<Rightarrow> db \<Rightarrow> nat \<Rightarrow> string \<Rightarrow> (task_row \<Rightarrow> bool) \<Rightarrow> bool" where
  "swept e d d' n msg P \<longleftrightarrow> n = length (filter P (tasks d)) \<and>
     tasks d' = map (\<lambda>t. if P t then failed_task e msg t else t) (tasks d) \<and>
     runs d' = map (\<lambda>r. if \<exists>t\<in>set (tasks d). P t \<and> tk_active_run t = Some (rn_id r)
                        then failed_run e msg r else r) (runs d) \<and>
     take (length (outbox d)) (outbox d') = outbox d \<and> length (outbox d') = length (outbox d) + n"

lemma sweep_exact:
  assumes inv: "lc_inv d" and ok: "close_batch e d P (failed_run e msg) (failed_task e msg) ty = Inr (d', ids)"
  shows "swept e d d' (length ids) msg P"
proof -
  have "Some (rn_id r) \<in> tk_active_run ` set (filter P (tasks d)) \<and> active (rn_status r) \<longleftrightarrow>
      (\<exists>t\<in>set (tasks d). P t \<and> tk_active_run t = Some (rn_id r))" if r: "r \<in> set (runs d)" for r
  proof
    assume "\<exists>t\<in>set (tasks d). P t \<and> tk_active_run t = Some (rn_id r)"
    then obtain t where t: "t \<in> set (tasks d)" "P t" "tk_active_run t = Some (rn_id r)" by blast
    from active_run_row [OF lc_invD(2) [OF inv] t(1,3)] obtain s where
      s: "s \<in> set (runs d)" "rn_id s = rn_id r" "active (rn_status s)" by auto
    have "s = r" by (rule same_run [OF lc_invD(1) [OF inv] s(1) r s(2)])
    with s t show "Some (rn_id r) \<in> tk_active_run ` set (filter P (tasks d)) \<and> active (rn_status r)"
      by (auto intro!: image_eqI [of _ _ t])
  qed auto
  then show ?thesis
    using ok unfolding close_batch_Inr swept_def by (auto simp: batch_events_def)
qed

text \<open>The sweeps are exact: the stale sweep fails precisely the Work Items dispatched or
  running for longer than their limit, the offline sweep precisely the active ones on an offline
  runtime; each closes exactly their Runs, leaves every other row alone, and returns their
  number, which is the number of facts appended.\<close>

theorem sweeps_exact:
  assumes "lc_reachable d"
  shows "(lc_fail_stale_tasks l e d dt rt = Inr (d', n) \<longrightarrow>
      swept e d d' n ''task timed out'' (stale_task e dt rt)) \<and>
    (lc_fail_tasks_for_offline_runtimes l e d = Inr (d', n) \<longrightarrow>
      swept e d d' n ''runtime went offline'' (\<lambda>t. active (tk_status t) \<and> offline_runtime d (tk_runtime t)))"
  using sweep_exact [OF lc_reachable_inv [OF assms]]
  by (auto simp: batch_ops batch_stmts res_simps split: if_splits)

lemma sweeps_exact_witness:
  "\<exists>d'. lc_fail_stale_tasks demo_handle (demo_env 5) demo3 0 0 = Inr (d', 1) \<and>
     swept (demo_env 5) demo3 d' 1 ''task timed out'' (stale_task (demo_env 5) 0 0)"
proof -
  have "is_ok (lc_fail_stale_tasks demo_handle (demo_env 5) demo3 0 0)"
    by (simp add: lc_fail_stale_tasks_def fail_stale_tasks_stmt_def close_batch_def stale_task_def older_than_def
        batch_events_def commit_stmt_def constraint_defs task_types_def upd_where_def new_outbox_row_def
        failed_task_def failed_run_def or_wrap_def or_fail_def demo3_def demo2_def demo1_def demo_rows)
  then obtain d' n where s: "lc_fail_stale_tasks demo_handle (demo_env 5) demo3 0 0 = Inr (d', n)"
    by (auto simp: is_ok_def split: sum.splits)
  then have sw: "swept (demo_env 5) demo3 d' n ''task timed out'' (stale_task (demo_env 5) 0 0)"
    using sweeps_exact [OF demo_reachable(3)] by blast
  moreover have "length (filter (stale_task (demo_env 5) 0 0) (tasks demo3)) = 1"
    by (simp add: stale_task_def older_than_def demo3_def demo_rows)
  ultimately have "n = 1" by (simp add: swept_def)
  with s sw show ?thesis by blast
qed

end
