(* ===== verification/GoText.thy ===== *)
theory GoText
  imports Prelude
begin

text \<open>
  What the server uses of the packages \<^verbatim>\<open>strings\<close>, \<^verbatim>\<open>strconv\<close>, \<^verbatim>\<open>fmt\<close> and of its own
  \<^verbatim>\<open>internal/util\<close>: a Go string is the list of its bytes. \<^verbatim>\<open>TrimSpace\<close> knows the UTF-8
  encodings of every Unicode space; \<^verbatim>\<open>ToLower\<close> is its ASCII part; \<^verbatim>\<open>%q\<close> passes bytes from
  128 on through (the printable runes).
\<close>

section \<open>Substrings\<close>

fun has_prefix :: "string \<Rightarrow> string \<Rightarrow> bool" where
  "has_prefix s [] = True"
| "has_prefix [] (c # cs) = False"
| "has_prefix (x # xs) (c # cs) = (x = c \<and> has_prefix xs cs)"

definition has_suffix :: "string \<Rightarrow> string \<Rightarrow> bool" where
  "has_suffix s p = has_prefix (rev s) (rev p)"

fun contains_str :: "string \<Rightarrow> string \<Rightarrow> bool" where
  "contains_str [] p = (p = [])"
| "contains_str (x # xs) p = (has_prefix (x # xs) p \<or> contains_str xs p)"

text \<open>\<^verbatim>\<open>strings.Index\<close>: the first position, \<open>None\<close> for -1.\<close>

fun index_of :: "string \<Rightarrow> string \<Rightarrow> nat option" where
  "index_of [] p = (if p = [] then Some 0 else None)"
| "index_of (x # xs) p = (if has_prefix (x # xs) p then Some 0 else map_option Suc (index_of xs p))"

lemma has_prefix_iff: "has_prefix s p \<longleftrightarrow> (\<exists>r. s = p @ r)"
  by (induction s p rule: has_prefix.induct) auto

lemma contains_str_iff: "contains_str s p \<longleftrightarrow> (\<exists>a b. s = a @ p @ b)"
proof (induction s)
  case Nil
  then show ?case by auto
next
  case (Cons x xs)
  show ?case
  proof
    assume "contains_str (x # xs) p"
    then consider "has_prefix (x # xs) p" | "contains_str xs p" by auto
    then show "\<exists>a b. x # xs = a @ p @ b"
    proof cases
      case 1
      then show ?thesis by (metis append_Nil has_prefix_iff)
    next
      case 2
      then show ?thesis using Cons.IH by (metis append_Cons)
    qed
  next
    assume "\<exists>a b. x # xs = a @ p @ b"
    then obtain a b where ab: "x # xs = a @ p @ b" by blast
    show "contains_str (x # xs) p"
    proof (cases a)
      case Nil
      with ab have "has_prefix (x # xs) p" by (simp add: has_prefix_iff)
      then show ?thesis by simp
    next
      case (Cons y ys)
      with ab have "xs = ys @ p @ b" by simp
      then show ?thesis using Cons.IH by auto
    qed
  qed
qed

section \<open>Case and space\<close>

definition lower_char :: "char \<Rightarrow> char" where
  "lower_char c = (let n = (of_char c :: nat) in if 65 \<le> n \<and> n \<le> 90 then char_of (n + 32) else c)"

definition to_lower :: "string \<Rightarrow> string" where
  "to_lower = map lower_char"

text \<open>The UTF-8 encodings of the code points \<^verbatim>\<open>unicode.IsSpace\<close> admits.\<close>

definition space_seqs :: "string list" where
  "space_seqs =
     [[CHR 0x09], [CHR 0x0a], [CHR 0x0b], [CHR 0x0c],
      [CHR 0x0d], [CHR 0x20], [CHR 0xc2, CHR 0x85], [CHR 0xc2, CHR 0xa0],
      [CHR 0xe1, CHR 0x9a, CHR 0x80], [CHR 0xe2, CHR 0x80, CHR 0x80], [CHR 0xe2, CHR 0x80, CHR 0x81], [CHR 0xe2, CHR 0x80, CHR 0x82],
      [CHR 0xe2, CHR 0x80, CHR 0x83], [CHR 0xe2, CHR 0x80, CHR 0x84], [CHR 0xe2, CHR 0x80, CHR 0x85], [CHR 0xe2, CHR 0x80, CHR 0x86],
      [CHR 0xe2, CHR 0x80, CHR 0x87], [CHR 0xe2, CHR 0x80, CHR 0x88], [CHR 0xe2, CHR 0x80, CHR 0x89], [CHR 0xe2, CHR 0x80, CHR 0x8a],
      [CHR 0xe2, CHR 0x80, CHR 0xa8], [CHR 0xe2, CHR 0x80, CHR 0xa9], [CHR 0xe2, CHR 0x80, CHR 0xaf], [CHR 0xe2, CHR 0x81, CHR 0x9f],
      [CHR 0xe3, CHR 0x80, CHR 0x80]]"

fun trim_left_of :: "string list \<Rightarrow> string \<Rightarrow> nat \<Rightarrow> string" where
  "trim_left_of seps s 0 = s"
| "trim_left_of seps s (Suc n) =
     (case find (has_prefix s) seps of None \<Rightarrow> s | Some p \<Rightarrow> trim_left_of seps (drop (length p) s) n)"

definition trim_space :: "string \<Rightarrow> string" where
  "trim_space s = (let l = trim_left_of space_seqs s (length s)
                   in rev (trim_left_of (map rev space_seqs) (rev l) (length l)))"

lemma trim_left_suffix: "\<exists>p. s = p @ trim_left_of seps s n"
proof (induction n arbitrary: s)
  case (Suc n)
  show ?case
  proof (cases "find (has_prefix s) seps")
    case (Some p)
    obtain q where "drop (length p) s = q @ trim_left_of seps (drop (length p) s) n" using Suc by blast
    then have "s = (take (length p) s @ q) @ trim_left_of seps (drop (length p) s) n"
      by (metis append_assoc append_take_drop_id)
    moreover have "trim_left_of seps s (Suc n) = trim_left_of seps (drop (length p) s) n" using Some by simp
    ultimately show ?thesis by metis
  qed simp
qed simp

lemma trim_space_infix: "\<exists>a b. s = a @ trim_space s @ b"
proof -
  let ?l = "trim_left_of space_seqs s (length s)"
  obtain a where a: "s = a @ ?l" using trim_left_suffix by blast
  obtain b where "rev ?l = b @ trim_left_of (map rev space_seqs) (rev ?l) (length ?l)" using trim_left_suffix by blast
  then have "?l = trim_space s @ rev b" unfolding trim_space_def Let_def by (metis rev_append rev_rev_ident)
  with a show ?thesis by metis
qed

section \<open>Formatting\<close>

fun digits :: "nat \<Rightarrow> string" where
  "digits n = (if n < 10 then [char_of (48 + n)] else digits (n div 10) @ [char_of (48 + n mod 10)])"

declare digits.simps [simp del]

text \<open>\<^verbatim>\<open>%d\<close> and \<^verbatim>\<open>strconv.Itoa\<close>\<close>

definition itoa :: "int \<Rightarrow> string" where
  "itoa i = (if i < 0 then ''-'' @ digits (nat (- i)) else digits (nat i))"

definition hex_digit :: "nat \<Rightarrow> char" where
  "hex_digit n = (if n < 10 then char_of (48 + n) else char_of (87 + n))"

fun quote_char :: "char \<Rightarrow> string" where
  "quote_char c = (let n = (of_char c :: nat) in
     if n = 34 then [char_of (92 :: nat), c] else if n = 92 then [c, c]
     else if n = 7 then [char_of (92 :: nat), CHR ''a''] else if n = 8 then [char_of (92 :: nat), CHR ''b'']
     else if n = 12 then [char_of (92 :: nat), CHR ''f''] else if n = 10 then [char_of (92 :: nat), CHR ''n'']
     else if n = 13 then [char_of (92 :: nat), CHR ''r''] else if n = 9 then [char_of (92 :: nat), CHR ''t'']
     else if n = 11 then [char_of (92 :: nat), CHR ''v'']
     else if n < 32 \<or> n = 127 then [char_of (92 :: nat), CHR ''x'', hex_digit (n div 16), hex_digit (n mod 16)]
     else [c])"

text \<open>\<^verbatim>\<open>%q\<close>\<close>

definition quoted :: "string \<Rightarrow> string" where
  "quoted s = [char_of (34 :: nat)] @ concat (map quote_char s) @ [char_of (34 :: nat)]"

section \<open>UUIDs\<close>

text \<open>\<open>n\<close> as \<open>k\<close> hexadecimal digits, most significant first.\<close>

fun hex_of :: "nat \<Rightarrow> nat \<Rightarrow> string" where
  "hex_of 0 n = []"
| "hex_of (Suc k) n = hex_of k (n div 16) @ [hex_digit (n mod 16)]"

definition uuid_text :: "uuid \<Rightarrow> string" where
  "uuid_text u = (let h = hex_of 32 u in
     take 8 h @ ''-'' @ take 4 (drop 8 h) @ ''-'' @ take 4 (drop 12 h) @ ''-'' @ take 4 (drop 16 h) @ ''-'' @ drop 20 h)"

definition uuid_to_string :: "uuid option \<Rightarrow> string" where
  "uuid_to_string u = (case u of None \<Rightarrow> '''' | Some i \<Rightarrow> uuid_text i)"

definition uuid_to_ptr :: "uuid option \<Rightarrow> json" where
  "uuid_to_ptr u = (case u of None \<Rightarrow> JNull | Some i \<Rightarrow> JStr (uuid_text i))"

definition str_to_text :: "string \<Rightarrow> pgtext" where
  "str_to_text s = (if s = '''' then None else Some s)"

lemma length_hex_of [simp]: "length (hex_of k n) = k"
  by (induction k arbitrary: n) auto

lemma hex_digit_inj: "a < 16 \<Longrightarrow> b < 16 \<Longrightarrow> hex_digit a = hex_digit b \<Longrightarrow> a = b"
proof -
  assume "a < 16" "b < 16" "hex_digit a = hex_digit b"
  then have "of_char (hex_digit a) = (of_char (hex_digit b) :: nat)" by simp
  with \<open>a < 16\<close> \<open>b < 16\<close> show "a = b" by (auto simp: hex_digit_def split: if_splits)
qed

lemma hex_of_inj: "a < 16 ^ k \<Longrightarrow> b < 16 ^ k \<Longrightarrow> hex_of k a = hex_of k b \<Longrightarrow> a = b"
proof (induction k arbitrary: a b)
  case (Suc k)
  have "a div 16 = b div 16" using Suc.prems by (intro Suc.IH) (auto simp: less_mult_imp_div_less)
  moreover have "a mod 16 = b mod 16" using Suc.prems(3) by (intro hex_digit_inj) auto
  ultimately show ?case by (metis div_mult_mod_eq)
qed simp

lemma uuid_text_inj:
  assumes "a < 2 ^ 128" "b < 2 ^ 128" "uuid_text a = uuid_text b"
  shows "a = b"
proof -
  have cut: "drop n h = take k (drop n h) @ drop (n + k) h" for n k and h :: string
    by (metis add.commute append_take_drop_id drop_drop)
  have split: "h = take 8 h @ take 4 (drop 8 h) @ take 4 (drop 12 h) @ take 4 (drop 16 h) @ drop 20 h" for h :: string
    using cut [of 0 h 8] cut [of 8 h 4] cut [of 12 h 4] cut [of 16 h 4] by simp
  have "hex_of 32 a = hex_of 32 b"
    using assms(3) split [of "hex_of 32 a"] split [of "hex_of 32 b"]
    by (simp add: uuid_text_def Let_def)
  then show ?thesis using assms(1,2) by (intro hex_of_inj [of _ 32]) simp_all
qed

lemma uuid_text_length: "length (uuid_text u) = 36"
  by (simp add: uuid_text_def Let_def)

lemma uuid_text_nonempty [simp]: "uuid_text n \<noteq> ''''"
  using uuid_text_length [of n] by auto

text \<open>A reader of identifiers that inverts the printer.\<close>

definition hex_value :: "char \<Rightarrow> nat" where
  "hex_value c = (let n = of_char c in if n < 58 then n - 48 else n - 87)"

definition demo_read_uuid :: "string \<Rightarrow> uuid option" where
  "demo_read_uuid s = (if length s = 36 then Some (foldl (\<lambda>n c. 16 * n + hex_value c) 0 (filter (\<lambda>c. c \<noteq> CHR ''-'') s)) else None)"

lemma hex_digit_value: "n < 16 \<Longrightarrow> hex_value (hex_digit n) = n \<and> hex_digit n \<noteq> CHR ''-''"
proof -
  assume n: "n < 16"
  then have c: "(of_char (hex_digit n) :: nat) = (if n < 10 then 48 + n else 87 + n)" by (simp add: hex_digit_def)
  then have "(of_char (hex_digit n) :: nat) \<noteq> of_char CHR ''-''" using n by simp
  with c n show ?thesis by (auto simp: hex_value_def Let_def)
qed

lemma hex_of_value: "foldl (\<lambda>n c. 16 * n + hex_value c) 0 (hex_of k n) = n mod 16 ^ k \<and> filter (\<lambda>c. c \<noteq> CHR ''-'') (hex_of k n) = hex_of k n"
proof (induction k arbitrary: n)
  case (Suc k)
  have "n mod 16 ^ Suc k = 16 * (n div 16 mod 16 ^ k) + n mod 16"
    using mod_mult2_eq [of n 16 "16 ^ k"] by simp
  with Suc [of "n div 16"] hex_digit_value [of "n mod 16"] show ?case by simp
qed simp

lemma demo_read_uuid: "u < 2 ^ 128 \<Longrightarrow> demo_read_uuid (uuid_text u) = Some u"
proof -
  assume u: "u < 2 ^ 128"
  let ?h = "hex_of 32 u" and ?f = "filter (\<lambda>c. c \<noteq> CHR ''-'')"
  have cut: "take n s @ drop n s = s" for n and s :: string by simp
  have "?f (uuid_text u) = ?f (take 8 ?h @ take 4 (drop 8 ?h) @ take 4 (drop 12 ?h) @ take 4 (drop 16 ?h) @ drop 20 ?h)"
    by (simp add: uuid_text_def Let_def)
  also have "take 8 ?h @ take 4 (drop 8 ?h) @ take 4 (drop 12 ?h) @ take 4 (drop 16 ?h) @ drop 20 ?h = ?h"
    using cut [of 8 ?h] cut [of 4 "drop 8 ?h"] cut [of 4 "drop 12 ?h"] cut [of 4 "drop 16 ?h"] by simp
  finally have "?f (uuid_text u) = ?h" using hex_of_value [of 32 u] by simp
  moreover have "(2::nat) ^ 128 = 16 ^ 32" by simp
  ultimately show ?thesis using u hex_of_value [of 32 u] by (simp add: demo_read_uuid_def uuid_text_length)
qed

end
