(* ===== verification/AdapterContract.thy ===== *)
theory AdapterContract
  imports GoText
begin

text \<open>
  The Runtime Adapter v1 contract (\<^verbatim>\<open>server/pkg/agent/contract.go\<close>) and the execution policy of
  the loop stages (\<^verbatim>\<open>server/internal/loop/stages/tools.go\<close>): which capabilities an adapter
  declares, which execution options it accepts, and which task types may be dispatched to it.
\<close>

section \<open>Capabilities\<close>

datatype capability =
    CapDiscover | CapModels | CapExecute | CapStream | CapResume | CapCancel | CapModelSelection
  | CapSystemPrompt | CapMaxTurns | CapToolRestrictions | CapSkills | CapMCP | CapUsage | CapArtifacts

fun cap_name :: "capability \<Rightarrow> string" where
  "cap_name CapDiscover = ''discover''"
| "cap_name CapModels = ''models''"
| "cap_name CapExecute = ''execute''"
| "cap_name CapStream = ''stream''"
| "cap_name CapResume = ''resume''"
| "cap_name CapCancel = ''cancel''"
| "cap_name CapModelSelection = ''model_selection''"
| "cap_name CapSystemPrompt = ''system_prompt''"
| "cap_name CapMaxTurns = ''max_turns''"
| "cap_name CapToolRestrictions = ''tool_restrictions''"
| "cap_name CapSkills = ''skills''"
| "cap_name CapMCP = ''mcp''"
| "cap_name CapUsage = ''usage''"
| "cap_name CapArtifacts = ''artifacts''"

definition all_capabilities :: "capability list" where
  "all_capabilities = [CapDiscover, CapModels, CapExecute, CapStream, CapResume, CapCancel, CapModelSelection,
     CapSystemPrompt, CapMaxTurns, CapToolRestrictions, CapSkills, CapMCP, CapUsage, CapArtifacts]"

lemma all_capabilities_complete: "c \<in> set all_capabilities"
  by (cases c) (simp_all add: all_capabilities_def)

text \<open>A support level is a string type of Go, so a descriptor may carry an unknown one.\<close>

datatype support_level = SupportNative | SupportAdapter | SupportUnsupported | SupportOther string

record cap_support =
  cs_level :: support_level
  cs_detail :: string

record adapter_descriptor =
  ad_provider :: string
  ad_transport :: string
  ad_capabilities :: "(capability \<times> cap_support) list"

definition provider_claude :: string where "provider_claude = ''claude''"
definition provider_codex :: string where "provider_codex = ''codex''"
definition provider_opencode :: string where "provider_opencode = ''opencode''"

text \<open>A Go map is kept as the list of its entries; a write replaces the entry of the key.\<close>

definition cap_put :: "capability \<Rightarrow> cap_support \<Rightarrow> (capability \<times> cap_support) list \<Rightarrow> (capability \<times> cap_support) list" where
  "cap_put c s m = (c, s) # filter (\<lambda>(c', _). c' \<noteq> c) m"

definition descriptor :: "string \<Rightarrow> capability list \<Rightarrow> capability list \<Rightarrow> (capability \<times> string) list \<Rightarrow> adapter_descriptor" where
  "descriptor provider native adapter details =
     (let detail = (\<lambda>c. case map_of details c of None \<Rightarrow> '''' | Some s \<Rightarrow> s);
          base = map (\<lambda>c. (c, \<lparr>cs_level = SupportUnsupported, cs_detail = ''''\<rparr>)) all_capabilities;
          m1 = fold (\<lambda>c. cap_put c \<lparr>cs_level = SupportNative, cs_detail = detail c\<rparr>) native base;
          m2 = fold (\<lambda>c. cap_put c \<lparr>cs_level = SupportAdapter, cs_detail = detail c\<rparr>) adapter m1
      in \<lparr>ad_provider = provider, ad_transport = ''cli'', ad_capabilities = m2\<rparr>)"

definition adapter_descriptors :: "(string \<times> adapter_descriptor) list" where
  "adapter_descriptors =
    [(provider_claude, descriptor provider_claude
        [CapExecute, CapStream, CapResume, CapModelSelection, CapSystemPrompt, CapMaxTurns, CapToolRestrictions, CapUsage]
        [CapDiscover, CapCancel, CapSkills]
        [(CapCancel, ''context cancellation terminates the CLI process tree with a bounded wait''),
         (CapSkills, ''skills are installed into the per-task .claude/skills directory before launch'')]),
     (provider_codex, descriptor provider_codex
        [CapExecute, CapStream, CapResume, CapModelSelection, CapSystemPrompt, CapUsage]
        [CapDiscover, CapCancel, CapSkills]
        [(CapCancel, ''context cancellation terminates the app-server process tree with a bounded wait''),
         (CapSkills, ''skills are installed into the isolated per-task CODEX_HOME before launch'')]),
     (provider_opencode, descriptor provider_opencode
        [CapExecute, CapStream, CapResume, CapModelSelection, CapSystemPrompt, CapUsage]
        [CapDiscover, CapCancel, CapSkills]
        [(CapCancel, ''context cancellation terminates the CLI process tree with a bounded wait''),
         (CapSkills, ''skills are installed into the per-task .config/opencode/skills directory before launch'')])]"

definition descriptor_for :: "string \<Rightarrow> adapter_descriptor option" where
  "descriptor_for provider = map_of adapter_descriptors provider"

definition known_adapters :: "adapter_descriptor list" where
  "known_adapters = map (\<lambda>p. the (descriptor_for p)) [provider_claude, provider_codex, provider_opencode]"

definition supports :: "adapter_descriptor \<Rightarrow> capability \<Rightarrow> bool" where
  "supports d c = (case map_of (ad_capabilities d) c of None \<Rightarrow> False
     | Some s \<Rightarrow> cs_level s \<noteq> SupportUnsupported)"

text \<open>\<^verbatim>\<open>CapabilityNames\<close>: the names in lexicographic order.\<close>

fun str_less :: "string \<Rightarrow> string \<Rightarrow> bool" where
  "str_less _ [] = False"
| "str_less [] (_ # _) = True"
| "str_less (x # xs) (y # ys) = ((of_char x :: nat) < of_char y \<or> x = y \<and> str_less xs ys)"

fun insert_str :: "string \<Rightarrow> string list \<Rightarrow> string list" where
  "insert_str s [] = [s]"
| "insert_str s (t # ts) = (if str_less t s then t # insert_str s ts else s # t # ts)"

definition capability_names :: "string list" where
  "capability_names = foldr insert_str (map cap_name all_capabilities) []"

section \<open>Validation\<close>

datatype adapter_error =
    ProviderRequired
  | TransportRequired string
  | CapabilityMissing string capability
  | InvalidSupportLevel string capability string
  | InvalidExecOptions string string
  | UnsupportedCapability string capability string

text \<open>The messages of the errors, as \<^verbatim>\<open>Error()\<close> gives them.\<close>

fun adapter_error_text :: "adapter_error \<Rightarrow> string" where
  "adapter_error_text ProviderRequired = ''adapter provider is required''"
| "adapter_error_text (TransportRequired p) = ''adapter '' @ quoted p @ '' transport is required''"
| "adapter_error_text (CapabilityMissing p c) =
     ''adapter '' @ quoted p @ '' does not declare capability '' @ quoted (cap_name c)"
| "adapter_error_text (InvalidSupportLevel p c l) =
     ''adapter '' @ quoted p @ '' capability '' @ quoted (cap_name c) @ '' has invalid support level '' @ quoted l"
| "adapter_error_text (InvalidExecOptions opt reason) = ''invalid execution option '' @ opt @ '': '' @ reason"
| "adapter_error_text (UnsupportedCapability p c opt) =
     ''runtime adapter '' @ quoted p @ '' does not support '' @ cap_name c @
       (if opt = '''' then '''' else '' requested by '' @ opt)"

definition is_unsupported_capability :: "adapter_error \<Rightarrow> bool" where
  "is_unsupported_capability e = (case e of UnsupportedCapability _ _ _ \<Rightarrow> True | _ \<Rightarrow> False)"

fun validate_capabilities :: "adapter_descriptor \<Rightarrow> capability list \<Rightarrow> adapter_error option" where
  "validate_capabilities d [] = None"
| "validate_capabilities d (c # cs) =
     (case map_of (ad_capabilities d) c of
        None \<Rightarrow> Some (CapabilityMissing (ad_provider d) c)
      | Some s \<Rightarrow> (case cs_level s of
            SupportOther l \<Rightarrow> Some (InvalidSupportLevel (ad_provider d) c l)
          | _ \<Rightarrow> validate_capabilities d cs))"

definition validate_descriptor :: "adapter_descriptor \<Rightarrow> adapter_error option" where
  "validate_descriptor d =
     (if ad_provider d = '''' then Some ProviderRequired
      else if ad_transport d = '''' then Some (TransportRequired (ad_provider d))
      else validate_capabilities d all_capabilities)"

record exec_options =
  eo_model :: string
  eo_system_prompt :: string
  eo_max_turns :: int
  eo_timeout :: int
  eo_resume_session :: string
  eo_tools :: "string list"

definition requested_capabilities :: "exec_options \<Rightarrow> (bool \<times> capability \<times> string) list" where
  "requested_capabilities opts =
     [(eo_model opts \<noteq> '''', CapModelSelection, ''model''),
      (eo_system_prompt opts \<noteq> '''', CapSystemPrompt, ''system_prompt''),
      (0 < eo_max_turns opts, CapMaxTurns, ''max_turns''),
      (eo_resume_session opts \<noteq> '''', CapResume, ''resume_session_id''),
      (eo_tools opts \<noteq> [], CapToolRestrictions, ''tools'')]"

definition validate_exec_options :: "adapter_descriptor \<Rightarrow> exec_options \<Rightarrow> adapter_error option" where
  "validate_exec_options d opts =
     (case validate_descriptor d of
        Some e \<Rightarrow> Some e
      | None \<Rightarrow>
          if eo_timeout opts < 0 then Some (InvalidExecOptions ''timeout'' ''must not be negative'')
          else if eo_max_turns opts < 0 then Some (InvalidExecOptions ''max_turns'' ''must not be negative'')
          else if \<exists>t\<in>set (eo_tools opts). trim_space t = ''''
          then Some (InvalidExecOptions ''tools'' ''must not contain an empty tool name'')
          else (case find (\<lambda>(act, c, _). act \<and> \<not> supports d c) (requested_capabilities opts) of
                  Some (_, c, opt) \<Rightarrow> Some (UnsupportedCapability (ad_provider d) c opt)
                | None \<Rightarrow> None))"

section \<open>Loop stages\<close>

record execution_policy =
  ep_tools :: "string list"
  ep_max_turns :: int

definition execution_policies :: "(string \<times> execution_policy) list" where
  "execution_policies =
    [(''loop_plan'', \<lparr>ep_tools = [''read_file'', ''search_code''], ep_max_turns = 5\<rparr>),
     (''loop_review'', \<lparr>ep_tools = [''read_file'', ''search_code'', ''git_diff''], ep_max_turns = 10\<rparr>),
     (''loop_develop'', \<lparr>ep_tools = [''read_file'', ''search_code'', ''write_file'', ''run_command'', ''run_test'',
        ''git_status'', ''git_diff'', ''git_commit'', ''git_push'', ''create_branch'', ''github_pr_create''],
        ep_max_turns = 25\<rparr>),
     (''loop_fix'', \<lparr>ep_tools = [''read_file'', ''search_code'', ''write_file'', ''run_command'', ''run_test'',
        ''git_status'', ''git_diff'', ''git_commit'', ''git_push''], ep_max_turns = 20\<rparr>)]"

definition tools_for_stage :: "string \<Rightarrow> string list" where
  "tools_for_stage ty = (case map_of execution_policies ty of None \<Rightarrow> [] | Some p \<Rightarrow> ep_tools p)"

definition max_turns_for_stage :: "string \<Rightarrow> int" where
  "max_turns_for_stage ty = (case map_of execution_policies ty of None \<Rightarrow> 0 | Some p \<Rightarrow> ep_max_turns p)"

datatype stage_error =
    UnsupportedLoopType string
  | TaskTypeRefused string adapter_error

fun stage_error_text :: "stage_error \<Rightarrow> string" where
  "stage_error_text (UnsupportedLoopType ty) = ''unsupported loop task type '' @ quoted ty"
| "stage_error_text (TaskTypeRefused ty e) = ''task type '' @ quoted ty @ '': '' @ adapter_error_text e"

definition stage_options :: "execution_policy \<Rightarrow> exec_options" where
  "stage_options p = \<lparr>eo_model = '''', eo_system_prompt = ''engineering-loop-stage'', eo_max_turns = ep_max_turns p,
     eo_timeout = 0, eo_resume_session = '''', eo_tools = ep_tools p\<rparr>"

definition validate_adapter_for_task_type :: "adapter_descriptor \<Rightarrow> string \<Rightarrow> stage_error option" where
  "validate_adapter_for_task_type d task_type =
     (let ty = trim_space task_type in
      if ty = '''' \<or> ty = ''standard'' then None
      else (case map_of execution_policies ty of
              None \<Rightarrow> if has_prefix ty ''loop_'' then Some (UnsupportedLoopType ty) else None
            | Some p \<Rightarrow> (case validate_exec_options d (stage_options p) of
                None \<Rightarrow> None | Some e \<Rightarrow> Some (TaskTypeRefused ty e))))"

section \<open>What validation guarantees\<close>

lemma validate_capabilities_None:
  "validate_capabilities d cs = None \<longleftrightarrow>
     (\<forall>c\<in>set cs. \<exists>s. map_of (ad_capabilities d) c = Some s \<and> (\<forall>l. cs_level s \<noteq> SupportOther l))"
  by (induction cs) (auto split: option.splits support_level.splits)

text \<open>A descriptor is complete when it declares every capability with a known level.\<close>

definition complete_descriptor :: "adapter_descriptor \<Rightarrow> bool" where
  "complete_descriptor d \<longleftrightarrow> ad_provider d \<noteq> '''' \<and> ad_transport d \<noteq> '''' \<and>
     (\<forall>c. \<exists>s. map_of (ad_capabilities d) c = Some s \<and> (\<forall>l. cs_level s \<noteq> SupportOther l))"

lemma validate_descriptor_None: "validate_descriptor d = None \<longleftrightarrow> complete_descriptor d"
  using all_capabilities_complete
  by (auto simp: validate_descriptor_def complete_descriptor_def validate_capabilities_None)

text \<open>What the options ask for, as a set.\<close>

definition asks_for :: "exec_options \<Rightarrow> capability set" where
  "asks_for opts = {c. \<exists>opt. (True, c, opt) \<in> set (requested_capabilities opts)}"

lemma find_unsupported_None:
  "find (\<lambda>(act, c, _). act \<and> \<not> supports d c) (requested_capabilities opts) = None \<longleftrightarrow> (\<forall>c\<in>asks_for opts. supports d c)"
  by (force simp: find_None_iff asks_for_def)

definition well_formed_options :: "exec_options \<Rightarrow> bool" where
  "well_formed_options opts \<longleftrightarrow> 0 \<le> eo_timeout opts \<and> 0 \<le> eo_max_turns opts \<and> (\<forall>t\<in>set (eo_tools opts). trim_space t \<noteq> '''')"

lemma validate_exec_options_None:
  "validate_exec_options d opts = None \<longleftrightarrow>
     complete_descriptor d \<and> well_formed_options opts \<and> (\<forall>c\<in>asks_for opts. supports d c)"
  using validate_descriptor_None [of d] find_unsupported_None [of d opts]
  by (auto simp: validate_exec_options_def well_formed_options_def split: option.splits)

lemma stage_asks_for: "asks_for (stage_options p) =
    {CapSystemPrompt} \<union> (if 0 < ep_max_turns p then {CapMaxTurns} else {}) \<union>
    (if ep_tools p \<noteq> [] then {CapToolRestrictions} else {})"
  by (auto simp: asks_for_def requested_capabilities_def stage_options_def)

text \<open>Every policy restricts tools and turns, so a stage needs both capabilities.\<close>

lemma policies_restrict:
  "\<forall>(ty, p)\<in>set execution_policies. 0 < ep_max_turns p \<and> ep_tools p \<noteq> [] \<and> trim_space ty = ty \<and>
     ty \<noteq> '''' \<and> ty \<noteq> ''standard'' \<and> (\<forall>t\<in>set (ep_tools p). trim_space t \<noteq> '''')"
  by code_simp

lemma stage_accepted_iff:
  assumes "map_of execution_policies ty = Some p"
  shows "validate_adapter_for_task_type d ty = None \<longleftrightarrow>
    complete_descriptor d \<and> supports d CapSystemPrompt \<and> supports d CapMaxTurns \<and> supports d CapToolRestrictions"
proof -
  have "(ty, p) \<in> set execution_policies" using assms by (rule map_of_SomeD)
  with policies_restrict have r: "0 < ep_max_turns p" "ep_tools p \<noteq> []" "trim_space ty = ty" "ty \<noteq> ''''" "ty \<noteq> ''standard''"
    "\<forall>t\<in>set (ep_tools p). trim_space t \<noteq> ''''" by auto
  have "validate_adapter_for_task_type d ty = None \<longleftrightarrow> validate_exec_options d (stage_options p) = None"
    using r(3-5) assms by (simp add: validate_adapter_for_task_type_def split: option.splits)
  also have "\<dots> \<longleftrightarrow> complete_descriptor d \<and> (\<forall>c\<in>asks_for (stage_options p). supports d c)"
    using r(1,6) by (simp add: validate_exec_options_None well_formed_options_def stage_options_def)
  finally show ?thesis using r(1,2) by (auto simp: stage_asks_for)
qed

lemma stage_types: "ty \<in> {''loop_plan'', ''loop_review'', ''loop_develop'', ''loop_fix''} \<Longrightarrow> \<exists>p. map_of execution_policies ty = Some p"
  by (auto simp: execution_policies_def)

lemma known_descriptors:
  "validate_descriptor (the (descriptor_for provider_claude)) = None"
  "validate_descriptor (the (descriptor_for provider_codex)) = None"
  "validate_descriptor (the (descriptor_for provider_opencode)) = None"
  "supports (the (descriptor_for provider_claude)) CapSystemPrompt"
  "supports (the (descriptor_for provider_claude)) CapMaxTurns"
  "supports (the (descriptor_for provider_claude)) CapToolRestrictions"
  "\<not> supports (the (descriptor_for provider_codex)) CapMaxTurns"
  "\<not> supports (the (descriptor_for provider_opencode)) CapMaxTurns"
  "provider_codex \<noteq> provider_claude" "provider_opencode \<noteq> provider_claude"
  by code_simp+

section \<open>Properties\<close>

text \<open>Execution options are accepted exactly when the descriptor declares every capability of
  the contract with a known level, no value is malformed, and every capability the options ask
  for is supported: an unsupported request never reaches a provider process.\<close>

theorem exec_options_accepted_iff:
  "validate_exec_options d opts = None \<longleftrightarrow>
     complete_descriptor d \<and> well_formed_options opts \<and> (\<forall>c\<in>asks_for opts. supports d c)"
  by (rule validate_exec_options_None)

lemma exec_options_accepted_iff_witness:
  "validate_exec_options (the (descriptor_for ''claude''))
     (stage_options \<lparr>ep_tools = [''read_file''], ep_max_turns = 5\<rparr>) = None \<and>
   \<not> supports (the (descriptor_for ''codex'')) CapMaxTurns"
proof
  let ?d = "the (descriptor_for ''claude'')" and ?o = "stage_options \<lparr>ep_tools = [''read_file''], ep_max_turns = 5\<rparr>"
  have "validate_descriptor ?d = None" by code_simp
  then have "complete_descriptor ?d" by (simp add: validate_descriptor_None)
  moreover have "well_formed_options ?o" by code_simp
  moreover have "supports ?d CapSystemPrompt" "supports ?d CapMaxTurns" "supports ?d CapToolRestrictions" by code_simp+
  ultimately show "validate_exec_options ?d ?o = None"
    using exec_options_accepted_iff [of ?d ?o] by (auto simp: stage_asks_for)
  show "\<not> supports (the (descriptor_for ''codex'')) CapMaxTurns" by code_simp
qed

text \<open>The execution policy of the loop stages against the shipped adapters: every shipped
  adapter honours the contract; a stage of the engineering loop is accepted by the Claude adapter
  and refused by every other; a task type that looks like a stage but has no policy is refused by
  any adapter; an empty or standard type is accepted by any.\<close>

theorem stage_dispatch_policy:
  "(\<forall>p d. descriptor_for p = Some d \<longrightarrow> validate_descriptor d = None \<and>
      (\<forall>ty\<in>{''loop_plan'', ''loop_review'', ''loop_develop'', ''loop_fix''}.
         (validate_adapter_for_task_type d ty = None) = (p = provider_claude))) \<and>
   (\<forall>d ty. has_prefix (trim_space ty) ''loop_'' \<longrightarrow> map_of execution_policies (trim_space ty) = None \<longrightarrow>
      validate_adapter_for_task_type d ty = Some (UnsupportedLoopType (trim_space ty))) \<and>
   (\<forall>d ty. trim_space ty \<in> {'''', ''standard''} \<longrightarrow> validate_adapter_for_task_type d ty = None)"
proof (intro conjI allI impI)
  fix p d assume p: "descriptor_for p = Some d"
  then have "p = provider_claude \<or> p = provider_codex \<or> p = provider_opencode"
    by (auto simp: descriptor_for_def adapter_descriptors_def split: if_splits)
  moreover have "descriptor_for p = Some (the (descriptor_for p))" using p by simp
  ultimately have ok: "validate_descriptor d = None \<and> (validate_adapter_for_task_type d ty = None) = (p = provider_claude)"
    if "map_of execution_policies ty = Some q" for ty q
    using p known_descriptors unfolding stage_accepted_iff [OF that] validate_descriptor_None [symmetric] by auto
  obtain q where "map_of execution_policies ''loop_plan'' = Some q" using stage_types [of "''loop_plan''"] by blast
  from ok [OF this] show "validate_descriptor d = None" by simp
  show "\<forall>ty\<in>{''loop_plan'', ''loop_review'', ''loop_develop'', ''loop_fix''}.
         (validate_adapter_for_task_type d ty = None) = (p = provider_claude)"
  proof
    fix ty assume "ty \<in> {''loop_plan'', ''loop_review'', ''loop_develop'', ''loop_fix''}"
    then obtain q where "map_of execution_policies ty = Some q" using stage_types by blast
    from ok [OF this] show "(validate_adapter_for_task_type d ty = None) = (p = provider_claude)" by simp
  qed
next
  fix d ty assume pre: "has_prefix (trim_space ty) ''loop_''" and none: "map_of execution_policies (trim_space ty) = None"
  have "\<not> has_prefix '''' ''loop_''" "\<not> has_prefix ''standard'' ''loop_''" by code_simp+
  with pre have "trim_space ty \<noteq> ''''" "trim_space ty \<noteq> ''standard''" by metis+
  with pre none show "validate_adapter_for_task_type d ty = Some (UnsupportedLoopType (trim_space ty))"
    by (simp add: validate_adapter_for_task_type_def Let_def)
next
  fix d ty assume "trim_space ty \<in> {'''', ''standard''}"
  then show "validate_adapter_for_task_type d ty = None" by (auto simp: validate_adapter_for_task_type_def Let_def)
qed

lemma stage_dispatch_policy_witness:
  "validate_adapter_for_task_type (the (descriptor_for ''codex'')) ''loop_merge'' = Some (UnsupportedLoopType ''loop_merge'') \<and>
   validate_adapter_for_task_type (the (descriptor_for ''opencode'')) '' standard '' = None"
proof
  have "trim_space ''loop_merge'' = ''loop_merge''" "has_prefix ''loop_merge'' ''loop_''"
    "map_of execution_policies ''loop_merge'' = None" by code_simp+
  with stage_dispatch_policy show "validate_adapter_for_task_type (the (descriptor_for ''codex'')) ''loop_merge'' =
      Some (UnsupportedLoopType ''loop_merge'')" by metis
  have "trim_space '' standard '' = ''standard''" by code_simp
  with stage_dispatch_policy show "validate_adapter_for_task_type (the (descriptor_for ''opencode'')) '' standard '' = None"
    by (metis insertCI)
qed

end
