(* ===== verification/EventBus.thy ===== *)
theory EventBus
  imports Store GoText
begin

text \<open>
  The in-process publish/subscribe bus (\<^verbatim>\<open>server/internal/events/bus.go\<close>) and the world a
  service acts on: the database and the sequence of events published so far.
\<close>

record event =
  ev_id :: string
  ev_type :: string
  ev_workspace :: string
  ev_actor_type :: string
  ev_actor :: string
  ev_payload :: json

section \<open>The bus\<close>

text \<open>
  A handler transforms the state of its subscriber; the flag says that it ended in a panic, at
  the state it had reached.
\<close>

type_synonym 's handler = "event \<Rightarrow> 's \<Rightarrow> 's \<times> bool"

record 's bus =
  bus_listeners :: "(string \<times> 's handler list) list"
  bus_globals :: "'s handler list"

definition new_bus :: "'s bus" where
  "new_bus = \<lparr>bus_listeners = [], bus_globals = []\<rparr>"

definition listeners_of :: "'s bus \<Rightarrow> string \<Rightarrow> 's handler list" where
  "listeners_of b ty = (case map_of (bus_listeners b) ty of None \<Rightarrow> [] | Some hs \<Rightarrow> hs)"

definition subscribe :: "string \<Rightarrow> 's handler \<Rightarrow> 's bus \<Rightarrow> 's bus" where
  "subscribe ty h b = b\<lparr>bus_listeners := (ty, listeners_of b ty @ [h]) # filter (\<lambda>(k, _). k \<noteq> ty) (bus_listeners b)\<rparr>"

definition subscribe_all :: "'s handler \<Rightarrow> 's bus \<Rightarrow> 's bus" where
  "subscribe_all h b = b\<lparr>bus_globals := bus_globals b @ [h]\<rparr>"

text \<open>The deferred \<^verbatim>\<open>recover\<close> of one call: the panic is logged and dropped.\<close>

definition call_recovered :: "event \<Rightarrow> 's handler \<Rightarrow> 's \<Rightarrow> 's" where
  "call_recovered e h s = (case h e s of (s', panicked) \<Rightarrow> s')"

definition publish :: "'s bus \<Rightarrow> event \<Rightarrow> 's \<Rightarrow> 's" where
  "publish b e s = fold (call_recovered e) (bus_globals b) (fold (call_recovered e) (listeners_of b (ev_type e)) s)"

datatype 's registration = On string "'s handler" | OnAll "'s handler"

fun register :: "'s registration \<Rightarrow> 's bus \<Rightarrow> 's bus" where
  "register (On ty h) b = subscribe ty h b"
| "register (OnAll h) b = subscribe_all h b"

fun typed_handler :: "string \<Rightarrow> 's registration \<Rightarrow> 's handler list" where
  "typed_handler ty (On ty' h) = (if ty' = ty then [h] else [])"
| "typed_handler ty (OnAll h) = []"

fun global_handler :: "'s registration \<Rightarrow> 's handler list" where
  "global_handler (On ty h) = []"
| "global_handler (OnAll h) = [h]"

lemma listeners_of_subscribe:
  "listeners_of (subscribe ty h b) ty' = listeners_of b ty' @ (if ty' = ty then [h] else [])"
  by (simp add: subscribe_def listeners_of_def map_of_drop_key)

lemma listeners_of_subscribe_all [simp]: "listeners_of (subscribe_all h b) ty = listeners_of b ty"
  by (simp add: subscribe_all_def listeners_of_def)

lemma register_handlers:
  "listeners_of (register r b) ty = listeners_of b ty @ typed_handler ty r"
  "bus_globals (register r b) = bus_globals b @ global_handler r"
  by (cases r; simp add: listeners_of_subscribe)
    (cases r; simp add: subscribe_all_def subscribe_def)

lemma fold_register_handlers:
  "listeners_of (fold register rs b) ty = listeners_of b ty @ concat (map (typed_handler ty) rs)"
  "bus_globals (fold register rs b) = bus_globals b @ concat (map global_handler rs)"
  by (induction rs arbitrary: b) (simp_all add: register_handlers)

section \<open>The world of a service\<close>

text \<open>
  The bus of the server is fed by services and drained by the listeners of \<^verbatim>\<open>cmd/server\<close>; the
  services see it as the sequence of what they published.
\<close>

record world =
  w_db :: db
  w_bus :: "event list"

definition emit :: "event \<Rightarrow> world \<Rightarrow> world" where
  "emit ev w = w\<lparr>w_bus := w_bus w @ [ev]\<rparr>"

lemma emit_simps [simp]: "w_db (emit ev w) = w_db w" "w_bus (emit ev w) = w_bus w @ [ev]"
  by (simp_all add: emit_def)

text \<open>
  The decoders the services call (\<^verbatim>\<open>json.Unmarshal\<close> into \<^verbatim>\<open>any\<close> and into
  \<^verbatim>\<open>protocol.TaskCompletedPayload\<close>; \<^verbatim>\<open>time.Time.Format\<close>) are parameters.
\<close>

record token_usage =
  tu_input :: i64
  tu_output :: i64
  tu_reasoning :: i64

record completed_payload =
  cp_output :: string
  cp_duration_ms :: i64
  cp_usage :: "token_usage option"

record codec =
  cd_json :: "string \<Rightarrow> json option"
  cd_completed :: "string \<Rightarrow> completed_payload \<times> bool"
  cd_time :: "time \<Rightarrow> string"

definition time_to_string :: "codec \<Rightarrow> time option \<Rightarrow> string" where
  "time_to_string c t = (case t of None \<Rightarrow> '''' | Some x \<Rightarrow> cd_time c x)"

definition time_to_ptr :: "codec \<Rightarrow> time option \<Rightarrow> json" where
  "time_to_ptr c t = (case t of None \<Rightarrow> JNull | Some x \<Rightarrow> JStr (cd_time c x))"

definition json_any :: "codec \<Rightarrow> string \<Rightarrow> json" where
  "json_any c s = (case cd_json c s of None \<Rightarrow> JNull | Some j \<Rightarrow> j)"

end
