(* ===== verification/TaskService.thy ===== *)
theory TaskService
  imports LifecycleEffect AdapterContract EventBus
begin

text \<open>
  \<^verbatim>\<open>server/internal/service/task.go\<close>: queueing, claiming, rejecting and the callbacks of the
  daemon on top of the lifecycle, with the events they publish. A function that is not one
  transaction returns the world also with an error, because what was committed before stays.
  Database reads do not fail here other than by finding no row.
\<close>

type_synonym 'a io = "world \<times> 'a res"

definition with_db :: "world \<Rightarrow> db \<Rightarrow> world" where
  "with_db w d = w\<lparr>w_db := d\<rparr>"

lemma with_db_simps [simp]: "w_db (with_db w d) = d" "w_bus (with_db w d) = w_bus w" "with_db w (w_db w) = w"
  by (simp_all add: with_db_def)

section \<open>Enqueue\<close>

definition priority_to_int :: "string \<Rightarrow> int" where
  "priority_to_int p = (if p = ''urgent'' then 4 else if p = ''high'' then 3 else if p = ''medium'' then 2
     else if p = ''low'' then 1 else 0)"

definition enqueue_params :: "agent_row \<Rightarrow> issue_row \<Rightarrow> uuid option \<Rightarrow> create_task_params" where
  "enqueue_params a i trig = \<lparr>ct_agent = Some (ag_id a), ct_runtime = ag_runtime a, ct_issue = Some (is_id i),
     ct_priority = priority_to_int (is_priority i), ct_trigger = trig, ct_task_type = None, ct_loop = None\<rparr>"

definition enqueue_for_agent :: "env \<Rightarrow> db \<Rightarrow> issue_row \<Rightarrow> uuid option \<Rightarrow> uuid option \<Rightarrow> (db \<times> task_row) res" where
  "enqueue_for_agent e d i agent trig =
     or_wrap ''load agent'' (get_agent d agent) (\<lambda>a.
       if ag_archived_at a \<noteq> None then Inl (ErrMsg ''agent is archived'')
       else if ag_runtime a = None then Inl (ErrMsg ''agent has no runtime'')
       else or_wrap ''create task'' (create_agent_task e 0 d (enqueue_params a i trig)) Inr)"

definition enqueue_task_for_issue :: "env \<Rightarrow> db \<Rightarrow> issue_row \<Rightarrow> uuid option \<Rightarrow> (db \<times> task_row) res" where
  "enqueue_task_for_issue e d i trig =
     (if is_assignee i = None then Inl (ErrMsg ''issue has no assignee'')
      else enqueue_for_agent e d i (is_assignee i) trig)"

definition enqueue_task_for_mention :: "env \<Rightarrow> db \<Rightarrow> issue_row \<Rightarrow> uuid option \<Rightarrow> uuid option \<Rightarrow> (db \<times> task_row) res" where
  "enqueue_task_for_mention e d i agent trig = enqueue_for_agent e d i agent trig"

section \<open>Agent status and broadcasts\<close>

definition agent_to_map :: "codec \<Rightarrow> agent_row \<Rightarrow> jmap" where
  "agent_to_map c a =
    [(''id'', JStr (uuid_text (ag_id a))), (''workspace_id'', JStr (uuid_text (ag_workspace a))),
     (''runtime_id'', JStr (uuid_to_string (ag_runtime a))), (''name'', JStr (ag_name a)),
     (''description'', JStr (ag_description a)), (''avatar_url'', jstr_opt (ag_avatar_url a)),
     (''runtime_mode'', JStr (ag_runtime_mode a)), (''runtime_config'', json_any c (ag_runtime_config a)),
     (''visibility'', JStr (ag_visibility a)), (''status'', JStr (ag_status a)),
     (''max_concurrent_tasks'', JInt (ag_max_concurrent a)), (''owner_id'', uuid_to_ptr (ag_owner a)),
     (''skills'', JArr []), (''tools'', json_any c (ag_tools a)), (''triggers'', json_any c (ag_triggers a)),
     (''created_at'', JStr (cd_time c (ag_created_at a))), (''updated_at'', JStr (cd_time c (ag_updated_at a))),
     (''archived_at'', time_to_ptr c (ag_archived_at a)), (''archived_by'', uuid_to_ptr (ag_archived_by a))]"

definition agent_status_event :: "codec \<Rightarrow> agent_row \<Rightarrow> event" where
  "agent_status_event c a = \<lparr>ev_id = '''', ev_type = ''agent:status'', ev_workspace = uuid_text (ag_workspace a),
     ev_actor_type = ''system'', ev_actor = '''', ev_payload = JObj [(''agent'', JObj (agent_to_map c a))]\<rparr>"

definition update_agent_status_stmt :: "env \<Rightarrow> db \<Rightarrow> uuid option \<Rightarrow> string \<Rightarrow> (db \<times> agent_row) res" where
  "update_agent_status_stmt e d a s =
     (let f = (\<lambda>x. x\<lparr>ag_status := s, ag_updated_at := e_now e\<rparr>); P = (\<lambda>x. Some (ag_id x) = a) in
      or_fail (select_one P (agents d)) (\<lambda>x. Inr (d\<lparr>agents := upd_where P f (agents d)\<rparr>, f x)))"

definition update_agent_status :: "codec \<Rightarrow> env \<Rightarrow> world \<Rightarrow> uuid option \<Rightarrow> string \<Rightarrow> world" where
  "update_agent_status c e w a s =
     (case update_agent_status_stmt e (w_db w) a s of
        Inl _ \<Rightarrow> w
      | Inr (d, agent) \<Rightarrow> emit (agent_status_event c agent) (with_db w d))"

definition reconcile_agent_status :: "codec \<Rightarrow> env \<Rightarrow> world \<Rightarrow> uuid option \<Rightarrow> world" where
  "reconcile_agent_status c e w a =
     update_agent_status c e w a (if 0 < count_running_tasks (w_db w) a then ''working'' else ''idle'')"

definition broadcast_task_dispatch :: "codec \<Rightarrow> world \<Rightarrow> task_row \<Rightarrow> uuid \<Rightarrow> world" where
  "broadcast_task_dispatch c w t run =
     (let payload0 = (case tk_context t of None \<Rightarrow> []
            | Some s \<Rightarrow> (case cd_json c s of Some (JObj m) \<Rightarrow> m | _ \<Rightarrow> []));
          payload = jset ''runtime_id'' (JStr (uuid_text (tk_runtime t)))
                     (jset ''run_id'' (JStr (uuid_text run))
                       (jset ''task_id'' (JStr (uuid_text (tk_id t))) payload0))
      in case get_issue (w_db w) (Some (tk_issue t)) of
           Inl _ \<Rightarrow> w
         | Inr i \<Rightarrow> emit \<lparr>ev_id = '''', ev_type = ''task:dispatch'', ev_workspace = uuid_text (is_workspace i),
              ev_actor_type = ''system'', ev_actor = '''', ev_payload = JObj payload\<rparr> w)"

section \<open>Claims\<close>

record claimed_task =
  cl_task :: task_row
  cl_run :: uuid

definition claim_task :: "codec \<Rightarrow> env \<Rightarrow> world \<Rightarrow> uuid option \<Rightarrow> claimed_task option io" where
  "claim_task c e w a =
     (case get_agent (w_db w) a of
        Inl err \<Rightarrow> (w, Inl (ErrWrap ''agent not found'' err))
      | Inr agent \<Rightarrow>
          if int (count_running_tasks (w_db w) a) \<ge> ag_max_concurrent agent then (w, Inr None)
          else (case claim_agent_task_run e (w_db w) a of
                  Inl err \<Rightarrow> if error_is err ErrNoRows then (w, Inr None)
                             else (w, Inl (ErrWrap ''claim task'' err))
                | Inr (d, i, run) \<Rightarrow>
                    (case get_task d (Some i) of
                       Inl err \<Rightarrow> (with_db w d, Inl (ErrWrap ''load claimed task'' err))
                     | Inr t \<Rightarrow>
                         (broadcast_task_dispatch c (update_agent_status c e (with_db w d) a ''working'') t run,
                          Inr (Some \<lparr>cl_task = t, cl_run = run\<rparr>)))))"

definition claim_task_candidate :: "codec \<Rightarrow> env \<Rightarrow> world \<Rightarrow> task_row \<Rightarrow> (claimed_task option \<times> bool) io" where
  "claim_task_candidate c e w cand =
     (case get_agent (w_db w) (Some (tk_agent cand)) of
        Inl err \<Rightarrow> (w, Inl (ErrWrap ''agent not found'' err))
      | Inr agent \<Rightarrow>
          if int (count_running_tasks (w_db w) (Some (tk_agent cand))) \<ge> ag_max_concurrent agent
          then (w, Inr (None, False))
          else (case claim_agent_task_run_by_id e (w_db w) (tk_id cand) of
                  Inl err \<Rightarrow> if error_is err ErrNoRows then (w, Inr (None, True))
                             else (w, Inl (ErrWrap ''claim task candidate'' err))
                | Inr (d, i, run) \<Rightarrow>
                    (case get_task d (Some i) of
                       Inl err \<Rightarrow> (with_db w d, Inl (ErrWrap ''load claimed task'' err))
                     | Inr t \<Rightarrow>
                         (broadcast_task_dispatch c
                            (update_agent_status c e (with_db w d) (Some (tk_agent t)) ''working'') t run,
                          Inr (Some \<lparr>cl_task = t, cl_run = run\<rparr>, True)))))"

definition reject_queued_task :: "env \<Rightarrow> world \<Rightarrow> uuid \<Rightarrow> string \<Rightarrow> task_row io" where
  "reject_queued_task e w i msg =
     (case reject_queued_agent_task e (w_db w) i (Some msg) of
        Inl err \<Rightarrow> (w, Inl (ErrWrap ''reject queued task'' err))
      | Inr (d, j) \<Rightarrow> (case get_task d (Some j) of
            Inl err \<Rightarrow> (with_db w d, Inl (ErrWrap ''load rejected task'' err))
          | Inr t \<Rightarrow> (with_db w d, Inr t)))"

text \<open>
  The loop over the snapshot of the runtime's pending tasks; \<open>es k\<close> is the environment of the
  statement run for the \<open>k\<close>-th candidate, \<open>blocked\<close> the agents found without capacity.
\<close>

fun claim_loop ::
    "codec \<Rightarrow> (nat \<Rightarrow> env) \<Rightarrow> adapter_descriptor \<Rightarrow> nat \<Rightarrow> string list \<Rightarrow> world \<Rightarrow> task_row list
       \<Rightarrow> claimed_task option io" where
  "claim_loop c es d k blocked w [] = (w, Inr None)"
| "claim_loop c es d k blocked w (cand # rest) =
     (if tk_status cand \<noteq> Queued then claim_loop c es d (Suc k) blocked w rest
      else (case validate_adapter_for_task_type d (tk_task_type cand) of
              Some err \<Rightarrow>
                (case reject_queued_task (es k) w (tk_id cand) (''task rejected before dispatch: '' @ stage_error_text err) of
                   (w', Inl rerr) \<Rightarrow> if error_is rerr ErrNoRows then claim_loop c es d (Suc k) blocked w' rest
                                     else (w', Inl rerr)
                 | (w', Inr _) \<Rightarrow> claim_loop c es d (Suc k) blocked w' rest)
            | None \<Rightarrow>
                if uuid_text (tk_agent cand) \<in> set blocked then claim_loop c es d (Suc k) blocked w rest
                else (case claim_task_candidate c (es k) w cand of
                        (w', Inl err) \<Rightarrow> (w', Inl err)
                      | (w', Inr (_, False)) \<Rightarrow> claim_loop c es d (Suc k) (uuid_text (tk_agent cand) # blocked) w' rest
                      | (w', Inr (Some t, True)) \<Rightarrow> (w', Inr (Some t))
                      | (w', Inr (None, True)) \<Rightarrow> claim_loop c es d (Suc k) blocked w' rest)))"

definition claim_task_for_runtime :: "codec \<Rightarrow> (nat \<Rightarrow> env) \<Rightarrow> world \<Rightarrow> uuid option \<Rightarrow> claimed_task option io" where
  "claim_task_for_runtime c es w rt =
     (case get_runtime (w_db w) rt of
        Inl err \<Rightarrow> (w, Inl (ErrWrap ''load runtime'' err))
      | Inr runtime \<Rightarrow>
          (case descriptor_for (to_lower (trim_space (rt_provider runtime))) of
             None \<Rightarrow> (w, Inl (ErrMsg (''runtime provider '' @ quoted (rt_provider runtime) @ '' has no adapter contract'')))
           | Some d \<Rightarrow> claim_loop c es d 0 [] w (list_pending_tasks_by_runtime (w_db w) rt)))"

section \<open>Callbacks\<close>

text \<open>\<^verbatim>\<open>TraceService.StartTrace\<close>: one trace per run; a second start returns the first row.\<close>

definition start_trace :: "uuid \<Rightarrow> time \<Rightarrow> db \<Rightarrow> run_ref \<Rightarrow> task_row \<Rightarrow> string \<Rightarrow> string \<Rightarrow> (db \<times> trace_row) res" where
  "start_trace new_id now d ref t provider model =
     (case rr_run ref of
        None \<Rightarrow> Inl (ErrWrap ''start trace'' ErrConstraint)
      | Some r \<Rightarrow>
          (case select_one (\<lambda>x. xt_run x = r) (xtraces d) of
             Inr x \<Rightarrow> Inr (d, x)
           | Inl _ \<Rightarrow>
               let x = \<lparr>xt_id = new_id, xt_run = r, xt_task = tk_id t, xt_agent = Some (tk_agent t),
                        xt_issue = Some (tk_issue t), xt_provider = provider, xt_model = model,
                        xt_status = ''running'', xt_start = now, xt_end = None\<rparr>
               in if new_id \<in> xt_id ` set (xtraces d) then Inl (ErrWrap ''start trace'' ErrConstraint)
                  else Inr (d\<lparr>xtraces := xtraces d @ [x]\<rparr>, x)))"

definition resolve_agent_provider :: "db \<Rightarrow> uuid option \<Rightarrow> string \<times> string" where
  "resolve_agent_provider d a =
     (case get_agent d a of
        Inl _ \<Rightarrow> ('''', '''')
      | Inr agent \<Rightarrow> (ag_provider agent, case ag_model_override agent of None \<Rightarrow> '''' | Some m \<Rightarrow> m))"

definition start_task :: "bool \<Rightarrow> lifecycle_handle \<Rightarrow> env \<Rightarrow> uuid \<Rightarrow> world \<Rightarrow> run_ref \<Rightarrow> task_row io" where
  "start_task has_trace l e trace_id w ref =
     (case lc_start l e (w_db w) ref of
        Inl err \<Rightarrow> (w, Inl (ErrWrap ''start task'' err))
      | Inr (d, t) \<Rightarrow>
          if \<not> has_trace then (with_db w d, Inr t)
          else (case resolve_agent_provider d (Some (tk_agent t)) of (provider, model) \<Rightarrow>
                 (case start_trace trace_id (e_wall e) d ref t provider model of
                    Inl _ \<Rightarrow> (with_db w d, Inr t)
                  | Inr (d', _) \<Rightarrow> (with_db w d', Inr t))))"

definition checkpoint_task_session :: "lifecycle_handle \<Rightarrow> env \<Rightarrow> world \<Rightarrow> run_ref \<Rightarrow> string \<Rightarrow> string \<Rightarrow> task_row io" where
  "checkpoint_task_session l e w ref s dir =
     (case lc_checkpoint l e (w_db w) ref s dir of
        Inl err \<Rightarrow> (w, Inl (ErrWrap ''checkpoint task session'' err))
      | Inr (d, t) \<Rightarrow> (with_db w d, Inr t))"

text \<open>The token counts are 64-bit sums and wrap.\<close>

definition payload_tokens :: "completed_payload \<Rightarrow> i64 \<times> i64" where
  "payload_tokens p = (case cp_usage p of None \<Rightarrow> (0, 0) | Some u \<Rightarrow> (tu_input u, tu_output u + tu_reasoning u))"

definition completion_of :: "codec \<Rightarrow> string option \<Rightarrow> string \<Rightarrow> string \<Rightarrow> run_completion" where
  "completion_of c result s dir =
     (let p = fst (cd_completed c (case result of None \<Rightarrow> '''' | Some r \<Rightarrow> r));
          (i, t) = payload_tokens p
      in \<lparr>rc_result = result, rc_session = s, rc_work_dir = dir, rc_duration_ms = cp_duration_ms p,
          rc_total_tokens = i + t\<rparr>)"

definition complete_task ::
    "codec \<Rightarrow> lifecycle_handle \<Rightarrow> env \<Rightarrow> world \<Rightarrow> run_ref \<Rightarrow> string option \<Rightarrow> string \<Rightarrow> string \<Rightarrow> task_row io" where
  "complete_task c l e w ref result s dir =
     (case lc_complete l e (w_db w) ref (completion_of c result s dir) of
        Inl err \<Rightarrow> (w, Inl (ErrWrap ''complete task'' err))
      | Inr (d, t) \<Rightarrow> (with_db w d, Inr t))"

definition normalize_metric_task_type :: "string \<Rightarrow> string" where
  "normalize_metric_task_type ty =
     (if ty \<in> {''feature'', ''bug'', ''refactor'', ''test'', ''docs'', ''other''} then ty else ''other'')"

definition retry_task :: "lifecycle_handle \<Rightarrow> env \<Rightarrow> world \<Rightarrow> run_ref \<Rightarrow> string \<Rightarrow> task_row option io" where
  "retry_task l e w ref msg =
     (case lc_retry_active l e (w_db w) ref msg of
        Inl err \<Rightarrow> (w, Inl (ErrWrap ''retry task'' err))
      | Inr (d, out) \<Rightarrow> (with_db w d, Inr out))"

definition fail_task :: "lifecycle_handle \<Rightarrow> env \<Rightarrow> world \<Rightarrow> run_ref \<Rightarrow> string \<Rightarrow> task_row io" where
  "fail_task l e w ref msg =
     (case lc_fail l e (w_db w) ref msg of
        Inl err \<Rightarrow> (w, Inl (ErrWrap ''fail task'' err))
      | Inr (d, t) \<Rightarrow> (with_db w d, Inr t))"

definition cancel_task :: "lifecycle_handle \<Rightarrow> env \<Rightarrow> world \<Rightarrow> uuid option \<Rightarrow> task_row io" where
  "cancel_task l e w i =
     (case lc_cancel l e (w_db w) i of
        Inl err \<Rightarrow> (w, Inl (ErrWrap ''cancel task'' err))
      | Inr (d, t, _) \<Rightarrow> (with_db w d, Inr t))"

definition report_progress ::
    "lifecycle_handle \<Rightarrow> world \<Rightarrow> run_ref \<Rightarrow> string \<Rightarrow> string \<Rightarrow> int \<Rightarrow> int \<Rightarrow> unit io" where
  "report_progress l w ref workspace summary step total_steps =
     (case lc_assert_running l (w_db w) ref of
        Inl err \<Rightarrow> (w, Inl err)
      | Inr _ \<Rightarrow> (emit \<lparr>ev_id = '''', ev_type = ''task:progress'', ev_workspace = workspace,
           ev_actor_type = ''system'', ev_actor = '''',
           ev_payload = JObj [(''task_id'', JStr (uuid_to_string (rr_work_item ref))),
             (''run_id'', JStr (uuid_to_string (rr_run ref))), (''summary'', JStr summary),
             (''step'', JInt step), (''total'', JInt total_steps)]\<rparr> w, Inr ()))"

definition report_agent_stage ::
    "lifecycle_handle \<Rightarrow> world \<Rightarrow> run_ref \<Rightarrow> string \<Rightarrow> string \<Rightarrow> string \<Rightarrow> unit io" where
  "report_agent_stage l w ref agent workspace stage =
     (case lc_assert_running l (w_db w) ref of
        Inl err \<Rightarrow> (w, Inl err)
      | Inr _ \<Rightarrow> (emit \<lparr>ev_id = '''', ev_type = ''agent:stage'', ev_workspace = workspace,
           ev_actor_type = ''system'', ev_actor = agent,
           ev_payload = JObj [(''task_id'', JStr (uuid_to_string (rr_work_item ref))),
             (''run_id'', JStr (uuid_to_string (rr_run ref))), (''agent_id'', JStr agent),
             (''stage'', JStr stage)]\<rparr> w, Inr ()))"

end
