(* ===== verification/TaskProps.thy ===== *)
theory TaskProps
  imports TaskService LifecycleDemo
begin

text \<open>
  What the task service adds to the lifecycle: every call is a history of lifecycle steps, a
  claim respects the capacity of the agent and the contract of the runtime's adapter, and the
  capacity check is not part of the claiming statement.
\<close>

section \<open>Service calls as lifecycle histories\<close>

lemma constraints_agents:
  assumes "db_constraints d" "map ag_id as = map ag_id (agents d)"
  shows "db_constraints (d\<lparr>agents := as\<rparr>)"
proof -
  have "ag_id ` set as = ag_id ` set (agents d)" using assms(2) by (metis set_map)
  with assms(1) show ?thesis unfolding constraint_defs by simp
qed

lemma update_agent_status_db:
  "w_db (update_agent_status c e w a s) = w_db w \<or>
   (\<exists>as. w_db (update_agent_status c e w a s) = (w_db w)\<lparr>agents := as\<rparr> \<and> map ag_id as = map ag_id (agents (w_db w)))"
  by (auto simp: update_agent_status_def update_agent_status_stmt_def Let_def res_simps map_upd_where split: sum.splits)

lemma agents_step:
  assumes "db_constraints d" "map ag_id as = map ag_id (agents d)"
  shows "lc_step d (d\<lparr>agents := as\<rparr>)"
  by (rule step_other) (simp_all add: constraints_agents [OF assms])

lemma update_agent_status_steps:
  assumes "db_constraints (w_db w)"
  shows "lc_step\<^sup>*\<^sup>* (w_db w) (w_db (update_agent_status c e w a s))"
  using update_agent_status_db [of c e w a s] agents_step [OF assms] by auto

lemma broadcast_db [simp]: "w_db (broadcast_task_dispatch c w t run) = w_db w"
  by (simp add: broadcast_task_dispatch_def Let_def split: sum.splits)

definition history :: "world \<Rightarrow> world \<Rightarrow> bool" where
  "history w w' \<longleftrightarrow> lc_step\<^sup>*\<^sup>* (w_db w) (w_db w')"

lemma history_refl [simp]: "history w w"
  by (simp add: history_def)

lemma history_trans [trans]: "history u v \<Longrightarrow> history v w \<Longrightarrow> history u w"
  unfolding history_def by (rule rtranclp_trans)

lemma history_with_db: "lc_step (w_db w) d \<Longrightarrow> history w (with_db w d)"
  by (simp add: history_def r_into_rtranclp)

lemma history_reachable: "history w w' \<Longrightarrow> lc_reachable (w_db w) \<Longrightarrow> lc_reachable (w_db w')"
  unfolding history_def by (induction rule: rtranclp_induct) (auto intro: reach_step)

lemma reachable_constraints: "lc_reachable d \<Longrightarrow> db_constraints d"
  by (rule lc_invD(1) [OF lc_reachable_inv])

lemma history_dispatched:
  assumes "lc_step (w_db w) d" "lc_reachable (w_db w)"
  shows "history w (broadcast_task_dispatch c (update_agent_status c e (with_db w d) a s) t run)"
proof -
  have "lc_reachable d" using assms(2,1) by (rule reach_step)
  then have "lc_step\<^sup>*\<^sup>* d (w_db (update_agent_status c e (with_db w d) a s))"
    using update_agent_status_steps [of "with_db w d"] by (simp add: reachable_constraints)
  with assms(1) show ?thesis by (simp add: history_def converse_rtranclp_into_rtranclp)
qed

lemma claim_task_history: "lc_reachable (w_db w) \<Longrightarrow> history w (fst (claim_task c e w a))"
  by (auto simp: claim_task_def split: sum.splits intro: history_with_db step_claim history_dispatched)

lemma claim_candidate_history: "lc_reachable (w_db w) \<Longrightarrow> history w (fst (claim_task_candidate c e w cand))"
  by (auto simp: claim_task_candidate_def split: sum.splits intro: history_with_db step_claim_id history_dispatched)

lemma reject_history: "history w (fst (reject_queued_task e w i msg))"
  by (auto simp: reject_queued_task_def split: sum.splits intro: history_with_db step_reject)

lemma claim_loop_history: "lc_reachable (w_db w) \<Longrightarrow> history w (fst (claim_loop c es d k blocked w cands))"
proof (induction cands arbitrary: k blocked w)
  case Nil
  then show ?case by simp
next
  case (Cons cand rest)
  have IH: "history w (fst (claim_loop c es d k' blocked' w' rest))" if "history w w'" for k' blocked' w'
    using history_trans [OF that Cons.IH [OF history_reachable [OF that Cons.prems]]] .
  have rej: "history w w'" if "reject_queued_task (es k) w i msg = (w', r)" for i msg w' r
    using reject_history [of w "es k" i msg] that by simp
  have cand: "history w w'" if "claim_task_candidate c (es k) w cand = (w', r)" for w' r
    using claim_candidate_history [OF Cons.prems, of c "es k" cand] that by simp
  show ?case
    by (auto split: option.splits sum.splits prod.splits bool.splits intro: IH rej cand Cons.IH [OF Cons.prems])
qed

lemma claim_for_runtime_history: "lc_reachable (w_db w) \<Longrightarrow> history w (fst (claim_task_for_runtime c es w rt))"
  by (auto simp: claim_task_for_runtime_def split: sum.splits option.splits intro: claim_loop_history)

lemma start_trace_other: "start_trace i now d ref t p m = Inr (d', x) \<Longrightarrow> d' = d \<or> (\<exists>ts. d' = d\<lparr>xtraces := ts\<rparr>)"
  by (auto simp: start_trace_def Let_def split: option.splits sum.splits if_splits)

lemma start_task_history:
  assumes "lc_reachable (w_db w)"
  shows "history w (fst (start_task tr l e i w ref))"
proof -
  have two: "history w (with_db w (d\<lparr>xtraces := ts\<rparr>))" if "lc_start l e (w_db w) ref = Inr (d, t)" for d t ts
  proof -
    have s: "lc_step (w_db w) d" using that by (rule step_start)
    then have "db_constraints d" using assms by (intro reachable_constraints) (rule reach_step)
    then have "db_constraints (d\<lparr>xtraces := ts\<rparr>)" by (subst db_constraints_cong [of _ d]) simp_all
    then have "lc_step d (d\<lparr>xtraces := ts\<rparr>)" by (intro step_other) simp_all
    with s show ?thesis by (simp add: history_def)
  qed
  show ?thesis
    by (auto simp: start_task_def split: sum.splits prod.splits intro: history_with_db step_start two
        dest!: start_trace_other)
qed

lemma callback_history:
  "history w (fst (checkpoint_task_session l e w ref s dir))"
  "history w (fst (complete_task c l e w ref result s dir))"
  "history w (fst (retry_task l e w ref msg))"
  "history w (fst (fail_task l e w ref msg))"
  "history w (fst (cancel_task l e w i))"
  by (auto simp: checkpoint_task_session_def complete_task_def retry_task_def fail_task_def cancel_task_def
      split: sum.splits intro: history_with_db lc_step.intros)

lemma enqueue_step: "enqueue_for_agent e d i a trig = Inr (d', t) \<Longrightarrow> lc_step d d'"
  by (auto simp: enqueue_for_agent_def res_simps split: if_splits intro: step_create)

section \<open>Capacity\<close>

lemma count_at_task:
  assumes "distinct (map tk_id ts)" "t \<in> set ts" "\<not> Q t" "Q (f t)"
  shows "length (filter Q (map (at_task (tk_id t) f) ts)) = Suc (length (filter Q ts))"
  using assms(1,2)
proof (induction ts)
  case Nil
  then show ?case by simp
next
  case (Cons x xs)
  show ?case
  proof (cases "x = t")
    case True
    have "at_task (tk_id t) f a = a" if "a \<in> set xs" for a
    proof -
      have "tk_id a \<in> tk_id ` set xs" using that by (rule imageI)
      moreover have "tk_id t \<notin> tk_id ` set xs" using Cons.prems(1) True by simp
      ultimately have "tk_id a \<noteq> tk_id t" by metis
      then show ?thesis by (simp add: at_task_def)
    qed
    then have "map (at_task (tk_id t) f) xs = xs" by (rule map_idI)
    with True assms(3,4) show ?thesis by simp
  next
    case False
    then have t: "t \<in> set xs" using Cons.prems(2) by simp
    have "tk_id x \<noteq> tk_id t" using Cons.prems(1) t by (metis distinct.simps(2) imageI list.set_map list.simps(9))
    then have "at_task (tk_id t) f x = x" by (simp add: at_task_def)
    with Cons t show ?thesis by simp
  qed
qed

lemma dispatch_counts:
  assumes "dispatch_candidate e d t = Inr (d', i, r)" "db_constraints d" "t \<in> set (tasks d)" "tk_status t = Queued"
  shows "count_running_tasks d' (Some (tk_agent t)) = Suc (count_running_tasks d (Some (tk_agent t)))"
    "get_task d' (Some i) = Inr (dispatched_task e t)" "i = tk_id t" "r = e_gen e 0"
proof -
  note S = dispatch_candidate_Inr [OF assms]
  have ts: "tasks d' = map (at_task (tk_id t) (dispatched_task e)) (tasks d)" using S by simp
  show "count_running_tasks d' (Some (tk_agent t)) = Suc (count_running_tasks d (Some (tk_agent t)))"
    unfolding count_running_tasks_def ts
    by (rule count_at_task [OF constraints_keys(1) [OF assms(2)] assms(3)])
      (simp_all add: assms(4) dispatched_task_def)
  show ir: "i = tk_id t" "r = e_gen e 0" using S by simp_all
  have "dispatched_task e t \<in> set (tasks d')" unfolding ts
    using imageI [OF assms(3), of "at_task (tk_id t) (dispatched_task e)"] by simp
  then show "get_task d' (Some i) = Inr (dispatched_task e t)"
    using get_task_key [of d' "dispatched_task e t"] S constraints_keys(1) [of d'] ir by auto
qed

lemma count_agents [simp]: "count_running_tasks (d\<lparr>agents := as\<rparr>) a = count_running_tasks d a"
  by (simp add: count_running_tasks_def)

lemma count_status [simp]: "count_running_tasks (w_db (update_agent_status c e w a' s)) a = count_running_tasks (w_db w) a"
  using update_agent_status_db [of c e w a' s] by auto

lemma get_task_agents [simp]: "get_task (d\<lparr>agents := as\<rparr>) i = get_task d i"
  by (simp add: get_task_def)

lemma get_task_status [simp]: "get_task (w_db (update_agent_status c e w a s)) i = get_task (w_db w) i"
  using update_agent_status_db [of c e w a s] by auto

lemma get_agent_status:
  assumes "get_agent (w_db w) i = Inr ag"
  shows "\<exists>ag'. get_agent (w_db (update_agent_status c e w a s)) i = Inr ag' \<and> ag_max_concurrent ag' = ag_max_concurrent ag"
proof -
  let ?f = "\<lambda>x. if Some (ag_id x) = a then x\<lparr>ag_status := s, ag_updated_at := e_now e\<rparr> else x"
  have flt: "filter (\<lambda>x. Some (ag_id x) = i) (map ?f as) = map ?f (filter (\<lambda>x. Some (ag_id x) = i) as)" for as
    by (induction as) auto
  obtain as where as: "filter (\<lambda>x. Some (ag_id x) = i) (agents (w_db w)) = ag # as"
    using assms by (auto simp: get_agent_def select_one_def split: list.splits)
  then have "get_agent ((w_db w)\<lparr>agents := map ?f (agents (w_db w))\<rparr>) i = Inr (?f ag)"
    by (simp add: get_agent_def select_one_def flt)
  moreover have "w_db (update_agent_status c e w a s) = w_db w \<or>
      w_db (update_agent_status c e w a s) = (w_db w)\<lparr>agents := map ?f (agents (w_db w))\<rparr>"
    by (auto simp: update_agent_status_def update_agent_status_stmt_def Let_def res_simps upd_where_def split: sum.splits)
  ultimately show ?thesis using assms by auto
qed

lemma dispatch_agents: "dispatch_candidate e d t = Inr (d', i, r) \<Longrightarrow> agents d' = agents d"
  by (auto simp: dispatch_candidate_def Let_def res_simps)

lemma dispatched_agent [simp]: "tk_agent (dispatched_task e t) = tk_agent t"
  by (simp add: dispatched_task_def)

text \<open>What a handed-out task looks like in the resulting database.\<close>

definition handed_out :: "world \<Rightarrow> world \<Rightarrow> claimed_task \<Rightarrow> bool" where
  "handed_out w w' cl \<longleftrightarrow>
     (let t = cl_task cl; a = Some (tk_agent t) in
        get_task (w_db w') (Some (tk_id t)) = Inr t \<and> tk_status t = Dispatched \<and> tk_active_run t = Some (cl_run cl) \<and>
        count_running_tasks (w_db w') a = Suc (count_running_tasks (w_db w) a) \<and>
        (\<exists>agent. get_agent (w_db w') a = Inr agent \<and> int (count_running_tasks (w_db w') a) \<le> ag_max_concurrent agent))"

lemma claim_task_hands_out:
  assumes C: "db_constraints (w_db w)" and ok: "claim_task c e w a = (w', Inr (Some cl))"
  shows "handed_out w w' cl \<and> Some (tk_agent (cl_task cl)) = a"
proof -
  from ok obtain agent d i r t where ag: "get_agent (w_db w) a = Inr agent"
    and cap: "int (count_running_tasks (w_db w) a) < ag_max_concurrent agent"
    and cr: "claim_agent_task_run e (w_db w) a = Inr (d, i, r)" and t: "get_task d (Some i) = Inr t"
    and w': "w' = broadcast_task_dispatch c (update_agent_status c e (with_db w d) a ''working'') t r"
    and cl: "cl = \<lparr>cl_task = t, cl_run = r\<rparr>"
    by (auto simp: claim_task_def split: sum.splits if_splits)
  from cr obtain t0 where ch: "claim_choice e (w_db w) a = Some t0" and di: "dispatch_candidate e (w_db w) t0 = Inr (d, i, r)"
    by (auto simp: claim_by_agent_alt split: option.splits)
  note ch' = claim_choice_Some [OF ch]
  have q: "tk_status t0 = Queued" using ch'(3) by (simp add: claimable_def)
  note D = dispatch_counts [OF di C ch'(1) q]
  have t0: "t = dispatched_task e t0" using t D(2) by simp
  have a: "a = Some (tk_agent t0)" using ch'(2) by simp
  have "get_agent (w_db (with_db w d)) a = Inr agent" using ag dispatch_agents [OF di] by (simp add: get_agent_def)
  from get_agent_status [OF this] have "handed_out w w' cl"
    unfolding handed_out_def cl w' Let_def t0 a
    using D cap unfolding a by fastforce
  then show ?thesis unfolding cl t0 a by simp
qed

lemma claim_candidate_hands_out:
  assumes C: "db_constraints (w_db w)" and ok: "claim_task_candidate c e w cand = (w', Inr (Some cl, b))"
    and ids: "\<And>t. t \<in> set (tasks (w_db w)) \<Longrightarrow> tk_id t = tk_id cand \<Longrightarrow> tk_agent t = tk_agent cand"
  shows "handed_out w w' cl \<and> tk_id (cl_task cl) = tk_id cand"
proof -
  from ok obtain agent d i r t where ag: "get_agent (w_db w) (Some (tk_agent cand)) = Inr agent"
    and cap: "int (count_running_tasks (w_db w) (Some (tk_agent cand))) < ag_max_concurrent agent"
    and cr: "claim_agent_task_run_by_id e (w_db w) (tk_id cand) = Inr (d, i, r)" and t: "get_task d (Some i) = Inr t"
    and w': "w' = broadcast_task_dispatch c (update_agent_status c e (with_db w d) (Some (tk_agent t)) ''working'') t r"
    and cl: "cl = \<lparr>cl_task = t, cl_run = r\<rparr>"
    by (auto simp: claim_task_candidate_def split: sum.splits if_splits)
  from cr obtain t0 where sel: "select_one (\<lambda>t. tk_id t = tk_id cand \<and> claimable (w_db w) t) (tasks (w_db w)) = Inr t0"
    and di: "dispatch_candidate e (w_db w) t0 = Inr (d, i, r)"
    by (auto simp: claim_agent_task_run_by_id_def res_simps)
  from select_one_Inr [OF sel] have t0': "t0 \<in> set (tasks (w_db w))" "tk_id t0 = tk_id cand" "tk_status t0 = Queued"
    by (auto simp: claimable_def)
  note D = dispatch_counts [OF di C t0'(1,3)]
  have t0: "t = dispatched_task e t0" using t D(2) by simp
  have a: "tk_agent cand = tk_agent t0" using ids [OF t0'(1,2)] by simp
  have "get_agent (w_db (with_db w d)) (Some (tk_agent t0)) = Inr agent"
    using ag dispatch_agents [OF di] unfolding a by (simp add: get_agent_def)
  from get_agent_status [OF this] have "handed_out w w' cl"
    unfolding handed_out_def cl w' Let_def t0
    using D cap unfolding a by fastforce
  moreover have "tk_id (cl_task cl) = tk_id cand" unfolding cl t0 using t0'(2) by simp
  ultimately show ?thesis by blast
qed

lemma claim_loop_hands_out:
  assumes "lc_reachable (w_db w0)" "history w0 w" "\<And>t. t \<in> set cands \<Longrightarrow> t \<in> set (tasks (w_db w0))"
    and "claim_loop c es d k blocked w cands = (w', Inr (Some cl))"
  shows "\<exists>cand\<in>set cands. \<exists>w1. history w w1 \<and> handed_out w1 w' cl \<and> tk_id (cl_task cl) = tk_id cand \<and>
    tk_status cand = Queued \<and> validate_adapter_for_task_type d (tk_task_type cand) = None"
  using assms(2-4)
proof (induction cands arbitrary: k blocked w)
  case Nil
  then show ?case by simp
next
  case (Cons cand rest)
  have rw: "lc_reachable (w_db w)" using history_reachable [OF Cons.prems(1) assms(1)] .
  have IH: ?case if "claim_loop c es d k' blocked' w1 rest = (w', Inr (Some cl))" "history w w1" for k' blocked' w1
  proof -
    have "\<exists>cand\<in>set rest. \<exists>w2. history w1 w2 \<and> handed_out w2 w' cl \<and> tk_id (cl_task cl) = tk_id cand \<and>
        tk_status cand = Queued \<and> validate_adapter_for_task_type d (tk_task_type cand) = None"
      using Cons.IH [OF history_trans [OF Cons.prems(1) that(2)] _ that(1)] Cons.prems(2) by simp
    with that(2) show ?thesis by (auto intro: history_trans)
  qed
  consider (skip) "tk_status cand \<noteq> Queued"
    | (refuse) err where "tk_status cand = Queued" "validate_adapter_for_task_type d (tk_task_type cand) = Some err"
    | (blocked) "tk_status cand = Queued" "validate_adapter_for_task_type d (tk_task_type cand) = None"
        "uuid_text (tk_agent cand) \<in> set blocked"
    | (attempt) "tk_status cand = Queued" "validate_adapter_for_task_type d (tk_task_type cand) = None"
        "uuid_text (tk_agent cand) \<notin> set blocked"
    by (cases "validate_adapter_for_task_type d (tk_task_type cand)") auto
  then show ?case
  proof cases
    case skip
    then show ?thesis by (intro IH [OF _ history_refl]) (use Cons.prems(3) in simp)
  next
    case refuse
    obtain w1 r where rj: "reject_queued_task (es k) w (tk_id cand) (''task rejected before dispatch: '' @ stage_error_text err) = (w1, r)"
      by (cases "reject_queued_task (es k) w (tk_id cand) (''task rejected before dispatch: '' @ stage_error_text err)")
    have "history w w1" using reject_history [of w "es k" "tk_id cand" "''task rejected before dispatch: '' @ stage_error_text err"]
      by (simp only: rj fst_conv)
    then show ?thesis by (rule IH [rotated]) (use Cons.prems(3) refuse rj in \<open>auto split: sum.splits if_splits\<close>)
  next
    case blocked
    then show ?thesis by (intro IH [OF _ history_refl]) (use Cons.prems(3) in simp)
  next
    case attempt
    obtain w1 r where cc: "claim_task_candidate c (es k) w cand = (w1, r)"
      by (cases "claim_task_candidate c (es k) w cand")
    have h: "history w w1" using claim_candidate_history [OF rw, of c "es k" cand] by (simp add: cc)
    show ?thesis
    proof (cases "r = Inr (Some cl, True)")
      case True
      have same: "tk_agent t = tk_agent cand" if t: "t \<in> set (tasks (w_db w))" "tk_id t = tk_id cand" for t
      proof -
        have "cand \<in> set (tasks (w_db w0))" using Cons.prems(2) by simp
        from history_keeps_task [OF _ assms(1) this] Cons.prems(1) obtain u where
          u: "u \<in> set (tasks (w_db w))" "same_work_item cand u" unfolding history_def by blast
        have "u = t" by (rule same_task [OF reachable_constraints [OF rw] u(1) t(1)])
            (use u(2) t(2) in \<open>simp add: same_work_item_def\<close>)
        with u(2) show ?thesis by (simp add: same_work_item_def)
      qed
      have "w1 = w'" using Cons.prems(3) attempt cc True by simp
      with claim_candidate_hands_out [OF reachable_constraints [OF rw] cc [unfolded True] same]
      have "handed_out w w' cl \<and> tk_id (cl_task cl) = tk_id cand" by blast
      with attempt show ?thesis by (intro bexI [of _ cand] exI [of _ w]) auto
    next
      case False
      with Cons.prems(3) attempt cc have "\<exists>k' blocked'. claim_loop c es d k' blocked' w1 rest = (w', Inr (Some cl))"
        by (simp split: sum.splits prod.splits option.splits bool.splits) blast+
      with h show ?thesis using IH by blast
    qed
  qed
qed

section \<open>Arithmetic of the token counts\<close>

lemma sint_ucast_down: "sint (ucast v :: i32) = signed_take_bit 31 (sint (v :: i64))"
proof -
  have "(ucast v :: i32) = scast v"
    by (rule down_cast_same [symmetric, THEN fun_cong, symmetric]) (simp add: is_down)
  moreover have "(scast v :: i32) = word_of_int (sint v)" by (rule scast_eq)
  ultimately have "(ucast v :: i32) = word_of_int (sint v)" by (simp only:)
  then have "sint (ucast v :: i32) = sint (word_of_int (sint v) :: i32)" by (rule arg_cong)
  also have "\<dots> = signed_take_bit (LENGTH(32) - 1) (sint v)" by (rule sint_sbintrunc')
  also have "LENGTH(32) - 1 = (31 :: nat)" by simp
  finally show ?thesis .
qed

lemma clamp_int32_sint: "sint (clamp_int32 v) = max 0 (min (2 ^ 31 - 1) (sint v))"
proof -
  have "sint (ucast v :: i32) = sint v" if "0 \<le> sint v" "sint v \<le> 2147483647"
  proof -
    have "sint (ucast v :: i32) = signed_take_bit 31 (sint v)" by (rule sint_ucast_down)
    then show ?thesis using that by (simp add: signed_take_bit_int_eq_self)
  qed
  then show ?thesis by (auto simp: clamp_int32_def max_def min_def)
qed

lemma sint_add_exact:
  fixes a b :: i64
  assumes "- (2 ^ 63) \<le> sint a + sint b" "sint a + sint b < 2 ^ 63"
  shows "sint (a + b) = sint a + sint b"
  using assms by (simp add: sint_word_ariths signed_take_bit_int_eq_self)

section \<open>Two claimers\<close>

definition race0 :: db where
  "race0 = demo0\<lparr>agents := [demo_agent\<lparr>ag_max_concurrent := 1\<rparr>]\<rparr>"

definition race1 :: db where
  "race1 = race0\<lparr>tasks := [demo_queued 1 3, (demo_queued 2 3)\<lparr>tk_issue := 31\<rparr>]\<rparr>"

lemmas race_simps = create_agent_task_def commit_stmt_def Let_def or_fail_def constraint_defs task_types_def
  claim_agent_task_run_def dispatch_candidate_def claimable_def claim_before_def upd_where_def race1_def race0_def

lemma race1_reachable: "lc_reachable race1"
proof -
  let ?d = "race0\<lparr>tasks := [demo_queued 1 3]\<rparr>"
  have r0: "lc_reachable race0" by (rule reach_init) (simp_all add: race0_def demo0_def)
  have "create_agent_task (demo_env 1) 0 race0 (demo_params 20 30 3) = Inr (?d, demo_queued 1 3)"
    by (simp add: race_simps demo_rows)
  from reach_step [OF r0 step_create [OF this]] have r1: "lc_reachable ?d" .
  have "create_agent_task (demo_env 2) 0 ?d (demo_params 20 31 3) = Inr (race1, (demo_queued 2 3)\<lparr>tk_issue := 31\<rparr>)"
    by (simp add: race_simps demo_rows)
  from reach_step [OF r1 step_create [OF this]] show ?thesis .
qed

section \<open>Properties\<close>

lemma in_pending_list:
  "t \<in> set (list_pending_tasks_by_runtime d rt) \<longleftrightarrow> t \<in> set (tasks d) \<and> Some (tk_runtime t) = rt \<and> pending (tk_status t)"
  by (auto simp: list_pending_tasks_by_runtime_def)

text \<open>The claims and callbacks of the task service, with whatever outcome, leave a database the lifecycle reaches:
  claims for an agent and a runtime, starts, checkpoints, completions, retries, failures and cancellations of one Work Item are
  histories of lifecycle steps, so every invariant of the lifecycle holds after them, also after an error.\<close>

theorem service_calls_are_histories:
  assumes "lc_reachable (w_db w)"
  shows "lc_reachable (w_db (fst (claim_task c e w a))) \<and>
    lc_reachable (w_db (fst (claim_task_for_runtime c es w rt))) \<and>
    lc_reachable (w_db (fst (start_task tr l e i w ref))) \<and>
    lc_reachable (w_db (fst (checkpoint_task_session l e w ref s dir))) \<and>
    lc_reachable (w_db (fst (complete_task c l e w ref result s dir))) \<and>
    lc_reachable (w_db (fst (retry_task l e w ref msg))) \<and>
    lc_reachable (w_db (fst (fail_task l e w ref msg))) \<and>
    lc_reachable (w_db (fst (cancel_task l e w wi)))"
proof -
  note H = history_reachable [OF _ assms]
  show ?thesis
    using claim_task_history [OF assms, THEN H] claim_for_runtime_history [OF assms, THEN H]
      start_task_history [OF assms, THEN H] callback_history [THEN H] by simp
qed

definition demo_codec :: codec where
  "demo_codec = \<lparr>cd_json = (\<lambda>_. None),
     cd_completed = (\<lambda>_. (\<lparr>cp_output = '''', cp_duration_ms = 0, cp_usage = None\<rparr>, False)), cd_time = (\<lambda>_. ''t'')\<rparr>"

lemma service_calls_are_histories_witness:
  "lc_reachable (w_db (fst (claim_task_for_runtime demo_codec demo_env \<lparr>w_db = demo4, w_bus = []\<rparr> (Some 20))))"
proof -
  have "lc_reachable (w_db \<lparr>w_db = demo4, w_bus = []\<rparr>)" using demo_reachable(4) by simp
  from service_calls_are_histories [OF this] show ?thesis by blast
qed

text \<open>C10. A runtime is only handed work it can run: when a claim for a runtime hands out a task,
  the task belongs to that runtime, its type is accepted by the contract of the runtime's adapter,
  it is dispatched with the returned Run as its active Run, and its agent is within its limit of
  concurrent tasks, counting the new one.\<close>

theorem runtime_claim_sound:
  assumes "lc_reachable (w_db w)" "claim_task_for_runtime c es w rt = (w', Inr (Some cl))"
  shows "\<exists>runtime d agent. get_runtime (w_db w) rt = Inr runtime \<and>
    descriptor_for (to_lower (trim_space (rt_provider runtime))) = Some d \<and>
    validate_adapter_for_task_type d (tk_task_type (cl_task cl)) = None \<and>
    Some (tk_runtime (cl_task cl)) = rt \<and> tk_status (cl_task cl) = Dispatched \<and>
    tk_active_run (cl_task cl) = Some (cl_run cl) \<and>
    get_task (w_db w') (Some (tk_id (cl_task cl))) = Inr (cl_task cl) \<and>
    get_agent (w_db w') (Some (tk_agent (cl_task cl))) = Inr agent \<and>
    int (count_running_tasks (w_db w') (Some (tk_agent (cl_task cl)))) \<le> ag_max_concurrent agent"
proof -
  from assms(2) obtain runtime d where rt: "get_runtime (w_db w) rt = Inr runtime"
    "descriptor_for (to_lower (trim_space (rt_provider runtime))) = Some d"
    and loop: "claim_loop c es d 0 [] w (list_pending_tasks_by_runtime (w_db w) rt) = (w', Inr (Some cl))"
    by (auto simp: claim_task_for_runtime_def split: sum.splits option.splits)
  have cands: "\<And>t. t \<in> set (list_pending_tasks_by_runtime (w_db w) rt) \<Longrightarrow> t \<in> set (tasks (w_db w))"
    by (simp add: in_pending_list)
  from claim_loop_hands_out [OF assms(1) history_refl cands loop] obtain cand w1 where
    cand: "cand \<in> set (list_pending_tasks_by_runtime (w_db w) rt)" "tk_id (cl_task cl) = tk_id cand"
    "validate_adapter_for_task_type d (tk_task_type cand) = None" and ho: "handed_out w1 w' cl" by blast
  have h: "history w w'" using claim_for_runtime_history [OF assms(1), of c es rt] assms(2) by simp
  have ct: "cand \<in> set (tasks (w_db w))" "Some (tk_runtime cand) = rt" using cand(1) by (simp_all add: in_pending_list)
  from history_keeps_task [OF h [unfolded history_def] assms(1) ct(1)] obtain u where
    u: "u \<in> set (tasks (w_db w'))" "same_work_item cand u" by blast
  have "get_task (w_db w') (Some (tk_id (cl_task cl))) = Inr (cl_task cl)" using ho by (simp add: handed_out_def Let_def)
  from get_task_Inr [OF this] have in_w': "cl_task cl \<in> set (tasks (w_db w'))" by simp
  have "u = cl_task cl"
    by (rule same_task [OF reachable_constraints [OF history_reachable [OF h assms(1)]] u(1) in_w'])
      (use u(2) cand(2) in \<open>simp add: same_work_item_def\<close>)
  then have "tk_task_type (cl_task cl) = tk_task_type cand" "tk_runtime (cl_task cl) = tk_runtime cand"
    using u(2) by (simp_all add: same_work_item_def)
  with rt cand(3) ct(2) ho show ?thesis unfolding handed_out_def Let_def by (intro exI [of _ runtime] exI [of _ d]) auto
qed

lemma demo1_claim_by_id: "claim_agent_task_run_by_id (demo_env 2) demo1 1000 = Inr (demo2, 1000, 2000)"
  by (simp add: claim_agent_task_run_by_id_def select_one_def dispatch_candidate_def claimable_def upd_where_def
      commit_stmt_def Let_def or_fail_def constraint_defs task_types_def demo1_def demo2_def demo_rows)

lemma runtime_claim_sound_witness:
  "\<exists>w' cl. claim_task_for_runtime demo_codec (\<lambda>_. demo_env 2) \<lparr>w_db = demo1, w_bus = []\<rparr> (Some 20) = (w', Inr (Some cl)) \<and>
     tk_status (cl_task cl) = Dispatched \<and> tk_runtime (cl_task cl) = 20"
proof -
  let ?w = "\<lparr>w_db = demo1, w_bus = []\<rparr>"
  have r: "lc_reachable (w_db ?w)" using reach_step [OF demo_reachable(1) step_create [OF demo1_step]] by simp
  have rt: "get_runtime demo1 (Some 20) = Inr (demo_runtime 20 ''online'')"
    by (simp add: get_runtime_def select_one_def demo1_def demo_rows)
  have "to_lower (trim_space ''claude'') = ''claude''" by code_simp
  then obtain d where d: "descriptor_for (to_lower (trim_space (rt_provider (demo_runtime 20 ''online'')))) = Some d"
    by (simp add: demo_runtime_def descriptor_for_def adapter_descriptors_def provider_claude_def)
  have ls: "list_pending_tasks_by_runtime demo1 (Some 20) = [demo_queued 1 3]"
    by (simp add: list_pending_tasks_by_runtime_def sort_by_def demo1_def demo_rows)
  have "trim_space ''standard'' = ''standard''" by code_simp
  then have std: "validate_adapter_for_task_type d ''standard'' = None" by (simp add: validate_adapter_for_task_type_def)
  have q: "tk_status (demo_queued 1 3) = Queued" "tk_task_type (demo_queued 1 3) = ''standard''"
    "tk_id (demo_queued 1 3) = 1000" "tk_agent (demo_queued 1 3) = 10" by (simp_all add: demo_queued_def)
  have ag: "get_agent demo1 (Some 10) = Inr demo_agent" by (simp add: get_agent_def select_one_def demo1_def demo_rows)
  have n0: "count_running_tasks demo1 (Some 10) = 0" by (simp add: count_running_tasks_def demo1_def demo_rows)
  have gt: "get_task demo2 (Some 1000) = Inr demo_dispatched"
    by (simp add: get_task_def select_one_def demo2_def demo_rows)
  have "\<exists>w' cl. claim_task_candidate demo_codec (demo_env 2) ?w (demo_queued 1 3) = (w', Inr (Some cl, True))"
    using ag n0 gt demo1_claim_by_id q by (simp add: claim_task_candidate_def demo_agent_def)
  then obtain w' cl where ok: "claim_task_for_runtime demo_codec (\<lambda>_. demo_env 2) ?w (Some 20) = (w', Inr (Some cl))"
    using rt d ls std q by (auto simp: claim_task_for_runtime_def)
  with runtime_claim_sound [OF r ok] show ?thesis by auto
qed

text \<open>A claim for an agent never takes the agent beyond its limit: when it hands out a task,
  the task is the agent's own, and the number of its dispatched and running tasks grew by one and
  is within \<^verbatim>\<open>max_concurrent_tasks\<close>; when it hands out nothing, the world is unchanged.\<close>

theorem agent_claim_within_capacity:
  assumes "lc_reachable (w_db w)"
  shows "(\<forall>w' cl. claim_task c e w a = (w', Inr (Some cl)) \<longrightarrow> Some (tk_agent (cl_task cl)) = a \<and>
      count_running_tasks (w_db w') a = Suc (count_running_tasks (w_db w) a) \<and>
      (\<exists>agent. get_agent (w_db w') a = Inr agent \<and> int (count_running_tasks (w_db w') a) \<le> ag_max_concurrent agent)) \<and>
    (\<forall>w'. claim_task c e w a = (w', Inr None) \<longrightarrow> w' = w)"
proof (intro conjI allI impI)
  fix w' cl assume ok: "claim_task c e w a = (w', Inr (Some cl))"
  note H = claim_task_hands_out [OF reachable_constraints [OF assms] ok]
  show ag: "Some (tk_agent (cl_task cl)) = a" using H by simp
  from H show "count_running_tasks (w_db w') a = Suc (count_running_tasks (w_db w) a)"
    "\<exists>agent. get_agent (w_db w') a = Inr agent \<and> int (count_running_tasks (w_db w') a) \<le> ag_max_concurrent agent"
    unfolding handed_out_def Let_def ag by blast+
next
  fix w' assume "claim_task c e w a = (w', Inr None)"
  then show "w' = w" by (auto simp: claim_task_def split: sum.splits if_splits)
qed

lemma agent_claim_within_capacity_witness:
  "\<exists>w' cl. claim_task demo_codec (demo_env 2) \<lparr>w_db = demo1, w_bus = []\<rparr> (Some 10) = (w', Inr (Some cl)) \<and>
     count_running_tasks (w_db w') (Some 10) = 1"
proof -
  let ?w = "\<lparr>w_db = demo1, w_bus = []\<rparr>"
  have r: "lc_reachable (w_db ?w)" using reach_step [OF demo_reachable(1) step_create [OF demo1_step]] by simp
  have ag: "get_agent demo1 (Some 10) = Inr demo_agent" by (simp add: get_agent_def select_one_def demo1_def demo_rows)
  have n0: "count_running_tasks demo1 (Some 10) = 0" by (simp add: count_running_tasks_def demo1_def demo_rows)
  have gt: "get_task demo2 (Some 1000) = Inr demo_dispatched"
    by (simp add: get_task_def select_one_def demo2_def demo_rows)
  obtain w' cl where ok: "claim_task demo_codec (demo_env 2) ?w (Some 10) = (w', Inr (Some cl))"
    using ag n0 demo2_step gt by (simp add: claim_task_def demo_agent_def)
  with agent_claim_within_capacity [OF r] n0 show ?thesis by fastforce
qed

text \<open>The capacity check is not part of the claiming statement: two claimers that both count
  the agent's tasks before either claims can take an agent beyond \<^verbatim>\<open>max_concurrent_tasks\<close>.\<close>

theorem capacity_check_races:
  "\<exists>d agent d1 i1 r1 d2 i2 r2. lc_reachable d \<and> get_agent d (Some 10) = Inr agent \<and>
     int (count_running_tasks d (Some 10)) < ag_max_concurrent agent \<and>
     claim_agent_task_run (demo_env 3) d (Some 10) = Inr (d1, i1, r1) \<and>
     claim_agent_task_run (demo_env 4) d1 (Some 10) = Inr (d2, i2, r2) \<and>
     ag_max_concurrent agent < int (count_running_tasks d2 (Some 10))"
proof -
  let ?t1 = "dispatched_task (demo_env 3) (demo_queued 1 3)" and ?q2 = "(demo_queued 2 3)\<lparr>tk_issue := 31\<rparr>"
  let ?d1 = "race1\<lparr>tasks := [?t1, ?q2], runs := [new_run_row (demo_env 3) (demo_queued 1 3)]\<rparr>"
  let ?d2 = "race1\<lparr>tasks := [?t1, dispatched_task (demo_env 4) ?q2],
    runs := [new_run_row (demo_env 3) (demo_queued 1 3), new_run_row (demo_env 4) ?q2]\<rparr>"
  have "claim_agent_task_run (demo_env 3) race1 (Some 10) = Inr (?d1, 1000, 3000)"
    by (simp add: race_simps demo_rows)
  moreover have "claim_agent_task_run (demo_env 4) ?d1 (Some 10) = Inr (?d2, 2000, 4000)"
    by (simp add: race_simps demo_rows)
  moreover have "get_agent race1 (Some 10) = Inr (demo_agent\<lparr>ag_max_concurrent := 1\<rparr>)"
    by (simp add: get_agent_def select_one_def race1_def race0_def demo_agent_def)
  moreover have "count_running_tasks race1 (Some 10) = 0" "count_running_tasks ?d2 (Some 10) = 2"
    by (simp_all add: count_running_tasks_def race1_def demo_rows)
  ultimately show ?thesis using race1_reachable by fastforce
qed

text \<open>Token accounting of a completed Run: the Run records the sum of the reported counts as
  64-bit arithmetic gives it, brought into the range of a nonnegative 32-bit integer; when the
  counts are not negative and their sum fits 64 bits, that is the true sum, saturated.\<close>

theorem completion_token_bounds:
  assumes "fst (cd_completed c result) = p" "cp_usage p = Some u"
  shows "\<exists>t. cr_total_tokens (completion_params (completion_of c (Some result) s dir)) = Some t \<and>
    0 \<le> sint t \<and> sint t \<le> 2 ^ 31 - 1 \<and>
    (0 \<le> sint (tu_input u) \<longrightarrow> 0 \<le> sint (tu_output u) \<longrightarrow> 0 \<le> sint (tu_reasoning u) \<longrightarrow>
     sint (tu_input u) + sint (tu_output u) + sint (tu_reasoning u) < 2 ^ 63 \<longrightarrow>
     sint t = min (2 ^ 31 - 1) (sint (tu_input u) + sint (tu_output u) + sint (tu_reasoning u)))"
proof -
  let ?v = "tu_input u + (tu_output u + tu_reasoning u)"
  have eq: "cr_total_tokens (completion_params (completion_of c (Some result) s dir)) = Some (clamp_int32 ?v)"
    using assms by (simp add: completion_params_def completion_of_def payload_tokens_def Let_def)
  have "sint ?v = sint (tu_input u) + sint (tu_output u) + sint (tu_reasoning u)"
    if "0 \<le> sint (tu_input u)" "0 \<le> sint (tu_output u)" "0 \<le> sint (tu_reasoning u)"
      "sint (tu_input u) + sint (tu_output u) + sint (tu_reasoning u) < 2 ^ 63"
  proof -
    have "sint (tu_output u + tu_reasoning u) = sint (tu_output u) + sint (tu_reasoning u)"
      by (rule sint_add_exact) (use that in auto)
    then show ?thesis using that by (subst sint_add_exact) auto
  qed
  with eq show ?thesis by (auto simp: clamp_int32_sint)
qed

lemma completion_token_bounds_witness:
  "cr_total_tokens (completion_params (completion_of
     (demo_codec\<lparr>cd_completed := (\<lambda>_. (\<lparr>cp_output = '''', cp_duration_ms = 0,
        cp_usage = Some \<lparr>tu_input = 5, tu_output = 6, tu_reasoning = 7\<rparr>\<rparr>, True))\<rparr>) (Some ''x'') '''' '''')) = Some 18"
proof -
  let ?u = "\<lparr>tu_input = 5, tu_output = 6, tu_reasoning = 7\<rparr>"
  let ?p = "\<lparr>cp_output = '''', cp_duration_ms = 0, cp_usage = Some ?u\<rparr>"
  let ?c = "demo_codec\<lparr>cd_completed := (\<lambda>_. (?p, True))\<rparr>"
  obtain t where t: "cr_total_tokens (completion_params (completion_of ?c (Some ''x'') '''' '''')) = Some t" "sint t = 18"
    using completion_token_bounds [of ?c "''x''" ?p ?u "''''" "''''"] by auto
  have "t = word_of_int (sint t)" by simp
  with t show ?thesis by simp
qed

end
