(* ===== verification/Delivery.thy ===== *)
theory Delivery
  imports Store
begin

text \<open>
  Two contracts the consumers of lifecycle facts rely on. A projection that writes one row per
  key and leaves an existing row alone (\<^verbatim>\<open>ON CONFLICT ... DO UPDATE SET key = EXCLUDED.key\<close>)
  turns at-least-once delivery into effectively-once rows; and a lease with a fencing token
  makes the acknowledgement of a superseded worker void.
\<close>

section \<open>Effectively-once projection\<close>

text \<open>
  \<^verbatim>\<open>INSERT ... ON CONFLICT (key) DO UPDATE SET key = EXCLUDED.key RETURNING *\<close>: the row that has the
  key already is returned unchanged; otherwise the new row is added when the other constraints
  admit it.
\<close>

definition insert_keyed :: "('r \<Rightarrow> bool) \<Rightarrow> bool \<Rightarrow> 'r \<Rightarrow> 'r list \<Rightarrow> ('r list \<times> 'r) res" where
  "insert_keyed same admitted row rows =
     (case select_one same rows of
        Inr r \<Rightarrow> Inr (rows, r)
      | Inl _ \<Rightarrow> if admitted then Inr (rows @ [row], row) else Inl ErrConstraint)"

lemma insert_keyed_Inr:
  "insert_keyed same admitted row rows = Inr (rows', r) \<Longrightarrow>
     select_one same rows = Inr r \<and> rows' = rows \<or>
     (\<forall>x\<in>set rows. \<not> same x) \<and> admitted \<and> rows' = rows @ [row] \<and> r = row"
  by (auto simp: insert_keyed_def select_one_Inl split: sum.splits if_splits)

lemma insert_keyed_again:
  "x \<in> set rows \<Longrightarrow> same x \<Longrightarrow> \<exists>r. insert_keyed same admitted row rows = Inr (rows, r) \<and> r \<in> set rows \<and> same r"
  using select_one_found [of x rows same] by (auto simp: insert_keyed_def dest: select_one_Inr)

lemma insert_keyed_admitted: "admitted \<Longrightarrow> \<exists>rows' r. insert_keyed same admitted row rows = Inr (rows', r)"
  by (cases "select_one same rows") (simp_all add: insert_keyed_def)

lemma insert_keyed_mono: "insert_keyed same admitted row rows = Inr (rows', r) \<Longrightarrow> set rows \<subseteq> set rows'"
  by (drule insert_keyed_Inr) auto

lemma insert_keyed_has:
  "insert_keyed same admitted row rows = Inr (rows', r) \<Longrightarrow> same row \<Longrightarrow> r \<in> set rows' \<and> same r"
  by (drule insert_keyed_Inr) (auto dest: select_one_Inr)

text \<open>At most one row per key.\<close>

definition keyed_once :: "('r \<Rightarrow> 'k option) \<Rightarrow> 'r list \<Rightarrow> bool" where
  "keyed_once key rows \<longleftrightarrow> distinct (map key (filter (\<lambda>r. key r \<noteq> None) rows))"

lemma keyed_once_insert:
  assumes "insert_keyed (\<lambda>x. key x = key row) admitted row rows = Inr (rows', r)" "keyed_once key rows"
  shows "keyed_once key rows'"
  using insert_keyed_Inr [OF assms(1)] assms(2) by (auto simp: keyed_once_def)

text \<open>What a delivery that may fail leaves behind: a failed statement changes nothing.\<close>

definition attempt :: "('ev \<Rightarrow> 's \<Rightarrow> 's res) \<Rightarrow> 'ev \<Rightarrow> 's \<Rightarrow> 's" where
  "attempt deliver e s = (case deliver e s of Inl _ \<Rightarrow> s | Inr s' \<Rightarrow> s')"

text \<open>
  The contract of a projection of facts into rows: a successful delivery leaves the row of its
  key, a second delivery of the key changes nothing, and no delivery loses a row.
\<close>

locale projection =
  fixes deliver :: "'ev \<Rightarrow> 's \<Rightarrow> 's res"
    and key :: "'ev \<Rightarrow> 'k"
    and seen :: "'k \<Rightarrow> 's \<Rightarrow> bool"
  assumes applied: "deliver e s = Inr s' \<Longrightarrow> seen (key e) s'"
    and again: "seen (key e) s \<Longrightarrow> deliver e s = Inr s"
    and keeps: "seen k s \<Longrightarrow> deliver e s = Inr s' \<Longrightarrow> seen k s'"
begin

lemma attempt_keeps: "seen k s \<Longrightarrow> seen k (attempt deliver e s)"
  using keeps by (auto simp: attempt_def split: sum.splits)

lemma fold_keeps: "seen k s \<Longrightarrow> seen k (fold (attempt deliver) es s)"
  by (induction es arbitrary: s) (simp_all add: attempt_keeps)

text \<open>Once an event was delivered, delivering it again changes nothing, whatever was attempted
  in between.\<close>

lemma redelivery:
  assumes "deliver e s = Inr s1" "key e' = key e"
  shows "deliver e' (fold (attempt deliver) es s1) = Inr (fold (attempt deliver) es s1)"
  using again [of e'] fold_keeps [OF applied [OF assms(1)]] assms(2) by simp

text \<open>Repetitions of delivered events can be dropped from a sequence of attempts.\<close>

lemma drop_repeated:
  assumes "\<forall>e\<in>set es'. seen (key e) s"
  shows "fold (attempt deliver) es' s = s"
  using assms
proof (induction es')
  case (Cons e es')
  then have "attempt deliver e s = s" using again by (simp add: attempt_def)
  with Cons show ?case by simp
qed simp

end

section \<open>Leases\<close>

text \<open>
  A work queue whose entries are taken under a lease: \<open>take\<close> hands out an entry under a new
  token, \<open>ack\<close> acknowledges with the token it was handed out under and tells whether it held.
\<close>

locale lease =
  fixes acquire :: "'e \<Rightarrow> 's \<Rightarrow> ('s \<times> 'i \<times> 'tok) option"
    and ack :: "'e \<Rightarrow> 'i \<Rightarrow> 'tok \<Rightarrow> 's \<Rightarrow> 's \<times> bool"
    and holder :: "'s \<Rightarrow> 'i \<Rightarrow> 'tok option"
    and finished :: "'s \<Rightarrow> 'i \<Rightarrow> bool"
    and good :: "'s \<Rightarrow> bool"
  assumes acquired: "good s \<Longrightarrow> acquire e s = Some (s', i, k) \<Longrightarrow>
      good s' \<and> holder s' i = Some k \<and> \<not> finished s i \<and> \<not> finished s' i"
    and acquire_others: "good s \<Longrightarrow> acquire e s = Some (s', i, k) \<Longrightarrow> j \<noteq> i \<Longrightarrow>
      holder s' j = holder s j \<and> finished s' j = finished s j"
    and ack_held: "good s \<Longrightarrow> holder s i = Some k \<Longrightarrow> \<not> finished s i \<Longrightarrow>
      snd (ack e i k s) \<and> finished (fst (ack e i k s)) i \<and> good (fst (ack e i k s))"
    and ack_void: "good s \<Longrightarrow> holder s i \<noteq> Some k \<Longrightarrow> ack e i k s = (s, False)"
begin

text \<open>After an entry was handed out again under another token, the first worker's
  acknowledgement changes nothing and is reported void; the second worker's counts.\<close>

lemma superseded_ack_void:
  assumes "good s" "acquire e1 s = Some (s1, i, k1)" "good s2" "acquire e2 s2 = Some (s3, i, k2)" "k1 \<noteq> k2"
  shows "ack e i k1 s3 = (s3, False) \<and> snd (ack e' i k2 s3) \<and> finished (fst (ack e' i k2 s3)) i"
proof -
  from acquired [OF assms(3,4)] have h: "good s3" "holder s3 i = Some k2" "\<not> finished s3 i" by auto
  with assms(5) have "holder s3 i \<noteq> Some k1" by simp
  with ack_void [OF h(1) this] ack_held [OF h] show ?thesis by blast
qed

end

end
