(* ===== verification/OutboxQueries.thy ===== *)
theory OutboxQueries
  imports Delivery Queries EventBus
begin

text \<open>
  The SQL statements of the outbox worker and of the lifecycle projections
  (\<^verbatim>\<open>server/pkg/db/queries/lifecycle_outbox.sql\<close>, \<^verbatim>\<open>comment.sql\<close>, \<^verbatim>\<open>metrics.sql\<close>, and the trace
  statements of \<^verbatim>\<open>server/pkg/traces/service.go\<close>), with the two contracts of \<open>Delivery\<close>
  discharged on them.
\<close>

section \<open>The outbox as a leased queue\<close>

definition seconds :: "int \<Rightarrow> int" where
  "seconds n = n * 1000000000"

definition open_event :: "outbox_row \<Rightarrow> bool" where
  "open_event v \<longleftrightarrow> ob_processed_at v = None \<and> ob_dead_at v = None"

text \<open>\<^verbatim>\<open>(a.created_at, a.id) < (b.created_at, b.id)\<close>\<close>

definition event_before :: "outbox_row \<Rightarrow> outbox_row \<Rightarrow> bool" where
  "event_before a b \<longleftrightarrow> ob_created_at a < ob_created_at b \<or>
     ob_created_at a = ob_created_at b \<and> ob_id a < ob_id b"

definition event_claimable :: "env \<Rightarrow> db \<Rightarrow> outbox_row \<Rightarrow> bool" where
  "event_claimable e d v \<longleftrightarrow> open_event v \<and> ob_available_at v \<le> e_now e \<and>
     (case ob_locked_at v of None \<Rightarrow> True | Some t \<Rightarrow> t < e_now e - seconds 30) \<and>
     \<not> (\<exists>a\<in>set (outbox d). ob_work_item a = ob_work_item v \<and> open_event a \<and> event_before a v)"

definition leased_event :: "env \<Rightarrow> outbox_row \<Rightarrow> outbox_row" where
  "leased_event e v = v\<lparr>ob_locked_at := Some (e_now e), ob_lock_token := Some (e_gen e 0),
     ob_attempts := ob_attempts v + 1, ob_last_error := None\<rparr>"

definition claim_lifecycle_outbox_event :: "env \<Rightarrow> db \<Rightarrow> (db \<times> outbox_row) res" where
  "claim_lifecycle_outbox_event e d =
     (case first_by event_before (filter (\<lambda>v. event_claimable e d v \<and> \<not> e_locked e (ob_id v)) (outbox d)) of
        None \<Rightarrow> Inl ErrNoRows
      | Some v \<Rightarrow> Inr (d\<lparr>outbox := upd_where (\<lambda>x. ob_id x = ob_id v) (leased_event e) (outbox d)\<rparr>, leased_event e v))"

text \<open>The row a worker still holds: the same token, not processed.\<close>

definition held :: "uuid \<Rightarrow> uuid option \<Rightarrow> outbox_row \<Rightarrow> bool" where
  "held i k v \<longleftrightarrow> ob_id v = i \<and> k \<noteq> None \<and> ob_lock_token v = k \<and> ob_processed_at v = None"

definition processed_event :: "env \<Rightarrow> outbox_row \<Rightarrow> outbox_row" where
  "processed_event e v = v\<lparr>ob_processed_at := Some (e_now e), ob_locked_at := None, ob_lock_token := None,
     ob_last_error := None\<rparr>"

definition mark_lifecycle_outbox_event_processed :: "env \<Rightarrow> db \<Rightarrow> uuid \<Rightarrow> uuid option \<Rightarrow> db \<times> nat" where
  "mark_lifecycle_outbox_event_processed e d i k =
     (d\<lparr>outbox := upd_where (held i k) (processed_event e) (outbox d)\<rparr>, length (filter (held i k) (outbox d)))"

text \<open>\<^verbatim>\<open>LEAST(300, 1 << LEAST(attempts, 8))\<close> seconds; dead after the twentieth attempt.\<close>

definition backoff_secs :: "nat \<Rightarrow> int" where
  "backoff_secs n = min 300 (2 ^ min n 8)"

definition released_event :: "env \<Rightarrow> string \<Rightarrow> outbox_row \<Rightarrow> outbox_row" where
  "released_event e msg v = v\<lparr>ob_locked_at := None, ob_lock_token := None,
     ob_available_at := e_now e + seconds (backoff_secs (ob_attempts v)),
     ob_dead_at := (if 20 \<le> ob_attempts v then Some (e_now e) else None), ob_last_error := Some msg\<rparr>"

definition release_lifecycle_outbox_event :: "env \<Rightarrow> db \<Rightarrow> uuid \<Rightarrow> uuid option \<Rightarrow> string \<Rightarrow> db \<times> nat" where
  "release_lifecycle_outbox_event e d i k msg =
     (d\<lparr>outbox := upd_where (held i k) (released_event e msg) (outbox d)\<rparr>, length (filter (held i k) (outbox d)))"

definition count_pending_lifecycle_outbox_events :: "db \<Rightarrow> nat" where
  "count_pending_lifecycle_outbox_events d = length (filter open_event (outbox d))"

section \<open>Facts about claims and acknowledgements\<close>

lemma leased_event_simps [simp]:
  "ob_id (leased_event e v) = ob_id v" "ob_work_item (leased_event e v) = ob_work_item v"
  "open_event (leased_event e v) = open_event v" "ob_processed_at (leased_event e v) = ob_processed_at v"
  "ob_dead_at (leased_event e v) = ob_dead_at v" "ob_lock_token (leased_event e v) = Some (e_gen e 0)"
  "ob_attempts (leased_event e v) = Suc (ob_attempts v)" "ob_created_at (leased_event e v) = ob_created_at v"
  "ob_type (leased_event e v) = ob_type v" "ob_version (leased_event e v) = ob_version v"
  "ob_run (leased_event e v) = ob_run v"
  by (simp_all add: leased_event_def open_event_def)

lemma processed_event_simps [simp]:
  "ob_id (processed_event e v) = ob_id v" "ob_work_item (processed_event e v) = ob_work_item v"
  "\<not> open_event (processed_event e v)" "ob_processed_at (processed_event e v) = Some (e_now e)"
  "ob_lock_token (processed_event e v) = None"
  by (simp_all add: processed_event_def open_event_def)

lemma released_event_simps [simp]:
  "ob_id (released_event e m v) = ob_id v" "ob_work_item (released_event e m v) = ob_work_item v"
  "ob_processed_at (released_event e m v) = ob_processed_at v" "ob_lock_token (released_event e m v) = None"
  "ob_attempts (released_event e m v) = ob_attempts v"
  by (simp_all add: released_event_def)

lemma event_before_order:
  "event_before a b \<Longrightarrow> \<not> event_before b a" "\<not> event_before a b \<Longrightarrow> \<not> event_before b c \<Longrightarrow> \<not> event_before a c"
  by (auto simp: event_before_def)

lemma claim_event_Inr:
  assumes "claim_lifecycle_outbox_event e d = Inr (d', v')"
  obtains v where "v \<in> set (outbox d)" "event_claimable e d v" "\<not> e_locked e (ob_id v)" "v' = leased_event e v"
    "d' = d\<lparr>outbox := upd_where (\<lambda>x. ob_id x = ob_id v) (leased_event e) (outbox d)\<rparr>"
    "\<And>x. x \<in> set (outbox d) \<Longrightarrow> event_claimable e d x \<Longrightarrow> \<not> e_locked e (ob_id x) \<Longrightarrow> \<not> event_before x v"
proof -
  let ?c = "filter (\<lambda>v. event_claimable e d v \<and> \<not> e_locked e (ob_id v)) (outbox d)"
  obtain v where v: "first_by event_before ?c = Some v" "v' = leased_event e v"
      "d' = d\<lparr>outbox := upd_where (\<lambda>x. ob_id x = ob_id v) (leased_event e) (outbox d)\<rparr>"
    using assms by (auto simp: claim_lifecycle_outbox_event_def split: option.splits)
  have "\<not> event_before x v" if "x \<in> set ?c" for x
    using first_by_least [OF v(1) that event_before_order] .
  with v first_by_in [OF v(1)] that show ?thesis by auto
qed

lemma claim_event_none:
  "claim_lifecycle_outbox_event e d = Inl err \<longleftrightarrow>
     err = ErrNoRows \<and> (\<forall>v\<in>set (outbox d). event_claimable e d v \<longrightarrow> e_locked e (ob_id v))"
proof (cases "first_by event_before (filter (\<lambda>v. event_claimable e d v \<and> \<not> e_locked e (ob_id v)) (outbox d))")
  case None
  then show ?thesis by (auto simp: claim_lifecycle_outbox_event_def filter_empty_conv)
next
  case (Some v)
  then have "v \<in> set (outbox d)" "event_claimable e d v" "\<not> e_locked e (ob_id v)" by (auto dest: first_by_in)
  with Some show ?thesis by (auto simp: claim_lifecycle_outbox_event_def)
qed

text \<open>Under distinct event ids the row a worker holds is unique.\<close>

lemma held_unique:
  assumes "distinct (map ob_id rows)" "v \<in> set rows" "held (ob_id v) k v"
  shows "length (filter (held (ob_id v) k) rows) = 1"
proof -
  have inj: "x = v" if "x \<in> set rows" "held (ob_id v) k x" for x
    using that assms(1,2) by (auto simp: held_def distinct_map inj_on_def)
  have "distinct rows" using assms(1) by (simp add: distinct_map)
  then have "length (filter (held (ob_id v) k) rows) = card {x \<in> set rows. held (ob_id v) k x}"
    by (metis distinct_card distinct_filter set_filter)
  also have "{x \<in> set rows. held (ob_id v) k x} = {v}" using inj assms(2,3) by auto
  finally show ?thesis by simp
qed

lemma held_none: "(\<And>v. v \<in> set rows \<Longrightarrow> \<not> held i k v) \<Longrightarrow> upd_where (held i k) f rows = rows \<and> filter (held i k) rows = []"
  by (simp add: upd_where_id filter_empty_conv)

section \<open>The outbox satisfies the lease contract\<close>

definition lease_acquire :: "env \<Rightarrow> db \<Rightarrow> (db \<times> uuid \<times> uuid) option" where
  "lease_acquire e d = (case claim_lifecycle_outbox_event e d of
     Inl _ \<Rightarrow> None | Inr (d', v) \<Rightarrow> Some (d', ob_id v, e_gen e 0))"

definition lease_ack :: "env \<Rightarrow> uuid \<Rightarrow> uuid \<Rightarrow> db \<Rightarrow> db \<times> bool" where
  "lease_ack e i k d = (case mark_lifecycle_outbox_event_processed e d i (Some k) of (d', n) \<Rightarrow> (d', n = 1))"

definition lease_holder :: "db \<Rightarrow> uuid \<Rightarrow> uuid option" where
  "lease_holder d i = (case select_one (\<lambda>v. ob_id v = i) (outbox d) of Inl _ \<Rightarrow> None | Inr v \<Rightarrow> ob_lock_token v)"

definition lease_finished :: "db \<Rightarrow> uuid \<Rightarrow> bool" where
  "lease_finished d i = (case select_one (\<lambda>v. ob_id v = i) (outbox d) of Inl _ \<Rightarrow> False | Inr v \<Rightarrow> ob_processed_at v \<noteq> None)"

definition distinct_events :: "db \<Rightarrow> bool" where
  "distinct_events d \<longleftrightarrow> distinct (map ob_id (outbox d))"

lemma select_event: "distinct_events d \<Longrightarrow> v \<in> set (outbox d) \<Longrightarrow> select_one (\<lambda>x. ob_id x = ob_id v) (outbox d) = Inr v"
  unfolding distinct_events_def by (rule select_one_key [where key = ob_id]) auto

lemma distinct_events_upd:
  "distinct_events d \<Longrightarrow> (\<And>v. ob_id (f v) = ob_id v) \<Longrightarrow> distinct_events (d\<lparr>outbox := upd_where P f (outbox d)\<rparr>)"
  by (simp add: distinct_events_def map_upd_where)

lemma lease_view_upd:
  assumes "\<And>v. ob_id (f v) = ob_id v"
  shows "select_one (\<lambda>x. ob_id x = i) (upd_where P f rows)
    = map_sum id (\<lambda>r. if P r then f r else r) (select_one (\<lambda>x. ob_id x = i) rows)"
  by (rule select_one_upd_where) (simp add: assms)

lemma lease_acquired:
  assumes "distinct_events d" "lease_acquire e d = Some (d', i, k)"
  shows "distinct_events d' \<and> lease_holder d' i = Some k \<and> \<not> lease_finished d i \<and> \<not> lease_finished d' i"
    and "j \<noteq> i \<Longrightarrow> lease_holder d' j = lease_holder d j \<and> lease_finished d' j = lease_finished d j"
proof -
  obtain v' where cl: "claim_lifecycle_outbox_event e d = Inr (d', v')" "i = ob_id v'" "k = e_gen e 0"
    using assms(2) by (auto simp: lease_acquire_def split: sum.splits)
  from cl(1) obtain v where v: "v \<in> set (outbox d)" "event_claimable e d v" "v' = leased_event e v"
    "d' = d\<lparr>outbox := upd_where (\<lambda>x. ob_id x = ob_id v) (leased_event e) (outbox d)\<rparr>"
    by (rule claim_event_Inr)
  have i: "i = ob_id v" using cl(2) v(3) by simp
  have sel: "select_one (\<lambda>x. ob_id x = i) (outbox d) = Inr v" using select_event [OF assms(1) v(1)] i by simp
  have "\<not> lease_finished d i" using sel v(2) by (simp add: lease_finished_def event_claimable_def open_event_def)
  moreover have sel': "select_one (\<lambda>x. ob_id x = j) (outbox d')
      = map_sum id (\<lambda>r. if ob_id r = i then leased_event e r else r) (select_one (\<lambda>x. ob_id x = j) (outbox d))" for j
    unfolding v(4) i by (simp add: lease_view_upd)
  moreover have "distinct_events d'" unfolding v(4) using assms(1) by (intro distinct_events_upd) simp_all
  ultimately show "distinct_events d' \<and> lease_holder d' i = Some k \<and> \<not> lease_finished d i \<and> \<not> lease_finished d' i"
    using sel i cl(3) by (simp add: lease_holder_def lease_finished_def)
  assume "j \<noteq> i"
  then show "lease_holder d' j = lease_holder d j \<and> lease_finished d' j = lease_finished d j"
    using sel' [of j] by (auto simp: lease_holder_def lease_finished_def dest: select_one_Inr split: sum.splits)
qed

lemma lease_acked:
  assumes "distinct_events d" "lease_holder d i = Some k" "\<not> lease_finished d i"
  shows "snd (lease_ack e i k d) \<and> lease_finished (fst (lease_ack e i k d)) i \<and> distinct_events (fst (lease_ack e i k d))"
proof -
  obtain v where v: "select_one (\<lambda>x. ob_id x = i) (outbox d) = Inr v" "ob_lock_token v = Some k" "ob_processed_at v = None"
    using assms(2,3) by (auto simp: lease_holder_def lease_finished_def split: sum.splits)
  from select_one_Inr [OF v(1)] have in_v: "v \<in> set (outbox d)" "ob_id v = i" by auto
  with v have h: "held (ob_id v) (Some k) v" by (simp add: held_def)
  have "length (filter (held i (Some k)) (outbox d)) = 1"
    using held_unique [OF _ in_v(1) h] assms(1) in_v(2) by (simp add: distinct_events_def)
  moreover have "distinct_events (fst (lease_ack e i k d))"
    using assms(1) by (simp add: lease_ack_def mark_lifecycle_outbox_event_processed_def distinct_events_upd)
  ultimately show ?thesis using v h in_v(2)
    by (simp add: lease_ack_def mark_lifecycle_outbox_event_processed_def lease_finished_def lease_view_upd)
qed

lemma lease_void:
  assumes "distinct_events d" "lease_holder d i \<noteq> Some k"
  shows "lease_ack e i k d = (d, False)"
proof -
  have "\<not> held i (Some k) v" if "v \<in> set (outbox d)" for v
    using assms select_event [OF assms(1) that] by (auto simp: held_def lease_holder_def)
  then show ?thesis
    by (simp add: lease_ack_def mark_lifecycle_outbox_event_processed_def held_none)
qed

interpretation outbox_lease: lease lease_acquire lease_ack lease_holder lease_finished distinct_events
  using lease_acquired lease_acked lease_void by unfold_locales blast+

section \<open>Rows written once\<close>

record comment_params =
  cq_issue :: uuid
  cq_workspace :: uuid
  cq_author_type :: string
  cq_author :: uuid
  cq_content :: string
  cq_type :: string
  cq_event :: uuid
  cq_parent :: "uuid option"

definition new_comment :: "env \<Rightarrow> comment_params \<Rightarrow> comment_row" where
  "new_comment e p = \<lparr>cm_id = e_gen e 0, cm_issue = cq_issue p, cm_workspace = cq_workspace p,
     cm_author_type = cq_author_type p, cm_author = cq_author p, cm_content = cq_content p,
     cm_type = cq_type p, cm_created_at = e_now e, cm_parent = cq_parent p, cm_event = Some (cq_event p)\<rparr>"

text \<open>The primary key, the two check constraints and the foreign keys of a new comment.\<close>

definition comment_admitted :: "db \<Rightarrow> comment_row \<Rightarrow> bool" where
  "comment_admitted d c \<longleftrightarrow> cm_id c \<notin> cm_id ` set (comments d) \<and> cm_issue c \<in> is_id ` set (issues d) \<and>
     cm_author_type c \<in> {''member'', ''agent''} \<and>
     cm_type c \<in> {''comment'', ''status_change'', ''progress_update'', ''system''} \<and>
     (case cm_parent c of None \<Rightarrow> True | Some p \<Rightarrow> p \<in> cm_id ` set (comments d)) \<and>
     (case cm_event c of None \<Rightarrow> True | Some v \<Rightarrow> v \<in> ob_id ` set (outbox d))"

definition create_comment_for_lifecycle_event :: "env \<Rightarrow> db \<Rightarrow> comment_params \<Rightarrow> (db \<times> comment_row) res" where
  "create_comment_for_lifecycle_event e d p =
     (let c = new_comment e p in
      or_fail (insert_keyed (\<lambda>x. cm_event x = cm_event c) (comment_admitted d c) c (comments d))
        (\<lambda>(cs, r). Inr (d\<lparr>comments := cs\<rparr>, r)))"

definition get_comment_for_lifecycle_event :: "db \<Rightarrow> uuid \<Rightarrow> comment_row res" where
  "get_comment_for_lifecycle_event d v = select_one (\<lambda>c. cm_event c = Some v) (comments d)"

record metric_params =
  mq_workspace :: uuid
  mq_task :: uuid
  mq_issue :: uuid
  mq_run :: "uuid option"
  mq_provider :: string
  mq_model :: string
  mq_runtime_mode :: string
  mq_task_type :: string
  mq_priority :: string
  mq_status :: string
  mq_error_category :: pgtext
  mq_duration_ms :: i64
  mq_token_input :: i32
  mq_token_output :: i32

definition new_metric :: "env \<Rightarrow> metric_params \<Rightarrow> metric_row" where
  "new_metric e p = \<lparr>mt_id = e_gen e 0, mt_workspace = mq_workspace p, mt_task = mq_task p, mt_issue = mq_issue p,
     mt_run = mq_run p, mt_provider = mq_provider p, mt_model = mq_model p, mt_runtime_mode = mq_runtime_mode p,
     mt_task_type = mq_task_type p, mt_priority = mq_priority p, mt_status = mq_status p,
     mt_error_category = mq_error_category p, mt_duration_ms = mq_duration_ms p,
     mt_token_input = mq_token_input p, mt_token_output = mq_token_output p\<rparr>"

definition metric_admitted :: "db \<Rightarrow> metric_row \<Rightarrow> bool" where
  "metric_admitted d m \<longleftrightarrow> mt_id m \<notin> mt_id ` set (metrics d) \<and> mt_task m \<in> tk_id ` set (tasks d) \<and>
     mt_issue m \<in> is_id ` set (issues d) \<and> mt_runtime_mode m \<in> {''local'', ''cloud''} \<and>
     mt_task_type m \<in> {''feature'', ''bug'', ''refactor'', ''test'', ''docs'', ''other''} \<and>
     mt_status m \<in> {''completed'', ''failed'', ''cancelled'', ''timeout''} \<and>
     (case mt_run m of None \<Rightarrow> True | Some r \<Rightarrow> r \<in> rn_id ` set (runs d))"

definition insert_agent_task_metric :: "env \<Rightarrow> db \<Rightarrow> metric_params \<Rightarrow> (db \<times> metric_row) res" where
  "insert_agent_task_metric e d p =
     (let m = new_metric e p in
      or_fail (insert_keyed (\<lambda>x. mt_run m \<noteq> None \<and> mt_run x = mt_run m) (metric_admitted d m) m (metrics d))
        (\<lambda>(ms, r). Inr (d\<lparr>metrics := ms\<rparr>, r)))"

text \<open>Both statements are projections in the sense of \<open>Delivery\<close>: keyed by event and by Run.\<close>

definition deliver_comment :: "env \<times> comment_params \<Rightarrow> db \<Rightarrow> db res" where
  "deliver_comment ep d = map_sum id fst (create_comment_for_lifecycle_event (fst ep) d (snd ep))"

definition deliver_metric :: "env \<times> uuid \<times> metric_params \<Rightarrow> db \<Rightarrow> db res" where
  "deliver_metric ep d = (case ep of (e, r, p) \<Rightarrow> map_sum id fst (insert_agent_task_metric e d (p\<lparr>mq_run := Some r\<rparr>)))"

lemma new_comment_simps [simp]: "cm_event (new_comment e p) = Some (cq_event p)"
  by (simp add: new_comment_def)

lemma new_metric_simps [simp]: "mt_run (new_metric e p) = mq_run p"
  by (simp add: new_metric_def)

lemma create_comment_Inr:
  assumes "create_comment_for_lifecycle_event e d p = Inr (d', c)"
  shows "\<exists>cs. d' = d\<lparr>comments := cs\<rparr> \<and> set (comments d) \<subseteq> set cs \<and> c \<in> set cs \<and> cm_event c = Some (cq_event p)"
  using assms insert_keyed_mono insert_keyed_has
  by (fastforce simp: create_comment_for_lifecycle_event_def Let_def or_fail_Inr)

lemma create_comment_again:
  assumes "x \<in> set (comments d)" "cm_event x = Some (cq_event p)"
  shows "\<exists>c. create_comment_for_lifecycle_event e d p = Inr (d, c)"
proof -
  obtain c where "insert_keyed (\<lambda>x. cm_event x = Some (cq_event p)) (comment_admitted d (new_comment e p))
      (new_comment e p) (comments d) = Inr (comments d, c)"
    using insert_keyed_again [OF assms(1), of "\<lambda>x. cm_event x = Some (cq_event p)"] assms(2) by blast
  then show ?thesis by (simp add: create_comment_for_lifecycle_event_def)
qed

lemma insert_metric_Inr:
  assumes "insert_agent_task_metric e d p = Inr (d', m)" "mq_run p = Some r"
  shows "\<exists>ms. d' = d\<lparr>metrics := ms\<rparr> \<and> set (metrics d) \<subseteq> set ms \<and> m \<in> set ms \<and> mt_run m = Some r"
  using assms insert_keyed_mono insert_keyed_has
  by (fastforce simp: insert_agent_task_metric_def Let_def or_fail_Inr)

lemma insert_metric_again:
  assumes "x \<in> set (metrics d)" "mt_run x = Some r" "mq_run p = Some r"
  shows "\<exists>m. insert_agent_task_metric e d p = Inr (d, m)"
proof -
  obtain m where "insert_keyed (\<lambda>x. mt_run x = Some r) (metric_admitted d (new_metric e p))
      (new_metric e p) (metrics d) = Inr (metrics d, m)"
    using insert_keyed_again [OF assms(1), of "\<lambda>x. mt_run x = Some r"] assms(2) by blast
  with assms(3) show ?thesis by (simp add: insert_agent_task_metric_def)
qed

lemma map_sum_fst_Inr: "map_sum id fst r = Inr d \<longleftrightarrow> (\<exists>x. r = Inr (d, x))"
  by (cases r) auto

interpretation comment_projection:
  projection deliver_comment "\<lambda>(e, p). cq_event p" "\<lambda>v d. Some v \<in> cm_event ` set (comments d)"
proof (unfold_locales, goal_cases)
  case (1 ep s s')
  then show ?case by (cases ep) (force simp: deliver_comment_def map_sum_fst_Inr dest: create_comment_Inr)
next
  case (2 ep s)
  then show ?case
    by (cases ep) (use create_comment_again in \<open>fastforce simp: deliver_comment_def map_sum_fst_Inr\<close>)
next
  case (3 k s ep s')
  then show ?case by (force simp: deliver_comment_def map_sum_fst_Inr dest: create_comment_Inr)
qed

interpretation metric_projection:
  projection deliver_metric "\<lambda>(e, r, p). r" "\<lambda>r d. Some r \<in> mt_run ` set (metrics d)"
proof (unfold_locales, goal_cases)
  case (1 ep s s')
  then show ?case by (cases ep) (force simp: deliver_metric_def map_sum_fst_Inr dest: insert_metric_Inr)
next
  case (2 ep s)
  then show ?case
    using insert_metric_again
    by (cases ep) (auto simp: deliver_metric_def map_sum_fst_Inr, metis metric_params.select_convs(4) metric_params.surjective metric_params.update_convs(4))
next
  case (3 k s ep s')
  then show ?case by (cases ep) (force simp: deliver_metric_def map_sum_fst_Inr dest: insert_metric_Inr)
qed

section \<open>Closing an execution trace\<close>

text \<open>\<^verbatim>\<open>TraceService.EndTrace\<close>: \<^verbatim>\<open>UPDATE ... WHERE id = $1 AND status = 'running' RETURNING id, status\<close>.\<close>

definition trace_running :: "uuid \<Rightarrow> trace_row \<Rightarrow> bool" where
  "trace_running i x \<longleftrightarrow> xt_id x = i \<and> xt_status x = ''running''"

definition end_trace :: "env \<Rightarrow> db \<Rightarrow> uuid \<Rightarrow> string \<Rightarrow> db res" where
  "end_trace e d i st =
     or_wrap ''end trace'' (select_one (trace_running i) (xtraces d))
       (\<lambda>_. Inr (d\<lparr>xtraces := upd_where (trace_running i) (\<lambda>x. x\<lparr>xt_status := st, xt_end := Some (e_now e)\<rparr>) (xtraces d)\<rparr>))"

end
