(* ===== verification/OutboxWorker.thy ===== *)
theory OutboxWorker
  imports OutboxQueries TaskService
begin

text \<open>
  \<^verbatim>\<open>server/internal/service/lifecycle_outbox.go\<close>: the worker that claims lifecycle facts from the
  outbox, projects them into comments, metrics, traces and bus events, and acknowledges them
  under its fencing token. The statements of a projection are not one transaction: an error
  returns the world as the statements before it left it. \<open>es k\<close> is the environment of the
  \<open>k\<close>-th statement. The text filters (\<^verbatim>\<open>redact.Text\<close>, \<^verbatim>\<open>mention.ExpandIssueIdentifiers\<close>) are
  parameters of the worker.
\<close>

record worker =
  wk_queries :: bool
  wk_bus :: bool
  wk_trace :: bool
  wk_codec :: codec
  wk_redact :: "string \<Rightarrow> string"
  wk_expand :: "db \<Rightarrow> uuid \<Rightarrow> string \<Rightarrow> string"

section \<open>The projections\<close>

definition worker_reconcile :: "worker \<Rightarrow> env \<Rightarrow> world \<Rightarrow> uuid option \<Rightarrow> world" where
  "worker_reconcile wk e w a =
     (case update_agent_status_stmt e (w_db w) a (if 0 < count_running_tasks (w_db w) a then ''working'' else ''idle'') of
        Inl _ \<Rightarrow> w
      | Inr (d, agent) \<Rightarrow>
          if wk_bus wk then emit (agent_status_event (wk_codec wk) agent) (with_db w d) else with_db w d)"

definition publish_task_event :: "worker \<Rightarrow> world \<Rightarrow> outbox_row \<Rightarrow> uuid \<Rightarrow> task_row \<Rightarrow> string \<Rightarrow> string \<Rightarrow> unit io" where
  "publish_task_event wk w v ws t ty st =
     (if \<not> wk_bus wk then (w, Inr ())
      else let base = [(''task_id'', JStr (uuid_text (tk_id t))), (''agent_id'', JStr (uuid_text (tk_agent t))),
                       (''issue_id'', JStr (uuid_text (tk_issue t))), (''status'', JStr st)];
               payload = (case ob_run v of None \<Rightarrow> base | Some r \<Rightarrow> jset ''run_id'' (JStr (uuid_text r)) base)
           in (emit \<lparr>ev_id = uuid_text (ob_id v), ev_type = ty, ev_workspace = uuid_text ws,
                     ev_actor_type = ''system'', ev_actor = '''', ev_payload = JObj payload\<rparr> w, Inr ()))"

definition comment_created_event :: "worker \<Rightarrow> uuid \<Rightarrow> issue_row \<Rightarrow> task_row \<Rightarrow> comment_row \<Rightarrow> event" where
  "comment_created_event wk v i t c =
     \<lparr>ev_id = uuid_text v, ev_type = ''comment:created'', ev_workspace = uuid_text (is_workspace i),
      ev_actor_type = ''agent'', ev_actor = uuid_text (tk_agent t),
      ev_payload = JObj [(''comment'', JObj [(''id'', JStr (uuid_text (cm_id c))), (''issue_id'', JStr (uuid_text (cm_issue c))),
          (''author_type'', JStr (cm_author_type c)), (''author_id'', JStr (uuid_text (cm_author c))),
          (''content'', JStr (cm_content c)), (''type'', JStr (cm_type c)), (''parent_id'', uuid_to_ptr (cm_parent c)),
          (''created_at'', JStr (cd_time (wk_codec wk) (cm_created_at c)))]),
        (''issue_title'', JStr (is_title i)), (''issue_status'', JStr (is_status i))]\<rparr>"

definition create_lifecycle_comment ::
    "worker \<Rightarrow> env \<Rightarrow> world \<Rightarrow> uuid \<Rightarrow> issue_row \<Rightarrow> task_row \<Rightarrow> string \<Rightarrow> string \<Rightarrow> unit io" where
  "create_lifecycle_comment wk e w v i t content ty =
     (let p = \<lparr>cq_issue = is_id i, cq_workspace = is_workspace i, cq_author_type = ''agent'', cq_author = tk_agent t,
               cq_content = wk_expand wk (w_db w) (is_workspace i) content, cq_type = ty, cq_event = v,
               cq_parent = tk_trigger_comment t\<rparr>
      in case create_comment_for_lifecycle_event e (w_db w) p of
           Inl err \<Rightarrow> (w, Inl (ErrWrap ''project lifecycle comment'' err))
         | Inr (d, c) \<Rightarrow>
             (if wk_bus wk \<and> ty = ''comment'' then emit (comment_created_event wk v i t c) (with_db w d)
              else with_db w d, Inr ()))"

definition project_completion_comment ::
    "worker \<Rightarrow> env \<Rightarrow> world \<Rightarrow> outbox_row \<Rightarrow> issue_row \<Rightarrow> task_row \<Rightarrow> run_row \<Rightarrow> unit io" where
  "project_completion_comment wk e w v i t r =
     (case (tk_trigger_comment t, rn_output r) of
        (None, Some out) \<Rightarrow>
          (case cd_completed (wk_codec wk) out of
             (p, ok) \<Rightarrow> if \<not> ok \<or> cp_output p = '''' then (w, Inr ())
                       else create_lifecycle_comment wk e w (ob_id v) i t (wk_redact wk (cp_output p)) ''comment'')
      | _ \<Rightarrow> (w, Inr ()))"

definition project_failure_comment ::
    "worker \<Rightarrow> env \<Rightarrow> world \<Rightarrow> outbox_row \<Rightarrow> issue_row \<Rightarrow> task_row \<Rightarrow> pgtext \<Rightarrow> unit io" where
  "project_failure_comment wk e w v i t msg =
     (case msg of
        None \<Rightarrow> (w, Inr ())
      | Some m \<Rightarrow> if m = '''' then (w, Inr ())
                 else create_lifecycle_comment wk e w (ob_id v) i t (wk_redact wk m) ''system'')"

definition metric_of :: "worker \<Rightarrow> db \<Rightarrow> outbox_row \<Rightarrow> issue_row \<Rightarrow> task_row \<Rightarrow> run_row \<Rightarrow> string \<Rightarrow> metric_params" where
  "metric_of wk d v i t r st =
     (let (ti, tr) = (case rn_output r of None \<Rightarrow> (0, 0) | Some out \<Rightarrow> payload_tokens (fst (cd_completed (wk_codec wk) out)));
          (provider, model) = resolve_agent_provider d (Some (tk_agent t))
      in \<lparr>mq_workspace = is_workspace i, mq_task = tk_id t, mq_issue = tk_issue t, mq_run = ob_run v,
          mq_provider = provider, mq_model = model, mq_runtime_mode = ''local'',
          mq_task_type = normalize_metric_task_type (tk_task_type t), mq_priority = is_priority i, mq_status = st,
          mq_error_category = rn_error r,
          mq_duration_ms = (case rn_duration_ms r of None \<Rightarrow> 0 | Some x \<Rightarrow> scast x),
          mq_token_input = clamp_int32 ti, mq_token_output = clamp_int32 tr\<rparr>)"

definition project_metric ::
    "worker \<Rightarrow> env \<Rightarrow> world \<Rightarrow> outbox_row \<Rightarrow> issue_row \<Rightarrow> task_row \<Rightarrow> run_row \<Rightarrow> string \<Rightarrow> unit io" where
  "project_metric wk e w v i t r st =
     (case insert_agent_task_metric e (w_db w) (metric_of wk (w_db w) v i t r st) of
        Inl err \<Rightarrow> (w, Inl (ErrWrap ''project lifecycle metric'' err))
      | Inr (d, _) \<Rightarrow> (with_db w d, Inr ()))"

definition trace_status :: "string \<Rightarrow> string" where
  "trace_status ty = (if ty = ev_completed then ''completed''
     else if ty = ev_failed \<or> ty = ev_retry then ''failed'' else if ty = ev_cancelled then ''aborted'' else '''')"

definition project_trace :: "worker \<Rightarrow> (nat \<Rightarrow> env) \<Rightarrow> world \<Rightarrow> string \<Rightarrow> task_row \<Rightarrow> run_row \<Rightarrow> unit io" where
  "project_trace wk es w ty t r =
     (if \<not> wk_trace wk then (w, Inr ())
      else case resolve_agent_provider (w_db w) (Some (tk_agent t)) of (provider, model) \<Rightarrow>
        (case start_trace (e_gen (es 0) 0) (e_wall (es 0)) (w_db w)
                \<lparr>rr_work_item = Some (tk_id t), rr_run = Some (rn_id r)\<rparr> t provider model of
           Inl err \<Rightarrow> (w, Inl (ErrWrap ''ensure execution trace'' err))
         | Inr (d, x) \<Rightarrow>
             if trace_status ty = '''' \<or> xt_status x = trace_status ty then (with_db w d, Inr ())
             else (case end_trace (es 1) d (xt_id x) (trace_status ty) of
                     Inl err \<Rightarrow> (with_db w d, Inl (ErrWrap ''end execution trace'' err))
                   | Inr d' \<Rightarrow> (with_db w d', Inr ()))))"

section \<open>One event\<close>

definition project_type ::
    "worker \<Rightarrow> (nat \<Rightarrow> env) \<Rightarrow> world \<Rightarrow> outbox_row \<Rightarrow> issue_row \<Rightarrow> task_row \<Rightarrow> run_row option \<Rightarrow> unit io" where
  "project_type wk es w v i t r =
     (let agent = Some (tk_agent t); ws = is_workspace i; ty = ob_type v;
          metric = (\<lambda>st w. case r of None \<Rightarrow> (w, Inr ()) | Some run \<Rightarrow> project_metric wk (es 4) w v i t run st)
      in if ty = ev_started \<or> ty = ev_checkpoint then (w, Inr ())
         else if ty = ev_completed then
           and_then (case r of None \<Rightarrow> (worker_reconcile wk (es 2) w agent, Inr ())
             | Some run \<Rightarrow> project_completion_comment wk (es 3) (worker_reconcile wk (es 2) w agent) v i t run) (\<lambda>w _.
           and_then (metric ''completed'' w) (\<lambda>w _. publish_task_event wk w v ws t ''task:completed'' ''completed''))
         else if ty = ev_failed then
           and_then (project_failure_comment wk (es 3) (worker_reconcile wk (es 2) w agent) v i t
               (case r of None \<Rightarrow> None | Some run \<Rightarrow> rn_error run)) (\<lambda>w _.
           and_then (metric ''failed'' w) (\<lambda>w _. publish_task_event wk w v ws t ''task:failed'' ''failed''))
         else if ty = ev_retry then
           and_then (metric ''failed'' (worker_reconcile wk (es 2) w agent)) (\<lambda>w _.
             publish_task_event wk w v ws t ''task:retry'' ''queued'')
         else if ty = ev_cancelled then
           and_then (metric ''cancelled'' (worker_reconcile wk (es 2) w agent)) (\<lambda>w _.
             publish_task_event wk w v ws t ''task:cancelled'' ''cancelled'')
         else if ty = ev_rejected then
           and_then (project_failure_comment wk (es 3) (worker_reconcile wk (es 2) w agent) v i t (tk_error t)) (\<lambda>w _.
             publish_task_event wk w v ws t ''task:failed'' ''failed'')
         else (w, Inl (ErrMsg (''unsupported lifecycle event type '' @ quoted ty))))"

definition project :: "worker \<Rightarrow> (nat \<Rightarrow> env) \<Rightarrow> world \<Rightarrow> outbox_row \<Rightarrow> unit io" where
  "project wk es w v =
     (if ob_version v \<noteq> lifecycle_event_version
      then (w, Inl (ErrMsg (''unsupported lifecycle event version '' @ itoa (ob_version v))))
      else case get_task (w_db w) (Some (ob_work_item v)) of
        Inl err \<Rightarrow> (w, Inl (ErrWrap ''load work item'' err))
      | Inr t \<Rightarrow> (case get_issue (w_db w) (Some (tk_issue t)) of
          Inl err \<Rightarrow> (w, Inl (ErrWrap ''load issue'' err))
        | Inr i \<Rightarrow>
            if ob_type v \<noteq> ev_cancelled \<and> ob_type v \<noteq> ev_rejected \<and> ob_run v = None
            then (w, Inl (ErrMsg (''lifecycle event '' @ quoted (ob_type v) @ '' requires a run id'')))
            else (case ob_run v of
                None \<Rightarrow> project_type wk es w v i t None
              | Some r \<Rightarrow> (case get_run (w_db w) (Some r) of
                    Inl err \<Rightarrow> (w, Inl (ErrWrap ''load run'' err))
                  | Inr run \<Rightarrow> and_then (project_trace wk es w (ob_type v) t run)
                      (\<lambda>w _. project_type wk es w v i t (Some run))))))"

definition process_claimed ::
    "worker \<Rightarrow> (go_error \<Rightarrow> string) \<Rightarrow> (nat \<Rightarrow> env) \<Rightarrow> world \<Rightarrow> outbox_row \<Rightarrow> unit io" where
  "process_claimed wk f es w v =
     (case project wk es w v of
        (w', Inl err) \<Rightarrow>
          (with_db w' (fst (release_lifecycle_outbox_event (es 5) (w_db w') (ob_id v) (ob_lock_token v) (error_text f err))),
           Inl err)
      | (w', Inr _) \<Rightarrow>
          (case mark_lifecycle_outbox_event_processed (es 5) (w_db w') (ob_id v) (ob_lock_token v) of
             (d, n) \<Rightarrow> (with_db w' d,
               if n \<noteq> 1 then Inl (ErrMsg ''lifecycle event lease lost before acknowledgement'') else Inr ())))"

definition process_next ::
    "worker \<Rightarrow> (go_error \<Rightarrow> string) \<Rightarrow> (nat \<Rightarrow> env) \<Rightarrow> world \<Rightarrow> world \<times> bool \<times> go_error option" where
  "process_next wk f es w =
     (if \<not> wk_queries wk then (w, False, Some ErrLifecycleUnavailable)
      else case claim_lifecycle_outbox_event (es 6) (w_db w) of
        Inl err \<Rightarrow> if error_is err ErrNoRows then (w, False, None) else (w, False, Some (ErrWrap ''claim lifecycle event'' err))
      | Inr (d, v) \<Rightarrow> (case process_claimed wk f es (with_db w d) v of
            (w', Inl err) \<Rightarrow> (w', True, Some err)
          | (w', Inr _) \<Rightarrow> (w', True, None)))"

section \<open>What a projection leaves alone\<close>

text \<open>The tables no projection writes; the projected tables only grow.\<close>

definition projects_only :: "db \<Rightarrow> db \<Rightarrow> bool" where
  "projects_only d d' \<longleftrightarrow> tasks d' = tasks d \<and> runs d' = runs d \<and> issues d' = issues d \<and> runtimes d' = runtimes d \<and>
     outbox d' = outbox d \<and> receipts d' = receipts d \<and> deliveries d' = deliveries d \<and> loops d' = loops d \<and>
     activities d' = activities d \<and> inbox d' = inbox d \<and> subscribers d' = subscribers d \<and> members d' = members d \<and>
     map ag_id (agents d') = map ag_id (agents d) \<and>
     set (comments d) \<subseteq> set (comments d') \<and> set (metrics d) \<subseteq> set (metrics d')"

lemma projects_only_refl [simp]: "projects_only d d"
  by (simp add: projects_only_def)

lemma projects_only_trans [trans]: "projects_only a b \<Longrightarrow> projects_only b c \<Longrightarrow> projects_only a c"
  by (auto simp: projects_only_def)

lemma update_agent_status_frame:
  assumes "update_agent_status_stmt e d a s = Inr (d', agent)"
  shows "\<exists>as. d' = d\<lparr>agents := as\<rparr> \<and> map ag_id as = map ag_id (agents d)"
proof -
  have "map ag_id (upd_where P (\<lambda>x. x\<lparr>ag_status := s, ag_updated_at := e_now e\<rparr>) (agents d)) = map ag_id (agents d)" for P
    by (rule map_upd_where) simp
  with assms show ?thesis by (auto simp: update_agent_status_stmt_def or_fail_Inr Let_def)
qed

lemma worker_reconcile_frame:
  "\<exists>as. w_db (worker_reconcile wk e w a) = (w_db w)\<lparr>agents := as\<rparr> \<and> map ag_id as = map ag_id (agents (w_db w))"
proof (cases "update_agent_status_stmt e (w_db w) a (if 0 < count_running_tasks (w_db w) a then ''working'' else ''idle'')")
  case (Inl err)
  then show ?thesis by (simp add: worker_reconcile_def exI [of _ "agents (w_db w)"])
next
  case (Inr x)
  with update_agent_status_frame show ?thesis
    by (cases x) (auto simp: worker_reconcile_def)
qed

lemma worker_reconcile_only: "projects_only (w_db w) (w_db (worker_reconcile wk e w a))"
  using worker_reconcile_frame [of wk e w a] by (auto simp: projects_only_def)

lemma create_lifecycle_comment_db:
  assumes "create_lifecycle_comment wk e w v i t content ty = (w', r)"
  shows "\<exists>cs. w_db w' = (w_db w)\<lparr>comments := cs\<rparr> \<and> set (comments (w_db w)) \<subseteq> set cs \<and>
    (is_ok r \<longrightarrow> Some v \<in> cm_event ` set cs)"
proof (cases "create_comment_for_lifecycle_event e (w_db w) \<lparr>cq_issue = is_id i, cq_workspace = is_workspace i,
    cq_author_type = ''agent'', cq_author = tk_agent t, cq_content = wk_expand wk (w_db w) (is_workspace i) content,
    cq_type = ty, cq_event = v, cq_parent = tk_trigger_comment t\<rparr>")
  case (Inl err)
  with assms show ?thesis
    by (auto simp: create_lifecycle_comment_def Let_def intro!: exI [of _ "comments (w_db w)"])
next
  case (Inr x)
  then obtain d c where x: "x = (d, c)" by (cases x)
  from create_comment_Inr [OF Inr [unfolded x]] obtain cs where
    "d = (w_db w)\<lparr>comments := cs\<rparr>" "set (comments (w_db w)) \<subseteq> set cs" "c \<in> set cs" "cm_event c = Some v" by auto
  with Inr x assms show ?thesis
    by (auto simp: create_lifecycle_comment_def Let_def intro!: exI [of _ cs] rev_image_eqI [of c])
qed

lemma project_metric_db:
  assumes "project_metric wk e w v i t r st = (w', res)" "ob_run v = Some run"
  shows "\<exists>ms. w_db w' = (w_db w)\<lparr>metrics := ms\<rparr> \<and> set (metrics (w_db w)) \<subseteq> set ms \<and>
    (is_ok res \<longrightarrow> Some run \<in> mt_run ` set ms)"
proof (cases "insert_agent_task_metric e (w_db w) (metric_of wk (w_db w) v i t r st)")
  case (Inl err)
  with assms show ?thesis by (auto simp: project_metric_def intro!: exI [of _ "metrics (w_db w)"])
next
  case (Inr x)
  then obtain d m where x: "x = (d, m)" by (cases x)
  have "mq_run (metric_of wk (w_db w) v i t r st) = Some run"
    using assms(2) by (simp add: metric_of_def split: prod.splits)
  from insert_metric_Inr [OF Inr [unfolded x] this] obtain ms where
    "d = (w_db w)\<lparr>metrics := ms\<rparr>" "set (metrics (w_db w)) \<subseteq> set ms" "m \<in> set ms" "mt_run m = Some run" by auto
  with Inr x assms show ?thesis
    by (auto simp: project_metric_def intro!: exI [of _ ms] rev_image_eqI [of m])
qed

section \<open>Projecting again\<close>

text \<open>Which rows an event owes.\<close>

definition comment_due :: "worker \<Rightarrow> outbox_row \<Rightarrow> task_row \<Rightarrow> run_row option \<Rightarrow> bool" where
  "comment_due wk v t r \<longleftrightarrow>
     (if ob_type v = ev_completed then
        (case r of None \<Rightarrow> False | Some run \<Rightarrow> tk_trigger_comment t = None \<and>
          (case rn_output run of None \<Rightarrow> False | Some out \<Rightarrow>
             snd (cd_completed (wk_codec wk) out) \<and> cp_output (fst (cd_completed (wk_codec wk) out)) \<noteq> ''''))
      else if ob_type v = ev_failed then
        (case r of None \<Rightarrow> False | Some run \<Rightarrow> rn_error run \<notin> {None, Some ''''})
      else ob_type v = ev_rejected \<and> tk_error t \<notin> {None, Some ''''})"

definition metric_due :: "outbox_row \<Rightarrow> run_row option \<Rightarrow> bool" where
  "metric_due v r \<longleftrightarrow> r \<noteq> None \<and> ob_type v \<in> {ev_completed, ev_failed, ev_retry, ev_cancelled}"

definition type_known :: "outbox_row \<Rightarrow> bool" where
  "type_known v \<longleftrightarrow> ob_type v \<in> {ev_started, ev_checkpoint, ev_completed, ev_failed, ev_retry, ev_cancelled, ev_rejected}"

definition rows_present :: "worker \<Rightarrow> db \<Rightarrow> outbox_row \<Rightarrow> task_row \<Rightarrow> run_row option \<Rightarrow> bool" where
  "rows_present wk d v t r \<longleftrightarrow> (comment_due wk v t r \<longrightarrow> Some (ob_id v) \<in> cm_event ` set (comments d)) \<and>
     (metric_due v r \<longrightarrow> ob_run v \<in> mt_run ` set (metrics d))"

lemma rows_present_mono:
  "rows_present wk d v t r \<Longrightarrow> set (comments d) \<subseteq> set (comments d') \<Longrightarrow> set (metrics d) \<subseteq> set (metrics d') \<Longrightarrow>
     rows_present wk d' v t r"
  by (auto simp: rows_present_def)

lemma create_lifecycle_comment_again:
  assumes "Some v \<in> cm_event ` set (comments (w_db w))"
  shows "\<exists>w'. create_lifecycle_comment wk e w v i t content ty = (w', Inr ()) \<and> w_db w' = w_db w"
proof -
  from assms obtain x where x: "x \<in> set (comments (w_db w))" "cm_event x = Some v" by force
  let ?p = "\<lparr>cq_issue = is_id i, cq_workspace = is_workspace i, cq_author_type = ''agent'', cq_author = tk_agent t,
     cq_content = wk_expand wk (w_db w) (is_workspace i) content, cq_type = ty, cq_event = v,
     cq_parent = tk_trigger_comment t\<rparr>"
  obtain c where "create_comment_for_lifecycle_event e (w_db w) ?p = Inr (w_db w, c)"
    using create_comment_again [OF x(1), of ?p] x(2) by auto
  then show ?thesis by (auto simp: create_lifecycle_comment_def Let_def)
qed

lemma project_metric_again:
  assumes "ob_run v \<in> mt_run ` set (metrics (w_db w))" "ob_run v = Some run"
  shows "project_metric wk e w v i t r st = (w, Inr ())"
proof -
  from assms obtain x where x: "x \<in> set (metrics (w_db w))" "mt_run x = Some run" by force
  have "mq_run (metric_of wk (w_db w) v i t r st) = Some run"
    using assms(2) by (simp add: metric_of_def split: prod.splits)
  from insert_metric_again [OF x this, of e] show ?thesis by (auto simp: project_metric_def)
qed

lemma publish_task_event_ok:
  "\<exists>w'. publish_task_event wk w v ws t ty st = (w', Inr ()) \<and> w_db w' = w_db w"
  by (simp add: publish_task_event_def Let_def)

lemma completion_comment_cases:
  "project_completion_comment wk e w v i t run =
     (if comment_due wk (v\<lparr>ob_type := ev_completed\<rparr>) t (Some run)
      then create_lifecycle_comment wk e w (ob_id v) i t
             (wk_redact wk (cp_output (fst (cd_completed (wk_codec wk) (the (rn_output run)))))) ''comment''
      else (w, Inr ()))"
  by (auto simp: project_completion_comment_def comment_due_def split: option.splits prod.splits)

lemma failure_comment_cases:
  "project_failure_comment wk e w v i t msg =
     (if msg \<notin> {None, Some ''''}
      then create_lifecycle_comment wk e w (ob_id v) i t (wk_redact wk (the msg)) ''system'' else (w, Inr ()))"
  by (auto simp: project_failure_comment_def split: option.splits)

text \<open>One projected comment and one projected metric, as steps of the frame.\<close>

definition step_ok :: "world \<Rightarrow> world \<Rightarrow> bool" where
  "step_ok w w' \<longleftrightarrow> projects_only (w_db w) (w_db w') \<and> xtraces (w_db w') = xtraces (w_db w)"

lemma step_ok_trans [trans]: "step_ok a b \<Longrightarrow> step_ok b c \<Longrightarrow> step_ok a c"
  unfolding step_ok_def using projects_only_trans by (metis (no_types))

lemma step_ok_refl [simp]: "step_ok w w"
  by (simp add: step_ok_def)

lemma step_ok_db: "w_db w' = w_db w \<Longrightarrow> step_ok w w'"
  by (simp add: step_ok_def)

lemma step_ok_reconcile: "step_ok w (worker_reconcile wk e w a)"
  using worker_reconcile_frame [of wk e w a] by (auto simp: step_ok_def projects_only_def)

lemma step_ok_comment: "create_lifecycle_comment wk e w v i t content ty = (w', r) \<Longrightarrow> step_ok w w'"
  by (drule create_lifecycle_comment_db) (auto simp: step_ok_def projects_only_def)

lemma step_ok_metric: "project_metric wk e w v i t r st = (w', res) \<Longrightarrow> ob_run v = Some run \<Longrightarrow> step_ok w w'"
  by (drule (1) project_metric_db) (auto simp: step_ok_def projects_only_def)

lemma step_ok_publish: "publish_task_event wk w v ws t ty st = (w', r) \<Longrightarrow> step_ok w w' \<and> r = Inr ()"
  using publish_task_event_ok [of wk w v ws t ty st] by (auto simp: step_ok_db)

lemma comment_step_ok:
  assumes "project_completion_comment wk e w v i t run = (w', Inr ())"
  shows "step_ok w w' \<and>
    (comment_due wk (v\<lparr>ob_type := ev_completed\<rparr>) t (Some run) \<longrightarrow> Some (ob_id v) \<in> cm_event ` set (comments (w_db w')))"
  using assms step_ok_comment [of wk e w "ob_id v"] create_lifecycle_comment_db [of wk e w "ob_id v"]
  by (fastforce simp: completion_comment_cases split: if_splits)

lemma failure_step_ok:
  assumes "project_failure_comment wk e w v i t msg = (w', Inr ())"
  shows "step_ok w w' \<and> (msg \<notin> {None, Some ''''} \<longrightarrow> Some (ob_id v) \<in> cm_event ` set (comments (w_db w')))"
  using assms step_ok_comment [of wk e w "ob_id v"] create_lifecycle_comment_db [of wk e w "ob_id v"]
  by (fastforce simp: failure_comment_cases split: if_splits)

lemma metric_step_ok:
  assumes "(case r of None \<Rightarrow> (w, Inr ()) | Some run \<Rightarrow> project_metric wk e w v i t run st) = (w', Inr ())"
    "r \<noteq> None \<longrightarrow> ob_run v \<noteq> None"
  shows "step_ok w w' \<and> (r \<noteq> None \<longrightarrow> ob_run v \<in> mt_run ` set (metrics (w_db w')))"
proof (cases r)
  case None
  with assms show ?thesis by simp
next
  case (Some run)
  then obtain k where k: "ob_run v = Some k" using assms(2) by auto
  with Some assms(1) project_metric_db [of wk e w v i t run st w' "Inr ()" k] step_ok_metric [of wk e w v i t run st w' "Inr ()" k]
  show ?thesis by auto
qed

lemma step_ok_comments: "step_ok w w' \<Longrightarrow> c \<in> cm_event ` set (comments (w_db w)) \<Longrightarrow> c \<in> cm_event ` set (comments (w_db w'))"
  by (auto simp: step_ok_def projects_only_def)

lemma step_ok_metrics: "step_ok w w' \<Longrightarrow> m \<in> mt_run ` set (metrics (w_db w)) \<Longrightarrow> m \<in> mt_run ` set (metrics (w_db w'))"
  by (auto simp: step_ok_def projects_only_def)

lemma type_cases:
  "type_known v \<Longrightarrow> ob_type v = ev_started \<or> ob_type v = ev_checkpoint \<or> ob_type v = ev_completed \<or> ob_type v = ev_failed \<or>
     ob_type v = ev_retry \<or> ob_type v = ev_cancelled \<or> ob_type v = ev_rejected"
  by (auto simp: type_known_def)

lemma ev_neqs [simp]:
  "ev_started \<noteq> ev_checkpoint" "ev_started \<noteq> ev_completed" "ev_started \<noteq> ev_failed" "ev_started \<noteq> ev_retry" "ev_started \<noteq> ev_cancelled" "ev_started \<noteq> ev_rejected"
  "ev_checkpoint \<noteq> ev_started" "ev_checkpoint \<noteq> ev_completed" "ev_checkpoint \<noteq> ev_failed" "ev_checkpoint \<noteq> ev_retry" "ev_checkpoint \<noteq> ev_cancelled" "ev_checkpoint \<noteq> ev_rejected"
  "ev_completed \<noteq> ev_started" "ev_completed \<noteq> ev_checkpoint" "ev_completed \<noteq> ev_failed" "ev_completed \<noteq> ev_retry" "ev_completed \<noteq> ev_cancelled" "ev_completed \<noteq> ev_rejected"
  "ev_failed \<noteq> ev_started" "ev_failed \<noteq> ev_checkpoint" "ev_failed \<noteq> ev_completed" "ev_failed \<noteq> ev_retry" "ev_failed \<noteq> ev_cancelled" "ev_failed \<noteq> ev_rejected"
  "ev_retry \<noteq> ev_started" "ev_retry \<noteq> ev_checkpoint" "ev_retry \<noteq> ev_completed" "ev_retry \<noteq> ev_failed" "ev_retry \<noteq> ev_cancelled" "ev_retry \<noteq> ev_rejected"
  "ev_cancelled \<noteq> ev_started" "ev_cancelled \<noteq> ev_checkpoint" "ev_cancelled \<noteq> ev_completed" "ev_cancelled \<noteq> ev_failed" "ev_cancelled \<noteq> ev_retry" "ev_cancelled \<noteq> ev_rejected"
  "ev_rejected \<noteq> ev_started" "ev_rejected \<noteq> ev_checkpoint" "ev_rejected \<noteq> ev_completed" "ev_rejected \<noteq> ev_failed" "ev_rejected \<noteq> ev_retry" "ev_rejected \<noteq> ev_cancelled"
  by (simp_all add: ev_defs)

lemma project_type_known: "project_type wk es w v i t r = (w', Inr ()) \<Longrightarrow> type_known v"
  by (auto simp: project_type_def type_known_def Let_def split: if_splits)

lemma metric_publish_ok:
  assumes "and_then (case r of None \<Rightarrow> (w, Inr ()) | Some run \<Rightarrow> project_metric wk e w v i t run st)
      (\<lambda>w _. publish_task_event wk w v ws t ty st') = (w', Inr ())"
    "r \<noteq> None \<longrightarrow> ob_run v \<noteq> None"
  shows "step_ok w w' \<and> (r \<noteq> None \<longrightarrow> ob_run v \<in> mt_run ` set (metrics (w_db w')))"
proof -
  obtain w1 where s: "(case r of None \<Rightarrow> (w, Inr ()) | Some run \<Rightarrow> project_metric wk e w v i t run st) = (w1, Inr ())"
    "publish_task_event wk w1 v ws t ty st' = (w', Inr ())"
    using assms(1) by (auto simp: and_then_Inr)
  from metric_step_ok [OF s(1) assms(2)] step_ok_publish [OF s(2)] show ?thesis
    by (auto intro: step_ok_trans step_ok_metrics)
qed

text \<open>A projection that succeeded left every row it owes.\<close>

lemma project_type_ok:
  assumes ok: "project_type wk es w v i t r = (w', Inr ())" and run: "r \<noteq> None \<longrightarrow> ob_run v \<noteq> None"
  shows "step_ok w w' \<and> rows_present wk (w_db w') v t r"
  using type_cases [OF project_type_known [OF ok]]
proof (elim disjE)
  assume ty: "ob_type v = ev_completed"
  let ?w0 = "worker_reconcile wk (es 2) w (Some (tk_agent t))"
  have same: "v\<lparr>ob_type := ev_completed\<rparr> = v" using ty by (cases v) simp
  obtain w1 w2 where s: "(case r of None \<Rightarrow> (?w0, Inr ()) | Some run \<Rightarrow> project_completion_comment wk (es 3) ?w0 v i t run) = (w1, Inr ())"
    "(case r of None \<Rightarrow> (w1, Inr ()) | Some run \<Rightarrow> project_metric wk (es 4) w1 v i t run ''completed'') = (w2, Inr ())"
    "publish_task_event wk w2 v (is_workspace i) t ''task:completed'' ''completed'' = (w', Inr ())"
    using ok ty by (auto simp: project_type_def Let_def and_then_Inr)
  have c: "step_ok ?w0 w1 \<and> (comment_due wk v t r \<longrightarrow> Some (ob_id v) \<in> cm_event ` set (comments (w_db w1)))"
    using s(1) comment_step_ok [of wk "es 3" ?w0 v i t _ w1] same ty by (cases r) (auto simp: comment_due_def)
  note m = metric_step_ok [OF s(2) run] and p = step_ok_publish [OF s(3)]
  have late: "step_ok w1 w'" using step_ok_trans m p by blast
  have "step_ok w w'" using step_ok_trans [OF step_ok_reconcile step_ok_trans [OF conjunct1 [OF c] late]] .
  with c m p late show ?thesis
    by (simp add: rows_present_def metric_due_def step_ok_comments step_ok_metrics)
next
  assume ty: "ob_type v = ev_failed"
  let ?w0 = "worker_reconcile wk (es 2) w (Some (tk_agent t))"
  obtain w1 w2 where s: "project_failure_comment wk (es 3) ?w0 v i t (case r of None \<Rightarrow> None | Some run \<Rightarrow> rn_error run) = (w1, Inr ())"
    "(case r of None \<Rightarrow> (w1, Inr ()) | Some run \<Rightarrow> project_metric wk (es 4) w1 v i t run ''failed'') = (w2, Inr ())"
    "publish_task_event wk w2 v (is_workspace i) t ''task:failed'' ''failed'' = (w', Inr ())"
    using ok ty by (auto simp: project_type_def Let_def and_then_Inr)
  note c = failure_step_ok [OF s(1)] and m = metric_step_ok [OF s(2) run] and p = step_ok_publish [OF s(3)]
  have late: "step_ok w1 w'" using step_ok_trans m p by blast
  have "step_ok w w'" using step_ok_trans [OF step_ok_reconcile step_ok_trans [OF conjunct1 [OF c] late]] .
  moreover have "comment_due wk v t r \<Longrightarrow> Some (ob_id v) \<in> cm_event ` set (comments (w_db w1))"
    using c ty by (cases r) (auto simp: comment_due_def)
  ultimately show ?thesis using m p late
    by (simp add: rows_present_def metric_due_def step_ok_comments step_ok_metrics)
next
  assume ty: "ob_type v = ev_rejected"
  let ?w0 = "worker_reconcile wk (es 2) w (Some (tk_agent t))"
  obtain w1 where s: "project_failure_comment wk (es 3) ?w0 v i t (tk_error t) = (w1, Inr ())"
    "publish_task_event wk w1 v (is_workspace i) t ''task:failed'' ''failed'' = (w', Inr ())"
    using ok ty by (auto simp: project_type_def Let_def and_then_Inr)
  note c = failure_step_ok [OF s(1)] and p = step_ok_publish [OF s(2)]
  have "step_ok w w'" using step_ok_trans [OF step_ok_reconcile step_ok_trans [OF conjunct1 [OF c] conjunct1 [OF p]]] .
  moreover have "comment_due wk v t r \<Longrightarrow> Some (ob_id v) \<in> cm_event ` set (comments (w_db w1))"
    using c ty by (auto simp: comment_due_def)
  ultimately show ?thesis using p ty
    by (auto simp: rows_present_def metric_due_def intro: step_ok_comments)
next
  assume ty: "ob_type v = ev_retry"
  let ?w0 = "worker_reconcile wk (es 2) w (Some (tk_agent t))"
  have "step_ok ?w0 w' \<and> (r \<noteq> None \<longrightarrow> ob_run v \<in> mt_run ` set (metrics (w_db w')))"
    using ok ty run by (intro metric_publish_ok) (auto simp: project_type_def Let_def)
  with step_ok_trans [OF step_ok_reconcile [of w wk "es 2" "Some (tk_agent t)"], of w'] ty show ?thesis
    by (simp add: rows_present_def comment_due_def metric_due_def)
next
  assume ty: "ob_type v = ev_cancelled"
  let ?w0 = "worker_reconcile wk (es 2) w (Some (tk_agent t))"
  have "step_ok ?w0 w' \<and> (r \<noteq> None \<longrightarrow> ob_run v \<in> mt_run ` set (metrics (w_db w')))"
    using ok ty run by (intro metric_publish_ok) (auto simp: project_type_def Let_def)
  with step_ok_trans [OF step_ok_reconcile [of w wk "es 2" "Some (tk_agent t)"], of w'] ty show ?thesis
    by (simp add: rows_present_def comment_due_def metric_due_def)
qed (use ok in \<open>auto simp: project_type_def Let_def rows_present_def comment_due_def metric_due_def\<close>)

end
