(* ===== verification/OutboxReplay.thy ===== *)
theory OutboxReplay
  imports OutboxWorker
begin

text \<open>
  The outbox worker under redelivery and failure: a projection repeated after a crash changes
  nothing but the agent status, an acknowledgement closes exactly the claimed event, and the
  drain loop ends.
\<close>

section \<open>Repeating a projection\<close>

text \<open>The same rows, except for the agents' status.\<close>

definition same_rows :: "db \<Rightarrow> db \<Rightarrow> bool" where
  "same_rows d d' \<longleftrightarrow> (\<exists>as. d' = d\<lparr>agents := as\<rparr> \<and> map ag_id as = map ag_id (agents d))"

lemma same_rows_refl [simp]: "same_rows d d"
  by (auto simp: same_rows_def intro!: exI [of _ "agents d"])

lemma same_rows_tables:
  assumes "same_rows d d'"
  shows "tasks d' = tasks d" "runs d' = runs d" "issues d' = issues d" "outbox d' = outbox d"
    "comments d' = comments d" "metrics d' = metrics d" "xtraces d' = xtraces d" "activities d' = activities d"
    "inbox d' = inbox d" "receipts d' = receipts d" "runtimes d' = runtimes d"
  using assms by (auto simp: same_rows_def)

lemma same_rows_reconcile: "same_rows (w_db w) (w_db (worker_reconcile wk e w a))"
  using worker_reconcile_frame [of wk e w a] by (auto simp: same_rows_def)

lemma same_rows_trans [trans]: "same_rows a b \<Longrightarrow> same_rows b c \<Longrightarrow> same_rows a c"
  by (fastforce simp: same_rows_def)

lemma rows_present_same: "same_rows d d' \<Longrightarrow> rows_present wk d' v t r = rows_present wk d v t r"
  by (simp add: rows_present_def same_rows_tables)

lemma project_type_again:
  assumes known: "type_known v" and rows: "rows_present wk (w_db w) v t r"
    and run: "ob_run v \<noteq> None \<longleftrightarrow> r \<noteq> None"
  shows "\<exists>w'. project_type wk es w v i t r = (w', Inr ()) \<and> same_rows (w_db w) (w_db w')"
proof -
  let ?w0 = "worker_reconcile wk (es 2) w (Some (tk_agent t))"
  have same0: "same_rows (w_db w) (w_db ?w0)" by (rule same_rows_reconcile)
  have rows0: "rows_present wk (w_db w1) v t r" if "w_db w1 = w_db ?w0" for w1
    using rows same0 that by (simp add: rows_present_same)
  have metric: "(case r of None \<Rightarrow> (w1, Inr ()) | Some run \<Rightarrow> project_metric wk (es 4) w1 v i t run st) = (w1, Inr ())"
    if "w_db w1 = w_db ?w0" "metric_due v r" for w1 st
    using rows0 [OF that(1)] that(2) run
    by (cases r; cases "ob_run v") (auto simp: rows_present_def intro!: project_metric_again)
  have comment: "\<exists>w1. create_lifecycle_comment wk e ?w0 (ob_id v) i t c ty = (w1, Inr ()) \<and> w_db w1 = w_db ?w0"
    if "comment_due wk v t r" for e c ty
    using rows0 [OF refl] that by (intro create_lifecycle_comment_again) (simp add: rows_present_def)
  have failure: "\<exists>w1. project_failure_comment wk (es 3) ?w0 v i t msg = (w1, Inr ()) \<and> w_db w1 = w_db ?w0"
    if "msg \<notin> {None, Some ''''} \<Longrightarrow> comment_due wk v t r" for msg
    using comment [of "es 3" "wk_redact wk (the msg)" "''system''"] that
    by (cases "msg \<in> {None, Some ''''}") (simp_all add: failure_comment_cases)
  have pub: "\<exists>w2. publish_task_event wk w1 v (is_workspace i) t ty st = (w2, Inr ()) \<and> w_db w2 = w_db w1" for w1 ty st
    by (rule publish_task_event_ok)
  have last: "\<exists>w'. publish_task_event wk w1 v (is_workspace i) t ty st = (w', Inr ()) \<and> same_rows (w_db w) (w_db w')"
    if "w_db w1 = w_db ?w0" for w1 ty st
    using pub [of w1 ty st] same0 that by auto
  have fin: "\<exists>w'. and_then (case r of None \<Rightarrow> (w1, Inr ()) | Some run \<Rightarrow> project_metric wk (es 4) w1 v i t run st)
        (\<lambda>w _. publish_task_event wk w v (is_workspace i) t ty st') = (w', Inr ()) \<and> same_rows (w_db w) (w_db w')"
    if "w_db w1 = w_db ?w0" "metric_due v r" for w1 st ty st'
    using metric [OF that] last [OF that(1)] by simp
  show ?thesis
    using type_cases [OF known]
  proof (elim disjE)
    assume ty: "ob_type v = ev_completed"
    have same: "v\<lparr>ob_type := ev_completed\<rparr> = v" using ty by (cases v) simp
    show ?thesis
    proof (cases r)
      case None
      with last [OF refl] ty show ?thesis by (simp add: project_type_def Let_def)
    next
      case (Some r')
      obtain w1 where "project_completion_comment wk (es 3) ?w0 v i t r' = (w1, Inr ())" "w_db w1 = w_db ?w0"
        using comment [of "es 3" "wk_redact wk (cp_output (fst (cd_completed (wk_codec wk) (the (rn_output r')))))" "''comment''"]
          Some same by (cases "comment_due wk v t (Some r')") (simp add: completion_comment_cases, blast, simp add: completion_comment_cases)
      moreover have "metric_due v r" using Some ty by (simp add: metric_due_def)
      ultimately show ?thesis using fin [of w1] Some ty by (simp add: project_type_def Let_def)
    qed
  next
    assume ty: "ob_type v = ev_failed"
    obtain w1 where w1: "project_failure_comment wk (es 3) ?w0 v i t (case r of None \<Rightarrow> None | Some run \<Rightarrow> rn_error run) = (w1, Inr ())"
        "w_db w1 = w_db ?w0"
      using failure [of "case r of None \<Rightarrow> None | Some run \<Rightarrow> rn_error run"] ty
      by (cases r) (auto simp: comment_due_def)
    show ?thesis
    proof (cases r)
      case None
      with w1 last [of w1] ty show ?thesis by (simp add: project_type_def Let_def)
    next
      case (Some r')
      then have "metric_due v r" using ty by (simp add: metric_due_def)
      with w1 fin [of w1] Some ty show ?thesis by (simp add: project_type_def Let_def)
    qed
  next
    assume ty: "ob_type v = ev_rejected"
    obtain w1 where "project_failure_comment wk (es 3) ?w0 v i t (tk_error t) = (w1, Inr ())" "w_db w1 = w_db ?w0"
      using failure [of "tk_error t"] ty by (auto simp: comment_due_def)
    with last [of w1] ty show ?thesis by (simp add: project_type_def Let_def)
  next
    assume ty: "ob_type v = ev_retry"
    with fin [of ?w0] last [of ?w0] show ?thesis
      by (cases r) (simp_all add: project_type_def Let_def metric_due_def)
  next
    assume ty: "ob_type v = ev_cancelled"
    with fin [of ?w0] last [of ?w0] show ?thesis
      by (cases r) (simp_all add: project_type_def Let_def metric_due_def)
  qed (simp_all add: project_type_def)
qed

text \<open>The trace of a Run after its event.\<close>

definition trace_settled :: "db \<Rightarrow> string \<Rightarrow> uuid \<Rightarrow> bool" where
  "trace_settled d ty r \<longleftrightarrow> (\<exists>x. select_one (\<lambda>x. xt_run x = r) (xtraces d) = Inr x \<and>
     (trace_status ty = '''' \<or> xt_status x = trace_status ty))"

lemma select_one_append_new:
  "select_one P rows = Inl err \<Longrightarrow> P x \<Longrightarrow> select_one P (rows @ [x]) = Inr x"
  by (simp add: select_one_Inl) (simp add: select_one_def filter_empty_conv [THEN iffD2])

lemma start_trace_Inr:
  assumes "start_trace i now d ref t p m = Inr (d', x)" "rr_run ref = Some r"
  shows "\<exists>xs. d' = d\<lparr>xtraces := xs\<rparr> \<and> select_one (\<lambda>x. xt_run x = r) xs = Inr x \<and>
    (distinct (map xt_id (xtraces d)) \<longrightarrow> distinct (map xt_id xs))"
proof (cases "select_one (\<lambda>x. xt_run x = r) (xtraces d)")
  case (Inr y)
  with assms show ?thesis by (auto simp: start_trace_def intro!: exI [of _ "xtraces d"])
next
  case (Inl err)
  have sel: "select_one (\<lambda>x. xt_run x = r) (xtraces d @ [y]) = Inr y" if "xt_run y = r" for y
    by (rule select_one_append_new [OF Inl]) (rule that)
  have x: "xt_run x = r" "d' = d\<lparr>xtraces := xtraces d @ [x]\<rparr>" "xt_id x \<notin> xt_id ` set (xtraces d)"
    using assms Inl by (auto simp: start_trace_def Let_def split: if_splits)
  with sel show ?thesis by (auto intro!: exI [of _ "xtraces d @ [x]"])
qed

lemma project_trace_ok:
  assumes "project_trace wk es w ty t r = (w', Inr ())" "distinct (map xt_id (xtraces (w_db w)))"
  shows "\<exists>xs. w_db w' = (w_db w)\<lparr>xtraces := xs\<rparr> \<and> (wk_trace wk \<longrightarrow> trace_settled (w_db w') ty (rn_id r))"
proof (cases "wk_trace wk")
  case False
  with assms show ?thesis by (auto simp: project_trace_def intro!: exI [of _ "xtraces (w_db w)"])
next
  case True
  obtain p m where pm: "resolve_agent_provider (w_db w) (Some (tk_agent t)) = (p, m)" by fastforce
  obtain d x where st: "start_trace (e_gen (es 0) 0) (e_wall (es 0)) (w_db w)
      \<lparr>rr_work_item = Some (tk_id t), rr_run = Some (rn_id r)\<rparr> t p m = Inr (d, x)"
    using assms True pm by (auto simp: project_trace_def split: sum.splits)
  from start_trace_Inr [OF this, of "rn_id r"] obtain xs where
    d: "d = (w_db w)\<lparr>xtraces := xs\<rparr>" "select_one (\<lambda>x. xt_run x = rn_id r) xs = Inr x"
    "distinct (map xt_id xs)" using assms(2) by auto
  show ?thesis
  proof (cases "trace_status ty = '''' \<or> xt_status x = trace_status ty")
    case True
    with assms \<open>wk_trace wk\<close> pm st d show ?thesis by (auto simp: project_trace_def trace_settled_def)
  next
    case False
    let ?f = "\<lambda>y. y\<lparr>xt_status := trace_status ty, xt_end := Some (e_now (es 1))\<rparr>"
    obtain y where y: "select_one (trace_running (xt_id x)) xs = Inr y"
        "w_db w' = d\<lparr>xtraces := upd_where (trace_running (xt_id x)) ?f xs\<rparr>"
      using assms \<open>wk_trace wk\<close> pm st False d by (auto simp: project_trace_def end_trace_def or_wrap_def split: sum.splits)
    have "select_one (\<lambda>y. xt_run y = rn_id r) (upd_where (trace_running (xt_id x)) ?f xs)
        = map_sum id (\<lambda>y. if trace_running (xt_id x) y then ?f y else y) (Inr x)"
      unfolding d(2) [symmetric] by (rule select_one_upd_where) simp
    moreover have "trace_running (xt_id x) x"
    proof -
      have "x \<in> set xs" "y \<in> set xs" "trace_running (xt_id x) y"
        using select_one_Inr [OF d(2)] select_one_Inr [OF y(1)] by simp_all
      with d(3) show ?thesis by (auto simp: trace_running_def dest: distinct_key_eq)
    qed
    ultimately show ?thesis using d(1) y(2) by (intro exI conjI impI) (simp_all add: trace_settled_def)
  qed
qed

text \<open>
  A projection of event \<open>v\<close> that succeeded in \<open>w\<close> can be repeated, with any clock and any fresh
  identifiers, in every later database that kept its rows.
\<close>

definition event_settled :: "worker \<Rightarrow> db \<Rightarrow> outbox_row \<Rightarrow> bool" where
  "event_settled wk d v \<longleftrightarrow> ob_version v = lifecycle_event_version \<and> type_known v \<and>
     (ob_type v \<noteq> ev_cancelled \<and> ob_type v \<noteq> ev_rejected \<longrightarrow> ob_run v \<noteq> None) \<and>
     (\<exists>t i. get_task d (Some (ob_work_item v)) = Inr t \<and> get_issue d (Some (tk_issue t)) = Inr i \<and>
        (case ob_run v of
           None \<Rightarrow> rows_present wk d v t None
         | Some r \<Rightarrow> (\<exists>run. get_run d (Some r) = Inr run \<and> (wk_trace wk \<longrightarrow> trace_settled d (ob_type v) r) \<and>
             rows_present wk d v t (Some run))))"

lemma event_settled_cong:
  assumes "tasks d' = tasks d" "issues d' = issues d" "runs d' = runs d" "xtraces d' = xtraces d"
    "set (comments d) \<subseteq> set (comments d')" "set (metrics d) \<subseteq> set (metrics d')" "event_settled wk d v"
    "ob_id v' = ob_id v" "ob_work_item v' = ob_work_item v" "ob_run v' = ob_run v" "ob_type v' = ob_type v"
    "ob_version v' = ob_version v"
  shows "event_settled wk d' v'"
proof -
  have due: "comment_due wk v' t r = comment_due wk v t r" "metric_due v' r = metric_due v r" for t r
    using assms(11) by (simp_all add: comment_due_def metric_due_def)
  have rows: "rows_present wk d' v' t r" if "rows_present wk d v t r" for t r
    using that assms(5,6,8,10) due by (auto simp: rows_present_def)
  have get: "get_task d' = get_task d" "get_issue d' = get_issue d" "get_run d' = get_run d"
    using assms(1-3) by (auto simp: get_task_def get_issue_def get_run_def)
  have "trace_settled d' = trace_settled d" using assms(4) by (auto simp: trace_settled_def fun_eq_iff)
  with assms(7-12) get rows show ?thesis
    unfolding event_settled_def type_known_def by (cases "ob_run v") (fastforce, fastforce)
qed

lemma project_settles:
  assumes ok: "project wk es w v = (w', Inr ())" and ids: "distinct (map xt_id (xtraces (w_db w)))"
  shows "event_settled wk (w_db w') v \<and> projects_only (w_db w) (w_db w')"
proof -
  have ver: "ob_version v = lifecycle_event_version" using ok by (auto simp: project_def split: if_splits)
  obtain t where t: "get_task (w_db w) (Some (ob_work_item v)) = Inr t"
    using ok ver by (auto simp: project_def split: sum.splits)
  obtain i where i: "get_issue (w_db w) (Some (tk_issue t)) = Inr i"
    using ok ver t by (auto simp: project_def split: sum.splits)
  have req: "ob_type v \<noteq> ev_cancelled \<and> ob_type v \<noteq> ev_rejected \<longrightarrow> ob_run v \<noteq> None"
    using ok ver t i by (auto simp: project_def split: if_splits)
  show ?thesis
  proof (cases "ob_run v")
    case None
    then have ty: "project_type wk es w v i t None = (w', Inr ())"
      using ok ver t i req by (auto simp: project_def)
    from project_type_ok [OF this] have "step_ok w w'" "rows_present wk (w_db w') v t None" by auto
    then show ?thesis using ver t i req None project_type_known [OF ty]
      by (auto simp: event_settled_def step_ok_def projects_only_def get_task_def get_issue_def)
  next
    case (Some r)
    obtain run where run: "get_run (w_db w) (Some r) = Inr run"
      using ok ver t i req Some by (auto simp: project_def split: sum.splits if_splits)
    then have rid: "rn_id run = r" using get_run_Inr by fastforce
    obtain w1 where w1: "project_trace wk es w (ob_type v) t run = (w1, Inr ())"
        "project_type wk es w1 v i t (Some run) = (w', Inr ())"
      using ok ver t i req Some run by (auto simp: project_def and_then_Inr)
    from project_trace_ok [OF w1(1) ids] rid obtain xs where
      xs: "w_db w1 = (w_db w)\<lparr>xtraces := xs\<rparr>" "wk_trace wk \<longrightarrow> trace_settled (w_db w1) (ob_type v) r" by auto
    from project_type_ok [OF w1(2)] Some have s: "step_ok w1 w'" "rows_present wk (w_db w') v t (Some run)" by auto
    have "trace_settled (w_db w') (ob_type v) r = trace_settled (w_db w1) (ob_type v) r"
      using s(1) by (simp add: step_ok_def trace_settled_def)
    moreover have only: "projects_only (w_db w) (w_db w')"
      using s(1) xs(1) by (simp add: step_ok_def projects_only_def)
    ultimately have "wk_trace wk \<longrightarrow> trace_settled (w_db w') (ob_type v) r" using xs(2) by simp
    moreover have "get_task (w_db w') = get_task (w_db w)" "get_issue (w_db w') = get_issue (w_db w)"
        "get_run (w_db w') = get_run (w_db w)"
      using only by (auto simp: projects_only_def get_task_def get_issue_def get_run_def)
    ultimately show ?thesis using s(2) ver t i req run Some project_type_known [OF w1(2)] only
      by (simp add: event_settled_def)
  qed
qed

lemma project_trace_again:
  assumes "wk_trace wk \<longrightarrow> trace_settled (w_db w) ty (rn_id r)"
  shows "project_trace wk es w ty t r = (w, Inr ())"
proof (cases "wk_trace wk")
  case True
  with assms obtain x where "select_one (\<lambda>x. xt_run x = rn_id r) (xtraces (w_db w)) = Inr x"
    "trace_status ty = '''' \<or> xt_status x = trace_status ty" by (auto simp: trace_settled_def)
  with True show ?thesis by (auto simp: project_trace_def start_trace_def split: prod.splits)
qed (simp add: project_trace_def)

lemma project_again:
  assumes "event_settled wk (w_db w) v"
  shows "\<exists>w'. project wk es w v = (w', Inr ()) \<and> same_rows (w_db w) (w_db w')"
proof -
  from assms obtain t i where b: "ob_version v = lifecycle_event_version" "type_known v"
      "ob_type v \<noteq> ev_cancelled \<and> ob_type v \<noteq> ev_rejected \<longrightarrow> ob_run v \<noteq> None"
      "get_task (w_db w) (Some (ob_work_item v)) = Inr t" "get_issue (w_db w) (Some (tk_issue t)) = Inr i"
      "case ob_run v of None \<Rightarrow> rows_present wk (w_db w) v t None
         | Some r \<Rightarrow> (\<exists>run. get_run (w_db w) (Some r) = Inr run \<and>
             (wk_trace wk \<longrightarrow> trace_settled (w_db w) (ob_type v) r) \<and> rows_present wk (w_db w) v t (Some run))"
    by (auto simp: event_settled_def)
  show ?thesis
  proof (cases "ob_run v")
    case None
    with b project_type_again [OF b(2), of wk w t None es i] show ?thesis by (auto simp: project_def)
  next
    case (Some r)
    with b(6) obtain run where run: "get_run (w_db w) (Some r) = Inr run"
      "wk_trace wk \<longrightarrow> trace_settled (w_db w) (ob_type v) r" "rows_present wk (w_db w) v t (Some run)" by auto
    have "rn_id run = r" using get_run_Inr [OF run(1)] by simp
    with project_trace_again run(2) have "project_trace wk es w (ob_type v) t run = (w, Inr ())" by blast
    with b run Some project_type_again [OF b(2) run(3), of es i] show ?thesis by (auto simp: project_def)
  qed
qed

section \<open>The outbox under a projection\<close>

lemma and_then_outbox:
  assumes "outbox (w_db (fst r)) = rows" "\<And>w a. outbox (w_db w) = rows \<Longrightarrow> outbox (w_db (fst (k w a))) = rows"
  shows "outbox (w_db (fst (and_then r k))) = rows"
  using assms by (cases r rule: prod.exhaust; cases "snd r") auto

lemma reconcile_outbox [simp]: "outbox (w_db (worker_reconcile wk e w a)) = outbox (w_db w)"
  using worker_reconcile_frame [of wk e w a] by auto

lemma comment_outbox [simp]: "outbox (w_db (fst (create_lifecycle_comment wk e w v i t c ty))) = outbox (w_db w)"
  using create_lifecycle_comment_db [of wk e w v i t c ty] by (cases "create_lifecycle_comment wk e w v i t c ty") auto

lemma metric_outbox [simp]: "outbox (w_db (fst (project_metric wk e w v i t r st))) = outbox (w_db w)"
  by (auto simp: project_metric_def insert_agent_task_metric_def Let_def or_fail_def split: sum.splits)

lemma publish_outbox [simp]: "outbox (w_db (fst (publish_task_event wk w v ws t ty st))) = outbox (w_db w)"
  using publish_task_event_ok [of wk w v ws t ty st] by auto

lemma completion_outbox [simp]: "outbox (w_db (fst (project_completion_comment wk e w v i t r))) = outbox (w_db w)"
  by (simp add: completion_comment_cases)

lemma failure_outbox [simp]: "outbox (w_db (fst (project_failure_comment wk e w v i t m))) = outbox (w_db w)"
  by (simp add: failure_comment_cases)

lemma trace_outbox [simp]: "outbox (w_db (fst (project_trace wk es w ty t r))) = outbox (w_db w)"
  by (auto simp: project_trace_def start_trace_def end_trace_def or_wrap_def Let_def split: sum.splits prod.splits if_splits)

lemma project_type_outbox [simp]: "outbox (w_db (fst (project_type wk es w v i t r))) = outbox (w_db w)"
  unfolding project_type_def Let_def
  by (cases r) (simp_all add: and_then_outbox)

lemma project_outbox: "outbox (w_db (fst (project wk es w v))) = outbox (w_db w)"
  by (auto simp: project_def intro!: and_then_outbox split: sum.splits option.splits)

section \<open>Draining\<close>

lemma mark_decreases:
  assumes "v \<in> set (outbox d)" "open_event v" "held (ob_id v) k v"
  shows "count_pending_lifecycle_outbox_events (fst (mark_lifecycle_outbox_event_processed e d (ob_id v) k))
    < count_pending_lifecycle_outbox_events d"
proof -
  have "length (filter open_event (upd_where (held (ob_id v) k) (processed_event e) (outbox d)))
      < length (filter open_event (outbox d))"
    unfolding upd_where_def using assms by (intro length_filter_map_less [where v = v]) (auto split: if_splits)
  then show ?thesis
    by (simp add: count_pending_lifecycle_outbox_events_def mark_lifecycle_outbox_event_processed_def)
qed

lemma claim_keeps_pending:
  assumes "claim_lifecycle_outbox_event e d = Inr (d', v)"
  shows "count_pending_lifecycle_outbox_events d' = count_pending_lifecycle_outbox_events d"
    and "v \<in> set (outbox d')" "open_event v" "held (ob_id v) (ob_lock_token v) v"
proof -
  from assms obtain u where u: "u \<in> set (outbox d)" "event_claimable e d u" "v = leased_event e u"
    "d' = d\<lparr>outbox := upd_where (\<lambda>x. ob_id x = ob_id u) (leased_event e) (outbox d)\<rparr>"
    by (rule claim_event_Inr)
  have "length (filter open_event (map g xs)) = length (filter open_event xs)"
    if "\<And>x. open_event (g x) = open_event x" for g :: "outbox_row \<Rightarrow> outbox_row" and xs
    using that by (induction xs) auto
  then show "count_pending_lifecycle_outbox_events d' = count_pending_lifecycle_outbox_events d"
    by (simp add: count_pending_lifecycle_outbox_events_def u(4) upd_where_def)
  show "v \<in> set (outbox d')" "open_event v" "held (ob_id v) (ob_lock_token v) v"
    using u by (auto simp: set_upd_where event_claimable_def open_event_def held_def)
qed

lemma process_next_decreases:
  assumes "process_next wk f es w = (w', True, None)"
  shows "count_pending_lifecycle_outbox_events (w_db w') < count_pending_lifecycle_outbox_events (w_db w)"
proof -
  obtain d v where cl: "claim_lifecycle_outbox_event (es 6) (w_db w) = Inr (d, v)"
      and pc: "process_claimed wk f es (with_db w d) v = (w', Inr ())"
    using assms by (auto simp: process_next_def split: if_splits sum.splits prod.splits)
  obtain w1 where w1: "project wk es (with_db w d) v = (w1, Inr ())"
      "w_db w' = fst (mark_lifecycle_outbox_event_processed (es 5) (w_db w1) (ob_id v) (ob_lock_token v))"
    using pc by (auto simp: process_claimed_def split: prod.splits sum.splits if_splits)
  have ob: "outbox (w_db w1) = outbox d" using project_outbox [of wk es "with_db w d" v] w1(1) by simp
  note c = claim_keeps_pending [OF cl]
  have "count_pending_lifecycle_outbox_events (w_db w') < count_pending_lifecycle_outbox_events (w_db w1)"
    unfolding w1(2) using c(2-4) ob by (intro mark_decreases) simp_all
  then show ?thesis using c(1) ob by (simp add: count_pending_lifecycle_outbox_events_def)
qed

text \<open>
  \<^verbatim>\<open>drain\<close>: process events until none is claimable or one fails. Every round that goes on closes
  a pending event, so the loop ends after at most as many rounds as events are pending.
\<close>

function drain ::
    "worker \<Rightarrow> (go_error \<Rightarrow> string) \<Rightarrow> (nat \<Rightarrow> nat \<Rightarrow> env) \<Rightarrow> nat \<Rightarrow> world \<Rightarrow> world \<times> nat \<times> go_error option" where
  "drain wk f ess n w =
     (case process_next wk f (ess n) w of
        (w', _, Some err) \<Rightarrow> (w', n, Some err)
      | (w', False, None) \<Rightarrow> (w', n, None)
      | (w', True, None) \<Rightarrow> drain wk f ess (Suc n) w')"
  by pat_completeness auto

termination
  by (relation "measure (\<lambda>(wk, f, ess, n, w). count_pending_lifecycle_outbox_events (w_db w))")
    (auto dest!: process_next_decreases [OF sym])

declare drain.simps [simp del]

end
