(* ===== verification/OutboxProps.thy ===== *)
theory OutboxProps
  imports OutboxReplay TaskProps
begin

text \<open>
  What the outbox worker guarantees: repeated projections add nothing, a superseded worker is
  fenced off, events of one Work Item are processed in order, failures back off and end in the
  dead-letter state, a drain ends with nothing left to claim.
\<close>

section \<open>Order\<close>

definition in_order :: "db \<Rightarrow> bool" where
  "in_order d \<longleftrightarrow> (\<forall>a\<in>set (outbox d). \<forall>b\<in>set (outbox d).
     ob_work_item a = ob_work_item b \<and> event_before a b \<and> ob_processed_at b \<noteq> None \<longrightarrow> \<not> open_event a)"

definition same_key :: "outbox_row \<Rightarrow> outbox_row \<Rightarrow> bool" where
  "same_key a b \<longleftrightarrow> ob_id a = ob_id b \<and> ob_work_item a = ob_work_item b \<and> ob_created_at a = ob_created_at b"

lemma in_order_upd:
  assumes "in_order d" "outbox d' = upd_where P g (outbox d)"
    and key: "\<And>x. same_key (g x) x"
    and closes: "\<And>x. x \<in> set (outbox d) \<Longrightarrow> P x \<Longrightarrow> open_event (g x) \<Longrightarrow> open_event x"
    and new: "\<And>b a. b \<in> set (outbox d) \<Longrightarrow> P b \<Longrightarrow> ob_processed_at (g b) \<noteq> None \<Longrightarrow> ob_processed_at b = None \<Longrightarrow>
      a \<in> set (outbox d) \<Longrightarrow> ob_work_item a = ob_work_item b \<Longrightarrow> event_before a b \<Longrightarrow> \<not> open_event a"
  shows "in_order d'"
  unfolding in_order_def
proof (intro ballI impI)
  let ?h = "\<lambda>x. if P x then g x else x"
  fix a' b'
  assume "a' \<in> set (outbox d')" "b' \<in> set (outbox d')"
    and c: "ob_work_item a' = ob_work_item b' \<and> event_before a' b' \<and> ob_processed_at b' \<noteq> None"
  then obtain a b where ab: "a \<in> set (outbox d)" "b \<in> set (outbox d)" "a' = ?h a" "b' = ?h b"
    using assms(2) by (auto simp: set_upd_where)
  have k: "same_key (?h x) x" for x using key by (simp add: same_key_def)
  have before: "event_before a b" "ob_work_item a = ob_work_item b"
    using c ab(3,4) k [of a] k [of b] by (simp_all add: event_before_def same_key_def)
  have "\<not> open_event a"
  proof (cases "ob_processed_at b = None")
    case True
    with c ab have "P b" "ob_processed_at (g b) \<noteq> None" by (auto split: if_splits)
    with new ab before True show ?thesis by blast
  next
    case False
    with assms(1) ab(1,2) before show ?thesis unfolding in_order_def by blast
  qed
  with closes ab(1,3) show "\<not> open_event a'" by auto
qed

text \<open>Only open events are leased.\<close>

definition leased_open :: "db \<Rightarrow> bool" where
  "leased_open d \<longleftrightarrow> (\<forall>v\<in>set (outbox d). ob_lock_token v \<noteq> None \<longrightarrow> open_event v)"

lemma claim_in_order:
  assumes "claim_lifecycle_outbox_event e d = Inr (d', v)" "in_order d"
  shows "in_order d'"
  using assms(1)
proof (rule claim_event_Inr)
  fix u
  assume d': "d' = d\<lparr>outbox := upd_where (\<lambda>x. ob_id x = ob_id u) (leased_event e) (outbox d)\<rparr>"
  show "in_order d'"
    by (rule in_order_upd [OF assms(2), where P = "\<lambda>x. ob_id x = ob_id u" and g = "leased_event e"])
      (simp_all add: d' same_key_def)
qed

lemma release_in_order:
  assumes "in_order d" "leased_open d"
  shows "in_order (fst (release_lifecycle_outbox_event e d i k msg))"
  by (rule in_order_upd [OF assms(1), where P = "held i k" and g = "released_event e msg"])
    (use assms(2) in \<open>fastforce simp: release_lifecycle_outbox_event_def same_key_def held_def released_event_def leased_open_def\<close>)+

lemma mark_in_order:
  assumes "in_order d" "\<And>b a. b \<in> set (outbox d) \<Longrightarrow> held i k b \<Longrightarrow> a \<in> set (outbox d) \<Longrightarrow>
    ob_work_item a = ob_work_item b \<Longrightarrow> event_before a b \<Longrightarrow> \<not> open_event a"
  shows "in_order (fst (mark_lifecycle_outbox_event_processed e d i k))"
  by (rule in_order_upd [OF assms(1), where P = "held i k" and g = "processed_event e"])
    (use assms(2) in \<open>auto simp: mark_lifecycle_outbox_event_processed_def same_key_def processed_event_def open_event_def\<close>)

lemma in_order_cong: "outbox d' = outbox d \<Longrightarrow> in_order d' = in_order d"
  by (simp add: in_order_def)

lemma claimed_is_first:
  assumes "claim_lifecycle_outbox_event e d = Inr (d', v)" "distinct_events d"
    "b \<in> set (outbox d')" "ob_id b = ob_id v" "a \<in> set (outbox d')" "ob_work_item a = ob_work_item b" "event_before a b"
  shows "\<not> open_event a"
  using assms(1)
proof (rule claim_event_Inr)
  fix u
  assume u: "u \<in> set (outbox d)" "event_claimable e d u" "v = leased_event e u"
    "d' = d\<lparr>outbox := upd_where (\<lambda>x. ob_id x = ob_id u) (leased_event e) (outbox d)\<rparr>"
  let ?h = "\<lambda>x. if ob_id x = ob_id u then leased_event e x else x"
  obtain a0 b0 where ab: "a0 \<in> set (outbox d)" "b0 \<in> set (outbox d)" "a = ?h a0" "b = ?h b0"
    using assms(3,5) u(4) by (auto simp: set_upd_where)
  have k: "same_key (?h x) x" "open_event (?h x) = open_event x" for x by (auto simp: same_key_def)
  have "ob_id b0 = ob_id u" using assms(4) u(3) ab(4) k(1) [of b0] by (simp add: same_key_def)
  then have "b0 = u" using assms(2) u(1) ab(2) by (auto simp: distinct_events_def dest: distinct_key_eq)
  then have "ob_work_item a0 = ob_work_item u" "event_before a0 u"
    using assms(6,7) ab k(1) [of a0] k(1) [of b0] by (simp_all add: event_before_def same_key_def)
  with u(2) ab(1) have "\<not> open_event a0" by (auto simp: event_claimable_def)
  with ab(3) k(2) show "\<not> open_event a" by simp
qed

definition outbox_inv :: "db \<Rightarrow> bool" where
  "outbox_inv d \<longleftrightarrow> distinct_events d \<and> leased_open d \<and> in_order d"

lemma outbox_inv_cong: "outbox d' = outbox d \<Longrightarrow> outbox_inv d' = outbox_inv d"
  by (simp add: outbox_inv_def in_order_def leased_open_def distinct_events_def)

lemma claim_outbox_inv:
  assumes "claim_lifecycle_outbox_event e d = Inr (d', v)" "outbox_inv d"
  shows "outbox_inv d'"
proof -
  from assms(1) obtain u where u: "u \<in> set (outbox d)" "event_claimable e d u"
    "d' = d\<lparr>outbox := upd_where (\<lambda>x. ob_id x = ob_id u) (leased_event e) (outbox d)\<rparr>"
    by (rule claim_event_Inr)
  have "open_event x" if "x \<in> set (outbox d)" "ob_id x = ob_id u" for x
    using assms(2) u(1,2) that by (auto simp: outbox_inv_def distinct_events_def event_claimable_def dest: distinct_key_eq)
  then have "leased_open d'"
    using u assms(2) by (auto simp: outbox_inv_def leased_open_def set_upd_where event_claimable_def)
  then show ?thesis using claim_in_order [OF assms(1)] assms(2) u(3)
    by (simp add: outbox_inv_def distinct_events_upd)
qed

lemma release_outbox_inv: "outbox_inv d \<Longrightarrow> outbox_inv (fst (release_lifecycle_outbox_event e d i k msg))"
  using release_in_order [of d e i k msg]
  by (auto simp: outbox_inv_def distinct_events_upd release_lifecycle_outbox_event_def leased_open_def set_upd_where)

lemma mark_outbox_inv:
  assumes "outbox_inv d" "\<And>b a. b \<in> set (outbox d) \<Longrightarrow> held i k b \<Longrightarrow> a \<in> set (outbox d) \<Longrightarrow>
    ob_work_item a = ob_work_item b \<Longrightarrow> event_before a b \<Longrightarrow> \<not> open_event a"
  shows "outbox_inv (fst (mark_lifecycle_outbox_event_processed e d i k))"
  using mark_in_order [of d i k e] assms
  by (auto simp: outbox_inv_def distinct_events_upd mark_lifecycle_outbox_event_processed_def leased_open_def set_upd_where)

section \<open>Properties\<close>

text \<open>C14. The worker processes the facts of one Work Item in the order of their (created_at, id): if
  event ids are distinct, only open events are leased and every earlier fact of a processed one
  is closed before a round, then the same holds after it, whether the round acknowledges,
  releases or finds nothing.\<close>

theorem outbox_processed_in_order:
  assumes "outbox_inv (w_db w)"
  shows "outbox_inv (w_db (fst (process_next wk f es w)))"
proof (cases "wk_queries wk \<and> is_ok (claim_lifecycle_outbox_event (es 6) (w_db w))")
  case False
  then show ?thesis using assms(1)
    by (cases "claim_lifecycle_outbox_event (es 6) (w_db w)") (auto simp: process_next_def)
next
  case True
  then obtain d v where cl: "claim_lifecycle_outbox_event (es 6) (w_db w) = Inr (d, v)"
    by (cases "claim_lifecycle_outbox_event (es 6) (w_db w)") auto
  obtain w1 r where pr: "project wk es (with_db w d) v = (w1, r)" by fastforce
  have ob: "outbox (w_db w1) = outbox d" using project_outbox [of wk es "with_db w d" v] pr by simp
  have inv: "outbox_inv (w_db w1)" using claim_outbox_inv [OF cl assms] ob outbox_inv_cong by blast
  have "outbox_inv (fst (mark_lifecycle_outbox_event_processed (es 5) (w_db w1) (ob_id v) k))" for k
    using claimed_is_first [OF cl] assms ob by (intro mark_outbox_inv inv) (auto simp: held_def outbox_inv_def)
  then have "outbox_inv (w_db (fst (process_claimed wk f es (with_db w d) v)))"
    using pr release_outbox_inv [OF inv] by (cases r) (simp_all add: process_claimed_def split: prod.splits, metis fst_conv)
  moreover have "fst (process_next wk f es w) = fst (process_claimed wk f es (with_db w d) v)"
    using True cl by (auto simp: process_next_def split: sum.splits prod.splits)
  ultimately show ?thesis by simp
qed

text \<open>A worker whose lease was taken over (its event was claimed again under another token) can
  neither acknowledge nor release the event: its round reports an error and leaves every row of
  the outbox as the new holder has it, while the new holder's acknowledgement counts.\<close>

theorem superseded_worker_fenced:
  assumes "distinct_events d" "claim_lifecycle_outbox_event e d = Inr (w_db w, v2)"
    "ob_id v1 = ob_id v2" "ob_lock_token v1 = Some k1" "k1 \<noteq> e_gen e 0"
  shows "outbox (w_db (fst (process_claimed wk f es w v1))) = outbox (w_db w) \<and>
    \<not> is_ok (snd (process_claimed wk f es w v1)) \<and>
    lease_ack e' (ob_id v2) (e_gen e 0) (w_db w) = (fst (lease_ack e' (ob_id v2) (e_gen e 0) (w_db w)), True)"
proof -
  have acq: "lease_acquire e d = Some (w_db w, ob_id v2, e_gen e 0)" using assms(2) by (simp add: lease_acquire_def)
  note l = lease_acquired(1) [OF assms(1) acq]
  have ack: "snd (lease_ack e' (ob_id v2) (e_gen e 0) (w_db w))"
    using outbox_lease.ack_held l by blast
  have void: "\<not> held (ob_id v1) (ob_lock_token v1) x" if "x \<in> set (outbox (w_db w))" for x
    using select_event [OF _ that] l assms(3-5) by (auto simp: held_def lease_holder_def)
  obtain w1 r where pr: "project wk es w v1 = (w1, r)" by fastforce
  have ob: "outbox (w_db w1) = outbox (w_db w)" using project_outbox [of wk es w v1] pr by simp
  have hn: "upd_where (held (ob_id v1) (ob_lock_token v1)) g (outbox (w_db w1)) = outbox (w_db w) \<and>
      filter (held (ob_id v1) (ob_lock_token v1)) (outbox (w_db w1)) = []" for g
    using held_none [of "outbox (w_db w1)"] void ob by simp
  have "outbox (w_db (fst (process_claimed wk f es w v1))) = outbox (w_db w) \<and> \<not> is_ok (snd (process_claimed wk f es w v1))"
    using pr hn by (cases r) (simp_all add: process_claimed_def release_lifecycle_outbox_event_def
        mark_lifecycle_outbox_event_processed_def)
  with ack show ?thesis by (simp add: prod_eq_iff)
qed

text \<open>The lease columns of an event; everything else a later claim of it leaves alone.\<close>

definition same_fact :: "outbox_row \<Rightarrow> outbox_row \<Rightarrow> bool" where
  "same_fact a b \<longleftrightarrow> ob_id a = ob_id b \<and> ob_work_item a = ob_work_item b \<and> ob_run a = ob_run b \<and>
     ob_type a = ob_type b \<and> ob_version a = ob_version b"

text \<open>C15. At-least-once delivery has effectively-once rows: after a projection of a fact succeeded, the
  same fact (claimed again after a crash, say) projects successfully in every later database that
  kept the Work Items, Runs, issues and traces and lost no comment and no metric, with any clock
  and fresh identifiers, and changes no row except the agents' status.\<close>

theorem repeated_projection_adds_nothing:
  assumes "project wk es w v = (w1, Inr ())" "distinct (map xt_id (xtraces (w_db w)))" "same_fact v v'"
    "tasks (w_db w2) = tasks (w_db w1)" "runs (w_db w2) = runs (w_db w1)" "issues (w_db w2) = issues (w_db w1)"
    "xtraces (w_db w2) = xtraces (w_db w1)" "set (comments (w_db w1)) \<subseteq> set (comments (w_db w2))"
    "set (metrics (w_db w1)) \<subseteq> set (metrics (w_db w2))"
  shows "\<exists>w3. project wk es' w2 v' = (w3, Inr ()) \<and> same_rows (w_db w2) (w_db w3)"
proof (rule project_again)
  have "event_settled wk (w_db w1) v" using project_settles [OF assms(1,2)] by blast
  then show "event_settled wk (w_db w2) v'"
    by (rule event_settled_cong [rotated 6]) (use assms in \<open>simp_all add: same_fact_def\<close>)
qed

definition demo_worker :: worker where
  "demo_worker = \<lparr>wk_queries = True, wk_bus = True, wk_trace = True,
     wk_codec = demo_codec\<lparr>cd_completed := (\<lambda>s. (\<lparr>cp_output = s, cp_duration_ms = 1, cp_usage = None\<rparr>, True))\<rparr>,
     wk_redact = (\<lambda>s. s), wk_expand = (\<lambda>_ _ s. s)\<rparr>"

definition demo_fact :: outbox_row where
  "demo_fact = new_outbox_row (demo_env 5) 1 1000 (Some 2000) ''run.completed'' 1 (status_payload Completed)"

lemmas demo5_rows = demo5_def demo3_def demo2_def demo1_def demo_done_def demo_closed_def completed_task_def
  closed_run_def completion_params_def demo_completion_def new_outbox_row_def demo_rows

definition demo_comment :: comment_row where
  "demo_comment = \<lparr>cm_id = 13000, cm_issue = 30, cm_workspace = 1, cm_author_type = ''agent'', cm_author = 10,
     cm_content = ''done'', cm_type = ''comment'', cm_created_at = 46800000000000, cm_parent = None,
     cm_event = Some 5001\<rparr>"

lemma demo_projected:
  "\<exists>w1. project demo_worker (\<lambda>k. demo_env (10 + k)) \<lparr>w_db = demo5, w_bus = []\<rparr> demo_fact = (w1, Inr ()) \<and>
     comments (w_db w1) = [demo_comment]"
  by ((simp add: project_def demo_fact_def lifecycle_event_version_def get_task_def get_issue_def get_run_def
        select_one_def demo5_rows),
      (simp add: project_trace_def start_trace_def end_trace_def ev_defs trace_status_def demo_worker_def
        resolve_agent_provider_def get_agent_def select_one_def demo_agent_def with_db_def trace_running_def upd_where_def Let_def),
      (simp add: project_type_def Let_def ev_defs opt_text_def),
      (simp add: worker_reconcile_def update_agent_status_stmt_def count_running_tasks_def select_one_def upd_where_def
        with_db_def emit_def project_completion_comment_def create_lifecycle_comment_def
        create_comment_for_lifecycle_event_def insert_keyed_def comment_admitted_def new_comment_def project_metric_def
        metric_of_def insert_agent_task_metric_def new_metric_def metric_admitted_def payload_tokens_def
        normalize_metric_task_type_def publish_task_event_def resolve_agent_provider_def get_agent_def Let_def
        demo_comment_def demo_env_def))

lemma repeated_projection_adds_nothing_witness:
  "\<exists>w1 w3. project demo_worker (\<lambda>k. demo_env (10 + k)) \<lparr>w_db = demo5, w_bus = []\<rparr> demo_fact = (w1, Inr ()) \<and>
     project demo_worker (\<lambda>k. demo_env (20 + k)) w1 (leased_event (demo_env 20) demo_fact) = (w3, Inr ()) \<and>
     comments (w_db w3) = [demo_comment]"
proof -
  obtain w1 where w1: "project demo_worker (\<lambda>k. demo_env (10 + k)) \<lparr>w_db = demo5, w_bus = []\<rparr> demo_fact = (w1, Inr ())"
    "comments (w_db w1) = [demo_comment]" using demo_projected by blast
  have "same_fact demo_fact (leased_event (demo_env 20) demo_fact)" by (simp add: same_fact_def)
  with w1 obtain w3 where "project demo_worker (\<lambda>k. demo_env (20 + k)) w1 (leased_event (demo_env 20) demo_fact) = (w3, Inr ())"
      "same_rows (w_db w1) (w_db w3)"
    using repeated_projection_adds_nothing [OF w1(1), of _ w1] by (auto simp: demo5_def demo3_def demo2_def demo1_def demo0_def)
  with w1 show ?thesis by (auto simp: same_rows_tables)
qed

lemma outbox_processed_in_order_witness:
  "outbox_inv demo5 \<and> outbox_inv (w_db (fst (process_next demo_worker (\<lambda>_. ''e'') (\<lambda>k. demo_env (10 + k)) \<lparr>w_db = demo5, w_bus = []\<rparr>)))"
proof -
  have "outbox_inv demo5"
    by (simp add: outbox_inv_def distinct_events_def leased_open_def in_order_def event_before_def demo5_def demo3_def demo2_def
        new_outbox_row_def demo_env_def open_event_def)
  with outbox_processed_in_order [of "\<lparr>w_db = demo5, w_bus = []\<rparr>" demo_worker "\<lambda>_. ''e''" "\<lambda>k. demo_env (10 + k)"]
  show ?thesis by simp
qed

text \<open>The first claim of the demo takes the older fact; half a minute later it is claimable again.\<close>

definition demo_started_fact :: outbox_row where
  "demo_started_fact = new_outbox_row (demo_env 3) 1 1000 (Some 2000) ''run.started'' 1 (status_payload Running)"

lemma demo_claim:
  "claim_lifecycle_outbox_event (demo_env 10) demo5
     = Inr (demo5\<lparr>outbox := [leased_event (demo_env 10) demo_started_fact, demo_fact]\<rparr>, leased_event (demo_env 10) demo_started_fact)"
  by (simp add: claim_lifecycle_outbox_event_def event_claimable_def open_event_def event_before_def upd_where_def
      demo_started_fact_def demo_fact_def demo5_def demo3_def demo2_def new_outbox_row_def demo_env_def seconds_def)

lemma demo_reclaim:
  "claim_lifecycle_outbox_event (demo_env 11) (demo5\<lparr>outbox := [leased_event (demo_env 10) demo_started_fact, demo_fact]\<rparr>)
     = Inr (demo5\<lparr>outbox := [leased_event (demo_env 11) (leased_event (demo_env 10) demo_started_fact), demo_fact]\<rparr>,
            leased_event (demo_env 11) (leased_event (demo_env 10) demo_started_fact))"
  by (simp add: claim_lifecycle_outbox_event_def event_claimable_def open_event_def event_before_def upd_where_def leased_event_def
      demo_started_fact_def demo_fact_def new_outbox_row_def demo_env_def seconds_def)

lemma superseded_worker_fenced_witness:
  "\<not> is_ok (snd (process_claimed demo_worker (\<lambda>_. ''e'') (\<lambda>k. demo_env (20 + k))
     \<lparr>w_db = demo5\<lparr>outbox := [leased_event (demo_env 11) (leased_event (demo_env 10) demo_started_fact), demo_fact]\<rparr>, w_bus = []\<rparr>
     (leased_event (demo_env 10) demo_started_fact)))"
proof -
  have "distinct_events (demo5\<lparr>outbox := [leased_event (demo_env 10) demo_started_fact, demo_fact]\<rparr>)"
    by (simp add: distinct_events_def demo_started_fact_def demo_fact_def new_outbox_row_def demo_env_def)
  then show ?thesis
    using superseded_worker_fenced [OF _ _ _ _ _, of "demo5\<lparr>outbox := [leased_event (demo_env 10) demo_started_fact, demo_fact]\<rparr>"
        "demo_env 11" "\<lparr>w_db = demo5\<lparr>outbox := [leased_event (demo_env 11) (leased_event (demo_env 10) demo_started_fact), demo_fact]\<rparr>,
          w_bus = []\<rparr>" "leased_event (demo_env 11) (leased_event (demo_env 10) demo_started_fact)"
        "leased_event (demo_env 10) demo_started_fact" "e_gen (demo_env 10) 0"] demo_reclaim
    by (simp add: demo_env_def)
qed

text \<open>The wait after the \<open>n\<close>-th failed attempt: \<open>2 ^ n\<close> seconds, at most 256.\<close>

lemma backoff_secs_exact: "backoff_secs n = 2 ^ min n 8"
proof -
  have "(2::int) ^ min n 8 \<le> 2 ^ 8" by (rule power_increasing) auto
  then show ?thesis by (simp add: backoff_secs_def)
qed

lemma backoff_secs_bounds: "1 \<le> n \<Longrightarrow> 2 \<le> backoff_secs n \<and> backoff_secs n \<le> 256"
proof -
  assume "1 \<le> n"
  then have "(2::int) ^ 1 \<le> 2 ^ min n 8" "(2::int) ^ min n 8 \<le> 2 ^ 8" by (intro power_increasing; simp)+
  then show ?thesis by (simp add: backoff_secs_exact)
qed

text \<open>A failed projection is put back, not lost: the round reports the error, the claimed event is
  unlocked with the error text and can be claimed again between 2 and 256 seconds later (doubling
  with each attempt; the cap of 300 is never reached), unless this was its twentieth attempt or
  later, when it is dead-lettered; no other event changes.\<close>

theorem failed_projection_backs_off:
  assumes "wk_queries wk" "distinct_events (w_db w)" "claim_lifecycle_outbox_event (es 6) (w_db w) = Inr (d, v)"
    "project wk es (with_db w d) v = (w1, Inl err)"
  shows "\<exists>w' v'. process_next wk f es w = (w', True, Some err) \<and> ob_id v' = ob_id v \<and>
     outbox (w_db w') = map (\<lambda>x. if ob_id x = ob_id v then v' else x) (outbox (w_db w)) \<and>
     ob_locked_at v' = None \<and> ob_attempts v' = ob_attempts v \<and> ob_processed_at v' = None \<and>
     ob_last_error v' = Some (error_text f err) \<and>
     ob_available_at v' = e_now (es 5) + seconds (2 ^ min (ob_attempts v) 8) \<and>
     e_now (es 5) + seconds 2 \<le> ob_available_at v' \<and> ob_available_at v' \<le> e_now (es 5) + seconds 256 \<and>
     (ob_dead_at v' \<noteq> None \<longleftrightarrow> 20 \<le> ob_attempts v)"
proof -
  from assms(3) obtain u where u: "u \<in> set (outbox (w_db w))" "event_claimable (es 6) (w_db w) u" "v = leased_event (es 6) u"
    "d = (w_db w)\<lparr>outbox := upd_where (\<lambda>x. ob_id x = ob_id u) (leased_event (es 6)) (outbox (w_db w))\<rparr>"
    by (rule claim_event_Inr)
  let ?r = "released_event (es 5) (error_text f err) v"
  have ob: "outbox (w_db w1) = outbox d" using project_outbox [of wk es "with_db w d" v] assms(4) by simp
  let ?d = "fst (release_lifecycle_outbox_event (es 5) (w_db w1) (ob_id v) (ob_lock_token v) (error_text f err))"
  have uniq: "x = u" if "x \<in> set (outbox (w_db w))" "ob_id x = ob_id u" for x
    using assms(2) u(1) that by (auto simp: distinct_events_def dest: distinct_key_eq)
  have "outbox ?d = map (\<lambda>x. if ob_id x = ob_id v then ?r else x) (outbox (w_db w))"
  proof -
    have row: "(if held (ob_id v) (ob_lock_token v) (if ob_id x = ob_id u then leased_event (es 6) x else x)
        then released_event (es 5) (error_text f err) (if ob_id x = ob_id u then leased_event (es 6) x else x)
        else (if ob_id x = ob_id u then leased_event (es 6) x else x)) = (if ob_id x = ob_id v then ?r else x)"
      if "x \<in> set (outbox (w_db w))" for x
    proof (cases "ob_id x = ob_id u")
      case True
      then have "x = u" by (rule uniq [OF that])
      then show ?thesis using u(2,3) by (simp add: held_def event_claimable_def open_event_def)
    next
      case False
      then show ?thesis using u(3) by (simp add: held_def)
    qed
    then show ?thesis
      unfolding release_lifecycle_outbox_event_def upd_where_def by (simp add: ob u(4) upd_where_def)
  qed
  moreover have "process_next wk f es w = (with_db w1 ?d, True, Some err)"
    using assms by (simp add: process_next_def process_claimed_def)
  moreover have "ob_processed_at ?r = None" using u(2,3) by (simp add: event_claimable_def open_event_def)
  moreover have "2 \<le> backoff_secs (ob_attempts v)" "backoff_secs (ob_attempts v) \<le> 256"
    using backoff_secs_bounds [of "ob_attempts v"] u(3) by auto
  ultimately show ?thesis
    by (intro exI [of _ "with_db w1 ?d"] exI [of _ ?r])
      (simp add: released_event_def backoff_secs_exact [symmetric] seconds_def)
qed

text \<open>A fact of a version the worker does not know fails each time.\<close>

lemma failed_projection_backs_off_witness:
  "\<exists>w'. process_next demo_worker (\<lambda>_. ''e'') (\<lambda>k. demo_env (10 + k))
     \<lparr>w_db = demo5\<lparr>outbox := [demo_fact\<lparr>ob_version := 2, ob_attempts := 19\<rparr>]\<rparr>, w_bus = []\<rparr>
     = (w', True, Some (ErrMsg (''unsupported lifecycle event version '' @ itoa 2))) \<and>
     map ob_attempts (outbox (w_db w')) = [20] \<and> map (\<lambda>x. ob_dead_at x = None) (outbox (w_db w')) = [False]"
proof -
  let ?u = "demo_fact\<lparr>ob_version := 2, ob_attempts := 19\<rparr>" and ?es = "\<lambda>k. demo_env (10 + k)"
  let ?w = "\<lparr>w_db = demo5\<lparr>outbox := [?u]\<rparr>, w_bus = []\<rparr>" and ?d = "demo5\<lparr>outbox := [leased_event (demo_env 16) ?u]\<rparr>"
  have h: "wk_queries demo_worker" "distinct_events (w_db ?w)"
    by (simp_all add: demo_worker_def distinct_events_def)
  have cl: "claim_lifecycle_outbox_event (?es 6) (w_db ?w) = Inr (?d, leased_event (demo_env 16) ?u)"
    by (simp add: claim_lifecycle_outbox_event_def event_claimable_def open_event_def event_before_def upd_where_def
        demo_fact_def new_outbox_row_def demo_env_def seconds_def)
  have "project demo_worker ?es (with_db ?w ?d) (leased_event (demo_env 16) ?u)
      = (with_db ?w ?d, Inl (ErrMsg (''unsupported lifecycle event version '' @ itoa 2)))"
    by (simp add: project_def lifecycle_event_version_def)
  from failed_projection_backs_off [OF h cl this, of "\<lambda>_. ''e''"] show ?thesis
    by (auto simp: demo_fact_def new_outbox_row_def)
qed

text \<open>The queue does not stall: whenever some fact is open, every open fact is due, unleased and not
  locked by another transaction, then a claim succeeds, and what it hands out is the first open
  fact of all, under the new token and with one more attempt counted.\<close>

theorem open_events_are_claimed:
  assumes "v \<in> set (outbox d)" "open_event v"
    "\<forall>x\<in>set (outbox d). open_event x \<longrightarrow> ob_available_at x \<le> e_now e \<and> ob_locked_at x = None \<and> \<not> e_locked e (ob_id x)"
  shows "\<exists>d' u. claim_lifecycle_outbox_event e d = Inr (d', leased_event e u) \<and> u \<in> set (outbox d) \<and> open_event u \<and>
    (\<forall>x\<in>set (outbox d). open_event x \<longrightarrow> \<not> event_before x u)"
proof -
  let ?open = "filter open_event (outbox d)"
  obtain u where u: "first_by event_before ?open = Some u"
    using assms(1,2) by (cases "first_by event_before ?open") (auto simp: filter_empty_conv)
  have first: "\<not> event_before x u" if "x \<in> set (outbox d)" "open_event x" for x
    using first_by_least [OF u _ event_before_order, of x] that by simp
  have in_u: "u \<in> set (outbox d)" "open_event u" using first_by_in [OF u] by auto
  then have "event_claimable e d u \<and> \<not> e_locked e (ob_id u)" using assms(3) first by (auto simp: event_claimable_def)
  then obtain d' c where c: "claim_lifecycle_outbox_event e d = Inr (d', c)"
    using in_u claim_event_none [of e d] by (cases "claim_lifecycle_outbox_event e d") auto
  from this obtain x where x: "x \<in> set (outbox d)" "event_claimable e d x" "c = leased_event e x"
    "\<And>y. y \<in> set (outbox d) \<Longrightarrow> event_claimable e d y \<Longrightarrow> \<not> e_locked e (ob_id y) \<Longrightarrow> \<not> event_before y x"
    by (rule claim_event_Inr) (rule that; assumption)
  have "open_event x" using x(2) by (simp add: event_claimable_def)
  moreover have "\<not> event_before y x" if "y \<in> set (outbox d)" "open_event y" for y
    using event_before_order(2) [OF first [OF that] x(4) [OF in_u(1)]] \<open>event_claimable e d u \<and> \<not> e_locked e (ob_id u)\<close> by blast
  ultimately show ?thesis using c x(1,3) by blast
qed

lemma open_events_are_claimed_witness:
  "\<exists>d' u. claim_lifecycle_outbox_event (demo_env 10) demo5 = Inr (d', leased_event (demo_env 10) u) \<and> u \<in> set (outbox demo5)"
proof -
  have "demo_fact \<in> set (outbox demo5)" "open_event demo_fact"
    "\<forall>x\<in>set (outbox demo5). open_event x \<longrightarrow> ob_available_at x \<le> e_now (demo_env 10) \<and> ob_locked_at x = None \<and> \<not> e_locked (demo_env 10) (ob_id x)"
    by (simp_all add: demo_fact_def demo5_def demo3_def demo2_def new_outbox_row_def demo_env_def open_event_def)
  from open_events_are_claimed [OF this] show ?thesis by blast
qed

lemma process_next_idle:
  "process_next wk f es w = (w', False, None) \<Longrightarrow> w' = w \<and> claim_lifecycle_outbox_event (es 6) (w_db w) = Inl ErrNoRows"
  by (auto simp: process_next_def claim_event_none split: if_splits sum.splits prod.splits)

text \<open>C16. Draining terminates and leaves nothing behind: a drain always returns, after at most as
  many completed rounds as facts were open at the start, and when it returns without an error no fact is claimable any more, except those
  another worker holds locked.\<close>

theorem drain_ends:
  assumes "drain wk f ess n w = (w', n', err)"
  shows "n \<le> n' \<and> n' \<le> n + count_pending_lifecycle_outbox_events (w_db w) \<and>
    (err = None \<longrightarrow> (\<forall>v\<in>set (outbox (w_db w')). event_claimable (ess n' 6) (w_db w') v \<longrightarrow> e_locked (ess n' 6) (ob_id v)))"
  using assms
proof (induction wk f ess n w rule: drain.induct)
  case (1 wk f ess n w)
  obtain w1 p e where pn: "process_next wk f (ess n) w = (w1, p, e)" by (cases "process_next wk f (ess n) w") auto
  show ?case
  proof (cases e)
    case (Some x)
    with 1(2) pn have "w' = w1" "n' = n" "err = Some x" by (cases p; simp add: drain.simps [of wk f ess n])+
    then show ?thesis by simp
  next
    case None
    show ?thesis
    proof (cases p)
      case True
      with None pn have step: "process_next wk f (ess n) w = (w1, True, None)" by simp
      have rest: "drain wk f ess (Suc n) w1 = (w', n', err)" using 1(2) step by (simp add: drain.simps [of wk f ess n])
      have less: "count_pending_lifecycle_outbox_events (w_db w1) < count_pending_lifecycle_outbox_events (w_db w)"
        by (rule process_next_decreases [OF step])
      from 1(1) [OF step [symmetric] refl refl refl rest] less show ?thesis by auto
    next
      case False
      with None pn have step: "process_next wk f (ess n) w = (w1, False, None)" by simp
      with 1(2) have "w' = w1" "n' = n" by (simp_all add: drain.simps [of wk f ess n])
      with process_next_idle [OF step] claim_event_none [of "ess n 6" "w_db w"] show ?thesis by auto
    qed
  qed
qed

lemma drain_ends_witness:
  "\<exists>w' n' err. drain demo_worker (\<lambda>_. ''e'') (\<lambda>n k. demo_env (10 + 10 * n + k)) 0 \<lparr>w_db = demo5, w_bus = []\<rparr> = (w', n', err) \<and> n' \<le> 2"
proof -
  obtain w' n' err where d: "drain demo_worker (\<lambda>_. ''e'') (\<lambda>n k. demo_env (10 + 10 * n + k)) 0 \<lparr>w_db = demo5, w_bus = []\<rparr> = (w', n', err)"
    by (cases "drain demo_worker (\<lambda>_. ''e'') (\<lambda>n k. demo_env (10 + 10 * n + k)) 0 \<lparr>w_db = demo5, w_bus = []\<rparr>") auto
  have "count_pending_lifecycle_outbox_events demo5 = 2"
    by (simp add: count_pending_lifecycle_outbox_events_def open_event_def demo5_def demo3_def demo2_def new_outbox_row_def)
  with drain_ends [OF d] d show ?thesis by auto
qed

text \<open>The metric of a Run always lies in the columns' ranges: the token counts are the 64-bit sums
  saturated at the nonnegative 32-bit range and the duration is the Run's own, or zero; and
  whatever type the queue admits for a Work Item, the metric is recorded under \<^verbatim>\<open>other\<close>, so the
  check constraint on its type always holds.\<close>

theorem metric_in_range:
  assumes "tk_task_type t \<in> set task_types"
  shows "mq_task_type (metric_of wk d v i t r st) = ''other'' \<and>
    0 \<le> sint (mq_token_input (metric_of wk d v i t r st)) \<and> 0 \<le> sint (mq_token_output (metric_of wk d v i t r st)) \<and>
    sint (mq_duration_ms (metric_of wk d v i t r st)) = (case rn_duration_ms r of None \<Rightarrow> 0 | Some x \<Rightarrow> sint x)"
proof -
  have "normalize_metric_task_type (tk_task_type t) = ''other''"
    using assms by (auto simp: task_types_def normalize_metric_task_type_def)
  moreover have "sint (scast x :: i64) = sint (x :: i32)" for x
    by (rule sint_up_scast) (simp add: is_up)
  ultimately show ?thesis by (simp add: metric_of_def clamp_int32_sint split: prod.splits option.splits)
qed

lemma metric_in_range_witness:
  "mq_task_type (metric_of demo_worker demo5 demo_fact (demo_issue 30) demo_done demo_closed ''completed'') = ''other''"
proof -
  have "tk_task_type demo_done \<in> set task_types"
    by (simp add: task_types_def demo_done_def completed_task_def demo_rows)
  from metric_in_range [OF this] show ?thesis by blast
qed

end
