(* ===== verification/LoopStore.thy ===== *)
theory LoopStore
  imports Queries GoText
begin

text \<open>
  Engineering loops: the domain values of \<^verbatim>\<open>server/internal/loop/loop.go\<close>, the statements of
  \<^verbatim>\<open>server/pkg/db/queries/loops.sql\<close> and the store of \<^verbatim>\<open>server/internal/loop/store.go\<close>. The
  conversions between column and domain types are the identity here: a loop is its row.
\<close>

section \<open>Statuses and stages\<close>

definition loop_statuses :: "string list" where
  "loop_statuses = [''pending'', ''running'', ''paused'', ''done'', ''failed'', ''cancelled'']"

definition loop_stages :: "string list" where
  "loop_stages = [''plan'', ''develop'', ''review'', ''fix'']"

definition status_is_valid :: "string \<Rightarrow> bool" where
  "status_is_valid s \<longleftrightarrow> s \<in> set loop_statuses"

definition stage_is_valid :: "string \<Rightarrow> bool" where
  "stage_is_valid s \<longleftrightarrow> s \<in> set loop_stages"

text \<open>The task types of the stages, \<^verbatim>\<open>stageFromString\<close> and \<^verbatim>\<open>taskTypeForStage\<close>.\<close>

definition stage_from_string :: "string \<Rightarrow> string option" where
  "stage_from_string s =
     (if s = ''loop_plan'' then Some ''plan'' else if s = ''loop_develop'' then Some ''develop''
      else if s = ''loop_review'' then Some ''review'' else if s = ''loop_fix'' then Some ''fix'' else None)"

definition task_type_for_stage :: "string \<Rightarrow> string" where
  "task_type_for_stage s =
     (if s = ''plan'' then ''loop_plan'' else if s = ''develop'' then ''loop_develop''
      else if s = ''review'' then ''loop_review'' else if s = ''fix'' then ''loop_fix'' else '''')"

section \<open>Statements\<close>

text \<open>\<^verbatim>\<open>int32(n)\<close> of a Go \<^verbatim>\<open>int\<close>.\<close>

definition int32_of :: "int \<Rightarrow> int" where
  "int32_of n = sint (word_of_int n :: i32)"

definition loop_row_ok :: "loop_row \<Rightarrow> bool" where
  "loop_row_ok l \<longleftrightarrow> lr_status l \<in> set loop_statuses \<and>
     (case lr_stage l of None \<Rightarrow> True | Some s \<Rightarrow> s \<in> set loop_stages)"

record create_loop_params =
  lq_issue :: "uuid option"
  lq_workspace :: "uuid option"
  lq_max_iterations :: "int option"
  lq_agent :: "uuid option"
  lq_config :: string

definition create_loop_stmt :: "env \<Rightarrow> db \<Rightarrow> create_loop_params \<Rightarrow> (db \<times> loop_row) res" where
  "create_loop_stmt e d p =
     (case (lq_issue p, lq_workspace p) of
        (Some i, Some ws) \<Rightarrow>
          (let l = \<lparr>lr_id = e_gen e 0, lr_issue = i, lr_workspace = ws, lr_status = ''pending'', lr_stage = None,
                    lr_iteration = 0, lr_max_iterations = (case lq_max_iterations p of None \<Rightarrow> 5 | Some n \<Rightarrow> int32_of n),
                    lr_pr_url = None, lr_pr_number = None, lr_branch = None, lr_agent = lq_agent p,
                    lr_config = lq_config p, lr_failure_reason = None, lr_started_at = None, lr_completed_at = None,
                    lr_created_at = e_now e, lr_updated_at = e_now e\<rparr>
           in if lr_id l \<notin> lr_id ` set (loops d) \<and> i \<in> is_id ` set (issues d) \<and>
                 (case lq_agent p of None \<Rightarrow> True | Some a \<Rightarrow> a \<in> ag_id ` set (agents d))
              then Inr (d\<lparr>loops := loops d @ [l]\<rparr>, l) else Inl ErrConstraint)
      | _ \<Rightarrow> Inl ErrConstraint)"

definition select_loop :: "db \<Rightarrow> uuid option \<Rightarrow> loop_row res" where
  "select_loop d i = select_one (\<lambda>l. Some (lr_id l) = i) (loops d)"

record update_status_params =
  lu_status :: string
  lu_stage :: "string option"
  lu_iteration :: int
  lu_failure :: pgtext
  lu_started_at :: "time option"
  lu_completed_at :: "time option"

definition updated_loop :: "env \<Rightarrow> update_status_params \<Rightarrow> loop_row \<Rightarrow> loop_row" where
  "updated_loop e p l = l\<lparr>lr_status := lu_status p, lr_stage := lu_stage p, lr_iteration := lu_iteration p,
     lr_failure_reason := lu_failure p,
     lr_started_at := (case lr_started_at l of None \<Rightarrow> lu_started_at p | Some t \<Rightarrow> Some t),
     lr_completed_at := lu_completed_at p, lr_updated_at := e_now e\<rparr>"

definition update_loop_status :: "env \<Rightarrow> db \<Rightarrow> uuid option \<Rightarrow> update_status_params \<Rightarrow> (db \<times> loop_row) res" where
  "update_loop_status e d i p =
     or_fail (select_loop d i) (\<lambda>l.
       if loop_row_ok (updated_loop e p l)
       then Inr (d\<lparr>loops := upd_where (\<lambda>x. Some (lr_id x) = i) (updated_loop e p) (loops d)\<rparr>, updated_loop e p l)
       else Inl ErrConstraint)"

definition set_loop_pr :: "env \<Rightarrow> db \<Rightarrow> uuid option \<Rightarrow> pgtext \<Rightarrow> int option \<Rightarrow> pgtext \<Rightarrow> (db \<times> loop_row) res" where
  "set_loop_pr e d i url num branch =
     (let f = (\<lambda>l. l\<lparr>lr_pr_url := url, lr_pr_number := num, lr_branch := branch, lr_updated_at := e_now e\<rparr>) in
      or_fail (select_loop d i) (\<lambda>l. Inr (d\<lparr>loops := upd_where (\<lambda>x. Some (lr_id x) = i) f (loops d)\<rparr>, f l)))"

definition load_active_loops :: "db \<Rightarrow> loop_row list" where
  "load_active_loops d = take 1000 (sort_by (\<lambda>a b. lr_created_at a < lr_created_at b)
     (filter (\<lambda>l. lr_status l \<in> {''running'', ''paused''}) (loops d)))"

definition list_loops :: "db \<Rightarrow> uuid option \<Rightarrow> pgtext \<Rightarrow> uuid option \<Rightarrow> nat \<Rightarrow> loop_row list" where
  "list_loops d ws st i n = take n (sort_by (\<lambda>a b. lr_created_at b < lr_created_at a)
     (filter (\<lambda>l. Some (lr_workspace l) = ws \<and> (st = None \<or> st = Some (lr_status l)) \<and>
        (i = None \<or> i = Some (lr_issue l))) (loops d)))"

definition has_in_flight_task_for_loop_stage :: "db \<Rightarrow> uuid \<Rightarrow> string \<Rightarrow> bool" where
  "has_in_flight_task_for_loop_stage d i ty \<longleftrightarrow>
     (\<exists>t\<in>set (tasks d). tk_loop t = Some i \<and> tk_task_type t = ty \<and> (tk_status t = Queued \<or> active (tk_status t)))"

section \<open>The store\<close>

record update_status_input =
  ui_status :: "string option"
  ui_stage :: "string option"
  ui_iteration :: "int option"
  ui_failure :: "string option"
  ui_started_at :: "time option"
  ui_completed_at :: "time option"

definition no_update :: update_status_input where
  "no_update = \<lparr>ui_status = None, ui_stage = None, ui_iteration = None, ui_failure = None, ui_started_at = None,
     ui_completed_at = None\<rparr>"

definition status_params :: "update_status_input \<Rightarrow> update_status_params" where
  "status_params u = \<lparr>lu_status = (case ui_status u of None \<Rightarrow> '''' | Some s \<Rightarrow> s), lu_stage = ui_stage u,
     lu_iteration = int32_of (case ui_iteration u of None \<Rightarrow> 0 | Some n \<Rightarrow> n), lu_failure = ui_failure u,
     lu_started_at = ui_started_at u, lu_completed_at = ui_completed_at u\<rparr>"

definition store_update_status :: "env \<Rightarrow> db \<Rightarrow> uuid option \<Rightarrow> update_status_input \<Rightarrow> (db \<times> loop_row) res" where
  "store_update_status e d i u = or_wrap ''UpdateLoopStatus'' (update_loop_status e d i (status_params u)) Inr"

definition store_create_loop :: "env \<Rightarrow> db \<Rightarrow> create_loop_params \<Rightarrow> (db \<times> loop_row) res" where
  "store_create_loop e d p = or_wrap ''CreateLoop'' (create_loop_stmt e d p) Inr"

definition store_get_loop :: "db \<Rightarrow> uuid option \<Rightarrow> loop_row res" where
  "store_get_loop d i =
     (case select_loop d i of
        Inr l \<Rightarrow> Inr l
      | Inl err \<Rightarrow> if error_is err ErrNoRows then Inl ErrLoopNotFound else Inl (ErrWrap ''GetLoop'' err))"

definition store_set_pr :: "env \<Rightarrow> db \<Rightarrow> uuid option \<Rightarrow> string \<Rightarrow> int \<Rightarrow> string \<Rightarrow> (db \<times> loop_row) res" where
  "store_set_pr e d i url num branch =
     or_wrap ''SetLoopPR'' (set_loop_pr e d i (str_to_text url) (Some (int32_of num)) (str_to_text branch)) Inr"

section \<open>Facts\<close>

text \<open>The two stage maps are inverse to each other on the known stages and nothing else.\<close>

lemma stage_maps:
  "stage_from_string ty = Some s \<longleftrightarrow> s \<in> set loop_stages \<and> task_type_for_stage s = ty"
  "task_type_for_stage s = '''' \<longleftrightarrow> s \<notin> set loop_stages"
  by (auto simp: stage_from_string_def task_type_for_stage_def loop_stages_def)

lemma task_type_for_stage_type: "s \<in> set loop_stages \<Longrightarrow> task_type_for_stage s \<in> set task_types"
  by (auto simp: task_type_for_stage_def loop_stages_def task_types_def)

lemma int32_of_small: "- (2 ^ 31) \<le> n \<Longrightarrow> n < 2 ^ 31 \<Longrightarrow> int32_of n = n"
  by (simp add: int32_of_def sint_sbintrunc' signed_take_bit_int_eq_self)

lemma updated_loop_simps [simp]:
  "lr_id (updated_loop e p l) = lr_id l" "lr_issue (updated_loop e p l) = lr_issue l"
  "lr_workspace (updated_loop e p l) = lr_workspace l" "lr_status (updated_loop e p l) = lu_status p"
  "lr_stage (updated_loop e p l) = lu_stage p" "lr_iteration (updated_loop e p l) = lu_iteration p"
  "lr_max_iterations (updated_loop e p l) = lr_max_iterations l" "lr_branch (updated_loop e p l) = lr_branch l"
  "lr_pr_number (updated_loop e p l) = lr_pr_number l" "lr_completed_at (updated_loop e p l) = lu_completed_at p"
  by (simp_all add: updated_loop_def)

lemma status_params_simps [simp]:
  "lu_stage (status_params u) = ui_stage u" "lu_completed_at (status_params u) = ui_completed_at u"
  "lu_failure (status_params u) = ui_failure u"
  by (simp_all add: status_params_def)

definition distinct_loops :: "db \<Rightarrow> bool" where
  "distinct_loops d \<longleftrightarrow> distinct (map lr_id (loops d))"

lemma select_loop_Inr: "select_loop d i = Inr l \<Longrightarrow> l \<in> set (loops d) \<and> i = Some (lr_id l)"
  unfolding select_loop_def by (drule select_one_Inr) auto

lemma select_loop_key: "distinct_loops d \<Longrightarrow> l \<in> set (loops d) \<Longrightarrow> select_loop d (Some (lr_id l)) = Inr l"
  unfolding select_loop_def distinct_loops_def by (rule select_one_key [where key = lr_id]) auto

lemma store_update_status_Inr:
  assumes "store_update_status e d i u = Inr (d', l')"
  obtains l where "select_loop d i = Inr l" "l' = updated_loop e (status_params u) l" "loop_row_ok l'"
    "d' = d\<lparr>loops := upd_where (\<lambda>x. Some (lr_id x) = i) (updated_loop e (status_params u)) (loops d)\<rparr>"
  using assms that by (auto simp: store_update_status_def update_loop_status_def or_wrap_Inr or_fail_Inr split: if_splits)

lemma store_update_status_frame:
  assumes "store_update_status e d i u = Inr (d', l')"
  shows "\<exists>ls. d' = d\<lparr>loops := ls\<rparr>" "map lr_id (loops d') = map lr_id (loops d)"
  using assms by (auto elim!: store_update_status_Inr intro!: map_upd_where)

lemma store_set_pr_frame:
  assumes "store_set_pr e d i url num br = Inr (d', l')"
  shows "\<exists>ls. d' = d\<lparr>loops := ls\<rparr>" "map lr_id (loops d') = map lr_id (loops d)"
  using assms by (auto simp: store_set_pr_def set_loop_pr_def or_wrap_Inr or_fail_Inr Let_def intro!: map_upd_where)

lemma select_loop_upd:
  assumes "\<And>l. lr_id (f l) = lr_id l"
  shows "select_loop (d\<lparr>loops := upd_where P f (loops d)\<rparr>) i = map_sum id (\<lambda>l. if P l then f l else l) (select_loop d i)"
  unfolding select_loop_def using assms by (simp add: select_one_upd_where)

end
