(* ===== verification/LoopResult.thy ===== *)
theory LoopResult
  imports GoText
begin

text \<open>
  \<^verbatim>\<open>parseTaskResult\<close> of \<^verbatim>\<open>server/internal/loop/coordinator_helpers.go\<close>: the result of a stage is
  the agent's free text, out of which the first balanced JSON object is cut. The decoder of one
  JSON text (\<^verbatim>\<open>json.Unmarshal\<close> into \<^verbatim>\<open>TaskResult\<close>) is a parameter. The scanner is related to a
  printer of JSON values: it cuts out exactly what was printed.
\<close>

record task_result =
  tr_review_approved :: "bool option"
  tr_review_issues :: string
  tr_pr_url :: string
  tr_pr_number :: "i64 option"
  tr_branch_name :: string

section \<open>The scanner\<close>

abbreviation c_quote :: char where "c_quote \<equiv> CHR 0x22"
abbreviation c_backslash :: char where "c_backslash \<equiv> CHR 0x5c"
abbreviation c_lbrace :: char where "c_lbrace \<equiv> CHR 0x7b"
abbreviation c_rbrace :: char where "c_rbrace \<equiv> CHR 0x7d"

text \<open>
  The loop over the bytes from the first brace on, with its state \<^verbatim>\<open>depth\<close>, \<^verbatim>\<open>inString\<close>,
  \<^verbatim>\<open>escape\<close>; the result is the offset of the brace that brings the depth back to zero.
\<close>

fun scan_object :: "int \<Rightarrow> bool \<Rightarrow> bool \<Rightarrow> string \<Rightarrow> nat option" where
  "scan_object depth in_string escape [] = None"
| "scan_object depth in_string escape (c # cs) =
     (if escape then map_option Suc (scan_object depth in_string False cs)
      else if c = c_backslash \<and> in_string then map_option Suc (scan_object depth in_string True cs)
      else if c = c_quote then map_option Suc (scan_object depth (\<not> in_string) False cs)
      else if in_string then map_option Suc (scan_object depth in_string False cs)
      else if c = c_lbrace then map_option Suc (scan_object (depth + 1) in_string False cs)
      else if c = c_rbrace then
        (if depth - 1 = 0 then Some 0 else map_option Suc (scan_object (depth - 1) in_string False cs))
      else map_option Suc (scan_object depth in_string False cs))"

definition extract_object :: "string \<Rightarrow> string option" where
  "extract_object s =
     (case index_of s [c_lbrace] of
        None \<Rightarrow> None
      | Some start \<Rightarrow> map_option (\<lambda>k. take (k + 1) (drop start s)) (scan_object 0 False False (drop start s)))"

definition parse_task_result :: "(string \<Rightarrow> 'r option) \<Rightarrow> string \<Rightarrow> 'r option" where
  "parse_task_result decode raw =
     (if raw = '''' then None
      else case decode raw of
        Some r \<Rightarrow> Some r
      | None \<Rightarrow> (case extract_object raw of None \<Rightarrow> None | Some t \<Rightarrow> decode t))"

section \<open>Printing JSON\<close>

definition json_char :: "char \<Rightarrow> string" where
  "json_char c = (let n = (of_char c :: nat) in
     if c = c_quote \<or> c = c_backslash then [c_backslash, c]
     else if n < 32 then [c_backslash, CHR ''u'', CHR ''0'', CHR ''0'', hex_digit (n div 16), hex_digit (n mod 16)]
     else [c])"

definition json_string :: "string \<Rightarrow> string" where
  "json_string s = [c_quote] @ concat (map json_char s) @ [c_quote]"

fun separated :: "string \<Rightarrow> string list \<Rightarrow> string" where
  "separated sep [] = ''''"
| "separated sep [x] = x"
| "separated sep (x # xs) = x @ sep @ separated sep xs"

fun json_text :: "json \<Rightarrow> string" where
  "json_text JNull = ''null''"
| "json_text (JBool b) = (if b then ''true'' else ''false'')"
| "json_text (JInt i) = itoa i"
| "json_text (JStr s) = json_string s"
| "json_text (JArr js) = ''['' @ separated '','' (map json_text js) @ '']''"
| "json_text (JObj m) = [c_lbrace] @ separated '','' (map (\<lambda>(k, v). json_string k @ '':'' @ json_text v) m) @ [c_rbrace]"

section \<open>The scanner passes over printed values\<close>

definition shift :: "nat \<Rightarrow> nat option \<Rightarrow> nat option" where
  "shift n x = map_option (\<lambda>k. n + k) x"

lemma shift_simps [simp]:
  "shift 0 x = x" "shift m (shift n x) = shift (m + n) x" "map_option Suc (shift n x) = shift (Suc n) x"
  "shift n (Some k) = Some (n + k)" "shift n None = None"
  by (cases x; simp add: shift_def)+

lemma map_option_shift: "map_option Suc x = shift (Suc 0) x"
  by (cases x) (simp_all add: shift_def)

text \<open>A text the scanner passes over at any positive depth, outside strings.\<close>

definition passes :: "string \<Rightarrow> bool" where
  "passes t \<longleftrightarrow> (\<forall>d rest. 0 < d \<longrightarrow>
     scan_object d False False (t @ rest) = shift (length t) (scan_object d False False rest))"

lemma passes_Nil [simp]: "passes []"
  by (simp add: passes_def)

lemma passes_append: "passes s \<Longrightarrow> passes t \<Longrightarrow> passes (s @ t)"
  by (simp add: passes_def)

lemma passes_plain: "c \<notin> {c_quote, c_lbrace, c_rbrace} \<Longrightarrow> passes t \<Longrightarrow> passes (c # t)"
  by (simp add: passes_def)

lemma passes_all_plain: "(\<And>c. c \<in> set t \<Longrightarrow> c \<notin> {c_quote, c_lbrace, c_rbrace}) \<Longrightarrow> passes t"
  by (induction t) (simp_all add: passes_plain)

lemma passes_braces: "passes t \<Longrightarrow> passes (c_lbrace # t @ [c_rbrace])"
  by (auto simp: passes_def map_option_shift)

lemma passes_separated: "passes sep \<Longrightarrow> (\<And>t. t \<in> set ts \<Longrightarrow> passes t) \<Longrightarrow> passes (separated sep ts)"
  by (induction sep ts rule: separated.induct) (auto intro!: passes_append)

lemma hex_digit_plain: "n < 16 \<Longrightarrow> hex_digit n \<notin> {c_quote, c_backslash, c_lbrace, c_rbrace}"
proof -
  assume "n < 16"
  have code: "(of_char (hex_digit n) :: nat) = (if n < 10 then 48 + n else 87 + n)"
    using \<open>n < 16\<close> by (simp add: hex_digit_def)
  show ?thesis
  proof
    assume "hex_digit n \<in> {c_quote, c_backslash, c_lbrace, c_rbrace}"
    then have "(of_char (hex_digit n) :: nat) \<in> {34, 92, 123, 125}" by auto
    with code \<open>n < 16\<close> show False by (auto split: if_splits)
  qed
qed

text \<open>Inside a string: an escaped character keeps the scanner inside.\<close>

lemma scan_json_char:
  "scan_object d True False (json_char c @ rest) = shift (length (json_char c)) (scan_object d True False rest)"
proof -
  have hex: "hex_digit n \<noteq> c_quote" "hex_digit n \<noteq> c_backslash" if "n < 16" for n
    using hex_digit_plain [OF that] by auto
  have "(of_char c :: nat) < 256" using of_char_mod_256 [where 'a = nat, of c] by (metis mod_less_divisor zero_less_numeral)
  then have "(of_char c :: nat) div 16 < 16" by (simp add: less_mult_imp_div_less)
  with hex show ?thesis by (simp add: json_char_def Let_def map_option_shift)
qed

lemma scan_json_chars:
  "scan_object d True False (concat (map json_char s) @ rest)
     = shift (length (concat (map json_char s))) (scan_object d True False rest)"
  by (induction s) (simp_all add: scan_json_char)

lemma passes_json_string: "passes (json_string s)"
  by (simp add: passes_def json_string_def scan_json_chars map_option_shift)

lemma digits_plain: "c \<in> set (digits n) \<Longrightarrow> c \<notin> {c_quote, c_lbrace, c_rbrace}"
proof (induction n rule: digits.induct)
  case (1 n)
  have dig: "char_of (48 + k) \<notin> {c_quote, c_lbrace, c_rbrace}" if "k < 10" for k :: nat
  proof
    assume "char_of (48 + k) \<in> {c_quote, c_lbrace, c_rbrace}"
    then have "(of_char (char_of (48 + k) :: char) :: nat) \<in> of_char ` {c_quote, c_lbrace, c_rbrace}" by (rule imageI)
    with that show False by simp
  qed
  show ?case
  proof (cases "n < 10")
    case True
    with 1(2) dig show ?thesis by (simp add: digits.simps [of n])
  next
    case False
    with 1(2) have "c \<in> set (digits (n div 10)) \<or> c = char_of (48 + n mod 10)"
      by (subst (asm) digits.simps) auto
    with 1(1) [OF False] dig [of "n mod 10"] show ?thesis by auto
  qed
qed

lemma passes_itoa: "passes (itoa i)"
  by (rule passes_all_plain) (auto simp: itoa_def dest: digits_plain split: if_splits)

lemma passes_members:
  "(\<And>k v. (k, v) \<in> set m \<Longrightarrow> passes (json_text v)) \<Longrightarrow>
     passes (separated '','' (map (\<lambda>(k, v). json_string k @ '':'' @ json_text v) m))"
  by (rule passes_separated) (auto intro!: passes_append passes_json_string passes_plain)

lemma passes_json_text: "passes (json_text j)"
proof (induction j rule: json_text.induct)
  case (2 b)
  show ?case by (simp add: passes_plain)
next
  case (5 js)
  have "passes (separated '','' (map json_text js))"
    using 5 by (intro passes_separated) (auto simp: passes_plain)
  then have "passes (separated '','' (map json_text js) @ '']'')"
    by (rule passes_append) (simp add: passes_plain)
  then show ?case by (simp add: passes_plain)
next
  case (6 m)
  have "passes (separated '','' (map (\<lambda>(k, v). json_string k @ '':'' @ json_text v) m))"
    by (rule passes_members) (rule 6; simp)
  then show ?case using passes_braces by simp
qed (simp_all add: passes_itoa passes_json_string passes_plain)

text \<open>An object, from its opening brace on, is found whole.\<close>

lemma scan_json_object: "scan_object 0 False False (json_text (JObj m) @ rest) = Some (length (json_text (JObj m)) - 1)"
  using passes_members [OF passes_json_text, of m] by (simp add: passes_def map_option_shift)

lemma index_of_char: "c \<notin> set pre \<Longrightarrow> index_of (pre @ c # rest) [c] = Some (length pre)"
  by (induction pre) auto

lemma index_of_absent: "c \<notin> set s \<Longrightarrow> index_of s [c] = None"
  by (induction s) auto

lemma extract_json_object: "c_lbrace \<notin> set pre \<Longrightarrow> extract_object (pre @ json_text (JObj m) @ post) = Some (json_text (JObj m))"
  using index_of_char [of c_lbrace pre] scan_json_object [of m post] by (simp add: extract_object_def)

text \<open>C20. However an agent wraps its result, the object is recovered: a printed JSON object of any shape
  (nested, with braces, quotes and backslashes inside its strings) after a preamble without an
  opening brace (a sentence, a Markdown fence) and before any text at all is what the decoder is
  given, unless the whole output decodes by itself. Output without a brace has no result.\<close>

theorem wrapped_result_recovered:
  assumes "c_lbrace \<notin> set pre" "decode (pre @ json_text (JObj m) @ post) = None"
  shows "parse_task_result decode (pre @ json_text (JObj m) @ post) = decode (json_text (JObj m)) \<and>
    (decode pre = None \<longrightarrow> parse_task_result decode pre = None)"
  using assms extract_json_object [OF assms(1), of m post] index_of_absent [OF assms(1)]
  by (auto simp: parse_task_result_def extract_object_def [of pre])

lemma wrapped_result_recovered_witness:
  "parse_task_result (\<lambda>s. if s = json_text (JObj [(''review_issues'', JStr [c_rbrace, c_quote])]) then Some s else None)
     (''Verdict: '' @ json_text (JObj [(''review_issues'', JStr [c_rbrace, c_quote])]) @ '' Done.'')
   = Some (json_text (JObj [(''review_issues'', JStr [c_rbrace, c_quote])]))"
proof -
  let ?m = "[(''review_issues'', JStr [c_rbrace, c_quote])]"
  define dec where "dec = (\<lambda>s. if s = json_text (JObj ?m) then Some s else None)"
  have "length (''Verdict: '' @ json_text (JObj ?m) @ '' Done.'') \<noteq> length (json_text (JObj ?m))"
    by (simp del: json_text.simps)
  then have "dec (''Verdict: '' @ json_text (JObj ?m) @ '' Done.'') = None" unfolding dec_def by metis
  with wrapped_result_recovered [of "''Verdict: ''" dec ?m "'' Done.''"]
  have "parse_task_result dec (''Verdict: '' @ json_text (JObj ?m) @ '' Done.'') = dec (json_text (JObj ?m))"
    by (simp del: json_text.simps)
  then show ?thesis by (simp add: dec_def del: json_text.simps)
qed

end
