(* ===== verification/LoopCoordinator.thy ===== *)
theory LoopCoordinator
  imports LoopStore LoopResult
begin

text \<open>
  The decisions of the engineering loop and their effects
  (\<^verbatim>\<open>server/internal/loop/coordinator.go\<close>). Inside a transaction every statement has the
  environment of the transaction; the restore on startup runs statement by statement, so a
  function returns the database also with an error and \<open>es k\<close> is the environment of its
  \<open>k\<close>-th statement.
\<close>

type_synonym 'a dio = "db \<times> 'a res"

text \<open>One statement: on an error the database is unchanged and the error wrapped.\<close>

definition stmt :: "string \<Rightarrow> db \<Rightarrow> (db \<times> 'a) res \<Rightarrow> unit dio" where
  "stmt p d r = (case r of Inl err \<Rightarrow> (d, Inl (ErrWrap p err)) | Inr (d', _) \<Rightarrow> (d', Inr ()))"

lemma stmt_simps [simp]: "stmt p d (Inl err) = (d, Inl (ErrWrap p err))" "stmt p d (Inr (d', x)) = (d', Inr ())"
  by (simp_all add: stmt_def)

lemma stmt_Inr [res_simps]: "stmt p d r = (d', Inr ()) \<longleftrightarrow> (\<exists>x. r = Inr (d', x))"
  by (auto simp: stmt_def split: sum.splits)

section \<open>Decisions\<close>

datatype decision =
    CreateTask string nat
  | CompleteLoop string i64 string
  | FailLoop string
  | Noop

definition decide_next_stage :: "loop_row \<Rightarrow> task_result option \<Rightarrow> decision" where
  "decide_next_stage l result =
     (if lr_status l \<in> {''paused'', ''cancelled'', ''done'', ''failed''} then Noop
      else case lr_stage l of
        None \<Rightarrow> FailLoop ''unrecoverable_error''
      | Some s \<Rightarrow>
          if s = ''plan'' then CreateTask ''loop_develop'' 0
          else if s = ''develop'' then CreateTask ''loop_review'' 0
          else if s = ''review'' then
            (case result of
               Some r \<Rightarrow> if tr_review_approved r = Some True
                 then CompleteLoop (tr_pr_url r) (case tr_pr_number r of None \<Rightarrow> 0 | Some n \<Rightarrow> n) (tr_branch_name r)
                 else if lr_max_iterations l \<le> lr_iteration l then FailLoop ''max_iterations_exceeded''
                 else CreateTask ''loop_fix'' 1
             | None \<Rightarrow> if lr_max_iterations l \<le> lr_iteration l then FailLoop ''max_iterations_exceeded''
                 else CreateTask ''loop_fix'' 1)
          else if s = ''fix'' then CreateTask ''loop_review'' 0
          else Noop)"

definition classify_error :: "string \<Rightarrow> string" where
  "classify_error msg =
     (let low = to_lower msg in
      if contains_str low ''context'' then ''context_exceeded''
      else if contains_str low ''filter'' \<or> contains_str low ''blocked'' then ''content_filter''
      else if contains_str low ''timeout'' then ''stage_timeout''
      else if contains_str low ''pr'' then ''pr_create_failed''
      else ''unrecoverable_error'')"

section \<open>The agent of a stage\<close>

text \<open>
  The decoders: \<^verbatim>\<open>json.Unmarshal\<close> of a loop's configuration into its \<^verbatim>\<open>stage_agents\<close> map and of a
  stage result, and \<^verbatim>\<open>pgtype.UUID.Scan\<close>.
\<close>

record loop_codec =
  lk_stage_agents :: "string \<Rightarrow> (string \<times> string) list"
  lk_result :: "string \<Rightarrow> task_result option"
  lk_uuid :: "string \<Rightarrow> uuid option"

definition parse_config :: "loop_codec \<Rightarrow> loop_row \<Rightarrow> (string \<times> string) list" where
  "parse_config c l = (if lr_config l = '''' then [] else lk_stage_agents c (lr_config l))"

definition stage_agent :: "loop_codec \<Rightarrow> loop_row \<Rightarrow> string \<Rightarrow> string option" where
  "stage_agent c l s =
     (case map_of (parse_config c l) s of
        Some i \<Rightarrow> if i \<noteq> '''' then Some i else map_option uuid_text (lr_agent l)
      | None \<Rightarrow> map_option uuid_text (lr_agent l))"

record resolved_agent =
  ra_agent :: uuid
  ra_runtime :: uuid

definition invalid_config :: "string \<Rightarrow> go_error" where
  "invalid_config detail = ErrDetail ErrInvalidLoopConfiguration detail"

definition resolve_stage_agent :: "loop_codec \<Rightarrow> db \<Rightarrow> loop_row \<Rightarrow> string \<Rightarrow> resolved_agent res" where
  "resolve_stage_agent c d l ty =
     (case stage_from_string ty of
        None \<Rightarrow> Inl (invalid_config (''unknown task type '' @ quoted ty))
      | Some s \<Rightarrow>
          (case stage_agent c l s of
             None \<Rightarrow> Inl (invalid_config (''no agent configured for stage '' @ quoted s))
           | Some i \<Rightarrow>
               if trim_space i = '''' then Inl (invalid_config (''no agent configured for stage '' @ quoted s))
               else case lk_uuid c (trim_space i) of
                 None \<Rightarrow> Inl (invalid_config (''invalid agent id for stage '' @ quoted s))
               | Some a \<Rightarrow>
                   (case get_agent d (Some a) of
                      Inl err \<Rightarrow> if error_is err ErrNoRows
                        then Inl (invalid_config (''agent for stage '' @ quoted s @ '' does not exist''))
                        else Inl (ErrWrap (''lookup agent for stage '' @ quoted s) err)
                    | Inr agent \<Rightarrow>
                        if ag_workspace agent \<noteq> lr_workspace l
                        then Inl (invalid_config (''agent for stage '' @ quoted s @ '' belongs to another workspace''))
                        else if ag_archived_at agent \<noteq> None
                        then Inl (invalid_config (''agent for stage '' @ quoted s @ '' is archived''))
                        else (case ag_runtime agent of
                          None \<Rightarrow> Inl (invalid_config (''agent for stage '' @ quoted s @ '' has no runtime''))
                        | Some rt \<Rightarrow> Inr \<lparr>ra_agent = a, ra_runtime = rt\<rparr>))))"

section \<open>Effects\<close>

definition create_task_for_stage_with_agent ::
    "(nat \<Rightarrow> env) \<Rightarrow> db \<Rightarrow> loop_row \<Rightarrow> string \<Rightarrow> nat \<Rightarrow> resolved_agent \<Rightarrow> unit dio" where
  "create_task_for_stage_with_agent es d l ty bump a =
     and_then (stmt ''create task'' d (create_agent_task (es 0) 0 d
         \<lparr>ct_agent = Some (ra_agent a), ct_runtime = Some (ra_runtime a), ct_issue = Some (lr_issue l), ct_priority = 1,
          ct_trigger = None, ct_task_type = Some ty, ct_loop = Some (lr_id l)\<rparr>)) (\<lambda>d _.
       stmt ''update loop stage'' d (store_update_status (es 1) d (Some (lr_id l))
         (no_update\<lparr>ui_status := Some ''running'', ui_stage := stage_from_string ty,
                    ui_iteration := Some (lr_iteration l + int bump)\<rparr>)))"

definition create_task_for_stage ::
    "loop_codec \<Rightarrow> (nat \<Rightarrow> env) \<Rightarrow> db \<Rightarrow> loop_row \<Rightarrow> string \<Rightarrow> nat \<Rightarrow> unit dio" where
  "create_task_for_stage c es d l ty bump =
     (case resolve_stage_agent c d l ty of
        Inl err \<Rightarrow> (d, Inl (ErrWrap ''resolve stage agent'' err))
      | Inr a \<Rightarrow> create_task_for_stage_with_agent es d l ty bump a)"

definition fail_invalid_configuration :: "env \<Rightarrow> db \<Rightarrow> loop_row \<Rightarrow> unit dio" where
  "fail_invalid_configuration e d l =
     stmt ''mark invalid loop failed'' d (store_update_status e d (Some (lr_id l))
       (no_update\<lparr>ui_status := Some ''failed'', ui_stage := lr_stage l, ui_iteration := Some (lr_iteration l),
                  ui_failure := Some ''invalid_configuration'', ui_completed_at := Some (e_wall e)\<rparr>))"

definition apply_decision :: "loop_codec \<Rightarrow> (nat \<Rightarrow> env) \<Rightarrow> db \<Rightarrow> loop_row \<Rightarrow> decision \<Rightarrow> unit dio" where
  "apply_decision c es d l dec =
     (case dec of
        CreateTask ty bump \<Rightarrow>
          (case create_task_for_stage c es d l ty bump of
             (d', Inl err) \<Rightarrow> if error_is err ErrInvalidLoopConfiguration
                             then fail_invalid_configuration (es 2) d' l else (d', Inl err)
           | (d', Inr _) \<Rightarrow> (d', Inr ()))
      | CompleteLoop url num branch \<Rightarrow>
          and_then (stmt ''set pr'' d (store_set_pr (es 0) d (Some (lr_id l)) url (sint num) branch)) (\<lambda>d _.
            stmt ''update status to done'' d (store_update_status (es 1) d (Some (lr_id l))
              (no_update\<lparr>ui_status := Some ''done'', ui_completed_at := Some (e_wall (es 0))\<rparr>)))
      | FailLoop reason \<Rightarrow>
          stmt ''update status to failed'' d (store_update_status (es 0) d (Some (lr_id l))
            (no_update\<lparr>ui_status := Some ''failed'', ui_failure := Some reason, ui_completed_at := Some (e_wall (es 0))\<rparr>))
      | Noop \<Rightarrow> (d, Inr ()))"

text \<open>\<^verbatim>\<open>StartLoop\<close>: one transaction; an error rolls everything back.\<close>

definition start_loop :: "loop_codec \<Rightarrow> bool \<Rightarrow> env \<Rightarrow> db \<Rightarrow> uuid option \<Rightarrow> db res" where
  "start_loop c has_starter e d i =
     (if \<not> has_starter then Inl (ErrMsg ''start loop: transaction store is unavailable'')
      else if \<not> e_begin e then Inl (ErrWrap ''begin start loop'' (ErrInfra ''begin''))
      else case select_loop d i of
        Inl err \<Rightarrow> Inl (ErrWrap ''lock loop'' err)
      | Inr l \<Rightarrow>
          if lr_status l \<noteq> ''pending''
          then Inl (ErrMsg (''loop '' @ uuid_text (lr_id l) @ '': StartLoop requires status=pending, got '' @ quoted (lr_status l)))
          else (case create_task_for_stage c (\<lambda>_. e) d l ''loop_plan'' 0 of
            (d1, Inl err) \<Rightarrow> Inl (ErrWrap ''enqueue plan task'' err)
          | (d1, Inr _) \<Rightarrow>
              (case store_update_status e d1 (Some (lr_id l))
                  (no_update\<lparr>ui_status := Some ''running'', ui_stage := Some ''plan'', ui_started_at := Some (e_wall e)\<rparr>) of
                 Inl err \<Rightarrow> Inl (ErrWrap ''stamp started_at'' err)
               | Inr (d2, _) \<Rightarrow> if e_commit e then Inr d2 else Inl (ErrWrap ''commit start loop'' (ErrInfra ''commit'')))))"

section \<open>Restore on startup\<close>

definition lifecycle_terminal_types :: "string list" where
  "lifecycle_terminal_types = [''run.completed'', ''run.failed'', ''work_item.rejected'']"

definition engineering_loop :: string where "engineering_loop = ''engineering-loop''"

definition has_pending_engineering_loop_event :: "db \<Rightarrow> uuid \<Rightarrow> string \<Rightarrow> bool" where
  "has_pending_engineering_loop_event d i ty \<longleftrightarrow>
     (\<exists>v\<in>set (outbox d). \<exists>t\<in>set (tasks d). tk_id t = ob_work_item v \<and> tk_loop t = Some i \<and> tk_task_type t = ty \<and>
        ob_type v \<in> set lifecycle_terminal_types \<and> (ob_id v, engineering_loop) \<notin> set (receipts d))"

definition loop_restore_timeout :: int where
  "loop_restore_timeout = 30 * 60 * 1000000000"

definition restore_one :: "loop_codec \<Rightarrow> (nat \<Rightarrow> env) \<Rightarrow> db \<Rightarrow> loop_row \<Rightarrow> unit dio" where
  "restore_one c es d l =
     (if lr_status l = ''paused'' \<or> lr_status l \<noteq> ''running'' then (d, Inr ())
      else case lr_stage l of
        None \<Rightarrow> fail_invalid_configuration (es 2) d l
      | Some s \<Rightarrow>
          (let ty = task_type_for_stage s in
           if ty = '''' then fail_invalid_configuration (es 2) d l
           else if has_in_flight_task_for_loop_stage d (lr_id l) ty then (d, Inr ())
           else if has_pending_engineering_loop_event d (lr_id l) ty then (d, Inr ())
           else case resolve_stage_agent c d l ty of
             Inl err \<Rightarrow> if error_is err ErrInvalidLoopConfiguration then fail_invalid_configuration (es 2) d l
                        else (d, Inl (ErrWrap ''resolve stage agent'' err))
           | Inr a \<Rightarrow>
               if (case lr_started_at l of None \<Rightarrow> False | Some t \<Rightarrow> loop_restore_timeout < e_wall (es 3) - t)
               then stmt ''mark loop timed out'' d (store_update_status (es 3) d (Some (lr_id l))
                      (no_update\<lparr>ui_status := Some ''failed'', ui_failure := Some ''loop_timeout'',
                                 ui_completed_at := Some (e_wall (es 3))\<rparr>))
               else (case create_task_for_stage_with_agent es d l ty 0 a of
                   (d', Inl err) \<Rightarrow> (d', Inl (ErrWrap ''re-enqueue stage task'' err))
                 | (d', Inr _) \<Rightarrow> (d', Inr ()))))"

text \<open>Each loop of the snapshot on its own; an error is logged and the next loop taken.\<close>

fun restore_all :: "loop_codec \<Rightarrow> (nat \<Rightarrow> nat \<Rightarrow> env) \<Rightarrow> nat \<Rightarrow> db \<Rightarrow> loop_row list \<Rightarrow> db" where
  "restore_all c ess k d [] = d"
| "restore_all c ess k d (l # ls) = restore_all c ess (Suc k) (fst (restore_one c (ess k) d l)) ls"

definition restore_on_startup :: "loop_codec \<Rightarrow> (nat \<Rightarrow> nat \<Rightarrow> env) \<Rightarrow> db \<Rightarrow> db" where
  "restore_on_startup c ess d = restore_all c ess 0 d (load_active_loops d)"

end
