(* ===== verification/ConsumerLedger.thy ===== *)
theory ConsumerLedger
  imports OutboxQueries
begin

text \<open>
  The ledger of the durable consumers of lifecycle facts (\<^verbatim>\<open>lifecycle_event_receipt\<close> and
  \<^verbatim>\<open>lifecycle_event_delivery\<close>): a receipt per consumed fact, a row with the back-off per failing
  one. Both consumers, the engineering loop and the task-derived projections, use the same
  statements with their own name. A consumer that claims no fact with a receipt consumes every
  fact once; the contract is stated as a locale.
\<close>

section \<open>Statements\<close>

definition delivery_ready :: "env \<Rightarrow> db \<Rightarrow> string \<Rightarrow> uuid \<Rightarrow> bool" where
  "delivery_ready e d consumer i \<longleftrightarrow>
     (\<forall>x\<in>set (deliveries d). dl_event x = i \<and> dl_consumer x = consumer \<longrightarrow>
        dl_available_at x \<le> e_now e \<and> dl_dead_at x = None)"

text \<open>\<^verbatim>\<open>INSERT ... ON CONFLICT DO NOTHING\<close>\<close>

definition record_receipt :: "string \<Rightarrow> db \<Rightarrow> uuid \<Rightarrow> db" where
  "record_receipt consumer d i =
     (if (i, consumer) \<in> set (receipts d) then d else d\<lparr>receipts := receipts d @ [(i, consumer)]\<rparr>)"

definition failed_delivery :: "env \<Rightarrow> string \<Rightarrow> delivery_row \<Rightarrow> delivery_row" where
  "failed_delivery e msg x = x\<lparr>dl_attempts := dl_attempts x + 1,
     dl_available_at := e_now e + seconds (backoff_secs (dl_attempts x + 1)), dl_last_error := Some msg,
     dl_dead_at := (if 20 \<le> dl_attempts x + 1 then Some (e_now e) else None)\<rparr>"

definition record_failure :: "string \<Rightarrow> env \<Rightarrow> db \<Rightarrow> uuid \<Rightarrow> string \<Rightarrow> db" where
  "record_failure consumer e d i msg =
     (let P = (\<lambda>x. dl_event x = i \<and> dl_consumer x = consumer) in
      if \<exists>x\<in>set (deliveries d). P x then d\<lparr>deliveries := upd_where P (failed_delivery e msg) (deliveries d)\<rparr>
      else d\<lparr>deliveries := deliveries d @ [\<lparr>dl_event = i, dl_consumer = consumer, dl_attempts = 1,
             dl_available_at = e_now e + seconds 2, dl_last_error = Some msg, dl_dead_at = None\<rparr>]\<rparr>)"

text \<open>The statement runs outside the transaction; when the database cannot be reached (\<open>e_begin\<close> of its
  environment), nothing is noted and the error says so.\<close>

definition note_failure :: "string \<Rightarrow> string \<Rightarrow> env \<Rightarrow> db \<Rightarrow> uuid \<Rightarrow> string \<Rightarrow> go_error \<Rightarrow> db \<times> go_error" where
  "note_failure consumer what e d i msg err =
     (if e_begin e then (record_failure consumer e d i msg, err)
      else (d, ErrWrap (what @ '': '' @ msg @ ''; record failure'') (ErrInfra ''exec'')))"

section \<open>Facts\<close>

lemma ledger_frame [simp]:
  "loops (record_failure co e d i m) = loops d" "loops (record_receipt co d i) = loops d"
  "tasks (record_failure co e d i m) = tasks d" "tasks (record_receipt co d i) = tasks d"
  "activities (record_receipt co d i) = activities d" "inbox (record_receipt co d i) = inbox d"
  "subscribers (record_receipt co d i) = subscribers d"
  by (simp_all add: record_failure_def record_receipt_def Let_def)

lemma receipt_recorded: "(i, co) \<in> set (receipts (record_receipt co d i))"
  by (simp add: record_receipt_def)

text \<open>The ledger of deliveries after a failure: the row of this event and consumer counts one more attempt
  and waits (a new row begins with the first), the others stay.\<close>

definition failure_noted :: "string \<Rightarrow> env \<Rightarrow> db \<Rightarrow> db \<Rightarrow> uuid \<Rightarrow> bool" where
  "failure_noted co e d d' i \<longleftrightarrow> (\<exists>ds. d' = d\<lparr>deliveries := ds\<rparr> \<and>
     filter (\<lambda>x. \<not> (dl_event x = i \<and> dl_consumer x = co)) ds = filter (\<lambda>x. \<not> (dl_event x = i \<and> dl_consumer x = co)) (deliveries d) \<and>
     map dl_attempts (filter (\<lambda>x. dl_event x = i \<and> dl_consumer x = co) ds) =
       (case filter (\<lambda>x. dl_event x = i \<and> dl_consumer x = co) (deliveries d) of
          [] \<Rightarrow> [1] | xs \<Rightarrow> map (\<lambda>x. dl_attempts x + 1) xs) \<and>
     (\<forall>x\<in>set ds. dl_event x = i \<and> dl_consumer x = co \<longrightarrow>
        e_now e + seconds 2 \<le> dl_available_at x \<and> dl_available_at x \<le> e_now e + seconds 256 \<and>
        (dl_dead_at x \<noteq> None \<longleftrightarrow> 20 \<le> dl_attempts x)) \<and>
     (\<exists>x\<in>set ds. dl_event x = i \<and> dl_consumer x = co))"

lemma backoff_range: "2 \<le> backoff_secs (Suc n) \<and> backoff_secs n \<le> 256"
proof -
  have "(2::int) ^ 1 \<le> 2 ^ min (Suc n) 8" by (rule power_increasing) auto
  moreover have "(2::int) ^ min n 8 \<le> 2 ^ 8" by (rule power_increasing) auto
  ultimately show ?thesis by (simp add: backoff_secs_def)
qed

lemma filter_upd_where:
  "(\<And>x. x \<in> set rows \<Longrightarrow> P (f x) = P x) \<Longrightarrow> filter P (upd_where P f rows) = map f (filter P rows)"
  by (induction rows) (simp_all add: upd_where_def)

lemma filter_upd_where_others:
  "(\<And>x. x \<in> set rows \<Longrightarrow> P (f x) = P x) \<Longrightarrow> filter (\<lambda>x. \<not> P x) (upd_where P f rows) = filter (\<lambda>x. \<not> P x) rows"
  by (induction rows) (simp_all add: upd_where_def)

lemma failure_is_noted: "failure_noted co e d (record_failure co e d i msg) i"
proof -
  let ?P = "\<lambda>x. dl_event x = i \<and> dl_consumer x = co"
  show ?thesis
  proof (cases "\<exists>x\<in>set (deliveries d). ?P x")
    case True
    have keep: "?P (failed_delivery e msg x) = ?P x" for x by (simp add: failed_delivery_def)
    have "\<exists>x\<in>set (upd_where ?P (failed_delivery e msg) (deliveries d)). ?P x"
      using True keep by (auto simp: upd_where_def image_iff)
    moreover have "e_now e + seconds 2 \<le> dl_available_at x \<and> dl_available_at x \<le> e_now e + seconds 256 \<and>
        (dl_dead_at x \<noteq> None \<longleftrightarrow> 20 \<le> dl_attempts x)"
      if mem: "x \<in> set (upd_where ?P (failed_delivery e msg) (deliveries d))" "?P x" for x
    proof -
      obtain y where "x = (if ?P y then failed_delivery e msg y else y)"
        using mem(1) unfolding upd_where_def set_map by blast
      with mem(2) have "x = failed_delivery e msg y" by (auto split: if_splits)
      with backoff_range [of "dl_attempts y"] backoff_range [of "Suc (dl_attempts y)"] show ?thesis
        by (simp add: failed_delivery_def seconds_def)
    qed
    moreover have "filter (\<lambda>x. \<not> ?P x) (upd_where ?P (failed_delivery e msg) (deliveries d)) = filter (\<lambda>x. \<not> ?P x) (deliveries d)"
      by (rule filter_upd_where_others) (simp add: keep)
    moreover have "map dl_attempts (filter ?P (upd_where ?P (failed_delivery e msg) (deliveries d))) =
        map (\<lambda>x. dl_attempts x + 1) (filter ?P (deliveries d))"
      by (subst filter_upd_where) (simp_all add: keep failed_delivery_def)
    moreover have "filter ?P (deliveries d) \<noteq> []" using True by (simp add: filter_empty_conv)
    ultimately show ?thesis using True
      unfolding failure_noted_def record_failure_def Let_def if_P [OF True]
      by (intro exI [of _ "upd_where ?P (failed_delivery e msg) (deliveries d)"]) (auto split: list.split)
  next
    case False
    let ?new = "\<lparr>dl_event = i, dl_consumer = co, dl_attempts = 1,
      dl_available_at = e_now e + seconds 2, dl_last_error = Some msg, dl_dead_at = None\<rparr>"
    have "record_failure co e d i msg = d\<lparr>deliveries := deliveries d @ [?new]\<rparr>"
      unfolding record_failure_def Let_def if_not_P [OF False] ..
    moreover have "\<forall>x\<in>set (deliveries d @ [?new]). ?P x \<longrightarrow> e_now e + seconds 2 \<le> dl_available_at x \<and>
        dl_available_at x \<le> e_now e + seconds 256 \<and> (dl_dead_at x \<noteq> None \<longleftrightarrow> 20 \<le> dl_attempts x)"
      using False by (simp add: seconds_def; blast)
    moreover have "filter ?P (deliveries d) = []" using False by (simp add: filter_empty_conv)
    ultimately show ?thesis unfolding failure_noted_def by (intro exI [of _ "deliveries d @ [?new]"]) simp
  qed
qed

lemma note_failure_frame [simp]:
  "loops (fst (note_failure co w e d i m x)) = loops d" "tasks (fst (note_failure co w e d i m x)) = tasks d"
  "activities (fst (note_failure co w e d i m x)) = activities d" "inbox (fst (note_failure co w e d i m x)) = inbox d"
  by (simp_all add: note_failure_def record_failure_def Let_def)

lemma failure_noted_or_lost:
  "if e_begin e then failure_noted co e d (fst (note_failure co w e d i m x)) i else fst (note_failure co w e d i m x) = d"
  by (simp add: note_failure_def failure_is_noted)

section \<open>Consumers\<close>

text \<open>A consumer claims facts of the outbox that are ready for it and have no receipt of it.\<close>

locale fact_consumer =
  fixes name :: string
    and claim :: "env \<Rightarrow> db \<Rightarrow> outbox_row res"
  assumes claims: "claim e d = Inr v \<Longrightarrow> v \<in> set (outbox d) \<and> (ob_id v, name) \<notin> set (receipts d) \<and> delivery_ready e d name (ob_id v)"
begin

lemma consumed_stays:
  assumes "(i, name) \<in> set (receipts d)" "set (receipts d) \<subseteq> set (receipts d2)" "claim e2 d2 = Inr u"
  shows "ob_id u \<noteq> i"
  using claims [OF assms(3)] assms(1,2) by auto

lemma receipted_not_claimed:
  assumes "set (receipts (record_receipt name d i)) \<subseteq> set (receipts d2)" "claim e2 d2 = Inr u"
  shows "ob_id u \<noteq> i"
  using consumed_stays [OF receipt_recorded assms] .

text \<open>A fact whose delivery is dead, or waits until later, is not claimed.\<close>

lemma dead_not_claimed:
  assumes "x \<in> set (deliveries d)" "dl_event x = i" "dl_consumer x = name" "dl_dead_at x \<noteq> None \<or> e_now e < dl_available_at x"
    "claim e d = Inr u"
  shows "ob_id u \<noteq> i"
  using claims [OF assms(5)] assms(1-4) by (auto simp: delivery_ready_def)

end

end
