(* ===== verification/LoopProjector.thy ===== *)
theory LoopProjector
  imports LoopCoordinator RunLifecycle OutboxWorker ConsumerLedger
begin

text \<open>
  The durable consumer that drives engineering loops from lifecycle facts
  (\<^verbatim>\<open>server/internal/loop/lifecycle_projector.go\<close>) and the operator's transitions of a loop
  (\<^verbatim>\<open>server/internal/handler/loop.go\<close>). A fact is consumed in one transaction with the loop's
  next step and a receipt of the consumer; a failure is recorded outside that transaction.
\<close>

section \<open>Claiming\<close>

definition loop_event_claimable :: "env \<Rightarrow> db \<Rightarrow> outbox_row \<Rightarrow> bool" where
  "loop_event_claimable e d v \<longleftrightarrow> ob_type v \<in> set lifecycle_terminal_types \<and>
     (\<exists>t\<in>set (tasks d). tk_id t = ob_work_item v \<and> tk_loop t \<noteq> None) \<and>
     (ob_id v, engineering_loop) \<notin> set (receipts d) \<and> delivery_ready e d engineering_loop (ob_id v)"

definition claim_engineering_loop_event :: "env \<Rightarrow> db \<Rightarrow> outbox_row res" where
  "claim_engineering_loop_event e d =
     (case first_by event_before (filter (\<lambda>v. loop_event_claimable e d v \<and> \<not> e_locked e (ob_id v)) (outbox d)) of
        None \<Rightarrow> Inl ErrNoRows | Some v \<Rightarrow> Inr v)"

lemma claim_loop_event_Inr:
  assumes "claim_engineering_loop_event e d = Inr v"
  shows "v \<in> set (outbox d) \<and> loop_event_claimable e d v"
  using assms by (auto simp: claim_engineering_loop_event_def dest!: first_by_in split: option.splits)

interpretation loop_consumer: fact_consumer engineering_loop claim_engineering_loop_event
  by unfold_locales (auto simp: loop_event_claimable_def dest!: claim_loop_event_Inr)

section \<open>Applying a fact\<close>

definition loop_apply :: "loop_codec \<Rightarrow> env \<Rightarrow> db \<Rightarrow> outbox_row \<Rightarrow> unit dio" where
  "loop_apply c e d v =
     (if ob_version v \<noteq> 1 then (d, Inl (ErrMsg (''unsupported lifecycle event version '' @ itoa (ob_version v))))
      else case get_task d (Some (ob_work_item v)) of
        Inl err \<Rightarrow> (d, Inl (ErrWrap ''load loop work item'' err))
      | Inr t \<Rightarrow>
          (case tk_loop t of
             None \<Rightarrow> (d, Inr ())
           | Some li \<Rightarrow>
               (case select_loop d (Some li) of
                  Inl err \<Rightarrow> (d, Inl (ErrWrap ''lock engineering loop'' err))
                | Inr l \<Rightarrow>
                    if lr_status l \<noteq> ''running'' \<or> lr_stage l = None \<or>
                       tk_task_type t \<noteq> task_type_for_stage (the (lr_stage l)) then (d, Inr ())
                    else if ob_type v = ev_rejected then
                      (case apply_decision c (\<lambda>_. e) d l (FailLoop ''invalid_configuration'') of
                         (d', Inl err) \<Rightarrow> (d', Inl (ErrWrap ''apply rejected stage decision'' err))
                       | (d', Inr _) \<Rightarrow> (d', Inr ()))
                    else if ob_run v = None then (d, Inl (ErrMsg ''terminal lifecycle event has no run id''))
                    else case get_run d (ob_run v) of
                      Inl err \<Rightarrow> (d, Inl (ErrWrap ''load exact terminal run'' err))
                    | Inr r \<Rightarrow>
                        if rn_task r \<noteq> tk_id t then (d, Inl (ErrMsg ''terminal run does not belong to work item''))
                        else if ob_type v = ev_completed then
                          (case apply_decision c (\<lambda>_. e) d l (decide_next_stage l
                              (case rn_output r of None \<Rightarrow> None | Some out \<Rightarrow> parse_task_result (lk_result c) out)) of
                             (d', Inl err) \<Rightarrow> (d', Inl (ErrWrap ''apply completed stage decision'' err))
                           | (d', Inr _) \<Rightarrow> (d', Inr ()))
                        else if ob_type v = ev_failed then
                          (case apply_decision c (\<lambda>_. e) d l (FailLoop
                              (case rn_error r of None \<Rightarrow> ''unrecoverable_error''
                               | Some m \<Rightarrow> if m = '''' then ''unrecoverable_error'' else classify_error m)) of
                             (d', Inl err) \<Rightarrow> (d', Inl (ErrWrap ''apply failed stage decision'' err))
                           | (d', Inr _) \<Rightarrow> (d', Inr ()))
                        else (d, Inl (ErrMsg (''unsupported engineering loop event '' @ quoted (ob_type v)))))))"

text \<open>\<open>e\<close> is the environment of the transaction, \<open>e'\<close> the one of the failure record after it.\<close>

definition loop_process_next ::
    "loop_codec \<Rightarrow> (go_error \<Rightarrow> string) \<Rightarrow> bool \<Rightarrow> env \<Rightarrow> env \<Rightarrow> db \<Rightarrow> db \<times> bool \<times> go_error option" where
  "loop_process_next c f available e e' d =
     (if \<not> available then (d, False, Some (ErrMsg ''engineering loop projector is unavailable''))
      else if \<not> e_begin e then (d, False, Some (ErrWrap ''begin engineering loop projection'' (ErrInfra ''begin'')))
      else case claim_engineering_loop_event e d of
        Inl err \<Rightarrow> if error_is err ErrNoRows then (d, False, None)
                   else (d, False, Some (ErrWrap ''claim engineering loop event'' err))
      | Inr v \<Rightarrow>
          (case loop_apply c e d v of
             (d1, Inl err) \<Rightarrow>
               (case note_failure engineering_loop ''apply engineering loop event'' e' d (ob_id v) (error_text f err) err of
                  (d2, err') \<Rightarrow> (d2, True, Some err'))
           | (d1, Inr _) \<Rightarrow>
               if e_commit e then (record_receipt engineering_loop d1 (ob_id v), True, None)
               else (d, True, Some (ErrWrap ''commit engineering loop projection'' (ErrInfra ''commit'')))))"

section \<open>The operator's transitions\<close>

type_synonym http_error = "nat \<times> string"

text \<open>
  The loop is read and written by two statements outside a transaction: \<open>d\<close> is the database the
  first one saw, \<open>d'\<close> the one the second finds. \<open>i\<close> is the parsed id of the URL.
\<close>

definition transition_loop_status ::
    "env \<Rightarrow> db \<Rightarrow> db \<Rightarrow> string \<Rightarrow> bool \<Rightarrow> uuid option \<Rightarrow> string \<Rightarrow> db \<times> (http_error + loop_row)" where
  "transition_loop_status e d d' ws has_user i target =
     (if ws = '''' then (d', Inl (400, ''workspace_id is required''))
      else if \<not> has_user then (d', Inl (401, ''user not authenticated''))
      else case store_get_loop d i of
        Inl err \<Rightarrow> if error_is err ErrLoopNotFound \<or> error_is err ErrNoRows then (d', Inl (404, ''loop not found''))
                   else (d', Inl (500, ''failed to update loop''))
      | Inr l \<Rightarrow>
          if uuid_text (lr_workspace l) \<noteq> ws then (d', Inl (404, ''loop not found''))
          else (case store_update_status e d' i (no_update\<lparr>ui_status := Some target,
                     ui_iteration := Some (lr_iteration l), ui_stage := lr_stage l\<rparr>) of
                  Inl err \<Rightarrow> (d', Inl (500, ''failed to update loop''))
                | Inr (d'', l') \<Rightarrow> (d'', Inr l')))"

definition pause_loop :: "env \<Rightarrow> db \<Rightarrow> db \<Rightarrow> string \<Rightarrow> bool \<Rightarrow> uuid option \<Rightarrow> db \<times> (http_error + loop_row)" where
  "pause_loop e d d' ws user i = transition_loop_status e d d' ws user i ''paused''"

definition resume_loop :: "env \<Rightarrow> db \<Rightarrow> db \<Rightarrow> string \<Rightarrow> bool \<Rightarrow> uuid option \<Rightarrow> db \<times> (http_error + loop_row)" where
  "resume_loop e d d' ws user i = transition_loop_status e d d' ws user i ''running''"

definition cancel_loop :: "env \<Rightarrow> db \<Rightarrow> db \<Rightarrow> string \<Rightarrow> bool \<Rightarrow> uuid option \<Rightarrow> db \<times> (http_error + loop_row)" where
  "cancel_loop e d d' ws user i = transition_loop_status e d d' ws user i ''cancelled''"

end
