(* ===== verification/LoopFacts.thy ===== *)
theory LoopFacts
  imports LoopProjector LifecycleClaim
begin

text \<open>
  The effect of one decision on its loop and on the queue, and the invariant of the loops: valid
  columns, iterations within the limit.
\<close>

section \<open>What a step of a loop changes\<close>

text \<open>Every step leaves all tables but loops and tasks alone; tasks only grow by lifecycle steps.\<close>

definition loop_frame :: "db \<Rightarrow> db \<Rightarrow> bool" where
  "loop_frame d d' \<longleftrightarrow> (\<exists>ls ts. d' = d\<lparr>loops := ls, tasks := ts\<rparr> \<and> map lr_id ls = map lr_id (loops d) \<and>
     set (tasks d) \<subseteq> set ts)"

lemma loop_frame_refl [simp]: "loop_frame d d"
  by (auto simp: loop_frame_def intro!: exI [of _ "loops d"] exI [of _ "tasks d"])

lemma loop_frame_trans [trans]: "loop_frame a b \<Longrightarrow> loop_frame b c \<Longrightarrow> loop_frame a c"
  by (fastforce simp: loop_frame_def)

lemma frame_update: "store_update_status e d i u = Inr (d', l) \<Longrightarrow> loop_frame d d'"
  by (auto simp: loop_frame_def elim!: store_update_status_Inr
      intro!: exI [of _ "tasks d"] exI [of _ "upd_where P f (loops d)" for P f] map_upd_where)

lemma frame_set_pr: "store_set_pr e d i url n b = Inr (d', l) \<Longrightarrow> loop_frame d d'"
  using store_set_pr_frame [of e d i url n b d' l]
  by (auto simp: loop_frame_def intro!: exI [of _ "tasks d"])

lemma frame_create: "create_agent_task e n d p = Inr (d', t) \<Longrightarrow> loop_frame d d' \<and> tasks d' = tasks d @ [t] \<and> loops d' = loops d"
  by (drule create_agent_task_Inr) (auto simp: loop_frame_def intro!: exI [of _ "loops d"] exI [of _ "tasks d @ [t]"])

text \<open>A loop before and after: the row with its id.\<close>

lemma select_after_update:
  assumes "store_update_status e d i u = Inr (d', l')"
  shows "select_loop d' i = Inr l'" "j \<noteq> i \<Longrightarrow> select_loop d' j = select_loop d j"
proof -
  obtain l where l: "select_loop d i = Inr l" "l' = updated_loop e (status_params u) l"
    "d' = d\<lparr>loops := upd_where (\<lambda>x. Some (lr_id x) = i) (updated_loop e (status_params u)) (loops d)\<rparr>"
    using assms by (rule store_update_status_Inr)
  have "Some (lr_id l) = i" using select_loop_Inr [OF l(1)] by simp
  with l show "select_loop d' i = Inr l'" by (simp add: select_loop_upd)
  assume "j \<noteq> i"
  then show "select_loop d' j = select_loop d j"
    using l(3) by (cases "select_loop d j") (auto simp: select_loop_upd dest: select_loop_Inr)
qed

lemma select_loop_cong: "loops d' = loops d \<Longrightarrow> select_loop d' i = select_loop d i"
  by (simp add: select_loop_def)

section \<open>Outcomes of a decision\<close>

text \<open>The loop after a stage was queued, after it was closed, after its configuration failed.\<close>

definition moved_to :: "string \<Rightarrow> int \<Rightarrow> loop_row \<Rightarrow> loop_row \<Rightarrow> bool" where
  "moved_to s n l l' \<longleftrightarrow> lr_id l' = lr_id l \<and> lr_status l' = ''running'' \<and> lr_stage l' = Some s \<and> lr_iteration l' = n \<and>
     lr_max_iterations l' = lr_max_iterations l \<and> lr_branch l' = lr_branch l \<and> lr_workspace l' = lr_workspace l"

definition closed_as :: "string \<Rightarrow> loop_row \<Rightarrow> loop_row \<Rightarrow> bool" where
  "closed_as s l l' \<longleftrightarrow> lr_id l' = lr_id l \<and> lr_status l' = s \<and> lr_completed_at l' \<noteq> None \<and>
     lr_max_iterations l' = lr_max_iterations l \<and> lr_iteration l' \<in> {0, int32_of (lr_iteration l)} \<and> lr_workspace l' = lr_workspace l \<and> loop_row_ok l'"

definition queued_for :: "loop_row \<Rightarrow> string \<Rightarrow> task_row \<Rightarrow> bool" where
  "queued_for l ty t \<longleftrightarrow> tk_loop t = Some (lr_id l) \<and> tk_task_type t = ty \<and> tk_issue t = lr_issue l \<and> tk_status t = Queued"

lemma create_stage_Inr:
  assumes ok: "create_task_for_stage_with_agent es d l ty bump a = (d', Inr ())"
    and l: "select_loop d (Some (lr_id l)) = Inr l" and s: "stage_from_string ty = Some s"
  shows "loop_frame d d' \<and>
    (\<exists>t. tasks d' = tasks d @ [t] \<and> queued_for l ty t \<and> tk_agent t = ra_agent a \<and> tk_runtime t = ra_runtime a) \<and>
    (\<exists>l'. select_loop d' (Some (lr_id l)) = Inr l' \<and> moved_to s (int32_of (lr_iteration l + int bump)) l l') \<and>
    (\<forall>j. j \<noteq> Some (lr_id l) \<longrightarrow> select_loop d' j = select_loop d j)"
proof -
  obtain d1 t l' where c: "create_agent_task (es 0) 0 d \<lparr>ct_agent = Some (ra_agent a), ct_runtime = Some (ra_runtime a),
        ct_issue = Some (lr_issue l), ct_priority = 1, ct_trigger = None, ct_task_type = Some ty, ct_loop = Some (lr_id l)\<rparr> = Inr (d1, t)"
      and u: "store_update_status (es 1) d1 (Some (lr_id l)) (no_update\<lparr>ui_status := Some ''running'',
        ui_stage := stage_from_string ty, ui_iteration := Some (lr_iteration l + int bump)\<rparr>) = Inr (d', l')"
    using ok by (auto simp: create_task_for_stage_with_agent_def res_simps)
  note f1 = frame_create [OF c] and f2 = frame_update [OF u] and su = select_after_update [OF u]
  have sel1: "select_loop d1 j = select_loop d j" for j using f1 by (intro select_loop_cong) simp
  have l': "l' = updated_loop (es 1) (status_params (no_update\<lparr>ui_status := Some ''running'',
        ui_stage := stage_from_string ty, ui_iteration := Some (lr_iteration l + int bump)\<rparr>)) l"
    using u l sel1 by (auto elim: store_update_status_Inr)
  then have "moved_to s (int32_of (lr_iteration l + int bump)) l l'"
    using s by (simp add: moved_to_def status_params_def no_update_def)
  moreover have "tasks d' = tasks d1" using store_update_status_frame(1) [OF u] by auto
  moreover have "queued_for l ty t \<and> tk_agent t = ra_agent a \<and> tk_runtime t = ra_runtime a"
    using create_agent_task_Inr [OF c] by (simp add: queued_for_def)
  ultimately show ?thesis using f1 f2 su sel1 loop_frame_trans by (metis (no_types, lifting))
qed

lemma close_Inr:
  assumes u: "store_update_status e d (Some (lr_id l)) u = Inr (d', l')" and l: "select_loop d (Some (lr_id l)) = Inr l0"
    "lr_id l0 = lr_id l" "lr_iteration l0 = lr_iteration l" "lr_max_iterations l0 = lr_max_iterations l" "lr_workspace l0 = lr_workspace l"
    and s: "ui_status u = Some s" "ui_completed_at u \<noteq> None" "ui_iteration u \<in> {None, Some (lr_iteration l)}"
  shows "loop_frame d d' \<and> tasks d' = tasks d \<and> select_loop d' (Some (lr_id l)) = Inr l' \<and> closed_as s l l' \<and>
    lr_stage l' = ui_stage u \<and> (\<forall>j. j \<noteq> Some (lr_id l) \<longrightarrow> select_loop d' j = select_loop d j)"
proof -
  have l': "l' = updated_loop e (status_params u) l0" and row: "loop_row_ok l'"
    using u l(1) by (auto elim: store_update_status_Inr)
  have "int32_of 0 = 0" by (simp add: int32_of_small)
  then have "closed_as s l l'" "lr_stage l' = ui_stage u" using l' l(2-) s row by (auto simp: closed_as_def status_params_def)
  moreover have "tasks d' = tasks d" using store_update_status_frame(1) [OF u] by auto
  ultimately show ?thesis using frame_update [OF u] select_after_update [OF u] by blast
qed

text \<open>The three outcomes of a decision that was applied.\<close>

definition stage_queued :: "loop_codec \<Rightarrow> db \<Rightarrow> db \<Rightarrow> loop_row \<Rightarrow> string \<Rightarrow> nat \<Rightarrow> bool" where
  "stage_queued c d d' l ty bump \<longleftrightarrow>
     (\<exists>a t l' s. resolve_stage_agent c d l ty = Inr a \<and> stage_from_string ty = Some s \<and> tasks d' = tasks d @ [t] \<and>
        queued_for l ty t \<and> tk_agent t = ra_agent a \<and> tk_runtime t = ra_runtime a \<and>
        select_loop d' (Some (lr_id l)) = Inr l' \<and> moved_to s (int32_of (lr_iteration l + int bump)) l l')"

definition loop_closed :: "string \<Rightarrow> db \<Rightarrow> db \<Rightarrow> loop_row \<Rightarrow> bool" where
  "loop_closed s d d' l \<longleftrightarrow> tasks d' = tasks d \<and> (\<exists>l'. select_loop d' (Some (lr_id l)) = Inr l' \<and> closed_as s l l')"

definition others_kept :: "db \<Rightarrow> db \<Rightarrow> uuid \<Rightarrow> bool" where
  "others_kept d d' i \<longleftrightarrow> (\<forall>j. j \<noteq> Some i \<longrightarrow> select_loop d' j = select_loop d j)"

lemma create_for_stage_outcome:
  assumes "create_task_for_stage c es d l ty bump = (d', r)" "select_loop d (Some (lr_id l)) = Inr l"
  shows "r = Inr () \<Longrightarrow> stage_queued c d d' l ty bump \<and> loop_frame d d' \<and> others_kept d d' (lr_id l)"
    and "r = Inl err \<Longrightarrow> error_is err ErrInvalidLoopConfiguration \<Longrightarrow> d' = d \<and> (\<exists>x. resolve_stage_agent c d l ty = Inl x)"
proof -
  assume ok: "r = Inr ()"
  then obtain a where a: "resolve_stage_agent c d l ty = Inr a" "create_task_for_stage_with_agent es d l ty bump a = (d', Inr ())"
    using assms(1) by (auto simp: create_task_for_stage_def split: sum.splits)
  obtain s where s: "stage_from_string ty = Some s"
    using a(1) by (cases "stage_from_string ty") (auto simp: resolve_stage_agent_def)
  from create_stage_Inr [OF a(2) assms(2) s] a(1) s
  show "stage_queued c d d' l ty bump \<and> loop_frame d d' \<and> others_kept d d' (lr_id l)"
    unfolding stage_queued_def others_kept_def by blast
next
  assume "r = Inl err" and inv: "error_is err ErrInvalidLoopConfiguration"
  have store: "\<not> error_is x ErrInvalidLoopConfiguration" if "store_update_status e dd i u = Inl x" for e dd i u x
    using that by (auto simp: store_update_status_def update_loop_status_def or_wrap_def or_fail_def select_loop_def
        select_one_Inl split: sum.splits if_splits)
  have create: "\<not> error_is x ErrInvalidLoopConfiguration" if "create_agent_task e n dd p = Inl x" for e n dd p x
    using that by (auto simp: create_agent_task_def commit_stmt_def or_fail_def Let_def split: sum.splits if_splits option.splits)
  show "d' = d \<and> (\<exists>x. resolve_stage_agent c d l ty = Inl x)"
  proof (cases "resolve_stage_agent c d l ty")
    case (Inl x)
    with assms(1) show ?thesis by (simp add: create_task_for_stage_def)
  next
    case (Inr a)
    with assms(1) have ca: "create_task_for_stage_with_agent es d l ty bump a = (d', Inl err)"
      using \<open>r = Inl err\<close> by (simp add: create_task_for_stage_def)
    then show ?thesis using inv
      by (auto simp: create_task_for_stage_with_agent_def stmt_def and_then_def dest: store create split: sum.splits prod.splits)
  qed
qed

lemma fail_invalid_outcome:
  assumes "fail_invalid_configuration e d l = (d', Inr ())" "select_loop d (Some (lr_id l)) = Inr l"
  shows "loop_closed ''failed'' d d' l \<and> loop_frame d d' \<and> others_kept d d' (lr_id l)"
proof -
  obtain l' where "store_update_status e d (Some (lr_id l)) (no_update\<lparr>ui_status := Some ''failed'', ui_stage := lr_stage l,
      ui_iteration := Some (lr_iteration l), ui_failure := Some ''invalid_configuration'', ui_completed_at := Some (e_wall e)\<rparr>) = Inr (d', l')"
    using assms(1) by (auto simp: fail_invalid_configuration_def res_simps)
  from close_Inr [OF this assms(2)] show ?thesis
    by (simp add: loop_closed_def others_kept_def no_update_def)
qed

lemma set_pr_select:
  assumes "store_set_pr e d i url n b = Inr (d', l')" "select_loop d i = Inr l"
  shows "select_loop d' i = Inr l' \<and> lr_id l' = lr_id l \<and> lr_iteration l' = lr_iteration l \<and> lr_workspace l' = lr_workspace l \<and>
    lr_max_iterations l' = lr_max_iterations l \<and> tasks d' = tasks d \<and> lr_status l' = lr_status l \<and>
    (\<forall>j. j \<noteq> i \<longrightarrow> select_loop d' j = select_loop d j)"
proof -
  let ?f = "\<lambda>l. l\<lparr>lr_pr_url := str_to_text url, lr_pr_number := Some (int32_of n), lr_branch := str_to_text b, lr_updated_at := e_now e\<rparr>"
  have d': "d' = d\<lparr>loops := upd_where (\<lambda>x. Some (lr_id x) = i) ?f (loops d)\<rparr>" "l' = ?f l"
    using assms by (auto simp: store_set_pr_def set_loop_pr_def or_wrap_Inr or_fail_Inr Let_def)
  have "Some (lr_id l) = i" using select_loop_Inr [OF assms(2)] by simp
  moreover have "select_loop d' j = map_sum id (\<lambda>l. if Some (lr_id l) = i then ?f l else l) (select_loop d j)" for j
    unfolding d'(1) by (rule select_loop_upd) simp
  moreover have "select_loop d' j = select_loop d j" if "j \<noteq> i" for j
    using that calculation(2) [of j] by (cases "select_loop d j") (auto dest: select_loop_Inr)
  ultimately show ?thesis using assms(2) d' by simp
qed

lemma complete_outcome:
  assumes "apply_decision c es d l (CompleteLoop url num br) = (d', Inr ())" "select_loop d (Some (lr_id l)) = Inr l"
  shows "loop_closed ''done'' d d' l \<and> loop_frame d d' \<and> others_kept d d' (lr_id l)"
proof -
  obtain d1 l1 l2 where p: "store_set_pr (es 0) d (Some (lr_id l)) url (sint num) br = Inr (d1, l1)"
      and u: "store_update_status (es 1) d1 (Some (lr_id l)) (no_update\<lparr>ui_status := Some ''done'',
          ui_completed_at := Some (e_wall (es 0))\<rparr>) = Inr (d', l2)"
    using assms(1) by (auto simp: apply_decision_def res_simps)
  note s = set_pr_select [OF p assms(2)]
  have "loop_frame d d1" by (rule frame_set_pr [OF p])
  moreover from close_Inr [OF u, of l1] s
  have "loop_frame d1 d' \<and> tasks d' = tasks d1 \<and> select_loop d' (Some (lr_id l)) = Inr l2 \<and> closed_as ''done'' l l2 \<and>
      (\<forall>j. j \<noteq> Some (lr_id l) \<longrightarrow> select_loop d' j = select_loop d1 j)"
    by (auto simp: no_update_def)
  ultimately show ?thesis using s loop_frame_trans [of d d1 d'] by (simp add: loop_closed_def others_kept_def)
qed

lemma fail_outcome:
  assumes "apply_decision c es d l (FailLoop reason) = (d', Inr ())" "select_loop d (Some (lr_id l)) = Inr l"
  shows "loop_closed ''failed'' d d' l \<and> loop_frame d d' \<and> others_kept d d' (lr_id l)"
proof -
  obtain l' where "store_update_status (es 0) d (Some (lr_id l)) (no_update\<lparr>ui_status := Some ''failed'',
      ui_failure := Some reason, ui_completed_at := Some (e_wall (es 0))\<rparr>) = Inr (d', l')"
    using assms(1) by (auto simp: apply_decision_def res_simps)
  from close_Inr [OF this assms(2)] show ?thesis by (simp add: loop_closed_def others_kept_def no_update_def)
qed

lemma queue_outcome:
  assumes "apply_decision c es d l (CreateTask ty bump) = (d', Inr ())" "select_loop d (Some (lr_id l)) = Inr l"
  shows "(stage_queued c d d' l ty bump \<or> (\<exists>x. resolve_stage_agent c d l ty = Inl x) \<and> loop_closed ''failed'' d d' l) \<and> loop_frame d d' \<and> others_kept d d' (lr_id l)"
proof -
  obtain d1 r where cr: "create_task_for_stage c es d l ty bump = (d1, r)" by fastforce
  note out = create_for_stage_outcome [OF cr assms(2)]
  show ?thesis
  proof (cases r)
    case (Inl err)
    with assms(1) cr have e: "error_is err ErrInvalidLoopConfiguration" "fail_invalid_configuration (es 2) d1 l = (d', Inr ())"
      by (auto simp: apply_decision_def split: if_splits)
    with out(2) Inl have "d1 = d" "\<exists>x. resolve_stage_agent c d l ty = Inl x" by simp_all
    with fail_invalid_outcome [of "es 2" d l d'] e(2) assms(2) show ?thesis by simp
  next
    case (Inr u)
    with assms(1) cr have "d' = d1" by (simp add: apply_decision_def)
    with out(1) Inr show ?thesis by simp
  qed
qed

section \<open>Which decision a fact leads to\<close>

text \<open>A fact that concerns the stage its loop is in.\<close>

definition drives :: "db \<Rightarrow> outbox_row \<Rightarrow> loop_row \<Rightarrow> task_row \<Rightarrow> bool" where
  "drives d v l t \<longleftrightarrow> get_task d (Some (ob_work_item v)) = Inr t \<and> tk_loop t = Some (lr_id l) \<and>
     select_loop d (Some (lr_id l)) = Inr l \<and> lr_status l = ''running'' \<and>
     (\<exists>s. lr_stage l = Some s \<and> tk_task_type t = task_type_for_stage s)"

definition verdict_of :: "loop_codec \<Rightarrow> db \<Rightarrow> outbox_row \<Rightarrow> loop_row \<Rightarrow> decision \<Rightarrow> bool" where
  "verdict_of c d v l dec \<longleftrightarrow>
     (if ob_type v = ev_completed then
        (\<exists>r. get_run d (ob_run v) = Inr r \<and> rn_task r = ob_work_item v \<and>
           dec = decide_next_stage l (case rn_output r of None \<Rightarrow> None | Some out \<Rightarrow> parse_task_result (lk_result c) out))
      else (ob_type v = ev_rejected \<or> ob_type v = ev_failed) \<and> (\<exists>reason. dec = FailLoop reason))"

lemma loop_apply_cases:
  assumes "loop_apply c e d v = (d', Inr ())"
  obtains (idle) "d' = d" "\<And>l t. \<not> drives d v l t"
  | (step) l t dec where "drives d v l t" "verdict_of c d v l dec" "apply_decision c (\<lambda>_. e) d l dec = (d', Inr ())"
proof -
  obtain t where t: "get_task d (Some (ob_work_item v)) = Inr t"
    using assms by (auto simp: loop_apply_def split: sum.splits if_splits)
  have tid: "tk_id t = ob_work_item v" using get_task_Inr [OF t] by simp
  show ?thesis
  proof (cases "\<exists>l. drives d v l t")
    case False
    then have "\<not> drives d v l t'" for l t' using t by (auto simp: drives_def)
    moreover have "d' = d"
      using assms t False
      by (auto simp: loop_apply_def drives_def split: sum.splits if_splits option.splits dest: select_loop_Inr)
    ultimately show ?thesis using idle by blast
  next
    case True
    then obtain l where l: "drives d v l t" by blast
    then obtain s where s: "lr_stage l = Some s" "tk_task_type t = task_type_for_stage s" "tk_loop t = Some (lr_id l)"
      "select_loop d (Some (lr_id l)) = Inr l" "lr_status l = ''running''" by (auto simp: drives_def)
    have "\<exists>dec. verdict_of c d v l dec \<and> apply_decision c (\<lambda>_. e) d l dec = (d', Inr ())"
      using assms t s tid
      by (auto simp: loop_apply_def verdict_of_def split: sum.splits if_splits prod.splits)
    with l step show ?thesis by blast
  qed
qed

lemma verdict_outcome:
  assumes "drives d v l t" "verdict_of c d v l dec" "apply_decision c (\<lambda>_. e) d l dec = (d', Inr ())"
  shows "loop_frame d d' \<and> others_kept d d' (lr_id l) \<and>
    ((\<exists>ty bump. dec = CreateTask ty bump \<and> stage_queued c d d' l ty bump) \<or>
     loop_closed ''failed'' d d' l \<or> loop_closed ''done'' d d' l \<or> dec = Noop \<and> d' = d)"
proof -
  have l: "select_loop d (Some (lr_id l)) = Inr l" using assms(1) by (simp add: drives_def)
  show ?thesis
  proof (cases dec)
    case (CreateTask ty bump)
    with queue_outcome [OF assms(3) [unfolded CreateTask] l] show ?thesis by blast
  next
    case (CompleteLoop url num br)
    with complete_outcome [OF assms(3) [unfolded CompleteLoop] l] show ?thesis by blast
  next
    case (FailLoop reason)
    with fail_outcome [OF assms(3) [unfolded FailLoop] l] show ?thesis by blast
  next
    case Noop
    with assms(3) show ?thesis by (simp add: apply_decision_def others_kept_def)
  qed
qed

section \<open>The invariant of the loops\<close>

definition loop_ok :: "loop_row \<Rightarrow> bool" where
  "loop_ok l \<longleftrightarrow> loop_row_ok l \<and> 0 \<le> lr_iteration l \<and> lr_iteration l \<le> max 0 (lr_max_iterations l) \<and>
     lr_max_iterations l < 2 ^ 31"

definition loops_inv :: "db \<Rightarrow> bool" where
  "loops_inv d \<longleftrightarrow> distinct_loops d \<and> (\<forall>l\<in>set (loops d). loop_ok l)"

lemma loops_inv_step:
  assumes "loops_inv d" "loop_frame d d'" "others_kept d d' i" "select_loop d' (Some i) = Inr l'" "loop_ok l'"
  shows "loops_inv d'"
proof -
  have dist: "distinct_loops d'" using assms(1,2) by (auto simp: loops_inv_def distinct_loops_def loop_frame_def)
  have "loop_ok x" if "x \<in> set (loops d')" for x
  proof (cases "lr_id x = i")
    case True
    with select_loop_key [OF dist that] assms(4) have "x = l'" by simp
    with assms(5) show ?thesis by simp
  next
    case False
    then have "select_loop d (Some (lr_id x)) = Inr x"
      using select_loop_key [OF dist that] assms(3) by (auto simp: others_kept_def)
    then show ?thesis using assms(1) by (auto simp: loops_inv_def dest: select_loop_Inr)
  qed
  with dist show ?thesis by (simp add: loops_inv_def)
qed

lemma loop_ok_small: "loop_ok l \<Longrightarrow> int32_of (lr_iteration l) = lr_iteration l"
  by (rule int32_of_small) (auto simp: loop_ok_def max_def split: if_splits)

lemma closed_ok: "closed_as s l l' \<Longrightarrow> loop_ok l \<Longrightarrow> loop_ok l'"
  using loop_ok_small [of l] by (auto simp: closed_as_def loop_ok_def)

lemma moved_ok:
  assumes "moved_to s (int32_of (lr_iteration l + int bump)) l l'" "loop_ok l" "stage_from_string ty = Some s"
    "bump = 0 \<or> bump = 1 \<and> lr_iteration l < lr_max_iterations l"
  shows "loop_ok l'" "lr_iteration l' = lr_iteration l + int bump"
proof -
  have "int32_of (lr_iteration l + int bump) = lr_iteration l + int bump"
    using assms(2,4) by (intro int32_of_small) (auto simp: loop_ok_def max_def split: if_splits)
  then show it: "lr_iteration l' = lr_iteration l + int bump" using assms(1) by (simp add: moved_to_def)
  have "s \<in> set loop_stages" using assms(3) stage_maps(1) by blast
  then show "loop_ok l'" using it assms by (auto simp: moved_to_def loop_ok_def loop_row_ok_def loop_statuses_def)
qed

text \<open>Only a rejected review bumps the iteration, and only below the limit.\<close>

lemma decide_bump:
  "decide_next_stage l r = CreateTask ty bump \<Longrightarrow> bump = 0 \<or> bump = 1 \<and> lr_iteration l < lr_max_iterations l"
  by (auto simp: decide_next_stage_def split: if_splits option.splits)

lemma verdict_bump:
  "verdict_of c d v l (CreateTask ty bump) \<Longrightarrow> bump = 0 \<or> bump = 1 \<and> lr_iteration l < lr_max_iterations l"
  by (auto simp: verdict_of_def dest: decide_bump [OF sym] split: if_splits)

end
