(* ===== verification/LoopDemo.thy ===== *)
theory LoopDemo
  imports LoopFacts OutboxProps
begin

text \<open>
  A loop in its review stage whose Work Item has completed: the databases on which the properties
  of the engineering loop are exhibited, and one consumed fact on them.
\<close>

definition demo_loop :: "string \<Rightarrow> string option \<Rightarrow> int \<Rightarrow> loop_row" where
  "demo_loop st stage it = \<lparr>lr_id = 50, lr_issue = 30, lr_workspace = 1, lr_status = st, lr_stage = stage,
     lr_iteration = it, lr_max_iterations = 2, lr_pr_url = None, lr_pr_number = None, lr_branch = None,
     lr_agent = Some 10, lr_config = ''c'', lr_failure_reason = None, lr_started_at = Some 0, lr_completed_at = None,
     lr_created_at = 0, lr_updated_at = 0\<rparr>"

text \<open>Every stage has the agent 10; a result is an approval when \<open>ok\<close>.\<close>

definition demo_loop_codec :: "bool \<Rightarrow> loop_codec" where
  "demo_loop_codec ok = \<lparr>
     lk_stage_agents = (\<lambda>_. [(''plan'', ''a''), (''develop'', ''a''), (''review'', ''a''), (''fix'', ''a'')]),
     lk_result = (\<lambda>_. Some \<lparr>tr_review_approved = Some ok, tr_review_issues = '''', tr_pr_url = ''u'', tr_pr_number = None,
        tr_branch_name = ''b''\<rparr>),
     lk_uuid = (\<lambda>_. Some 10)\<rparr>"

definition demo_review_task :: task_row where
  "demo_review_task = demo_done\<lparr>tk_task_type := ''loop_review'', tk_loop := Some 50\<rparr>"

definition demo_loop_db :: "string \<Rightarrow> int \<Rightarrow> db" where
  "demo_loop_db st it = demo5\<lparr>tasks := [demo_review_task], outbox := [demo_fact],
     loops := [demo_loop st (Some ''review'') it]\<rparr>"

lemma demo_loops_inv: "st \<in> set loop_statuses \<Longrightarrow> it \<in> {0, 1, 2} \<Longrightarrow> loops_inv (demo_loop_db st it)"
  by (auto simp: loops_inv_def distinct_loops_def demo_loop_db_def loop_ok_def loop_row_ok_def demo_loop_def loop_stages_def)

lemmas demo_loop_rows = demo_loop_db_def demo_review_task_def demo_loop_def demo_fact_def demo5_rows

lemma demo_loop_claim: "claim_engineering_loop_event (demo_env 10) (demo_loop_db st it) = Inr demo_fact"
  by (simp add: claim_engineering_loop_event_def loop_event_claimable_def delivery_ready_def lifecycle_terminal_types_def
      demo_loop_rows)

lemma demo_loop_select: "select_loop (demo_loop_db st it) (Some 50) = Inr (demo_loop st (Some ''review'') it)"
  by (simp add: select_loop_def select_one_def demo_loop_db_def demo_loop_def)

text \<open>A rejected review below the limit queues the fix stage and counts the iteration.\<close>

definition demo_fix_task :: task_row where
  "demo_fix_task = (demo_queued 10 1)\<lparr>tk_task_type := ''loop_fix'', tk_loop := Some 50\<rparr>"

lemma demo_fix_created:
  "create_agent_task (demo_env 10) 0 (demo_loop_db ''running'' it)
     \<lparr>ct_agent = Some 10, ct_runtime = Some 20, ct_issue = Some 30, ct_priority = 1, ct_trigger = None,
      ct_task_type = Some ''loop_fix'', ct_loop = Some 50\<rparr>
   = Inr (demo_loop_db ''running'' it\<lparr>tasks := [demo_review_task, demo_fix_task]\<rparr>, demo_fix_task)"
  by (simp add: create_agent_task_def commit_stmt_def Let_def or_fail_def constraint_defs task_types_def
      demo_fix_task_def demo_loop_rows)

lemma trim_demo: "trim_space ''a'' = ''a''"
  by code_simp

lemma demo_resolve:
  "resolve_stage_agent (demo_loop_codec ok) (demo_loop_db st it) (demo_loop st' s it') ''loop_fix'' = Inr \<lparr>ra_agent = 10, ra_runtime = 20\<rparr>"
  by (simp add: resolve_stage_agent_def stage_agent_def parse_config_def stage_from_string_def trim_demo get_agent_def
      select_one_def demo_loop_codec_def demo_loop_rows)

end
