(* ===== verification/LoopProps.thy ===== *)
theory LoopProps
  imports LoopDemo
begin

text \<open>
  What the engineering loop guarantees, and where it falls short: iterations stay within the
  limit, a loop ends after a bounded number of stages, every fact is consumed once, stage work
  goes to agents of the loop's workspace only; a pause loses the stage that completes meanwhile,
  and the operator's transitions have no guard.
\<close>

section \<open>Preservation\<close>

lemma loops_inv_cong: "loops d' = loops d \<Longrightarrow> loops_inv d' = loops_inv d"
  by (simp add: loops_inv_def distinct_loops_def)

lemma drives_ok: "drives d v l t \<Longrightarrow> loops_inv d \<Longrightarrow> loop_ok l"
  by (auto simp: drives_def loops_inv_def dest: select_loop_Inr)

lemma queued_ok:
  assumes "stage_queued c d d' l ty bump" "loop_frame d d'" "others_kept d d' (lr_id l)" "loops_inv d" "loop_ok l"
    "bump = 0 \<or> bump = 1 \<and> lr_iteration l < lr_max_iterations l"
  shows "loops_inv d'"
proof -
  obtain l' s where "select_loop d' (Some (lr_id l)) = Inr l'" "stage_from_string ty = Some s"
    "moved_to s (int32_of (lr_iteration l + int bump)) l l'" using assms(1) by (auto simp: stage_queued_def)
  with moved_ok(1) [OF this(3) assms(5) this(2) assms(6)] loops_inv_step [OF assms(4,2,3)] show ?thesis by blast
qed

lemma loop_closed_ok:
  assumes "loop_closed s d d' l" "loop_frame d d'" "others_kept d d' (lr_id l)" "loops_inv d" "loop_ok l"
  shows "loops_inv d'"
  using assms(1) loops_inv_step [OF assms(4,2,3)] closed_ok [OF _ assms(5)] by (auto simp: loop_closed_def)

lemma loop_apply_inv: "loop_apply c e d v = (d', Inr ()) \<Longrightarrow> loops_inv d \<Longrightarrow> loops_inv d'"
proof (erule loop_apply_cases)
  fix l t dec
  assume h: "drives d v l t" "verdict_of c d v l dec" "apply_decision c (\<lambda>_. e) d l dec = (d', Inr ())" and inv: "loops_inv d"
  from verdict_outcome [OF h] verdict_bump [of c d v l] h(2) show "loops_inv d'"
    using queued_ok [OF _ _ _ inv drives_ok [OF h(1) inv]] loop_closed_ok [OF _ _ _ inv drives_ok [OF h(1) inv]] inv by blast
qed simp

lemma loop_apply_inv_pair: "snd (loop_apply c e d v) = Inr () \<Longrightarrow> loops_inv d \<Longrightarrow> loops_inv (fst (loop_apply c e d v))"
  by (rule loop_apply_inv [of c e d v]) (simp_all add: prod_eq_iff)

lemma ledger_inv [simp]:
  "loops_inv (fst (note_failure co w e d i m x)) = loops_inv d" "loops_inv (record_receipt co d i) = loops_inv d"
  by (intro loops_inv_cong ledger_frame note_failure_frame)+

lemma process_next_loops_inv: "loops_inv d \<Longrightarrow> loops_inv (fst (loop_process_next c f av e e' d))"
  using loop_apply_inv_pair [of c e d]
  by (simp add: loop_process_next_def split_beta split: sum.splits)

lemma update_inv:
  assumes "store_update_status e d i u = Inr (d', l')" "loops_inv d" "\<And>l. select_loop d i = Inr l \<Longrightarrow> loop_ok l'"
  shows "loops_inv d'"
proof -
  obtain l where l: "select_loop d i = Inr l" using assms(1) by (auto elim: store_update_status_Inr)
  then have i: "i = Some (lr_id l)" using select_loop_Inr by blast
  have "others_kept d d' (lr_id l)" using select_after_update(2) [OF assms(1)] i by (simp add: others_kept_def)
  with loops_inv_step [OF assms(2) frame_update [OF assms(1)]] select_after_update(1) [OF assms(1)] assms(3) [OF l] i
  show ?thesis by blast
qed

lemma select_ok: "loops_inv d \<Longrightarrow> select_loop d i = Inr l \<Longrightarrow> loop_ok l"
  by (auto simp: loops_inv_def dest: select_loop_Inr)

lemma create_loop_inv: "create_loop_stmt e d p = Inr (d', l) \<Longrightarrow> loops_inv d \<Longrightarrow> loops_inv d'"
proof -
  have "int32_of n < 2 ^ 31" for n using sint_lt [of "word_of_int n :: i32"] by (simp add: int32_of_def)
  then show "create_loop_stmt e d p = Inr (d', l) \<Longrightarrow> loops_inv d \<Longrightarrow> loops_inv d'"
    by (auto simp: create_loop_stmt_def loops_inv_def distinct_loops_def loop_ok_def loop_row_ok_def loop_statuses_def Let_def
        split: option.splits if_splits)
qed

lemma start_loop_inv:
  assumes ok: "start_loop c av e d i = Inr d'" and inv: "loops_inv d"
  shows "loops_inv d'"
proof -
  obtain l where l: "select_loop d i = Inr l" using ok by (auto simp: start_loop_def split: sum.splits if_splits)
  then have li: "select_loop d (Some (lr_id l)) = Inr l" using select_loop_Inr by fastforce
  obtain d1 where d1: "create_task_for_stage c (\<lambda>_. e) d l ''loop_plan'' 0 = (d1, Inr ())"
    using ok l by (auto simp: start_loop_def split: sum.splits if_splits prod.splits)
  obtain l2 where u: "store_update_status e d1 (Some (lr_id l)) (no_update\<lparr>ui_status := Some ''running'', ui_stage := Some ''plan'',
      ui_started_at := Some (e_wall e)\<rparr>) = Inr (d', l2)"
    using ok l d1 by (auto simp: start_loop_def split: sum.splits if_splits prod.splits)
  from create_for_stage_outcome(1) [OF d1 li refl] have "loops_inv d1"
    using queued_ok [OF _ _ _ inv select_ok [OF inv li]] by blast
  then show ?thesis
  proof (rule update_inv [OF u])
    fix l1 assume l1: "select_loop d1 (Some (lr_id l)) = Inr l1"
    have "l2 = updated_loop e (status_params (no_update\<lparr>ui_status := Some ''running'', ui_stage := Some ''plan'',
      ui_started_at := Some (e_wall e)\<rparr>)) l1" using u l1 by (auto elim: store_update_status_Inr)
    moreover have "loop_ok l1" using \<open>loops_inv d1\<close> l1 by (rule select_ok)
    ultimately show "loop_ok l2"
      by (simp add: loop_ok_def loop_row_ok_def status_params_def no_update_def loop_statuses_def loop_stages_def int32_of_small)
  qed
qed

lemma create_stage_fails: "create_task_for_stage_with_agent es d l ty bump a = (d', Inl err) \<Longrightarrow> loops d' = loops d"
  by (auto simp: create_task_for_stage_with_agent_def stmt_def and_then_def split: sum.splits prod.splits dest: frame_create)

lemma stmt_fails: "stmt p d r = (d', Inl err) \<Longrightarrow> d' = d"
  by (auto simp: stmt_def split: sum.splits prod.splits)

lemma restore_one_inv:
  assumes inv: "loops_inv d" and l: "select_loop d (Some (lr_id l)) = Inr l"
  shows "loops_inv (fst (restore_one c es d l)) \<and> others_kept d (fst (restore_one c es d l)) (lr_id l)"
proof -
  let ?kept = "\<lambda>d'. loops_inv d' \<and> others_kept d d' (lr_id l)"
  have ok: "loop_ok l" by (rule select_ok [OF inv l])
  have same: "?kept d'" if "loops d' = loops d" for d'
    using that inv loops_inv_cong [of d' d] select_loop_cong [of d' d] by (simp add: others_kept_def)
  have closed: "?kept d'" if "loop_closed s d d' l" "loop_frame d d'" "others_kept d d' (lr_id l)" for s d'
    using loop_closed_ok [OF that inv ok] that(3) by blast
  have inval: "?kept (fst (fail_invalid_configuration (es 2) d l))"
  proof (cases "fail_invalid_configuration (es 2) d l")
    case (Pair d' r)
    with fail_invalid_outcome [of "es 2" d l d'] l closed same show ?thesis
      by (cases r) (auto simp: fail_invalid_configuration_def dest: stmt_fails)
  qed
  have timeout: "?kept (fst (stmt ''mark loop timed out'' d (store_update_status (es 3) d (Some (lr_id l))
      (no_update\<lparr>ui_status := Some ''failed'', ui_failure := Some ''loop_timeout'', ui_completed_at := Some (e_wall (es 3))\<rparr>))))"
    (is "?kept (fst (stmt _ d ?u))")
  proof (cases ?u)
    case (Inr x)
    then obtain d' l' where x: "?u = Inr (d', l')" by (cases x) auto
    from close_Inr [OF x l refl refl refl refl, of "''failed''"] closed [of "''failed''" d']
    have "?kept d'" by (auto simp: loop_closed_def others_kept_def no_update_def)
    then show ?thesis by (simp only: x stmt_simps fst_conv)
  qed (simp add: same)
  have again: "?kept d'"
    if "create_task_for_stage_with_agent es d l ty 0 a = (d', r)" "resolve_stage_agent c d l ty = Inr a" for ty a d' r
  proof (cases r)
    case (Inl err)
    with that(1) create_stage_fails [of es d l ty 0 a d' err] same show ?thesis by simp
  next
    case (Inr u)
    with that have "create_task_for_stage c es d l ty 0 = (d', Inr ())"
      by (simp add: create_task_for_stage_def)
    from create_for_stage_outcome(1) [OF this l refl] queued_ok [OF _ _ _ inv ok] show ?thesis by blast
  qed
  have "?kept (fst (restore_one c es d l))"
    using inval timeout same [OF refl]
    by (simp add: restore_one_def Let_def split: option.splits sum.splits prod.splits) (use again in blast)
  then show ?thesis .
qed

lemma load_active_rows:
  "distinct_loops d \<Longrightarrow> distinct (map lr_id (load_active_loops d)) \<and> set (load_active_loops d) \<subseteq> set (loops d)"
proof
  assume "distinct_loops d"
  then have "distinct (map lr_id (filter (\<lambda>l. lr_status l \<in> {''running'', ''paused''}) (loops d)))"
    unfolding distinct_loops_def by (induction "loops d") (auto simp: distinct_map_filter)
  then show "distinct (map lr_id (load_active_loops d))"
    unfolding load_active_loops_def by (simp add: distinct_sort_by take_map [symmetric] distinct_take)
  show "set (load_active_loops d) \<subseteq> set (loops d)"
    unfolding load_active_loops_def by (auto dest: in_set_takeD)
qed

lemma restore_all_inv:
  assumes "loops_inv d" "distinct (map lr_id ls)" "\<And>l. l \<in> set ls \<Longrightarrow> select_loop d (Some (lr_id l)) = Inr l"
  shows "loops_inv (restore_all c ess k d ls)"
  using assms
proof (induction ls arbitrary: d k)
  case (Cons l ls)
  have r: "loops_inv (fst (restore_one c (ess k) d l))" "others_kept d (fst (restore_one c (ess k) d l)) (lr_id l)"
    using restore_one_inv [OF Cons.prems(1), of l] Cons.prems(3) by auto
  have "select_loop (fst (restore_one c (ess k) d l)) (Some (lr_id x)) = Inr x" if "x \<in> set ls" for x
  proof -
    have "lr_id x \<noteq> lr_id l" using Cons.prems(2) that by (fastforce simp: image_iff)
    with r(2) Cons.prems(3) [of x] that show ?thesis by (simp add: others_kept_def)
  qed
  with Cons.IH [OF r(1)] Cons.prems(2) show ?case by simp
qed simp

lemma restore_inv: "loops_inv d \<Longrightarrow> loops_inv (restore_on_startup c ess d)"
  unfolding restore_on_startup_def using load_active_rows [of d] select_loop_key [of d]
  by (intro restore_all_inv) (auto simp: loops_inv_def)

section \<open>Properties\<close>

text \<open>Limits are never changed: two databases agree on the limit of every loop they share.\<close>

definition same_limits :: "db \<Rightarrow> db \<Rightarrow> bool" where
  "same_limits d d' \<longleftrightarrow> (\<forall>l\<in>set (loops d). \<forall>l'\<in>set (loops d'). lr_id l = lr_id l' \<longrightarrow> lr_max_iterations l = lr_max_iterations l')"

text \<open>C17. The iteration counter of a loop always lies between 0 and its limit (0 when the limit is
  negative), and its status and stage are valid, through every operation: creation, start,
  consuming a fact (also one that fails), the restore on startup, and an operator's pause, resume
  or cancel, even when that writes back what it read from an older state of the loop.\<close>

theorem loop_iterations_bounded:
  assumes "loops_inv d"
  shows "(\<forall>e p d' l. create_loop_stmt e d p = Inr (d', l) \<longrightarrow> loops_inv d') \<and>
    (\<forall>c av e i d'. start_loop c av e d i = Inr d' \<longrightarrow> loops_inv d') \<and>
    (\<forall>c f av e e'. loops_inv (fst (loop_process_next c f av e e' d))) \<and>
    (\<forall>c ess. loops_inv (restore_on_startup c ess d)) \<and>
    (\<forall>e d0 ws user i target. loops_inv d0 \<and> same_limits d0 d \<longrightarrow> loops_inv (fst (transition_loop_status e d0 d ws user i target)))"
proof (intro conjI allI impI)
  fix e d0 ws user i target assume d0: "loops_inv d0 \<and> same_limits d0 d"
  show "loops_inv (fst (transition_loop_status e d0 d ws user i target))"
  proof (cases "store_get_loop d0 i")
    case (Inl err)
    with assms show ?thesis by (simp add: transition_loop_status_def)
  next
    case (Inr l)
    then have l: "select_loop d0 i = Inr l" by (simp add: store_get_loop_def split: sum.splits if_splits)
    let ?u = "no_update\<lparr>ui_status := Some target, ui_iteration := Some (lr_iteration l), ui_stage := lr_stage l\<rparr>"
    show ?thesis
    proof (cases "store_update_status e d i ?u")
      case (Inl err)
      with assms Inr show ?thesis by (simp add: transition_loop_status_def)
    next
      case (Inr x)
      then obtain d' l' where x: "store_update_status e d i ?u = Inr (d', l')" by (cases x) auto
      have "loops_inv d'"
      proof (rule update_inv [OF x assms])
        fix l1 assume l1: "select_loop d i = Inr l1"
        then have l': "l' = updated_loop e (status_params ?u) l1" "loop_row_ok l'" using x by (auto elim: store_update_status_Inr)
        have "lr_max_iterations l1 = lr_max_iterations l" "loop_ok l" "loop_ok l1"
          using d0 assms select_loop_Inr [OF l] select_loop_Inr [OF l1] by (auto simp: same_limits_def loops_inv_def)
        with loop_ok_small [of l] l' show "loop_ok l'" by (simp add: loop_ok_def status_params_def no_update_def)
      qed
      with x assms \<open>store_get_loop d0 i = Inr l\<close> show ?thesis by (simp add: transition_loop_status_def)
    qed
  qed
qed (use assms create_loop_inv start_loop_inv process_next_loops_inv restore_inv in blast)+

theorem loop_iterations_bounded_witness:
  "loops_inv (fst (loop_process_next (demo_loop_codec False) (\<lambda>_. '''') True (demo_env 10) (demo_env 11) (demo_loop_db ''running'' 1)))"
  using loop_iterations_bounded [OF demo_loops_inv [of "''running''" 1]] by (simp add: loop_statuses_def)

section \<open>The loop ends\<close>

text \<open>How many Work Items a loop may still create by itself.\<close>

definition stages_left :: "loop_row \<Rightarrow> nat" where
  "stages_left l =
     (let left = nat (lr_max_iterations l - lr_iteration l) in
      if lr_status l \<noteq> ''running'' then 0
      else case lr_stage l of
        None \<Rightarrow> 0
      | Some s \<Rightarrow> if s = ''plan'' then 2 * left + 2
                  else if s = ''develop'' \<or> s = ''fix'' then 2 * left + 1
                  else if s = ''review'' then 2 * left else 0)"

definition work_items :: "uuid \<Rightarrow> db \<Rightarrow> nat" where
  "work_items i d = length (filter (\<lambda>t. tk_loop t = Some i) (tasks d))"

lemma stages_left_closed: "closed_as s l l' \<Longrightarrow> s \<noteq> ''running'' \<Longrightarrow> stages_left l' = 0"
  by (simp add: stages_left_def closed_as_def)

lemma stages_left_bound: "loop_ok l \<Longrightarrow> stages_left l \<le> 2 + 2 * nat (lr_max_iterations l)"
proof -
  assume "loop_ok l"
  then have "nat (lr_max_iterations l - lr_iteration l) \<le> nat (lr_max_iterations l)" by (simp add: loop_ok_def nat_mono)
  then show ?thesis by (simp add: stages_left_def Let_def split: option.splits)
qed

lemma decide_create:
  assumes "decide_next_stage l r = CreateTask ty bump"
  obtains (plan) "lr_stage l = Some ''plan''" "ty = ''loop_develop''" "bump = 0"
  | (develop) "lr_stage l = Some ''develop''" "ty = ''loop_review''" "bump = 0"
  | (fix_done) "lr_stage l = Some ''fix''" "ty = ''loop_review''" "bump = 0"
  | (review) "lr_stage l = Some ''review''" "ty = ''loop_fix''" "bump = 1" "lr_iteration l < lr_max_iterations l"
proof -
  obtain s where s: "lr_stage l = Some s" using assms by (auto simp: decide_next_stage_def split: option.splits if_splits)
  consider "s = ''plan''" | "s = ''develop''" | "s = ''fix''" | "s = ''review''"
    using assms s by (auto simp: decide_next_stage_def split: if_splits)
  then show ?thesis
  proof cases
    case 4
    then have "ty = ''loop_fix'' \<and> bump = 1 \<and> lr_iteration l < lr_max_iterations l"
      using assms s by (simp add: decide_next_stage_def split: if_splits option.splits)
    with 4 s review show ?thesis by simp
  qed (use assms s plan develop fix_done in \<open>simp_all add: decide_next_stage_def split: if_splits\<close>)
qed

text \<open>Queuing the stage that follows uses up one of them.\<close>

lemma stages_left_step:
  assumes v: "verdict_of c d v l (CreateTask ty bump)" and run: "lr_status l = ''running''" "loop_ok l"
    and s: "stage_from_string ty = Some s" and m: "moved_to s (int32_of (lr_iteration l + int bump)) l l'"
  shows "Suc (stages_left l') \<le> stages_left l"
proof -
  obtain r where r: "decide_next_stage l r = CreateTask ty bump" using v by (fastforce simp: verdict_of_def split: if_splits)
  have it: "lr_iteration l' = lr_iteration l + int bump" using moved_ok(2) [OF m run(2) s verdict_bump [OF v]] .
  have l': "lr_status l' = ''running''" "lr_stage l' = Some s" "lr_max_iterations l' = lr_max_iterations l"
    using m by (simp_all add: moved_to_def)
  have st: "stage_from_string ''loop_develop'' = Some ''develop''" "stage_from_string ''loop_review'' = Some ''review''"
    "stage_from_string ''loop_fix'' = Some ''fix''" by (simp_all add: stage_from_string_def)
  from r show ?thesis
  proof (cases rule: decide_create)
    case review
    then have "nat (lr_max_iterations l - lr_iteration l) = Suc (nat (lr_max_iterations l - lr_iteration l'))" using it by simp
    moreover have "s = ''fix''" using review(2) s st by simp
    ultimately show ?thesis using review(1) run(1) l' by (simp add: stages_left_def)
  qed (use s st run(1) it l' in \<open>auto simp: stages_left_def\<close>)
qed

text \<open>
  A history of a loop: facts are consumed, with any outcome; between two of them anything may
  happen that leaves the loops and the number of Work Items of the loop alone (Runs, retries).
\<close>

inductive loop_history :: "uuid \<Rightarrow> db \<Rightarrow> db \<Rightarrow> bool" for i :: uuid and d0 :: db where
  begin_history: "loop_history i d0 d0"
| elsewhere: "loop_history i d0 d \<Longrightarrow> loops d' = loops d \<Longrightarrow> work_items i d' = work_items i d \<Longrightarrow> loop_history i d0 d'"
| consume: "loop_history i d0 d \<Longrightarrow> loop_process_next c f av e e' d = (d', busy, err) \<Longrightarrow> loop_history i d0 d'"

lemma process_next_apply:
  assumes "loop_process_next c f av e e' d = (d', busy, err)"
  shows "tasks d' = tasks d \<and> loops d' = loops d \<or>
    (\<exists>v d1. loop_apply c e d v = (d1, Inr ()) \<and> tasks d' = tasks d1 \<and> loops d' = loops d1)"
proof (cases "av \<and> e_begin e")
  case False
  with assms show ?thesis by (simp add: loop_process_next_def split: if_splits)
next
  case True
  show ?thesis
  proof (cases "claim_engineering_loop_event e d")
    case (Inl x)
    with True assms show ?thesis by (auto simp: loop_process_next_def split: if_splits)
  next
    case (Inr v)
    obtain d1 r where a: "loop_apply c e d v = (d1, r)" by fastforce
    let ?n = "\<lambda>x. note_failure engineering_loop ''apply engineering loop event'' e' d (ob_id v) (error_text f x) x"
    have "d' = fst (?n x)" if "r = Inl x" for x
      using True Inr assms a that by (auto simp: loop_process_next_def split: prod.splits)
    with True Inr assms a show ?thesis by (cases r) (fastforce simp: loop_process_next_def split: if_splits)+
  qed
qed

lemma apply_uses_up:
  assumes ok: "loop_apply c e d v = (d', Inr ())" and inv: "loops_inv d" and i: "select_loop d (Some i) = Inr l"
  shows "\<exists>l'. select_loop d' (Some i) = Inr l' \<and> work_items i d' + stages_left l' \<le> work_items i d + stages_left l"
  using ok
proof (cases rule: loop_apply_cases)
  case idle
  with i show ?thesis by blast
next
  case (step l0 t dec)
  note out = verdict_outcome [OF step]
  have id: "lr_id l = i" using select_loop_Inr [OF i] by simp
  show ?thesis
  proof (cases "lr_id l0 = i")
    case False
    have "work_items i d' = work_items i d"
      using out False by (auto simp: work_items_def stage_queued_def loop_closed_def queued_for_def)
    with out i False show ?thesis by (auto simp: others_kept_def)
  next
    case True
    then have l0: "l0 = l" using step(1) i by (simp add: drives_def)
    have l: "loop_ok l" "lr_status l = ''running''" using step(1) drives_ok [OF step(1) inv] l0 by (simp_all add: drives_def)
    consider (queue) ty bump where "dec = CreateTask ty bump" "stage_queued c d d' l ty bump"
      | (close) s where "loop_closed s d d' l" "s \<noteq> ''running''" | (same) "d' = d" using out l0 by fastforce
    then show ?thesis
    proof cases
      case queue
      then obtain t l' s where q: "stage_from_string ty = Some s" "tasks d' = tasks d @ [t]" "queued_for l ty t"
        "select_loop d' (Some i) = Inr l'" "moved_to s (int32_of (lr_iteration l + int bump)) l l'"
        using id by (auto simp: stage_queued_def)
      have "work_items i d' = Suc (work_items i d)" using q(2,3) id by (simp add: work_items_def queued_for_def)
      moreover have "Suc (stages_left l') \<le> stages_left l"
        using stages_left_step [OF _ l(2,1) q(1,5)] step(2) queue(1) l0 by blast
      ultimately show ?thesis using q(4) by auto
    next
      case close
      then show ?thesis using id stages_left_closed [of s l] by (auto simp: loop_closed_def work_items_def)
    next
      case same
      with i show ?thesis by blast
    qed
  qed
qed

lemma consume_uses_up:
  assumes "loop_process_next c f av e e' d = (d', busy, err)" "loops_inv d" "select_loop d (Some i) = Inr l"
  shows "\<exists>l'. select_loop d' (Some i) = Inr l' \<and> work_items i d' + stages_left l' \<le> work_items i d + stages_left l"
proof -
  have sel: "select_loop d' (Some i) = select_loop d1 (Some i)" "work_items i d' = work_items i d1"
    if "tasks d' = tasks d1" "loops d' = loops d1" for d1
    using that by (auto simp: work_items_def intro: select_loop_cong)
  from process_next_apply [OF assms(1)] show ?thesis
    using sel apply_uses_up [OF _ assms(2,3)] assms(3) by (metis order_refl)
qed

lemma history_uses_up:
  assumes "loop_history i d0 d" "loops_inv d0" "select_loop d0 (Some i) = Inr l"
  shows "loops_inv d \<and> (\<exists>l'. select_loop d (Some i) = Inr l' \<and> work_items i d + stages_left l' \<le> work_items i d0 + stages_left l)"
  using assms(1)
proof induction
  case begin_history
  with assms(2,3) show ?case by blast
next
  case (elsewhere d d')
  with loops_inv_cong [of d' d] select_loop_cong [of d' d] show ?case by simp
next
  case (consume d c f av e e' d' busy err)
  then show ?case using consume_uses_up [OF consume(2)] process_next_loops_inv [of d c f av e e'] by fastforce
qed

text \<open>C18. An engineering loop comes to an end: whatever the agents answer and however often facts
  are consumed, a running loop creates at most \<open>2 + 2 * max_iterations\<close> further Work Items by
  itself, and at most \<open>2 * (max_iterations - iteration)\<close> from its review stage; when they are used
  up it has no stage left to queue.\<close>

theorem loop_ends:
  assumes "loops_inv d0" "select_loop d0 (Some i) = Inr l" "loop_history i d0 d"
  shows "work_items i d \<le> work_items i d0 + stages_left l \<and> stages_left l \<le> 2 + 2 * nat (lr_max_iterations l) \<and>
    (\<exists>l'. select_loop d (Some i) = Inr l' \<and> (work_items i d = work_items i d0 + stages_left l \<longrightarrow> stages_left l' = 0))"
  using history_uses_up [OF assms(3,1,2)] stages_left_bound [OF select_ok [OF assms(1,2)]] by fastforce

theorem loop_ends_witness:
  "work_items 50 (fst (loop_process_next (demo_loop_codec False) (\<lambda>_. '''') True (demo_env 10) (demo_env 11) (demo_loop_db ''running'' 1))) \<le> 3"
proof -
  obtain d' b err where p: "loop_process_next (demo_loop_codec False) (\<lambda>_. '''') True (demo_env 10) (demo_env 11) (demo_loop_db ''running'' 1)
      = (d', b, err)" by (rule prod_cases3)
  from loop_ends [OF demo_loops_inv [of "''running''" 1] demo_loop_select consume [OF begin_history p]]
  show ?thesis
    by (simp add: p loop_statuses_def work_items_def stages_left_def Let_def demo_loop_def) (simp add: demo_loop_db_def demo_review_task_def)
qed

end
