(* ===== verification/LoopDelivery.thy ===== *)
theory LoopDelivery
  imports LoopProps
begin

text \<open>
  How facts reach engineering loops (each at most once, failures backed off), who may work for a
  loop, what the restore on startup settles, and what operators can do to a loop.
\<close>

section \<open>Consumption\<close>

text \<open>What a fact should do to the loop whose current stage it settles: a completed plan is developed, development and
  fixes are reviewed, an approved review completes the loop, a review that is not approved is followed by a fix that counts one
  more iteration, or ends the loop when the limit is reached; a failed or rejected Work Item ends the loop. A stage without a
  usable agent ends the loop instead.\<close>

definition stage_or_fail :: "loop_codec \<Rightarrow> db \<Rightarrow> db \<Rightarrow> loop_row \<Rightarrow> string \<Rightarrow> nat \<Rightarrow> bool" where
  "stage_or_fail c d d' l ty bump \<longleftrightarrow>
     stage_queued c d d' l ty bump \<or> (\<exists>x. resolve_stage_agent c d l ty = Inl x) \<and> loop_closed ''failed'' d d' l"

definition approved :: "loop_codec \<Rightarrow> run_row \<Rightarrow> bool" where
  "approved c r \<longleftrightarrow> (\<exists>out res. rn_output r = Some out \<and> parse_task_result (lk_result c) out = Some res \<and> tr_review_approved res = Some True)"

definition fact_effect :: "loop_codec \<Rightarrow> db \<Rightarrow> outbox_row \<Rightarrow> loop_row \<Rightarrow> db \<Rightarrow> bool" where
  "fact_effect c d v l d' \<longleftrightarrow> loop_frame d d' \<and> others_kept d d' (lr_id l) \<and>
     (if ob_type v = ''run.completed'' then
        \<exists>r. get_run d (ob_run v) = Inr r \<and> rn_task r = ob_work_item v \<and>
          (if lr_stage l = Some ''plan'' then stage_or_fail c d d' l ''loop_develop'' 0
           else if lr_stage l = Some ''develop'' \<or> lr_stage l = Some ''fix'' then stage_or_fail c d d' l ''loop_review'' 0
           else if lr_stage l = Some ''review'' then
             (if approved c r then loop_closed ''done'' d d' l
              else if lr_max_iterations l \<le> lr_iteration l then loop_closed ''failed'' d d' l
              else stage_or_fail c d d' l ''loop_fix'' 1)
           else d' = d)
      else loop_closed ''failed'' d d' l)"

lemma decision_effect:
  assumes "apply_decision c es d l dec = (d', Inr ())" "select_loop d (Some (lr_id l)) = Inr l"
  shows "loop_frame d d' \<and> others_kept d d' (lr_id l) \<and>
    (case dec of CreateTask ty bump \<Rightarrow> stage_or_fail c d d' l ty bump | CompleteLoop url num br \<Rightarrow> loop_closed ''done'' d d' l
     | FailLoop reason \<Rightarrow> loop_closed ''failed'' d d' l | Noop \<Rightarrow> d' = d)"
proof (cases dec)
  case (CreateTask ty bump)
  with queue_outcome [OF assms(1) [unfolded CreateTask] assms(2)] show ?thesis by (simp add: stage_or_fail_def)
next
  case (CompleteLoop url num br)
  with complete_outcome [OF assms(1) [unfolded CompleteLoop] assms(2)] show ?thesis by simp
next
  case (FailLoop reason)
  with fail_outcome [OF assms(1) [unfolded FailLoop] assms(2)] show ?thesis by simp
next
  case Noop
  with assms(1) show ?thesis by (simp add: apply_decision_def others_kept_def)
qed

lemma completed_effect:
  assumes "drives d v l t" "get_run d (ob_run v) = Inr r" "rn_task r = ob_work_item v" "ob_type v = ev_completed"
    "dec = decide_next_stage l (case rn_output r of None \<Rightarrow> None | Some out \<Rightarrow> parse_task_result (lk_result c) out)"
    "apply_decision c (\<lambda>_. e) d l dec = (d', Inr ())"
  shows "fact_effect c d v l d'"
proof -
  let ?res = "case rn_output r of None \<Rightarrow> None | Some out \<Rightarrow> parse_task_result (lk_result c) out"
  have l: "select_loop d (Some (lr_id l)) = Inr l" "lr_status l = ''running''" using assms(1) by (auto simp: drives_def)
  note out = decision_effect [OF assms(6) l(1)]
  obtain s where s: "lr_stage l = Some s" using assms(1) by (auto simp: drives_def)
  have yes: "approved c r \<longleftrightarrow> (\<exists>res. ?res = Some res \<and> tr_review_approved res = Some True)"
    by (auto simp: approved_def split: option.splits)
  consider "s = ''plan''" | "s = ''develop'' \<or> s = ''fix''" | "s = ''review''" | "s \<notin> {''plan'', ''develop'', ''fix'', ''review''}" by blast
  then show ?thesis
  proof cases
    case 3
    have "case dec of CompleteLoop url num br \<Rightarrow> approved c r
        | FailLoop reason \<Rightarrow> \<not> approved c r \<and> lr_max_iterations l \<le> lr_iteration l
        | CreateTask ty bump \<Rightarrow> \<not> approved c r \<and> \<not> lr_max_iterations l \<le> lr_iteration l \<and> ty = ''loop_fix'' \<and> bump = 1
        | Noop \<Rightarrow> False"
      unfolding yes assms(5) using 3 s l(2) by (cases ?res) (simp_all add: decide_next_stage_def)
    with out 3 s assms(2-4) show ?thesis by (auto simp: fact_effect_def ev_defs split: decision.splits)
  qed (use out s l(2) assms(2-5) in \<open>auto simp: fact_effect_def decide_next_stage_def ev_defs\<close>)
qed

lemma verdict_effect:
  assumes "drives d v l t" "verdict_of c d v l dec" "apply_decision c (\<lambda>_. e) d l dec = (d', Inr ())"
  shows "fact_effect c d v l d'"
proof (cases "ob_type v = ev_completed")
  case True
  with assms(2) completed_effect [OF assms(1) _ _ True _ assms(3)] show ?thesis by (auto simp: verdict_of_def)
next
  case False
  then obtain reason where "dec = FailLoop reason" using assms(2) by (auto simp: verdict_of_def)
  with decision_effect [OF assms(3)] assms(1) False show ?thesis by (simp add: fact_effect_def drives_def ev_defs)
qed

text \<open>The effect of a fact on the database: that on the loop it drives, none when it drives no loop.\<close>

definition fact_done :: "loop_codec \<Rightarrow> db \<Rightarrow> outbox_row \<Rightarrow> db \<Rightarrow> bool" where
  "fact_done c d v d' \<longleftrightarrow> (\<exists>l t. drives d v l t \<and> fact_effect c d v l d') \<or> (\<forall>l t. \<not> drives d v l t) \<and> d' = d"

lemma loop_apply_done: "loop_apply c e d v = (d', Inr ()) \<Longrightarrow> fact_done c d v d'"
  by (erule loop_apply_cases) (auto simp: fact_done_def intro: verdict_effect)

lemma loop_apply_frame: "loop_apply c e d v = (d', Inr ()) \<Longrightarrow> loop_frame d d'"
  using loop_apply_done [of c e d v d'] by (auto simp: fact_done_def fact_effect_def)

text \<open>C19. A fact is consumed exactly once, together with its effect. Success means that the fact was handed out, that the
  database has changed exactly by the effect of the fact on the loop it drives (the next stage is queued, or the loop is completed or
  failed, nothing else; no change when no running loop is at that stage) and by one receipt for the fact, and that no later
  claim hands it out while receipts are kept. An error leaves no part of the effect and no receipt: when the fact could not be applied,
  the delivery ledger alone changes (one more attempt, a wait of 2 to 256 seconds, given up from the twentieth attempt on),
  or nothing when not even that can be written; when the commit fails, nothing changes at all.\<close>

theorem loop_fact_consumed_once:
  assumes "loop_process_next c f av e e' d = (d', True, err)"
  shows "\<exists>v. claim_engineering_loop_event e d = Inr v \<and>
    (case err of
       None \<Rightarrow> fact_done c d v (d'\<lparr>receipts := receipts d\<rparr>) \<and> receipts d' = receipts d @ [(ob_id v, engineering_loop)] \<and>
         (\<forall>d2 e2 u. set (receipts d') \<subseteq> set (receipts d2) \<and> claim_engineering_loop_event e2 d2 = Inr u \<longrightarrow> ob_id u \<noteq> ob_id v)
     | Some x \<Rightarrow>
         if is_ok (snd (loop_apply c e d v)) then \<not> e_commit e \<and> d' = d
         else if e_begin e' then failure_noted engineering_loop e' d d' (ob_id v)
         else d' = d)"
proof -
  have en: "av" "e_begin e" using assms by (auto simp: loop_process_next_def split: if_splits)
  then obtain v where v: "claim_engineering_loop_event e d = Inr v"
    using assms by (auto simp: loop_process_next_def split: sum.splits if_splits)
  obtain d1 r where a: "loop_apply c e d v = (d1, r)" by fastforce
  show ?thesis
  proof (cases r)
    case (Inl x)
    let ?n = "note_failure engineering_loop ''apply engineering loop event'' e' d (ob_id v) (error_text f x) x"
    from Inl assms en v a have "d' = fst ?n" "err = Some (snd ?n)"
      by (auto simp: loop_process_next_def split: prod.splits)
    with v a Inl failure_noted_or_lost [of e' engineering_loop d "''apply engineering loop event''" "ob_id v"] show ?thesis
      by (cases "e_begin e'") auto
  next
    case (Inr u)
    show ?thesis
    proof (cases "e_commit e")
      case False
      with assms en v a Inr show ?thesis by (auto simp: loop_process_next_def)
    next
      case True
      let ?d = "record_receipt engineering_loop d1 (ob_id v)"
      from True assms en v a Inr have d': "d' = ?d" "err = None" by (simp_all add: loop_process_next_def)
      have "receipts d1 = receipts d" "(ob_id v, engineering_loop) \<notin> set (receipts d)"
        using loop_apply_frame [of c e d v d1] a Inr loop_consumer.claims [OF v] by (auto simp: loop_frame_def)
      then have "?d = d1\<lparr>receipts := receipts d @ [(ob_id v, engineering_loop)]\<rparr>" "?d\<lparr>receipts := receipts d\<rparr> = d1"
        by (simp_all add: record_receipt_def)
      with d' v loop_apply_done [of c e d v d1] a Inr loop_consumer.receipted_not_claimed [of d1 "ob_id v"] show ?thesis by auto
    qed
  qed
qed

lemma demo_paused:
  "loop_process_next (demo_loop_codec True) (\<lambda>_. []) True (demo_env 10) (demo_env 11) (demo_loop_db ''paused'' 1)
    = (record_receipt engineering_loop (demo_loop_db ''paused'' 1) (ob_id demo_fact), True, None)"
proof -
  have t: "get_task (demo_loop_db ''paused'' 1) (Some (ob_work_item demo_fact)) = Inr demo_review_task"
    by (simp add: get_task_def select_one_def demo_loop_rows)
  have "ob_version demo_fact = 1" "tk_loop demo_review_task = Some 50" "e_begin (demo_env 10)" "e_commit (demo_env 10)"
    by (simp_all add: demo_loop_rows)
  moreover have "lr_status (demo_loop ''paused'' s it) = ''paused''" for s it by (simp add: demo_loop_def)
  ultimately show ?thesis by (simp add: loop_process_next_def demo_loop_claim loop_apply_def t demo_loop_select)
qed

section \<open>Who works for a loop\<close>

lemma resolve_Inr:
  assumes "resolve_stage_agent c d l ty = Inr a"
  shows "\<exists>ag. get_agent d (Some (ra_agent a)) = Inr ag \<and> ag_workspace ag = lr_workspace l \<and> ag_archived_at ag = None \<and>
    ag_runtime ag = Some (ra_runtime a)"
  using assms unfolding resolve_stage_agent_def by (auto split: option.splits sum.splits if_splits)

lemma applied_work:
  assumes ok: "loop_apply c e d v = (d', Inr ())" and t: "t \<in> set (tasks d')" "t \<notin> set (tasks d)"
  shows "\<exists>l ty bump t0. drives d v l t0 \<and> stage_queued c d d' l ty bump \<and> queued_for l ty t"
  using ok
proof (cases rule: loop_apply_cases)
  case idle
  with t show ?thesis by simp
next
  case (step l t0 dec)
  from verdict_outcome [OF step] t
  obtain ty bump where q: "stage_queued c d d' l ty bump" by (auto simp: loop_closed_def)
  then have "queued_for l ty t" using t by (auto simp: stage_queued_def)
  with q step(1) show ?thesis by blast
qed

text \<open>Work of a loop stays in its workspace: every Work Item that consuming a fact creates
  belongs to a running loop and its issue, waits in the queue, and is assigned to an agent of the
  workspace of the loop that is not archived, on the runtime that agent has.\<close>

theorem stage_work_in_workspace:
  assumes "loop_process_next c f av e e' d = (d', busy, err)" "t \<in> set (tasks d')" "t \<notin> set (tasks d)"
  shows "\<exists>l agent. tk_loop t = Some (lr_id l) \<and> tk_issue t = lr_issue l \<and> tk_status t = Queued \<and>
    select_loop d (Some (lr_id l)) = Inr l \<and> lr_status l = ''running'' \<and>
    get_agent d (Some (tk_agent t)) = Inr agent \<and> ag_workspace agent = lr_workspace l \<and> ag_archived_at agent = None \<and>
    ag_runtime agent = Some (tk_runtime t)"
proof -
  obtain v d1 where a: "loop_apply c e d v = (d1, Inr ())" "tasks d' = tasks d1"
    using process_next_apply [OF assms(1)] assms(2,3) by auto
  from applied_work [OF a(1) _ assms(3)] assms(2) a(2)
  obtain l ty bump t0 where l: "drives d v l t0" "stage_queued c d d1 l ty bump" "queued_for l ty t" by auto
  then obtain ra where ra: "resolve_stage_agent c d l ty = Inr ra" "tk_agent t = ra_agent ra" "tk_runtime t = ra_runtime ra"
    using assms(2,3) a(2) by (auto simp: stage_queued_def)
  from resolve_Inr [OF ra(1)] l ra(2,3) show ?thesis by (auto simp: drives_def queued_for_def)
qed

text \<open>The rejected review of the demo loop queues the fix stage.\<close>

lemma demo_rejected_review:
  "\<exists>d'. loop_process_next (demo_loop_codec False) (\<lambda>_. []) True (demo_env 10) (demo_env 11) (demo_loop_db ''running'' 1) = (d', True, None) \<and>
     demo_fix_task \<in> set (tasks d')"
proof -
  let ?d = "demo_loop_db ''running'' 1" and ?l = "demo_loop ''running'' (Some ''review'') 1"
  let ?d1 = "?d\<lparr>tasks := [demo_review_task, demo_fix_task]\<rparr>"
  let ?u = "no_update\<lparr>ui_status := Some ''running'', ui_stage := stage_from_string ''loop_fix'', ui_iteration := Some 2\<rparr>"
  have l: "lr_id ?l = 50" "lr_issue ?l = 30" "lr_status ?l = ''running''" "lr_stage ?l = Some ''review''" "lr_iteration ?l = 1"
    "lr_max_iterations ?l = 2" by (simp_all add: demo_loop_def)
  have "select_loop ?d1 (Some 50) = Inr ?l" using demo_loop_select by (simp add: select_loop_def)
  moreover have "loop_row_ok (updated_loop (demo_env 10) (status_params ?u) ?l)"
    by (simp add: loop_row_ok_def status_params_def no_update_def loop_statuses_def loop_stages_def stage_from_string_def)
  ultimately obtain d2 l2 where u: "store_update_status (demo_env 10) ?d1 (Some 50) ?u = Inr (d2, l2)"
    by (simp add: store_update_status_def update_loop_status_def or_wrap_def or_fail_def)
  then have t2: "tasks d2 = [demo_review_task, demo_fix_task]" using store_update_status_frame(1) [OF u] by auto
  have "apply_decision (demo_loop_codec False) (\<lambda>_. demo_env 10) ?d ?l (CreateTask ''loop_fix'' 1) = (d2, Inr ())"
    using u by (simp add: apply_decision_def create_task_for_stage_def demo_resolve create_task_for_stage_with_agent_def
        demo_fix_created l)
  moreover have "rn_output demo_closed = Some ''done''" by (simp add: demo5_rows opt_text_def)
  then have "decide_next_stage ?l (case rn_output demo_closed of None \<Rightarrow> None | Some out \<Rightarrow>
      parse_task_result (lk_result (demo_loop_codec False)) out) = CreateTask ''loop_fix'' 1"
    by (simp add: decide_next_stage_def l parse_task_result_def demo_loop_codec_def)
  moreover have "get_task ?d (Some (ob_work_item demo_fact)) = Inr demo_review_task" "get_run ?d (ob_run demo_fact) = Inr demo_closed"
    by (simp_all add: get_task_def get_run_def select_one_def demo_loop_rows)
  moreover have "ob_version demo_fact = 1" "tk_loop demo_review_task = Some 50" "tk_task_type demo_review_task = ''loop_review''"
    "ob_type demo_fact = ''run.completed''" "ob_run demo_fact = Some 2000" "rn_task demo_closed = tk_id demo_review_task"
    by (simp_all add: demo_loop_rows)
  ultimately have "loop_apply (demo_loop_codec False) (demo_env 10) ?d demo_fact = (d2, Inr ())"
    by (simp add: loop_apply_def demo_loop_select l task_type_for_stage_def ev_defs)
  then have "loop_process_next (demo_loop_codec False) (\<lambda>_. []) True (demo_env 10) (demo_env 11) ?d
      = (record_receipt engineering_loop d2 (ob_id demo_fact), True, None)"
    by (simp add: loop_process_next_def demo_loop_claim) (simp add: demo_env_def)
  with t2 show ?thesis by simp
qed

theorem loop_fact_consumed_once_witness:
  "\<exists>d'. loop_process_next (demo_loop_codec False) (\<lambda>_. []) True (demo_env 10) (demo_env 11) (demo_loop_db ''running'' 1) = (d', True, None) \<and>
     receipts d' = [(ob_id demo_fact, engineering_loop)] \<and> demo_fix_task \<in> set (tasks d') \<and>
     fact_done (demo_loop_codec False) (demo_loop_db ''running'' 1) demo_fact (d'\<lparr>receipts := []\<rparr>) \<and>
     (\<forall>e2 n. claim_engineering_loop_event e2 d' \<noteq> Inr (demo_fact\<lparr>ob_attempts := n\<rparr>))"
proof -
  obtain d' where p: "loop_process_next (demo_loop_codec False) (\<lambda>_. []) True (demo_env 10) (demo_env 11) (demo_loop_db ''running'' 1) = (d', True, None)"
    "demo_fix_task \<in> set (tasks d')" using demo_rejected_review by blast
  have "receipts (demo_loop_db ''running'' 1) = []" by (simp add: demo_loop_rows demo0_def)
  with loop_fact_consumed_once [OF p(1)] demo_loop_claim [of "''running''" 1] p show ?thesis by fastforce
qed

theorem stage_work_in_workspace_witness:
  "\<exists>agent. get_agent (demo_loop_db ''running'' 1) (Some (tk_agent demo_fix_task)) = Inr agent \<and> ag_workspace agent = 1"
proof -
  obtain d' where p: "loop_process_next (demo_loop_codec False) (\<lambda>_. []) True (demo_env 10) (demo_env 11) (demo_loop_db ''running'' 1) = (d', True, None)"
    "demo_fix_task \<in> set (tasks d')" using demo_rejected_review by blast
  have "demo_fix_task \<notin> set (tasks (demo_loop_db ''running'' 1))" by (simp add: demo_fix_task_def demo_loop_rows)
  from stage_work_in_workspace [OF p this] show ?thesis
    by (auto simp: demo_loop_select demo_fix_task_def) (simp add: demo_loop_def)
qed

end
