(* ===== verification/LoopOperators.thy ===== *)
theory LoopOperators
  imports LoopDelivery
begin

text \<open>
  What operators and restarts do to a loop: transitions without a guard, the completion that a
  pause swallows, the progress that closing a loop erases, and the restore that settles a loop.
\<close>

section \<open>Transitions\<close>

lemma transition_effect:
  assumes "select_loop d i = Inr l" "ws = uuid_text (lr_workspace l)" "loop_ok l" "target \<in> set loop_statuses"
  shows "\<exists>d' l'. transition_loop_status e d d ws True i target = (d', Inr l') \<and> select_loop d' i = Inr l' \<and>
    loop_frame d d' \<and> tasks d' = tasks d \<and> receipts d' = receipts d \<and>
    l' = updated_loop e (status_params (no_update\<lparr>ui_status := Some target, ui_iteration := Some (lr_iteration l),
      ui_stage := lr_stage l\<rparr>)) l"
proof -
  let ?u = "no_update\<lparr>ui_status := Some target, ui_iteration := Some (lr_iteration l), ui_stage := lr_stage l\<rparr>"
  have "loop_row_ok (updated_loop e (status_params ?u) l)"
    using assms(3,4) by (simp add: loop_row_ok_def loop_ok_def status_params_def no_update_def)
  then obtain d' where u: "store_update_status e d i ?u = Inr (d', updated_loop e (status_params ?u) l)"
    using assms(1) by (simp add: store_update_status_def update_loop_status_def or_wrap_def or_fail_def)
  have "transition_loop_status e d d ws True i target = (d', Inr (updated_loop e (status_params ?u) l))"
    using assms(1,2) u by (simp add: transition_loop_status_def store_get_loop_def)
  moreover have "tasks d' = tasks d" "receipts d' = receipts d" using store_update_status_frame(1) [OF u] by auto
  ultimately show ?thesis using select_after_update(1) [OF u] frame_update [OF u] by blast
qed

text \<open>The operator's transitions have no guard on the status: from every status, a finished,
  failed or cancelled loop included, pause, resume and cancel succeed; they keep the stage, the
  iteration and the limit and erase the failure reason and the time of completion.\<close>

theorem operator_transition_unguarded:
  assumes "select_loop d i = Inr l" "ws = uuid_text (lr_workspace l)" "loop_ok l"
    "target \<in> {''paused'', ''running'', ''cancelled''}"
  shows "\<exists>d' l'. transition_loop_status e d d ws True i target = (d', Inr l') \<and> select_loop d' i = Inr l' \<and>
    lr_status l' = target \<and> lr_stage l' = lr_stage l \<and> lr_iteration l' = lr_iteration l \<and>
    lr_max_iterations l' = lr_max_iterations l \<and> lr_completed_at l' = None \<and> lr_failure_reason l' = None \<and>
    tasks d' = tasks d"
proof -
  have "target \<in> set loop_statuses" using assms(4) by (auto simp: loop_statuses_def)
  from transition_effect [OF assms(1-3) this] loop_ok_small [OF assms(3)] show ?thesis
    by (fastforce simp: updated_loop_def status_params_def no_update_def)
qed

theorem operator_transition_unguarded_witness:
  "\<exists>d' l'. resume_loop (demo_env 10) (demo_loop_db ''cancelled'' 1) (demo_loop_db ''cancelled'' 1) (uuid_text 1) True (Some 50)
     = (d', Inr l') \<and> lr_status l' = ''running''"
proof -
  have "loop_ok (demo_loop ''cancelled'' (Some ''review'') 1)"
    by (simp add: loop_ok_def loop_row_ok_def loop_statuses_def loop_stages_def demo_loop_def)
  moreover have "lr_workspace (demo_loop ''cancelled'' (Some ''review'') 1) = 1" by (simp add: demo_loop_def)
  ultimately show ?thesis
    using operator_transition_unguarded [OF demo_loop_select [of "''cancelled''" 1], of "uuid_text 1" "''running''" "demo_env 10"]
    by (auto simp: resume_loop_def)
qed

section \<open>Pause\<close>

text \<open>A stage that completes while its loop is paused is lost: its fact gets the receipt and has
  no effect, and after the loop is resumed neither is the fact handed out again nor has the resume
  queued any work; the loop runs on with the stage it had and nothing in the queue for it.\<close>

theorem paused_completion_is_lost:
  assumes claim: "claim_engineering_loop_event e d = Inr v" and version: "ob_version v = 1"
    and task: "get_task d (Some (ob_work_item v)) = Inr t" "tk_loop t = Some i"
    and paused: "select_loop d (Some i) = Inr l" "lr_status l = ''paused''" "loop_ok l"
    and ws: "ws = uuid_text (lr_workspace l)" and env: "e_begin e" "e_commit e"
  shows "\<exists>d1 d2 l2. loop_process_next c f True e e' d = (d1, True, None) \<and> d1 = d\<lparr>receipts := receipts d1\<rparr> \<and>
    resume_loop e2 d1 d1 ws True (Some i) = (d2, Inr l2) \<and> lr_status l2 = ''running'' \<and> lr_stage l2 = lr_stage l \<and>
    tasks d2 = tasks d \<and> (\<forall>e3 u. claim_engineering_loop_event e3 d2 = Inr u \<longrightarrow> ob_id u \<noteq> ob_id v)"
proof -
  let ?d1 = "record_receipt engineering_loop d (ob_id v)"
  have p: "loop_process_next c f True e e' d = (?d1, True, None)"
    using claim version task paused(1,2) env by (simp add: loop_process_next_def loop_apply_def)
  have d1: "?d1 = d\<lparr>receipts := receipts ?d1\<rparr>" by (simp add: record_receipt_def)
  have "select_loop ?d1 (Some i) = Inr l" using paused(1) by (simp add: select_loop_def)
  moreover have "''running'' \<in> set loop_statuses" by (simp add: loop_statuses_def)
  ultimately obtain d2 l2 where t: "transition_loop_status e2 ?d1 ?d1 ws True (Some i) ''running'' = (d2, Inr l2)"
    "tasks d2 = tasks ?d1" "receipts d2 = receipts ?d1"
    "l2 = updated_loop e2 (status_params (no_update\<lparr>ui_status := Some ''running'', ui_iteration := Some (lr_iteration l), ui_stage := lr_stage l\<rparr>)) l"
    using transition_effect [OF _ ws paused(3), of ?d1 "Some i" "''running''" e2] by blast
  have r: "resume_loop e2 ?d1 ?d1 ws True (Some i) = (d2, Inr l2)" "lr_status l2 = ''running''" "lr_stage l2 = lr_stage l"
    "tasks d2 = tasks d" "receipts d2 = receipts ?d1"
    using t(1-3) by (simp_all add: resume_loop_def t(4) status_params_def no_update_def)
  have "ob_id u \<noteq> ob_id v" if "claim_engineering_loop_event e3 d2 = Inr u" for e3 u
    using loop_consumer.receipted_not_claimed [OF _ that, of d "ob_id v"] r(5) by simp
  then show ?thesis using p d1 r(1-4) by blast
qed

theorem paused_completion_is_lost_witness:
  "\<exists>d1 d2 l2. loop_process_next (demo_loop_codec True) (\<lambda>_. []) True (demo_env 10) (demo_env 11) (demo_loop_db ''paused'' 1) = (d1, True, None) \<and>
     resume_loop (demo_env 12) d1 d1 (uuid_text 1) True (Some 50) = (d2, Inr l2) \<and> lr_status l2 = ''running'' \<and> tasks d2 = [demo_review_task]"
proof -
  have "loop_ok (demo_loop ''paused'' (Some ''review'') 1)" "lr_workspace (demo_loop ''paused'' (Some ''review'') 1) = 1"
    "lr_status (demo_loop ''paused'' (Some ''review'') 1) = ''paused''"
    by (simp_all add: loop_ok_def loop_row_ok_def loop_statuses_def loop_stages_def demo_loop_def)
  moreover have "get_task (demo_loop_db ''paused'' 1) (Some (ob_work_item demo_fact)) = Inr demo_review_task"
    "ob_version demo_fact = 1" "tk_loop demo_review_task = Some 50" "e_begin (demo_env 10)" "e_commit (demo_env 10)"
    "tasks (demo_loop_db ''paused'' 1) = [demo_review_task]"
    by (simp_all add: get_task_def select_one_def demo_loop_rows)
  ultimately show ?thesis
    using paused_completion_is_lost [OF demo_loop_claim, of "''paused''" 1 demo_review_task 50 "demo_loop ''paused'' (Some ''review'') 1"
        "uuid_text 1" "demo_loop_codec True" "\<lambda>_. []" "demo_env 11" "demo_env 12"] demo_loop_select [of "''paused''" 1]
    by auto
qed

section \<open>Restart\<close>

lemma restore_idle: "lr_status l \<noteq> ''running'' \<Longrightarrow> restore_one c es d l = (d, Inr ())"
  by (simp add: restore_one_def)

lemma restore_closed:
  assumes "loop_closed s d d' l" "s \<noteq> ''running''"
  shows "tasks d' = tasks d \<and> (\<exists>l'. select_loop d' (Some (lr_id l)) = Inr l' \<and> restore_one c es d' l' = (d', Inr ()))"
  using assms by (auto simp: loop_closed_def closed_as_def intro: restore_idle)

lemma restore_in_flight:
  assumes "lr_status l = ''running''" "lr_stage l = Some s" "task_type_for_stage s \<noteq> ''''"
    "has_in_flight_task_for_loop_stage d (lr_id l) (task_type_for_stage s)"
  shows "restore_one c es d l = (d, Inr ())"
  using assms by (simp add: restore_one_def Let_def)

lemma restore_queues:
  assumes "create_task_for_stage_with_agent es d l (task_type_for_stage s) 0 a = (d', Inr ())"
    "select_loop d (Some (lr_id l)) = Inr l" "task_type_for_stage s \<noteq> ''''"
  shows "length (tasks d') = Suc (length (tasks d)) \<and>
    (\<exists>l'. select_loop d' (Some (lr_id l)) = Inr l' \<and> (\<forall>es'. restore_one c es' d' l' = (d', Inr ())))"
proof -
  have s: "stage_from_string (task_type_for_stage s) = Some s" using assms(3) stage_maps by blast
  from create_stage_Inr [OF assms(1,2) s] obtain t l' where t: "tasks d' = tasks d @ [t]" "queued_for l (task_type_for_stage s) t"
    and l': "select_loop d' (Some (lr_id l)) = Inr l'" "moved_to s (int32_of (lr_iteration l + int 0)) l l'" by blast
  have "has_in_flight_task_for_loop_stage d' (lr_id l') (task_type_for_stage s)"
    using t l'(2) by (simp add: has_in_flight_task_for_loop_stage_def queued_for_def moved_to_def)
  with restore_in_flight [of l' s d' c] l' assms(3) t(1) show ?thesis by (auto simp: moved_to_def)
qed

text \<open>The restore on startup settles a loop: when it handled a loop without an error, a second
  restore, at any later time, finds nothing to do for it, and at most one Work Item was added. So
  repeated restarts never queue the same stage twice.\<close>

theorem restore_settles:
  assumes "restore_one c es d l = (d', Inr ())" "select_loop d (Some (lr_id l)) = Inr l"
  shows "length (tasks d') \<le> length (tasks d) + 1 \<and>
    (\<exists>l'. select_loop d' (Some (lr_id l)) = Inr l' \<and> (\<forall>es'. restore_one c es' d' l' = (d', Inr ())))"
proof -
  let ?settled = "length (tasks d') \<le> length (tasks d) + 1 \<and>
    (\<exists>l'. select_loop d' (Some (lr_id l)) = Inr l' \<and> (\<forall>es'. restore_one c es' d' l' = (d', Inr ())))"
  have closed: ?settled if "loop_closed ''failed'' d d' l"
    using restore_closed [OF that] that by (auto simp: loop_closed_def closed_as_def restore_idle)
  have same: ?settled if "d' = d" "\<And>es'. restore_one c es' d l = (d, Inr ())" using that assms(2) by auto
  have invalid: ?settled if "fail_invalid_configuration (es 2) d l = (d', Inr ())"
    using fail_invalid_outcome [OF that assms(2)] closed by blast
  show ?thesis
  proof (cases "lr_status l = ''running''")
    case False
    with restore_idle [OF False] same assms(1) show ?thesis by simp
  next
    case run: True
    show ?thesis
    proof (cases "lr_stage l")
      case None
      with run assms(1) invalid show ?thesis by (simp add: restore_one_def)
    next
      case (Some s)
      let ?ty = "task_type_for_stage s"
      consider (unknown) "?ty = ''''" | (busy) "has_in_flight_task_for_loop_stage d (lr_id l) ?ty \<or> has_pending_engineering_loop_event d (lr_id l) ?ty" "?ty \<noteq> ''''"
        | (stuck) "\<not> has_in_flight_task_for_loop_stage d (lr_id l) ?ty" "\<not> has_pending_engineering_loop_event d (lr_id l) ?ty" "?ty \<noteq> ''''" by blast
      then show ?thesis
      proof cases
        case unknown
        with run Some assms(1) invalid show ?thesis by (simp add: restore_one_def Let_def)
      next
        case busy
        then have "restore_one c es' d l = (d, Inr ())" for es' using run Some by (auto simp: restore_one_def Let_def)
        with same assms(1) show ?thesis by simp
      next
        case stuck
        show ?thesis
        proof (cases "resolve_stage_agent c d l ?ty")
          case (Inl err)
          with run Some stuck assms(1) invalid show ?thesis by (simp add: restore_one_def Let_def split: if_splits)
        next
          case (Inr a)
          then consider (late) l' where "store_update_status (es 3) d (Some (lr_id l)) (no_update\<lparr>ui_status := Some ''failed'',
                ui_failure := Some ''loop_timeout'', ui_completed_at := Some (e_wall (es 3))\<rparr>) = Inr (d', l')"
            | (queue) "create_task_for_stage_with_agent es d l ?ty 0 a = (d', Inr ())"
            using run Some stuck assms(1) by (auto simp: restore_one_def Let_def res_simps split: if_splits sum.splits prod.splits)
          then show ?thesis
          proof cases
            case late
            from close_Inr [OF this assms(2)] closed show ?thesis by (auto simp: loop_closed_def no_update_def)
          next
            case queue
            with restore_queues [OF _ assms(2) stuck(3)] show ?thesis by simp
          qed
        qed
      qed
    qed
  qed
qed

section \<open>Closing a loop\<close>

text \<open>Completing or failing a loop after a stage erases its progress: the stage becomes NULL and
  the iteration 0, although the input of the update names neither; a completion without a pull
  request number records the number 0.\<close>

theorem closing_erases_progress:
  assumes "apply_decision c es d l dec = (d', Inr ())" "select_loop d (Some (lr_id l)) = Inr l"
    "dec = FailLoop reason \<or> dec = decide_next_stage l (Some r) \<and> lr_status l = ''running'' \<and> lr_stage l = Some ''review'' \<and>
       tr_review_approved r = Some True \<and> tr_pr_number r = None"
  shows "\<exists>l'. select_loop d' (Some (lr_id l)) = Inr l' \<and> lr_stage l' = None \<and> lr_iteration l' = 0 \<and> lr_completed_at l' \<noteq> None \<and>
    lr_status l' \<in> {''done'', ''failed''} \<and> (lr_status l' = ''done'' \<longrightarrow> lr_pr_number l' = Some 0)"
proof -
  have z: "int32_of 0 = 0" by (simp add: int32_of_small)
  from assms(3) show ?thesis
  proof
    assume f: "dec = FailLoop reason"
    let ?u = "no_update\<lparr>ui_status := Some ''failed'', ui_failure := Some reason, ui_completed_at := Some (e_wall (es 0))\<rparr>"
    obtain l' where u: "store_update_status (es 0) d (Some (lr_id l)) ?u = Inr (d', l')"
      using assms(1) f by (auto simp: apply_decision_def res_simps)
    then have "l' = updated_loop (es 0) (status_params ?u) l" using assms(2) by (auto elim: store_update_status_Inr)
    with select_after_update(1) [OF u] z show ?thesis by (simp add: status_params_def no_update_def)
  next
    assume "dec = decide_next_stage l (Some r) \<and> lr_status l = ''running'' \<and> lr_stage l = Some ''review'' \<and>
       tr_review_approved r = Some True \<and> tr_pr_number r = None"
    then have dec: "dec = CompleteLoop (tr_pr_url r) 0 (tr_branch_name r)" by (simp add: decide_next_stage_def)
    let ?u = "no_update\<lparr>ui_status := Some ''done'', ui_completed_at := Some (e_wall (es 0))\<rparr>"
    obtain d1 l1 l2 where p: "store_set_pr (es 0) d (Some (lr_id l)) (tr_pr_url r) 0 (tr_branch_name r) = Inr (d1, l1)"
      and u: "store_update_status (es 1) d1 (Some (lr_id l)) ?u = Inr (d', l2)"
      using assms(1) by (auto simp: dec apply_decision_def res_simps)
    have "lr_pr_number l1 = Some 0"
      using p z by (auto simp: store_set_pr_def set_loop_pr_def or_wrap_Inr or_fail_Inr Let_def)
    moreover have "l2 = updated_loop (es 1) (status_params ?u) l1"
      using u set_pr_select [OF p assms(2)] by (auto elim: store_update_status_Inr)
    ultimately show ?thesis using select_after_update(1) [OF u] z by (simp add: status_params_def no_update_def)
  qed
qed

theorem restore_settles_witness:
  "\<exists>l'. select_loop (demo_loop_db ''running'' 1) (Some 50) = Inr l' \<and>
     restore_one (demo_loop_codec True) (\<lambda>_. demo_env 12) (demo_loop_db ''running'' 1) l' = (demo_loop_db ''running'' 1, Inr ())"
proof -
  let ?l = "demo_loop ''running'' (Some ''review'') 1"
  have l: "lr_id ?l = 50" "lr_status ?l = ''running''" "lr_stage ?l = Some ''review''" by (simp_all add: demo_loop_def)
  have "has_pending_engineering_loop_event (demo_loop_db ''running'' 1) 50 ''loop_review''"
    by (simp add: has_pending_engineering_loop_event_def lifecycle_terminal_types_def demo_loop_rows)
  then have "restore_one (demo_loop_codec True) (\<lambda>_. demo_env 10) (demo_loop_db ''running'' 1) ?l = (demo_loop_db ''running'' 1, Inr ())"
    by (simp add: restore_one_def l task_type_for_stage_def Let_def)
  from restore_settles [OF this] show ?thesis by (auto simp: demo_loop_select l(1))
qed

lemma demo_approved:
  "\<exists>d'. apply_decision (demo_loop_codec True) (\<lambda>_. demo_env 10) (demo_loop_db ''running'' 1) (demo_loop ''running'' (Some ''review'') 1)
     (CompleteLoop ''u'' 0 ''b'') = (d', Inr ())"
proof -
  let ?l = "demo_loop ''running'' (Some ''review'') 1" and ?d = "demo_loop_db ''running'' 1"
  have id: "lr_id ?l = 50" by (simp add: demo_loop_def)
  obtain d1 l1 where p: "store_set_pr (demo_env 10) ?d (Some 50) ''u'' 0 ''b'' = Inr (d1, l1)"
    using demo_loop_select [of "''running''" 1] by (simp add: store_set_pr_def set_loop_pr_def or_wrap_def or_fail_def Let_def)
  have "\<exists>x. store_update_status (demo_env 10) d1 (Some 50) (no_update\<lparr>ui_status := Some ''done'',
      ui_completed_at := Some (e_wall (demo_env 10))\<rparr>) = Inr x"
    using set_pr_select [OF p demo_loop_select]
    by (simp add: store_update_status_def update_loop_status_def or_wrap_def or_fail_def loop_row_ok_def status_params_def
        no_update_def loop_statuses_def)
  then show ?thesis using p by (auto simp: apply_decision_def id)
qed

theorem closing_erases_progress_witness:
  "\<exists>d' l'. apply_decision (demo_loop_codec True) (\<lambda>_. demo_env 10) (demo_loop_db ''running'' 1) (demo_loop ''running'' (Some ''review'') 1)
     (CompleteLoop ''u'' 0 ''b'') = (d', Inr ()) \<and> select_loop d' (Some 50) = Inr l' \<and> lr_iteration l' = 0"
proof -
  let ?l = "demo_loop ''running'' (Some ''review'') 1"
  let ?r = "\<lparr>tr_review_approved = Some True, tr_review_issues = '''', tr_pr_url = ''u'', tr_pr_number = None, tr_branch_name = ''b''\<rparr>"
  have l: "lr_id ?l = 50" "lr_status ?l = ''running''" "lr_stage ?l = Some ''review''" by (simp_all add: demo_loop_def)
  have dec: "decide_next_stage ?l (Some ?r) = CompleteLoop ''u'' 0 ''b''" by (simp add: decide_next_stage_def l)
  obtain d' where a: "apply_decision (demo_loop_codec True) (\<lambda>_. demo_env 10) (demo_loop_db ''running'' 1) ?l (CompleteLoop ''u'' 0 ''b'') = (d', Inr ())"
    using demo_approved by blast
  from closing_erases_progress [OF a, of "''''" ?r] dec demo_loop_select [of "''running''" 1] l a show ?thesis by auto
qed

end
