(* ===== verification/Mentions.thy ===== *)
theory Mentions
  imports GoText
begin

text \<open>
  Mentions in markdown (\<^verbatim>\<open>server/internal/util/mention.go\<close>). The regular expression
  \<^verbatim>\<open>\[@?[^\]]*\]\(mention://(member|agent|issue|all)/([0-9a-fA-F-]+|all)\)\<close> is written as the
  matcher it is: the label ends at the first closing bracket, the alternatives of the type end at
  the slash, and the identifier is the longest run of its characters. \<^verbatim>\<open>FindAllStringSubmatch\<close>
  takes the leftmost match and goes on after it.
\<close>

record mention =
  mn_type :: string
  mn_id :: string

definition id_char :: "char \<Rightarrow> bool" where
  "id_char c \<longleftrightarrow> c \<in> set ''0123456789abcdefABCDEF-''"

definition mention_types :: "string list" where
  "mention_types = [''member'', ''agent'', ''issue'', ''all'']"

text \<open>The alternative that is followed by the slash, and the text after it.\<close>

fun match_type :: "string list \<Rightarrow> string \<Rightarrow> (string \<times> string) option" where
  "match_type [] s = None"
| "match_type (ty # tys) s =
     (if has_prefix s (ty @ ''/'') then Some (ty, drop (length ty + 1) s) else match_type tys s)"

definition match_target :: "string \<Rightarrow> (mention \<times> string) option" where
  "match_target s =
     (if \<not> has_prefix s ''mention://'' then None
      else case match_type mention_types (drop 10 s) of
        None \<Rightarrow> None
      | Some (ty, r) \<Rightarrow>
          if takeWhile id_char r \<noteq> [] \<and> has_prefix (dropWhile id_char r) '')''
          then Some (\<lparr>mn_type = ty, mn_id = takeWhile id_char r\<rparr>, tl (dropWhile id_char r))
          else if has_prefix r ''all)'' then Some (\<lparr>mn_type = ty, mn_id = ''all''\<rparr>, drop 4 r)
          else None)"

text \<open>A match that starts here.\<close>

definition match_here :: "string \<Rightarrow> (mention \<times> string) option" where
  "match_here s =
     (case s of
        [] \<Rightarrow> None
      | c # cs \<Rightarrow>
          if c = CHR ''['' \<and> has_prefix (dropWhile (\<lambda>x. x \<noteq> CHR '']'') cs) '']('' then
            match_target (drop 2 (dropWhile (\<lambda>x. x \<noteq> CHR '']'') cs))
          else None)"

lemma length_dropWhile: "length (dropWhile P xs) \<le> length xs"
  by (induction xs) auto

lemma match_type_shorter: "match_type tys s = Some (ty, r) \<Longrightarrow> length r \<le> length s"
  by (induction tys s rule: match_type.induct) (auto split: if_splits)

lemma match_target_shorter: "match_target s = Some (m, r) \<Longrightarrow> length r \<le> length s"
proof -
  assume "match_target s = Some (m, r)"
  then obtain ty q where q: "match_type mention_types (drop 10 s) = Some (ty, q)" "r = tl (dropWhile id_char q) \<or> r = drop 4 q"
    by (auto simp: match_target_def split: if_splits option.splits)
  with match_type_shorter [OF q(1)] length_dropWhile [of id_char q] show ?thesis by auto
qed

lemma match_here_shorter: "match_here s = Some (m, r) \<Longrightarrow> length r < length s"
proof -
  assume "match_here s = Some (m, r)"
  then obtain c cs where "s = c # cs" "match_target (drop 2 (dropWhile (\<lambda>x. x \<noteq> CHR '']'') cs)) = Some (m, r)"
    by (auto simp: match_here_def split: list.splits if_splits)
  with match_target_shorter [of _ m r] length_dropWhile [of "\<lambda>x. x \<noteq> CHR '']''" cs] show ?thesis by fastforce
qed

function find_mentions :: "string \<Rightarrow> mention list" where
  "find_mentions s =
     (case match_here s of
        Some (m, r) \<Rightarrow> m # find_mentions r
      | None \<Rightarrow> (case s of [] \<Rightarrow> [] | _ # cs \<Rightarrow> find_mentions cs))"
  by pat_completeness auto
termination
  by (relation "measure length") (auto dest: match_here_shorter)

declare find_mentions.simps [simp del]

definition mention_key :: "mention \<Rightarrow> string" where
  "mention_key m = mn_type m @ '':'' @ mn_id m"

fun unseen :: "string list \<Rightarrow> mention list \<Rightarrow> mention list" where
  "unseen seen [] = []"
| "unseen seen (m # ms) =
     (if mention_key m \<in> set seen then unseen seen ms else m # unseen (mention_key m # seen) ms)"

definition parse_mentions :: "string \<Rightarrow> mention list" where
  "parse_mentions content = unseen [] (find_mentions content)"

definition is_mention_all :: "mention \<Rightarrow> bool" where
  "is_mention_all m \<longleftrightarrow> mn_type m = ''all''"

definition has_mention_all :: "mention list \<Rightarrow> bool" where
  "has_mention_all ms \<longleftrightarrow> (\<exists>m\<in>set ms. is_mention_all m)"

section \<open>Facts\<close>

text \<open>Every mention once, in the order of its first occurrence.\<close>

lemma unseen_keys:
  "distinct (map mention_key (unseen seen ms)) \<and> set (map mention_key (unseen seen ms)) = mention_key ` set ms - set seen"
  by (induction seen ms rule: unseen.induct) auto

lemma parse_mentions_once: "distinct (parse_mentions s) \<and> mention_key ` set (parse_mentions s) = mention_key ` set (find_mentions s)"
  using unseen_keys [of "[]" "find_mentions s"] by (auto simp: parse_mentions_def distinct_map)

text \<open>A rendered mention is found again wherever it stands behind text without brackets.\<close>

definition render_mention :: "string \<Rightarrow> mention \<Rightarrow> string" where
  "render_mention label m = ''['' @ label @ ''](mention://'' @ mn_type m @ ''/'' @ mn_id m @ '')''"

definition mention_ok :: "mention \<Rightarrow> bool" where
  "mention_ok m \<longleftrightarrow> mn_type m \<in> set mention_types \<and> mn_id m \<noteq> '''' \<and> (mn_id m = ''all'' \<or> (\<forall>c\<in>set (mn_id m). id_char c))"

lemma has_prefix_append [simp]: "has_prefix (p @ s) p"
  by (induction p) auto

lemma match_type_render: "ty \<in> set mention_types \<Longrightarrow> match_type mention_types (ty @ ''/'' @ r) = Some (ty, r)"
proof -
  assume "ty \<in> set mention_types"
  then consider "ty = ''member''" | "ty = ''agent''" | "ty = ''issue''" | "ty = ''all''" by (auto simp: mention_types_def)
  then show ?thesis by cases (simp_all add: mention_types_def)
qed

lemma id_char_all: "\<not> id_char CHR '')''" "id_char CHR ''a''" "\<not> id_char CHR ''l''"
  by (simp_all add: id_char_def)

lemma match_target_render:
  assumes "mention_ok m"
  shows "match_target (''mention://'' @ mn_type m @ ''/'' @ mn_id m @ '')'' @ rest) = Some (m, rest)"
proof -
  have ty: "match_type mention_types (mn_type m @ ''/'' @ mn_id m @ '')'' @ rest) = Some (mn_type m, mn_id m @ '')'' @ rest)"
    using assms by (intro match_type_render) (simp add: mention_ok_def)
  have drop: "drop 10 (''mention://'' @ s) = s" "has_prefix (''mention://'' @ s) ''mention://''" for s by simp_all
  have eta: "\<lparr>mn_type = mn_type m, mn_id = i\<rparr> = m" if "mn_id m = i" for i using that by simp
  show ?thesis
  proof (cases "mn_id m = ''all''")
    case True
    then show ?thesis unfolding match_target_def drop ty by (simp add: id_char_all eta)
  next
    case False
    with assms have c: "\<forall>c\<in>set (mn_id m). id_char c" "mn_id m \<noteq> ''''" by (auto simp: mention_ok_def)
    then have "takeWhile id_char (mn_id m @ '')'' @ rest) = mn_id m" "dropWhile id_char (mn_id m @ '')'' @ rest) = '')'' @ rest"
      by (simp_all add: id_char_all takeWhile_append dropWhile_append)
    with c(2) show ?thesis unfolding match_target_def drop ty by simp
  qed
qed

lemma find_mentions_skip: "CHR ''['' \<notin> set p \<Longrightarrow> find_mentions (p @ s) = find_mentions s"
proof (induction p)
  case (Cons c p)
  then have "match_here ((c # p) @ s) = None" by (auto simp: match_here_def)
  with Cons show ?case by (simp add: find_mentions.simps [of "c # p @ s"])
qed simp

lemma rendered_mention_found:
  assumes "mention_ok m" "CHR ''['' \<notin> set p" "CHR '']'' \<notin> set label"
  shows "find_mentions (p @ render_mention label m @ rest) = m # find_mentions rest"
proof -
  let ?t = "''mention://'' @ mn_type m @ ''/'' @ mn_id m @ '')'' @ rest"
  have skip: "dropWhile (\<lambda>x. x \<noteq> CHR '']'') (label @ s) = dropWhile (\<lambda>x. x \<noteq> CHR '']'') s" for s
    using assms(3) by (induction label) auto
  have "match_here (render_mention label m @ rest) = match_target ?t"
    by (simp add: render_mention_def match_here_def skip)
  then have "match_here (render_mention label m @ rest) = Some (m, rest)" using match_target_render [OF assms(1)] by simp
  with find_mentions_skip [OF assms(2)] show ?thesis by (simp add: find_mentions.simps [of "render_mention label m @ rest"])
qed

end
