(* ===== verification/TaskDerived.thy ===== *)
theory TaskDerived
  imports ConsumerLedger Mentions LoopResult RunLifecycle OutboxWorker "HOL-Library.AList"
begin

text \<open>
  The second durable consumer of terminal facts
  (\<^verbatim>\<open>server/internal/service/task_derived_projector.go\<close>): it derives the activity of an issue,
  the subscription of a comment's author and the inbox items of subscribers and mentioned members
  from a fact, all in one transaction with its receipt, and publishes the realtime hints after the
  commit. \<^verbatim>\<open>util.ParseUUID\<close> and the order in which Go ranges over a map are parameters.
\<close>

section \<open>Statements\<close>

definition task_derived :: string where "task_derived = ''task-derived''"

definition derived_claimable :: "env \<Rightarrow> db \<Rightarrow> outbox_row \<Rightarrow> bool" where
  "derived_claimable e d v \<longleftrightarrow> ob_type v \<in> set [ev_completed, ev_failed, ev_rejected] \<and> ob_processed_at v \<noteq> None \<and>
     (ob_id v, task_derived) \<notin> set (receipts d) \<and> delivery_ready e d task_derived (ob_id v)"

definition claim_task_derived_event :: "env \<Rightarrow> db \<Rightarrow> outbox_row res" where
  "claim_task_derived_event e d =
     (case first_by event_before (filter (\<lambda>v. derived_claimable e d v \<and> \<not> e_locked e (ob_id v)) (outbox d)) of
        None \<Rightarrow> Inl ErrNoRows | Some v \<Rightarrow> Inr v)"

definition create_activity_for_lifecycle_event :: "env \<Rightarrow> db \<Rightarrow> issue_row \<Rightarrow> uuid \<Rightarrow> string \<Rightarrow> uuid \<Rightarrow> (db \<times> activity_row) res" where
  "create_activity_for_lifecycle_event e d i agent action v =
     (let a = \<lparr>ac_id = e_gen e 0, ac_workspace = is_workspace i, ac_issue = Some (is_id i), ac_actor_type = Some ''agent'',
               ac_actor = Some agent, ac_action = action, ac_details = ''{}'', ac_created_at = e_now e, ac_event = Some v\<rparr>
      in or_fail (insert_keyed (\<lambda>x. ac_event x = ac_event a)
           (ac_id a \<notin> ac_id ` set (activities d) \<and> is_id i \<in> is_id ` set (issues d) \<and> v \<in> ob_id ` set (outbox d)) a (activities d))
         (\<lambda>(as, r). Inr (d\<lparr>activities := as\<rparr>, r)))"

record inbox_params =
  iq_recipient :: uuid
  iq_type :: string
  iq_severity :: string
  iq_body :: pgtext
  iq_details :: string

text \<open>The key of an inbox item: fact, kind of recipient and recipient.\<close>

definition inbox_key :: "inbox_row \<Rightarrow> (uuid \<times> string \<times> uuid) option" where
  "inbox_key x = map_option (\<lambda>v. (v, ib_recipient_type x, ib_recipient x)) (ib_event x)"

definition new_inbox_item :: "env \<Rightarrow> nat \<Rightarrow> issue_row \<Rightarrow> uuid \<Rightarrow> uuid \<Rightarrow> inbox_params \<Rightarrow> inbox_row" where
  "new_inbox_item e n i agent v p = \<lparr>ib_id = e_gen e n, ib_workspace = is_workspace i, ib_recipient_type = ''member'',
     ib_recipient = iq_recipient p, ib_type = iq_type p, ib_severity = iq_severity p, ib_issue = Some (is_id i),
     ib_title = is_title i, ib_body = iq_body p, ib_read = False, ib_archived = False, ib_created_at = e_now e,
     ib_actor_type = Some ''agent'', ib_actor = Some agent, ib_details = iq_details p, ib_event = Some v\<rparr>"

definition inbox_admitted :: "db \<Rightarrow> inbox_row \<Rightarrow> bool" where
  "inbox_admitted d x \<longleftrightarrow> ib_id x \<notin> ib_id ` set (inbox d) \<and> ib_recipient_type x \<in> {''member'', ''agent''} \<and>
     ib_severity x \<in> {''action_required'', ''attention'', ''info''} \<and>
     (case ib_issue x of None \<Rightarrow> True | Some i \<Rightarrow> i \<in> is_id ` set (issues d)) \<and>
     (case ib_event x of None \<Rightarrow> True | Some v \<Rightarrow> v \<in> ob_id ` set (outbox d))"

definition create_inbox_item_for_lifecycle_event ::
    "env \<Rightarrow> nat \<Rightarrow> db \<Rightarrow> issue_row \<Rightarrow> uuid \<Rightarrow> uuid \<Rightarrow> inbox_params \<Rightarrow> (db \<times> inbox_row) res" where
  "create_inbox_item_for_lifecycle_event e n d i agent v p =
     (let x = new_inbox_item e n i agent v p in
      or_fail (insert_keyed (\<lambda>y. inbox_key y = inbox_key x) (inbox_admitted d x) x (inbox d))
        (\<lambda>(xs, r). Inr (d\<lparr>inbox := xs\<rparr>, r)))"

definition add_issue_subscriber :: "env \<Rightarrow> db \<Rightarrow> uuid \<Rightarrow> string \<Rightarrow> uuid \<Rightarrow> string \<Rightarrow> db res" where
  "add_issue_subscriber e d i ty u reason =
     (if \<exists>s\<in>set (subscribers d). sb_issue s = i \<and> sb_user_type s = ty \<and> sb_user s = u then Inr d
      else if i \<in> is_id ` set (issues d) \<and> ty \<in> {''member'', ''agent''} \<and>
              reason \<in> {''creator'', ''assignee'', ''commenter'', ''mentioned'', ''manual''}
      then Inr (d\<lparr>subscribers := subscribers d @ [\<lparr>sb_issue = i, sb_user_type = ty, sb_user = u, sb_reason = reason,
                 sb_created_at = e_now e\<rparr>]\<rparr>)
      else Inl ErrConstraint)"

definition list_issue_subscribers :: "db \<Rightarrow> uuid \<Rightarrow> subscriber_row list" where
  "list_issue_subscribers d i = sort_by (\<lambda>a b. sb_created_at a < sb_created_at b) (filter (\<lambda>s. sb_issue s = i) (subscribers d))"

text \<open>The members of a workspace; the rows are kept in the order of their creation.\<close>

definition list_members :: "db \<Rightarrow> uuid \<Rightarrow> member_row list" where
  "list_members d ws = filter (\<lambda>m. mb_workspace m = ws) (members d)"

section \<open>Realtime hints\<close>

definition task_activity_event :: "codec \<Rightarrow> uuid \<Rightarrow> activity_row \<Rightarrow> event" where
  "task_activity_event c ws a = \<lparr>ev_id = '''', ev_type = ''activity:created'', ev_workspace = uuid_text ws,
     ev_actor_type = ''system'', ev_actor = '''',
     ev_payload = JObj [(''issue_id'', JStr (uuid_to_string (ac_issue a))),
       (''entry'', JObj [(''type'', JStr ''activity''), (''id'', JStr (uuid_text (ac_id a))),
          (''actor_type'', JStr (case ac_actor_type a of None \<Rightarrow> '''' | Some s \<Rightarrow> s)),
          (''actor_id'', JStr (uuid_to_string (ac_actor a))), (''action'', JStr (ac_action a)),
          (''details'', json_any c (ac_details a)), (''created_at'', JStr (cd_time c (ac_created_at a)))])]\<rparr>"

definition task_inbox_event :: "codec \<Rightarrow> string \<Rightarrow> inbox_row \<Rightarrow> event" where
  "task_inbox_event c st x = \<lparr>ev_id = '''', ev_type = ''inbox:new'', ev_workspace = uuid_text (ib_workspace x),
     ev_actor_type = ''agent'', ev_actor = uuid_to_string (ib_actor x),
     ev_payload = JObj [(''item'', JObj [(''id'', JStr (uuid_text (ib_id x))), (''workspace_id'', JStr (uuid_text (ib_workspace x))),
       (''recipient_type'', JStr (ib_recipient_type x)), (''recipient_id'', JStr (uuid_text (ib_recipient x))),
       (''type'', JStr (ib_type x)), (''severity'', JStr (ib_severity x)), (''issue_id'', uuid_to_ptr (ib_issue x)),
       (''title'', JStr (ib_title x)), (''body'', jstr_opt (ib_body x)), (''read'', JBool (ib_read x)),
       (''archived'', JBool (ib_archived x)), (''created_at'', JStr (cd_time c (ib_created_at x))),
       (''actor_type'', jstr_opt (ib_actor_type x)), (''actor_id'', uuid_to_ptr (ib_actor x)),
       (''details'', json_any c (ib_details x)), (''issue_status'', JStr st)])]\<rparr>"

definition task_subscriber_event :: "uuid \<Rightarrow> uuid \<Rightarrow> string \<Rightarrow> uuid \<Rightarrow> event" where
  "task_subscriber_event ws i ty u = \<lparr>ev_id = '''', ev_type = ''subscriber:added'', ev_workspace = uuid_text ws,
     ev_actor_type = ''system'', ev_actor = '''',
     ev_payload = JObj [(''issue_id'', JStr (uuid_text i)), (''user_type'', JStr ty), (''user_id'', JStr (uuid_text u)),
       (''reason'', JStr ''commenter'')]\<rparr>"

section \<open>Projections of one fact\<close>

record derived_projector =
  dp_available :: bool
  dp_bus :: bool
  dp_codec :: codec
  dp_uuid :: "string \<Rightarrow> uuid option"
  dp_range :: "(string \<times> uuid) list \<Rightarrow> (string \<times> uuid) list"

text \<open>
  One loop over recipients: an item each (\<^verbatim>\<open>projectTaskInboxItem\<close>), then its hint; the first error
  ends it. \<open>n\<close> counts the items of the transaction.
\<close>

fun notify_each ::
    "codec \<Rightarrow> string \<Rightarrow> env \<Rightarrow> uuid \<Rightarrow> uuid \<Rightarrow> issue_row \<Rightarrow> (uuid \<Rightarrow> inbox_params) \<Rightarrow> nat \<Rightarrow> db \<Rightarrow> event list \<Rightarrow> uuid list \<Rightarrow>
     (nat \<times> db \<times> event list) res" where
  "notify_each c prefix e v agent i params n d evs [] = Inr (n, d, evs)"
| "notify_each c prefix e v agent i params n d evs (u # us) =
     or_wrap prefix (create_inbox_item_for_lifecycle_event e n d i agent v (params u)) (\<lambda>(d', x).
       notify_each c prefix e v agent i params (Suc n) d' (evs @ [task_inbox_event c (is_status i) x]) us)"

definition member_subscribers :: "db \<Rightarrow> uuid \<Rightarrow> uuid list" where
  "member_subscribers d i = map sb_user (filter (\<lambda>s. sb_user_type s = ''member'') (list_issue_subscribers d i))"

definition project_failure_inbox ::
    "derived_projector \<Rightarrow> env \<Rightarrow> db \<Rightarrow> uuid \<Rightarrow> task_row \<Rightarrow> issue_row \<Rightarrow> event list \<Rightarrow> (db \<times> event list) res" where
  "project_failure_inbox p e d v t i rt =
     or_fail (notify_each (dp_codec p) ''project task failure inbox item'' e v (tk_agent t) i
         (\<lambda>u. \<lparr>iq_recipient = u, iq_type = ''task_failed'', iq_severity = ''action_required'', iq_body = None, iq_details = ''{}''\<rparr>)
         1 d rt (member_subscribers d (is_id i)))
       (\<lambda>(n, d', evs). Inr (d', evs))"

text \<open>The map of recipients of a comment's mentions.\<close>

definition mention_recipients :: "derived_projector \<Rightarrow> db \<Rightarrow> uuid \<Rightarrow> mention list \<Rightarrow> (string \<times> uuid) list" where
  "mention_recipients p d ws ms =
     fold (\<lambda>m r.
         let r1 = (if mn_type m = ''member'' then (case dp_uuid p (mn_id m) of None \<Rightarrow> r | Some u \<Rightarrow> AList.update (mn_id m) u r) else r)
         in if mn_type m = ''all'' then fold (\<lambda>x. AList.update (uuid_text (mb_user x)) (mb_user x)) (list_members d ws) r1 else r1)
       ms []"

definition project_completion_comment_inbox ::
    "derived_projector \<Rightarrow> env \<Rightarrow> db \<Rightarrow> uuid \<Rightarrow> task_row \<Rightarrow> issue_row \<Rightarrow> event list \<Rightarrow> (db \<times> event list) res" where
  "project_completion_comment_inbox p e d v t i rt =
     (case get_comment_for_lifecycle_event d v of
        Inl err \<Rightarrow> if error_is err ErrNoRows then Inr (d, rt) else Inl (ErrWrap ''load lifecycle completion comment'' err)
      | Inr c \<Rightarrow>
          or_wrap ''subscribe lifecycle comment author'' (add_issue_subscriber e d (is_id i) (cm_author_type c) (cm_author c) ''commenter'') (\<lambda>d1.
            let rt1 = rt @ [task_subscriber_event (is_workspace i) (is_id i) (cm_author_type c) (cm_author c)];
                details = json_text (JObj [(''comment_id'', JStr (uuid_text (cm_id c)))]);
                subs = member_subscribers d1 (is_id i);
                notified = map uuid_text subs in
            or_fail (notify_each (dp_codec p) ''project lifecycle comment subscriber inbox item'' e v (tk_agent t) i
                (\<lambda>u. \<lparr>iq_recipient = u, iq_type = ''new_comment'', iq_severity = ''info'', iq_body = Some (cm_content c), iq_details = details\<rparr>)
                1 d1 rt1 subs) (\<lambda>(n, d2, rt2).
              or_fail (notify_each (dp_codec p) ''project lifecycle comment mention inbox item'' e v (tk_agent t) i
                  (\<lambda>u. \<lparr>iq_recipient = u, iq_type = ''mentioned'', iq_severity = ''info'', iq_body = None, iq_details = details\<rparr>)
                  n d2 rt2 (map snd (filter (\<lambda>(k, u). k \<notin> set notified)
                      (dp_range p (mention_recipients p d2 (is_workspace i) (parse_mentions (cm_content c)))))))
                (\<lambda>(n, d3, rt3). Inr (d3, rt3)))))"

definition derived_apply :: "derived_projector \<Rightarrow> env \<Rightarrow> db \<Rightarrow> outbox_row \<Rightarrow> (db \<times> event list) res" where
  "derived_apply p e d v =
     (if ob_version v \<noteq> lifecycle_event_version
      then Inl (ErrMsg (''unsupported lifecycle event version '' @ itoa (ob_version v)))
      else or_wrap ''load task-derived Work Item'' (get_task d (Some (ob_work_item v))) (\<lambda>t.
        or_wrap ''load task-derived Issue'' (get_issue d (Some (tk_issue t))) (\<lambda>i.
          if \<not> (ob_type v = ev_completed \<or> ob_type v = ev_failed \<or> ob_type v = ev_rejected)
          then Inl (ErrMsg (''unsupported task-derived event '' @ quoted (ob_type v)))
          else
            let failed = (ob_type v \<noteq> ev_completed); action = (if failed then ''task_failed'' else ''task_completed'') in
            or_wrap ''project task activity'' (create_activity_for_lifecycle_event e d i (tk_agent t) action (ob_id v)) (\<lambda>(d1, a).
              let rt = [task_activity_event (dp_codec p) (is_workspace i) a] in
              if failed then project_failure_inbox p e d1 (ob_id v) t i rt
              else project_completion_comment_inbox p e d1 (ob_id v) t i rt))))"

definition derived_process_next ::
    "derived_projector \<Rightarrow> (go_error \<Rightarrow> string) \<Rightarrow> env \<Rightarrow> env \<Rightarrow> world \<Rightarrow> world \<times> bool \<times> go_error option" where
  "derived_process_next p f e e' w =
     (if \<not> dp_available p then (w, False, Some ErrLifecycleUnavailable)
      else if \<not> e_begin e then (w, False, Some (ErrWrap ''begin task-derived projection'' (ErrInfra ''begin'')))
      else case claim_task_derived_event e (w_db w) of
        Inl err \<Rightarrow> if error_is err ErrNoRows then (w, False, None) else (w, False, Some (ErrWrap ''claim task-derived event'' err))
      | Inr v \<Rightarrow>
          (case derived_apply p e (w_db w) v of
             Inl err \<Rightarrow>
               (case note_failure task_derived ''apply task-derived event'' e' (w_db w) (ob_id v) (error_text f err) err of
                  (d, err') \<Rightarrow> (with_db w d, True, Some err'))
           | Inr (d, rt) \<Rightarrow>
               if e_commit e
               then ((if dp_bus p then fold emit rt else id) (with_db w (record_receipt task_derived d (ob_id v))), True, None)
               else (w, True, Some (ErrWrap ''commit task-derived projection'' (ErrInfra ''commit'')))))"

end
