(* ===== verification/TaskDerivedProps.thy ===== *)
theory TaskDerivedProps
  imports TaskDerived OutboxProps
begin

text \<open>
  The derived projections honour the contracts of \<open>Delivery\<close> and \<open>ConsumerLedger\<close>: one activity
  per fact and one inbox item per fact and recipient, everybody concerned is notified, and a
  fact is consumed once, together with all its rows.
\<close>

section \<open>The contracts\<close>

lemma claim_derived_Inr:
  assumes "claim_task_derived_event e d = Inr v"
  shows "v \<in> set (outbox d) \<and> derived_claimable e d v"
  using assms by (auto simp: claim_task_derived_event_def dest!: first_by_in split: option.splits)

interpretation derived_consumer: fact_consumer task_derived claim_task_derived_event
  by unfold_locales (auto simp: derived_claimable_def dest!: claim_derived_Inr)

text \<open>The activity of a fact and the inbox item of a fact and a recipient.\<close>

definition deliver_activity :: "env \<times> issue_row \<times> uuid \<times> string \<times> uuid \<Rightarrow> db \<Rightarrow> db res" where
  "deliver_activity q d = (case q of (e, i, agent, action, v) \<Rightarrow>
     map_sum id fst (create_activity_for_lifecycle_event e d i agent action v))"

definition deliver_inbox :: "env \<times> nat \<times> issue_row \<times> uuid \<times> uuid \<times> inbox_params \<Rightarrow> db \<Rightarrow> db res" where
  "deliver_inbox q d = (case q of (e, n, i, agent, v, p) \<Rightarrow>
     map_sum id fst (create_inbox_item_for_lifecycle_event e n d i agent v p))"

lemma create_activity_Inr:
  assumes "create_activity_for_lifecycle_event e d i agent action v = Inr (d', a)"
  shows "\<exists>as. d' = d\<lparr>activities := as\<rparr> \<and> a \<in> set as \<and> ac_event a = Some v \<and> set (activities d) \<subseteq> set as \<and>
    (keyed_once ac_event (activities d) \<longrightarrow> keyed_once ac_event as)"
proof -
  let ?a = "\<lparr>ac_id = e_gen e 0, ac_workspace = is_workspace i, ac_issue = Some (is_id i), ac_actor_type = Some ''agent'',
    ac_actor = Some agent, ac_action = action, ac_details = ''{}'', ac_created_at = e_now e, ac_event = Some v\<rparr>"
  obtain adm as where k: "insert_keyed (\<lambda>x. ac_event x = ac_event ?a) adm ?a (activities d) = Inr (as, a)" "d' = d\<lparr>activities := as\<rparr>"
    using assms by (auto simp: create_activity_for_lifecycle_event_def Let_def or_fail_Inr)
  from insert_keyed_has [OF k(1)] insert_keyed_mono [OF k(1)] keyed_once_insert [OF k(1)] k(2) show ?thesis
    by (intro exI [of _ as]) simp
qed

lemma create_inbox_Inr:
  assumes "create_inbox_item_for_lifecycle_event e n d i agent v p = Inr (d', x)"
  shows "\<exists>xs. d' = d\<lparr>inbox := xs\<rparr> \<and> x \<in> set xs \<and> inbox_key x = Some (v, ''member'', iq_recipient p) \<and>
    set (inbox d) \<subseteq> set xs \<and> (keyed_once inbox_key (inbox d) \<longrightarrow> keyed_once inbox_key xs)"
proof -
  let ?x = "new_inbox_item e n i agent v p"
  have key: "inbox_key ?x = Some (v, ''member'', iq_recipient p)" by (simp add: inbox_key_def new_inbox_item_def)
  obtain xs where k: "insert_keyed (\<lambda>y. inbox_key y = inbox_key ?x) (inbox_admitted d ?x) ?x (inbox d) = Inr (xs, x)" "d' = d\<lparr>inbox := xs\<rparr>"
    using assms by (auto simp: create_inbox_item_for_lifecycle_event_def Let_def or_fail_Inr)
  from insert_keyed_has [OF k(1)] insert_keyed_mono [OF k(1)] keyed_once_insert [OF k(1)] k(2) key show ?thesis
    by (intro exI [of _ xs]) simp
qed

lemma create_activity_again:
  assumes "x \<in> set (activities d)" "ac_event x = Some v"
  shows "\<exists>a. create_activity_for_lifecycle_event e d i agent action v = Inr (d, a)"
proof -
  obtain a where "insert_keyed (\<lambda>x. ac_event x = Some v)
      (e_gen e 0 \<notin> ac_id ` set (activities d) \<and> is_id i \<in> is_id ` set (issues d) \<and> v \<in> ob_id ` set (outbox d))
      \<lparr>ac_id = e_gen e 0, ac_workspace = is_workspace i, ac_issue = Some (is_id i), ac_actor_type = Some ''agent'',
       ac_actor = Some agent, ac_action = action, ac_details = ''{}'', ac_created_at = e_now e, ac_event = Some v\<rparr> (activities d)
      = Inr (activities d, a)"
    using insert_keyed_again [OF assms(1), of "\<lambda>x. ac_event x = Some v"] assms(2) by blast
  then show ?thesis by (simp add: create_activity_for_lifecycle_event_def)
qed

lemma create_inbox_again:
  assumes "x \<in> set (inbox d)" "inbox_key x = Some (v, ''member'', iq_recipient p)"
  shows "\<exists>y. create_inbox_item_for_lifecycle_event e n d i agent v p = Inr (d, y)"
proof -
  let ?x = "new_inbox_item e n i agent v p"
  have key: "inbox_key ?x = Some (v, ''member'', iq_recipient p)" by (simp add: inbox_key_def new_inbox_item_def)
  obtain y where "insert_keyed (\<lambda>y. inbox_key y = inbox_key ?x) (inbox_admitted d ?x) ?x (inbox d) = Inr (inbox d, y)"
    using insert_keyed_again [OF assms(1), of "\<lambda>y. inbox_key y = inbox_key ?x"] assms(2) key by metis
  then show ?thesis by (simp add: create_inbox_item_for_lifecycle_event_def)
qed

interpretation activity_projection:
  projection deliver_activity "\<lambda>(e, i, agent, action, v). v" "\<lambda>v d. Some v \<in> ac_event ` set (activities d)"
proof (unfold_locales, goal_cases)
  case (1 q s s')
  then show ?case by (cases q) (force simp: deliver_activity_def map_sum_fst_Inr dest: create_activity_Inr)
next
  case (2 q s)
  then show ?case
    by (cases q) (use create_activity_again in \<open>fastforce simp: deliver_activity_def map_sum_fst_Inr\<close>)
next
  case (3 k s q s')
  then show ?case by (cases q) (force simp: deliver_activity_def map_sum_fst_Inr dest: create_activity_Inr)
qed

interpretation inbox_projection:
  projection deliver_inbox "\<lambda>(e, n, i, agent, v, p). (v, ''member'', iq_recipient p)" "\<lambda>k d. Some k \<in> inbox_key ` set (inbox d)"
proof (unfold_locales, goal_cases)
  case (1 q s s')
  then show ?case by (cases q) (force simp: deliver_inbox_def map_sum_fst_Inr dest: create_inbox_Inr)
next
  case (2 q s)
  then show ?case
    by (cases q) (use create_inbox_again in \<open>fastforce simp: deliver_inbox_def map_sum_fst_Inr\<close>)
next
  case (3 k s q s')
  then show ?case by (cases q) (force simp: deliver_inbox_def map_sum_fst_Inr dest: create_inbox_Inr)
qed

section \<open>What a projection adds\<close>

definition derives_only :: "db \<Rightarrow> db \<Rightarrow> bool" where
  "derives_only d d' \<longleftrightarrow> (\<exists>as xs ss. d' = d\<lparr>activities := as, inbox := xs, subscribers := ss\<rparr>) \<and>
     set (activities d) \<subseteq> set (activities d') \<and> set (inbox d) \<subseteq> set (inbox d') \<and> set (subscribers d) \<subseteq> set (subscribers d') \<and>
     (keyed_once ac_event (activities d) \<longrightarrow> keyed_once ac_event (activities d')) \<and>
     (keyed_once inbox_key (inbox d) \<longrightarrow> keyed_once inbox_key (inbox d'))"

lemma derives_table:
  "set (activities d) \<subseteq> set as \<Longrightarrow> keyed_once ac_event (activities d) \<longrightarrow> keyed_once ac_event as \<Longrightarrow> derives_only d (d\<lparr>activities := as\<rparr>)"
  "set (inbox d) \<subseteq> set xs \<Longrightarrow> keyed_once inbox_key (inbox d) \<longrightarrow> keyed_once inbox_key xs \<Longrightarrow> derives_only d (d\<lparr>inbox := xs\<rparr>)"
  "set (subscribers d) \<subseteq> set ss \<Longrightarrow> derives_only d (d\<lparr>subscribers := ss\<rparr>)"
  unfolding derives_only_def
  by (simp, intro exI [of _ as] exI [of _ "inbox d"] exI [of _ "subscribers d"], simp)
    (simp, intro exI [of _ "activities d"] exI [of _ xs] exI [of _ "subscribers d"], simp,
     simp, intro exI [of _ "activities d"] exI [of _ "inbox d"] exI [of _ ss], simp)

lemma derives_only_refl [simp]: "derives_only d d"
  using derives_table(3) [of d "subscribers d"] by simp

lemma derives_only_trans [trans]:
  assumes "derives_only a b" "derives_only b c"
  shows "derives_only a c"
proof -
  obtain as xs ss as' xs' ss' where "b = a\<lparr>activities := as, inbox := xs, subscribers := ss\<rparr>"
    "c = b\<lparr>activities := as', inbox := xs', subscribers := ss'\<rparr>" using assms unfolding derives_only_def by blast
  then have "c = a\<lparr>activities := as', inbox := xs', subscribers := ss'\<rparr>" by simp
  with assms show ?thesis unfolding derives_only_def by blast
qed

lemma activity_derives: "create_activity_for_lifecycle_event e d i agent action v = Inr (d', a) \<Longrightarrow> derives_only d d'"
  by (drule create_activity_Inr) (auto intro: derives_table)

lemma inbox_derives: "create_inbox_item_for_lifecycle_event e n d i agent v p = Inr (d', x) \<Longrightarrow> derives_only d d'"
  by (drule create_inbox_Inr) (auto intro: derives_table)

lemma subscriber_derives:
  assumes "add_issue_subscriber e d i ty u reason = Inr d'"
  shows "derives_only d d' \<and> (\<exists>s\<in>set (subscribers d'). sb_issue s = i \<and> sb_user_type s = ty \<and> sb_user s = u)"
proof -
  let ?has = "\<exists>s\<in>set (subscribers d). sb_issue s = i \<and> sb_user_type s = ty \<and> sb_user s = u"
  let ?new = "\<lparr>sb_issue = i, sb_user_type = ty, sb_user = u, sb_reason = reason, sb_created_at = e_now e\<rparr>"
  show ?thesis
  proof (cases ?has)
    case True
    then have "d' = d" using assms unfolding add_issue_subscriber_def if_P [OF True] by simp
    with True show ?thesis by simp
  next
    case False
    then have "d' = d\<lparr>subscribers := subscribers d @ [?new]\<rparr>"
      using assms unfolding add_issue_subscriber_def if_not_P [OF False] if_Inr by simp
    then show ?thesis by (auto intro!: derives_table)
  qed
qed

text \<open>Who is told about a fact.\<close>

definition notified :: "db \<Rightarrow> uuid \<Rightarrow> uuid \<Rightarrow> bool" where
  "notified d v u \<longleftrightarrow> Some (v, ''member'', u) \<in> inbox_key ` set (inbox d)"

lemma notified_mono: "notified d v u \<Longrightarrow> derives_only d d' \<Longrightarrow> notified d' v u"
  by (auto simp: notified_def derives_only_def)

lemma notify_each_Inr:
  assumes "notify_each c prefix e v agent i params n d evs us = Inr (n', d', evs')" "\<And>u. iq_recipient (params u) = u"
  shows "derives_only d d' \<and> subscribers d' = subscribers d \<and> (\<forall>u\<in>set us. notified d' v u)"
  using assms(1)
proof (induction us arbitrary: n d evs)
  case (Cons u us)
  then obtain d1 x where x: "create_inbox_item_for_lifecycle_event e n d i agent v (params u) = Inr (d1, x)"
    and r: "notify_each c prefix e v agent i params (Suc n) d1 (evs @ [task_inbox_event c (is_status i) x]) us = Inr (n', d', evs')"
    by (auto simp: or_wrap_Inr)
  note i1 = create_inbox_Inr [OF x] and ih = Cons.IH [OF r]
  have "notified d1 v u" using i1 assms(2) [of u] by (auto simp: notified_def intro: rev_image_eqI)
  then have "notified d' v u" using notified_mono ih by blast
  moreover have "subscribers d1 = subscribers d" using i1 by auto
  ultimately show ?case using ih derives_only_trans [OF inbox_derives [OF x]] by simp
qed simp

lemma member_subscribers_iff:
  "u \<in> set (member_subscribers d i) \<longleftrightarrow> (\<exists>s\<in>set (subscribers d). sb_issue s = i \<and> sb_user_type s = ''member'' \<and> sb_user s = u)"
  by (auto simp: member_subscribers_def list_issue_subscribers_def)

section \<open>Mentioned members\<close>

text \<open>
  What the code relies on: \<^verbatim>\<open>ParseUUID\<close> reads the text \<^verbatim>\<open>UUIDToString\<close> prints, and a range over a
  map yields exactly its entries. Stored identifiers have 128 bits.
\<close>

definition reads_uuids :: "derived_projector \<Rightarrow> bool" where
  "reads_uuids p \<longleftrightarrow> (\<forall>u < 2 ^ 128. dp_uuid p (uuid_text u) = Some u)"

definition ranges_once :: "derived_projector \<Rightarrow> bool" where
  "ranges_once p \<longleftrightarrow> (\<forall>m. set (dp_range p m) = set m \<and> length (dp_range p m) = length m)"

definition users_stored :: "db \<Rightarrow> bool" where
  "users_stored d \<longleftrightarrow> (\<forall>s\<in>set (subscribers d). sb_user s < 2 ^ 128) \<and> (\<forall>m\<in>set (members d). mb_user m < 2 ^ 128) \<and>
     (\<forall>c\<in>set (comments d). cm_author c < 2 ^ 128)"

text \<open>Who a comment mentions: a member by its identifier, or everybody in the workspace.\<close>

definition mentions_user :: "derived_projector \<Rightarrow> db \<Rightarrow> uuid \<Rightarrow> mention list \<Rightarrow> uuid \<Rightarrow> bool" where
  "mentions_user p d ws ms u \<longleftrightarrow>
     (\<exists>m\<in>set ms. mn_type m = ''member'' \<and> dp_uuid p (mn_id m) = Some u \<or>
        mn_type m = ''all'' \<and> (\<exists>x\<in>set (members d). mb_workspace x = ws \<and> mb_user x = u))"

definition add_mention :: "derived_projector \<Rightarrow> db \<Rightarrow> uuid \<Rightarrow> mention \<Rightarrow> (string \<times> uuid) list \<Rightarrow> (string \<times> uuid) list" where
  "add_mention p d ws m r =
     (let r1 = (if mn_type m = ''member'' then (case dp_uuid p (mn_id m) of None \<Rightarrow> r | Some u \<Rightarrow> AList.update (mn_id m) u r) else r)
      in if mn_type m = ''all'' then fold (\<lambda>x. AList.update (uuid_text (mb_user x)) (mb_user x)) (list_members d ws) r1 else r1)"

lemma mention_recipients_fold: "mention_recipients p d ws ms = fold (add_mention p d ws) ms []"
  unfolding mention_recipients_def add_mention_def ..

definition read_pairs :: "derived_projector \<Rightarrow> (string \<times> uuid) list \<Rightarrow> bool" where
  "read_pairs p r \<longleftrightarrow> (\<forall>(k, u)\<in>set r. dp_uuid p k = Some u)"

lemma update_set: "set (AList.update k u r) \<subseteq> insert (k, u) (set r)" "k \<in> fst ` set (AList.update k u r)"
  "fst ` set r \<subseteq> fst ` set (AList.update k u r)" for r :: "(string \<times> uuid) list"
  by (induction r) (auto split: if_splits)

lemma update_read: "read_pairs p r \<Longrightarrow> dp_uuid p k = Some u \<Longrightarrow> read_pairs p (AList.update k u r)"
  using update_set(1) [of k u r] by (auto simp: read_pairs_def)

lemma fold_members:
  assumes "read_pairs p r" "reads_uuids p" "\<forall>x\<in>set xs. mb_user x < 2 ^ 128"
  shows "read_pairs p (fold (\<lambda>x. AList.update (uuid_text (mb_user x)) (mb_user x)) xs r) \<and>
    fst ` set r \<subseteq> fst ` set (fold (\<lambda>x. AList.update (uuid_text (mb_user x)) (mb_user x)) xs r) \<and>
    (\<forall>x\<in>set xs. uuid_text (mb_user x) \<in> fst ` set (fold (\<lambda>x. AList.update (uuid_text (mb_user x)) (mb_user x)) xs r))"
  using assms(1,3)
proof (induction xs arbitrary: r)
  case (Cons x xs)
  let ?r = "AList.update (uuid_text (mb_user x)) (mb_user x) r"
  have "read_pairs p ?r" using Cons.prems assms(2) by (intro update_read) (simp_all add: reads_uuids_def)
  from Cons.IH [OF this] Cons.prems update_set(2,3) [where k = "uuid_text (mb_user x)" and u = "mb_user x" and r = r]
  show ?case by (simp add: subset_iff)
qed simp

lemma add_mention_read:
  assumes "read_pairs p r" "reads_uuids p" "users_stored d"
  shows "read_pairs p (add_mention p d ws m r) \<and> fst ` set r \<subseteq> fst ` set (add_mention p d ws m r) \<and>
    (\<forall>u. mn_type m = ''member'' \<and> dp_uuid p (mn_id m) = Some u \<longrightarrow> mn_id m \<in> fst ` set (add_mention p d ws m r)) \<and>
    (mn_type m = ''all'' \<longrightarrow> (\<forall>x\<in>set (list_members d ws). uuid_text (mb_user x) \<in> fst ` set (add_mention p d ws m r)))"
proof -
  have small: "\<forall>x\<in>set (list_members d ws). mb_user x < 2 ^ 128" using assms(3) by (auto simp: users_stored_def list_members_def)
  show ?thesis
  proof (cases "mn_type m = ''all''")
    case True
    with fold_members [OF assms(1,2) small] show ?thesis by (simp add: add_mention_def)
  next
    case False
    then show ?thesis using assms(1) update_read [of p r] update_set(2,3)
      by (cases "dp_uuid p (mn_id m)") (auto simp: add_mention_def subset_iff)
  qed
qed

lemma recipients_read:
  assumes "reads_uuids p" "users_stored d" "read_pairs p r"
  shows "read_pairs p (fold (add_mention p d ws) ms r) \<and> fst ` set r \<subseteq> fst ` set (fold (add_mention p d ws) ms r) \<and>
    (\<forall>u. mentions_user p d ws ms u \<longrightarrow> (\<exists>k. (k, u) \<in> set (fold (add_mention p d ws) ms r)))"
  using assms(3)
proof (induction ms arbitrary: r)
  case (Cons m ms)
  note a = add_mention_read [OF Cons.prems assms(1,2), of ws m]
  note ih = Cons.IH [OF conjunct1 [OF a]]
  let ?r = "fold (add_mention p d ws) ms (add_mention p d ws m r)"
  have pair: "\<exists>k. (k, u) \<in> set ?r" if "k \<in> fst ` set (add_mention p d ws m r)" "dp_uuid p k = Some u" for k u
  proof -
    from ih that(1) have "k \<in> fst ` set ?r" by blast
    then obtain u' where "(k, u') \<in> set ?r" by force
    with ih that(2) show ?thesis by (fastforce simp: read_pairs_def)
  qed
  have "\<exists>k. (k, u) \<in> set ?r" if "mentions_user p d ws (m # ms) u" for u
  proof (cases "mentions_user p d ws ms u")
    case False
    with that consider "mn_type m = ''member''" "dp_uuid p (mn_id m) = Some u"
      | x where "mn_type m = ''all''" "x \<in> set (list_members d ws)" "mb_user x = u"
      by (auto simp: mentions_user_def list_members_def)
    then show ?thesis
    proof cases
      case 2
      then have "dp_uuid p (uuid_text u) = Some u" using assms(1,2) by (auto simp: reads_uuids_def users_stored_def list_members_def)
      with a 2 pair show ?thesis by blast
    qed (use a pair in blast)
  qed (use ih in blast)
  moreover have "fst ` set r \<subseteq> fst ` set ?r" using ih a by (meson order_trans)
  ultimately show ?case using ih by simp
qed (simp add: mentions_user_def)

section \<open>Properties\<close>

lemma derives_frame: "derives_only d d' \<Longrightarrow> members d' = members d \<and> comments d' = comments d \<and> issues d' = issues d \<and> outbox d' = outbox d \<and>
    receipts d' = receipts d \<and> deliveries d' = deliveries d \<and> tasks d' = tasks d \<and> loops d' = loops d"
  by (auto simp: derives_only_def)

lemma completion_inbox:
  assumes ok: "project_completion_comment_inbox p e d v t i rt = Inr (d', evs)"
    and env: "reads_uuids p" "ranges_once p" "users_stored d"
  shows "derives_only d d' \<and> (\<forall>c. get_comment_for_lifecycle_event d v = Inr c \<longrightarrow>
    (\<forall>u. u \<in> set (member_subscribers d' (is_id i)) \<or> mentions_user p d (is_workspace i) (parse_mentions (cm_content c)) u \<longrightarrow> notified d' v u))"
proof (cases "get_comment_for_lifecycle_event d v")
  case (Inl err)
  with ok show ?thesis by (auto simp: project_completion_comment_inbox_def split: if_splits)
next
  case (Inr c)
  let ?note = "\<lambda>ty body u. \<lparr>iq_recipient = u, iq_type = ty, iq_severity = ''info'', iq_body = body,
    iq_details = json_text (JObj [(''comment_id'', JStr (uuid_text (cm_id c)))])\<rparr>"
  obtain d1 n d2 rt2 n3 where s: "add_issue_subscriber e d (is_id i) (cm_author_type c) (cm_author c) ''commenter'' = Inr d1"
    and n1: "notify_each (dp_codec p) ''project lifecycle comment subscriber inbox item'' e v (tk_agent t) i (?note ''new_comment'' (Some (cm_content c)))
        1 d1 (rt @ [task_subscriber_event (is_workspace i) (is_id i) (cm_author_type c) (cm_author c)]) (member_subscribers d1 (is_id i)) = Inr (n, d2, rt2)"
    and n2: "notify_each (dp_codec p) ''project lifecycle comment mention inbox item'' e v (tk_agent t) i (?note ''mentioned'' None)
        n d2 rt2 (map snd (filter (\<lambda>(k, u). k \<notin> set (map uuid_text (member_subscribers d1 (is_id i))))
          (dp_range p (mention_recipients p d2 (is_workspace i) (parse_mentions (cm_content c)))))) = Inr (n3, d', evs)"
    using ok Inr unfolding project_completion_comment_inbox_def
    by (auto simp: or_wrap_Inr or_fail_Inr Let_def)
  note sub = subscriber_derives [OF s]
  have e1: "derives_only d1 d2" "subscribers d2 = subscribers d1" "\<forall>u\<in>set (member_subscribers d1 (is_id i)). notified d2 v u"
    using notify_each_Inr [OF n1] by auto
  have e2: "derives_only d2 d'" "subscribers d' = subscribers d2"
    "\<forall>u\<in>set (map snd (filter (\<lambda>(k, u). k \<notin> set (map uuid_text (member_subscribers d1 (is_id i))))
          (dp_range p (mention_recipients p d2 (is_workspace i) (parse_mentions (cm_content c)))))). notified d' v u"
    using notify_each_Inr [OF n2] by auto
  have all: "derives_only d d'" using derives_only_trans [OF _ derives_only_trans [OF e1(1) e2(1)]] sub by blast
  have subs: "member_subscribers d' (is_id i) = member_subscribers d1 (is_id i)"
    using e1(2) e2(2) by (simp add: member_subscribers_def list_issue_subscribers_def)
  have subscribed: "notified d' v u" if "u \<in> set (member_subscribers d1 (is_id i))" for u
    using that e1(3) notified_mono [OF _ e2(1)] by blast
  have "users_stored d1"
  proof -
    have "cm_author c < 2 ^ 128" using env(3) select_one_Inr [OF Inr [unfolded get_comment_for_lifecycle_event_def]] by (auto simp: users_stored_def)
    moreover have "set (subscribers d1) \<subseteq> set (subscribers d) \<or> (\<exists>x. sb_user x = cm_author c \<and> subscribers d1 = subscribers d @ [x])"
      using s by (auto simp: add_issue_subscriber_def split: if_splits)
    ultimately show ?thesis using env(3) derives_frame [of d d1] sub by (auto simp: users_stored_def)
  qed
  have mentioned: "notified d' v u" if m: "mentions_user p d (is_workspace i) (parse_mentions (cm_content c)) u" for u
  proof -
    let ?r = "mention_recipients p d2 (is_workspace i) (parse_mentions (cm_content c))"
    have st2: "users_stored d2" using \<open>users_stored d1\<close> e1 derives_frame [OF e1(1)] by (simp add: users_stored_def)
    have "mentions_user p d2 (is_workspace i) (parse_mentions (cm_content c)) u"
      using m derives_frame [OF e1(1)] derives_frame [of d d1] sub by (simp add: mentions_user_def)
    with recipients_read [OF env(1) st2, of "[]"] obtain k where k: "(k, u) \<in> set ?r" "dp_uuid p k = Some u"
      by (force simp: mention_recipients_fold read_pairs_def)
    show ?thesis
    proof (cases "k \<in> set (map uuid_text (member_subscribers d1 (is_id i)))")
      case True
      then obtain s where s: "s \<in> set (member_subscribers d1 (is_id i))" "k = uuid_text s" by auto
      then have "s < 2 ^ 128" using \<open>users_stored d1\<close> by (auto simp: member_subscribers_iff users_stored_def)
      with s(2) k(2) env(1) have "s = u" by (simp add: reads_uuids_def)
      with s(1) subscribed show ?thesis by blast
    next
      case False
      have "(k, u) \<in> set (dp_range p ?r)" using k(1) env(2) by (simp add: ranges_once_def)
      with False e2(3) show ?thesis by (auto simp: image_iff)
    qed
  qed
  show ?thesis using all subs subscribed mentioned Inr by auto
qed

text \<open>C21. A fact reaches everybody it concerns: applying it leaves an activity of the issue for it
  and, of a failure or a rejection, an inbox item for every member subscribed to the issue; of a
  completion with a comment, one for every member subscribed (the author included) and for every
  member the comment mentions, by identifier or with @all. Nothing but these three tables changes,
  and none loses a row.\<close>

theorem fact_reaches_everybody:
  assumes ok: "derived_apply p e d v = Inr (d', evs)"
    and rows: "get_task d (Some (ob_work_item v)) = Inr t" "get_issue d (Some (tk_issue t)) = Inr i"
    and env: "reads_uuids p" "ranges_once p" "users_stored d"
  shows "derives_only d d' \<and> Some (ob_id v) \<in> ac_event ` set (activities d') \<and>
    (ob_type v \<noteq> ev_completed \<longrightarrow> (\<forall>u. u \<in> set (member_subscribers d (is_id i)) \<longrightarrow> notified d' (ob_id v) u)) \<and>
    (\<forall>c. ob_type v = ev_completed \<and> get_comment_for_lifecycle_event d (ob_id v) = Inr c \<longrightarrow>
      (\<forall>u. u \<in> set (member_subscribers d' (is_id i)) \<or> mentions_user p d (is_workspace i) (parse_mentions (cm_content c)) u \<longrightarrow>
        notified d' (ob_id v) u))"
proof -
  let ?failed = "ob_type v \<noteq> ev_completed" and ?action = "if ob_type v \<noteq> ev_completed then ''task_failed'' else ''task_completed''"
  obtain d1 a rt where a: "create_activity_for_lifecycle_event e d i (tk_agent t) ?action (ob_id v) = Inr (d1, a)"
    and r: "(if ?failed then project_failure_inbox p e d1 (ob_id v) t i rt else project_completion_comment_inbox p e d1 (ob_id v) t i rt) = Inr (d', evs)"
    using ok rows by (auto simp: derived_apply_def or_wrap_Inr Let_def split: if_splits)
  from create_activity_Inr [OF a] obtain as where d1: "d1 = d\<lparr>activities := as\<rparr>" "a \<in> set as" "ac_event a = Some (ob_id v)" by blast
  have act: "Some (ob_id v) \<in> ac_event ` set (activities d')" if "derives_only d1 d'" for d'
    using d1 that by (auto simp: derives_only_def intro: rev_image_eqI)
  have same: "member_subscribers d1 j = member_subscribers d j" "get_comment_for_lifecycle_event d1 w = get_comment_for_lifecycle_event d w"
    "mentions_user p d1 ws ms u = mentions_user p d ws ms u" "users_stored d1" for j w ws ms u
    using d1 env(3) by (simp_all add: member_subscribers_def list_issue_subscribers_def get_comment_for_lifecycle_event_def
        mentions_user_def users_stored_def)
  show ?thesis
  proof (cases ?failed)
    case True
    with r obtain n where n: "notify_each (dp_codec p) ''project task failure inbox item'' e (ob_id v) (tk_agent t) i
         (\<lambda>u. \<lparr>iq_recipient = u, iq_type = ''task_failed'', iq_severity = ''action_required'', iq_body = None, iq_details = ''{}''\<rparr>)
         1 d1 rt (member_subscribers d1 (is_id i)) = Inr (n, d', evs)"
      by (auto simp: project_failure_inbox_def or_fail_Inr)
    from notify_each_Inr [OF n] True act same(1) derives_only_trans [OF activity_derives [OF a]] show ?thesis by simp
  next
    case False
    with r completion_inbox [of p e d1 "ob_id v" t i rt d' evs] env(1,2) same(4)
    have c: "derives_only d1 d' \<and> (\<forall>c. get_comment_for_lifecycle_event d (ob_id v) = Inr c \<longrightarrow>
        (\<forall>u. u \<in> set (member_subscribers d' (is_id i)) \<or> mentions_user p d (is_workspace i) (parse_mentions (cm_content c)) u \<longrightarrow>
          notified d' (ob_id v) u))"
      by (simp add: same(2,3))
    with False act derives_only_trans [OF activity_derives [OF a]] show ?thesis by simp
  qed
qed

lemma derived_apply_derives:
  assumes "derived_apply p e d v = Inr (d', evs)"
  shows "derives_only d d'"
proof -
  obtain t i a d1 rt where a: "create_activity_for_lifecycle_event e d i (tk_agent t) (if ob_type v \<noteq> ev_completed then ''task_failed'' else ''task_completed'') (ob_id v) = Inr (d1, a)"
    and r: "(if ob_type v \<noteq> ev_completed then project_failure_inbox p e d1 (ob_id v) t i rt
      else project_completion_comment_inbox p e d1 (ob_id v) t i rt) = Inr (d', evs)"
    using assms by (auto simp: derived_apply_def or_wrap_Inr Let_def split: if_splits)
  have "derives_only d1 d'"
  proof (cases "ob_type v = ev_completed")
    case False
    with r show ?thesis by (auto simp: project_failure_inbox_def or_fail_Inr dest!: notify_each_Inr)
  next
    case True
    show ?thesis
    proof (cases "get_comment_for_lifecycle_event d1 (ob_id v)")
      case (Inl err)
      with True r show ?thesis by (auto simp: project_completion_comment_inbox_def split: if_splits)
    next
      case (Inr c)
      then show ?thesis using True r unfolding project_completion_comment_inbox_def
        by (auto simp: or_wrap_Inr or_fail_Inr Let_def dest!: notify_each_Inr subscriber_derives intro: derives_only_trans)
    qed
  qed
  with derives_only_trans [OF activity_derives [OF a]] show ?thesis by blast
qed

text \<open>C22. The derived rows are written effectively once and together with the receipt: through every
  step of the consumer a fact has at most one activity, and a fact and a recipient at most one
  inbox item; a step that reports an error publishes nothing and changes nothing but its delivery
  row; after a successful one the fact is not claimed again while its receipt is kept.\<close>

theorem derived_rows_once:
  assumes "derived_process_next p f e e' w = (w', busy, err)"
    "keyed_once ac_event (activities (w_db w))" "keyed_once inbox_key (inbox (w_db w))"
  shows "keyed_once ac_event (activities (w_db w')) \<and> keyed_once inbox_key (inbox (w_db w')) \<and>
    (err \<noteq> None \<longrightarrow> w_bus w' = w_bus w \<and> (w_db w' = w_db w \<or> (\<exists>v. failure_noted task_derived e' (w_db w) (w_db w') v))) \<and>
    (busy \<and> err = None \<longrightarrow> (\<exists>v. claim_task_derived_event e (w_db w) = Inr v \<and>
      (\<forall>d2 e2 u. set (receipts (w_db w')) \<subseteq> set (receipts d2) \<and> claim_task_derived_event e2 d2 = Inr u \<longrightarrow> ob_id u \<noteq> ob_id v)))"
proof (cases "dp_available p \<and> e_begin e")
  case False
  with assms show ?thesis by (auto simp: derived_process_next_def split: if_splits)
next
  case True
  have db: "w_db (fold emit rt x) = w_db x" for rt x by (induction rt arbitrary: x) simp_all
  show ?thesis
  proof (cases "claim_task_derived_event e (w_db w)")
    case (Inl x)
    with True assms show ?thesis by (auto simp: derived_process_next_def split: if_splits)
  next
    case (Inr v)
    show ?thesis
    proof (cases "derived_apply p e (w_db w) v")
      case (Inl x)
      let ?n = "note_failure task_derived ''apply task-derived event'' e' (w_db w) (ob_id v) (error_text f x) x"
      from Inl True Inr assms(1) have "w' = with_db w (fst ?n)" "err = Some (snd ?n)"
        by (auto simp: derived_process_next_def split: prod.splits)
      moreover have "fst ?n = w_db w \<or> failure_noted task_derived e' (w_db w) (fst ?n) (ob_id v)"
        using failure_noted_or_lost [of e' task_derived "w_db w" "''apply task-derived event''" "ob_id v"] by (cases "e_begin e'") simp_all
      ultimately show ?thesis using assms(2,3) by auto
    next
      case ok: (Inr x)
      obtain d rt where x: "x = (d, rt)" by (cases x)
      note der = derived_apply_derives [OF ok [unfolded x]]
      show ?thesis
      proof (cases "e_commit e")
        case False
        with True Inr ok x assms show ?thesis by (auto simp: derived_process_next_def)
      next
        case commit: True
        with True Inr ok x assms(1) have w': "w_db w' = record_receipt task_derived d (ob_id v)" "err = None"
          by (auto simp: derived_process_next_def db)
        with assms(2,3) der Inr derived_consumer.receipted_not_claimed [of d "ob_id v"] show ?thesis
          by (auto simp: derives_only_def)
      qed
    qed
  qed
qed

section \<open>On a concrete fact\<close>

definition demo_derived :: derived_projector where
  "demo_derived = \<lparr>dp_available = True, dp_bus = True, dp_codec = demo_codec, dp_uuid = demo_read_uuid, dp_range = (\<lambda>m. m)\<rparr>"

definition demo_done_fact :: outbox_row where
  "demo_done_fact = processed_event (demo_env 6) demo_fact"

text \<open>Member 7 is subscribed, the comment mentions everybody, and member 8 is in the workspace.\<close>

definition demo_derived_db :: db where
  "demo_derived_db = demo5\<lparr>outbox := [demo_done_fact],
     comments := [demo_comment\<lparr>cm_content := ''[@all](mention://all/all)''\<rparr>],
     subscribers := [\<lparr>sb_issue = 30, sb_user_type = ''member'', sb_user = 7, sb_reason = ''creator'', sb_created_at = 0\<rparr>],
     members := [\<lparr>mb_workspace = 1, mb_user = 7, mb_role = ''owner''\<rparr>, \<lparr>mb_workspace = 1, mb_user = 8, mb_role = ''member''\<rparr>]\<rparr>"

lemma demo_derived_ok: "reads_uuids demo_derived" "ranges_once demo_derived" "users_stored demo_derived_db"
  by (simp_all add: reads_uuids_def ranges_once_def users_stored_def demo_derived_def demo_derived_db_def demo_read_uuid demo_comment_def)

text \<open>The loops over recipients do not fail when the drawn identifiers are fresh.\<close>

definition fresh_items :: "env \<Rightarrow> nat \<Rightarrow> db \<Rightarrow> bool" where
  "fresh_items e n d \<longleftrightarrow> inj (e_gen e) \<and> (\<forall>x\<in>set (inbox d). \<forall>m\<ge>n. ib_id x \<noteq> e_gen e m)"

lemma create_inbox_ok:
  assumes "fresh_items e n d" "is_id i \<in> is_id ` set (issues d)" "v \<in> ob_id ` set (outbox d)"
    "iq_severity p \<in> {''action_required'', ''attention'', ''info''}"
  shows "\<exists>xs x. create_inbox_item_for_lifecycle_event e n d i agent v p = Inr (d\<lparr>inbox := xs\<rparr>, x) \<and> fresh_items e (Suc n) (d\<lparr>inbox := xs\<rparr>)"
proof -
  let ?x = "new_inbox_item e n i agent v p"
  have "ib_id ?x = e_gen e n" by (simp add: new_inbox_item_def)
  moreover have "\<forall>x\<in>set (inbox d). ib_id x \<noteq> e_gen e n" using assms(1) by (simp add: fresh_items_def)
  then have "e_gen e n \<notin> ib_id ` set (inbox d)" by force
  ultimately have adm: "inbox_admitted d ?x" using assms(2-4) by (simp add: inbox_admitted_def new_inbox_item_def)
  obtain xs x where k: "insert_keyed (\<lambda>y. inbox_key y = inbox_key ?x) (inbox_admitted d ?x) ?x (inbox d) = Inr (xs, x)"
    using insert_keyed_admitted [OF adm, of "\<lambda>y. inbox_key y = inbox_key ?x" ?x "inbox d"] by blast
  have "ib_id y \<noteq> e_gen e m" if "y \<in> set xs" "Suc n \<le> m" for y m
  proof (cases "y \<in> set (inbox d)")
    case True
    with assms(1) that(2) show ?thesis by (simp add: fresh_items_def)
  next
    case False
    then have "y = ?x" using insert_keyed_Inr [OF k] that(1) by auto
    moreover have "e_gen e n \<noteq> e_gen e m" using assms(1) that(2) by (auto simp: fresh_items_def dest: injD)
    ultimately show ?thesis using \<open>ib_id ?x = e_gen e n\<close> by simp
  qed
  then have "fresh_items e (Suc n) (d\<lparr>inbox := xs\<rparr>)" using assms(1) by (simp add: fresh_items_def)
  with k show ?thesis by (auto simp: create_inbox_item_for_lifecycle_event_def Let_def)
qed

lemma notify_each_ok:
  assumes "fresh_items e n d" "is_id i \<in> is_id ` set (issues d)" "v \<in> ob_id ` set (outbox d)"
    "\<And>u. iq_severity (params u) \<in> {''action_required'', ''attention'', ''info''}"
  shows "\<exists>n' xs evs'. notify_each c prefix e v agent i params n d evs us = Inr (n', d\<lparr>inbox := xs\<rparr>, evs') \<and> fresh_items e n' (d\<lparr>inbox := xs\<rparr>)"
  using assms(1-3)
proof (induction us arbitrary: n d evs)
  case Nil
  then show ?case by (auto intro!: exI [of _ "inbox d"])
next
  case (Cons u us)
  obtain xs x where x: "create_inbox_item_for_lifecycle_event e n d i agent v (params u) = Inr (d\<lparr>inbox := xs\<rparr>, x)"
    "fresh_items e (Suc n) (d\<lparr>inbox := xs\<rparr>)" using create_inbox_ok [OF Cons.prems assms(4)] by blast
  from Cons.IH [OF x(2)] Cons.prems(2,3) x(1) show ?case by simp
qed

lemma create_activity_ok:
  assumes "e_gen e 0 \<notin> ac_id ` set (activities d)" "is_id i \<in> is_id ` set (issues d)" "v \<in> ob_id ` set (outbox d)"
  shows "\<exists>as a. create_activity_for_lifecycle_event e d i agent action v = Inr (d\<lparr>activities := as\<rparr>, a)"
proof -
  let ?a = "\<lparr>ac_id = e_gen e 0, ac_workspace = is_workspace i, ac_issue = Some (is_id i), ac_actor_type = Some ''agent'',
    ac_actor = Some agent, ac_action = action, ac_details = ''{}'', ac_created_at = e_now e, ac_event = Some v\<rparr>"
  obtain as a where "insert_keyed (\<lambda>x. ac_event x = ac_event ?a) True ?a (activities d) = Inr (as, a)"
    using insert_keyed_admitted [OF TrueI, of "\<lambda>x. ac_event x = ac_event ?a" ?a "activities d"] by blast
  then show ?thesis using assms by (intro exI [of _ as] exI [of _ a]) (simp add: create_activity_for_lifecycle_event_def)
qed

lemma completion_ok:
  assumes "get_comment_for_lifecycle_event d v = Inr c" "cm_author_type c = ''agent''" "fresh_items e 1 d"
    "is_id i \<in> is_id ` set (issues d)" "v \<in> ob_id ` set (outbox d)"
  shows "\<exists>r. project_completion_comment_inbox p e d v t i rt = Inr r"
proof -
  obtain ss where s: "add_issue_subscriber e d (is_id i) ''agent'' (cm_author c) ''commenter'' = Inr (d\<lparr>subscribers := ss\<rparr>)"
  proof (cases "\<exists>s\<in>set (subscribers d). sb_issue s = is_id i \<and> sb_user_type s = ''agent'' \<and> sb_user s = cm_author c")
    case True
    then show ?thesis by (intro that [of "subscribers d"]) (simp add: add_issue_subscriber_def)
  next
    case False
    with assms(4) show ?thesis by (intro that) (simp add: add_issue_subscriber_def if_not_P [OF False])
  qed
  let ?d1 = "d\<lparr>subscribers := ss\<rparr>"
  let ?note = "\<lambda>ty body u. \<lparr>iq_recipient = u, iq_type = ty, iq_severity = ''info'', iq_body = body,
    iq_details = json_text (JObj [(''comment_id'', JStr (uuid_text (cm_id c)))])\<rparr>"
  have f: "fresh_items e 1 ?d1" "is_id i \<in> is_id ` set (issues ?d1)" "v \<in> ob_id ` set (outbox ?d1)"
    using assms(3-5) by (simp_all add: fresh_items_def)
  have sev: "iq_severity (?note ty body u) \<in> {''action_required'', ''attention'', ''info''}" for ty body u by simp
  obtain n xs rt1 where n1: "notify_each (dp_codec p) ''project lifecycle comment subscriber inbox item'' e v (tk_agent t) i
      (?note ''new_comment'' (Some (cm_content c))) 1 ?d1
      (rt @ [task_subscriber_event (is_workspace i) (is_id i) (cm_author_type c) (cm_author c)]) (member_subscribers ?d1 (is_id i))
      = Inr (n, ?d1\<lparr>inbox := xs\<rparr>, rt1)" "fresh_items e n (?d1\<lparr>inbox := xs\<rparr>)"
    using notify_each_ok [OF f, of "?note ''new_comment'' (Some (cm_content c))", OF sev] by blast
  have f2: "is_id i \<in> is_id ` set (issues (?d1\<lparr>inbox := xs\<rparr>))" "v \<in> ob_id ` set (outbox (?d1\<lparr>inbox := xs\<rparr>))"
    using f by simp_all
  obtain n' ys rt2 where n2: "notify_each (dp_codec p) ''project lifecycle comment mention inbox item'' e v (tk_agent t) i
      (?note ''mentioned'' None) n (?d1\<lparr>inbox := xs\<rparr>) rt1
      (map snd (filter (\<lambda>(k, u). k \<notin> set (map uuid_text (member_subscribers ?d1 (is_id i))))
         (dp_range p (mention_recipients p (?d1\<lparr>inbox := xs\<rparr>) (is_workspace i) (parse_mentions (cm_content c))))))
      = Inr (n', ?d1\<lparr>inbox := xs, inbox := ys\<rparr>, rt2)"
    using notify_each_ok [OF n1(2) f2, of "?note ''mentioned'' None", OF sev] by blast
  show ?thesis unfolding project_completion_comment_inbox_def assms(1) sum.case assms(2) s or_wrap_simps Let_def
      n1(1) [unfolded assms(2)] or_fail_simps prod.case n2 by blast
qed

lemma demo_derived_applies:
  "\<exists>d' evs. derived_apply demo_derived (demo_env 20) demo_derived_db demo_done_fact = Inr (d', evs)"
proof -
  let ?e = "demo_env 20" and ?i = "demo_issue 30"
  define c where "c = demo_comment\<lparr>cm_content := ''[@all](mention://all/all)''\<rparr>"
  have rows: "get_task demo_derived_db (Some (ob_work_item demo_done_fact)) = Inr demo_done" "get_issue demo_derived_db (Some (tk_issue demo_done)) = Inr ?i"
    "ob_version demo_done_fact = 1" "ob_type demo_done_fact = ''run.completed''" "ob_id demo_done_fact = 5001"
    by (simp_all add: get_task_def get_issue_def select_one_def demo_derived_db_def
        demo_done_fact_def processed_event_def demo_fact_def demo5_rows)
  have base: "activities demo_derived_db = []" "is_id ?i \<in> is_id ` set (issues demo_derived_db)" "5001 \<in> ob_id ` set (outbox demo_derived_db)"
    by (simp_all add: demo_derived_db_def demo_done_fact_def processed_event_def demo_fact_def demo5_rows)
  obtain as a where a: "create_activity_for_lifecycle_event ?e demo_derived_db ?i (tk_agent demo_done) ''task_completed'' 5001
      = Inr (demo_derived_db\<lparr>activities := as\<rparr>, a)"
    using create_activity_ok [OF _ base(2,3), of ?e "tk_agent demo_done" "''task_completed''"] base(1) by (simp; blast)
  let ?d1 = "demo_derived_db\<lparr>activities := as\<rparr>"
  have "get_comment_for_lifecycle_event ?d1 5001 = Inr c" "cm_author_type c = ''agent''" "is_id ?i \<in> is_id ` set (issues ?d1)"
    "5001 \<in> ob_id ` set (outbox ?d1)" "fresh_items ?e 1 ?d1"
    by (simp_all add: get_comment_for_lifecycle_event_def select_one_def demo_derived_db_def c_def fresh_items_def inj_def
        demo_done_fact_def processed_event_def demo_fact_def demo_comment_def demo5_rows)
  from completion_ok [OF this(1,2,5,3,4)] obtain r where
    "project_completion_comment_inbox demo_derived ?e ?d1 5001 demo_done ?i [task_activity_event (dp_codec demo_derived) (is_workspace ?i) a] = Inr r" by blast
  then show ?thesis using a rows
    by (cases r) (simp add: derived_apply_def lifecycle_event_version_def ev_defs)
qed

lemma demo_mentions_all: "parse_mentions ''[@all](mention://all/all)'' = [\<lparr>mn_type = ''all'', mn_id = ''all''\<rparr>]"
  by code_simp

theorem fact_reaches_everybody_witness:
  "\<exists>d' evs. derived_apply demo_derived (demo_env 20) demo_derived_db demo_done_fact = Inr (d', evs) \<and>
     notified d' 5001 7 \<and> notified d' 5001 8"
proof -
  obtain d' evs where ok: "derived_apply demo_derived (demo_env 20) demo_derived_db demo_done_fact = Inr (d', evs)"
    using demo_derived_applies by blast
  let ?c = "demo_comment\<lparr>cm_content := ''[@all](mention://all/all)''\<rparr>"
  have rows: "get_task demo_derived_db (Some (ob_work_item demo_done_fact)) = Inr demo_done" "get_issue demo_derived_db (Some (tk_issue demo_done)) = Inr (demo_issue 30)"
    "ob_type demo_done_fact = ev_completed" "ob_id demo_done_fact = 5001" "get_comment_for_lifecycle_event demo_derived_db 5001 = Inr ?c"
    "is_workspace (demo_issue 30) = 1"
    by (simp_all add: get_task_def get_issue_def get_comment_for_lifecycle_event_def select_one_def demo_derived_db_def
        demo_done_fact_def processed_event_def demo_fact_def demo_comment_def ev_defs demo5_rows)
  have "mentions_user demo_derived demo_derived_db 1 (parse_mentions (cm_content ?c)) u" if "u \<in> {7, 8}" for u
    using that by (auto simp: demo_mentions_all mentions_user_def demo_derived_db_def)
  with fact_reaches_everybody [OF ok rows(1,2) demo_derived_ok] rows(3-6) ok show ?thesis by auto
qed

theorem derived_rows_once_witness:
  "keyed_once inbox_key (inbox (w_db (fst (derived_process_next demo_derived (\<lambda>_. []) (demo_env 20) (demo_env 21)
     \<lparr>w_db = demo_derived_db, w_bus = []\<rparr>))))"
proof -
  obtain w' b err where p: "derived_process_next demo_derived (\<lambda>_. []) (demo_env 20) (demo_env 21) \<lparr>w_db = demo_derived_db, w_bus = []\<rparr> = (w', b, err)"
    by (rule prod_cases3)
  have "keyed_once ac_event (activities demo_derived_db)" "keyed_once inbox_key (inbox demo_derived_db)"
    by (simp_all add: keyed_once_def demo_derived_db_def demo5_rows)
  with derived_rows_once [OF p] show ?thesis by (simp add: p)
qed

end
