(* ===== verification/Planner.thy ===== *)
theory Planner
  imports LoopStore
begin

text \<open>
  The planner (\<^verbatim>\<open>server/internal/service/planner.go\<close>) that decomposes an issue into a graph of
  tasks, and the store of the graph (\<^verbatim>\<open>server/pkg/taskgraph/store.go\<close>). The language model, the JSON
  decoder and the two parsers of identifiers are parameters. The writes of one decomposition are
  separate statements, so the state is returned also with an error.
\<close>

section \<open>Plans\<close>

record planner_context =
  px_description :: string
  px_suggested_agent :: string
  px_estimated_effort :: string
  px_deliverable :: string
  px_criteria :: "string list option"

record planner_node =
  pn_type :: string
  pn_context :: planner_context
  pn_depth :: int
  pn_dependencies :: "int list"

record planner_response =
  pr_plan :: string
  pr_nodes :: "planner_node list"

record decompose_options =
  do_provider :: string
  do_model :: string
  do_max_nodes :: int
  do_context :: string
  do_force :: bool

definition default_decompose_opts :: "decompose_options \<Rightarrow> decompose_options" where
  "default_decompose_opts o1 =
     (let o2 = (if do_provider o1 = '''' then o1\<lparr>do_provider := ''anthropic''\<rparr> else o1);
          o3 = (if do_model o2 = '''' then o2\<lparr>do_model := ''claude-sonnet-4-20250514''\<rparr> else o2)
      in if do_max_nodes o3 \<le> 0 then o3\<lparr>do_max_nodes := 10\<rparr> else o3)"

section \<open>Reading the answer\<close>

text \<open>\<^verbatim>\<open>strings.LastIndex\<close> of one character.\<close>

definition last_index_char :: "char \<Rightarrow> string \<Rightarrow> nat option" where
  "last_index_char c s = (if c \<in> set s then Some (length s - 1 - length (takeWhile (\<lambda>x. x \<noteq> c) (rev s))) else None)"

definition strip_fences :: "string \<Rightarrow> string" where
  "strip_fences s =
     (if \<not> has_prefix s ''```'' then s
      else let s1 = (case index_of s [CHR 0x0a] of None \<Rightarrow> s | Some k \<Rightarrow> drop (k + 1) s);
               s2 = (if has_suffix s1 ''```'' then take (length s1 - 3) s1 else s1)
           in trim_space s2)"

definition parse_planner_json :: "(string \<Rightarrow> planner_response res) \<Rightarrow> string \<Rightarrow> planner_response res" where
  "parse_planner_json decode raw =
     (let cleaned = strip_fences (trim_space raw) in
      case index_of cleaned [CHR 0x7b] of
        None \<Rightarrow> Inl (ErrMsg ''no JSON object found in response'')
      | Some start \<Rightarrow>
          (case last_index_char (CHR 0x7d) (drop start cleaned) of
             None \<Rightarrow> Inl (ErrMsg ''no closing brace found in response'')
           | Some stop \<Rightarrow> or_wrap ''parse JSON'' (decode (take (stop + 1) (drop start cleaned))) Inr))"

text \<open>\<^verbatim>\<open>validateDAG\<close>: the first complaint, if any.\<close>

fun check_dependencies :: "nat \<Rightarrow> nat \<Rightarrow> int list \<Rightarrow> string option" where
  "check_dependencies n_total i [] = None"
| "check_dependencies n_total i (k # ks) =
     (if k < 0 \<or> int n_total \<le> k
      then Some (''node '' @ itoa (int i) @ '': dependency index '' @ itoa k @ '' out of range (0-'' @ itoa (int n_total - 1) @ '')'')
      else if k = int i then Some (''node '' @ itoa (int i) @ '': cannot depend on itself'')
      else check_dependencies n_total i ks)"

fun check_nodes :: "nat \<Rightarrow> nat \<Rightarrow> planner_node list \<Rightarrow> string option" where
  "check_nodes n_total i [] = None"
| "check_nodes n_total i (n # ns) =
     (if pn_type n \<noteq> ''executor'' \<and> pn_type n \<noteq> ''synthesis''
      then Some (''node '' @ itoa (int i) @ '': invalid node_type '' @ quoted (pn_type n) @ '' (must be executor or synthesis)'')
      else case check_dependencies n_total i (pn_dependencies n) of
        Some msg \<Rightarrow> Some msg
      | None \<Rightarrow>
          if trim_space (px_description (pn_context n)) = ''''
          then Some (''node '' @ itoa (int i) @ '': context.description is required'')
          else check_nodes n_total (Suc i) ns)"

definition validate_dag :: "planner_response \<Rightarrow> int \<Rightarrow> string option" where
  "validate_dag plan max_nodes =
     (if pr_nodes plan = [] then Some ''at least 1 node is required''
      else if max_nodes < int (length (pr_nodes plan))
      then Some (''node count '' @ itoa (int (length (pr_nodes plan))) @ '' exceeds maximum '' @ itoa max_nodes)
      else check_nodes (length (pr_nodes plan)) 0 (pr_nodes plan))"

text \<open>At most 500 bytes of an error text.\<close>

definition truncate_for_error :: "string \<Rightarrow> string" where
  "truncate_for_error s =
     (if length s \<le> 500 then s else take (500 - length ''... (truncated)'') s @ ''... (truncated)'')"

section \<open>Matching agents\<close>

text \<open>\<^verbatim>\<open>strings.FieldsFunc\<close>: the nonempty runs between delimiters.\<close>

fun fields_from :: "(char \<Rightarrow> bool) \<Rightarrow> string \<Rightarrow> string \<Rightarrow> string list" where
  "fields_from delim cur [] = (if cur = [] then [] else [cur])"
| "fields_from delim cur (c # cs) =
     (if delim c then (if cur = [] then [] else [cur]) @ fields_from delim [] cs else fields_from delim (cur @ [c]) cs)"

definition split_name_words :: "string \<Rightarrow> string list" where
  "split_name_words name = fields_from (\<lambda>c. c \<in> {CHR '' '', CHR ''-'', CHR ''_'', CHR ''.''}) [] name"

definition word_score :: "string \<Rightarrow> string \<Rightarrow> nat" where
  "word_score sw aw = (if sw = aw then 50 else if contains_str aw sw then 30 else if contains_str sw aw then 20 else 0)"

definition match_score :: "string \<Rightarrow> string list \<Rightarrow> string \<Rightarrow> string list \<Rightarrow> nat" where
  "match_score suggested suggested_words agent agent_words =
     (if suggested = agent then 1000
      else (if contains_str agent suggested then 200 else if contains_str suggested agent then 200 else 0) +
           sum_list (concat (map (\<lambda>sw. map (word_score sw) agent_words) (filter (\<lambda>sw. 2 \<le> length sw) suggested_words))))"

text \<open>The first agent with the highest positive score.\<close>

fun best_agent :: "(agent_row \<Rightarrow> nat) \<Rightarrow> string \<Rightarrow> nat \<Rightarrow> agent_row list \<Rightarrow> string" where
  "best_agent score best_id best_score [] = best_id"
| "best_agent score best_id best_score (a # as) =
     (if best_score < score a then best_agent score (uuid_text (ag_id a)) (score a) as
      else best_agent score best_id best_score as)"

definition agent_score :: "string \<Rightarrow> agent_row \<Rightarrow> nat" where
  "agent_score suggested a =
     (let s = to_lower suggested; n = to_lower (ag_name a) in match_score s (split_name_words s) n (split_name_words n))"

definition assign_node :: "agent_row list \<Rightarrow> planner_node \<Rightarrow> string option" where
  "assign_node as n =
     (let suggested = trim_space (px_suggested_agent (pn_context n)) in
      if suggested = '''' then None
      else let i = best_agent (agent_score suggested) '''' 0 as in if i \<noteq> '''' then Some i else None)"

definition resolve_agent_assignments :: "planner_node list \<Rightarrow> agent_row list \<Rightarrow> (nat \<times> string) list" where
  "resolve_agent_assignments ns as =
     concat (map (\<lambda>(i, n). case assign_node as n of None \<Rightarrow> [] | Some a \<Rightarrow> [(i, a)]) (enumerate 0 ns))"

section \<open>The graph store\<close>

record graph_node =
  gn_id :: uuid
  gn_workspace :: uuid
  gn_issue :: uuid
  gn_agent :: "uuid option"
  gn_type :: string
  gn_status :: string
  gn_context :: json
  gn_result :: "json option"
  gn_position_x :: "int option"
  gn_position_y :: "int option"
  gn_depth :: int
  gn_created_at :: time

record graph_edge =
  ge_id :: uuid
  ge_from :: uuid
  ge_to :: uuid
  ge_type :: string
  ge_metadata :: json
  ge_created_at :: time

record graph_state =
  gs_db :: db
  gs_nodes :: "graph_node list"
  gs_edges :: "graph_edge list"

type_synonym 'a gio = "graph_state \<times> 'a res"

text \<open>\<^verbatim>\<open>uuid.Parse\<close> is the parameter \<open>parse\<close>.\<close>

definition parse_graph_uuid :: "(string \<Rightarrow> uuid option) \<Rightarrow> string \<Rightarrow> uuid res" where
  "parse_graph_uuid parse s =
     (case parse s of None \<Rightarrow> Inl (ErrWrap (''invalid uuid '' @ quoted s) (ErrInfra ''uuid'')) | Some u \<Rightarrow> Inr u)"

definition create_task_node :: "env \<Rightarrow> graph_state \<Rightarrow> uuid \<Rightarrow> uuid \<Rightarrow> string \<Rightarrow> json \<Rightarrow> int \<Rightarrow> graph_node gio" where
  "create_task_node e st ws i ty ctx depth =
     (let n = \<lparr>gn_id = e_gen e 0, gn_workspace = ws, gn_issue = i, gn_agent = None, gn_type = ty, gn_status = ''pending'',
               gn_context = ctx, gn_result = None, gn_position_x = None, gn_position_y = None, gn_depth = depth,
               gn_created_at = e_now e\<rparr>
      in if gn_id n \<notin> gn_id ` set (gs_nodes st) \<and> i \<in> is_id ` set (issues (gs_db st)) \<and>
            ty \<in> set [''root'', ''planner'', ''executor'', ''synthesis'']
         then (st\<lparr>gs_nodes := gs_nodes st @ [n]\<rparr>, Inr n) else (st, Inl ErrConstraint))"

definition graph_create_node ::
    "(string \<Rightarrow> uuid option) \<Rightarrow> env \<Rightarrow> graph_state \<Rightarrow> string \<Rightarrow> string \<Rightarrow> string \<Rightarrow> int \<Rightarrow> json \<Rightarrow> graph_node gio" where
  "graph_create_node parse e st ws issue ty depth ctx =
     (case parse ws of
        None \<Rightarrow> (st, Inl (ErrWrap ''invalid workspace_id'' (ErrInfra ''uuid'')))
      | Some w \<Rightarrow> (case parse issue of
          None \<Rightarrow> (st, Inl (ErrWrap ''invalid issue_id'' (ErrInfra ''uuid'')))
        | Some i \<Rightarrow> (case create_task_node e st w i ty ctx (int32_of depth) of
            (st', Inl err) \<Rightarrow> (st', Inl (ErrWrap ''create node'' err))
          | (st', Inr n) \<Rightarrow> (st', Inr n))))"

record node_update =
  nu_agent :: "string option"
  nu_status :: "string option"
  nu_context :: "json option"
  nu_result :: "json option"
  nu_position_x :: "int option"
  nu_position_y :: "int option"

text \<open>\<^verbatim>\<open>COALESCE($1, column)\<close>\<close>

definition coalesce :: "'a option \<Rightarrow> 'a option \<Rightarrow> 'a option" where
  "coalesce new old = (case new of None \<Rightarrow> old | Some x \<Rightarrow> Some x)"

definition updated_node :: "uuid option \<Rightarrow> node_update \<Rightarrow> graph_node \<Rightarrow> graph_node" where
  "updated_node a u n = n\<lparr>gn_agent := coalesce a (gn_agent n),
     gn_status := (case nu_status u of None \<Rightarrow> gn_status n | Some s \<Rightarrow> s),
     gn_context := (case nu_context u of None \<Rightarrow> gn_context n | Some c \<Rightarrow> c),
     gn_result := coalesce (nu_result u) (gn_result n),
     gn_position_x := coalesce (nu_position_x u) (gn_position_x n), gn_position_y := coalesce (nu_position_y u) (gn_position_y n)\<rparr>"

definition update_task_node :: "graph_state \<Rightarrow> uuid \<Rightarrow> uuid option \<Rightarrow> node_update \<Rightarrow> graph_node gio" where
  "update_task_node st i a u =
     (case select_one (\<lambda>n. gn_id n = i) (gs_nodes st) of
        Inl err \<Rightarrow> (st, Inl err)
      | Inr n \<Rightarrow>
          if (case a of None \<Rightarrow> True | Some x \<Rightarrow> x \<in> ag_id ` set (agents (gs_db st))) \<and>
             gn_status (updated_node a u n) \<in> set [''pending'', ''running'', ''completed'', ''failed'', ''blocked'']
          then (st\<lparr>gs_nodes := upd_where (\<lambda>x. gn_id x = i) (updated_node a u) (gs_nodes st)\<rparr>, Inr (updated_node a u n))
          else (st, Inl ErrConstraint))"

definition graph_update_node :: "(string \<Rightarrow> uuid option) \<Rightarrow> graph_state \<Rightarrow> string \<Rightarrow> node_update \<Rightarrow> graph_node gio" where
  "graph_update_node parse st i u =
     (case parse_graph_uuid parse i of
        Inl err \<Rightarrow> (st, Inl err)
      | Inr nid \<Rightarrow>
          (case nu_agent u of
             None \<Rightarrow> (case update_task_node st nid None u of
                 (st', Inl err) \<Rightarrow> (st', Inl (ErrWrap ''update node'' err)) | (st', Inr n) \<Rightarrow> (st', Inr n))
           | Some s \<Rightarrow> (case parse s of
                 None \<Rightarrow> (st, Inl (ErrWrap ''invalid agent_id'' (ErrInfra ''uuid'')))
               | Some a \<Rightarrow> (case update_task_node st nid (Some a) u of
                     (st', Inl err) \<Rightarrow> (st', Inl (ErrWrap ''update node'' err)) | (st', Inr n) \<Rightarrow> (st', Inr n)))))"

definition create_task_edge :: "env \<Rightarrow> graph_state \<Rightarrow> uuid \<Rightarrow> uuid \<Rightarrow> string \<Rightarrow> json \<Rightarrow> graph_edge gio" where
  "create_task_edge e st a b ty meta =
     (let x = \<lparr>ge_id = e_gen e 0, ge_from = a, ge_to = b, ge_type = ty, ge_metadata = meta, ge_created_at = e_now e\<rparr>
      in if ge_id x \<notin> ge_id ` set (gs_edges st) \<and> a \<in> gn_id ` set (gs_nodes st) \<and> b \<in> gn_id ` set (gs_nodes st) \<and>
            ty \<in> set [''depends_on'', ''handoff'', ''triggers'']
         then (st\<lparr>gs_edges := gs_edges st @ [x]\<rparr>, Inr x) else (st, Inl ErrConstraint))"

definition graph_create_edge ::
    "(string \<Rightarrow> uuid option) \<Rightarrow> env \<Rightarrow> graph_state \<Rightarrow> string \<Rightarrow> string \<Rightarrow> string \<Rightarrow> json \<Rightarrow> graph_edge gio" where
  "graph_create_edge parse e st a b ty meta =
     (case parse_graph_uuid parse a of
        Inl err \<Rightarrow> (st, Inl (ErrWrap ''invalid from_node_id'' err))
      | Inr x \<Rightarrow> (case parse_graph_uuid parse b of
          Inl err \<Rightarrow> (st, Inl (ErrWrap ''invalid to_node_id'' err))
        | Inr y \<Rightarrow> (case create_task_edge e st x y ty meta of
            (st', Inl err) \<Rightarrow> (st', Inl (ErrWrap ''create edge'' err)) | (st', Inr g) \<Rightarrow> (st', Inr g))))"

definition list_nodes_by_issue :: "graph_state \<Rightarrow> uuid \<Rightarrow> graph_node list" where
  "list_nodes_by_issue st i = sort_by (\<lambda>a b. gn_depth a < gn_depth b \<or> gn_depth a = gn_depth b \<and> gn_created_at a < gn_created_at b)
     (filter (\<lambda>n. gn_issue n = i) (gs_nodes st))"

definition delete_node :: "(string \<Rightarrow> uuid option) \<Rightarrow> graph_state \<Rightarrow> string \<Rightarrow> unit gio" where
  "delete_node parse st i =
     (case parse_graph_uuid parse i of
        Inl err \<Rightarrow> (st, Inl err)
      | Inr x \<Rightarrow>
          if x \<in> gn_id ` set (gs_nodes st)
          then (st\<lparr>gs_nodes := filter (\<lambda>n. gn_id n \<noteq> x) (gs_nodes st),
                   gs_edges := filter (\<lambda>g. ge_from g \<noteq> x \<and> ge_to g \<noteq> x) (gs_edges st)\<rparr>, Inr ())
          else (st, Inl (ErrWrap ''delete node'' ErrNoRows)))"

definition delete_edge :: "(string \<Rightarrow> uuid option) \<Rightarrow> graph_state \<Rightarrow> string \<Rightarrow> unit gio" where
  "delete_edge parse st i =
     (case parse_graph_uuid parse i of
        Inl err \<Rightarrow> (st, Inl err)
      | Inr x \<Rightarrow>
          if x \<in> ge_id ` set (gs_edges st)
          then (st\<lparr>gs_edges := filter (\<lambda>g. ge_id g \<noteq> x) (gs_edges st)\<rparr>, Inr ())
          else (st, Inl (ErrWrap ''delete edge'' ErrNoRows)))"

section \<open>Decomposition\<close>

text \<open>\<^verbatim>\<open>(float64(index) - float64(total-1)/2.0) * 300.0\<close>: a multiple of 150, kept as an integer.\<close>

definition compute_position_x :: "nat \<Rightarrow> nat \<Rightarrow> int" where
  "compute_position_x index n_total = (2 * int index - (int n_total - 1)) * 150"

definition context_json :: "planner_context \<Rightarrow> json" where
  "context_json c = JObj [(''acceptance_criteria'', case px_criteria c of None \<Rightarrow> JNull | Some l \<Rightarrow> JArr (map JStr l)),
     (''deliverable'', JStr (px_deliverable c)), (''description'', JStr (px_description c)),
     (''estimated_effort'', JStr (px_estimated_effort c)), (''suggested_agent'', JStr (px_suggested_agent c))]"

text \<open>The node with its agent and its place in its layer; \<open>seen\<close> are the depths of the nodes before.\<close>

definition node_layout :: "planner_node list \<Rightarrow> int list \<Rightarrow> planner_node \<Rightarrow> string option \<Rightarrow> node_update" where
  "node_layout ns seen n a = \<lparr>nu_agent = a, nu_status = None, nu_context = None, nu_result = None,
     nu_position_x = Some (compute_position_x (count_list seen (pn_depth n)) (count_list (map pn_depth ns) (pn_depth n))),
     nu_position_y = Some (pn_depth n * 150)\<rparr>"

fun dag_nodes_from ::
    "(string \<Rightarrow> uuid option) \<Rightarrow> (nat \<Rightarrow> env) \<Rightarrow> string \<Rightarrow> string \<Rightarrow> planner_node list \<Rightarrow> (nat \<times> string) list \<Rightarrow> graph_state \<Rightarrow>
     nat \<Rightarrow> int list \<Rightarrow> planner_node list \<Rightarrow> graph_node list gio" where
  "dag_nodes_from parse es ws issue ns asg st i seen [] = (st, Inr [])"
| "dag_nodes_from parse es ws issue ns asg st i seen (n # rest) =
     (case graph_create_node parse (es i) st ws issue (pn_type n) (pn_depth n) (context_json (pn_context n)) of
        (st1, Inl err) \<Rightarrow> (st1, Inl (ErrWrap (''create node '' @ itoa (int i)) err))
      | (st1, Inr g) \<Rightarrow>
          (case graph_update_node parse st1 (uuid_text (gn_id g)) (node_layout ns seen n (map_of asg i)) of
             (st2, Inl err) \<Rightarrow> (st2, Inl (ErrWrap (''update node '' @ itoa (int i)) err))
           | (st2, Inr g') \<Rightarrow> and_then (dag_nodes_from parse es ws issue ns asg st2 (Suc i) (seen @ [pn_depth n]) rest)
                 (\<lambda>st3 gs. (st3, Inr (g' # gs)))))"

definition create_dag_nodes ::
    "(string \<Rightarrow> uuid option) \<Rightarrow> (nat \<Rightarrow> env) \<Rightarrow> graph_state \<Rightarrow> string \<Rightarrow> string \<Rightarrow> planner_response \<Rightarrow> (nat \<times> string) list \<Rightarrow> graph_node list gio" where
  "create_dag_nodes parse es st ws issue plan asg = dag_nodes_from parse es ws issue (pr_nodes plan) asg st 0 [] (pr_nodes plan)"

text \<open>The pairs (dependency, node) in the order of the two loops.\<close>

definition plan_edges :: "planner_node list \<Rightarrow> (int \<times> nat) list" where
  "plan_edges ns = concat (map (\<lambda>(i, n). map (\<lambda>k. (k, i)) (pn_dependencies n)) (enumerate 0 ns))"

text \<open>An index out of range is a panic of the Go program.\<close>

definition node_at :: "graph_node list \<Rightarrow> int \<Rightarrow> graph_node option" where
  "node_at gs k = (if 0 \<le> k \<and> k < int (length gs) then Some (gs ! nat k) else None)"

definition index_panic :: go_error where
  "index_panic = ErrInfra ''panic: index out of range''"

fun dag_edges_from :: "(string \<Rightarrow> uuid option) \<Rightarrow> (nat \<Rightarrow> env) \<Rightarrow> graph_node list \<Rightarrow> graph_state \<Rightarrow> nat \<Rightarrow> (int \<times> nat) list \<Rightarrow> graph_edge list gio" where
  "dag_edges_from parse es gs st j [] = (st, Inr [])"
| "dag_edges_from parse es gs st j ((k, i) # ks) =
     (case (node_at gs (int i), node_at gs k) of
        (Some b, Some a) \<Rightarrow>
          (case graph_create_edge parse (es j) st (uuid_text (gn_id a)) (uuid_text (gn_id b)) ''depends_on'' (JObj []) of
             (st1, Inl err) \<Rightarrow> (st1, Inl (ErrWrap (''create edge '' @ itoa k @ ''->'' @ itoa (int i)) err))
           | (st1, Inr x) \<Rightarrow> and_then (dag_edges_from parse es gs st1 (Suc j) ks) (\<lambda>st2 xs. (st2, Inr (x # xs))))
      | _ \<Rightarrow> (st, Inl index_panic))"

definition create_dag_edges :: "(string \<Rightarrow> uuid option) \<Rightarrow> (nat \<Rightarrow> env) \<Rightarrow> graph_state \<Rightarrow> planner_response \<Rightarrow> graph_node list \<Rightarrow> graph_edge list gio" where
  "create_dag_edges parse es st plan gs = dag_edges_from parse es gs st 0 (plan_edges (pr_nodes plan))"

text \<open>What became of the session of the language model: its prompts are functions of the options, the
  issue and the agents.\<close>

record llm_result =
  ll_status :: string
  ll_output :: string
  ll_error :: string
  ll_usage :: "(int \<times> int) option"

datatype llm_outcome =
    ProviderFailed go_error
  | ExecuteFailed go_error
  | ContextDone go_error
  | SessionClosed
  | Answered llm_result

record planner =
  pl_parse_uuid :: "string \<Rightarrow> uuid option"
  pl_graph_uuid :: "string \<Rightarrow> uuid option"
  pl_decode :: "string \<Rightarrow> planner_response res"
  pl_llm :: "decompose_options \<Rightarrow> string \<Rightarrow> string \<Rightarrow> string \<Rightarrow> string \<Rightarrow> llm_outcome"
  pl_text :: "go_error \<Rightarrow> string"

record decompose_result =
  dr_nodes :: "graph_node list"
  dr_edges :: "graph_edge list"
  dr_plan :: string
  dr_usage :: "(int \<times> int) option"

definition err_no_description :: go_error where "err_no_description = ErrMsg ''issue has no description''"
definition err_graph_exists :: go_error where "err_graph_exists = ErrMsg ''task graph already exists for this issue''"
definition err_invalid_dag :: go_error where "err_invalid_dag = ErrMsg ''invalid DAG structure returned by planner''"

definition list_agents :: "db \<Rightarrow> uuid option \<Rightarrow> agent_row list" where
  "list_agents d ws = sort_by (\<lambda>a b. ag_created_at a < ag_created_at b)
     (filter (\<lambda>a. Some (ag_workspace a) = ws \<and> ag_archived_at a = None) (agents d))"

definition format_agent_list :: "agent_row list \<Rightarrow> string" where
  "format_agent_list as =
     (if as = [] then ''(no agents available)''
      else concat (map (\<lambda>(i, a). itoa (int i + 1) @ ''. **'' @ ag_name a @ ''**'' @
             (if ag_description a \<noteq> '''' then '' - '' @ ag_description a else '''') @ [CHR 0x0a]) (enumerate 0 as)))"

definition accept_answer :: "planner \<Rightarrow> int \<Rightarrow> llm_outcome \<Rightarrow> (planner_response \<times> llm_result) res" where
  "accept_answer p max_nodes out =
     (case out of
        ProviderFailed err \<Rightarrow> Inl (ErrWrap ''create provider'' err)
      | ExecuteFailed err \<Rightarrow> Inl (ErrWrap ''execute planner'' err)
      | ContextDone err \<Rightarrow> Inl (ErrWrap ''planner execution cancelled'' err)
      | SessionClosed \<Rightarrow> Inl (ErrMsg ''planner session closed unexpectedly'')
      | Answered r \<Rightarrow>
          if ll_status r \<noteq> ''completed''
          then Inl (ErrMsg (''planner LLM failed (status='' @ ll_status r @ ''): '' @ truncate_for_error (ll_error r)))
          else (case parse_planner_json (pl_decode p) (ll_output r) of
            Inl err \<Rightarrow> Inl (ErrDetail err_invalid_dag (error_text (pl_text p) err @ '' (raw output: '' @ truncate_for_error (ll_output r) @ '')''))
          | Inr plan \<Rightarrow> (case validate_dag plan max_nodes of
                Some msg \<Rightarrow> Inl (ErrDetail err_invalid_dag msg)
              | None \<Rightarrow> Inr (plan, r))))"

text \<open>\<open>es\<close> are the environments of the statements on nodes, \<open>es'\<close> those on edges.\<close>

definition decompose_issue ::
    "planner \<Rightarrow> (nat \<Rightarrow> env) \<Rightarrow> (nat \<Rightarrow> env) \<Rightarrow> graph_state \<Rightarrow> string \<Rightarrow> string \<Rightarrow> decompose_options \<Rightarrow> decompose_result gio" where
  "decompose_issue p es es' st ws issue opts0 =
     (let opts = default_decompose_opts opts0 in
      case get_issue (gs_db st) (pl_parse_uuid p issue) of
        Inl err \<Rightarrow> (st, Inl (ErrWrap ''load issue'' err))
      | Inr i \<Rightarrow>
          if is_description i = None \<or> trim_space (the (is_description i)) = '''' then (st, Inl err_no_description)
          else case (if do_force opts then Inr [] else case parse_graph_uuid (pl_graph_uuid p) issue of
                 Inl err \<Rightarrow> Inl (ErrWrap ''check existing graph'' err) | Inr x \<Rightarrow> Inr (list_nodes_by_issue st x)) of
            Inl err \<Rightarrow> (st, Inl err)
          | Inr existing \<Rightarrow>
              if existing \<noteq> [] then (st, Inl err_graph_exists)
              else let as = list_agents (gs_db st) (pl_parse_uuid p ws) in
                case accept_answer p (do_max_nodes opts)
                    (pl_llm p opts ws (is_title i) (the (is_description i)) (format_agent_list as)) of
                  Inl err \<Rightarrow> (st, Inl err)
                | Inr (plan, r) \<Rightarrow>
                    (case create_dag_nodes (pl_graph_uuid p) es st ws issue plan (resolve_agent_assignments (pr_nodes plan) as) of
                       (st1, Inl err) \<Rightarrow> (st1, Inl (ErrWrap ''create nodes'' err))
                     | (st1, Inr gs) \<Rightarrow>
                         (case create_dag_edges (pl_graph_uuid p) es' st1 plan gs of
                            (st2, Inl err) \<Rightarrow> (st2, Inl (ErrWrap ''create edges'' err))
                          | (st2, Inr xs) \<Rightarrow> (st2, Inr \<lparr>dr_nodes = gs, dr_edges = xs, dr_plan = pr_plan plan, dr_usage = ll_usage r\<rparr>))))"

end
