(* ===== verification/PlannerProps.thy ===== *)
theory PlannerProps
  imports Planner TaskDerivedProps
begin

text \<open>
  The planner: which plans it accepts, and that the stored graph is the plan. What it accepts is
  not acyclic: a plan whose tasks wait for each other is stored as it is.
\<close>

section \<open>Validation\<close>

definition node_fine :: "nat \<Rightarrow> nat \<Rightarrow> planner_node \<Rightarrow> bool" where
  "node_fine m i n \<longleftrightarrow> pn_type n \<in> {''executor'', ''synthesis''} \<and>
     (\<forall>k\<in>set (pn_dependencies n). 0 \<le> k \<and> k < int m \<and> k \<noteq> int i) \<and>
     trim_space (px_description (pn_context n)) \<noteq> ''''"

lemma check_dependencies_iff:
  "check_dependencies m i ks = None \<longleftrightarrow> (\<forall>k\<in>set ks. 0 \<le> k \<and> k < int m \<and> k \<noteq> int i)"
  by (induction m i ks rule: check_dependencies.induct) auto

lemma first_complaint:
  "(if P then Some x else case c of Some y \<Rightarrow> Some y | None \<Rightarrow> if Q then Some z else r) = None \<longleftrightarrow>
     \<not> P \<and> c = None \<and> \<not> Q \<and> r = None"
  by (cases c) auto

lemma check_nodes_iff: "check_nodes m i ns = None \<longleftrightarrow> (\<forall>j<length ns. node_fine m (i + j) (ns ! j))"
proof (induction ns arbitrary: i)
  case (Cons n ns)
  have head: "check_nodes m i (n # ns) = None \<longleftrightarrow> node_fine m i n \<and> check_nodes m (Suc i) ns = None"
    unfolding check_nodes.simps first_complaint check_dependencies_iff node_fine_def by blast
  show ?case unfolding head Cons.IH by (auto simp: less_Suc_eq_0_disj)
qed simp

text \<open>C23. A plan is accepted exactly when it has at least one and at most the allowed number of nodes,
  every node is an executor or a synthesis with a description that is not blank, and every
  dependency is the index of another node of the plan. Depths and cycles are not looked at.\<close>

theorem plan_accepted_iff:
  "validate_dag plan max_nodes = None \<longleftrightarrow>
     pr_nodes plan \<noteq> [] \<and> int (length (pr_nodes plan)) \<le> max_nodes \<and>
     list_all (\<lambda>(i, n). node_fine (length (pr_nodes plan)) i n) (enumerate 0 (pr_nodes plan))"
  by (auto simp: validate_dag_def check_nodes_iff list_all_iff in_set_enumerate_eq)

lemma plan_edges_in_range:
  assumes "validate_dag plan m = None" "(k, i) \<in> set (plan_edges (pr_nodes plan))"
  shows "i < length (pr_nodes plan) \<and> 0 \<le> k \<and> k < int (length (pr_nodes plan))"
proof -
  obtain n where "(i, n) \<in> set (enumerate 0 (pr_nodes plan))" "k \<in> set (pn_dependencies n)"
    using assms(2) by (auto simp: plan_edges_def)
  then have i: "i < length (pr_nodes plan)" "k \<in> set (pn_dependencies (pr_nodes plan ! i))"
    by (auto simp: in_set_enumerate_eq)
  have "check_nodes (length (pr_nodes plan)) 0 (pr_nodes plan) = None"
    using assms(1) by (simp add: validate_dag_def split: if_splits)
  with i show ?thesis by (auto simp: check_nodes_iff node_fine_def)
qed

section \<open>The stored graph\<close>

text \<open>\<^verbatim>\<open>uuid.Parse\<close> reads the text of the identifiers at hand.\<close>

definition reads :: "(string \<Rightarrow> uuid option) \<Rightarrow> uuid set \<Rightarrow> bool" where
  "reads parse us \<longleftrightarrow> (\<forall>u\<in>us. parse (uuid_text u) = Some u)"

lemma create_edge_Inr:
  assumes "graph_create_edge parse e st (uuid_text a) (uuid_text b) ty meta = (st', Inr x)" "reads parse {a, b}"
  shows "st' = st\<lparr>gs_edges := gs_edges st @ [x]\<rparr> \<and> ge_from x = a \<and> ge_to x = b \<and> ge_type x = ty"
  using assms
  by (auto simp: graph_create_edge_def parse_graph_uuid_def reads_def create_task_edge_def Let_def split: prod.splits sum.splits if_splits)

lemma dag_edges_panic:
  assumes "\<forall>(k, i)\<in>set ks. i < length gs \<and> 0 \<le> k \<and> k < int (length gs)"
  shows "snd (dag_edges_from parse es gs st j ks) \<noteq> Inl index_panic"
  using assms
proof (induction ks arbitrary: st j)
  case (Cons ki ks)
  obtain k i where ki: "ki = (k, i)" by (cases ki)
  with Cons.prems have at: "node_at gs (int i) = Some (gs ! i)" "node_at gs k = Some (gs ! nat k)" by (auto simp: node_at_def)
  obtain st1 r where r: "graph_create_edge parse (es j) st (uuid_text (gn_id (gs ! nat k))) (uuid_text (gn_id (gs ! i))) ''depends_on'' (JObj []) = (st1, r)"
    by fastforce
  show ?case
  proof (cases r)
    case (Inl err)
    with ki at r show ?thesis by (simp add: index_panic_def)
  next
    case (Inr x)
    obtain st2 r2 where "dag_edges_from parse es gs st1 (Suc j) ks = (st2, r2)" by fastforce
    with ki at r Inr Cons.IH [of st1 "Suc j"] Cons.prems show ?thesis by (cases r2) auto
  qed
qed (simp add: index_panic_def)

lemma dag_edges_Inr:
  assumes "dag_edges_from parse es gs st j ks = (st', Inr xs)" "reads parse (gn_id ` set gs)"
  shows "st' = st\<lparr>gs_edges := gs_edges st @ xs\<rparr> \<and> (\<forall>x\<in>set xs. ge_type x = ''depends_on'') \<and>
    map (\<lambda>x. (ge_from x, ge_to x)) xs = map (\<lambda>(k, i). (gn_id (gs ! nat k), gn_id (gs ! i))) ks"
  using assms(1)
proof (induction ks arbitrary: st j xs)
  case (Cons ki ks)
  obtain k i where ki: "ki = (k, i)" by (cases ki)
  obtain a b where ab: "node_at gs (int i) = Some b" "node_at gs k = Some a"
    using Cons.prems ki by (auto split: option.splits)
  then have at: "b = gs ! i" "a = gs ! nat k" "a \<in> set gs" "b \<in> set gs" by (auto simp: node_at_def split: if_splits)
  obtain st1 x xs' where x: "graph_create_edge parse (es j) st (uuid_text (gn_id a)) (uuid_text (gn_id b)) ''depends_on'' (JObj []) = (st1, Inr x)"
    and r: "dag_edges_from parse es gs st1 (Suc j) ks = (st', Inr xs')" "xs = x # xs'"
    using Cons.prems ki ab by (auto simp: and_then_Inr split: prod.splits sum.splits)
  have "reads parse {gn_id a, gn_id b}" using assms(2) at(3,4) by (simp add: reads_def)
  from create_edge_Inr [OF x this] Cons.IH [OF r(1)] r(2) at ki show ?case by simp
qed simp

text \<open>Creating and laying out one node.\<close>

definition adds_nodes :: "graph_state \<Rightarrow> graph_state \<Rightarrow> uuid list \<Rightarrow> bool" where
  "adds_nodes st st' ids \<longleftrightarrow> gs_db st' = gs_db st \<and> gs_edges st' = gs_edges st \<and> map gn_id (gs_nodes st') = map gn_id (gs_nodes st) @ ids"

lemma adds_nodes_trans: "adds_nodes a b xs \<Longrightarrow> adds_nodes b c ys \<Longrightarrow> adds_nodes a c (xs @ ys)"
  by (simp add: adds_nodes_def)

lemma adds_nodes_refl [simp]: "adds_nodes a a []"
  by (simp add: adds_nodes_def)

lemma create_node_cases:
  assumes "graph_create_node parse e st ws issue ty depth ctx = (st', r)"
  shows "(\<exists>err. r = Inl err \<and> st' = st) \<or>
    (\<exists>n. r = Inr n \<and> st' = st\<lparr>gs_nodes := gs_nodes st @ [n]\<rparr> \<and> gn_type n = ty \<and> gn_depth n = int32_of depth \<and>
       gn_context n = ctx \<and> adds_nodes st st' [gn_id n])"
  using assms
  by (auto simp: graph_create_node_def create_task_node_def Let_def adds_nodes_def split: option.splits if_splits)

lemma update_node_adds:
  assumes "graph_update_node parse st i u = (st', r)"
  shows "adds_nodes st st' []"
proof -
  have up: "adds_nodes st s []" if "update_task_node st k a u = (s, x)" for k a s x
    using that by (auto simp: update_task_node_def adds_nodes_def map_upd_where updated_node_def split: sum.splits if_splits)
  have "st' = st \<or> (\<exists>k a x. update_task_node st k a u = (st', x))"
    using assms by (auto simp: graph_update_node_def split: sum.splits option.splits prod.splits)
  with up show ?thesis by auto
qed

lemma update_node_Inr:
  assumes "graph_update_node parse st (uuid_text i) u = (st', Inr g)" "parse (uuid_text i) = Some i"
  obtains a n where "n \<in> set (gs_nodes st)" "gn_id n = i" "g = updated_node a u n"
    "nu_agent u = None \<longrightarrow> a = None" "\<And>s. nu_agent u = Some s \<Longrightarrow> parse s = a"
proof -
  obtain a where a: "update_task_node st i a u = (st', Inr g)" "nu_agent u = None \<longrightarrow> a = None" "\<And>s. nu_agent u = Some s \<Longrightarrow> parse s = a"
    using assms by (auto simp: graph_update_node_def parse_graph_uuid_def split: option.splits prod.splits sum.splits)
  from a(1) obtain n where "select_one (\<lambda>n. gn_id n = i) (gs_nodes st) = Inr n" "g = updated_node a u n"
    by (auto simp: update_task_node_def split: sum.splits if_splits)
  with select_one_Inr [OF this(1)] show ?thesis by (intro that [OF _ _ _ a(2,3)]) auto
qed

lemma dag_nodes_add:
  "\<exists>ids. adds_nodes st (fst (dag_nodes_from parse es ws issue ns asg st i seen rest)) ids"
proof (induction rest arbitrary: st i seen)
  case Nil
  show ?case by (auto intro: exI [of _ "[]"])
next
  case (Cons n rest)
  obtain st1 r where c: "graph_create_node parse (es i) st ws issue (pn_type n) (pn_depth n) (context_json (pn_context n)) = (st1, r)" by fastforce
  from create_node_cases [OF c] obtain ids1 where a1: "adds_nodes st st1 ids1" by (auto intro: that [of "[]"] that)
  show ?case
  proof (cases r)
    case (Inl err)
    with c a1 show ?thesis by auto
  next
    case (Inr g)
    obtain st2 r2 where u: "graph_update_node parse st1 (uuid_text (gn_id g)) (node_layout ns seen n (map_of asg i)) = (st2, r2)" by fastforce
    have a2: "adds_nodes st st2 ids1" using adds_nodes_trans [OF a1 update_node_adds [OF u]] by simp
    obtain st3 r3 where d: "dag_nodes_from parse es ws issue ns asg st2 (Suc i) (seen @ [pn_depth n]) rest = (st3, r3)" by fastforce
    with Cons.IH [of st2 "Suc i" "seen @ [pn_depth n]"] obtain ids where "adds_nodes st2 st3 ids" by auto
    with c Inr u d a2 adds_nodes_trans [OF a2 this] show ?thesis by (cases r2; cases r3) auto
  qed
qed

lemma dag_nodes_Inr:
  assumes "dag_nodes_from parse es ws issue ns asg st i seen rest = (st', Inr gs)" "reads parse (gn_id ` set (gs_nodes st'))"
    "distinct (map gn_id (gs_nodes st'))"
  shows "adds_nodes st st' (map gn_id gs) \<and> map gn_type gs = map pn_type rest \<and> map gn_depth gs = map (\<lambda>n. int32_of (pn_depth n)) rest \<and>
    map gn_context gs = map (\<lambda>n. context_json (pn_context n)) rest"
  using assms
proof (induction rest arbitrary: st i seen gs)
  case (Cons n rest)
  let ?u = "node_layout ns seen n (map_of asg i)"
  obtain st1 g st2 g' gs' where c: "graph_create_node parse (es i) st ws issue (pn_type n) (pn_depth n) (context_json (pn_context n)) = (st1, Inr g)"
    and u: "graph_update_node parse st1 (uuid_text (gn_id g)) ?u = (st2, Inr g')"
    and d: "dag_nodes_from parse es ws issue ns asg st2 (Suc i) (seen @ [pn_depth n]) rest = (st', Inr gs')" "gs = g' # gs'"
    using Cons.prems(1) by (auto simp: and_then_Inr split: prod.splits sum.splits)
  note ih = Cons.IH [OF d(1) Cons.prems(2,3)]
  from create_node_cases [OF c] have g: "st1 = st\<lparr>gs_nodes := gs_nodes st @ [g]\<rparr>" "gn_type g = pn_type n" "gn_depth g = int32_of (pn_depth n)"
    "gn_context g = context_json (pn_context n)" "adds_nodes st st1 [gn_id g]" by auto
  have a2: "adds_nodes st st2 [gn_id g]" using adds_nodes_trans [OF g(5) update_node_adds [OF u]] by simp
  with ih have ids: "map gn_id (gs_nodes st') = map gn_id (gs_nodes st) @ gn_id g # map gn_id gs'" by (simp add: adds_nodes_def)
  have "gn_id g \<in> set (map gn_id (gs_nodes st'))" by (subst ids) simp
  then have "parse (uuid_text (gn_id g)) = Some (gn_id g)" using Cons.prems(2) by (auto simp: reads_def)
  from update_node_Inr [OF u this] obtain a m where m: "m \<in> set (gs_nodes st1)" "gn_id m = gn_id g" "g' = updated_node a ?u m" by blast
  have "gn_id g \<notin> gn_id ` set (gs_nodes st)" using Cons.prems(3) unfolding ids by simp
  moreover have "m = g \<or> m \<in> set (gs_nodes st)" using m(1) unfolding g(1) by auto
  ultimately have "m = g" using m(2) by (metis imageI)
  with m(3) g(2-4) have g': "gn_id g' = gn_id g" "gn_type g' = pn_type n" "gn_depth g' = int32_of (pn_depth n)" "gn_context g' = context_json (pn_context n)"
    by (simp_all add: updated_node_def node_layout_def)
  with ih d(2) adds_nodes_trans [OF a2] show ?case by fastforce
qed (auto simp: adds_nodes_def)

lemma dag_nodes_length:
  "dag_nodes_from parse es ws issue ns asg st i seen rest = (st', Inr gs) \<Longrightarrow> length gs = length rest"
proof (induction rest arbitrary: st i seen gs)
  case (Cons n rest)
  then show ?case by (auto simp: and_then_Inr split: prod.splits sum.splits)
qed simp

lemma dag_edges_add:
  "\<exists>xs. fst (dag_edges_from parse es gs st j ks) = st\<lparr>gs_edges := gs_edges st @ xs\<rparr>"
proof (induction ks arbitrary: st j)
  case Nil
  show ?case by (auto intro: exI [of _ "[]"])
next
  case (Cons ki ks)
  obtain k i where ki: "ki = (k, i)" by (cases ki)
  show ?case
  proof (cases "node_at gs (int i) = None \<or> node_at gs k = None")
    case True
    then show ?thesis by (auto simp: ki intro: exI [of _ "[]"] split: option.splits)
  next
    case False
    then obtain a b where ab: "node_at gs (int i) = Some b" "node_at gs k = Some a" by auto
    obtain st1 r where c: "graph_create_edge parse (es j) st (uuid_text (gn_id a)) (uuid_text (gn_id b)) ''depends_on'' (JObj []) = (st1, r)" by fastforce
    then have s: "st1 = st \<and> (\<exists>err. r = Inl err) \<or> (\<exists>x. st1 = st\<lparr>gs_edges := gs_edges st @ [x]\<rparr> \<and> r = Inr x)"
      by (auto simp: graph_create_edge_def create_task_edge_def Let_def split: sum.splits if_splits prod.splits)
    obtain st2 r2 where d: "dag_edges_from parse es gs st1 (Suc j) ks = (st2, r2)" by fastforce
    with Cons.IH [of st1 "Suc j"] obtain xs where "st2 = st1\<lparr>gs_edges := gs_edges st1 @ xs\<rparr>" by auto
    with s c d ab show ?thesis
      by (cases r2) (auto simp: ki intro: exI [of _ "[]"] exI [of _ "_ # _"])
  qed
qed

section \<open>Decomposing an issue\<close>

lemma accept_answer_Inr: "accept_answer p m out = Inr (plan, r) \<Longrightarrow> validate_dag plan m = None"
  by (auto simp: accept_answer_def split: llm_outcome.splits sum.splits option.splits if_splits)

lemma accept_answer_Inl: "accept_answer p m out = Inl err \<Longrightarrow> err \<noteq> ErrWrap ''create edges'' x"
  by (auto simp: accept_answer_def err_invalid_dag_def split: llm_outcome.splits sum.splits option.splits if_splits)

text \<open>A decomposition is a reading part that yields an accepted plan, and the writes.\<close>

definition accepted_plan ::
    "planner \<Rightarrow> graph_state \<Rightarrow> string \<Rightarrow> string \<Rightarrow> decompose_options \<Rightarrow> (planner_response \<times> llm_result) res" where
  "accepted_plan p st ws issue opts =
     (case get_issue (gs_db st) (pl_parse_uuid p issue) of
        Inl err \<Rightarrow> Inl (ErrWrap ''load issue'' err)
      | Inr i \<Rightarrow>
          if is_description i = None \<or> trim_space (the (is_description i)) = '''' then Inl err_no_description
          else (case (if do_force opts then Inr [] else case parse_graph_uuid (pl_graph_uuid p) issue of
                 Inl err \<Rightarrow> Inl (ErrWrap ''check existing graph'' err) | Inr x \<Rightarrow> Inr (list_nodes_by_issue st x)) of
            Inl err \<Rightarrow> Inl err
          | Inr existing \<Rightarrow> if existing \<noteq> [] then Inl err_graph_exists else
              accept_answer p (do_max_nodes opts) (pl_llm p opts ws (is_title i) (the (is_description i))
                (format_agent_list (list_agents (gs_db st) (pl_parse_uuid p ws))))))"

definition write_plan ::
    "planner \<Rightarrow> (nat \<Rightarrow> env) \<Rightarrow> (nat \<Rightarrow> env) \<Rightarrow> graph_state \<Rightarrow> string \<Rightarrow> string \<Rightarrow> planner_response \<times> llm_result \<Rightarrow> decompose_result gio" where
  "write_plan p es es' st ws issue pr =
     (case create_dag_nodes (pl_graph_uuid p) es st ws issue (fst pr)
             (resolve_agent_assignments (pr_nodes (fst pr)) (list_agents (gs_db st) (pl_parse_uuid p ws))) of
        (st1, Inl err) \<Rightarrow> (st1, Inl (ErrWrap ''create nodes'' err))
      | (st1, Inr gs) \<Rightarrow>
          (case create_dag_edges (pl_graph_uuid p) es' st1 (fst pr) gs of
             (st2, Inl err) \<Rightarrow> (st2, Inl (ErrWrap ''create edges'' err))
           | (st2, Inr xs) \<Rightarrow> (st2, Inr \<lparr>dr_nodes = gs, dr_edges = xs, dr_plan = pr_plan (fst pr), dr_usage = ll_usage (snd pr)\<rparr>)))"

lemma decompose_issue_eq:
  "decompose_issue p es es' st ws issue opts =
     (case accepted_plan p st ws issue (default_decompose_opts opts) of
        Inl err \<Rightarrow> (st, Inl err) | Inr pr \<Rightarrow> write_plan p es es' st ws issue pr)"
  unfolding decompose_issue_def accepted_plan_def write_plan_def Let_def by (simp split: sum.split prod.split)

lemma accepted_plan_valid:
  "accepted_plan p st ws issue opts = Inr pr \<Longrightarrow> validate_dag (fst pr) (do_max_nodes opts) = None"
  by (cases pr) (auto simp: accepted_plan_def accept_answer_Inr split: sum.splits if_splits)

lemma accepted_plan_error:
  "accepted_plan p st ws issue opts = Inl err \<Longrightarrow> err \<noteq> ErrWrap ''create edges'' x"
  by (auto simp: accepted_plan_def err_no_description_def err_graph_exists_def dest: accept_answer_Inl split: sum.splits if_splits)

lemma write_plan_Inr:
  assumes "write_plan p es es' st ws issue (plan, a) = (st', Inr r)"
  obtains asg st1 where "create_dag_nodes (pl_graph_uuid p) es st ws issue plan asg = (st1, Inr (dr_nodes r))"
    "create_dag_edges (pl_graph_uuid p) es' st1 plan (dr_nodes r) = (st', Inr (dr_edges r))" "dr_plan r = pr_plan plan"
  using assms that by (auto simp: write_plan_def split: prod.splits sum.splits)

text \<open>C24. A decomposition that succeeds has stored an accepted plan exactly: after the nodes that were
  there, one node per node of the plan with its type, its depth and its context, in the plan's order,
  and after the edges that were there, one \<^verbatim>\<open>depends_on\<close> edge per dependency of the plan, from the
  node depended on to the node that depends.\<close>

theorem graph_mirrors_plan:
  assumes "decompose_issue p es es' st ws issue opts = (st', Inr r)"
    and "reads (pl_graph_uuid p) (gn_id ` set (gs_nodes st'))" "distinct (map gn_id (gs_nodes st'))"
  shows "\<exists>plan. validate_dag plan (do_max_nodes (default_decompose_opts opts)) = None \<and> dr_plan r = pr_plan plan \<and>
    map gn_id (gs_nodes st') = map gn_id (gs_nodes st) @ map gn_id (dr_nodes r) \<and>
    map gn_type (dr_nodes r) = map pn_type (pr_nodes plan) \<and>
    map gn_depth (dr_nodes r) = map (\<lambda>n. int32_of (pn_depth n)) (pr_nodes plan) \<and>
    map gn_context (dr_nodes r) = map (\<lambda>n. context_json (pn_context n)) (pr_nodes plan) \<and>
    gs_edges st' = gs_edges st @ dr_edges r \<and> list_all (\<lambda>x. ge_type x = ''depends_on'') (dr_edges r) \<and>
    map (\<lambda>x. (ge_from x, ge_to x)) (dr_edges r) =
      map (\<lambda>(k, i). (gn_id (dr_nodes r ! nat k), gn_id (dr_nodes r ! i))) (plan_edges (pr_nodes plan))"
proof -
  obtain plan a where ok: "accepted_plan p st ws issue (default_decompose_opts opts) = Inr (plan, a)"
    and w: "write_plan p es es' st ws issue (plan, a) = (st', Inr r)"
    using assms(1) by (auto simp: decompose_issue_eq split: sum.splits)
  from write_plan_Inr [OF w] obtain asg st1 where
    n: "create_dag_nodes (pl_graph_uuid p) es st ws issue plan asg = (st1, Inr (dr_nodes r))" and
    x: "create_dag_edges (pl_graph_uuid p) es' st1 plan (dr_nodes r) = (st', Inr (dr_edges r))" and pl: "dr_plan r = pr_plan plan" .
  obtain ys where "st' = st1\<lparr>gs_edges := gs_edges st1 @ ys\<rparr>"
    using dag_edges_add x unfolding create_dag_edges_def by (metis fst_conv)
  then have same: "gs_nodes st' = gs_nodes st1" by simp
  note nodes = dag_nodes_Inr [OF n [unfolded create_dag_nodes_def] assms(2,3) [unfolded same]]
  then have "set (map gn_id (dr_nodes r)) \<subseteq> set (map gn_id (gs_nodes st1))" by (simp only: adds_nodes_def set_append) simp
  then have "reads (pl_graph_uuid p) (gn_id ` set (dr_nodes r))"
    using assms(2) same by (auto simp: reads_def)
  note edges = dag_edges_Inr [OF x [unfolded create_dag_edges_def] this]
  from nodes edges pl accepted_plan_valid [OF ok] same show ?thesis
    by (intro exI [of _ plan]) (simp add: adds_nodes_def list_all_iff)
qed

text \<open>Whatever becomes of a decomposition, it only adds: the issue, agent and other tables are as
  before, and the nodes and edges that were there (also those of a graph that \<^verbatim>\<open>force\<close> is asked to
  overwrite) stay in front of what it added. And it never indexes the created nodes out of range.\<close>

theorem decompose_only_adds:
  assumes "decompose_issue p es es' st ws issue opts = (st', r)"
  shows "gs_db st' = gs_db st \<and> (\<exists>ids. map gn_id (gs_nodes st') = map gn_id (gs_nodes st) @ ids) \<and>
    (\<exists>xs. gs_edges st' = gs_edges st @ xs) \<and> r \<noteq> Inl (ErrWrap ''create edges'' index_panic)"
proof (cases "accepted_plan p st ws issue (default_decompose_opts opts)")
  case (Inl err)
  with assms accepted_plan_error [OF Inl] show ?thesis by (auto simp: decompose_issue_eq)
next
  case (Inr pr)
  let ?n = "create_dag_nodes (pl_graph_uuid p) es st ws issue (fst pr)
    (resolve_agent_assignments (pr_nodes (fst pr)) (list_agents (gs_db st) (pl_parse_uuid p ws)))"
  obtain st1 r1 where n: "?n = (st1, r1)" by fastforce
  with dag_nodes_add obtain ids where added: "adds_nodes st st1 ids" unfolding create_dag_nodes_def by (metis fst_conv)
  show ?thesis
  proof (cases r1)
    case (Inl err)
    with assms Inr n added show ?thesis by (auto simp: decompose_issue_eq write_plan_def adds_nodes_def)
  next
    case gs: (Inr gs)
    obtain st2 r2 where x: "create_dag_edges (pl_graph_uuid p) es' st1 (fst pr) gs = (st2, r2)" by fastforce
    obtain xs where s2: "st2 = st1\<lparr>gs_edges := gs_edges st1 @ xs\<rparr>"
      using dag_edges_add x unfolding create_dag_edges_def by (metis fst_conv)
    have "length gs = length (pr_nodes (fst pr))" using n gs by (simp add: create_dag_nodes_def dag_nodes_length)
    then have "\<forall>(k, i)\<in>set (plan_edges (pr_nodes (fst pr))). i < length gs \<and> 0 \<le> k \<and> k < int (length gs)"
      using plan_edges_in_range [OF accepted_plan_valid [OF Inr]] by auto
    from dag_edges_panic [OF this, of "pl_graph_uuid p" es' st1 0] x have "r2 \<noteq> Inl index_panic" by (simp add: create_dag_edges_def)
    moreover have "st' = st2 \<and> (\<forall>err. r = Inl (ErrWrap ''create edges'' err) \<longrightarrow> r2 = Inl err)"
      using assms Inr n gs x by (cases r2) (auto simp: decompose_issue_eq write_plan_def)
    ultimately show ?thesis using s2 added unfolding adds_nodes_def by auto
  qed
qed

section \<open>Two tasks that wait for each other\<close>

definition demo_context :: planner_context where
  "demo_context = \<lparr>px_description = ''do'', px_suggested_agent = '''', px_estimated_effort = '''', px_deliverable = '''', px_criteria = None\<rparr>"

definition demo_plan_node :: "string \<Rightarrow> int \<Rightarrow> planner_node" where
  "demo_plan_node ty k = \<lparr>pn_type = ty, pn_context = demo_context, pn_depth = 1, pn_dependencies = [k]\<rparr>"

lemma demo_plan_node [simp]:
  "pn_type (demo_plan_node ty k) = ty" "pn_context (demo_plan_node ty k) = demo_context" "pn_depth (demo_plan_node ty k) = 1"
  "pn_dependencies (demo_plan_node ty k) = [k]" "px_description demo_context = ''do''" "px_suggested_agent demo_context = ''''"
  by (simp_all add: demo_plan_node_def demo_context_def)

definition demo_planner :: planner where
  "demo_planner = \<lparr>pl_parse_uuid = demo_read_uuid, pl_graph_uuid = demo_read_uuid,
     pl_decode = (\<lambda>_. Inr \<lparr>pr_plan = ''p'', pr_nodes = [demo_plan_node ''executor'' 1, demo_plan_node ''synthesis'' 0]\<rparr>),
     pl_llm = (\<lambda>_ _ _ _ _. Answered \<lparr>ll_status = ''completed'', ll_output = ''{}'', ll_error = '''', ll_usage = None\<rparr>),
     pl_text = (\<lambda>_. '''')\<rparr>"

definition demo_graph :: graph_state where
  "demo_graph = \<lparr>gs_db = demo0\<lparr>issues := [demo_issue 30\<lparr>is_description := Some ''d''\<rparr>]\<rparr>, gs_nodes = [], gs_edges = []\<rparr>"

definition demo_cycle :: "planner_node list" where
  "demo_cycle = [demo_plan_node ''executor'' 1, demo_plan_node ''synthesis'' 0]"

lemma demo_text:
  "trim_space ''{}'' = ''{}''" "strip_fences ''{}'' = ''{}''" "trim_space ''do'' = ''do''" "trim_space ''d'' = ''d''" "trim_space '''' = ''''"
  by code_simp+

lemma demo_braces: "index_of ''{}'' [CHR 0x7b] = Some 0" "last_index_char (CHR 0x7d) ''{}'' = Some 1"
  by code_simp+

lemma demo_answer: "parse_planner_json (pl_decode demo_planner) ''{}'' = Inr \<lparr>pr_plan = ''p'', pr_nodes = demo_cycle\<rparr>"
  unfolding parse_planner_json_def demo_text
  by (simp add: Let_def demo_braces demo_planner_def demo_cycle_def)

lemma demo_valid: "validate_dag \<lparr>pr_plan = ''p'', pr_nodes = demo_cycle\<rparr> 10 = None"
  by (simp add: validate_dag_def demo_cycle_def demo_text)

definition demo_opts :: decompose_options where
  "demo_opts = \<lparr>do_provider = '''', do_model = '''', do_max_nodes = 0, do_context = '''', do_force = False\<rparr>"

definition demo_reply :: "planner_response \<times> llm_result" where
  "demo_reply = (\<lparr>pr_plan = ''p'', pr_nodes = demo_cycle\<rparr>, \<lparr>ll_status = ''completed'', ll_output = ''{}'', ll_error = '''', ll_usage = None\<rparr>)"

lemma demo_accepted:
  "accepted_plan demo_planner demo_graph (uuid_text 1) (uuid_text 30) (default_decompose_opts demo_opts) = Inr demo_reply"
proof -
  have i: "get_issue (gs_db demo_graph) (Some 30) = Inr (demo_issue 30\<lparr>is_description := Some ''d''\<rparr>)"
    by (simp add: demo_graph_def get_issue_def select_one_def demo_issue_def)
  have n: "list_nodes_by_issue demo_graph x = []" for x by (simp add: list_nodes_by_issue_def demo_graph_def sort_by_def)
  have m: "do_max_nodes (default_decompose_opts demo_opts) = 10" by (simp add: default_decompose_opts_def demo_opts_def Let_def)
  have f: "pl_parse_uuid demo_planner = demo_read_uuid" "pl_graph_uuid demo_planner = demo_read_uuid"
    "pl_llm demo_planner a b c d e = Answered (snd demo_reply)" for a b c d e
    by (simp_all add: demo_planner_def demo_reply_def)
  have "accept_answer demo_planner 10 (Answered (snd demo_reply)) = Inr demo_reply"
    by (simp add: accept_answer_def demo_reply_def demo_answer demo_valid)
  then show ?thesis
    by (simp add: accepted_plan_def f i n m demo_text parse_graph_uuid_def demo_read_uuid)
qed

definition demo_placed :: "nat \<Rightarrow> string \<Rightarrow> int \<Rightarrow> graph_node" where
  "demo_placed k ty x = \<lparr>gn_id = 1000 * k, gn_workspace = 1, gn_issue = 30, gn_agent = None, gn_type = ty, gn_status = ''pending'',
     gn_context = context_json demo_context, gn_result = None, gn_position_x = Some x, gn_position_y = Some 150,
     gn_depth = 1, gn_created_at = int k * 3600000000000\<rparr>"

definition demo_waits :: "nat \<Rightarrow> uuid \<Rightarrow> uuid \<Rightarrow> graph_edge" where
  "demo_waits k a b = \<lparr>ge_id = 1000 * k, ge_from = a, ge_to = b, ge_type = ''depends_on'', ge_metadata = JObj [],
     ge_created_at = int k * 3600000000000\<rparr>"

definition demo_stored :: graph_state where
  "demo_stored = demo_graph\<lparr>gs_nodes := [demo_placed 5 ''executor'' (- 150), demo_placed 6 ''synthesis'' 150],
     gs_edges := [demo_waits 8 6000 5000, demo_waits 9 5000 6000]\<rparr>"

lemma demo_decomposed:
  "decompose_issue demo_planner (\<lambda>i. demo_env (i + 5)) (\<lambda>i. demo_env (i + 8)) demo_graph (uuid_text 1) (uuid_text 30) demo_opts =
     (demo_stored, Inr \<lparr>dr_nodes = gs_nodes demo_stored, dr_edges = gs_edges demo_stored, dr_plan = ''p'', dr_usage = None\<rparr>)"
proof -
  have asg: "resolve_agent_assignments demo_cycle as = []" for as
    by (simp add: resolve_agent_assignments_def demo_cycle_def assign_node_def demo_text)
  have lay: "node_layout demo_cycle [] (demo_plan_node ''executor'' 1) None =
      \<lparr>nu_agent = None, nu_status = None, nu_context = None, nu_result = None, nu_position_x = Some (- 150), nu_position_y = Some 150\<rparr>"
    "node_layout demo_cycle [1] (demo_plan_node ''synthesis'' 0) None =
      \<lparr>nu_agent = None, nu_status = None, nu_context = None, nu_result = None, nu_position_x = Some 150, nu_position_y = Some 150\<rparr>"
    by (simp_all add: node_layout_def compute_position_x_def demo_cycle_def)
  have nodes: "dag_nodes_from demo_read_uuid (\<lambda>i. demo_env (i + 5)) (uuid_text 1) (uuid_text 30) demo_cycle [] demo_graph 0 [] demo_cycle =
      (demo_stored\<lparr>gs_edges := []\<rparr>, Inr (gs_nodes demo_stored))"
    by (subst (2) demo_cycle_def, simp add: demo_read_uuid graph_create_node_def create_task_node_def graph_update_node_def parse_graph_uuid_def
      update_task_node_def select_one_def upd_where_def lay updated_node_def coalesce_def demo_stored_def demo_placed_def demo_graph_def demo_env_def
      demo_issue_def int32_of_small Let_def)
  have edges: "dag_edges_from demo_read_uuid (\<lambda>i. demo_env (i + 8)) (gs_nodes demo_stored) (demo_stored\<lparr>gs_edges := []\<rparr>) 0 [(1, 0), (0, 1)] =
      (demo_stored, Inr (gs_edges demo_stored))"
    by (simp add: node_at_def graph_create_edge_def create_task_edge_def parse_graph_uuid_def demo_read_uuid demo_stored_def demo_placed_def
      demo_waits_def demo_env_def Let_def)
  have "plan_edges demo_cycle = [(1, 0), (0, 1)]" by (simp add: plan_edges_def demo_cycle_def)
  with nodes edges have "write_plan demo_planner (\<lambda>i. demo_env (i + 5)) (\<lambda>i. demo_env (i + 8)) demo_graph (uuid_text 1) (uuid_text 30) demo_reply =
      (demo_stored, Inr \<lparr>dr_nodes = gs_nodes demo_stored, dr_edges = gs_edges demo_stored, dr_plan = ''p'', dr_usage = None\<rparr>)"
    by (simp add: write_plan_def demo_reply_def asg create_dag_nodes_def create_dag_edges_def demo_planner_def)
  then show ?thesis by (simp only: decompose_issue_eq demo_accepted sum.case)
qed

theorem graph_mirrors_plan_witness:
  "\<exists>plan. validate_dag plan (do_max_nodes (default_decompose_opts demo_opts)) = None \<and>
     map gn_type (gs_nodes demo_stored) = map pn_type (pr_nodes plan) \<and>
     map (\<lambda>x. (ge_from x, ge_to x)) (gs_edges demo_stored) =
       map (\<lambda>(k, i). (gn_id (gs_nodes demo_stored ! nat k), gn_id (gs_nodes demo_stored ! i))) (plan_edges (pr_nodes plan)) \<and>
     map (\<lambda>x. (ge_from x, ge_to x)) (gs_edges demo_stored) = [(6000, 5000), (5000, 6000)]"
proof -
  have "reads (pl_graph_uuid demo_planner) (gn_id ` set (gs_nodes demo_stored))"
    by (simp add: reads_def demo_planner_def demo_stored_def demo_placed_def demo_read_uuid)
  moreover have "distinct (map gn_id (gs_nodes demo_stored))" by (simp add: demo_stored_def demo_placed_def)
  moreover have "map (\<lambda>x. (ge_from x, ge_to x)) (gs_edges demo_stored) = [(6000, 5000), (5000, 6000)]"
    by (simp add: demo_stored_def demo_waits_def)
  ultimately show ?thesis using graph_mirrors_plan [OF demo_decomposed] by auto
qed

theorem decompose_only_adds_witness: "\<exists>xs. gs_edges demo_stored = gs_edges demo_graph @ xs"
  using decompose_only_adds [OF demo_decomposed] by blast

end
