(* ===== verification/RealtimeHub.thy ===== *)
theory RealtimeHub
  imports EventBus
begin

text \<open>
  The WebSocket hub (\<^verbatim>\<open>server/internal/realtime/hub.go\<close>): connections, rooms, the loop of the hub,
  the two senders that run beside it and the pumps of every connection, as a step relation over the
  goroutines. The lock of the hub is explicit: a goroutine that iterates over the rooms holds it for
  reading until its loop ends, and whoever changes the rooms waits until nobody does.
\<close>

section \<open>Connections\<close>

text \<open>
  A message is the bytes handed to a connection. The audience is the call it comes from; it is not on
  the wire.
\<close>

datatype audience = Everybody | InWorkspace string | ForUser string

datatype hub_message = Pong | Out audience json

record ws_client =
  wc_user :: string
  wc_workspace :: string
  wc_rooms :: "string list"
  wc_send :: "hub_message list"
  wc_closed :: bool
  wc_written :: "hub_message list"

definition new_client :: "string \<Rightarrow> string \<Rightarrow> ws_client" where
  "new_client u w = \<lparr>wc_user = u, wc_workspace = w, wc_rooms = [w], wc_send = [], wc_closed = False, wc_written = []\<rparr>"

definition join_room :: "string \<Rightarrow> ws_client \<Rightarrow> ws_client" where
  "join_room w c = c\<lparr>wc_rooms := List.insert w (wc_rooms c)\<rparr>"

definition leave_room :: "string \<Rightarrow> ws_client \<Rightarrow> ws_client" where
  "leave_room w c = c\<lparr>wc_rooms := removeAll w (wc_rooms c)\<rparr>"

definition is_in_room :: "string \<Rightarrow> ws_client \<Rightarrow> bool" where
  "is_in_room w c \<longleftrightarrow> w \<in> set (wc_rooms c)"

text \<open>Sending on the buffered channel of a connection; on a closed channel it is a panic of the server.\<close>

definition send_capacity :: nat where "send_capacity = 256"

datatype send_outcome = Sent ws_client | BufferFull | SendOnClosed

definition try_send :: "hub_message \<Rightarrow> ws_client \<Rightarrow> send_outcome" where
  "try_send m c = (if wc_closed c then SendOnClosed
     else if length (wc_send c) < send_capacity then Sent (c\<lparr>wc_send := wc_send c @ [m]\<rparr>) else BufferFull)"

section \<open>Rooms\<close>

text \<open>Connections are objects, named by their place in the list of all that were ever made.\<close>

record hub =
  hb_clients :: "ws_client list"
  hb_rooms :: "(string \<times> nat list) list"

definition new_hub :: hub where
  "new_hub = \<lparr>hb_clients = [], hb_rooms = []\<rparr>"

definition room_of :: "hub \<Rightarrow> string \<Rightarrow> nat list" where
  "room_of h w = (case map_of (hb_rooms h) w of None \<Rightarrow> [] | Some cs \<Rightarrow> cs)"

definition set_room :: "string \<Rightarrow> nat list \<Rightarrow> hub \<Rightarrow> hub" where
  "set_room w cs h = h\<lparr>hb_rooms := (if cs = [] then [] else [(w, cs)]) @ filter (\<lambda>(k, _). k \<noteq> w) (hb_rooms h)\<rparr>"

definition change_client :: "nat \<Rightarrow> (ws_client \<Rightarrow> ws_client) \<Rightarrow> hub \<Rightarrow> hub" where
  "change_client c f h = h\<lparr>hb_clients := (hb_clients h)[c := f (hb_clients h ! c)]\<rparr>"

definition close_send :: "ws_client \<Rightarrow> ws_client" where
  "close_send c = c\<lparr>wc_closed := True\<rparr>"

definition add_to_room :: "nat \<Rightarrow> hub \<Rightarrow> hub" where
  "add_to_room c h = (let w = wc_workspace (hb_clients h ! c) in set_room w (List.insert c (room_of h w)) h)"

text \<open>\<^verbatim>\<open>delete(clients, client); close(client.send); if len(clients) == 0 { delete(h.rooms, room) }\<close>\<close>

definition drop_from_room :: "nat \<times> string \<Rightarrow> hub \<Rightarrow> hub" where
  "drop_from_room cw h = (case cw of (c, w) \<Rightarrow>
     if c \<in> set (room_of h w) then change_client c close_send (set_room w (removeAll c (room_of h w)) h) else h)"

definition hub_members :: "hub \<Rightarrow> (nat \<times> string) list" where
  "hub_members h = concat (map (\<lambda>(w, cs). map (\<lambda>c. (c, w)) cs) (hb_rooms h))"

text \<open>The connections of a user, without those in the excluded room (\<^verbatim>\<open>""\<close> excludes the room of that name).\<close>

definition user_targets :: "hub \<Rightarrow> string \<Rightarrow> string \<Rightarrow> (nat \<times> string) list" where
  "user_targets h u exclude = filter (\<lambda>(c, w). w \<noteq> exclude \<and> wc_user (hb_clients h ! c) = u) (hub_members h)"

section \<open>Opening a connection\<close>

record ws_request =
  wr_token :: string
  wr_authorization :: string
  wr_workspace :: string

datatype ws_answer = Refused int string | Upgraded string string

text \<open>
  The authenticator (possibly none), the membership check and the upgrade of the connection are
  parameters.
\<close>

definition bearer :: string where "bearer = ''Bearer ''"

definition ws_token :: "ws_request \<Rightarrow> string" where
  "ws_token r = (if wr_token r = '''' \<and> has_prefix (wr_authorization r) bearer then drop (length bearer) (wr_authorization r)
     else wr_token r)"

definition handle_websocket ::
    "(string \<Rightarrow> string option) option \<Rightarrow> (string \<Rightarrow> string \<Rightarrow> bool) \<Rightarrow> bool \<Rightarrow> ws_request \<Rightarrow> ws_answer" where
  "handle_websocket auth is_member upgrades r =
     (if has_prefix (wr_token r) ''mul_'' then Refused 401 ''personal access tokens must use the authorization header''
      else if ws_token r = '''' \<or> wr_workspace r = '''' then Refused 401 ''token and workspace_id required''
      else case auth of
        None \<Rightarrow> Refused 401 ''invalid token''
      | Some authenticate \<Rightarrow>
          (case authenticate (ws_token r) of
             None \<Rightarrow> Refused 401 ''invalid token''
           | Some u \<Rightarrow>
               if trim_space u = '''' then Refused 401 ''invalid token''
               else if \<not> is_member u (wr_workspace r) then Refused 403 ''not a member of this workspace''
               else if \<not> upgrades then Refused 0 ''websocket upgrade failed''
               else Upgraded u (wr_workspace r)))"

section \<open>Goroutines\<close>

text \<open>
  \<open>Entering\<close> and \<open>Leaving\<close> wait for the loop of the hub; \<open>Reading\<close>, \<open>Ponging\<close> and \<open>Writing\<close> are the
  pumps of a connection; \<open>Flooding\<close> is the loop of the hub in a broadcast and \<open>FloodCleaning\<close> the same
  waiting for the lock; \<open>Casting\<close> and \<open>Mailing\<close> are \<^verbatim>\<open>BroadcastToWorkspace\<close> and \<^verbatim>\<open>SendToUser\<close>, with
  the connections still to be served and those that were too slow; \<open>Evicting\<close> removes the slow ones.
\<close>

datatype goroutine =
    Entering nat
  | Leaving nat
  | Reading nat
  | Ponging nat
  | Writing nat
  | Flooding hub_message "nat list" "nat list"
  | FloodCleaning "nat list"
  | Casting string hub_message "nat list" "nat list"
  | Mailing hub_message "(nat \<times> string) list" "(nat \<times> string) list"
  | Evicting "(nat \<times> string) list"

fun reads_rooms :: "goroutine \<Rightarrow> bool" where
  "reads_rooms (Flooding m todo slow) = True"
| "reads_rooms (Casting w m todo slow) = True"
| "reads_rooms g = False"

fun hub_loop_busy :: "goroutine \<Rightarrow> bool" where
  "hub_loop_busy (Flooding m todo slow) = True"
| "hub_loop_busy (FloodCleaning slow) = True"
| "hub_loop_busy g = False"

datatype inbound = Ping | SubscribeTo string | UnsubscribeFrom string | OtherEvent

text \<open>Rooms a connection joins or leaves by a message of its own.\<close>

fun inbound_rooms :: "inbound \<Rightarrow> ws_client \<Rightarrow> ws_client" where
  "inbound_rooms (SubscribeTo w) c = (if w = '''' then c else join_room w c)"
| "inbound_rooms (UnsubscribeFrom w) c = (if w = '''' then c else leave_room w c)"
| "inbound_rooms ev c = c"

fun after_inbound :: "inbound \<Rightarrow> nat \<Rightarrow> goroutine" where
  "after_inbound Ping c = Ponging c"
| "after_inbound ev c = Reading c"

record hub_system =
  hs_hub :: hub
  hs_go :: "goroutine list"
  hs_lost :: "(hub_message \<times> nat list) list"
  hs_panic :: bool

definition hub_start :: hub_system where
  "hub_start = \<lparr>hs_hub = new_hub, hs_go = [], hs_lost = [], hs_panic = False\<rparr>"

text \<open>
  The two senders are called by listeners of the event bus, which recovers from a panic: the call of
  \<^verbatim>\<open>SendToUser\<close> ends, and the connections it had still to serve are recorded in \<open>hs_lost\<close>. A panic
  anywhere else, or while the lock is held, is \<open>hs_panic\<close>: the end of the process or of the hub.
\<close>

fun recovered :: "goroutine \<Rightarrow> (hub_message \<times> nat list) option" where
  "recovered (Mailing m todo slow) = Some (m, map fst todo)"
| "recovered g = None"

text \<open>
  One connection of a loop over connections: the goroutine that goes on, and the hub, or a panic.
\<close>

definition serve :: "hub_message \<Rightarrow> nat \<Rightarrow> hub \<Rightarrow> goroutine \<Rightarrow> goroutine \<Rightarrow> (hub \<times> goroutine) option" where
  "serve m c h served slow =
     (case try_send m (hb_clients h ! c) of
        Sent x \<Rightarrow> Some (change_client c (\<lambda>_. x) h, served)
      | BufferFull \<Rightarrow> Some (h, slow)
      | SendOnClosed \<Rightarrow> None)"

text \<open>
  What a running goroutine does next, where that needs no lock: its new self (or its end) and the hub,
  or a panic. Senders over connections go on one connection at a time.
\<close>

definition after_slow :: "goroutine \<Rightarrow> 'a list \<Rightarrow> goroutine list" where
  "after_slow g slow = (if slow = [] then [] else [g])"

fun go_next :: "hub \<Rightarrow> goroutine \<Rightarrow> (hub \<times> goroutine list) option" where
  "go_next h (Flooding m (c # todo) slow) =
     map_option (apsnd (\<lambda>g. [g])) (serve m c h (Flooding m todo slow) (Flooding m todo (slow @ [c])))"
| "go_next h (Flooding m [] slow) = Some (h, after_slow (FloodCleaning slow) slow)"
| "go_next h (Casting w m (c # todo) slow) =
     (if wc_workspace (hb_clients h ! c) = w \<and> is_in_room w (hb_clients h ! c)
      then map_option (apsnd (\<lambda>g. [g])) (serve m c h (Casting w m todo slow) (Casting w m todo (slow @ [c])))
      else Some (h, [Casting w m todo slow]))"
| "go_next h (Casting w m [] slow) = Some (h, after_slow (Evicting (map (\<lambda>c. (c, w)) slow)) slow)"
| "go_next h (Mailing m (cw # todo) slow) =
     map_option (apsnd (\<lambda>g. [g])) (serve m (fst cw) h (Mailing m todo slow) (Mailing m todo (slow @ [cw])))"
| "go_next h (Mailing m [] slow) = Some (h, after_slow (Evicting slow) slow)"
| "go_next h g = Some (h, [g])"

text \<open>
  \<^verbatim>\<open>pong\<close> and \<^verbatim>\<open>pong_closed\<close> are the blocking send of the answer to a ping; the order in which a Go map is
  iterated is any order.
\<close>

inductive hub_step :: "hub_system \<Rightarrow> hub_system \<Rightarrow> bool" where
  connect: "handle_websocket auth is_member True r = Upgraded u w \<Longrightarrow> \<not> hs_panic s \<Longrightarrow>
    hub_step s (s\<lparr>hs_hub := hs_hub s\<lparr>hb_clients := hb_clients (hs_hub s) @ [new_client u w]\<rparr>,
                  hs_go := hs_go s @ [Entering (length (hb_clients (hs_hub s)))]\<rparr>)"
| enter: "hs_go s = gs @ Entering c # gs' \<Longrightarrow> \<not> hs_panic s \<Longrightarrow> list_all (\<lambda>g. \<not> reads_rooms g \<and> \<not> hub_loop_busy g) (hs_go s) \<Longrightarrow>
    hub_step s (s\<lparr>hs_hub := add_to_room c (hs_hub s), hs_go := gs @ [Writing c, Reading c] @ gs'\<rparr>)"
| leave: "hs_go s = gs @ Leaving c # gs' \<Longrightarrow> \<not> hs_panic s \<Longrightarrow> list_all (\<lambda>g. \<not> reads_rooms g \<and> \<not> hub_loop_busy g) (hs_go s) \<Longrightarrow>
    hub_step s (s\<lparr>hs_hub := drop_from_room (c, wc_workspace (hb_clients (hs_hub s) ! c)) (hs_hub s), hs_go := gs @ gs'\<rparr>)"
| inbound: "hs_go s = gs @ Reading c # gs' \<Longrightarrow> \<not> hs_panic s \<Longrightarrow>
    hub_step s (s\<lparr>hs_hub := change_client c (inbound_rooms ev) (hs_hub s), hs_go := gs @ after_inbound ev c # gs'\<rparr>)"
| read_end: "hs_go s = gs @ Reading c # gs' \<Longrightarrow> \<not> hs_panic s \<Longrightarrow> hub_step s (s\<lparr>hs_go := gs @ Leaving c # gs'\<rparr>)"
| pong: "hs_go s = gs @ Ponging c # gs' \<Longrightarrow> \<not> hs_panic s \<Longrightarrow> try_send Pong (hb_clients (hs_hub s) ! c) = Sent x \<Longrightarrow>
    hub_step s (s\<lparr>hs_hub := change_client c (\<lambda>_. x) (hs_hub s), hs_go := gs @ Reading c # gs'\<rparr>)"
| pong_closed: "hs_go s = gs @ Ponging c # gs' \<Longrightarrow> \<not> hs_panic s \<Longrightarrow> try_send Pong (hb_clients (hs_hub s) ! c) = SendOnClosed \<Longrightarrow>
    hub_step s (s\<lparr>hs_panic := True\<rparr>)"
| written: "hs_go s = gs @ Writing c # gs' \<Longrightarrow> \<not> hs_panic s \<Longrightarrow> wc_send (hb_clients (hs_hub s) ! c) = m # rest \<Longrightarrow>
    hub_step s (s\<lparr>hs_hub := change_client c (\<lambda>x. x\<lparr>wc_send := rest, wc_written := wc_written x @ [m]\<rparr>) (hs_hub s)\<rparr>)"
| write_end: "hs_go s = gs @ Writing c # gs' \<Longrightarrow> \<not> hs_panic s \<Longrightarrow> hub_step s (s\<lparr>hs_go := gs @ gs'\<rparr>)"
| flood: "\<not> hs_panic s \<Longrightarrow> list_all (\<lambda>g. \<not> hub_loop_busy g) (hs_go s) \<Longrightarrow> distinct cs \<Longrightarrow> set cs = fst ` set (hub_members (hs_hub s)) \<Longrightarrow>
    hub_step s (s\<lparr>hs_go := hs_go s @ [Flooding (Out Everybody j) cs []]\<rparr>)"
| cast: "\<not> hs_panic s \<Longrightarrow> distinct cs \<Longrightarrow> set cs = fst ` set (hub_members (hs_hub s)) \<Longrightarrow>
    hub_step s (s\<lparr>hs_go := hs_go s @ [Casting w (Out (InWorkspace w) j) cs []]\<rparr>)"
| mail: "\<not> hs_panic s \<Longrightarrow> distinct ts \<Longrightarrow> set ts = set (user_targets (hs_hub s) u exclude) \<Longrightarrow>
    hub_step s (s\<lparr>hs_go := hs_go s @ [Mailing (Out (ForUser u) j) ts []]\<rparr>)"
| next_go: "hs_go s = gs @ g # gs' \<Longrightarrow> \<not> hs_panic s \<Longrightarrow> go_next (hs_hub s) g = Some (h, new) \<Longrightarrow>
    hub_step s (s\<lparr>hs_hub := h, hs_go := gs @ new @ gs'\<rparr>)"
| go_panic: "hs_go s = gs @ g # gs' \<Longrightarrow> \<not> hs_panic s \<Longrightarrow> go_next (hs_hub s) g = None \<Longrightarrow> recovered g = None \<Longrightarrow>
    hub_step s (s\<lparr>hs_panic := True\<rparr>)"
| go_recovered: "hs_go s = gs @ g # gs' \<Longrightarrow> \<not> hs_panic s \<Longrightarrow> go_next (hs_hub s) g = None \<Longrightarrow> recovered g = Some mcs \<Longrightarrow>
    hub_step s (s\<lparr>hs_go := gs @ gs', hs_lost := hs_lost s @ [mcs]\<rparr>)"
| flood_clean: "hs_go s = gs @ FloodCleaning slow # gs' \<Longrightarrow> \<not> hs_panic s \<Longrightarrow> list_all (\<lambda>g. \<not> reads_rooms g) (hs_go s) \<Longrightarrow>
    hub_step s (s\<lparr>hs_hub := fold (\<lambda>c h. drop_from_room (c, wc_workspace (hb_clients h ! c)) h) slow (hs_hub s), hs_go := gs @ gs'\<rparr>)"
| evict: "hs_go s = gs @ Evicting slow # gs' \<Longrightarrow> \<not> hs_panic s \<Longrightarrow> list_all (\<lambda>g. \<not> reads_rooms g) (hs_go s) \<Longrightarrow>
    hub_step s (s\<lparr>hs_hub := fold drop_from_room slow (hs_hub s), hs_go := gs @ gs'\<rparr>)"

definition hub_reachable :: "hub_system \<Rightarrow> bool" where
  "hub_reachable s \<longleftrightarrow> hub_step\<^sup>*\<^sup>* hub_start s"

end
