(* ===== verification/RealtimeProps.thy ===== *)
theory RealtimeProps
  imports RealtimeHub
begin

text \<open>
  The invariant of the hub, who receives which message, and which goroutines can send on a closed
  channel.
\<close>

section \<open>The invariant\<close>

fun fits :: "ws_client \<Rightarrow> hub_message \<Rightarrow> bool" where
  "fits c Pong = True"
| "fits c (Out Everybody j) = True"
| "fits c (Out (InWorkspace w) j) = (wc_workspace c = w)"
| "fits c (Out (ForUser u) j) = (wc_user c = u)"

lemma fits_same: "wc_user c = wc_user d \<Longrightarrow> wc_workspace c = wc_workspace d \<Longrightarrow> fits c = fits d"
  by (rule ext) (metis (full_types) audience.exhaust fits.simps hub_message.exhaust)

definition client_ok :: "ws_client \<Rightarrow> bool" where
  "client_ok c \<longleftrightarrow> list_all (fits c) (wc_send c @ wc_written c) \<and> length (wc_send c) \<le> send_capacity"

lemma client_ok_close: "client_ok c \<Longrightarrow> client_ok (close_send c)"
  using fits_same [of "close_send c" c] by (simp add: client_ok_def close_send_def)

definition in_room :: "hub \<Rightarrow> nat \<Rightarrow> string \<Rightarrow> bool" where
  "in_room h c w \<longleftrightarrow> c \<in> set (room_of h w)"

definition live_in :: "hub \<Rightarrow> nat \<Rightarrow> string \<Rightarrow> bool" where
  "live_in h c w \<longleftrightarrow> c < length (hb_clients h) \<and> wc_workspace (hb_clients h ! c) = w \<and> \<not> wc_closed (hb_clients h ! c)"

definition rooms_ok :: "hub \<Rightarrow> bool" where
  "rooms_ok h \<longleftrightarrow> distinct (map fst (hb_rooms h)) \<and> (\<forall>(w, cs)\<in>set (hb_rooms h). cs \<noteq> [] \<and> distinct cs) \<and>
     (\<forall>c w. in_room h c w \<longrightarrow> live_in h c w)"

definition is_member_of :: "hub \<Rightarrow> nat \<Rightarrow> bool" where
  "is_member_of h c \<longleftrightarrow> (\<exists>w. in_room h c w)"

definition known :: "hub \<Rightarrow> nat list \<Rightarrow> bool" where
  "known h cs \<longleftrightarrow> list_all (\<lambda>c. c < length (hb_clients h)) cs"

fun go_ok :: "hub \<Rightarrow> goroutine \<Rightarrow> bool" where
  "go_ok h (Entering c) \<longleftrightarrow> known h [c] \<and> \<not> wc_closed (hb_clients h ! c) \<and> \<not> is_member_of h c"
| "go_ok h (Leaving c) \<longleftrightarrow> known h [c]"
| "go_ok h (Reading c) \<longleftrightarrow> known h [c]"
| "go_ok h (Ponging c) \<longleftrightarrow> known h [c]"
| "go_ok h (Writing c) \<longleftrightarrow> known h [c]"
| "go_ok h (Flooding m todo slow) \<longleftrightarrow> (\<exists>j. m = Out Everybody j) \<and> list_all (is_member_of h) todo"
| "go_ok h (FloodCleaning slow) \<longleftrightarrow> True"
| "go_ok h (Casting w m todo slow) \<longleftrightarrow> (\<exists>j. m = Out (InWorkspace w) j) \<and> list_all (is_member_of h) todo"
| "go_ok h (Mailing m todo slow) \<longleftrightarrow> (\<exists>u j. m = Out (ForUser u) j \<and>
     list_all (\<lambda>(c, w). c < length (hb_clients h) \<and> wc_user (hb_clients h ! c) = u) todo)"
| "go_ok h (Evicting slow) \<longleftrightarrow> True"

fun entering :: "goroutine \<Rightarrow> nat list" where
  "entering (Entering c) = [c]"
| "entering g = []"

definition hub_ok :: "hub_system \<Rightarrow> bool" where
  "hub_ok s \<longleftrightarrow> rooms_ok (hs_hub s) \<and> list_all client_ok (hb_clients (hs_hub s)) \<and>
     list_all (go_ok (hs_hub s)) (hs_go s) \<and> distinct (concat (map entering (hs_go s)))"

section \<open>Rooms\<close>

lemma room_of_set_room: "room_of (set_room w cs h) v = (if v = w then cs else room_of h v)"
  by (simp add: room_of_def set_room_def map_add_def map_of_drop_key)

lemma room_of_change [simp]: "room_of (change_client c f h) w = room_of h w"
  by (simp add: room_of_def change_client_def)

lemma set_room_clients [simp]: "hb_clients (set_room w cs h) = hb_clients h"
  by (simp add: set_room_def)

lemma change_client_rooms [simp]: "hb_rooms (change_client c f h) = hb_rooms h"
  by (simp add: change_client_def)

lemma distinct_drop_key: "distinct (map fst m) \<Longrightarrow> distinct (map fst (filter (\<lambda>(k, _). k \<noteq> w) m))"
  by (induction m) auto

lemma set_room_rooms:
  assumes "distinct (map fst (hb_rooms h))" "\<forall>(w, cs)\<in>set (hb_rooms h). cs \<noteq> [] \<and> distinct cs" "distinct cs"
  shows "distinct (map fst (hb_rooms (set_room w cs h)))" "\<forall>(w, cs)\<in>set (hb_rooms (set_room w cs h)). cs \<noteq> [] \<and> distinct cs"
  using assms by (auto simp: set_room_def distinct_drop_key)

lemma distinct_room: "rooms_ok h \<Longrightarrow> distinct (room_of h w)"
  by (auto simp: rooms_ok_def room_of_def split: option.splits dest!: map_of_SomeD)

lemma hub_members_iff: "rooms_ok h \<Longrightarrow> (c, w) \<in> set (hub_members h) \<longleftrightarrow> in_room h c w"
proof -
  assume "rooms_ok h"
  then have d: "distinct (map fst (hb_rooms h))" by (simp add: rooms_ok_def)
  have "(c, w) \<in> set (hub_members h) \<longleftrightarrow> (\<exists>cs. (w, cs) \<in> set (hb_rooms h) \<and> c \<in> set cs)"
    by (auto simp: hub_members_def)
  also have "\<dots> \<longleftrightarrow> in_room h c w"
    using d by (auto simp: in_room_def room_of_def split: option.splits dest: map_of_SomeD)
  finally show ?thesis .
qed

lemma member_images: "rooms_ok h \<Longrightarrow> c \<in> fst ` set (hub_members h) \<longleftrightarrow> is_member_of h c"
  by (force simp: is_member_of_def hub_members_iff [symmetric])

lemma member_live: "rooms_ok h \<Longrightarrow> is_member_of h c \<Longrightarrow> c < length (hb_clients h) \<and> \<not> wc_closed (hb_clients h ! c)"
  by (auto simp: is_member_of_def rooms_ok_def live_in_def)

section \<open>Changes of one connection that keep who it is\<close>

definition keeps :: "hub \<Rightarrow> hub \<Rightarrow> bool" where
  "keeps h h' \<longleftrightarrow> hb_rooms h' = hb_rooms h \<and> length (hb_clients h) \<le> length (hb_clients h') \<and>
     (\<forall>c<length (hb_clients h). wc_user (hb_clients h' ! c) = wc_user (hb_clients h ! c) \<and>
        wc_workspace (hb_clients h' ! c) = wc_workspace (hb_clients h ! c) \<and> wc_closed (hb_clients h' ! c) = wc_closed (hb_clients h ! c))"

lemma keeps_refl [simp]: "keeps h h"
  by (simp add: keeps_def)

lemma keeps_rooms: "keeps h h' \<Longrightarrow> in_room h' c w = in_room h c w" "keeps h h' \<Longrightarrow> is_member_of h' = is_member_of h"
  by (simp_all add: keeps_def in_room_def room_of_def is_member_of_def fun_eq_iff)

lemma keeps_client:
  "keeps h h' \<Longrightarrow> c < length (hb_clients h) \<Longrightarrow> c < length (hb_clients h') \<and> wc_user (hb_clients h' ! c) = wc_user (hb_clients h ! c) \<and>
     wc_workspace (hb_clients h' ! c) = wc_workspace (hb_clients h ! c) \<and> wc_closed (hb_clients h' ! c) = wc_closed (hb_clients h ! c)"
  by (simp add: keeps_def)

lemma keeps_rooms_ok: "keeps h h' \<Longrightarrow> rooms_ok h \<Longrightarrow> rooms_ok h'"
  using keeps_client [of h h'] by (simp add: rooms_ok_def live_in_def keeps_rooms) (simp add: keeps_def)

lemma keeps_targets:
  "keeps h h' \<Longrightarrow> list_all (\<lambda>(c, w). c < length (hb_clients h) \<and> wc_user (hb_clients h ! c) = u) ts \<Longrightarrow>
     list_all (\<lambda>(c, w). c < length (hb_clients h') \<and> wc_user (hb_clients h' ! c) = u) ts"
  using keeps_client [of h h'] by (induction ts) auto

lemma keeps_go_ok: "keeps h h' \<Longrightarrow> go_ok h g \<Longrightarrow> go_ok h' g"
  using keeps_client [of h h'] keeps_targets [of h h'] by (cases g) (auto simp: keeps_rooms known_def)

lemma keeps_change:
  assumes "c < length (hb_clients h)" "\<And>x. wc_user (f x) = wc_user x \<and> wc_workspace (f x) = wc_workspace x \<and> wc_closed (f x) = wc_closed x"
  shows "keeps h (change_client c f h)"
  using assms by (auto simp: keeps_def change_client_def nth_list_update)

lemma clients_change:
  assumes "list_all client_ok (hb_clients h)" "c < length (hb_clients h)" "client_ok (f (hb_clients h ! c))"
  shows "list_all client_ok (hb_clients (change_client c f h))"
  using assms by (auto simp: change_client_def list_all_length nth_list_update)

section \<open>Who changes the rooms\<close>

text \<open>A change of the rooms under the lock: connections stay who they are; members may leave, and are then closed.\<close>

definition shrinks :: "hub \<Rightarrow> hub \<Rightarrow> bool" where
  "shrinks h h' \<longleftrightarrow> rooms_ok h' \<and> length (hb_clients h') = length (hb_clients h) \<and>
     (\<forall>c. is_member_of h' c \<longrightarrow> is_member_of h c) \<and> (list_all client_ok (hb_clients h) \<longrightarrow> list_all client_ok (hb_clients h')) \<and>
     (\<forall>c<length (hb_clients h). wc_user (hb_clients h' ! c) = wc_user (hb_clients h ! c) \<and>
        (wc_closed (hb_clients h' ! c) \<longrightarrow> wc_closed (hb_clients h ! c) \<or> is_member_of h c))"

lemma shrinks_refl: "rooms_ok h \<Longrightarrow> shrinks h h"
  by (simp add: shrinks_def)

lemma shrinks_trans: "shrinks a b \<Longrightarrow> shrinks b c \<Longrightarrow> shrinks a c"
  by (simp add: shrinks_def) blast

lemma shrinks_go_ok:
  assumes "shrinks h h'" "go_ok h g" "\<not> reads_rooms g"
  shows "go_ok h' g"
proof -
  have "list_all (\<lambda>(c, w). c < length (hb_clients h) \<and> wc_user (hb_clients h ! c) = u) ts \<Longrightarrow>
     list_all (\<lambda>(c, w). c < length (hb_clients h') \<and> wc_user (hb_clients h' ! c) = u) ts" for u and ts :: "(nat \<times> string) list"
    using assms(1) by (induction ts) (auto simp: shrinks_def)
  with assms show ?thesis by (cases g) (auto simp: shrinks_def known_def)
qed

lemma drop_shrinks: "rooms_ok h \<Longrightarrow> shrinks h (drop_from_room cw h)"
proof -
  assume ok: "rooms_ok h"
  obtain c w where cw: "cw = (c, w)" by (cases cw)
  show ?thesis
  proof (cases "in_room h c w")
    case False
    with ok show ?thesis by (simp add: drop_from_room_def cw in_room_def shrinks_refl)
  next
    case True
    let ?h = "change_client c close_send (set_room w (removeAll c (room_of h w)) h)"
    from True ok have live: "c < length (hb_clients h)" "wc_workspace (hb_clients h ! c) = w" by (auto simp: rooms_ok_def live_in_def)
    have drop: "drop_from_room cw h = ?h" using True by (simp add: drop_from_room_def cw in_room_def)
    have at: "hb_clients ?h ! i = (if i = c then close_send (hb_clients h ! c) else hb_clients h ! i)" if "i < length (hb_clients h)" for i
      using that live by (simp add: change_client_def nth_list_update)
    have len: "length (hb_clients ?h) = length (hb_clients h)" by (simp add: change_client_def)
    have rooms: "in_room ?h i v \<longleftrightarrow> in_room h i v \<and> \<not> (i = c \<and> v = w)" for i v
      by (auto simp: in_room_def room_of_set_room)
    have apart: "v = w" if "in_room h c v" for v using that ok live by (auto simp: rooms_ok_def live_in_def)
    have "live_in ?h i v" if "in_room ?h i v" for i v
    proof -
      from that apart have "in_room h i v" "i \<noteq> c" by (auto simp: rooms)
      with ok show ?thesis by (auto simp: rooms_ok_def live_in_def len at)
    qed
    moreover have "distinct (map fst (hb_rooms ?h))" "\<forall>(w, cs)\<in>set (hb_rooms ?h). cs \<noteq> [] \<and> distinct cs"
      using set_room_rooms [of h "removeAll c (room_of h w)" w] ok distinct_room [OF ok, of w]
      unfolding change_client_rooms rooms_ok_def by (blast intro: distinct_removeAll)+
    ultimately have "rooms_ok ?h" unfolding rooms_ok_def by blast
    moreover have "list_all client_ok (hb_clients h) \<Longrightarrow> list_all client_ok (hb_clients ?h)"
      using clients_change [of "set_room w (removeAll c (room_of h w)) h" c close_send] live
      by (simp add: client_ok_close list_all_length)
    moreover have "is_member_of ?h i \<Longrightarrow> is_member_of h i" for i using rooms by (auto simp: is_member_of_def)
    moreover have "is_member_of h c" using True by (auto simp: is_member_of_def)
    then have "\<forall>i<length (hb_clients h). wc_user (hb_clients ?h ! i) = wc_user (hb_clients h ! i) \<and>
        (wc_closed (hb_clients ?h ! i) \<longrightarrow> wc_closed (hb_clients h ! i) \<or> is_member_of h i)"
      by (simp add: at close_send_def del: change_client_rooms)
    ultimately show ?thesis unfolding drop shrinks_def using len by blast
  qed
qed

lemma fold_drop_shrinks: "rooms_ok h \<Longrightarrow> shrinks h (fold (\<lambda>x h. drop_from_room (f x h) h) xs h)"
proof (induction xs arbitrary: h)
  case (Cons x xs)
  have s: "shrinks h (drop_from_room (f x h) h)" by (rule drop_shrinks [OF Cons.prems])
  then have "rooms_ok (drop_from_room (f x h) h)" by (simp add: shrinks_def)
  from shrinks_trans [OF s Cons.IH [OF this]] show ?case by simp
qed (simp add: shrinks_refl)

lemma add_to_room_ok:
  assumes "rooms_ok h" "c < length (hb_clients h)" "\<not> wc_closed (hb_clients h ! c)"
  shows "rooms_ok (add_to_room c h)" "is_member_of (add_to_room c h) i \<longleftrightarrow> i = c \<or> is_member_of h i" "hb_clients (add_to_room c h) = hb_clients h"
proof -
  let ?w = "wc_workspace (hb_clients h ! c)"
  have rooms: "in_room (add_to_room c h) i v \<longleftrightarrow> in_room h i v \<or> i = c \<and> v = ?w" for i v
    by (auto simp: in_room_def add_to_room_def Let_def room_of_set_room)
  show cl: "hb_clients (add_to_room c h) = hb_clients h" by (simp add: add_to_room_def Let_def)
  have "distinct (map fst (hb_rooms (add_to_room c h)))" "\<forall>(w, cs)\<in>set (hb_rooms (add_to_room c h)). cs \<noteq> [] \<and> distinct cs"
    using set_room_rooms [of h "List.insert c (room_of h ?w)" ?w] assms(1) distinct_room [OF assms(1), of ?w]
    unfolding add_to_room_def Let_def rooms_ok_def distinct_insert by blast+
  moreover have "live_in (add_to_room c h) i v" if "in_room (add_to_room c h) i v" for i v
    using that assms unfolding rooms live_in_def cl rooms_ok_def by auto
  ultimately show "rooms_ok (add_to_room c h)" unfolding rooms_ok_def by blast
  show "is_member_of (add_to_room c h) i \<longleftrightarrow> i = c \<or> is_member_of h i" by (auto simp: is_member_of_def rooms)
qed

section \<open>One step of a sender\<close>

lemma try_send_ok: "try_send m c = Sent x \<Longrightarrow> fits c m \<Longrightarrow> client_ok c \<Longrightarrow> client_ok x"
  using fits_same [of "c\<lparr>wc_send := wc_send c @ [m]\<rparr>" c] by (auto simp: try_send_def client_ok_def split: if_splits)

lemma try_send_keeps: "try_send m (hb_clients h ! c) = Sent x \<Longrightarrow> c < length (hb_clients h) \<Longrightarrow> keeps h (change_client c (\<lambda>_. x) h)"
  by (auto simp: keeps_def change_client_def nth_list_update try_send_def split: if_splits)

lemma serve_Some:
  assumes "serve m c h a b = Some (h', g)" "c < length (hb_clients h)"
  shows "keeps h h' \<and> (g = a \<or> g = b) \<and> (fits (hb_clients h ! c) m \<longrightarrow> list_all client_ok (hb_clients h) \<longrightarrow> list_all client_ok (hb_clients h'))"
  using assms try_send_keeps [of m h c] try_send_ok [of m "hb_clients h ! c"] clients_change [of h c]
  by (auto simp: serve_def list_all_length split: send_outcome.splits)

lemma serve_None: "serve m c h a b = None \<longleftrightarrow> wc_closed (hb_clients h ! c)"
  by (simp add: serve_def try_send_def split: if_splits)

lemma member_target:
  assumes "rooms_ok h" "is_member_of h c"
  shows "c < length (hb_clients h)" "\<not> wc_closed (hb_clients h ! c)"
  using member_live [OF assms] by simp_all

lemma go_next_ok:
  assumes "rooms_ok h" "list_all client_ok (hb_clients h)" "go_ok h g" "go_next h g = Some (h', new)"
  shows "keeps h h' \<and> list_all client_ok (hb_clients h') \<and> list_all (go_ok h') new \<and> concat (map entering new) = entering g"
  using assms
proof (induction h g rule: go_next.induct)
  case (1 h m c todo slow)
  then have c: "c < length (hb_clients h)" using member_target by simp
  from 1 obtain g' where s: "serve m c h (Flooding m todo slow) (Flooding m todo (slow @ [c])) = Some (h', g')" "new = [g']" by auto
  from 1 obtain j where "m = Out Everybody j" by auto
  with 1 serve_Some [OF s(1) c] s(2) show ?case by (auto simp: keeps_rooms)
next
  case (3 h w m c todo slow)
  then have c: "c < length (hb_clients h)" using member_target by simp
  from 3 obtain j where m: "m = Out (InWorkspace w) j" by auto
  show ?case
  proof (cases "wc_workspace (hb_clients h ! c) = w \<and> is_in_room w (hb_clients h ! c)")
    case True
    with 3 obtain g' where s: "serve m c h (Casting w m todo slow) (Casting w m todo (slow @ [c])) = Some (h', g')" "new = [g']" by auto
    with 3 serve_Some [OF s(1) c] True m show ?thesis by (auto simp: keeps_rooms)
  next
    case False
    with 3 show ?thesis by auto
  qed
next
  case (5 h m cw todo slow)
  then obtain u j where m: "m = Out (ForUser u) j" "fst cw < length (hb_clients h)" "wc_user (hb_clients h ! fst cw) = u"
      "list_all (\<lambda>(c, w). c < length (hb_clients h) \<and> wc_user (hb_clients h ! c) = u) todo" by (cases cw) auto
  from 5 obtain g' where s: "serve m (fst cw) h (Mailing m todo slow) (Mailing m todo (slow @ [cw])) = Some (h', g')" "new = [g']" by auto
  from serve_Some [OF s(1) m(2)] m 5(2) have k: "keeps h h'" "list_all client_ok (hb_clients h')" and
    g: "g' = Mailing m todo slow \<or> g' = Mailing m todo (slow @ [cw])" by auto
  from keeps_targets [OF k(1) m(4)] m(1) have "go_ok h' (Mailing m todo x)" for x by simp
  with k g s(2) show ?case by (elim disjE) simp_all
qed (auto simp: after_slow_def split: if_splits)

section \<open>Every step keeps the invariant\<close>

lemma hub_ok_parts:
  assumes "hub_ok s"
  shows "rooms_ok (hs_hub s)" "list_all client_ok (hb_clients (hs_hub s))" "list_all (go_ok (hs_hub s)) (hs_go s)"
    "distinct (concat (map entering (hs_go s)))"
  using assms by (simp_all add: hub_ok_def)

lemma hub_ok_keeps:
  assumes "hub_ok s" "hs_go s = gs @ old @ gs'" "keeps (hs_hub s) h" "list_all client_ok (hb_clients h)" "list_all (go_ok h) new"
    "concat (map entering new) = concat (map entering old)"
  shows "hub_ok (s\<lparr>hs_hub := h, hs_go := gs @ new @ gs'\<rparr>)"
proof -
  note ok = hub_ok_parts [OF assms(1)]
  have "list_all (go_ok h) gs \<and> list_all (go_ok h) gs'"
    using ok(3) keeps_go_ok [OF assms(3)] unfolding assms(2) by (auto simp: list_all_iff)
  with ok assms keeps_rooms_ok [OF assms(3)] show ?thesis by (simp add: hub_ok_def)
qed

lemma hub_ok_shrinks:
  assumes "hub_ok s" "hs_go s = gs @ old # gs'" "shrinks (hs_hub s) h" "list_all (\<lambda>g. \<not> reads_rooms g) (gs @ gs')"
  shows "hub_ok (s\<lparr>hs_hub := h, hs_go := gs @ gs'\<rparr>)"
proof -
  note ok = hub_ok_parts [OF assms(1)]
  have "list_all (go_ok h) (gs @ gs')"
    using ok(3) shrinks_go_ok [OF assms(3)] assms(4) unfolding assms(2) by (auto simp: list_all_iff)
  with ok assms show ?thesis by (auto simp: hub_ok_def shrinks_def)
qed

lemma entering_known: "hub_ok s \<Longrightarrow> c \<in> set (concat (map entering (hs_go s))) \<Longrightarrow> c < length (hb_clients (hs_hub s))"
proof -
  assume "hub_ok s" "c \<in> set (concat (map entering (hs_go s)))"
  then obtain g where "go_ok (hs_hub s) g" "c \<in> set (entering g)" by (auto simp: hub_ok_def list_all_iff)
  then show ?thesis by (cases g) (auto simp: known_def)
qed

lemma hub_ok_connect:
  assumes "hub_ok s"
  shows "hub_ok (s\<lparr>hs_hub := hs_hub s\<lparr>hb_clients := hb_clients (hs_hub s) @ [new_client u w]\<rparr>,
                  hs_go := hs_go s @ [Entering (length (hb_clients (hs_hub s)))]\<rparr>)"
proof -
  let ?h = "hs_hub s" and ?n = "length (hb_clients (hs_hub s))"
  let ?h' = "?h\<lparr>hb_clients := hb_clients ?h @ [new_client u w]\<rparr>"
  note ok = hub_ok_parts [OF assms]
  have k: "keeps ?h ?h'" by (auto simp: keeps_def nth_append)
  have "\<not> is_member_of ?h ?n" using member_target(1) [OF ok(1)] by blast
  then have "\<not> is_member_of ?h' ?n" unfolding keeps_rooms(2) [OF k] .
  moreover have "\<not> wc_closed (hb_clients ?h' ! ?n)" by (simp add: new_client_def)
  ultimately have "go_ok ?h' (Entering ?n)" by (simp add: known_def)
  moreover have "list_all (go_ok ?h') (hs_go s)" using ok(3) keeps_go_ok [OF k] by (auto simp: list_all_iff)
  moreover have "list_all client_ok (hb_clients ?h')" using ok(2) by (simp add: client_ok_def new_client_def)
  moreover have "?n \<notin> set (concat (map entering (hs_go s)))" using entering_known [OF assms] by blast
  ultimately show ?thesis using ok(4) keeps_rooms_ok [OF k ok(1)] by (simp add: hub_ok_def)
qed

lemma hub_ok_enter:
  assumes "hub_ok s" "hs_go s = gs @ Entering c # gs'" "list_all (\<lambda>g. \<not> reads_rooms g) (hs_go s)"
  shows "hub_ok (s\<lparr>hs_hub := add_to_room c (hs_hub s), hs_go := gs @ [Writing c, Reading c] @ gs'\<rparr>)"
proof -
  let ?h = "hs_hub s"
  note ok = hub_ok_parts [OF assms(1)]
  have c: "c < length (hb_clients ?h)" "\<not> wc_closed (hb_clients ?h ! c)" using ok(3) assms(2) by (simp_all add: known_def)
  note add = add_to_room_ok [OF ok(1) c]
  have other: "c \<notin> set (concat (map entering (gs @ gs')))" using ok(4) unfolding assms(2) by simp
  have "go_ok (add_to_room c ?h) g" if g: "go_ok ?h g" "\<not> reads_rooms g" "c \<notin> set (entering g)" for g
    using g by (cases g) (auto simp: add known_def)
  moreover have "\<forall>g\<in>set (gs @ gs'). go_ok ?h g \<and> \<not> reads_rooms g \<and> c \<notin> set (entering g)"
    using ok(3) assms(3) other unfolding assms(2) by (auto simp: list_all_iff)
  ultimately have "list_all (go_ok (add_to_room c ?h)) (gs @ gs')" by (simp add: list_all_iff)
  with ok(2,4) c add show ?thesis unfolding assms(2) by (simp add: hub_ok_def known_def)
qed

lemma hub_step_ok: "hub_step s s' \<Longrightarrow> hub_ok s \<Longrightarrow> hub_ok s'"
proof (induction rule: hub_step.induct)
  case (connect auth is_member r u w s)
  then show ?case by (blast intro: hub_ok_connect)
next
  case (enter s gs c gs')
  then show ?case by (intro hub_ok_enter) (auto simp: list_all_iff)
next
  case (leave s gs c gs')
  with drop_shrinks hub_ok_parts(1) show ?case by (intro hub_ok_shrinks [where old = "Leaving c"]) (auto simp: list_all_iff)
next
  case (inbound s gs c gs' ev)
  note ok = hub_ok_parts [OF inbound.prems]
  have c: "c < length (hb_clients (hs_hub s))" using ok(3) inbound.hyps by (simp add: known_def)
  have same: "wc_user (inbound_rooms ev x) = wc_user x \<and> wc_workspace (inbound_rooms ev x) = wc_workspace x \<and>
      wc_closed (inbound_rooms ev x) = wc_closed x \<and> (client_ok x \<longrightarrow> client_ok (inbound_rooms ev x))" for x
    using fits_same [of "inbound_rooms ev x" x] by (cases ev) (auto simp: join_room_def leave_room_def client_ok_def)
  have k: "keeps (hs_hub s) (change_client c (inbound_rooms ev) (hs_hub s))" using keeps_change [OF c] same by blast
  have "go_ok h (after_inbound ev c)" if "c < length (hb_clients h)" for h using that by (cases ev) (simp_all add: known_def)
  then have "list_all (go_ok (change_client c (inbound_rooms ev) (hs_hub s))) [after_inbound ev c]" using c by (simp add: change_client_def)
  moreover have "entering (after_inbound ev c) = []" by (cases ev) simp_all
  moreover have "list_all client_ok (hb_clients (change_client c (inbound_rooms ev) (hs_hub s)))"
    using clients_change [OF ok(2) c] same ok(2) c by (simp add: list_all_length)
  ultimately show ?case using hub_ok_keeps [OF inbound.prems _ k, of gs "[Reading c]" gs' "[after_inbound ev c]"] inbound.hyps by simp
next
  case (read_end s gs c gs')
  then show ?case using hub_ok_keeps [of s gs "[Reading c]" gs' "hs_hub s" "[Leaving c]"] by (simp add: hub_ok_def)
next
  case (pong s gs c gs' x)
  note ok = hub_ok_parts [OF pong.prems]
  have c: "c < length (hb_clients (hs_hub s))" using ok(3) pong.hyps by (simp add: known_def)
  have "client_ok x" using try_send_ok [OF pong.hyps(3)] ok(2) c by (simp add: list_all_length)
  then have "list_all client_ok (hb_clients (change_client c (\<lambda>_. x) (hs_hub s)))" using clients_change [OF ok(2) c] by simp
  moreover have "list_all (go_ok (change_client c (\<lambda>_. x) (hs_hub s))) [Reading c]" using c by (simp add: known_def change_client_def)
  ultimately show ?case
    using hub_ok_keeps [OF pong.prems _ try_send_keeps [OF pong.hyps(3) c], of gs "[Ponging c]" gs' "[Reading c]"] pong.hyps by simp
next
  case (written s gs c gs' m rest)
  note ok = hub_ok_parts [OF written.prems]
  let ?f = "\<lambda>x. x\<lparr>wc_send := rest, wc_written := wc_written x @ [m]\<rparr>"
  have c: "c < length (hb_clients (hs_hub s))" using ok(3) written.hyps by (simp add: known_def)
  have "client_ok (hb_clients (hs_hub s) ! c)" using ok(2) c by (simp add: list_all_length)
  then have "client_ok (?f (hb_clients (hs_hub s) ! c))"
    using written.hyps(3) fits_same [of "?f (hb_clients (hs_hub s) ! c)" "hb_clients (hs_hub s) ! c"] by (simp add: client_ok_def)
  then have "list_all client_ok (hb_clients (change_client c ?f (hs_hub s)))" using clients_change [OF ok(2) c, of ?f] by simp
  moreover have k: "keeps (hs_hub s) (change_client c ?f (hs_hub s))" using keeps_change [OF c, of ?f] by simp
  moreover have "list_all (go_ok (change_client c ?f (hs_hub s))) (hs_go s)" using ok(3) keeps_go_ok [OF k] by (auto simp: list_all_iff)
  ultimately show ?case using ok keeps_rooms_ok [OF k ok(1)] by (simp add: hub_ok_def)
next
  case (write_end s gs c gs')
  then show ?case using hub_ok_keeps [of s gs "[Writing c]" gs' "hs_hub s" "[]"] by (simp add: hub_ok_def)
next
  case (flood s cs j)
  then show ?case using member_images [OF hub_ok_parts(1) [OF flood.prems]] by (auto simp: hub_ok_def list_all_iff)
next
  case (cast s cs w j)
  then show ?case using member_images [OF hub_ok_parts(1) [OF cast.prems]] by (auto simp: hub_ok_def list_all_iff)
next
  case (mail s ts u exclude j)
  have "list_all (\<lambda>(c, w). c < length (hb_clients (hs_hub s)) \<and> wc_user (hb_clients (hs_hub s) ! c) = u) ts"
    using mail.hyps(3) hub_members_iff [OF hub_ok_parts(1) [OF mail.prems]] hub_ok_parts(1) [OF mail.prems]
    by (auto simp: list_all_iff user_targets_def rooms_ok_def live_in_def)
  with mail show ?case by (auto simp: hub_ok_def)
next
  case (next_go s gs g gs' h new)
  note ok = hub_ok_parts [OF next_go.prems]
  have "go_ok (hs_hub s) g" using ok(3) next_go.hyps by simp
  from go_next_ok [OF ok(1,2) this next_go.hyps(3)] show ?case
    using hub_ok_keeps [OF next_go.prems, of gs "[g]" gs' h new] next_go.hyps by simp
next
  case (flood_clean s gs slow gs')
  with fold_drop_shrinks [OF hub_ok_parts(1) [OF flood_clean.prems], of "\<lambda>c h. (c, wc_workspace (hb_clients h ! c))"] show ?case
    by (intro hub_ok_shrinks [where old = "FloodCleaning slow"]) auto
next
  case (evict s gs slow gs')
  with fold_drop_shrinks [OF hub_ok_parts(1) [OF evict.prems], of "\<lambda>x h. x"] show ?case
    by (intro hub_ok_shrinks [where old = "Evicting slow"]) auto
next
  case (go_recovered s gs g gs' mcs)
  then have "entering g = []" by (cases g) auto
  with go_recovered show ?case by (simp add: hub_ok_def)
qed (simp_all add: hub_ok_def)

lemma reachable_ok: "hub_reachable s \<Longrightarrow> hub_ok s"
  unfolding hub_reachable_def
proof (induction rule: rtranclp_induct)
  case base
  show ?case by (simp add: hub_start_def hub_ok_def new_hub_def rooms_ok_def in_room_def room_of_def)
next
  case (step s s')
  then show ?case using hub_step_ok by blast
qed

section \<open>What the hub guarantees\<close>

text \<open>C25. Whatever connections, senders and pumps do, and in whatever order: everything a connection has
  been sent or still has in its buffer is a pong, a global broadcast, a broadcast to the workspace it was
  opened for, or a message to its own user, and the buffer holds at most 256 messages. Subscribing to
  another room gives nothing.\<close>

theorem messages_stay_in_audience:
  assumes "hub_reachable s" "c \<in> set (hb_clients (hs_hub s))"
  shows "length (wc_send c) \<le> 256 \<and> list_all (\<lambda>m. m = Pong \<or> (\<exists>j. m = Out Everybody j) \<or>
    (\<exists>j. m = Out (InWorkspace (wc_workspace c)) j) \<or> (\<exists>j. m = Out (ForUser (wc_user c)) j)) (wc_send c @ wc_written c)"
proof -
  have "client_ok c" using reachable_ok [OF assms(1)] assms(2) by (simp add: hub_ok_def list_all_iff)
  moreover have "fits c m \<longleftrightarrow> m = Pong \<or> (\<exists>j. m = Out Everybody j) \<or> (\<exists>j. m = Out (InWorkspace (wc_workspace c)) j) \<or>
      (\<exists>j. m = Out (ForUser (wc_user c)) j)" for m
  proof (cases m)
    case (Out a j)
    then show ?thesis by (cases a) auto
  qed simp
  ultimately show ?thesis by (auto simp: client_ok_def send_capacity_def list_all_iff)
qed

text \<open>The rooms hold each connection at most once, only under the workspace it was opened for and only
  while its channel is open, and no room is empty.\<close>

theorem rooms_hold_open_connections:
  assumes "hub_reachable s" "(w, cs) \<in> set (hb_rooms (hs_hub s))"
  shows "cs \<noteq> [] \<and> distinct cs \<and> list_all (\<lambda>c. c < length (hb_clients (hs_hub s)) \<and>
    wc_workspace (hb_clients (hs_hub s) ! c) = w \<and> \<not> wc_closed (hb_clients (hs_hub s) ! c)) cs"
proof -
  have ok: "rooms_ok (hs_hub s)" using reachable_ok [OF assms(1)] by (simp add: hub_ok_def)
  then have "in_room (hs_hub s) c w" if "c \<in> set cs" for c
    using that assms(2) by (auto simp: in_room_def room_of_def rooms_ok_def split: option.splits)
  with ok assms(2) show ?thesis by (auto simp: rooms_ok_def live_in_def list_all_iff)
qed

lemma closed_target:
  assumes "rooms_ok h" "go_ok h g" "go_next h g = None"
  shows "\<exists>m c w todo slow. g = Mailing m ((c, w) # todo) slow \<and> wc_closed (hb_clients h ! c)"
  using assms
  by (induction h g rule: go_next.induct) (auto simp: serve_None dest: member_target(2) split: if_splits)

text \<open>C26. The loop of the hub and \<^verbatim>\<open>BroadcastToWorkspace\<close> never send on a closed channel, whatever goes on
  beside them. A panic that is not recovered is the answer to a ping on a connection whose channel was
  closed; one that is recovered is a message of \<^verbatim>\<open>SendToUser\<close> to a connection that was closed since it was
  collected.\<close>

theorem broadcasts_never_panic:
  assumes "hub_reachable s" "hub_step s s'"
  shows "(hs_panic s' \<longrightarrow> (\<exists>c. wc_closed (hb_clients (hs_hub s) ! c) \<and> Ponging c \<in> set (hs_go s))) \<and>
    (hs_lost s' = hs_lost s \<or> (\<exists>m c w todo slow. Mailing m ((c, w) # todo) slow \<in> set (hs_go s) \<and>
       wc_closed (hb_clients (hs_hub s) ! c) \<and> hs_lost s' = hs_lost s @ [(m, c # map fst todo)]))"
  using assms(2)
proof (cases rule: hub_step.cases)
  case (pong_closed gs c gs')
  then show ?thesis by (auto simp: try_send_def split: if_splits)
next
  case (go_panic gs g gs')
  have "rooms_ok (hs_hub s)" "list_all (go_ok (hs_hub s)) (hs_go s)" using reachable_ok [OF assms(1)] by (simp_all add: hub_ok_def)
  with closed_target [of "hs_hub s" g] go_panic show ?thesis by auto
next
  case (go_recovered gs g gs' mcs)
  have "rooms_ok (hs_hub s)" "list_all (go_ok (hs_hub s)) (hs_go s)" using reachable_ok [OF assms(1)] by (simp_all add: hub_ok_def)
  with closed_target [of "hs_hub s" g] go_recovered show ?thesis by fastforce
qed (auto)

section \<open>Two histories\<close>

text \<open>One connection of user \<open>u\<close> in workspace \<open>w\<close> with \<open>n\<close> messages in its buffer.\<close>

definition demo_news :: hub_message where "demo_news = Out (InWorkspace ''w'') (JStr ''news'')"

definition demo_client :: "string \<Rightarrow> nat \<Rightarrow> ws_client" where
  "demo_client w n = (new_client ''u'' w)\<lparr>wc_send := replicate n demo_news\<rparr>"

definition demo_at :: "hub \<Rightarrow> goroutine list \<Rightarrow> hub_system" where
  "demo_at h gs = \<lparr>hs_hub = h, hs_go = gs, hs_lost = [], hs_panic = False\<rparr>"

definition demo_one :: "nat \<Rightarrow> hub" where
  "demo_one n = \<lparr>hb_clients = [demo_client ''w'' n], hb_rooms = [(''w'', [0])]\<rparr>"

lemmas demo_hub_defs = demo_at_def demo_one_def demo_client_def new_client_def change_client_def

lemma hub_reach_step: "hub_reachable s \<Longrightarrow> hub_step s s' \<Longrightarrow> hub_reachable s'"
  unfolding hub_reachable_def by (rule rtranclp.rtrancl_into_rtrancl)

lemma demo_upgraded:
  "handle_websocket (Some (\<lambda>_. Some ''u'')) (\<lambda>_ _. True) True \<lparr>wr_token = ''t'', wr_authorization = '''', wr_workspace = ''w''\<rparr> = Upgraded ''u'' ''w''"
  "handle_websocket (Some (\<lambda>_. Some ''u'')) (\<lambda>_ _. True) True \<lparr>wr_token = ''t'', wr_authorization = '''', wr_workspace = ''v''\<rparr> = Upgraded ''u'' ''v''"
  by code_simp+

lemma demo_connected: "hub_reachable (demo_at (demo_one 0) [Writing 0, Reading 0])"
proof -
  let ?a = "demo_at (demo_one 0\<lparr>hb_rooms := []\<rparr>) [Entering 0]"
  have "hub_step hub_start ?a"
    using hub_step.connect [OF demo_upgraded(1), of hub_start] by (simp add: hub_start_def new_hub_def demo_hub_defs)
  then have "hub_reachable ?a" by (rule hub_reach_step [rotated]) (simp add: hub_reachable_def)
  moreover have "hub_step ?a (demo_at (demo_one 0) [Writing 0, Reading 0])"
    using hub_step.enter [of ?a "[]" 0 "[]"] by (simp add: demo_hub_defs add_to_room_def set_room_def room_of_def Let_def)
  ultimately show ?thesis by (rule hub_reach_step)
qed

lemma demo_filled: "n \<le> 256 \<Longrightarrow> hub_reachable (demo_at (demo_one n) [Writing 0, Reading 0])"
proof (induction n)
  case 0
  show ?case by (rule demo_connected)
next
  case (Suc n)
  let ?w = "[Writing 0, Reading 0]"
  have "hub_step (demo_at (demo_one n) ?w) (demo_at (demo_one n) (?w @ [Casting ''w'' demo_news [0] []]))"
    using hub_step.cast [of "demo_at (demo_one n) ?w" "[0]" "''w''"] by (simp add: demo_hub_defs hub_members_def demo_news_def)
  moreover have "hub_step (demo_at (demo_one n) (?w @ [Casting ''w'' demo_news [0] []])) (demo_at (demo_one (Suc n)) (?w @ [Casting ''w'' demo_news [] []]))"
    using hub_step.next_go [of "demo_at (demo_one n) (?w @ [Casting ''w'' demo_news [0] []])" ?w "Casting ''w'' demo_news [0] []" "[]"] Suc.prems
    by (simp add: demo_hub_defs serve_def try_send_def send_capacity_def is_in_room_def replicate_append_same)
  moreover have "hub_step (demo_at (demo_one (Suc n)) (?w @ [Casting ''w'' demo_news [] []])) (demo_at (demo_one (Suc n)) ?w)"
    using hub_step.next_go [of "demo_at (demo_one (Suc n)) (?w @ [Casting ''w'' demo_news [] []])" ?w "Casting ''w'' demo_news [] []" "[]"]
    by (simp add: demo_hub_defs after_slow_def)
  ultimately show ?case using Suc hub_reach_step by (metis Suc_leD)
qed

text \<open>The connection is evicted when its buffer is full; its reader does not know.\<close>

definition demo_evicted :: hub where
  "demo_evicted = \<lparr>hb_clients = [close_send (demo_client ''w'' 256)], hb_rooms = []\<rparr>"

lemma demo_pinged: "hub_reachable (demo_at demo_evicted [Writing 0, Ponging 0])"
proof -
  let ?w = "[Writing 0, Reading 0]" and ?h = "demo_one 256"
  have "hub_step (demo_at ?h ?w) (demo_at ?h (?w @ [Casting ''w'' demo_news [0] []]))"
    using hub_step.cast [of "demo_at ?h ?w" "[0]" "''w''"] by (simp add: demo_hub_defs hub_members_def demo_news_def)
  moreover have "hub_step (demo_at ?h (?w @ [Casting ''w'' demo_news [0] []])) (demo_at ?h (?w @ [Casting ''w'' demo_news [] [0]]))"
    using hub_step.next_go [of "demo_at ?h (?w @ [Casting ''w'' demo_news [0] []])" ?w "Casting ''w'' demo_news [0] []" "[]"]
    by (simp add: demo_hub_defs serve_def try_send_def send_capacity_def is_in_room_def)
  moreover have "hub_step (demo_at ?h (?w @ [Casting ''w'' demo_news [] [0]])) (demo_at ?h (?w @ [Evicting [(0, ''w'')]]))"
    using hub_step.next_go [of "demo_at ?h (?w @ [Casting ''w'' demo_news [] [0]])" ?w "Casting ''w'' demo_news [] [0]" "[]"]
    by (simp add: demo_hub_defs after_slow_def)
  moreover have "hub_step (demo_at ?h (?w @ [Evicting [(0, ''w'')]])) (demo_at demo_evicted ?w)"
    using hub_step.evict [of "demo_at ?h (?w @ [Evicting [(0, ''w'')]])" ?w "[(0, ''w'')]" "[]"]
    by (simp add: demo_hub_defs demo_evicted_def drop_from_room_def room_of_def set_room_def)
  moreover have "hub_step (demo_at demo_evicted ?w) (demo_at demo_evicted [Writing 0, Ponging 0])"
    using hub_step.inbound [of "demo_at demo_evicted ?w" "[Writing 0]" 0 "[]" Ping] by (simp add: demo_at_def demo_evicted_def change_client_def)
  ultimately show ?thesis using demo_filled [of 256] hub_reach_step by (metis order_refl)
qed

lemma demo_pong: "hub_step (demo_at demo_evicted [Writing 0, Ponging 0]) ((demo_at demo_evicted [Writing 0, Ponging 0])\<lparr>hs_panic := True\<rparr>)"
  using hub_step.pong_closed [of "demo_at demo_evicted [Writing 0, Ponging 0]" "[Writing 0]" 0 "[]"]
  by (simp add: demo_at_def demo_evicted_def try_send_def close_send_def)

text \<open>A panic that ends the server is reachable: a connection that was evicted for being slow still
  has its reader, and answers a ping on the closed channel.\<close>

theorem ping_after_eviction_panics: "\<exists>s. hub_reachable s \<and> hs_panic s"
  using hub_reach_step [OF demo_pinged demo_pong] by (intro exI [of _ "(demo_at demo_evicted [Writing 0, Ponging 0])\<lparr>hs_panic := True\<rparr>"]) simp

text \<open>Two connections of the same user: the first leaves after \<^verbatim>\<open>SendToUser\<close> has collected both.\<close>

definition demo_letter :: hub_message where "demo_letter = Out (ForUser ''u'') (JStr ''hi'')"

definition demo_two :: "(string \<times> nat list) list \<Rightarrow> bool \<Rightarrow> hub" where
  "demo_two rooms left = \<lparr>hb_clients = [(demo_client ''w'' 0)\<lparr>wc_closed := left\<rparr>, demo_client ''v'' 0], hb_rooms = rooms\<rparr>"

lemma demo_two_open: "hub_reachable (demo_at (demo_two [(''v'', [1]), (''w'', [0])] False) [Writing 0, Reading 0, Writing 1, Reading 1])"
proof -
  let ?a = "demo_at (demo_two [(''w'', [0])] False) [Writing 0, Reading 0, Entering 1]"
  have "hub_step (demo_at (demo_one 0) [Writing 0, Reading 0]) ?a"
    using hub_step.connect [OF demo_upgraded(2), of "demo_at (demo_one 0) [Writing 0, Reading 0]"] by (simp add: demo_hub_defs demo_two_def)
  with demo_connected have "hub_reachable ?a" by (rule hub_reach_step)
  moreover have "hub_step ?a (demo_at (demo_two [(''v'', [1]), (''w'', [0])] False) [Writing 0, Reading 0, Writing 1, Reading 1])"
    using hub_step.enter [of ?a "[Writing 0, Reading 0]" 1 "[]"]
    by (simp add: demo_hub_defs demo_two_def add_to_room_def set_room_def room_of_def Let_def)
  ultimately show ?thesis by (rule hub_reach_step)
qed

lemma demo_collected:
  "hub_reachable (demo_at (demo_two [(''v'', [1])] True) [Writing 0, Writing 1, Reading 1, Mailing demo_letter [(0, ''w''), (1, ''v'')] []])"
proof -
  let ?h = "demo_two [(''v'', [1]), (''w'', [0])] False" and ?m = "Mailing demo_letter [(0, ''w''), (1, ''v'')] []"
  let ?a = "demo_at ?h [Writing 0, Reading 0, Writing 1, Reading 1]"
  let ?b = "demo_at ?h [Writing 0, Reading 0, Writing 1, Reading 1, ?m]"
  let ?c = "demo_at ?h [Writing 0, Leaving 0, Writing 1, Reading 1, ?m]"
  have "hub_step ?a ?b"
    using hub_step.mail [of ?a "[(0, ''w''), (1, ''v'')]" "''u''" "''''"]
    by (auto simp: demo_hub_defs demo_two_def user_targets_def hub_members_def demo_letter_def)
  moreover have "hub_step ?b ?c" using hub_step.read_end [of ?b "[Writing 0]" 0] by (simp add: demo_at_def)
  moreover have "hub_step ?c (demo_at (demo_two [(''v'', [1])] True) [Writing 0, Writing 1, Reading 1, ?m])"
    using hub_step.leave [of ?c "[Writing 0]" 0]
    by (simp add: demo_hub_defs demo_two_def drop_from_room_def room_of_def set_room_def close_send_def)
  ultimately show ?thesis using demo_two_open hub_reach_step by metis
qed

lemma demo_lost: "hub_step (demo_at (demo_two [(''v'', [1])] True) [Writing 0, Writing 1, Reading 1, Mailing demo_letter [(0, ''w''), (1, ''v'')] []])
    ((demo_at (demo_two [(''v'', [1])] True) [Writing 0, Writing 1, Reading 1])\<lparr>hs_lost := [(demo_letter, [0, 1])]\<rparr>)"
  using hub_step.go_recovered [of "demo_at (demo_two [(''v'', [1])] True) [Writing 0, Writing 1, Reading 1, Mailing demo_letter [(0, ''w''), (1, ''v'')] []]"
    "[Writing 0, Writing 1, Reading 1]" "Mailing demo_letter [(0, ''w''), (1, ''v'')] []" "[]"]
  by (simp add: demo_at_def demo_two_def serve_def try_send_def)

text \<open>One connection of a user that leaves at the wrong moment makes \<^verbatim>\<open>SendToUser\<close> panic before the
  user's other connections are served: a message can be lost for a connection that is open and in its room.\<close>

theorem leaving_connection_loses_letters:
  "\<exists>s m cs c. hub_reachable s \<and> (m, cs) \<in> set (hs_lost s) \<and> c \<in> set cs \<and> is_member_of (hs_hub s) c \<and>
     \<not> wc_closed (hb_clients (hs_hub s) ! c) \<and> m \<notin> set (wc_send (hb_clients (hs_hub s) ! c))"
  using hub_reach_step [OF demo_collected demo_lost]
  by (intro exI [of _ "(demo_at (demo_two [(''v'', [1])] True) [Writing 0, Writing 1, Reading 1])\<lparr>hs_lost := [(demo_letter, [0, 1])]\<rparr>"]
        exI [of _ demo_letter] exI [of _ "[0, 1]"] exI [of _ 1])
    (auto simp: demo_hub_defs demo_two_def is_member_of_def in_room_def room_of_def intro!: exI [of _ "''v''"])

theorem messages_stay_in_audience_witness:
  "list_all (\<lambda>m. m = Pong \<or> (\<exists>j. m = Out Everybody j) \<or> (\<exists>j. m = Out (InWorkspace ''w'') j) \<or> (\<exists>j. m = Out (ForUser ''u'') j)) [demo_news]"
  using messages_stay_in_audience [OF demo_filled [of 1], of "demo_client ''w'' 1"] by (simp add: demo_hub_defs)

theorem rooms_hold_open_connections_witness: "\<not> wc_closed (hb_clients (demo_one 0) ! 0)"
  using rooms_hold_open_connections [OF demo_connected, of "''w''" "[0]"] by (simp add: demo_at_def demo_one_def)

theorem broadcasts_never_panic_witness: "wc_closed (hb_clients demo_evicted ! 0)"
  using broadcasts_never_panic [OF demo_pinged demo_pong] by (auto simp: demo_at_def)

end
