(* ===== verification/RealtimeListeners.thy ===== *)
theory RealtimeListeners
  imports RealtimeHub
begin

text \<open>
  The listeners that hand the events of the bus to the hub (\<^verbatim>\<open>server/cmd/server/listeners.go\<close>). Their
  state is the sequence of calls of the hub; the payload is the JSON value of the event, where a struct
  \<^verbatim>\<open>MemberWithUserResponse\<close> is the object it prints.
\<close>

datatype hub_call =
    SendToUser string json string
  | BroadcastToWorkspace string json
  | Broadcast json

definition personal_events :: "string list" where
  "personal_events = [''inbox:new'', ''inbox:read'', ''inbox:archived'', ''inbox:batch-read'', ''inbox:batch-archived'']"

section \<open>Reading a payload\<close>

fun as_object :: "json \<Rightarrow> jmap option" where
  "as_object (JObj m) = Some m"
| "as_object j = None"

definition object_at :: "jmap \<Rightarrow> string \<Rightarrow> jmap option" where
  "object_at m k = (case map_of m k of None \<Rightarrow> None | Some j \<Rightarrow> as_object j)"

text \<open>\<^verbatim>\<open>s, _ := m[k].(string)\<close>\<close>

definition string_at :: "jmap \<Rightarrow> string \<Rightarrow> string" where
  "string_at m k = (case map_of m k of Some (JStr s) \<Rightarrow> s | _ \<Rightarrow> '''')"

definition personal_message :: "event \<Rightarrow> json" where
  "personal_message e = JObj [(''actor_id'', JStr (ev_actor e)), (''payload'', ev_payload e), (''type'', JStr (ev_type e))]"

definition room_message :: "event \<Rightarrow> json" where
  "room_message e = JObj ([(''actor_id'', JStr (ev_actor e))] @ (if ev_id e \<noteq> '''' then [(''event_id'', JStr (ev_id e))] else []) @
     [(''payload'', ev_payload e), (''type'', JStr (ev_type e))])"

section \<open>The listeners\<close>

type_synonym hub_listener = "hub_call list handler"

definition send_to_recipient :: "event \<Rightarrow> string \<Rightarrow> hub_call list \<Rightarrow> hub_call list" where
  "send_to_recipient e r calls = (if r = '''' then calls else calls @ [SendToUser r (personal_message e) ''''])"

definition on_inbox_new :: hub_listener where
  "on_inbox_new e calls =
     (case as_object (ev_payload e) of
        None \<Rightarrow> (calls, False)
      | Some m \<Rightarrow> (case object_at m ''item'' of
          None \<Rightarrow> (calls, False)
        | Some i \<Rightarrow> (send_to_recipient e (string_at i ''recipient_id'') calls, False)))"

definition on_inbox_change :: hub_listener where
  "on_inbox_change e calls =
     (case as_object (ev_payload e) of
        None \<Rightarrow> (calls, False)
      | Some m \<Rightarrow> (send_to_recipient e (string_at m ''recipient_id'') calls, False))"

definition on_member_added :: hub_listener where
  "on_member_added e calls =
     (case as_object (ev_payload e) of
        None \<Rightarrow> (calls, False)
      | Some m \<Rightarrow> (case object_at m ''member'' of
          None \<Rightarrow> (calls, False)
        | Some i \<Rightarrow>
            if string_at i ''user_id'' = '''' then (calls, False)
            else (calls @ [SendToUser (string_at i ''user_id'') (personal_message e) (ev_workspace e)], False)))"

definition on_any_event :: hub_listener where
  "on_any_event e calls =
     (if ev_type e \<in> set personal_events then (calls, False)
      else if ev_workspace e \<noteq> '''' then (calls @ [BroadcastToWorkspace (ev_workspace e) (room_message e)], False)
      else if has_prefix (ev_type e) ''daemon:'' then (calls @ [Broadcast (room_message e)], False)
      else (calls, False))"

definition hub_registrations :: "hub_call list registration list" where
  "hub_registrations =
     [On ''inbox:new'' on_inbox_new] @
     map (\<lambda>ty. On ty on_inbox_change) [''inbox:read'', ''inbox:archived'', ''inbox:batch-read'', ''inbox:batch-archived''] @
     [On ''member:added'' on_member_added, OnAll on_any_event]"

definition register_listeners :: "hub_call list bus \<Rightarrow> hub_call list bus" where
  "register_listeners b = fold register hub_registrations b"

section \<open>Who is told what\<close>

text \<open>The user an event is for, besides the workspace.\<close>

definition event_recipient :: "event \<Rightarrow> string" where
  "event_recipient e =
     (case as_object (ev_payload e) of
        None \<Rightarrow> ''''
      | Some m \<Rightarrow>
          if ev_type e = ''inbox:new'' then (case object_at m ''item'' of None \<Rightarrow> '''' | Some i \<Rightarrow> string_at i ''recipient_id'')
          else if ev_type e = ''member:added'' then (case object_at m ''member'' of None \<Rightarrow> '''' | Some i \<Rightarrow> string_at i ''user_id'')
          else if ev_type e \<in> set personal_events then string_at m ''recipient_id'' else '''')"

lemma personal_cases:
  assumes "ev_type e \<in> set personal_events"
  obtains "ev_type e = ''inbox:new''" | "ev_type e = ''inbox:read''" | "ev_type e = ''inbox:archived''"
  | "ev_type e = ''inbox:batch-read''" | "ev_type e = ''inbox:batch-archived''"
  using assms unfolding personal_events_def set_simps insert_iff empty_iff by blast

lemma new_bus_handlers: "listeners_of new_bus ty = []" "bus_globals new_bus = []"
  by (simp_all add: listeners_of_def new_bus_def)

lemma hub_handlers:
  "listeners_of (register_listeners new_bus) ty =
     (if ty = ''inbox:new'' then [on_inbox_new]
      else if ty = ''inbox:read'' \<or> ty = ''inbox:archived'' \<or> ty = ''inbox:batch-read'' \<or> ty = ''inbox:batch-archived'' then [on_inbox_change]
      else if ty = ''member:added'' then [on_member_added] else [])"
  "bus_globals (register_listeners new_bus) = [on_any_event]"
  unfolding register_listeners_def fold_register_handlers by (simp_all add: hub_registrations_def new_bus_handlers)

text \<open>C27. A personal event (inbox) goes to the connections of its recipient and to nobody else, and to
  nobody when it names none. Every other event goes to its workspace; without one only daemon events go to
  everybody, the rest is dropped. A new member is told too, in the rooms the broadcast does not reach.\<close>

theorem event_audience:
  "publish (register_listeners new_bus) e [] =
     (if ev_type e \<in> set personal_events
      then (if event_recipient e = '''' then [] else [SendToUser (event_recipient e) (personal_message e) ''''])
      else (if ev_type e = ''member:added'' \<and> event_recipient e \<noteq> ''''
            then [SendToUser (event_recipient e) (personal_message e) (ev_workspace e)] else []) @
           (if ev_workspace e \<noteq> '''' then [BroadcastToWorkspace (ev_workspace e) (room_message e)]
            else if has_prefix (ev_type e) ''daemon:'' then [Broadcast (room_message e)] else []))"
proof (cases "ev_type e \<in> set personal_events")
  case True
  have quiet: "on_any_event e calls = (calls, False)" for calls using True by (simp add: on_any_event_def)
  have named: "set personal_events \<supseteq> set [''inbox:new'', ''inbox:read'', ''inbox:archived'', ''inbox:batch-read'', ''inbox:batch-archived'']"
    by (simp only: personal_events_def)
  from True show ?thesis unfolding if_P [OF True] using named
    by (cases rule: personal_cases)
      (simp_all add: publish_def hub_handlers call_recovered_def quiet on_inbox_new_def on_inbox_change_def send_to_recipient_def
        event_recipient_def split: option.splits)
next
  case False
  have loud: "fst (on_any_event e calls) = calls @ (if ev_workspace e \<noteq> '''' then [BroadcastToWorkspace (ev_workspace e) (room_message e)]
      else if has_prefix (ev_type e) ''daemon:'' then [Broadcast (room_message e)] else [])" for calls
    using False by (simp add: on_any_event_def)
  have "fold (call_recovered e) (listeners_of (register_listeners new_bus) (ev_type e)) [] =
      (if ev_type e = ''member:added'' \<and> event_recipient e \<noteq> ''''
       then [SendToUser (event_recipient e) (personal_message e) (ev_workspace e)] else [])"
    using False
    by (auto simp: hub_handlers call_recovered_def on_member_added_def event_recipient_def personal_events_def split: option.splits)
  with loud False show ?thesis by (simp add: publish_def hub_handlers call_recovered_def split_beta)
qed

end
