(* ===== verification/Accounts.thy ===== *)
theory Accounts
  imports Queries GoText EventBus
begin

text \<open>
  Accounts: who may sign up (\<^verbatim>\<open>server/internal/service/access_policy.go\<close>) and the tables of users,
  workspaces, members and login codes with their statements (\<^verbatim>\<open>server/pkg/db/generated\<close>).
\<close>

section \<open>The access policy\<close>

record access_policy =
  ap_signup_disabled :: bool
  ap_creation_disabled :: bool
  ap_emails :: "string list"
  ap_domains :: "string list"

text \<open>\<^verbatim>\<open>strconv.ParseBool\<close>\<close>

definition parse_bool :: "string \<Rightarrow> bool option" where
  "parse_bool s =
     (if s \<in> set [''1'', ''t'', ''T'', ''true'', ''TRUE'', ''True''] then Some True
      else if s \<in> set [''0'', ''f'', ''F'', ''false'', ''FALSE'', ''False''] then Some False else None)"

definition parse_optional_bool :: "string \<Rightarrow> string \<Rightarrow> bool res" where
  "parse_optional_bool name v =
     (if trim_space v = '''' then Inr False
      else case parse_bool (trim_space v) of
        None \<Rightarrow> Inl (ErrWrap (name @ '' must be a boolean'') (ErrInfra ''strconv.ParseBool''))
      | Some b \<Rightarrow> Inr b)"

definition valid_domain :: "string \<Rightarrow> bool" where
  "valid_domain d \<longleftrightarrow> d \<noteq> '''' \<and> list_all (\<lambda>c. c \<notin> set [CHR ''@'', CHR '','', CHR '' '', CHR 0x09, CHR 0x0d, CHR 0x0a]) d \<and>
     \<not> has_prefix d ''.'' \<and> \<not> has_suffix d ''.''"

text \<open>\<^verbatim>\<open>strings.Split\<close> and \<^verbatim>\<open>strings.Cut\<close> at one character.\<close>

fun split_char :: "char \<Rightarrow> string \<Rightarrow> string list" where
  "split_char c [] = [[]]"
| "split_char c (x # xs) =
     (if x = c then [] # split_char c xs
      else case split_char c xs of [] \<Rightarrow> [[x]] | w # ws \<Rightarrow> (x # w) # ws)"

definition cut_char :: "char \<Rightarrow> string \<Rightarrow> (string \<times> string) option" where
  "cut_char c s = (if c \<in> set s then Some (takeWhile (\<lambda>x. x \<noteq> c) s, tl (dropWhile (\<lambda>x. x \<noteq> c) s)) else None)"

definition normal_email :: "string \<Rightarrow> string" where
  "normal_email s = to_lower (trim_space s)"

definition add_entry :: "string \<Rightarrow> access_policy \<Rightarrow> access_policy res" where
  "add_entry raw p =
     (let entry = normal_email raw in
      if entry = '''' then Inr p
      else if has_prefix entry ''@''
      then (if \<not> valid_domain (tl entry)
            then Inl (ErrMsg (''AGENTRA_SIGNUP_ALLOWLIST contains invalid domain entry '' @ quoted raw))
            else Inr (p\<lparr>ap_domains := List.insert (tl entry) (ap_domains p)\<rparr>))
      else (case cut_char (CHR ''@'') entry of
              None \<Rightarrow> Inl (ErrMsg (''AGENTRA_SIGNUP_ALLOWLIST contains invalid email entry '' @ quoted raw))
            | Some (l, d) \<Rightarrow>
                if l = '''' \<or> \<not> valid_domain d
                then Inl (ErrMsg (''AGENTRA_SIGNUP_ALLOWLIST contains invalid email entry '' @ quoted raw))
                else Inr (p\<lparr>ap_emails := List.insert entry (ap_emails p)\<rparr>)))"

fun add_entries :: "string list \<Rightarrow> access_policy \<Rightarrow> access_policy res" where
  "add_entries [] p = Inr p"
| "add_entries (raw # raws) p = or_fail (add_entry raw p) (add_entries raws)"

definition new_access_policy :: "(string \<Rightarrow> string) \<Rightarrow> access_policy res" where
  "new_access_policy getenv =
     or_fail (parse_optional_bool ''AGENTRA_SIGNUP_DISABLED'' (getenv ''AGENTRA_SIGNUP_DISABLED'')) (\<lambda>signup.
     or_fail (parse_optional_bool ''AGENTRA_WORKSPACE_CREATION_DISABLED'' (getenv ''AGENTRA_WORKSPACE_CREATION_DISABLED'')) (\<lambda>creation.
       add_entries (split_char (CHR '','') (getenv ''AGENTRA_SIGNUP_ALLOWLIST''))
         \<lparr>ap_signup_disabled = signup, ap_creation_disabled = creation, ap_emails = [], ap_domains = []\<rparr>))"

definition allows_new_signup :: "access_policy \<Rightarrow> string \<Rightarrow> bool" where
  "allows_new_signup p raw =
     (if ap_signup_disabled p then False
      else let email = normal_email raw in
        if ap_emails p = [] \<and> ap_domains p = [] then True
        else if email \<in> set (ap_emails p) then True
        else case cut_char (CHR ''@'') email of None \<Rightarrow> False | Some (_, d) \<Rightarrow> d \<in> set (ap_domains p))"

text \<open>The policy of a server: one that cannot be read forbids both.\<close>

definition server_policy :: "(string \<Rightarrow> string) \<Rightarrow> access_policy" where
  "server_policy getenv = (case new_access_policy getenv of
     Inl _ \<Rightarrow> \<lparr>ap_signup_disabled = True, ap_creation_disabled = True, ap_emails = [], ap_domains = []\<rparr> | Inr p \<Rightarrow> p)"

section \<open>Users, workspaces, members and codes\<close>

record user_row =
  us_id :: uuid
  us_name :: string
  us_email :: string
  us_avatar :: pgtext
  us_created_at :: time
  us_updated_at :: time

record space_row =
  sp_id :: uuid
  sp_name :: string
  sp_slug :: string
  sp_description :: pgtext
  sp_context :: pgtext
  sp_settings :: string
  sp_repos :: string
  sp_prefix :: string
  sp_counter :: int
  sp_domain :: string
  sp_sso :: string
  sp_created_at :: time
  sp_updated_at :: time

record seat_row =
  se_id :: uuid
  se_workspace :: uuid
  se_user :: uuid
  se_role :: string
  se_created_at :: time

record code_row =
  vc_id :: uuid
  vc_email :: string
  vc_code :: string
  vc_expires_at :: time
  vc_used :: bool
  vc_attempts :: int
  vc_created_at :: time

record accounts =
  ac_users :: "user_row list"
  ac_spaces :: "space_row list"
  ac_seats :: "seat_row list"
  ac_codes :: "code_row list"

definition err_unique :: go_error where "err_unique = ErrInfra ''23505''"

definition is_unique_violation :: "go_error \<Rightarrow> bool" where
  "is_unique_violation err \<longleftrightarrow> error_is err err_unique"

text \<open>\<^verbatim>\<open>INSERT\<close>: the first violated constraint, if any (keys before checks and references).\<close>

definition insert_row :: "bool \<Rightarrow> bool \<Rightarrow> 'r \<Rightarrow> 'r list \<Rightarrow> ('r list \<times> 'r) res" where
  "insert_row unique admitted r rs =
     (if \<not> unique then Inl err_unique else if \<not> admitted then Inl ErrConstraint else Inr (rs @ [r], r))"

lemma insert_row_Inr [res_simps]: "insert_row u a r rs = Inr (rs', r') \<longleftrightarrow> u \<and> a \<and> rs' = rs @ [r] \<and> r' = r"
  by (auto simp: insert_row_def)

subsection \<open>Users\<close>

definition get_user :: "accounts \<Rightarrow> uuid option \<Rightarrow> user_row res" where
  "get_user a i = select_one (\<lambda>u. Some (us_id u) = i) (ac_users a)"

definition get_user_by_email :: "accounts \<Rightarrow> string \<Rightarrow> user_row res" where
  "get_user_by_email a m = select_one (\<lambda>u. us_email u = m) (ac_users a)"

definition create_user :: "env \<Rightarrow> accounts \<Rightarrow> string \<Rightarrow> string \<Rightarrow> (accounts \<times> user_row) res" where
  "create_user e a name email =
     (let u = \<lparr>us_id = e_gen e 0, us_name = name, us_email = email, us_avatar = None, us_created_at = e_now e, us_updated_at = e_now e\<rparr>
      in or_fail (insert_row (us_id u \<notin> us_id ` set (ac_users a) \<and> email \<notin> us_email ` set (ac_users a)) True u (ac_users a))
           (\<lambda>(us, u). Inr (a\<lparr>ac_users := us\<rparr>, u)))"

definition update_user :: "env \<Rightarrow> accounts \<Rightarrow> uuid \<Rightarrow> string \<Rightarrow> pgtext \<Rightarrow> (accounts \<times> user_row) res" where
  "update_user e a i name avatar =
     (let f = \<lambda>u. u\<lparr>us_name := name, us_avatar := (case avatar of None \<Rightarrow> us_avatar u | Some x \<Rightarrow> Some x), us_updated_at := e_now e\<rparr>
      in or_fail (select_one (\<lambda>u. us_id u = i) (ac_users a)) (\<lambda>u.
           Inr (a\<lparr>ac_users := upd_where (\<lambda>u. us_id u = i) f (ac_users a)\<rparr>, f u)))"

subsection \<open>Workspaces\<close>

definition get_workspace :: "accounts \<Rightarrow> uuid option \<Rightarrow> space_row res" where
  "get_workspace a i = select_one (\<lambda>w. Some (sp_id w) = i) (ac_spaces a)"

definition list_workspaces :: "accounts \<Rightarrow> uuid option \<Rightarrow> space_row list" where
  "list_workspaces a u = sort_by (\<lambda>v w. sp_created_at v < sp_created_at w)
     (filter (\<lambda>w. \<exists>s\<in>set (ac_seats a). se_workspace s = sp_id w \<and> Some (se_user s) = u) (ac_spaces a))"

definition create_workspace_row ::
    "env \<Rightarrow> accounts \<Rightarrow> string \<Rightarrow> string \<Rightarrow> pgtext \<Rightarrow> pgtext \<Rightarrow> string \<Rightarrow> (accounts \<times> space_row) res" where
  "create_workspace_row e a name slug desc ctx prefix =
     (let w = \<lparr>sp_id = e_gen e 1, sp_name = name, sp_slug = slug, sp_description = desc, sp_context = ctx, sp_settings = ''{}'',
               sp_repos = ''[]'', sp_prefix = prefix, sp_counter = 0, sp_domain = '''', sp_sso = ''open'', sp_created_at = e_now e,
               sp_updated_at = e_now e\<rparr>
      in or_fail (insert_row (sp_id w \<notin> sp_id ` set (ac_spaces a) \<and> slug \<notin> sp_slug ` set (ac_spaces a)) True w (ac_spaces a))
           (\<lambda>(ws, w). Inr (a\<lparr>ac_spaces := ws\<rparr>, w)))"

record space_update =
  su_name :: pgtext
  su_description :: pgtext
  su_context :: pgtext
  su_settings :: pgtext
  su_repos :: pgtext
  su_prefix :: pgtext

definition or_else :: "'a option \<Rightarrow> 'a \<Rightarrow> 'a" where
  "or_else new old = (case new of None \<Rightarrow> old | Some x \<Rightarrow> x)"

definition updated_space :: "env \<Rightarrow> space_update \<Rightarrow> space_row \<Rightarrow> space_row" where
  "updated_space e u w = w\<lparr>sp_name := or_else (su_name u) (sp_name w),
     sp_description := (if su_description u = None then sp_description w else su_description u),
     sp_context := (if su_context u = None then sp_context w else su_context u),
     sp_settings := or_else (su_settings u) (sp_settings w), sp_repos := or_else (su_repos u) (sp_repos w),
     sp_prefix := or_else (su_prefix u) (sp_prefix w), sp_updated_at := e_now e\<rparr>"

definition update_space_where :: "accounts \<Rightarrow> uuid option \<Rightarrow> (space_row \<Rightarrow> space_row) \<Rightarrow> (accounts \<times> space_row) res" where
  "update_space_where a i f =
     or_fail (get_workspace a i) (\<lambda>w. Inr (a\<lparr>ac_spaces := upd_where (\<lambda>w. Some (sp_id w) = i) f (ac_spaces a)\<rparr>, f w))"

definition update_workspace_row :: "env \<Rightarrow> accounts \<Rightarrow> uuid option \<Rightarrow> space_update \<Rightarrow> (accounts \<times> space_row) res" where
  "update_workspace_row e a i u = update_space_where a i (updated_space e u)"

definition claim_workspace_domain :: "env \<Rightarrow> accounts \<Rightarrow> uuid option \<Rightarrow> string \<Rightarrow> (accounts \<times> space_row) res" where
  "claim_workspace_domain e a i d =
     update_space_where a i (\<lambda>w. w\<lparr>sp_domain := d, sp_sso := ''domain_claim'', sp_updated_at := e_now e\<rparr>)"

definition find_workspace_by_email_domain :: "accounts \<Rightarrow> string \<Rightarrow> space_row res" where
  "find_workspace_by_email_domain a d = select_one (\<lambda>w. sp_domain w = d) (ac_spaces a)"

definition increment_issue_counter :: "accounts \<Rightarrow> uuid option \<Rightarrow> (accounts \<times> int) res" where
  "increment_issue_counter a i =
     (case update_space_where a i (\<lambda>w. w\<lparr>sp_counter := sp_counter w + 1\<rparr>) of
        Inl err \<Rightarrow> Inl err
      | Inr (a', w) \<Rightarrow> if sp_counter w < 2147483648 then Inr (a', sp_counter w) else Inl (ErrInfra ''22003''))"

definition delete_workspace_row :: "accounts \<Rightarrow> uuid option \<Rightarrow> accounts" where
  "delete_workspace_row a i = a\<lparr>ac_spaces := filter (\<lambda>w. Some (sp_id w) \<noteq> i) (ac_spaces a),
     ac_seats := filter (\<lambda>s. Some (se_workspace s) \<noteq> i) (ac_seats a)\<rparr>"

subsection \<open>Members\<close>

definition list_seats :: "accounts \<Rightarrow> uuid option \<Rightarrow> seat_row list" where
  "list_seats a w = sort_by (\<lambda>s t. se_created_at s < se_created_at t) (filter (\<lambda>s. Some (se_workspace s) = w) (ac_seats a))"

definition get_member :: "accounts \<Rightarrow> uuid option \<Rightarrow> seat_row res" where
  "get_member a i = select_one (\<lambda>s. Some (se_id s) = i) (ac_seats a)"

definition get_member_by_user_and_workspace :: "accounts \<Rightarrow> uuid option \<Rightarrow> uuid option \<Rightarrow> seat_row res" where
  "get_member_by_user_and_workspace a u w = select_one (\<lambda>s. Some (se_user s) = u \<and> Some (se_workspace s) = w) (ac_seats a)"

definition member_roles :: "string list" where "member_roles = [''owner'', ''admin'', ''member'']"

definition create_member_row :: "env \<Rightarrow> accounts \<Rightarrow> uuid option \<Rightarrow> uuid \<Rightarrow> string \<Rightarrow> (accounts \<times> seat_row) res" where
  "create_member_row e a w u role =
     (case w of
        None \<Rightarrow> Inl ErrConstraint
      | Some wid \<Rightarrow>
          let s = \<lparr>se_id = e_gen e 2, se_workspace = wid, se_user = u, se_role = role, se_created_at = e_now e\<rparr>
          in or_fail (insert_row (se_id s \<notin> se_id ` set (ac_seats a) \<and> (wid, u) \<notin> (\<lambda>s. (se_workspace s, se_user s)) ` set (ac_seats a))
                 (role \<in> set member_roles \<and> wid \<in> sp_id ` set (ac_spaces a) \<and> u \<in> us_id ` set (ac_users a)) s (ac_seats a))
               (\<lambda>(ss, s). Inr (a\<lparr>ac_seats := ss\<rparr>, s)))"

definition update_member_role_row :: "accounts \<Rightarrow> uuid \<Rightarrow> string \<Rightarrow> (accounts \<times> seat_row) res" where
  "update_member_role_row a i role =
     or_fail (select_one (\<lambda>s. se_id s = i) (ac_seats a)) (\<lambda>s.
       if role \<in> set member_roles
       then Inr (a\<lparr>ac_seats := upd_where (\<lambda>s. se_id s = i) (\<lambda>s. s\<lparr>se_role := role\<rparr>) (ac_seats a)\<rparr>, s\<lparr>se_role := role\<rparr>)
       else Inl ErrConstraint)"

definition delete_member_row :: "accounts \<Rightarrow> uuid \<Rightarrow> accounts" where
  "delete_member_row a i = a\<lparr>ac_seats := filter (\<lambda>s. se_id s \<noteq> i) (ac_seats a)\<rparr>"

subsection \<open>Login codes\<close>

definition create_verification_code :: "env \<Rightarrow> accounts \<Rightarrow> string \<Rightarrow> string \<Rightarrow> time \<Rightarrow> (accounts \<times> code_row) res" where
  "create_verification_code e a email code exp_at =
     (let c = \<lparr>vc_id = e_gen e 3, vc_email = email, vc_code = code, vc_expires_at = exp_at, vc_used = False, vc_attempts = 0,
               vc_created_at = e_now e\<rparr>
      in or_fail (insert_row (vc_id c \<notin> vc_id ` set (ac_codes a)) True c (ac_codes a)) (\<lambda>(cs, c). Inr (a\<lparr>ac_codes := cs\<rparr>, c)))"

definition code_open :: "env \<Rightarrow> string \<Rightarrow> code_row \<Rightarrow> bool" where
  "code_open e email c \<longleftrightarrow> vc_email c = email \<and> \<not> vc_used c \<and> e_now e < vc_expires_at c \<and> vc_attempts c < 5"

definition newer_code :: "code_row \<Rightarrow> code_row \<Rightarrow> bool" where
  "newer_code c d \<longleftrightarrow> vc_created_at d < vc_created_at c"

definition get_latest_verification_code :: "env \<Rightarrow> accounts \<Rightarrow> string \<Rightarrow> code_row res" where
  "get_latest_verification_code e a email =
     (case first_by newer_code (filter (code_open e email) (ac_codes a)) of None \<Rightarrow> Inl ErrNoRows | Some c \<Rightarrow> Inr c)"

definition get_latest_code_by_email :: "accounts \<Rightarrow> string \<Rightarrow> code_row res" where
  "get_latest_code_by_email a email =
     (case first_by newer_code (filter (\<lambda>c. vc_email c = email) (ac_codes a)) of None \<Rightarrow> Inl ErrNoRows | Some c \<Rightarrow> Inr c)"

definition change_code :: "(code_row \<Rightarrow> code_row) \<Rightarrow> accounts \<Rightarrow> uuid \<Rightarrow> accounts" where
  "change_code f a i = a\<lparr>ac_codes := upd_where (\<lambda>c. vc_id c = i) f (ac_codes a)\<rparr>"

definition mark_verification_code_used :: "accounts \<Rightarrow> uuid \<Rightarrow> accounts" where
  "mark_verification_code_used = change_code (\<lambda>c. c\<lparr>vc_used := True\<rparr>)"

definition increment_verification_code_attempts :: "accounts \<Rightarrow> uuid \<Rightarrow> accounts" where
  "increment_verification_code_attempts = change_code (\<lambda>c. c\<lparr>vc_attempts := vc_attempts c + 1\<rparr>)"

definition delete_expired_verification_codes :: "env \<Rightarrow> accounts \<Rightarrow> accounts" where
  "delete_expired_verification_codes e a =
     a\<lparr>ac_codes := filter (\<lambda>c. \<not> vc_expires_at c < e_now e - 3600000000000) (ac_codes a)\<rparr>"

end
