(* ===== verification/Membership.thy ===== *)
theory Membership
  imports Accounts
begin

text \<open>
  Workspaces and their members (\<^verbatim>\<open>server/internal/handler/workspace.go\<close>), the membership middleware
  (\<^verbatim>\<open>server/internal/middleware/workspace.go\<close>) and the login by e-mailed code
  (\<^verbatim>\<open>server/internal/handler/auth.go\<close>). A handler gets the decoded body (none when it cannot be read)
  and yields the tables, the published events and its answer: an HTTP status with a message, or a value.
  The parser of UUIDs, the parser of mail addresses, the printing of times, the mail service, the random
  code and the signature of tokens are parameters.
\<close>

type_synonym 'a reply = "(int \<times> string) + 'a"
type_synonym 'a served = "accounts \<times> event list \<times> 'a reply"

abbreviation fail :: "accounts \<Rightarrow> int \<Rightarrow> string \<Rightarrow> 'a served" where
  "fail a status msg \<equiv> (a, [], Inl (status, msg))"

section \<open>Who may\<close>

definition role_allowed :: "string \<Rightarrow> string list \<Rightarrow> bool" where
  "role_allowed role roles \<longleftrightarrow> role \<in> set roles"

definition count_owners :: "seat_row list \<Rightarrow> nat" where
  "count_owners ss = length (filter (\<lambda>s. se_role s = ''owner'') ss)"

text \<open>\<^verbatim>\<open>buildMiddleware\<close>: the member a request acts as.\<close>

definition workspace_middleware ::
    "(string \<Rightarrow> uuid option) \<Rightarrow> string list \<Rightarrow> accounts \<Rightarrow> string \<Rightarrow> string \<Rightarrow> seat_row reply" where
  "workspace_middleware parse roles a ws user =
     (if ws = '''' then Inl (400, ''workspace_id is required'')
      else if user = '''' then Inl (401, ''user not authenticated'')
      else case get_member_by_user_and_workspace a (parse user) (parse ws) of
        Inl _ \<Rightarrow> Inl (404, ''workspace not found'')
      | Inr m \<Rightarrow> if roles \<noteq> [] \<and> \<not> role_allowed (se_role m) roles then Inl (403, ''insufficient permissions'') else Inr m)"

definition require_workspace_member ::
    "(string \<Rightarrow> uuid option) \<Rightarrow> accounts \<Rightarrow> string \<Rightarrow> string \<Rightarrow> string \<Rightarrow> seat_row reply" where
  "require_workspace_member parse a ws user not_found =
     (if ws = '''' then Inl (400, ''workspace_id is required'')
      else if user = '''' then Inl (401, ''user not authenticated'')
      else case get_member_by_user_and_workspace a (parse user) (parse ws) of Inl _ \<Rightarrow> Inl (404, not_found) | Inr m \<Rightarrow> Inr m)"

definition require_workspace_role ::
    "(string \<Rightarrow> uuid option) \<Rightarrow> accounts \<Rightarrow> string \<Rightarrow> string \<Rightarrow> string \<Rightarrow> string list \<Rightarrow> seat_row reply" where
  "require_workspace_role parse a ws user not_found roles =
     (case require_workspace_member parse a ws user not_found of
        Inl err \<Rightarrow> Inl err
      | Inr m \<Rightarrow> if role_allowed (se_role m) roles then Inr m else Inl (403, ''insufficient permissions''))"

section \<open>Workspaces\<close>

definition upper_char :: "char \<Rightarrow> char" where
  "upper_char c = (let n = (of_char c :: nat) in if 97 \<le> n \<and> n \<le> 122 then char_of (n - 32) else c)"

definition to_upper :: "string \<Rightarrow> string" where
  "to_upper = map upper_char"

definition is_letter :: "char \<Rightarrow> bool" where
  "is_letter c \<longleftrightarrow> (let n = (of_char c :: nat) in 65 \<le> n \<and> n \<le> 90 \<or> 97 \<le> n \<and> n \<le> 122)"

definition generate_issue_prefix :: "string \<Rightarrow> string" where
  "generate_issue_prefix name =
     (let letters = filter is_letter name in if letters = [] then ''WS'' else take 3 (to_upper letters))"

record workspace_body =
  wb_name :: string
  wb_slug :: string
  wb_description :: pgtext
  wb_context :: pgtext
  wb_prefix :: pgtext

definition owner_seat :: "env \<Rightarrow> accounts \<Rightarrow> space_row \<Rightarrow> uuid \<Rightarrow> (accounts \<times> seat_row) res" where
  "owner_seat e a w u = create_member_row e a (Some (sp_id w)) u ''owner''"

definition create_workspace ::
    "(string \<Rightarrow> uuid option) \<Rightarrow> access_policy \<Rightarrow> env \<Rightarrow> accounts \<Rightarrow> string \<Rightarrow> workspace_body option \<Rightarrow> space_row served" where
  "create_workspace parse pol e a user body =
     (if user = '''' then fail a 401 ''user not authenticated''
      else if ap_creation_disabled pol then fail a 403 ''workspace creation is disabled; ask an administrator for an invitation''
      else case body of
        None \<Rightarrow> fail a 400 ''invalid request body''
      | Some b \<Rightarrow>
          let name = trim_space (wb_name b); slug = to_lower (trim_space (wb_slug b));
              prefix = (case wb_prefix b of
                          Some p \<Rightarrow> if trim_space p \<noteq> '''' then to_upper (trim_space p) else generate_issue_prefix name
                        | None \<Rightarrow> generate_issue_prefix name)
          in if name = '''' \<or> slug = '''' then fail a 400 ''name and slug are required''
             else if \<not> e_begin e then fail a 500 ''failed to create workspace''
             else case create_workspace_row e a name slug (wb_description b) (wb_context b) prefix of
               Inl err \<Rightarrow> if is_unique_violation err then fail a 409 ''workspace slug already exists''
                          else fail a 500 ''failed to create workspace''
             | Inr (a1, w) \<Rightarrow>
                 (case (case parse user of None \<Rightarrow> Inl ErrConstraint | Some u \<Rightarrow> owner_seat e a1 w u) of
                    Inl _ \<Rightarrow> fail a 500 ''failed to add owner''
                  | Inr (a2, _) \<Rightarrow> if e_commit e then (a2, [], Inr w) else fail a 500 ''failed to create workspace''))"

definition space_json :: "space_row \<Rightarrow> json" where
  "space_json w = JObj [(''id'', JStr (uuid_text (sp_id w))), (''name'', JStr (sp_name w)), (''slug'', JStr (sp_slug w)),
     (''description'', jstr_opt (sp_description w)), (''context'', jstr_opt (sp_context w)), (''issue_prefix'', JStr (sp_prefix w))]"

definition space_event :: "string \<Rightarrow> string \<Rightarrow> string \<Rightarrow> json \<Rightarrow> event" where
  "space_event ty ws user payload = \<lparr>ev_id = '''', ev_type = ty, ev_workspace = ws, ev_actor_type = ''member'', ev_actor = user, ev_payload = payload\<rparr>"

text \<open>Absent fields are left; the settings and the repositories come as the JSON they print.\<close>

definition update_workspace ::
    "(string \<Rightarrow> uuid option) \<Rightarrow> env \<Rightarrow> accounts \<Rightarrow> string \<Rightarrow> string \<Rightarrow> space_update option \<Rightarrow> space_row served" where
  "update_workspace parse e a ws user body =
     (case body of
        None \<Rightarrow> fail a 400 ''invalid request body''
      | Some b \<Rightarrow>
          if (case su_name b of None \<Rightarrow> False | Some n \<Rightarrow> trim_space n = '''') then fail a 400 ''name is required''
          else let u = b\<lparr>su_name := map_option trim_space (su_name b),
                         su_prefix := (case su_prefix b of None \<Rightarrow> None
                           | Some p \<Rightarrow> if to_upper (trim_space p) = '''' then None else Some (to_upper (trim_space p)))\<rparr>
            in (case update_workspace_row e a (parse ws) u of
                  Inl _ \<Rightarrow> fail a 500 ''failed to update workspace''
                | Inr (a', w) \<Rightarrow> (a', [space_event ''workspace:updated'' ws user (JObj [(''workspace'', space_json w)])], Inr w)))"

definition delete_workspace :: "(string \<Rightarrow> uuid option) \<Rightarrow> accounts \<Rightarrow> string \<Rightarrow> string \<Rightarrow> unit served" where
  "delete_workspace parse a ws user =
     (delete_workspace_row a (parse ws), [space_event ''workspace:deleted'' ws user (JObj [(''workspace_id'', JStr ws)])], Inr ())"

record sso_config =
  so_policy :: string
  so_domain :: string

definition set_sso_config ::
    "(string \<Rightarrow> uuid option) \<Rightarrow> env \<Rightarrow> accounts \<Rightarrow> string \<Rightarrow> string \<Rightarrow> sso_config option \<Rightarrow> space_row served" where
  "set_sso_config parse e a ws user body =
     (case require_workspace_role parse a ws user ''owner'' [''admin''] of
        Inl (status, msg) \<Rightarrow> fail a status msg
      | Inr _ \<Rightarrow> (case body of
          None \<Rightarrow> fail a 400 ''invalid request body''
        | Some b \<Rightarrow>
            let d = to_lower (trim_space (so_domain b)) in
            if so_policy b \<noteq> ''open'' \<and> so_policy b \<noteq> ''domain_claim''
            then fail a 400 (''invalid sso_policy; expected 'open' or 'domain_claim'' @ [CHR 0x27])
            else if so_policy b = ''domain_claim'' \<and> d = '''' then fail a 400 (''claimed_domain required when sso_policy = 'domain_claim'' @ [CHR 0x27])
            else (case claim_workspace_domain e a (parse ws) d of
              Inl _ \<Rightarrow> fail a 500 ''failed to set sso config''
            | Inr (a', w) \<Rightarrow> (a', [], Inr w))))"

definition get_sso_config :: "(string \<Rightarrow> uuid option) \<Rightarrow> accounts \<Rightarrow> string \<Rightarrow> string \<Rightarrow> sso_config reply" where
  "get_sso_config parse a ws user =
     (case require_workspace_member parse a ws user ''workspace not found'' of
        Inl err \<Rightarrow> Inl err
      | Inr _ \<Rightarrow> (case get_workspace a (parse ws) of
          Inl _ \<Rightarrow> Inl (500, ''failed to get sso config'')
        | Inr w \<Rightarrow> Inr \<lparr>so_policy = sp_sso w, so_domain = sp_domain w\<rparr>))"

section \<open>Members\<close>

text \<open>\<^verbatim>\<open>workspaceMember\<close> is the member the middleware of the route has put into the request: \<open>requester\<close>.\<close>

definition normalize_member_role :: "string \<Rightarrow> string option" where
  "normalize_member_role role =
     (if role = '''' then Some ''member''
      else if trim_space role \<in> set member_roles then Some (trim_space role) else None)"

definition seat_json :: "seat_row \<Rightarrow> user_row \<Rightarrow> json" where
  "seat_json m u = JObj [(''email'', JStr (us_email u)), (''id'', JStr (uuid_text (se_id m))), (''name'', JStr (us_name u)),
     (''role'', JStr (se_role m)), (''user_id'', JStr (uuid_text (se_user m))), (''workspace_id'', JStr (uuid_text (se_workspace m)))]"

definition removed_json :: "seat_row \<Rightarrow> string \<Rightarrow> json" where
  "removed_json m ws = JObj [(''member_id'', JStr (uuid_text (se_id m))), (''user_id'', JStr (uuid_text (se_user m))), (''workspace_id'', JStr ws)]"

definition invited_user :: "env \<Rightarrow> accounts \<Rightarrow> string \<Rightarrow> (accounts \<times> user_row) reply" where
  "invited_user e a email =
     (case get_user_by_email a email of
        Inr u \<Rightarrow> Inr (a, u)
      | Inl err \<Rightarrow>
          if error_is err ErrNoRows
          then (case create_user e a email email of Inl _ \<Rightarrow> Inl (500, ''failed to create user'') | Inr au \<Rightarrow> Inr au)
          else Inl (500, ''failed to load user''))"

definition create_member ::
    "(string \<Rightarrow> uuid option) \<Rightarrow> env \<Rightarrow> accounts \<Rightarrow> string \<Rightarrow> seat_row \<Rightarrow> string \<Rightarrow> (string \<times> string) option \<Rightarrow> seat_row served" where
  "create_member parse e a ws requester user body =
     (case body of
        None \<Rightarrow> fail a 400 ''invalid request body''
      | Some (mail, asked) \<Rightarrow>
          let email = normal_email mail in
          if email = '''' then fail a 400 ''email is required''
          else case normalize_member_role asked of
            None \<Rightarrow> fail a 400 ''invalid member role''
          | Some role \<Rightarrow>
              if role = ''owner'' \<and> se_role requester \<noteq> ''owner'' then fail a 403 ''insufficient permissions''
              else case invited_user e a email of
                Inl (status, msg) \<Rightarrow> fail a status msg
              | Inr (a1, u) \<Rightarrow>
                  (case create_member_row e a1 (parse ws) (us_id u) role of
                     Inl err \<Rightarrow> if is_unique_violation err then fail a1 409 ''user is already a member''
                                else fail a1 500 ''failed to create member''
                   | Inr (a2, m) \<Rightarrow>
                       (a2, [space_event ''member:added'' ws user (JObj ([(''member'', seat_json m u)] @
                               (case get_workspace a2 (parse ws) of Inl _ \<Rightarrow> [] | Inr w \<Rightarrow> [(''workspace_name'', JStr (sp_name w))])))],
                        Inr m)))"

text \<open>The member a path names, in this workspace.\<close>

definition target_member :: "(string \<Rightarrow> uuid option) \<Rightarrow> accounts \<Rightarrow> string \<Rightarrow> string \<Rightarrow> seat_row reply" where
  "target_member parse a ws mid =
     (case get_member a (parse mid) of
        Inl _ \<Rightarrow> Inl (404, ''member not found'')
      | Inr t \<Rightarrow> if uuid_text (se_workspace t) \<noteq> ws then Inl (404, ''member not found'') else Inr t)"

text \<open>The last owner of a workspace stays: what the handlers read before they write.\<close>

definition spare_owner :: "accounts \<Rightarrow> seat_row \<Rightarrow> unit reply" where
  "spare_owner a t =
     (if se_role t = ''owner'' \<and> count_owners (list_seats a (Some (se_workspace t))) \<le> 1
      then Inl (400, ''workspace must have at least one owner'') else Inr ())"

definition update_member_check ::
    "(string \<Rightarrow> uuid option) \<Rightarrow> accounts \<Rightarrow> string \<Rightarrow> seat_row \<Rightarrow> string \<Rightarrow> string option \<Rightarrow> (seat_row \<times> string) reply" where
  "update_member_check parse a ws requester mid body =
     (case target_member parse a ws mid of
        Inl err \<Rightarrow> Inl err
      | Inr t \<Rightarrow> (case body of
          None \<Rightarrow> Inl (400, ''invalid request body'')
        | Some asked \<Rightarrow>
            if trim_space asked = '''' then Inl (400, ''role is required'')
            else case normalize_member_role asked of
              None \<Rightarrow> Inl (400, ''invalid member role'')
            | Some role \<Rightarrow>
                if (se_role t = ''owner'' \<or> role = ''owner'') \<and> se_role requester \<noteq> ''owner''
                then Inl (403, ''insufficient permissions'')
                else if se_role t = ''owner'' \<and> role \<noteq> ''owner''
                then (case spare_owner a t of Inl err \<Rightarrow> Inl err | Inr _ \<Rightarrow> Inr (t, role))
                else Inr (t, role)))"

definition update_member_write :: "accounts \<Rightarrow> string \<Rightarrow> string \<Rightarrow> seat_row \<times> string \<Rightarrow> seat_row served" where
  "update_member_write a ws user tr =
     (case update_member_role_row a (se_id (fst tr)) (snd tr) of
        Inl _ \<Rightarrow> fail a 500 ''failed to update member''
      | Inr (a', m) \<Rightarrow> (case get_user a' (Some (se_user m)) of
          Inl _ \<Rightarrow> fail a' 500 ''failed to load member''
        | Inr u \<Rightarrow> (a', [space_event ''member:updated'' ws user (JObj [(''member'', seat_json m u)])], Inr m)))"

definition update_member ::
    "(string \<Rightarrow> uuid option) \<Rightarrow> accounts \<Rightarrow> string \<Rightarrow> seat_row \<Rightarrow> string \<Rightarrow> string \<Rightarrow> string option \<Rightarrow> seat_row served" where
  "update_member parse a ws requester user mid body =
     (case update_member_check parse a ws requester mid body of
        Inl (status, msg) \<Rightarrow> fail a status msg | Inr tr \<Rightarrow> update_member_write a ws user tr)"

definition delete_member_check ::
    "(string \<Rightarrow> uuid option) \<Rightarrow> accounts \<Rightarrow> string \<Rightarrow> seat_row \<Rightarrow> string \<Rightarrow> seat_row reply" where
  "delete_member_check parse a ws requester mid =
     (case target_member parse a ws mid of
        Inl err \<Rightarrow> Inl err
      | Inr t \<Rightarrow>
          if se_role t = ''owner'' \<and> se_role requester \<noteq> ''owner'' then Inl (403, ''insufficient permissions'')
          else (case spare_owner a t of Inl err \<Rightarrow> Inl err | Inr _ \<Rightarrow> Inr t))"

definition remove_seat :: "accounts \<Rightarrow> string \<Rightarrow> string \<Rightarrow> seat_row \<Rightarrow> unit served" where
  "remove_seat a ws user t =
     (delete_member_row a (se_id t), [space_event ''member:removed'' ws user (removed_json t ws)], Inr ())"

definition delete_member ::
    "(string \<Rightarrow> uuid option) \<Rightarrow> accounts \<Rightarrow> string \<Rightarrow> seat_row \<Rightarrow> string \<Rightarrow> string \<Rightarrow> unit served" where
  "delete_member parse a ws requester user mid =
     (case delete_member_check parse a ws requester mid of
        Inl (status, msg) \<Rightarrow> fail a status msg | Inr t \<Rightarrow> remove_seat a ws user t)"

definition leave_workspace :: "accounts \<Rightarrow> string \<Rightarrow> seat_row \<Rightarrow> string \<Rightarrow> unit served" where
  "leave_workspace a ws requester user =
     (case spare_owner a requester of Inl (status, msg) \<Rightarrow> fail a status msg | Inr _ \<Rightarrow> remove_seat a ws user requester)"

end
