(* ===== verification/Login.thy ===== *)
theory Login
  imports Membership
begin

text \<open>
  The login by e-mailed code (\<^verbatim>\<open>server/internal/handler/auth.go\<close>) and the routes of workspaces, members
  and login as requests (\<^verbatim>\<open>server/cmd/server/router.go\<close>).
\<close>

section \<open>Names\<close>

definition index_char :: "char \<Rightarrow> string \<Rightarrow> nat option" where
  "index_char c s = (if c \<in> set s then Some (length (takeWhile (\<lambda>x. x \<noteq> c) s)) else None)"

text \<open>The part before the first \<^verbatim>\<open>@\<close>, unless that is empty.\<close>

definition local_part :: "string \<Rightarrow> string \<Rightarrow> string" where
  "local_part email other = (case index_char (CHR ''@'') email of Some k \<Rightarrow> if 0 < k then take k email else other | None \<Rightarrow> other)"

definition default_workspace_name :: "user_row \<Rightarrow> string" where
  "default_workspace_name u =
     (let n1 = trim_space (us_name u);
          n2 = (if n1 = '''' then local_part (trim_space (us_email u)) n1 else n1);
          n3 = (if n2 = '''' then ''Personal'' else n2)
      in n3 @ [CHR 0x27] @ ''s Workspace'')"

text \<open>Letters and digits; every other run is one dash, none at the ends. Bytes of one rune are one run.\<close>

fun slug_chars :: "bool \<Rightarrow> bool \<Rightarrow> string \<Rightarrow> string" where
  "slug_chars begun dash [] = []"
| "slug_chars begun dash (c # cs) =
     (let n = (of_char c :: nat) in
      if 97 \<le> n \<and> n \<le> 122 \<or> 48 \<le> n \<and> n \<le> 57 then c # slug_chars True False cs
      else if begun \<and> \<not> dash then CHR ''-'' # slug_chars begun True cs
      else slug_chars begun dash cs)"

definition trim_dashes :: "string \<Rightarrow> string" where
  "trim_dashes s = rev (dropWhile (\<lambda>c. c = CHR ''-'') (rev (dropWhile (\<lambda>c. c = CHR ''-'') s)))"

definition slugify_workspace_part :: "string \<Rightarrow> string" where
  "slugify_workspace_part s = trim_dashes (slug_chars False False (to_lower (trim_space s)))"

definition default_workspace_slug :: "user_row \<Rightarrow> string" where
  "default_workspace_slug u =
     (case filter (\<lambda>c. c \<noteq> '''') [slugify_workspace_part (us_name u),
          slugify_workspace_part (hd (split_char (CHR ''@'') (trim_space (us_email u)))), ''workspace''] of
        [] \<Rightarrow> ''workspace'' @ ''-'' @ take 8 (uuid_text (us_id u))
      | base # _ \<Rightarrow> base @ ''-'' @ take 8 (uuid_text (us_id u)))"

definition email_domain :: "string \<Rightarrow> string" where
  "email_domain email = to_lower (if CHR ''@'' \<in> set email then rev (takeWhile (\<lambda>c. c \<noteq> CHR ''@'') (rev email)) else '''')"

definition valid_login_email :: "(string \<Rightarrow> string option) \<Rightarrow> string \<Rightarrow> bool" where
  "valid_login_email mail_address email \<longleftrightarrow> mail_address email = Some email \<and> email_domain email \<noteq> ''''"

section \<open>Signing up\<close>

definition err_signup_disabled :: go_error where
  "err_signup_disabled = ErrMsg ''signup is disabled; ask an administrator for an invitation''"
definition err_signup_not_allowed :: go_error where
  "err_signup_not_allowed = ErrMsg ''this email address is not allowed to sign up''"
definition err_creation_disabled :: go_error where
  "err_creation_disabled = ErrMsg ''workspace creation is disabled; ask an administrator for an invitation''"

definition check_signup_access :: "access_policy \<Rightarrow> accounts \<Rightarrow> string \<Rightarrow> unit res" where
  "check_signup_access pol a email =
     (case get_user_by_email a email of
        Inr _ \<Rightarrow> Inr ()
      | Inl err \<Rightarrow>
          if \<not> error_is err ErrNoRows then Inl err
          else if ap_signup_disabled pol then Inl err_signup_disabled
          else if \<not> allows_new_signup pol email then Inl err_signup_not_allowed
          else if \<not> ap_creation_disabled pol then Inr ()
          else (case find_workspace_by_email_domain a (email_domain email) of
            Inl err \<Rightarrow> if error_is err ErrNoRows then Inl err_creation_disabled else Inl err
          | Inr _ \<Rightarrow> Inr ()))"

definition is_access_policy_error :: "go_error \<Rightarrow> bool" where
  "is_access_policy_error err \<longleftrightarrow> error_is err err_signup_disabled \<or> error_is err err_signup_not_allowed \<or> error_is err err_creation_disabled"

definition access_reply :: "(go_error \<Rightarrow> string) \<Rightarrow> go_error \<Rightarrow> int \<times> string" where
  "access_reply txt err = (if is_access_policy_error err then (403, error_text txt err) else (500, ''failed to evaluate signup policy''))"

definition find_or_create_user :: "env \<Rightarrow> accounts \<Rightarrow> string \<Rightarrow> (accounts \<times> user_row) res" where
  "find_or_create_user e a email =
     (case get_user_by_email a email of
        Inr u \<Rightarrow> Inr (a, u)
      | Inl err \<Rightarrow> if \<not> error_is err ErrNoRows then Inl err else create_user e a (local_part email email) email)"

text \<open>The second reading is in the transaction; nobody else writes in between here.\<close>

definition ensure_user_workspace :: "access_policy \<Rightarrow> env \<Rightarrow> accounts \<Rightarrow> user_row \<Rightarrow> accounts res" where
  "ensure_user_workspace pol e a u =
     (if list_workspaces a (Some (us_id u)) \<noteq> [] then Inr a
      else if ap_creation_disabled pol then Inl err_creation_disabled
      else if \<not> e_begin e then Inl (ErrInfra ''begin'')
      else let name = default_workspace_name u in
        or_fail (create_workspace_row e a name (default_workspace_slug u) None None (generate_issue_prefix name)) (\<lambda>(a1, w).
        or_fail (owner_seat e a1 w (us_id u)) (\<lambda>(a2, _). if e_commit e then Inr a2 else Inl (ErrInfra ''commit''))))"

section \<open>Codes\<close>

record login_world =
  lw_mail_address :: "string \<Rightarrow> string option"
  lw_code :: "string option"
  lw_mail :: "string \<Rightarrow> string \<Rightarrow> string option res"
  lw_token :: "user_row \<Rightarrow> string option"
  lw_text :: "go_error \<Rightarrow> string"

definition send_code :: "login_world \<Rightarrow> access_policy \<Rightarrow> env \<Rightarrow> accounts \<Rightarrow> string option \<Rightarrow> string option served" where
  "send_code x pol e a body =
     (case body of
        None \<Rightarrow> fail a 400 ''invalid request body''
      | Some raw \<Rightarrow>
          let email = normal_email raw in
          if \<not> valid_login_email (lw_mail_address x) email then fail a 400 ''a valid email is required''
          else case check_signup_access pol a email of
            Inl err \<Rightarrow> (a, [], Inl (access_reply (lw_text x) err))
          | Inr _ \<Rightarrow>
              if (case get_latest_code_by_email a email of Inl _ \<Rightarrow> False | Inr c \<Rightarrow> e_wall e - vc_created_at c < 10000000000)
              then fail a 429 ''please wait before requesting another code''
              else case lw_code x of
                None \<Rightarrow> fail a 500 ''failed to generate code''
              | Some code \<Rightarrow>
                  (case create_verification_code e a email code (e_wall e + 600000000000) of
                     Inl _ \<Rightarrow> fail a 500 ''failed to store verification code''
                   | Inr (a1, c) \<Rightarrow>
                       (case lw_mail x email code of
                          Inl _ \<Rightarrow> fail (mark_verification_code_used a1 (vc_id c)) 500 ''failed to send verification code''
                        | Inr dev \<Rightarrow> (delete_expired_verification_codes e a1, [], Inr dev))))"

definition jit_provision :: "env \<Rightarrow> accounts \<Rightarrow> user_row \<Rightarrow> string \<Rightarrow> accounts" where
  "jit_provision e a u email =
     (if email_domain email = '''' then a
      else case find_workspace_by_email_domain a (email_domain email) of
        Inl _ \<Rightarrow> a
      | Inr w \<Rightarrow>
          (case get_member_by_user_and_workspace a (Some (us_id u)) (Some (sp_id w)) of
             Inr _ \<Rightarrow> a
           | Inl _ \<Rightarrow> (case create_member_row e a (Some (sp_id w)) (us_id u) ''member'' of Inl _ \<Rightarrow> a | Inr (a', _) \<Rightarrow> a')))"

text \<open>\<open>e\<close> and \<open>e'\<close>: the provisioning and the workspace of a new user draw their own identifiers.\<close>

definition verify_code ::
    "login_world \<Rightarrow> access_policy \<Rightarrow> env \<Rightarrow> env \<Rightarrow> accounts \<Rightarrow> (string \<times> string) option \<Rightarrow> (string \<times> user_row) served" where
  "verify_code x pol e e' a body =
     (case body of
        None \<Rightarrow> fail a 400 ''invalid request body''
      | Some (raw, asked) \<Rightarrow>
          let email = normal_email raw; code = trim_space asked in
          if email = '''' \<or> code = '''' then fail a 400 ''email and code are required''
          else if \<not> valid_login_email (lw_mail_address x) email then fail a 400 ''a valid email is required''
          else case check_signup_access pol a email of
            Inl err \<Rightarrow> (a, [], Inl (access_reply (lw_text x) err))
          | Inr _ \<Rightarrow>
              (case get_latest_verification_code e a email of
                 Inl _ \<Rightarrow> fail a 400 ''invalid or expired code''
               | Inr c \<Rightarrow>
                   if code \<noteq> vc_code c then fail (increment_verification_code_attempts a (vc_id c)) 400 ''invalid or expired code''
                   else let a1 = mark_verification_code_used a (vc_id c) in
                     (case find_or_create_user e a1 email of
                        Inl _ \<Rightarrow> fail a1 500 ''failed to create user''
                      | Inr (a2, u) \<Rightarrow>
                          let a3 = jit_provision e a2 u email in
                          (case ensure_user_workspace pol e' a3 u of
                             Inl err \<Rightarrow> (a3, [], Inl (if error_is err err_creation_disabled then (403, error_text (lw_text x) err)
                                                     else (500, ''failed to provision workspace'')))
                           | Inr a4 \<Rightarrow> (case lw_token x u of
                               None \<Rightarrow> fail a4 500 ''failed to generate token''
                             | Some t \<Rightarrow> (a4, [], Inr (t, u)))))))"

section \<open>The user's own profile and listings\<close>

definition get_me :: "(string \<Rightarrow> uuid option) \<Rightarrow> accounts \<Rightarrow> string \<Rightarrow> user_row reply" where
  "get_me parse a user =
     (if user = '''' then Inl (401, ''user not authenticated'')
      else case get_user a (parse user) of Inl _ \<Rightarrow> Inl (404, ''user not found'') | Inr u \<Rightarrow> Inr u)"

definition update_me :: "(string \<Rightarrow> uuid option) \<Rightarrow> env \<Rightarrow> accounts \<Rightarrow> string \<Rightarrow> (pgtext \<times> pgtext) option \<Rightarrow> user_row served" where
  "update_me parse e a user body =
     (if user = '''' then fail a 401 ''user not authenticated''
      else case body of
        None \<Rightarrow> fail a 400 ''invalid request body''
      | Some (asked, avatar) \<Rightarrow>
          (case get_user a (parse user) of
             Inl _ \<Rightarrow> fail a 404 ''user not found''
           | Inr current \<Rightarrow>
               let name = (case asked of None \<Rightarrow> us_name current | Some n \<Rightarrow> trim_space n) in
               if asked \<noteq> None \<and> name = '''' then fail a 400 ''name is required''
               else case update_user e a (us_id current) name (map_option trim_space avatar) of
                 Inl _ \<Rightarrow> fail a 500 ''failed to update user''
               | Inr (a', u) \<Rightarrow> (a', [], Inr u)))"

definition my_workspaces :: "(string \<Rightarrow> uuid option) \<Rightarrow> accounts \<Rightarrow> string \<Rightarrow> space_row list reply" where
  "my_workspaces parse a user =
     (if user = '''' then Inl (401, ''user not authenticated'') else Inr (list_workspaces a (parse user)))"

definition workspace_members :: "(string \<Rightarrow> uuid option) \<Rightarrow> accounts \<Rightarrow> string \<Rightarrow> string \<Rightarrow> seat_row list reply" where
  "workspace_members parse a ws user =
     (case require_workspace_member parse a ws user ''workspace not found'' of
        Inl err \<Rightarrow> Inl err | Inr _ \<Rightarrow> Inr (list_seats a (parse ws)))"

section \<open>Requests\<close>

datatype account_request =
    SendCode "string option"
  | VerifyCode "(string \<times> string) option"
  | UpdateMe "(pgtext \<times> pgtext) option"
  | CreateWorkspace "workspace_body option"
  | UpdateWorkspace string "space_update option"
  | DeleteWorkspace string
  | SetSSO string "sso_config option"
  | CreateMember string "(string \<times> string) option"
  | UpdateMember string string "string option"
  | DeleteMember string string
  | LeaveWorkspace string

text \<open>The route's middleware, then the handler; of the answer only the status is kept.\<close>

definition reply_status :: "'a reply \<Rightarrow> int" where
  "reply_status r = (case r of Inl (status, _) \<Rightarrow> status | Inr _ \<Rightarrow> 200)"

definition done_with :: "'a served \<Rightarrow> accounts \<times> event list \<times> int" where
  "done_with r = (case r of (a, evs, x) \<Rightarrow> (a, evs, reply_status x))"

definition as_member ::
    "(string \<Rightarrow> uuid option) \<Rightarrow> string list \<Rightarrow> accounts \<Rightarrow> string \<Rightarrow> string \<Rightarrow> (seat_row \<Rightarrow> 'a served) \<Rightarrow> accounts \<times> event list \<times> int" where
  "as_member parse roles a ws user handler =
     (case workspace_middleware parse roles a ws user of Inl (status, _) \<Rightarrow> (a, [], status) | Inr m \<Rightarrow> done_with (handler m))"

record account_server =
  as_parse :: "string \<Rightarrow> uuid option"
  as_policy :: access_policy
  as_login :: login_world

definition account_step ::
    "account_server \<Rightarrow> env \<Rightarrow> env \<Rightarrow> string \<Rightarrow> account_request \<Rightarrow> accounts \<Rightarrow> accounts \<times> event list \<times> int" where
  "account_step s e e' user req a =
     (let parse = as_parse s; pol = as_policy s; managers = [''owner'', ''admin''] in
      case req of
        SendCode b \<Rightarrow> done_with (send_code (as_login s) pol e a b)
      | VerifyCode b \<Rightarrow> done_with (verify_code (as_login s) pol e e' a b)
      | UpdateMe b \<Rightarrow> done_with (update_me parse e a user b)
      | CreateWorkspace b \<Rightarrow> done_with (create_workspace parse pol e a user b)
      | UpdateWorkspace ws b \<Rightarrow> as_member parse managers a ws user (\<lambda>_. update_workspace parse e a ws user b)
      | DeleteWorkspace ws \<Rightarrow> as_member parse [''owner''] a ws user (\<lambda>_. delete_workspace parse a ws user)
      | SetSSO ws b \<Rightarrow> as_member parse managers a ws user (\<lambda>_. set_sso_config parse e a ws user b)
      | CreateMember ws b \<Rightarrow> as_member parse managers a ws user (\<lambda>m. create_member parse e a ws m user b)
      | UpdateMember ws mid b \<Rightarrow> as_member parse managers a ws user (\<lambda>m. update_member parse a ws m user mid b)
      | DeleteMember ws mid \<Rightarrow> as_member parse managers a ws user (\<lambda>m. delete_member parse a ws m user mid)
      | LeaveWorkspace ws \<Rightarrow> as_member parse [] a ws user (\<lambda>m. leave_workspace a ws m user))"

end
