(* ===== verification/AccountsProps.thy ===== *)
theory AccountsProps
  imports Login LifecycleDemo
begin

text \<open>
  Accounts: the access policy says what it is configured to, every workspace keeps an owner and only
  owners make owners, a login takes an open code and uses it up. Two requests at once can remove the last
  owner; the domain of a workspace cannot be set by its owner.
\<close>

section \<open>The access policy\<close>

text \<open>The entries of an allowlist, in their normal form.\<close>

definition entries :: "string \<Rightarrow> string list" where
  "entries s = filter (\<lambda>x. x \<noteq> '''') (map normal_email (split_char (CHR '','') s))"

definition policy_knows :: "access_policy \<Rightarrow> string \<Rightarrow> bool" where
  "policy_knows p x \<longleftrightarrow> x \<in> set (ap_emails p) \<or> (\<exists>d\<in>set (ap_domains p). x = CHR ''@'' # d)"

lemma has_prefix_single: "has_prefix s [c] \<longleftrightarrow> (\<exists>r. s = c # r)"
  by (auto simp: has_prefix_iff)

lemma add_entry_Inr:
  assumes "add_entry raw p = Inr p'"
  shows "ap_signup_disabled p' = ap_signup_disabled p \<and> ap_creation_disabled p' = ap_creation_disabled p \<and>
    (policy_knows p' x \<longleftrightarrow> policy_knows p x \<or> normal_email raw \<noteq> '''' \<and> x = normal_email raw) \<and>
    (CHR ''@'' # d \<in> set (ap_emails p') \<longrightarrow> CHR ''@'' # d \<in> set (ap_emails p))"
  using assms by (auto simp: add_entry_def policy_knows_def Let_def has_prefix_single eq_commute [of "_ # _" "normal_email raw"]
      split: if_splits option.splits prod.splits)

lemma add_entries_Inr:
  "add_entries raws p = Inr p' \<Longrightarrow> ap_signup_disabled p' = ap_signup_disabled p \<and> ap_creation_disabled p' = ap_creation_disabled p \<and>
    (policy_knows p' x \<longleftrightarrow> policy_knows p x \<or> x \<in> set (filter (\<lambda>y. y \<noteq> '''') (map normal_email raws))) \<and>
    (CHR ''@'' # d \<in> set (ap_emails p') \<longrightarrow> CHR ''@'' # d \<in> set (ap_emails p))"
proof (induction raws arbitrary: p)
  case (Cons raw raws)
  then obtain p1 where "add_entry raw p = Inr p1" "add_entries raws p1 = Inr p'" by (auto simp: or_fail_Inr)
  from add_entry_Inr [OF this(1), of x d] Cons.IH [OF this(2)] show ?case by auto
qed simp

definition env_flag :: "string \<Rightarrow> bool" where
  "env_flag s \<longleftrightarrow> trim_space s \<noteq> '''' \<and> parse_bool (trim_space s) = Some True"

lemma parse_optional_bool_Inr: "parse_optional_bool name v = Inr b \<Longrightarrow> b = env_flag v"
  by (auto simp: parse_optional_bool_def env_flag_def split: if_splits option.splits)

lemma policy_empty: "ap_emails p = [] \<and> ap_domains p = [] \<longleftrightarrow> (\<forall>x. \<not> policy_knows p x)"
proof
  assume none: "\<forall>x. \<not> policy_knows p x"
  have "ap_emails p = []" using none by (cases "ap_emails p") (auto simp: policy_knows_def)
  moreover have "ap_domains p = []"
  proof (cases "ap_domains p")
    case (Cons d ds)
    then have "policy_knows p (CHR ''@'' # d)" by (auto simp: policy_knows_def)
    with none show ?thesis by blast
  qed simp
  ultimately show "ap_emails p = [] \<and> ap_domains p = []" by simp
qed (simp add: policy_knows_def)

lemma drop_to: "c \<in> set s \<Longrightarrow> \<exists>r. dropWhile (\<lambda>x. x \<noteq> c) s = c # r"
  by (induction s) auto

text \<open>A configured server lets a new address sign up exactly when signing up is not disabled and the
  allowlist is empty, or lists the address, or lists \<^verbatim>\<open>@\<close> and what follows the address's first \<^verbatim>\<open>@\<close>.\<close>

theorem signup_allowed_iff:
  assumes "new_access_policy getenv = Inr p"
  shows "allows_new_signup p raw \<longleftrightarrow> \<not> env_flag (getenv ''AGENTRA_SIGNUP_DISABLED'') \<and>
    (entries (getenv ''AGENTRA_SIGNUP_ALLOWLIST'') = [] \<or>
     normal_email raw \<in> set (entries (getenv ''AGENTRA_SIGNUP_ALLOWLIST'')) \<or>
     dropWhile (\<lambda>c. c \<noteq> CHR ''@'') (normal_email raw) \<in> set (entries (getenv ''AGENTRA_SIGNUP_ALLOWLIST'')))"
proof -
  obtain b1 b2 where b: "parse_optional_bool ''AGENTRA_SIGNUP_DISABLED'' (getenv ''AGENTRA_SIGNUP_DISABLED'') = Inr b1"
    and p: "add_entries (split_char (CHR '','') (getenv ''AGENTRA_SIGNUP_ALLOWLIST''))
        \<lparr>ap_signup_disabled = b1, ap_creation_disabled = b2, ap_emails = [], ap_domains = []\<rparr> = Inr p"
    using assms by (auto simp: new_access_policy_def or_fail_Inr)
  let ?es = "entries (getenv ''AGENTRA_SIGNUP_ALLOWLIST'')" and ?m = "normal_email raw"
  have flag: "ap_signup_disabled p = env_flag (getenv ''AGENTRA_SIGNUP_DISABLED'')"
    using add_entries_Inr [OF p] parse_optional_bool_Inr [OF b] by simp
  have knows: "policy_knows p x \<longleftrightarrow> x \<in> set ?es" for x
    using add_entries_Inr [OF p, of x] by (simp add: policy_knows_def entries_def)
  have plain: "CHR ''@'' # d \<notin> set (ap_emails p)" for d using add_entries_Inr [OF p, of _ d] by simp
  have none: "ap_emails p = [] \<and> ap_domains p = [] \<longleftrightarrow> ?es = []"
    unfolding policy_empty knows by (cases ?es) auto
  have domain: "(case cut_char (CHR ''@'') ?m of None \<Rightarrow> False | Some (_, d) \<Rightarrow> d \<in> set (ap_domains p)) \<longleftrightarrow>
      dropWhile (\<lambda>c. c \<noteq> CHR ''@'') ?m \<in> set ?es"
  proof (cases "CHR ''@'' \<in> set ?m")
    case True
    then obtain d where d: "dropWhile (\<lambda>c. c \<noteq> CHR ''@'') ?m = CHR ''@'' # d" using drop_to [of _ ?m] by blast
    have "CHR ''@'' # d \<in> set ?es \<longleftrightarrow> d \<in> set (ap_domains p)" using plain [of d] unfolding knows [symmetric] policy_knows_def by auto
    with d True show ?thesis by (simp add: cut_char_def)
  next
    case False
    then have e: "dropWhile (\<lambda>c. c \<noteq> CHR ''@'') ?m = ''''" by (auto simp: dropWhile_eq_Nil_conv)
    show ?thesis unfolding e using False by (simp add: cut_char_def entries_def)
  qed
  have "?m \<in> set ?es \<longleftrightarrow> ?m \<in> set (ap_emails p) \<or> (\<exists>d\<in>set (ap_domains p). ?m = CHR ''@'' # d)"
    unfolding knows [symmetric] policy_knows_def ..
  moreover have "dropWhile (\<lambda>c. c \<noteq> CHR ''@'') ?m = ?m" if "?m = CHR ''@'' # d" for d using that by simp
  ultimately show ?thesis
    unfolding allows_new_signup_def Let_def flag none domain by (metis knows policy_knows_def)
qed

lemma signup_allowed_iff_witness:
  "let g = (\<lambda>k. if k = ''AGENTRA_SIGNUP_ALLOWLIST'' then ''@Corp.io, Ann@x.org'' else '''') in
   allows_new_signup (server_policy g) '' bob@corp.io'' \<and> \<not> allows_new_signup (server_policy g) ''eve@x.org''"
proof -
  let ?g = "\<lambda>k. if k = ''AGENTRA_SIGNUP_ALLOWLIST'' then ''@Corp.io, Ann@x.org'' else ''''"
  let ?p = "\<lparr>ap_signup_disabled = False, ap_creation_disabled = False, ap_emails = [''ann@x.org''], ap_domains = [''corp.io'']\<rparr>"
  have p: "new_access_policy ?g = Inr ?p" by code_simp
  have "allows_new_signup ?p '' bob@corp.io''" "\<not> allows_new_signup ?p ''eve@x.org''"
    unfolding signup_allowed_iff [OF p] by code_simp+
  with p show ?thesis by (simp add: server_policy_def)
qed

section \<open>Owners\<close>

abbreviation owner :: "seat_row \<Rightarrow> bool" where "owner s \<equiv> se_role s = ''owner''"

abbreviation space_ids :: "accounts \<Rightarrow> uuid set" where "space_ids a \<equiv> sp_id ` set (ac_spaces a)"

definition owned :: "accounts \<Rightarrow> uuid \<Rightarrow> bool" where
  "owned a w \<longleftrightarrow> (\<exists>s\<in>set (ac_seats a). se_workspace s = w \<and> owner s)"

text \<open>The keys of the tables, and the rule itself.\<close>

definition accounts_ok :: "accounts \<Rightarrow> bool" where
  "accounts_ok a \<longleftrightarrow> distinct (map sp_id (ac_spaces a)) \<and> distinct (map se_id (ac_seats a)) \<and>
     (\<forall>s\<in>set (ac_seats a). se_workspace s \<in> space_ids a) \<and> (\<forall>w\<in>space_ids a. owned a w)"

text \<open>Nothing but new workspaces with their owners, and seats that are no owners.\<close>

definition grows :: "accounts \<Rightarrow> accounts \<Rightarrow> bool" where
  "grows a a' \<longleftrightarrow> (accounts_ok a \<longrightarrow> accounts_ok a') \<and> space_ids a \<subseteq> space_ids a' \<and>
     (\<forall>s\<in>set (ac_seats a'). owner s \<longrightarrow> s \<in> set (ac_seats a) \<or> se_workspace s \<notin> space_ids a)"

lemma grows_refl [simp]: "grows a a"
  by (simp add: grows_def)

lemma grows_trans: "grows a b \<Longrightarrow> grows b c \<Longrightarrow> grows a c"
  unfolding grows_def by (meson subsetD subset_trans)

lemma grows_same: "map sp_id (ac_spaces a') = map sp_id (ac_spaces a) \<Longrightarrow> ac_seats a' = ac_seats a \<Longrightarrow> grows a a'"
proof -
  assume eq: "map sp_id (ac_spaces a') = map sp_id (ac_spaces a)" "ac_seats a' = ac_seats a"
  have "space_ids a' = space_ids a" using arg_cong [OF eq(1), of set] by simp
  with eq show ?thesis by (simp add: grows_def accounts_ok_def owned_def)
qed

lemma create_user_grows: "create_user e a n m = Inr (a', u) \<Longrightarrow> grows a a'"
  by (rule grows_same) (auto simp: create_user_def or_fail_Inr insert_row_Inr Let_def)

lemma update_space_where_grows:
  assumes "update_space_where a i f = Inr (a', w)" "\<And>w. sp_id (f w) = sp_id w"
  shows "grows a a'"
  using assms by (intro grows_same) (auto simp: update_space_where_def or_fail_Inr map_upd_where)

lemma change_code_grows [simp]: "grows a (change_code f a i)"
  by (rule grows_same) (simp_all add: change_code_def)

lemma create_member_row_Inr:
  assumes "create_member_row e a w u role = Inr (a', m)"
  shows "a' = a\<lparr>ac_seats := ac_seats a @ [m]\<rparr> \<and> Some (se_workspace m) = w \<and> se_role m = role \<and> se_user m = u \<and>
    se_id m \<notin> se_id ` set (ac_seats a) \<and> se_workspace m \<in> space_ids a"
  using assms by (auto simp: create_member_row_def or_fail_Inr insert_row_Inr Let_def split: option.splits)

lemma create_member_row_ok:
  assumes "create_member_row e a w u role = Inr (a', m)" "accounts_ok a"
  shows "accounts_ok a'"
  using create_member_row_Inr [OF assms(1)] assms(2) by (auto simp: accounts_ok_def owned_def)

lemma create_member_row_grows: "create_member_row e a w u role = Inr (a', m) \<Longrightarrow> role \<noteq> ''owner'' \<Longrightarrow> grows a a'"
  using create_member_row_ok create_member_row_Inr by (fastforce simp: grows_def)

lemma new_space_grows:
  assumes "create_workspace_row e a n sl d c p = Inr (a1, w)" "owner_seat e a1 w u = Inr (a2, m)"
  shows "grows a a2"
proof -
  have w: "a1 = a\<lparr>ac_spaces := ac_spaces a @ [w]\<rparr>" "sp_id w \<notin> space_ids a"
    using assms(1) by (auto simp: create_workspace_row_def or_fail_Inr insert_row_Inr Let_def)
  from create_member_row_Inr [OF assms(2) [unfolded owner_seat_def]]
  have m: "a2 = a1\<lparr>ac_seats := ac_seats a1 @ [m]\<rparr>" "se_workspace m = sp_id w" "owner m" "se_id m \<notin> se_id ` set (ac_seats a1)" by auto
  have "accounts_ok a2" if "accounts_ok a"
    using that w m by (auto simp: accounts_ok_def owned_def)
  with w m show ?thesis by (auto simp: grows_def)
qed

lemma ensure_user_workspace_grows: "ensure_user_workspace pol e a u = Inr a' \<Longrightarrow> grows a a'"
  by (auto simp: ensure_user_workspace_def Let_def or_fail_Inr if_Inr intro: new_space_grows split: if_splits)

lemma jit_provision_grows: "grows a (jit_provision e a u m)"
  by (auto simp: jit_provision_def split: sum.splits intro: create_member_row_grows)

lemma find_or_create_user_grows: "find_or_create_user e a m = Inr (a', u) \<Longrightarrow> grows a a'"
  by (auto simp: find_or_create_user_def split: sum.splits if_splits intro: create_user_grows)

lemma invited_user_grows: "invited_user e a m = Inr (a', u) \<Longrightarrow> grows a a'"
  by (auto simp: invited_user_def split: sum.splits if_splits intro: create_user_grows)

lemma update_me_grows: "grows a (fst (update_me parse e a user b))"
proof -
  have "grows a a'" if "update_user e a i n v = Inr (a', u)" for i n v a' u
    using that by (intro grows_same) (auto simp: update_user_def or_fail_Inr Let_def)
  then show ?thesis by (auto simp: update_me_def Let_def split: option.splits sum.splits)
qed

lemma send_code_grows: "grows a (fst (send_code x pol e a b))"
proof -
  have new: "create_verification_code e a m c t = Inr (a', v) \<Longrightarrow> grows a a'" for m c t a' v
    by (rule grows_same) (auto simp: create_verification_code_def or_fail_Inr insert_row_Inr Let_def)
  have old: "grows a' (delete_expired_verification_codes e a')" for a' by (rule grows_same) (simp_all add: delete_expired_verification_codes_def)
  show ?thesis
    unfolding send_code_def Let_def mark_verification_code_used_def
    by (auto split: option.splits sum.splits intro: new grows_trans [OF new old] grows_trans [OF new change_code_grows])
qed

lemma verify_code_grows: "grows a (fst (verify_code x pol e e' a b))"
proof -
  have found: "grows a (jit_provision e a2 u m)" if "find_or_create_user e (change_code f a i) k = Inr (a2, u)" for f i k a2 u m
    by (rule grows_trans [OF grows_trans [OF change_code_grows find_or_create_user_grows [OF that]] jit_provision_grows])
  have made: "grows a a4" if "find_or_create_user e (change_code f a i) k = Inr (a2, u)"
    "ensure_user_workspace pol e' (jit_provision e a2 u m) u = Inr a4" for f i k a2 u m a4
    by (rule grows_trans [OF found [OF that(1)] ensure_user_workspace_grows [OF that(2)]])
  show ?thesis
    unfolding verify_code_def Let_def mark_verification_code_used_def increment_verification_code_attempts_def
    by (auto split: option.splits sum.splits dest: found made)
qed

text \<open>What the check of the last owner finds: an owner besides the member.\<close>

lemma other_owner:
  assumes "accounts_ok a" "t \<in> set (ac_seats a)" "spare_owner a t = Inr ()"
  obtains s where "s \<in> set (ac_seats a)" "se_id s \<noteq> se_id t" "se_workspace s = se_workspace t" "owner s"
proof (cases "owner t")
  case False
  from assms(1,2) obtain s where "s \<in> set (ac_seats a)" "se_workspace s = se_workspace t" "owner s"
    by (fastforce simp: accounts_ok_def owned_def)
  moreover have "se_id s \<noteq> se_id t"
    using assms(1,2) calculation False distinct_key_eq [of se_id "ac_seats a" s t] by (auto simp: accounts_ok_def)
  ultimately show ?thesis using that by blast
next
  case True
  let ?os = "filter owner (list_seats a (Some (se_workspace t)))"
  have "distinct (map se_id (ac_seats a))" using assms(1) by (simp add: accounts_ok_def)
  then have "distinct (map se_id (list_seats a (Some (se_workspace t))))"
    unfolding list_seats_def distinct_sort_by by (rule distinct_map_filter)
  then have d: "distinct (map se_id ?os)" by (rule distinct_map_filter)
  have "1 < length ?os" using assms(3) True by (simp add: spare_owner_def count_owners_def split: if_splits)
  then obtain x y rest where os: "?os = x # y # rest" by (cases ?os; cases "tl ?os") auto
  with d have "se_id x \<noteq> se_id y" by simp
  moreover have "set ?os = {s \<in> set (ac_seats a). se_workspace s = se_workspace t \<and> owner s}" by (auto simp: list_seats_def)
  then have "x \<in> set (ac_seats a) \<and> se_workspace x = se_workspace t \<and> owner x" "y \<in> set (ac_seats a) \<and> se_workspace y = se_workspace t \<and> owner y"
    unfolding os by auto
  ultimately show ?thesis using that [of x] that [of y] by metis
qed

lemma delete_member_row_ok:
  assumes "accounts_ok a" "t \<in> set (ac_seats a)" "spare_owner a t = Inr ()"
  shows "accounts_ok (delete_member_row a (se_id t))"
proof -
  from other_owner [OF assms] obtain s where s: "s \<in> set (ac_seats a)" "se_id s \<noteq> se_id t" "se_workspace s = se_workspace t" "owner s" .
  have "owned (delete_member_row a (se_id t)) w" if w: "w \<in> space_ids a" for w
  proof -
    from assms(1) w obtain o' where o': "o' \<in> set (ac_seats a)" "se_workspace o' = w" "owner o'" by (auto simp: accounts_ok_def owned_def)
    show ?thesis
    proof (cases "se_id o' = se_id t")
      case True
      then have "o' = t" using distinct_key_eq [of se_id "ac_seats a"] assms(1,2) o'(1) by (auto simp: accounts_ok_def)
      with s o' show ?thesis by (auto simp: owned_def delete_member_row_def)
    qed (use o' in \<open>auto simp: owned_def delete_member_row_def\<close>)
  qed
  with assms(1) show ?thesis by (auto simp: accounts_ok_def delete_member_row_def distinct_map_filter)
qed

lemma update_member_role_row_Inr:
  "update_member_role_row a i role = Inr (a', m) \<Longrightarrow>
     a' = a\<lparr>ac_seats := upd_where (\<lambda>s. se_id s = i) (\<lambda>s. s\<lparr>se_role := role\<rparr>) (ac_seats a)\<rparr>"
  by (auto simp: update_member_role_row_def or_fail_Inr split: if_splits)

lemma update_member_role_row_ok:
  assumes "accounts_ok a" "t \<in> set (ac_seats a)" "role \<noteq> ''owner'' \<longrightarrow> owner t \<longrightarrow> spare_owner a t = Inr ()"
    "update_member_role_row a (se_id t) role = Inr (a', m)"
  shows "accounts_ok a'"
proof -
  let ?f = "\<lambda>s. if se_id s = se_id t then s\<lparr>se_role := role\<rparr> else s"
  note a' = update_member_role_row_Inr [OF assms(4)]
  have seats: "set (ac_seats a') = ?f ` set (ac_seats a)" unfolding a' by (simp add: set_upd_where)
  have "owned a' w" if w: "w \<in> space_ids a" for w
  proof -
    from assms(1) w obtain o' where o': "o' \<in> set (ac_seats a)" "se_workspace o' = w" "owner o'" by (auto simp: accounts_ok_def owned_def)
    show ?thesis
    proof (cases "se_id o' = se_id t \<and> role \<noteq> ''owner''")
      case True
      then have "o' = t" using distinct_key_eq [of se_id "ac_seats a"] assms(1,2) o'(1) by (auto simp: accounts_ok_def)
      with True o' assms(3) have "spare_owner a t = Inr ()" by simp
      from other_owner [OF assms(1,2) this] obtain s where s: "s \<in> set (ac_seats a)" "se_id s \<noteq> se_id t" "se_workspace s = se_workspace t" "owner s" .
      then have "s \<in> set (ac_seats a')" unfolding seats by force
      with s o' \<open>o' = t\<close> show ?thesis by (auto simp: owned_def)
    next
      case False
      have "?f o' \<in> set (ac_seats a')" unfolding seats using o'(1) by (rule imageI)
      moreover have "se_workspace (?f o') = w" "owner (?f o')" using o' False by auto
      ultimately show ?thesis unfolding owned_def by blast
    qed
  qed
  moreover have "map se_id (ac_seats a') = map se_id (ac_seats a)" unfolding a' by (simp add: map_upd_where)
  moreover have "\<forall>s\<in>set (ac_seats a'). se_workspace s \<in> space_ids a" unfolding seats using assms(1) by (auto simp: accounts_ok_def)
  moreover have "ac_spaces a' = ac_spaces a" unfolding a' by simp
  ultimately show ?thesis using assms(1) by (simp add: accounts_ok_def)
qed

lemma delete_workspace_row_ok: "accounts_ok a \<Longrightarrow> accounts_ok (delete_workspace_row a i)"
  by (auto simp: accounts_ok_def owned_def delete_workspace_row_def distinct_map_filter image_iff) metis+

section \<open>Requests\<close>

lemma middleware_Inr:
  assumes "workspace_middleware parse roles a ws user = Inr m"
  shows "m \<in> set (ac_seats a) \<and> Some (se_user m) = parse user \<and> Some (se_workspace m) = parse ws \<and> (roles = [] \<or> se_role m \<in> set roles)"
  using assms by (auto simp: workspace_middleware_def get_member_by_user_and_workspace_def role_allowed_def
      dest!: select_one_Inr split: if_splits sum.splits)

lemma done_with_fst: "fst (done_with r) = fst r"
  by (simp add: done_with_def split: prod.splits)

lemma as_member_cases:
  assumes "fst (as_member parse roles a ws user handler) = a'"
  obtains "a' = a" | m where "workspace_middleware parse roles a ws user = Inr m" "fst (handler m) = a'"
  using assms by (auto simp: as_member_def done_with_fst split: sum.splits)

lemma as_member_grows: "(\<And>m. grows a (fst (handler m))) \<Longrightarrow> grows a (fst (as_member parse roles a ws user handler))"
  by (rule as_member_cases [OF refl, of parse roles a ws user handler]) (metis grows_refl)+

lemma as_member_subset:
  "(\<And>m. set (ac_seats (fst (handler m))) \<subseteq> set (ac_seats a)) \<Longrightarrow>
     set (ac_seats (fst (as_member parse roles a ws user handler))) \<subseteq> set (ac_seats a)"
  by (rule as_member_cases [OF refl, of parse roles a ws user handler]) (metis subset_refl)+

lemma target_member_Inr: "target_member parse a ws mid = Inr t \<Longrightarrow> t \<in> set (ac_seats a) \<and> uuid_text (se_workspace t) = ws"
  by (auto simp: target_member_def get_member_def dest!: select_one_Inr split: sum.splits if_splits)

lemma spare_owner_unit: "spare_owner a t = Inr u \<Longrightarrow> spare_owner a t = Inr ()"
  by simp

lemma update_member_check_Inr:
  assumes "update_member_check parse a ws requester mid body = Inr (t, role)"
  shows "t \<in> set (ac_seats a) \<and> uuid_text (se_workspace t) = ws \<and> (owner t \<or> role = ''owner'' \<longrightarrow> owner requester) \<and>
    (role \<noteq> ''owner'' \<longrightarrow> owner t \<longrightarrow> spare_owner a t = Inr ())"
  using assms target_member_Inr [of parse a ws mid]
  by (auto simp: update_member_check_def split: sum.splits option.splits if_splits)

lemma update_member_ok:
  assumes "accounts_ok a"
  shows "accounts_ok (fst (update_member parse a ws requester user mid body))"
proof (cases "update_member_check parse a ws requester mid body")
  case (Inr tr)
  obtain t role where tr: "tr = (t, role)" by (cases tr)
  from update_member_check_Inr [OF Inr [unfolded tr]] update_member_role_row_ok [OF assms, of t role] show ?thesis
    using assms by (auto simp: update_member_def Inr tr update_member_write_def split: sum.splits)
qed (use assms in \<open>simp add: update_member_def split: prod.splits\<close>)

lemma update_member_owners:
  assumes ok: "accounts_ok a"
    and "fst (update_member parse a ws requester user mid body) = a'"
    and "seat \<in> set (ac_seats a')" "owner seat" "seat \<notin> set (ac_seats a)"
  shows "\<exists>t\<in>set (ac_seats a). uuid_text (se_workspace t) = ws \<and> se_workspace seat = se_workspace t \<and> owner requester"
proof (cases "update_member_check parse a ws requester mid body")
  case (Inr tr)
  obtain t role where tr: "tr = (t, role)" by (cases tr)
  note check = update_member_check_Inr [OF Inr [unfolded tr]]
  from assms(2,3,5) obtain m where "update_member_role_row a (se_id t) role = Inr (a', m)"
    by (auto simp: update_member_def Inr tr update_member_write_def split: sum.splits)
  from update_member_role_row_Inr [OF this] assms(3-5) obtain s where "s \<in> set (ac_seats a)" "se_id s = se_id t"
    "seat = s\<lparr>se_role := role\<rparr>" by (auto simp: set_upd_where)
  moreover have "s = t" using distinct_key_eq [of se_id "ac_seats a" s t] ok check calculation by (auto simp: accounts_ok_def)
  ultimately show ?thesis using check assms(4) by auto
qed (use assms in \<open>auto simp: update_member_def split: prod.splits\<close>)

lemma delete_member_check_Inr:
  assumes "delete_member_check parse a ws requester mid = Inr t"
  shows "t \<in> set (ac_seats a) \<and> spare_owner a t = Inr () \<and> (owner t \<longrightarrow> owner requester)"
  using assms target_member_Inr [of parse a ws mid] by (auto simp: delete_member_check_def split: sum.splits if_splits)

lemma delete_member_ok:
  assumes "accounts_ok a"
  shows "accounts_ok (fst (delete_member parse a ws requester user mid))"
  using assms delete_member_row_ok [OF assms] delete_member_check_Inr [of parse a ws requester mid]
  by (auto simp: delete_member_def remove_seat_def split: sum.splits)

lemma leave_workspace_ok:
  assumes "accounts_ok a" "m \<in> set (ac_seats a)"
  shows "accounts_ok (fst (leave_workspace a ws m user))"
  using assms delete_member_row_ok [OF assms] by (auto simp: leave_workspace_def remove_seat_def split: sum.splits)

lemma create_workspace_grows: "grows a (fst (create_workspace parse pol e a user b))"
  by (auto simp: create_workspace_def Let_def split: option.splits sum.splits intro: new_space_grows)

lemma update_workspace_grows: "grows a (fst (update_workspace parse e a ws user b))"
  by (auto simp: update_workspace_def Let_def update_workspace_row_def updated_space_def split: option.splits sum.splits
      intro: update_space_where_grows)

lemma set_sso_config_grows: "grows a (fst (set_sso_config parse e a ws user b))"
  by (auto simp: set_sso_config_def Let_def claim_workspace_domain_def split: option.splits sum.splits intro: update_space_where_grows)

lemma delete_workspace_seats: "set (ac_seats (fst (delete_workspace parse a ws user))) \<subseteq> set (ac_seats a)"
  by (auto simp: delete_workspace_def delete_workspace_row_def)

lemma delete_member_seats: "set (ac_seats (fst (delete_member parse a ws m user mid))) \<subseteq> set (ac_seats a)"
  by (auto simp: delete_member_def remove_seat_def delete_member_row_def split: sum.splits)

lemma leave_workspace_seats: "set (ac_seats (fst (leave_workspace a ws m user))) \<subseteq> set (ac_seats a)"
  by (auto simp: leave_workspace_def remove_seat_def delete_member_row_def split: sum.splits)

text \<open>A member that is added: only an owner adds an owner.\<close>

definition adds_by :: "uuid option \<Rightarrow> seat_row \<Rightarrow> accounts \<Rightarrow> accounts \<Rightarrow> bool" where
  "adds_by ws requester a a' \<longleftrightarrow> (accounts_ok a \<longrightarrow> accounts_ok a') \<and>
     (grows a a' \<or> owner requester \<and> (\<forall>s\<in>set (ac_seats a'). s \<in> set (ac_seats a) \<or> Some (se_workspace s) = ws))"

lemma grows_adds: "grows a a' \<Longrightarrow> adds_by ws requester a a'"
  by (simp add: adds_by_def grows_def)

lemma invited_seats: "invited_user e a m = Inr (a1, u) \<Longrightarrow> ac_seats a1 = ac_seats a"
  by (auto simp: invited_user_def create_user_def or_fail_Inr insert_row_Inr Let_def split: sum.splits if_splits)

lemma invite_adds:
  assumes "invited_user e a m = Inr (a1, u)" "create_member_row e a1 ws (us_id u) role = Inr (a2, seat)"
    "role = ''owner'' \<longrightarrow> owner requester"
  shows "adds_by ws requester a a2"
proof (cases "role = ''owner''")
  case True
  with assms(3) create_member_row_Inr [OF assms(2)] create_member_row_ok [OF assms(2)] invited_seats [OF assms(1)]
    invited_user_grows [OF assms(1)] show ?thesis by (auto simp: adds_by_def grows_def)
next
  case False
  from grows_trans [OF invited_user_grows [OF assms(1)] create_member_row_grows [OF assms(2) False]] show ?thesis by (rule grows_adds)
qed

lemma create_member_adds: "adds_by (parse ws) requester a (fst (create_member parse e a ws requester user body))"
  using invite_adds [of e a _ _ _ "parse ws"] grows_adds [OF invited_user_grows [of e a]] grows_adds [OF grows_refl, of "parse ws" requester a]
  by (auto simp: create_member_def Let_def split: option.splits sum.splits)

section \<open>What the requests keep\<close>

lemma account_step_ok: "accounts_ok a \<Longrightarrow> accounts_ok (fst (account_step s e e' user req a))"
proof -
  assume ok: "accounts_ok a"
  have member: "accounts_ok (fst (as_member (as_parse s) roles a ws user handler))"
    if "\<And>m. m \<in> set (ac_seats a) \<Longrightarrow> accounts_ok (fst (handler m))" for roles ws and handler :: "seat_row \<Rightarrow> 'x served"
    by (rule as_member_cases [OF refl, of "as_parse s" roles a ws user handler]) (use ok that middleware_Inr in force)+
  have grown: "grows a x \<Longrightarrow> accounts_ok x" for x using ok by (simp add: grows_def)
  have added: "adds_by w m a x \<Longrightarrow> accounts_ok x" for w m x using ok by (simp add: adds_by_def)
  show ?thesis
    by (cases req)
      (auto simp: account_step_def Let_def done_with_fst delete_workspace_def
        intro!: member grown [OF send_code_grows] grown [OF verify_code_grows] grown [OF create_workspace_grows] grown [OF update_me_grows]
          grown [OF update_workspace_grows] grown [OF set_sso_config_grows] added [OF create_member_adds]
          update_member_ok [OF ok] delete_member_ok [OF ok] leave_workspace_ok [OF ok] delete_workspace_row_ok [OF ok])
qed

definition no_accounts :: accounts where
  "no_accounts = \<lparr>ac_users = [], ac_spaces = [], ac_seats = [], ac_codes = []\<rparr>"

text \<open>The tables after requests that are served one after the other.\<close>

fun accounts_after :: "account_server \<Rightarrow> (env \<times> env \<times> string \<times> account_request) list \<Rightarrow> accounts \<Rightarrow> accounts" where
  "accounts_after s [] a = a"
| "accounts_after s ((e, e', user, req) # reqs) a = accounts_after s reqs (fst (account_step s e e' user req a))"

lemma accounts_after_ok: "accounts_ok (accounts_after srv reqs no_accounts)"
proof -
  have "accounts_ok a \<Longrightarrow> accounts_ok (accounts_after srv reqs a)" for a
  proof (induction reqs arbitrary: a)
    case (Cons r reqs)
    then show ?case by (cases r) (simp add: account_step_ok)
  qed simp
  then show ?thesis by (simp add: no_accounts_def accounts_ok_def)
qed

text \<open>C28. Whatever requests are served, one after the other, from an empty server on: every workspace has an
  owner, and every member is one of an existing workspace.\<close>

theorem every_workspace_keeps_an_owner:
  "list_all (\<lambda>w. list_ex (\<lambda>s. se_workspace s = sp_id w \<and> se_role s = ''owner'') (ac_seats (accounts_after srv reqs no_accounts)))
     (ac_spaces (accounts_after srv reqs no_accounts)) \<and>
   list_all (\<lambda>s. se_workspace s \<in> sp_id ` set (ac_spaces (accounts_after srv reqs no_accounts))) (ac_seats (accounts_after srv reqs no_accounts))"
  using accounts_after_ok [of srv reqs] by (auto simp: accounts_ok_def owned_def list_all_iff list_ex_iff)

text \<open>C29. Only owners make owners: a member that is an owner after a request, and was not there as such before,
  belongs to a workspace that is new, or the requester is an owner of its workspace.\<close>

theorem only_owners_make_owners:
  assumes "\<And>w. w \<in> set (ac_spaces a) \<Longrightarrow> as_parse srv (uuid_text (sp_id w)) = Some (sp_id w)"
    and "a = accounts_after srv reqs no_accounts"
    and "seat \<in> set (ac_seats (fst (account_step srv e e' user req a)))" "se_role seat = ''owner''" "seat \<notin> set (ac_seats a)"
  shows "se_workspace seat \<notin> sp_id ` set (ac_spaces a) \<or>
    (\<exists>m\<in>set (ac_seats a). Some (se_user m) = as_parse srv user \<and> se_workspace m = se_workspace seat \<and> se_role m = ''owner'')"
proof -
  let ?a = "fst (account_step srv e e' user req a)"
  have ok: "accounts_ok a" using accounts_after_ok [of srv reqs] assms(2) by simp
  have grown: ?thesis if "grows a ?a" using that assms(3-5) by (auto simp: grows_def)
  have kept: ?thesis if "set (ac_seats ?a) \<subseteq> set (ac_seats a)" using that assms(3,5) by auto
  have member: ?thesis if "?a = fst (as_member (as_parse srv) roles a ws user handler)"
      "\<And>m. workspace_middleware (as_parse srv) roles a ws user = Inr m \<Longrightarrow> ?a = fst (handler m) \<Longrightarrow> ?thesis"
    for roles ws and handler :: "seat_row \<Rightarrow> 'x served"
    by (rule as_member_cases [OF that(1) [symmetric]]) (use that(2) grown in \<open>simp, metis\<close>)
  show ?thesis
  proof (cases req)
    case (CreateMember ws b)
    show ?thesis
    proof (rule member [of "[''owner'', ''admin'']" ws "\<lambda>m. create_member (as_parse srv) e a ws m user b"])
      fix m
      assume m: "workspace_middleware (as_parse srv) [''owner'', ''admin''] a ws user = Inr m"
        and step: "?a = fst (create_member (as_parse srv) e a ws m user b)"
      from create_member_adds [of "as_parse srv" ws m a e user b] consider "grows a ?a"
        | "owner m" "\<forall>s\<in>set (ac_seats ?a). s \<in> set (ac_seats a) \<or> Some (se_workspace s) = as_parse srv ws"
        unfolding adds_by_def step by blast
      then show ?thesis
      proof cases
        case 2
        with middleware_Inr [OF m] assms(3,5) show ?thesis by (metis option.inject)
      qed (rule grown)
    qed (simp add: account_step_def Let_def CreateMember)
  next
    case (UpdateMember ws mid b)
    show ?thesis
    proof (rule member [of "[''owner'', ''admin'']" ws "\<lambda>m. update_member (as_parse srv) a ws m user mid b"])
      fix m
      assume m: "workspace_middleware (as_parse srv) [''owner'', ''admin''] a ws user = Inr m"
        and step: "?a = fst (update_member (as_parse srv) a ws m user mid b)"
      from update_member_owners [OF ok step [symmetric] assms(3-5)] obtain t where t: "t \<in> set (ac_seats a)" "uuid_text (se_workspace t) = ws"
        "se_workspace seat = se_workspace t" "owner m" by blast
      then have "as_parse srv ws = Some (se_workspace t)" using ok assms(1) by (auto simp: accounts_ok_def)
      with middleware_Inr [OF m] t show ?thesis by auto
    qed (simp add: account_step_def Let_def UpdateMember)
  qed (use grown kept in \<open>simp_all add: account_step_def Let_def done_with_fst as_member_grows as_member_subset send_code_grows
      verify_code_grows update_me_grows create_workspace_grows update_workspace_grows set_sso_config_grows delete_workspace_seats
      delete_member_seats leave_workspace_seats\<close>)
qed

text \<open>Ann signs up with a code; her workspace is hers.\<close>

definition demo_login :: login_world where
  "demo_login = \<lparr>lw_mail_address = Some, lw_code = Some ''123456'', lw_mail = (\<lambda>_ _. Inr None), lw_token = (\<lambda>_. Some ''t''),
     lw_text = (\<lambda>_. '''')\<rparr>"

definition demo_accounts_server :: account_server where
  "demo_accounts_server = \<lparr>as_parse = demo_read_uuid,
     as_policy = \<lparr>ap_signup_disabled = False, ap_creation_disabled = False, ap_emails = [], ap_domains = []\<rparr>,
     as_login = demo_login\<rparr>"

definition demo_signup :: "(env \<times> env \<times> string \<times> account_request) list" where
  "demo_signup = [(demo_env 1, demo_env 9, '''', SendCode (Some ''Ann@x.org'')),
     (demo_env 1, demo_env 9, '''', VerifyCode (Some (''ann@x.org'', ''123456''))) ]"
definition demo_ann :: user_row where
  "demo_ann = \<lparr>us_id = 1000, us_name = ''ann'', us_email = ''ann@x.org'', us_avatar = None, us_created_at = 3600000000000,
     us_updated_at = 3600000000000\<rparr>"

definition demo_accounts :: accounts where
  "demo_accounts = \<lparr>ac_users = [demo_ann],
     ac_spaces = [\<lparr>sp_id = 9001, sp_name = default_workspace_name demo_ann, sp_slug = default_workspace_slug demo_ann, sp_description = None,
       sp_context = None, sp_settings = ''{}'', sp_repos = ''[]'', sp_prefix = generate_issue_prefix (default_workspace_name demo_ann),
       sp_counter = 0, sp_domain = '''', sp_sso = ''open'', sp_created_at = 32400000000000, sp_updated_at = 32400000000000\<rparr>],
     ac_seats = [\<lparr>se_id = 9002, se_workspace = 9001, se_user = 1000, se_role = ''owner'', se_created_at = 32400000000000\<rparr>],
     ac_codes = [\<lparr>vc_id = 1003, vc_email = ''ann@x.org'', vc_code = ''123456'', vc_expires_at = 4200000000000, vc_used = True,
       vc_attempts = 0, vc_created_at = 3600000000000\<rparr>]\<rparr>"

lemma demo_sent: "send_code demo_login (as_policy demo_accounts_server) (demo_env 1) no_accounts (Some ''Ann@x.org'') =
    (no_accounts\<lparr>ac_codes := map (\<lambda>c. c\<lparr>vc_used := False\<rparr>) (ac_codes demo_accounts)\<rparr>, [], Inr None)"
  by code_simp

lemma demo_verified: "verify_code demo_login (as_policy demo_accounts_server) (demo_env 1) (demo_env 9)
      (no_accounts\<lparr>ac_codes := map (\<lambda>c. c\<lparr>vc_used := False\<rparr>) (ac_codes demo_accounts)\<rparr>) (Some (''ann@x.org'', ''123456'')) =
    (demo_accounts, [], Inr (''t'', demo_ann))"
proof -
  have email: "normal_email ''ann@x.org'' = ''ann@x.org''" "email_domain ''ann@x.org'' = ''x.org''" "trim_space ''123456'' = ''123456''"
    "local_part ''ann@x.org'' ''ann@x.org'' = ''ann''"
    by code_simp+
  show ?thesis
    by (simp add: verify_code_def email Let_def demo_login_def demo_accounts_server_def valid_login_email_def check_signup_access_def
      get_user_by_email_def no_accounts_def select_one_def allows_new_signup_def get_latest_verification_code_def demo_accounts_def
      code_open_def demo_env_def mark_verification_code_used_def change_code_def upd_where_def find_or_create_user_def create_user_def
      insert_row_def jit_provision_def find_workspace_by_email_domain_def ensure_user_workspace_def list_workspaces_def sort_by_def
      create_workspace_row_def owner_seat_def create_member_row_def or_fail_def demo_ann_def member_roles_def error_is.simps)
qed

lemma demo_reached: "accounts_after demo_accounts_server demo_signup no_accounts = demo_accounts"
  using demo_sent demo_verified by (simp add: demo_signup_def account_step_def done_with_def Let_def demo_accounts_server_def)

definition demo_bob :: seat_row where
  "demo_bob = \<lparr>se_id = 2002, se_workspace = 9001, se_user = 2000, se_role = ''owner'', se_created_at = 7200000000000\<rparr>"

text \<open>Ann invites Bob as an owner.\<close>

lemma demo_invited:
  "demo_bob \<in> set (ac_seats (fst (account_step demo_accounts_server (demo_env 2) (demo_env 3) (uuid_text 1000)
     (CreateMember (uuid_text 9001) (Some (''bob@y.org'', ''owner''))) demo_accounts)))"
proof -
  have names: "normal_email ''bob@y.org'' = ''bob@y.org''" "normalize_member_role ''owner'' = Some ''owner''" by code_simp+
  have ne: "uuid_text u \<noteq> ''''" for u using uuid_text_length [of u] by auto
  show ?thesis
    by (simp add: account_step_def as_member_def workspace_middleware_def ne demo_accounts_server_def demo_read_uuid
      get_member_by_user_and_workspace_def select_one_def demo_accounts_def role_allowed_def done_with_def create_member_def names
      invited_user_def get_user_by_email_def create_user_def insert_row_def or_fail_def create_member_row_def member_roles_def
      demo_env_def demo_bob_def demo_ann_def error_is.simps Let_def)
qed

lemma only_owners_make_owners_witness:
  "list_ex (\<lambda>m. se_user m = 1000 \<and> se_workspace m = 9001 \<and> se_role m = ''owner'') (ac_seats demo_accounts)"
proof -
  have "as_parse demo_accounts_server (uuid_text (sp_id w)) = Some (sp_id w)" if "w \<in> set (ac_spaces demo_accounts)" for w
    using that by (simp add: demo_accounts_server_def demo_accounts_def demo_read_uuid)
  moreover have "demo_bob \<notin> set (ac_seats demo_accounts)" "se_role demo_bob = ''owner''" by (simp_all add: demo_accounts_def demo_bob_def)
  ultimately have "se_workspace demo_bob \<notin> sp_id ` set (ac_spaces demo_accounts) \<or> (\<exists>m\<in>set (ac_seats demo_accounts).
      Some (se_user m) = as_parse demo_accounts_server (uuid_text 1000) \<and> se_workspace m = se_workspace demo_bob \<and> se_role m = ''owner'')"
    using only_owners_make_owners [OF _ demo_reached [symmetric] demo_invited] by blast
  then show ?thesis by (auto simp: list_ex_iff demo_bob_def demo_accounts_server_def demo_read_uuid demo_accounts_def)
qed

section \<open>Login\<close>

lemma login_codes:
  "find_or_create_user e a m = Inr (a', u) \<Longrightarrow> ac_codes a' = ac_codes a \<and> us_email u = m"
  "ac_codes (jit_provision e a v m) = ac_codes a"
  "ensure_user_workspace pol e a v = Inr a2 \<Longrightarrow> ac_codes a2 = ac_codes a"
  by (auto simp: find_or_create_user_def get_user_by_email_def create_user_def insert_row_Inr or_fail_Inr Let_def
      jit_provision_def ensure_user_workspace_def create_workspace_row_def owner_seat_def if_Inr
      dest!: select_one_Inr create_member_row_Inr split: sum.splits if_splits)

text \<open>C30. A login needs an open code: whoever logs in gave the code of an e-mail to the address that is unused,
  unexpired and has had fewer than five wrong guesses, becomes the user of that address, and the code is used up.\<close>

theorem login_needs_open_code:
  assumes "verify_code x pol e e' a (Some (raw, asked)) = (a', evs, Inr (t, u))"
  shows "us_email u = normal_email raw \<and> (\<exists>c\<in>set (ac_codes a). vc_email c = normal_email raw \<and> vc_code c = trim_space asked \<and>
    \<not> vc_used c \<and> e_now e < vc_expires_at c \<and> vc_attempts c < 5 \<and>
    ac_codes a' = map (\<lambda>d. if vc_id d = vc_id c then d\<lparr>vc_used := True\<rparr> else d) (ac_codes a))"
proof -
  let ?m = "normal_email raw"
  from assms obtain c a2 where c: "get_latest_verification_code e a ?m = Inr c" "trim_space asked = vc_code c"
    and u: "find_or_create_user e (mark_verification_code_used a (vc_id c)) ?m = Inr (a2, u)"
    and w: "ensure_user_workspace pol e' (jit_provision e a2 u ?m) u = Inr a'"
    by (auto simp: verify_code_def Let_def split: if_splits sum.splits option.splits)
  have "ac_codes a' = ac_codes (mark_verification_code_used a (vc_id c))"
    using login_codes(1) [OF u] login_codes(2) login_codes(3) [OF w] by simp
  moreover have "c \<in> set (ac_codes a) \<and> code_open e ?m c"
    using c(1) by (auto simp: get_latest_verification_code_def dest!: first_by_in split: option.splits)
  ultimately show ?thesis using c(2) login_codes(1) [OF u]
    by (auto simp: mark_verification_code_used_def change_code_def upd_where_def code_open_def)
qed

lemma login_needs_open_code_witness: "list_all vc_used (ac_codes demo_accounts) \<and> us_email demo_ann = ''ann@x.org''"
proof -
  have "normal_email ''ann@x.org'' = ''ann@x.org''" "ac_codes (no_accounts\<lparr>ac_codes := cs\<rparr>) = cs" for cs by code_simp+
  with login_needs_open_code [OF demo_verified] show ?thesis by (auto simp: demo_accounts_def)
qed

text \<open>Setting the single sign-on of a workspace: it takes an admin, an owner is turned away, and whatever policy is
  asked for, the one that is stored is \<^verbatim>\<open>domain_claim\<close>.\<close>

theorem sso_config_outcome:
  assumes "get_member_by_user_and_workspace a (parse user) (parse ws) = Inr m" "ws \<noteq> ''''" "user \<noteq> ''''"
  shows "(se_role m \<noteq> ''admin'' \<longrightarrow> set_sso_config parse e a ws user body = (a, [], Inl (403, ''insufficient permissions''))) \<and>
    (set_sso_config parse e a ws user body = (a', evs, Inr w) \<longrightarrow> sp_sso w = ''domain_claim'' \<and>
       (\<exists>b. body = Some b \<and> so_policy b \<in> {''open'', ''domain_claim''} \<and> sp_domain w = to_lower (trim_space (so_domain b))))"
  using assms by (auto simp: set_sso_config_def require_workspace_role_def require_workspace_member_def role_allowed_def Let_def
      claim_workspace_domain_def update_space_where_def or_fail_Inr split: option.splits sum.splits if_splits)

lemma sso_config_outcome_witness:
  "set_sso_config demo_read_uuid (demo_env 2) demo_accounts (uuid_text 9001) (uuid_text 1000) (Some \<lparr>so_policy = ''open'', so_domain = ''x.org''\<rparr>) =
     (demo_accounts, [], Inl (403, ''insufficient permissions''))"
proof -
  have "get_member_by_user_and_workspace demo_accounts (demo_read_uuid (uuid_text 1000)) (demo_read_uuid (uuid_text 9001)) =
      Inr (hd (ac_seats demo_accounts))"
    by (simp add: get_member_by_user_and_workspace_def select_one_def demo_read_uuid demo_accounts_def)
  moreover have "uuid_text u \<noteq> ''''" for u using uuid_text_length [of u] by auto
  ultimately show ?thesis using sso_config_outcome [of demo_accounts demo_read_uuid "uuid_text 1000" "uuid_text 9001"]
    by (simp add: demo_accounts_def)
qed

section \<open>Two at once\<close>

text \<open>The check of the last owner and the removal are two statements with nothing around them: when a workspace has
  two owners and both leave, each after both have been checked, it has none.\<close>

theorem last_owner_race:
  assumes "filter owner (list_seats a (Some w)) = [s, t]" "se_id s \<noteq> se_id t"
  shows "spare_owner a s = Inr () \<and> spare_owner a t = Inr () \<and>
    \<not> list_ex (\<lambda>x. se_workspace x = w \<and> se_role x = ''owner'')
        (ac_seats (fst (remove_seat (fst (remove_seat a ws user s)) ws user' t)))"
proof -
  have os: "{x \<in> set (ac_seats a). se_workspace x = w \<and> owner x} = {s, t}"
    using arg_cong [OF assms(1), of set] by (auto simp: list_seats_def)
  then have "se_workspace s = w" "se_workspace t = w" by auto
  with assms os show ?thesis
    by (auto simp: spare_owner_def count_owners_def remove_seat_def delete_member_row_def list_ex_iff)
qed

lemma last_owner_race_witness:
  "let a = demo_accounts\<lparr>ac_seats := ac_seats demo_accounts @ [demo_bob]\<rparr> in
   \<not> list_ex (\<lambda>x. se_role x = ''owner'' \<and> se_workspace x = 9001) (ac_seats (delete_member_row (delete_member_row a 9002) 2002))"
proof -
  let ?a = "demo_accounts\<lparr>ac_seats := ac_seats demo_accounts @ [demo_bob]\<rparr>"
  have "filter owner (list_seats ?a (Some 9001)) = [demo_bob, hd (ac_seats demo_accounts)]"
    by (simp add: list_seats_def sort_by_def demo_accounts_def demo_bob_def)
  from last_owner_race [OF this, of undefined undefined undefined] show ?thesis
    by (simp add: remove_seat_def demo_bob_def demo_accounts_def conj_commute delete_member_row_def)
qed

end
