(* ===== verification/IssueApi.thy ===== *)
theory IssueApi
  imports TaskService Membership Mentions LoopStore
begin

text \<open>
  The issues of a workspace (\<^verbatim>\<open>server/internal/handler/issue.go\<close>, \<^verbatim>\<open>handler.go\<close> and the statements of
  \<^verbatim>\<open>issue.sql\<close>): who acts, which issue a path names, who may assign an agent, and the requests that create,
  update and delete issues and queue or cancel Work Items with them. A request names its user, the workspace of its
  query or header, which no middleware checks on these routes, and the headers of an agent. \<open>es k\<close> is the environment of the \<open>k\<close>-th statement or
  transaction. The column \<^verbatim>\<open>position\<close>, which is stored and given back, is left out.
\<close>

section \<open>The server and a request\<close>

record server =
  sv_world :: world
  sv_accounts :: accounts

abbreviation sv_db :: "server \<Rightarrow> db" where "sv_db s \<equiv> w_db (sv_world s)"

definition put_db :: "server \<Rightarrow> db \<Rightarrow> server" where
  "put_db s d = s\<lparr>sv_world := with_db (sv_world s) d\<rparr>"

definition say :: "event \<Rightarrow> server \<Rightarrow> server" where
  "say ev s = s\<lparr>sv_world := emit ev (sv_world s)\<rparr>"

lemma server_simps [simp]:
  "sv_db (put_db s d) = d" "sv_accounts (put_db s d) = sv_accounts s" "sv_db (say ev s) = sv_db s"
  "sv_accounts (say ev s) = sv_accounts s" "w_bus (sv_world (put_db s d)) = w_bus (sv_world s)"
  "w_bus (sv_world (say ev s)) = w_bus (sv_world s) @ [ev]"
  by (simp_all add: put_db_def say_def)

record api =
  api_uuid :: "string \<Rightarrow> uuid option"
  api_time :: "string \<Rightarrow> time option"
  api_codec :: codec
  api_lifecycle :: lifecycle_handle
  api_text :: "go_error \<Rightarrow> string"

record request =
  rq_user :: string
  rq_workspace :: string
  rq_agent :: string
  rq_task :: string

type_synonym 'a handled = "server \<times> 'a reply"

definition get_agent_in_workspace :: "db \<Rightarrow> uuid option \<Rightarrow> uuid option \<Rightarrow> agent_row res" where
  "get_agent_in_workspace d a w = select_one (\<lambda>x. Some (ag_id x) = a \<and> Some (ag_workspace x) = w) (agents d)"

definition resolve_actor :: "api \<Rightarrow> db \<Rightarrow> request \<Rightarrow> string \<Rightarrow> string \<times> string" where
  "resolve_actor p d rq ws =
     (if rq_agent rq = '''' then (''member'', rq_user rq)
      else case get_agent d (api_uuid p (rq_agent rq)) of
        Inl _ \<Rightarrow> (''member'', rq_user rq)
      | Inr agent \<Rightarrow>
          if uuid_text (ag_workspace agent) \<noteq> ws then (''member'', rq_user rq)
          else if rq_task rq \<noteq> '''' \<and>
            (case get_task d (api_uuid p (rq_task rq)) of Inl _ \<Rightarrow> True | Inr t \<Rightarrow> uuid_text (tk_agent t) \<noteq> rq_agent rq)
          then (''member'', rq_user rq)
          else (''agent'', rq_agent rq))"

section \<open>Which issue\<close>

definition int64_of :: "int \<Rightarrow> int" where
  "int64_of n = sint (word_of_int n :: i64)"

text \<open>The digits of \<^verbatim>\<open>int\<close>, which is 64 bits wide and wraps around.\<close>

fun read_number :: "int \<Rightarrow> string \<Rightarrow> int option" where
  "read_number n [] = Some n"
| "read_number n (c # cs) =
     (let k = (of_char c :: nat) in
      if k < 48 \<or> 57 < k then None else read_number (int64_of (n * 10 + (int k - 48))) cs)"

definition split_identifier :: "string \<Rightarrow> (string \<times> int) option" where
  "split_identifier s =
     (let tail = rev (takeWhile (\<lambda>c. c \<noteq> CHR ''-'') (rev s)); prefix = take (length s - length tail - 1) s in
      if CHR ''-'' \<notin> set s \<or> prefix = '''' \<or> tail = '''' then None
      else case read_number 0 tail of
        None \<Rightarrow> None
      | Some n \<Rightarrow> if n \<le> 0 then None else Some (prefix, int32_of n))"

definition get_issue_in_workspace :: "db \<Rightarrow> uuid option \<Rightarrow> uuid option \<Rightarrow> issue_row res" where
  "get_issue_in_workspace d i w = select_one (\<lambda>x. Some (is_id x) = i \<and> Some (is_workspace x) = w) (issues d)"

definition get_issue_by_number :: "db \<Rightarrow> uuid option \<Rightarrow> int \<Rightarrow> issue_row res" where
  "get_issue_by_number d w n = select_one (\<lambda>x. Some (is_workspace x) = w \<and> is_number x = n) (issues d)"

definition resolve_issue_by_identifier :: "api \<Rightarrow> db \<Rightarrow> string \<Rightarrow> string \<Rightarrow> issue_row option" where
  "resolve_issue_by_identifier p d i ws =
     (case split_identifier i of
        None \<Rightarrow> None
      | Some (_, n) \<Rightarrow>
          if ws = '''' then None
          else (case get_issue_by_number d (api_uuid p ws) n of Inl _ \<Rightarrow> None | Inr x \<Rightarrow> Some x))"

definition load_issue_for_user :: "api \<Rightarrow> db \<Rightarrow> request \<Rightarrow> string \<Rightarrow> issue_row reply" where
  "load_issue_for_user p d rq i =
     (if rq_user rq = '''' then Inl (401, ''user not authenticated'')
      else if rq_workspace rq = '''' then Inl (400, ''workspace_id is required'')
      else case resolve_issue_by_identifier p d i (rq_workspace rq) of
        Some x \<Rightarrow> Inr x
      | None \<Rightarrow> (case get_issue_in_workspace d (api_uuid p i) (api_uuid p (rq_workspace rq)) of
          Inl _ \<Rightarrow> Inl (404, ''issue not found'')
        | Inr x \<Rightarrow> Inr x))"

definition get_issue_prefix :: "accounts \<Rightarrow> uuid option \<Rightarrow> string" where
  "get_issue_prefix a w =
     (case get_workspace a w of
        Inl _ \<Rightarrow> ''''
      | Inr x \<Rightarrow> if sp_prefix x \<noteq> '''' then sp_prefix x else generate_issue_prefix (sp_name x))"

definition issue_to_response :: "codec \<Rightarrow> issue_row \<Rightarrow> string \<Rightarrow> json" where
  "issue_to_response c i prefix = JObj
     [(''id'', JStr (uuid_text (is_id i))), (''workspace_id'', JStr (uuid_text (is_workspace i))), (''number'', JInt (is_number i)),
      (''identifier'', JStr (prefix @ ''-'' @ itoa (is_number i))), (''title'', JStr (is_title i)),
      (''description'', jstr_opt (is_description i)), (''status'', JStr (is_status i)), (''priority'', JStr (is_priority i)),
      (''assignee_type'', jstr_opt (is_assignee_type i)), (''assignee_id'', uuid_to_ptr (is_assignee i)),
      (''creator_type'', JStr (is_creator_type i)), (''creator_id'', JStr (uuid_text (is_creator i))),
      (''parent_issue_id'', uuid_to_ptr (is_parent i)), (''due_date'', time_to_ptr c (is_due i)),
      (''created_at'', JStr (cd_time c (is_created_at i))), (''updated_at'', JStr (cd_time c (is_updated_at i)))]"

section \<open>Triggers of agents\<close>

text \<open>\<^verbatim>\<open>json.Unmarshal\<close> into \<^verbatim>\<open>[]agentTriggerSnapshot\<close>: keys match up to case, \<^verbatim>\<open>null\<close> leaves a field, a later key wins.\<close>

fun decode_trigger_fields :: "(string \<times> json) list \<Rightarrow> string \<times> bool \<Rightarrow> (string \<times> bool) option" where
  "decode_trigger_fields [] t = Some t"
| "decode_trigger_fields ((k, v) # kvs) (ty, on) =
     (if to_lower k = ''type''
      then (case v of JStr s \<Rightarrow> decode_trigger_fields kvs (s, on) | JNull \<Rightarrow> decode_trigger_fields kvs (ty, on) | _ \<Rightarrow> None)
      else if to_lower k = ''enabled''
      then (case v of JBool b \<Rightarrow> decode_trigger_fields kvs (ty, b) | JNull \<Rightarrow> decode_trigger_fields kvs (ty, on) | _ \<Rightarrow> None)
      else if to_lower k = ''config''
      then (case v of JObj _ \<Rightarrow> decode_trigger_fields kvs (ty, on) | JNull \<Rightarrow> decode_trigger_fields kvs (ty, on) | _ \<Rightarrow> None)
      else decode_trigger_fields kvs (ty, on))"

fun decode_trigger_list :: "json list \<Rightarrow> (string \<times> bool) list option" where
  "decode_trigger_list [] = Some []"
| "decode_trigger_list (j # js) =
     (case (case j of JObj kvs \<Rightarrow> decode_trigger_fields kvs ('''', False) | JNull \<Rightarrow> Some ('''', False) | _ \<Rightarrow> None) of
        None \<Rightarrow> None
      | Some t \<Rightarrow> map_option ((#) t) (decode_trigger_list js))"

definition decode_triggers :: "codec \<Rightarrow> string \<Rightarrow> (string \<times> bool) list option" where
  "decode_triggers c raw =
     (case cd_json c raw of
        Some (JArr js) \<Rightarrow> decode_trigger_list js
      | Some JNull \<Rightarrow> Some []
      | _ \<Rightarrow> None)"

definition agent_has_trigger_enabled :: "codec \<Rightarrow> string \<Rightarrow> string \<Rightarrow> bool" where
  "agent_has_trigger_enabled c raw ty =
     (if raw = '''' then True
      else case decode_triggers c raw of
        None \<Rightarrow> False
      | Some ts \<Rightarrow> (case find (\<lambda>t. fst t = ty) ts of None \<Rightarrow> True | Some t \<Rightarrow> snd t))"

definition is_agent_trigger_enabled :: "codec \<Rightarrow> db \<Rightarrow> issue_row \<Rightarrow> string \<Rightarrow> bool" where
  "is_agent_trigger_enabled c d i ty =
     (if is_assignee_type i \<noteq> Some ''agent'' \<or> is_assignee i = None then False
      else case get_agent d (is_assignee i) of
        Inl _ \<Rightarrow> False
      | Inr a \<Rightarrow> ag_runtime a \<noteq> None \<and> ag_archived_at a = None \<and> agent_has_trigger_enabled c (ag_triggers a) ty)"

definition should_enqueue_agent_task :: "codec \<Rightarrow> db \<Rightarrow> issue_row \<Rightarrow> bool" where
  "should_enqueue_agent_task c d i = is_agent_trigger_enabled c d i ''on_assign''"

definition should_enqueue_on_comment :: "codec \<Rightarrow> db \<Rightarrow> issue_row \<Rightarrow> bool" where
  "should_enqueue_on_comment c d i \<longleftrightarrow>
     is_status i \<notin> set [''done'', ''cancelled''] \<and> is_agent_trigger_enabled c d i ''on_comment'' \<and>
     \<not> has_pending_task_for_issue d (Some (is_id i))"

text \<open>An agent of the workspace, not archived; a private one only for its owner and the managers of the workspace.\<close>

definition can_assign_agent :: "api \<Rightarrow> server \<Rightarrow> request \<Rightarrow> string \<Rightarrow> string \<Rightarrow> bool \<times> string" where
  "can_assign_agent p s rq agent ws =
     (case get_agent_in_workspace (sv_db s) (api_uuid p agent) (api_uuid p ws) of
        Inl _ \<Rightarrow> (False, ''agent not found'')
      | Inr a \<Rightarrow>
          if ag_archived_at a \<noteq> None then (False, ''cannot assign to archived agent'')
          else if ag_visibility a \<noteq> ''private'' then (True, '''')
          else if uuid_to_string (ag_owner a) = rq_user rq then (True, '''')
          else case get_member_by_user_and_workspace (sv_accounts s) (api_uuid p (rq_user rq)) (api_uuid p ws) of
            Inl _ \<Rightarrow> (False, ''cannot assign to private agent'')
          | Inr m \<Rightarrow> if role_allowed (se_role m) [''owner'', ''admin''] then (True, '''') else (False, ''cannot assign to private agent''))"

section \<open>Statements\<close>

definition issue_statuses :: "string list" where
  "issue_statuses = [''backlog'', ''todo'', ''in_progress'', ''in_review'', ''done'', ''blocked'', ''cancelled'']"

definition issue_priorities :: "string list" where
  "issue_priorities = [''urgent'', ''high'', ''medium'', ''low'', ''none'']"

definition issue_admitted :: "db \<Rightarrow> issue_row \<Rightarrow> bool" where
  "issue_admitted d i \<longleftrightarrow> is_status i \<in> set issue_statuses \<and> is_priority i \<in> set issue_priorities \<and>
     is_assignee_type i \<in> set [None, Some ''member'', Some ''agent''] \<and> is_creator_type i \<in> set [''member'', ''agent''] \<and>
     (case is_parent i of None \<Rightarrow> True | Some x \<Rightarrow> x \<in> is_id ` set (issues d))"

definition create_issue_row :: "db \<Rightarrow> issue_row \<Rightarrow> (db \<times> issue_row) res" where
  "create_issue_row d i =
     or_fail (insert_row (is_id i \<notin> is_id ` set (issues d) \<and> (is_workspace i, is_number i) \<notin> (\<lambda>x. (is_workspace x, is_number x)) ` set (issues d))
         (issue_admitted d i) i (issues d))
       (\<lambda>(is, i). Inr (d\<lparr>issues := is\<rparr>, i))"

record issue_params =
  iq_title :: pgtext
  iq_description :: pgtext
  iq_status :: pgtext
  iq_priority :: pgtext
  iq_assignee_type :: pgtext
  iq_assignee :: "uuid option"
  iq_due :: "time option"

definition updated_issue :: "env \<Rightarrow> issue_params \<Rightarrow> issue_row \<Rightarrow> issue_row" where
  "updated_issue e u i = i\<lparr>is_title := or_else (iq_title u) (is_title i),
     is_description := (if iq_description u = None then is_description i else iq_description u),
     is_status := or_else (iq_status u) (is_status i), is_priority := or_else (iq_priority u) (is_priority i),
     is_assignee_type := iq_assignee_type u, is_assignee := iq_assignee u, is_due := iq_due u, is_updated_at := e_now e\<rparr>"

definition update_issue_row :: "env \<Rightarrow> db \<Rightarrow> uuid \<Rightarrow> issue_params \<Rightarrow> (db \<times> issue_row) res" where
  "update_issue_row e d i u =
     or_fail (select_one (\<lambda>x. is_id x = i) (issues d)) (\<lambda>x.
       if issue_admitted d (updated_issue e u x)
       then Inr (d\<lparr>issues := upd_where (\<lambda>x. is_id x = i) (updated_issue e u) (issues d)\<rparr>, updated_issue e u x)
       else Inl ErrConstraint)"

text \<open>\<^verbatim>\<open>DELETE\<close> with the foreign keys: what hangs on the issue goes (its Work Items with Runs and facts, its loops,
  comments, inbox items), references from elsewhere become NULL. Replies belong to the issue of their thread.\<close>

definition keep_ref :: "uuid list \<Rightarrow> uuid option \<Rightarrow> uuid option" where
  "keep_ref gone x = (case x of None \<Rightarrow> None | Some y \<Rightarrow> if y \<in> set gone then None else Some y)"

definition delete_issue_of :: "db \<Rightarrow> uuid \<Rightarrow> db" where
  "delete_issue_of d i =
     (let ts = map tk_id (filter (\<lambda>t. tk_issue t = i) (tasks d));
          cs = map cm_id (filter (\<lambda>c. cm_issue c = i) (comments d));
          ls = map lr_id (filter (\<lambda>l. lr_issue l = i) (loops d));
          vs = map ob_id (filter (\<lambda>v. ob_work_item v \<in> set ts) (outbox d))
      in d\<lparr>issues := map (\<lambda>x. x\<lparr>is_parent := keep_ref [i] (is_parent x)\<rparr>) (filter (\<lambda>x. is_id x \<noteq> i) (issues d)),
           tasks := map (\<lambda>t. t\<lparr>tk_loop := keep_ref ls (tk_loop t), tk_trigger_comment := keep_ref cs (tk_trigger_comment t)\<rparr>)
             (filter (\<lambda>t. tk_issue t \<noteq> i) (tasks d)),
           runs := filter (\<lambda>r. rn_task r \<notin> set ts) (runs d),
           outbox := filter (\<lambda>v. ob_work_item v \<notin> set ts) (outbox d),
           receipts := filter (\<lambda>r. fst r \<notin> set vs) (receipts d),
           deliveries := filter (\<lambda>x. dl_event x \<notin> set vs) (deliveries d),
           loops := filter (\<lambda>l. lr_issue l \<noteq> i) (loops d),
           comments := map (\<lambda>c. c\<lparr>cm_event := keep_ref vs (cm_event c)\<rparr>) (filter (\<lambda>c. cm_issue c \<noteq> i) (comments d)),
           metrics := filter (\<lambda>m. mt_issue m \<noteq> i \<and> mt_task m \<notin> set ts) (metrics d),
           xtraces := filter (\<lambda>x. xt_issue x \<noteq> Some i \<and> xt_task x \<notin> set ts) (xtraces d),
           activities := map (\<lambda>a. a\<lparr>ac_event := keep_ref vs (ac_event a)\<rparr>) (filter (\<lambda>a. ac_issue a \<noteq> Some i) (activities d)),
           inbox := map (\<lambda>b. b\<lparr>ib_event := keep_ref vs (ib_event b)\<rparr>) (filter (\<lambda>b. ib_issue b \<noteq> Some i) (inbox d)),
           subscribers := filter (\<lambda>b. sb_issue b \<noteq> i) (subscribers d)\<rparr>)"

definition delete_issue_row :: "db \<Rightarrow> uuid option \<Rightarrow> db" where
  "delete_issue_row d i = (case i of None \<Rightarrow> d | Some x \<Rightarrow> if x \<in> is_id ` set (issues d) then delete_issue_of d x else d)"

end
