(* ===== verification/IssueRequests.thy ===== *)
theory IssueRequests
  imports IssueApi
begin

text \<open>
  The handlers that create, update and delete issues, one and many (\<^verbatim>\<open>server/internal/handler/issue.go\<close>). A
  handler gets the decoded body, none when it cannot be read; a nullable field is absent, null or a value.
\<close>

abbreviation refuse :: "server \<Rightarrow> int \<Rightarrow> string \<Rightarrow> 'a handled" where
  "refuse s status msg \<equiv> (s, Inl (status, msg))"

section \<open>The queue of an issue\<close>

definition enqueue_issue :: "env \<Rightarrow> server \<Rightarrow> issue_row \<Rightarrow> uuid option \<Rightarrow> server" where
  "enqueue_issue e s i trig =
     (case enqueue_task_for_issue e (sv_db s) i trig of Inl _ \<Rightarrow> s | Inr (d, _) \<Rightarrow> put_db s d)"

definition cancel_issue_tasks :: "lifecycle_handle \<Rightarrow> env \<Rightarrow> server \<Rightarrow> uuid option \<Rightarrow> server" where
  "cancel_issue_tasks l e s i =
     (case lc_cancel_for_issue l e (sv_db s) i of Inl _ \<Rightarrow> s | Inr (d, _) \<Rightarrow> put_db s d)"

text \<open>After a change of the assignee: the old Work Items are cancelled, the new agent is set to work.\<close>

definition reassign :: "api \<Rightarrow> env \<Rightarrow> env \<Rightarrow> server \<Rightarrow> issue_row \<Rightarrow> server" where
  "reassign p e e' s i =
     (let s1 = cancel_issue_tasks (api_lifecycle p) e s (Some (is_id i)) in
      if should_enqueue_agent_task (api_codec p) (sv_db s1) i then enqueue_issue e' s1 i None else s1)"

section \<open>Creation\<close>

record issue_body =
  nb_title :: string
  nb_description :: pgtext
  nb_status :: string
  nb_priority :: string
  nb_assignee_type :: pgtext
  nb_assignee :: pgtext
  nb_parent :: pgtext
  nb_due :: pgtext

definition issue_event :: "string \<Rightarrow> string \<Rightarrow> string \<times> string \<Rightarrow> json \<Rightarrow> event" where
  "issue_event ty ws actor payload = \<lparr>ev_id = '''', ev_type = ty, ev_workspace = ws, ev_actor_type = fst actor,
     ev_actor = snd actor, ev_payload = payload\<rparr>"

definition parse_due :: "api \<Rightarrow> pgtext \<Rightarrow> time option option" where
  "parse_due p s = (case s of None \<Rightarrow> Some None
     | Some x \<Rightarrow> if x = '''' then Some None else map_option Some (api_time p x))"

definition bind_text :: "(string \<Rightarrow> 'a option) \<Rightarrow> pgtext \<Rightarrow> 'a option" where
  "bind_text f s = (case s of None \<Rightarrow> None | Some x \<Rightarrow> f x)"

definition new_issue :: "api \<Rightarrow> env \<Rightarrow> uuid \<Rightarrow> int \<Rightarrow> string \<times> uuid \<Rightarrow> issue_body \<Rightarrow> time option \<Rightarrow> issue_row" where
  "new_issue p e w n creator b due = \<lparr>is_id = e_gen e 5, is_workspace = w, is_title = nb_title b, is_description = nb_description b,
     is_status = (if nb_status b = '''' then ''backlog'' else nb_status b),
     is_priority = (if nb_priority b = '''' then ''none'' else nb_priority b),
     is_assignee_type = nb_assignee_type b, is_assignee = bind_text (api_uuid p) (nb_assignee b), is_number = n,
     is_creator_type = fst creator, is_creator = snd creator, is_parent = bind_text (api_uuid p) (nb_parent b), is_due = due,
     is_created_at = e_now e, is_updated_at = e_now e\<rparr>"

definition insert_new_issue :: "api \<Rightarrow> env \<Rightarrow> db \<Rightarrow> string \<Rightarrow> int \<Rightarrow> string \<times> string \<Rightarrow> issue_body \<Rightarrow> time option \<Rightarrow> (db \<times> issue_row) res" where
  "insert_new_issue p e d ws n creator b due =
     (case (api_uuid p ws, api_uuid p (snd creator)) of
        (Some w, Some c) \<Rightarrow> create_issue_row d (new_issue p e w n (fst creator, c) b due)
      | _ \<Rightarrow> Inl ErrConstraint)"

definition may_assign :: "api \<Rightarrow> server \<Rightarrow> request \<Rightarrow> string \<Rightarrow> pgtext \<Rightarrow> pgtext \<Rightarrow> bool \<times> string" where
  "may_assign p s rq ws ty agent =
     (case agent of
        Some a \<Rightarrow> if ty = Some ''agent'' then can_assign_agent p s rq a ws else (True, '''')
      | None \<Rightarrow> (True, ''''))"

definition create_issue :: "api \<Rightarrow> (nat \<Rightarrow> env) \<Rightarrow> server \<Rightarrow> request \<Rightarrow> issue_body option \<Rightarrow> issue_row handled" where
  "create_issue p es s rq body =
     (case body of
        None \<Rightarrow> refuse s 400 ''invalid request body''
      | Some b \<Rightarrow>
          if nb_title b = '''' then refuse s 400 ''title is required''
          else if rq_user rq = '''' then refuse s 401 ''user not authenticated''
          else if \<not> fst (may_assign p s rq (rq_workspace rq) (nb_assignee_type b) (nb_assignee b))
          then refuse s 403 (snd (may_assign p s rq (rq_workspace rq) (nb_assignee_type b) (nb_assignee b)))
          else (case parse_due p (nb_due b) of
            None \<Rightarrow> refuse s 400 ''invalid due_date format, expected RFC3339''
          | Some due \<Rightarrow>
              if \<not> e_begin (es 0) then refuse s 500 ''failed to create issue''
              else (case increment_issue_counter (sv_accounts s) (api_uuid p (rq_workspace rq)) of
                Inl _ \<Rightarrow> refuse s 500 ''failed to create issue''
              | Inr (a, n) \<Rightarrow>
                  let creator = resolve_actor p (sv_db s) rq (rq_workspace rq) in
                  (case insert_new_issue p (es 0) (sv_db s) (rq_workspace rq) n creator b due of
                     Inl err \<Rightarrow> refuse s 500 (''failed to create issue: '' @ error_text (api_text p) err)
                   | Inr (d, i) \<Rightarrow>
                       if \<not> e_commit (es 0) then refuse s 500 ''failed to create issue''
                       else let s1 = (put_db s d)\<lparr>sv_accounts := a\<rparr>;
                           prefix = get_issue_prefix a (Some (is_workspace i));
                           s2 = say (issue_event ''issue:created'' (rq_workspace rq) creator
                                  (JObj [(''issue'', issue_to_response (api_codec p) i prefix)])) s1
                         in (if is_assignee_type i \<noteq> None \<and> is_assignee i \<noteq> None \<and> should_enqueue_agent_task (api_codec p) d i
                             then enqueue_issue (es 1) s2 i None else s2, Inr i)))))"

section \<open>Update\<close>

record issue_update =
  up_title :: pgtext
  up_description :: pgtext
  up_status :: pgtext
  up_priority :: pgtext
  up_assignee_type :: "pgtext option"
  up_assignee :: "pgtext option"
  up_due :: "pgtext option"

text \<open>The parameters of the statement; none when the due date cannot be read.\<close>

definition update_params :: "api \<Rightarrow> issue_row \<Rightarrow> issue_update \<Rightarrow> issue_params option" where
  "update_params p prev u =
     (case (case up_due u of None \<Rightarrow> Some (is_due prev) | Some x \<Rightarrow> parse_due p x) of
        None \<Rightarrow> None
      | Some due \<Rightarrow> Some \<lparr>iq_title = up_title u, iq_description = up_description u, iq_status = up_status u, iq_priority = up_priority u,
          iq_assignee_type = or_else (up_assignee_type u) (is_assignee_type prev),
          iq_assignee = (case up_assignee u of None \<Rightarrow> is_assignee prev | Some x \<Rightarrow> bind_text (api_uuid p) x), iq_due = due\<rparr>)"

text \<open>A field of the body as a Go pointer: absent and null are both nil.\<close>

definition field_ptr :: "pgtext option \<Rightarrow> pgtext" where
  "field_ptr x = or_else x None"

definition text_of :: "pgtext \<Rightarrow> string" where
  "text_of x = or_else x ''''"

definition assignee_changed :: "issue_update \<Rightarrow> issue_row \<Rightarrow> issue_row \<Rightarrow> bool" where
  "assignee_changed u prev i \<longleftrightarrow> (field_ptr (up_assignee_type u) \<noteq> None \<or> field_ptr (up_assignee u) \<noteq> None) \<and>
     (text_of (is_assignee_type prev) \<noteq> text_of (is_assignee_type i) \<or> uuid_to_string (is_assignee prev) \<noteq> uuid_to_string (is_assignee i))"

definition status_changed :: "issue_update \<Rightarrow> issue_row \<Rightarrow> issue_row \<Rightarrow> bool" where
  "status_changed u prev i \<longleftrightarrow> up_status u \<noteq> None \<and> is_status prev \<noteq> is_status i"

definition priority_changed :: "issue_update \<Rightarrow> issue_row \<Rightarrow> issue_row \<Rightarrow> bool" where
  "priority_changed u prev i \<longleftrightarrow> up_priority u \<noteq> None \<and> is_priority prev \<noteq> is_priority i"

text \<open>The description and the due date are compared as pointers to fresh copies: two of them are equal only when both are nil.\<close>

definition same_ptr :: "json \<Rightarrow> json \<Rightarrow> bool" where
  "same_ptr x y \<longleftrightarrow> x = JNull \<and> y = JNull"

definition description_changed :: "issue_update \<Rightarrow> issue_row \<Rightarrow> issue_row \<Rightarrow> bool" where
  "description_changed u prev i \<longleftrightarrow> up_description u \<noteq> None \<and> \<not> same_ptr (jstr_opt (is_description prev)) (jstr_opt (is_description i))"

definition due_date_changed :: "codec \<Rightarrow> issue_row \<Rightarrow> issue_row \<Rightarrow> bool" where
  "due_date_changed c prev i \<longleftrightarrow> (let x = time_to_ptr c (is_due prev); y = time_to_ptr c (is_due i) in
     \<not> same_ptr x y \<and> (x = JNull) \<noteq> (y = JNull) \<or> x \<noteq> JNull \<and> y \<noteq> JNull \<and> x \<noteq> y)"

definition update_payload :: "codec \<Rightarrow> issue_update \<Rightarrow> issue_row \<Rightarrow> issue_row \<Rightarrow> string \<Rightarrow> jmap" where
  "update_payload c u prev i prefix =
     [(''issue'', issue_to_response c i prefix), (''assignee_changed'', JBool (assignee_changed u prev i)),
      (''status_changed'', JBool (status_changed u prev i)), (''priority_changed'', JBool (priority_changed u prev i))]"

definition update_details :: "codec \<Rightarrow> issue_update \<Rightarrow> issue_row \<Rightarrow> issue_row \<Rightarrow> jmap" where
  "update_details c u prev i =
     [(''due_date_changed'', JBool (due_date_changed c prev i)), (''description_changed'', JBool (description_changed u prev i)),
      (''title_changed'', JBool (up_title u \<noteq> None \<and> is_title prev \<noteq> is_title i)), (''prev_title'', JStr (is_title prev)),
      (''prev_assignee_type'', jstr_opt (is_assignee_type prev)), (''prev_assignee_id'', uuid_to_ptr (is_assignee prev)),
      (''prev_status'', JStr (is_status prev)), (''prev_priority'', JStr (is_priority prev)), (''prev_due_date'', time_to_ptr c (is_due prev)),
      (''prev_description'', jstr_opt (is_description prev)), (''creator_type'', JStr (is_creator_type prev)),
      (''creator_id'', JStr (uuid_text (is_creator prev)))]"

text \<open>What one and many updates share: the statement, the event, the queue.\<close>

definition apply_update ::
    "api \<Rightarrow> (nat \<Rightarrow> env) \<Rightarrow> server \<Rightarrow> request \<Rightarrow> string \<Rightarrow> bool \<Rightarrow> issue_row \<Rightarrow> issue_update \<Rightarrow> issue_params \<Rightarrow> server \<times> issue_row res" where
  "apply_update p es s rq ws single prev u q =
     (case update_issue_row (es 0) (sv_db s) (is_id prev) q of
        Inl err \<Rightarrow> (s, Inl err)
      | Inr (d, i) \<Rightarrow>
          let prefix = get_issue_prefix (sv_accounts s) (Some (is_workspace i));
              details = (if single then update_details (api_codec p) u prev i else []);
              s1 = say (issue_event ''issue:updated'' ws (resolve_actor p d rq ws)
                     (JObj (update_payload (api_codec p) u prev i prefix @ details))) (put_db s d)
          in (if assignee_changed u prev i then reassign p (es 1) (es 2) s1 i else s1, Inr i))"

definition update_issue :: "api \<Rightarrow> (nat \<Rightarrow> env) \<Rightarrow> server \<Rightarrow> request \<Rightarrow> string \<Rightarrow> issue_update option \<Rightarrow> issue_row handled" where
  "update_issue p es s rq ident body =
     (case load_issue_for_user p (sv_db s) rq ident of
        Inl err \<Rightarrow> (s, Inl err)
      | Inr prev \<Rightarrow> (case body of
          None \<Rightarrow> refuse s 400 ''invalid request body''
        | Some u \<Rightarrow> (case update_params p prev u of
            None \<Rightarrow> refuse s 400 ''invalid due_date format, expected RFC3339''
          | Some q \<Rightarrow>
              let ws = uuid_text (is_workspace prev);
                  may = may_assign p s rq ws (field_ptr (up_assignee_type u)) (field_ptr (up_assignee u))
              in if \<not> fst may then refuse s 403 (snd may)
                 else (case apply_update p es s rq ws True prev u q of
                   (s', Inl err) \<Rightarrow> refuse s' 500 (''failed to update issue: '' @ error_text (api_text p) err)
                 | (s', Inr i) \<Rightarrow> (s', Inr i)))))"

text \<open>The loops over the identifiers of a batch; an issue that cannot be changed is passed over.\<close>

fun update_each :: "api \<Rightarrow> (nat \<Rightarrow> env) \<Rightarrow> server \<Rightarrow> request \<Rightarrow> issue_update \<Rightarrow> string list \<Rightarrow> nat \<Rightarrow> server \<times> nat" where
  "update_each p es s rq u [] n = (s, n)"
| "update_each p es s rq u (ident # ids) n =
     (let next = (\<lambda>s n. update_each p (\<lambda>k. es (k + 3)) s rq u ids n) in
      case get_issue_in_workspace (sv_db s) (api_uuid p ident) (api_uuid p (rq_workspace rq)) of
        Inl _ \<Rightarrow> next s n
      | Inr prev \<Rightarrow> (case update_params p prev u of
          None \<Rightarrow> next s n
        | Some q \<Rightarrow>
            if \<not> fst (may_assign p s rq (rq_workspace rq) (field_ptr (up_assignee_type u)) (field_ptr (up_assignee u))) then next s n
            else (case apply_update p es s rq (rq_workspace rq) False prev u q of
              (s', Inl _) \<Rightarrow> next s' n
            | (s', Inr _) \<Rightarrow> next s' (n + 1))))"

definition batch_update_issues :: "api \<Rightarrow> (nat \<Rightarrow> env) \<Rightarrow> server \<Rightarrow> request \<Rightarrow> (string list \<times> issue_update) option \<Rightarrow> nat handled" where
  "batch_update_issues p es s rq body =
     (case body of
        None \<Rightarrow> refuse s 400 ''invalid request body''
      | Some (ids, u) \<Rightarrow>
          if ids = [] then refuse s 400 ''issue_ids is required''
          else if rq_user rq = '''' then refuse s 401 ''user not authenticated''
          else (case update_each p es s rq u ids 0 of (s', n) \<Rightarrow> (s', Inr n)))"

section \<open>Deletion\<close>

definition delete_issue :: "api \<Rightarrow> env \<Rightarrow> server \<Rightarrow> request \<Rightarrow> string \<Rightarrow> unit handled" where
  "delete_issue p e s rq ident =
     (case load_issue_for_user p (sv_db s) rq ident of
        Inl err \<Rightarrow> (s, Inl err)
      | Inr i \<Rightarrow>
          let s1 = cancel_issue_tasks (api_lifecycle p) e s (Some (is_id i));
              s2 = put_db s1 (delete_issue_row (sv_db s1) (api_uuid p ident));
              ws = uuid_text (is_workspace i)
          in (say (issue_event ''issue:deleted'' ws (resolve_actor p (sv_db s2) rq ws) (JObj [(''issue_id'', JStr ident)])) s2, Inr ()))"

fun delete_each :: "api \<Rightarrow> (nat \<Rightarrow> env) \<Rightarrow> server \<Rightarrow> request \<Rightarrow> string list \<Rightarrow> nat \<Rightarrow> server \<times> nat" where
  "delete_each p es s rq [] n = (s, n)"
| "delete_each p es s rq (ident # ids) n =
     (case get_issue_in_workspace (sv_db s) (api_uuid p ident) (api_uuid p (rq_workspace rq)) of
        Inl _ \<Rightarrow> delete_each p (\<lambda>k. es (k + 1)) s rq ids n
      | Inr i \<Rightarrow>
          let s1 = cancel_issue_tasks (api_lifecycle p) (es 0) s (Some (is_id i));
              s2 = put_db s1 (delete_issue_row (sv_db s1) (api_uuid p ident));
              actor = resolve_actor p (sv_db s2) rq (rq_workspace rq)
          in delete_each p (\<lambda>k. es (k + 1)) (say (issue_event ''issue:deleted'' (rq_workspace rq) actor (JObj [(''issue_id'', JStr ident)])) s2)
               rq ids (n + 1))"

definition batch_delete_issues :: "api \<Rightarrow> (nat \<Rightarrow> env) \<Rightarrow> server \<Rightarrow> request \<Rightarrow> string list option \<Rightarrow> nat handled" where
  "batch_delete_issues p es s rq body =
     (case body of
        None \<Rightarrow> refuse s 400 ''invalid request body''
      | Some ids \<Rightarrow>
          if ids = [] then refuse s 400 ''issue_ids is required''
          else if rq_user rq = '''' then refuse s 401 ''user not authenticated''
          else (case delete_each p es s rq ids 0 of (s', n) \<Rightarrow> (s', Inr n)))"

end
