(* ===== verification/CommentRequests.thy ===== *)
theory CommentRequests
  imports IssueRequests
begin

text \<open>
  The comments of an issue and the agents they set to work (\<^verbatim>\<open>server/internal/handler/comment.go\<close>): a member's
  comment triggers the agent the issue is assigned to, a mention the agent it names. The expansion of bare issue
  identifiers (\<^verbatim>\<open>mention.ExpandIssueIdentifiers\<close>) is a parameter; attachments are left out.
\<close>

section \<open>Statements\<close>

definition get_comment :: "db \<Rightarrow> uuid option \<Rightarrow> comment_row res" where
  "get_comment d c = select_one (\<lambda>x. Some (cm_id x) = c) (comments d)"

definition get_comment_in_workspace :: "db \<Rightarrow> uuid option \<Rightarrow> uuid option \<Rightarrow> comment_row res" where
  "get_comment_in_workspace d c w = select_one (\<lambda>x. Some (cm_id x) = c \<and> Some (cm_workspace x) = w) (comments d)"

definition comment_types :: "string list" where
  "comment_types = [''comment'', ''status_change'', ''progress_update'', ''system'']"

definition create_comment_row :: "db \<Rightarrow> comment_row \<Rightarrow> (db \<times> comment_row) res" where
  "create_comment_row d c =
     or_fail (insert_row (cm_id c \<notin> cm_id ` set (comments d))
         (cm_author_type c \<in> set [''member'', ''agent''] \<and> cm_type c \<in> set comment_types \<and> cm_issue c \<in> is_id ` set (issues d) \<and>
          (case cm_parent c of None \<Rightarrow> True | Some x \<Rightarrow> x \<in> cm_id ` set (comments d))) c (comments d))
       (\<lambda>(cs, c). Inr (d\<lparr>comments := cs\<rparr>, c))"

definition update_comment_row :: "db \<Rightarrow> uuid option \<Rightarrow> string \<Rightarrow> (db \<times> comment_row) res" where
  "update_comment_row d c content =
     or_fail (get_comment d c) (\<lambda>x.
       Inr (d\<lparr>comments := upd_where (\<lambda>x. Some (cm_id x) = c) (\<lambda>x. x\<lparr>cm_content := content\<rparr>) (comments d)\<rparr>, x\<lparr>cm_content := content\<rparr>))"

text \<open>The comment and, level by level, the replies that hang on it.\<close>

fun thread_below :: "nat \<Rightarrow> comment_row list \<Rightarrow> uuid list \<Rightarrow> uuid list" where
  "thread_below 0 cs gone = gone"
| "thread_below (Suc n) cs gone =
     thread_below n cs (gone @ map cm_id (filter (\<lambda>c. cm_id c \<notin> set gone \<and> (case cm_parent c of None \<Rightarrow> False | Some x \<Rightarrow> x \<in> set gone)) cs))"

definition delete_comment_row :: "db \<Rightarrow> uuid option \<Rightarrow> db" where
  "delete_comment_row d c =
     (case c of
        None \<Rightarrow> d
      | Some x \<Rightarrow>
          let gone = thread_below (length (comments d)) (comments d) [x] in
          if x \<notin> cm_id ` set (comments d) then d
          else d\<lparr>comments := filter (\<lambda>c. cm_id c \<notin> set gone) (comments d),
                 tasks := map (\<lambda>t. t\<lparr>tk_trigger_comment := keep_ref gone (tk_trigger_comment t)\<rparr>) (tasks d)\<rparr>)"

section \<open>Whom a comment sets to work\<close>

definition comment_mentions_others_but_not_assignee :: "string \<Rightarrow> issue_row \<Rightarrow> bool" where
  "comment_mentions_others_but_not_assignee content i =
     (let ms = filter (\<lambda>m. mn_type m \<noteq> ''issue'') (parse_mentions content) in
      if ms = [] then False
      else if has_mention_all ms then True
      else case is_assignee i of
        None \<Rightarrow> True
      | Some a \<Rightarrow> \<not> list_ex (\<lambda>m. mn_id m = uuid_text a) ms)"

definition is_reply_to_member_thread :: "comment_row option \<Rightarrow> string \<Rightarrow> issue_row \<Rightarrow> bool" where
  "is_reply_to_member_thread parent content i =
     (case parent of
        None \<Rightarrow> False
      | Some c \<Rightarrow>
          if cm_author_type c \<noteq> ''member'' then False
          else case is_assignee i of
            None \<Rightarrow> True
          | Some a \<Rightarrow> \<not> list_ex (\<lambda>m. mn_id m = uuid_text a) (parse_mentions content) \<and>
              \<not> list_ex (\<lambda>m. mn_id m = uuid_text a) (parse_mentions (cm_content c)))"

definition thread_root :: "comment_row \<Rightarrow> uuid option" where
  "thread_root c = (case cm_parent c of None \<Rightarrow> Some (cm_id c) | Some x \<Rightarrow> Some x)"

text \<open>The mentions of the comment, then those of the thread's root that are new.\<close>

definition thread_mentions :: "comment_row \<Rightarrow> comment_row option \<Rightarrow> mention list" where
  "thread_mentions c parent =
     (case parent of
        None \<Rightarrow> parse_mentions (cm_content c)
      | Some r \<Rightarrow> parse_mentions (cm_content c) @ unseen (map mention_key (parse_mentions (cm_content c))) (parse_mentions (cm_content r)))"

text \<open>Why a mentioned agent is passed over, in the order of the code.\<close>

definition mention_triggers :: "api \<Rightarrow> server \<Rightarrow> issue_row \<Rightarrow> string \<times> string \<Rightarrow> mention \<Rightarrow> bool" where
  "mention_triggers p s i author m =
     (if mn_type m \<noteq> ''agent'' then False
      else if fst author = ''agent'' \<and> snd author = mn_id m then False
      else if is_assignee_type i = Some ''agent'' \<and> is_assignee i \<noteq> None \<and> uuid_to_string (is_assignee i) = mn_id m then False
      else case get_agent (sv_db s) (api_uuid p (mn_id m)) of
        Inl _ \<Rightarrow> False
      | Inr a \<Rightarrow>
          if ag_runtime a = None \<or> ag_archived_at a \<noteq> None then False
          else if ag_visibility a = ''private'' \<and> fst author = ''member'' \<and> uuid_to_string (ag_owner a) \<noteq> snd author \<and>
            (case get_member_by_user_and_workspace (sv_accounts s) (api_uuid p (snd author)) (api_uuid p (uuid_text (is_workspace i))) of
               Inl _ \<Rightarrow> True | Inr x \<Rightarrow> \<not> role_allowed (se_role x) [''owner'', ''admin''])
          then False
          else agent_has_trigger_enabled (api_codec p) (ag_triggers a) ''on_mention'' \<and>
            \<not> has_pending_task_for_issue_and_agent (sv_db s) (Some (is_id i)) (api_uuid p (mn_id m)))"

fun enqueue_mentioned ::
    "api \<Rightarrow> (nat \<Rightarrow> env) \<Rightarrow> server \<Rightarrow> issue_row \<Rightarrow> uuid option \<Rightarrow> string \<times> string \<Rightarrow> mention list \<Rightarrow> server" where
  "enqueue_mentioned p es s i reply_to author [] = s"
| "enqueue_mentioned p es s i reply_to author (m # ms) =
     enqueue_mentioned p (\<lambda>k. es (k + 1))
       (if mention_triggers p s i author m
        then (case enqueue_task_for_mention (es 0) (sv_db s) i (api_uuid p (mn_id m)) reply_to of Inl _ \<Rightarrow> s | Inr (d, _) \<Rightarrow> put_db s d)
        else s) i reply_to author ms"

definition enqueue_mentioned_agent_tasks ::
    "api \<Rightarrow> (nat \<Rightarrow> env) \<Rightarrow> server \<Rightarrow> issue_row \<Rightarrow> comment_row \<Rightarrow> comment_row option \<Rightarrow> string \<times> string \<Rightarrow> server" where
  "enqueue_mentioned_agent_tasks p es s i c parent author =
     enqueue_mentioned p es s i (thread_root c) author (thread_mentions c parent)"

section \<open>Requests\<close>

record comment_body =
  cb_content :: string
  cb_type :: string
  cb_parent :: pgtext

definition comment_to_response :: "codec \<Rightarrow> comment_row \<Rightarrow> json" where
  "comment_to_response c x = JObj [(''id'', JStr (uuid_text (cm_id x))), (''issue_id'', JStr (uuid_text (cm_issue x))),
     (''author_type'', JStr (cm_author_type x)), (''author_id'', JStr (uuid_text (cm_author x))), (''content'', JStr (cm_content x)),
     (''type'', JStr (cm_type x)), (''parent_id'', uuid_to_ptr (cm_parent x)), (''created_at'', JStr (cd_time c (cm_created_at x)))]"

text \<open>The parent a reply names: of the issue as the path names it.\<close>

definition parent_comment :: "api \<Rightarrow> db \<Rightarrow> string \<Rightarrow> pgtext \<Rightarrow> comment_row option option" where
  "parent_comment p d ident parent =
     (case parent of
        None \<Rightarrow> Some None
      | Some x \<Rightarrow> (case get_comment d (api_uuid p x) of
          Inl _ \<Rightarrow> None
        | Inr c \<Rightarrow> if uuid_text (cm_issue c) \<noteq> ident then None else Some (Some c)))"

definition new_comment_of :: "env \<Rightarrow> issue_row \<Rightarrow> string \<times> uuid \<Rightarrow> string \<Rightarrow> comment_body \<Rightarrow> uuid option \<Rightarrow> comment_row" where
  "new_comment_of e i author content b parent = \<lparr>cm_id = e_gen e 6, cm_issue = is_id i, cm_workspace = is_workspace i,
     cm_author_type = fst author, cm_author = snd author, cm_content = content,
     cm_type = (if cb_type b = '''' then ''comment'' else cb_type b), cm_created_at = e_now e, cm_parent = parent, cm_event = None\<rparr>"

definition comment_triggers :: "api \<Rightarrow> db \<Rightarrow> issue_row \<Rightarrow> comment_row \<Rightarrow> comment_row option \<Rightarrow> string \<Rightarrow> bool" where
  "comment_triggers p d i c parent author_type \<longleftrightarrow> author_type = ''member'' \<and> should_enqueue_on_comment (api_codec p) d i \<and>
     \<not> comment_mentions_others_but_not_assignee (cm_content c) i \<and> \<not> is_reply_to_member_thread parent (cm_content c) i"

definition create_comment ::
    "api \<Rightarrow> (db \<Rightarrow> uuid \<Rightarrow> string \<Rightarrow> string) \<Rightarrow> (nat \<Rightarrow> env) \<Rightarrow> server \<Rightarrow> request \<Rightarrow> string \<Rightarrow> comment_body option \<Rightarrow> comment_row handled" where
  "create_comment p expand es s rq ident body =
     (case load_issue_for_user p (sv_db s) rq ident of
        Inl err \<Rightarrow> (s, Inl err)
      | Inr i \<Rightarrow> (case body of
          None \<Rightarrow> refuse s 400 ''invalid request body''
        | Some b \<Rightarrow>
            if cb_content b = '''' then refuse s 400 ''content is required''
            else (case parent_comment p (sv_db s) ident (cb_parent b) of
              None \<Rightarrow> refuse s 400 ''invalid parent comment''
            | Some parent \<Rightarrow>
                let ws = uuid_text (is_workspace i); author = resolve_actor p (sv_db s) rq ws;
                    content = expand (sv_db s) (is_workspace i) (cb_content b) in
                (case (case api_uuid p (snd author) of
                         None \<Rightarrow> Inl ErrConstraint
                       | Some u \<Rightarrow> create_comment_row (sv_db s) (new_comment_of (es 0) i (fst author, u) content b (map_option cm_id parent))) of
                   Inl err \<Rightarrow> refuse s 500 (''failed to create comment: '' @ error_text (api_text p) err)
                 | Inr (d, c) \<Rightarrow>
                     let s1 = say (issue_event ''comment:created'' ws author
                           (JObj [(''comment'', comment_to_response (api_codec p) c), (''issue_title'', JStr (is_title i)),
                             (''issue_assignee_type'', jstr_opt (is_assignee_type i)), (''issue_assignee_id'', uuid_to_ptr (is_assignee i)),
                             (''issue_status'', JStr (is_status i))])) (put_db s d);
                         s2 = (if comment_triggers p d i c parent (fst author) then enqueue_issue (es 1) s1 i (thread_root c) else s1)
                     in (enqueue_mentioned_agent_tasks p (\<lambda>k. es (k + 2)) s2 i c parent author, Inr c)))))"

text \<open>The author of a comment, and the managers of its workspace, may change it.\<close>

definition own_comment :: "api \<Rightarrow> server \<Rightarrow> request \<Rightarrow> seat_row \<Rightarrow> string \<Rightarrow> string \<Rightarrow> (comment_row \<times> (string \<times> string)) reply" where
  "own_comment p s rq requester ident verb =
     (if rq_user rq = '''' then Inl (401, ''user not authenticated'')
      else case get_comment_in_workspace (sv_db s) (api_uuid p ident) (api_uuid p (rq_workspace rq)) of
        Inl _ \<Rightarrow> Inl (404, ''comment not found'')
      | Inr c \<Rightarrow>
          let actor = resolve_actor p (sv_db s) rq (rq_workspace rq) in
          if \<not> (cm_author_type c = fst actor \<and> uuid_text (cm_author c) = snd actor) \<and> \<not> role_allowed (se_role requester) [''owner'', ''admin'']
          then Inl (403, ''only comment author or admin can '' @ verb) else Inr (c, actor))"

definition update_comment :: "api \<Rightarrow> server \<Rightarrow> request \<Rightarrow> seat_row \<Rightarrow> string \<Rightarrow> string option \<Rightarrow> comment_row handled" where
  "update_comment p s rq requester ident body =
     (case own_comment p s rq requester ident ''edit'' of
        Inl err \<Rightarrow> (s, Inl err)
      | Inr (_, actor) \<Rightarrow> (case body of
          None \<Rightarrow> refuse s 400 ''invalid request body''
        | Some content \<Rightarrow>
            if content = '''' then refuse s 400 ''content is required''
            else (case update_comment_row (sv_db s) (api_uuid p ident) content of
              Inl _ \<Rightarrow> refuse s 500 ''failed to update comment''
            | Inr (d, c) \<Rightarrow>
                (say (issue_event ''comment:updated'' (rq_workspace rq) actor (JObj [(''comment'', comment_to_response (api_codec p) c)])) (put_db s d),
                 Inr c))))"

definition delete_comment :: "api \<Rightarrow> server \<Rightarrow> request \<Rightarrow> seat_row \<Rightarrow> string \<Rightarrow> unit handled" where
  "delete_comment p s rq requester ident =
     (case own_comment p s rq requester ident ''delete'' of
        Inl err \<Rightarrow> (s, Inl err)
      | Inr (c, actor) \<Rightarrow>
          (say (issue_event ''comment:deleted'' (rq_workspace rq) actor
              (JObj [(''comment_id'', JStr ident), (''issue_id'', JStr (uuid_text (cm_issue c)))]))
             (put_db s (delete_comment_row (sv_db s) (api_uuid p ident))), Inr ()))"

end
