(* ===== verification/BatchTotal.thy ===== *)
theory BatchTotal
  imports LifecycleBatch
begin

text \<open>
  The batch statements that end Work Items (cancellation by issue and agent, the sweeps) cannot fail on a database that
  meets its constraints: ending rows breaks none, and the facts get fresh identifiers.
\<close>

definition fresh_ids :: "env \<Rightarrow> db \<Rightarrow> bool" where
  "fresh_ids e d \<longleftrightarrow> inj (e_gen e) \<and> range (e_gen e) \<inter> ob_id ` set (outbox d) = {}"

lemma distinct_rewritten:
  assumes "distinct (map f (filter Q xs))" "\<And>x. x \<in> set xs \<Longrightarrow> Q (g x) \<Longrightarrow> Q x \<and> f (g x) = f x"
  shows "distinct (map f (filter Q (map g xs)))"
  using assms
proof (induction xs)
  case (Cons x xs)
  have "f ` set (filter Q (map g xs)) \<subseteq> f ` set (filter Q xs)"
    using Cons.prems(2) by force
  with Cons show ?case by (auto split: if_splits)
qed simp

text \<open>Rewriting a row to its end: keys and references stay, the active Run is taken away.\<close>

definition ends_task :: "(task_row \<Rightarrow> task_row) \<Rightarrow> task_row \<Rightarrow> bool" where
  "ends_task f t \<longleftrightarrow> tk_id (f t) = tk_id t \<and> tk_issue (f t) = tk_issue t \<and> tk_agent (f t) = tk_agent t \<and>
     tk_runtime (f t) = tk_runtime t \<and> tk_task_type (f t) = tk_task_type t \<and> terminal (tk_status (f t)) \<and> tk_active_run (f t) = None"

definition ends_run :: "(run_row \<Rightarrow> run_row) \<Rightarrow> run_row \<Rightarrow> bool" where
  "ends_run f r \<longleftrightarrow> rn_id (f r) = rn_id r \<and> rn_task (f r) = rn_task r \<and> terminal (rn_status (f r))"

lemma ends_simps [simp]:
  "ends_task (failed_task e msg) t" "ends_task (cancelled_task e) t" "ends_run (failed_run e msg) r" "ends_run (cancelled_run e) r"
  by (simp_all add: ends_task_def ends_run_def failed_task_def cancelled_task_def failed_run_def cancelled_run_def)

lemma terminal_idle: "terminal s \<Longrightarrow> \<not> pending s \<and> \<not> active s \<and> s \<noteq> Queued"
  by (cases s) simp_all

lemma batch_ids: "map ob_id (batch_events e ty xs) = map (e_gen e) [0..<length xs]"
  by (rule nth_equalityI) (simp_all add: batch_events_def new_outbox_row_def nth_enumerate_eq split: prod.split)

lemma close_batch_ok:
  assumes C: "db_constraints d" and F: "fresh_ids e d" and ends: "\<And>t. ends_task tf t" "\<And>r. ends_run rf r"
  shows "is_ok (close_batch e d P rf tf ty)"
proof -
  let ?tg = "\<lambda>t. if P t then tf t else t"
  let ?Q = "\<lambda>r. Some (rn_id r) \<in> tk_active_run ` set (filter P (tasks d)) \<and> active (rn_status r)"
  let ?rg = "\<lambda>r. if ?Q r then rf r else r"
  let ?evs = "batch_events e ty (map (\<lambda>t. (tk_id t, tk_active_run t, tk_status (tf t))) (filter P (tasks d)))"
  let ?d = "d\<lparr>tasks := map ?tg (tasks d), runs := map ?rg (runs d), outbox := outbox d @ ?evs\<rparr>"
  have E: "tk_id (tf t) = tk_id t" "tk_issue (tf t) = tk_issue t" "tk_agent (tf t) = tk_agent t" "tk_runtime (tf t) = tk_runtime t"
    "tk_task_type (tf t) = tk_task_type t" "\<not> pending (tk_status (tf t))" "tk_active_run (tf t) = None" for t
    using ends(1) [of t] terminal_idle by (auto simp: ends_task_def)
  have R: "rn_id (rf r) = rn_id r" "rn_task (rf r) = rn_task r" "\<not> active (rn_status (rf r))" "rn_status (rf r) \<noteq> Queued" for r
    using ends(2) [of r] terminal_idle by (auto simp: ends_run_def)
  have ids: "map tk_id (map ?tg (tasks d)) = map tk_id (tasks d)" "map rn_id (map ?rg (runs d)) = map rn_id (runs d)"
    by (simp_all add: E R)
  have sets: "tk_id ` set (tasks ?d) = tk_id ` set (tasks d)" "rn_id ` set (runs ?d) = rn_id ` set (runs d)"
  proof -
    have "tasks ?d = map ?tg (tasks d)" "runs ?d = map ?rg (runs d)" by simp_all
    then have "map tk_id (tasks ?d) = map tk_id (tasks d)" "map rn_id (runs ?d) = map rn_id (runs d)" by (simp_all only: ids)
    then show "tk_id ` set (tasks ?d) = tk_id ` set (tasks d)" "rn_id ` set (runs ?d) = rn_id ` set (runs d)"
      by (metis set_map)+
  qed
  from C have tc: "task_constraints d" and rc: "run_constraints d" and oc: "outbox_constraints d" by (simp_all add: db_constraints_def)
  have dist: "distinct (map tk_id (map ?tg (tasks d)))" "distinct (map rn_id (map ?rg (runs d)))"
    unfolding ids using tc rc by (simp_all add: task_constraints_def run_constraints_def)
  have "task_constraints ?d"
  proof -
    have "one_pending_per_issue (map ?tg (tasks d))"
      using tc unfolding task_constraints_def one_pending_per_issue_def
      by (intro distinct_rewritten) (auto simp: E split: if_splits)
    moreover have "unique_active_run (map ?tg (tasks d))"
      using tc unfolding task_constraints_def unique_active_run_def
      by (intro distinct_rewritten) (auto simp: E split: if_splits)
    ultimately show ?thesis
      using tc dist(1) sets unfolding task_constraints_def by (auto simp: E split: if_splits)
  qed
  moreover have "run_constraints ?d"
  proof -
    have "one_active_run_per_task (map ?rg (runs d))"
      using rc unfolding run_constraints_def one_active_run_per_task_def
      by (intro distinct_rewritten) (auto simp: R split: if_splits)
    then show ?thesis using rc dist(2) sets unfolding run_constraints_def by (auto simp: R split: if_splits)
  qed
  moreover have "outbox_constraints ?d"
  proof -
    have "distinct (map ob_id ?evs)" using F by (auto simp: batch_ids distinct_map fresh_ids_def intro: inj_on_subset)
    moreover have "set (map ob_id ?evs) \<subseteq> range (e_gen e)" unfolding batch_ids by auto
    moreover have "distinct (map ob_id (outbox d))" using oc by (simp add: outbox_constraints_def)
    moreover have "set (map ob_id (outbox d)) \<inter> range (e_gen e) = {}" using F by (auto simp: fresh_ids_def)
    ultimately have "distinct (map ob_id (outbox d) @ map ob_id ?evs)" unfolding distinct_append by blast
    then have "distinct (map ob_id (outbox ?d))" by simp
    moreover have "0 < ob_version v \<and> ob_work_item v \<in> tk_id ` set (tasks ?d) \<and> (\<forall>r. ob_run v = Some r \<longrightarrow> r \<in> rn_id ` set (runs ?d))"
      if "v \<in> set (outbox ?d)" for v
    proof (cases "v \<in> set (outbox d)")
      case True
      with oc sets show ?thesis by (simp add: outbox_constraints_def)
    next
      case False
      with that obtain t where "t \<in> set (tasks d)" "ob_work_item v = tk_id t" "ob_run v = tk_active_run t" "ob_version v = 1"
        by (auto simp: new_outbox_row_def dest!: set_batch_events)
      with tc sets show ?thesis by (simp add: task_constraints_def)
    qed
    ultimately show ?thesis by (simp add: outbox_constraints_def)
  qed
  ultimately have "db_constraints ?d" by (simp add: db_constraints_def)
  then have "close_batch e d P rf tf ty = Inr (?d, map tk_id (filter P (tasks d)))"
    unfolding close_batch_Inr by blast
  then show ?thesis by simp
qed

end
