(* ===== verification/IssueProps.thy ===== *)
theory IssueProps
  imports CommentRequests TaskProps BatchTotal
begin

text \<open>
  What the requests on issues guarantee and what they miss: identifiers, numbers, who may be assigned, what a change
  of the assignee does to the queue, and which comments set which agents to work.
\<close>

section \<open>Identifiers\<close>

lemma int64_of_small: "- (2 ^ 63) \<le> n \<Longrightarrow> n < 2 ^ 63 \<Longrightarrow> int64_of n = n"
  by (simp add: int64_of_def sint_sbintrunc' signed_take_bit_int_eq_self)

lemma read_number_append: "read_number n (xs @ ys) = Option.bind (read_number n xs) (\<lambda>m. read_number m ys)"
  by (induction xs arbitrary: n) (auto simp: Let_def)

lemma read_number_digit: "k < 10 \<Longrightarrow> read_number n [char_of (48 + k)] = Some (int64_of (n * 10 + int k))"
  by simp

lemma read_number_digits: "m < 2 ^ 63 \<Longrightarrow> read_number 0 (digits m) = Some (int m)"
proof (induction m rule: digits.induct)
  case (1 m)
  show ?case
  proof (cases "m < 10")
    case True
    then show ?thesis using read_number_digit [of m 0] by (simp add: digits.simps [of m] int64_of_small)
  next
    case False
    then have "read_number 0 (digits (m div 10)) = Some (int (m div 10))" using 1 by simp
    moreover have "int (m div 10) * 10 + int (m mod 10) = int m" by (metis div_mult_mod_eq of_nat_add of_nat_mult of_nat_numeral)
    ultimately show ?thesis using False 1(2) read_number_digit [of "m mod 10" "int (m div 10)"]
      by (simp add: digits.simps [of m] read_number_append int64_of_small)
  qed
qed

lemma digits_no_dash: "CHR ''-'' \<notin> set (digits m) \<and> digits m \<noteq> ''''"
proof (induction m rule: digits.induct)
  case (1 m)
  have "char_of (48 + k :: nat) \<noteq> CHR ''-''" if "k < 10" for k
  proof
    assume "char_of (48 + k) = CHR ''-''"
    from arg_cong [OF this, of "of_char :: char \<Rightarrow> nat"] that show False by simp
  qed
  then have "k < 10 \<Longrightarrow> CHR ''-'' \<noteq> char_of (48 + k :: nat)" for k by metis
  with 1 show ?case by (simp add: digits.simps [of m])
qed

text \<open>An identifier is read back with its prefix and its number, up to the width of the number column: every
  identifier of an issue names its number, and a number from $2^{31}$ on names another one.\<close>

theorem identifier_roundtrip:
  assumes "prefix \<noteq> ''''" "0 < n" "n < 2 ^ 63"
  shows "split_identifier (prefix @ ''-'' @ itoa n) = Some (prefix, int32_of n) \<and> (n < 2 ^ 31 \<longrightarrow> int32_of n = n)"
proof -
  have n: "itoa n = digits (nat n)" using assms(2) by (simp add: itoa_def)
  have "takeWhile (\<lambda>c. c \<noteq> CHR ''-'') (rev (prefix @ ''-'' @ digits (nat n))) = rev (digits (nat n))"
    using digits_no_dash [of "nat n"] by (simp, subst takeWhile_append2) auto
  moreover have "read_number 0 (digits (nat n)) = Some n"
    using read_number_digits [of "nat n"] assms(2,3) by (simp add: nat_less_iff)
  ultimately show ?thesis
    using assms digits_no_dash [of "nat n"] by (simp add: split_identifier_def n int32_of_small)
qed

lemma identifier_roundtrip_witness:
  "split_identifier ''JIA-42'' = Some (''JIA'', 42) \<and> split_identifier ''JIA-4294967338'' = Some (''JIA'', 42)"
proof -
  have "itoa 42 = ''42''" "itoa 4294967338 = ''4294967338''" by (simp_all add: itoa_def digits.simps char_of_def bit_0)
  moreover have "int32_of 4294967338 = 42" by (simp add: int32_of_def)
  ultimately show ?thesis using identifier_roundtrip [of "''JIA''" 42] identifier_roundtrip [of "''JIA''" 4294967338] by simp
qed

section \<open>Who may be assigned\<close>

text \<open>An agent of the workspace that is not archived and, when private, belongs to the user or to a workspace the user manages.\<close>

definition agent_open_to :: "api \<Rightarrow> server \<Rightarrow> request \<Rightarrow> string \<Rightarrow> uuid \<Rightarrow> bool" where
  "agent_open_to p s rq ws a \<longleftrightarrow> (\<exists>x\<in>set (agents (sv_db s)). ag_id x = a \<and> Some (ag_workspace x) = api_uuid p ws \<and>
     ag_archived_at x = None \<and> (ag_visibility x \<noteq> ''private'' \<or> uuid_to_string (ag_owner x) = rq_user rq \<or>
       (\<exists>m\<in>set (ac_seats (sv_accounts s)). Some (se_user m) = api_uuid p (rq_user rq) \<and> Some (se_workspace m) = api_uuid p ws \<and>
          se_role m \<in> set [''owner'', ''admin''])))"

lemma can_assign_agent_open:
  assumes "fst (can_assign_agent p s rq x ws)" "api_uuid p x = Some a"
  shows "agent_open_to p s rq ws a"
  using assms by (fastforce simp: can_assign_agent_def agent_open_to_def get_agent_in_workspace_def get_member_by_user_and_workspace_def
      role_allowed_def dest!: select_one_Inr split: sum.splits if_splits)

lemma insert_new_issue_Inr:
  assumes "insert_new_issue p e d ws n creator b due = Inr (d', i)"
  shows "\<exists>w c. api_uuid p ws = Some w \<and> api_uuid p (snd creator) = Some c \<and> i = new_issue p e w n (fst creator, c) b due \<and>
    d' = d\<lparr>issues := issues d @ [i]\<rparr> \<and> is_id i \<notin> is_id ` set (issues d) \<and> issue_admitted d i \<and>
    (w, n) \<notin> (\<lambda>x. (is_workspace x, is_number x)) ` set (issues d)"
  using assms by (auto simp: insert_new_issue_def create_issue_row_def or_fail_Inr insert_row_Inr new_issue_def split: option.splits)

lemma create_issue_Inr:
  assumes "create_issue p es s rq (Some b) = (s', Inr i)"
  obtains due a n d where "parse_due p (nb_due b) = Some due" "fst (may_assign p s rq (rq_workspace rq) (nb_assignee_type b) (nb_assignee b))"
    "increment_issue_counter (sv_accounts s) (api_uuid p (rq_workspace rq)) = Inr (a, n)"
    "insert_new_issue p (es 0) (sv_db s) (rq_workspace rq) n (resolve_actor p (sv_db s) rq (rq_workspace rq)) b due = Inr (d, i)"
    "sv_accounts s' = a" "sv_db s' = d \<or> (\<exists>t. enqueue_task_for_issue (es 1) d i None = Inr (sv_db s', t))"
  using assms unfolding create_issue_def
  by (auto simp: Let_def enqueue_issue_def split: if_splits option.splits sum.splits)

lemma load_issue_Inr:
  "load_issue_for_user p d rq ident = Inr i \<Longrightarrow> i \<in> set (issues d) \<and> rq_user rq \<noteq> '''' \<and> Some (is_workspace i) = api_uuid p (rq_workspace rq)"
  by (auto simp: load_issue_for_user_def resolve_issue_by_identifier_def get_issue_by_number_def get_issue_in_workspace_def
      dest!: select_one_Inr split: option.splits sum.splits if_splits)

lemma queue_accounts [simp]:
  "sv_accounts (enqueue_issue e s i t) = sv_accounts s" "sv_accounts (cancel_issue_tasks l e s x) = sv_accounts s"
  "sv_accounts (reassign p e e' s i) = sv_accounts s"
  by (auto simp: enqueue_issue_def cancel_issue_tasks_def reassign_def Let_def split: sum.splits)

lemma apply_update_Inr:
  assumes "apply_update p es s rq ws single prev u q = (s', Inr i)"
  obtains x ev where "x \<in> set (issues (sv_db s))" "is_id x = is_id prev" "i = updated_issue (es 0) q x"
    "issue_admitted (sv_db s) i" "sv_accounts s' = sv_accounts s"
    "s' = (let s1 = say ev (put_db s ((sv_db s)\<lparr>issues := upd_where (\<lambda>x. is_id x = is_id prev) (updated_issue (es 0) q) (issues (sv_db s))\<rparr>))
           in if assignee_changed u prev i then reassign p (es 1) (es 2) s1 i else s1)"
proof -
  from assms have "\<exists>x d. select_one (\<lambda>x. is_id x = is_id prev) (issues (sv_db s)) = Inr x \<and> i = updated_issue (es 0) q x \<and>
      issue_admitted (sv_db s) i \<and> d = (sv_db s)\<lparr>issues := upd_where (\<lambda>x. is_id x = is_id prev) (updated_issue (es 0) q) (issues (sv_db s))\<rparr> \<and>
      (\<exists>ev. s' = (let s1 = say ev (put_db s d) in if assignee_changed u prev i then reassign p (es 1) (es 2) s1 i else s1))"
    by (fastforce simp: apply_update_def Let_def update_issue_row_def or_fail_Inr split: sum.splits if_splits)
  then obtain x ev where x: "select_one (\<lambda>x. is_id x = is_id prev) (issues (sv_db s)) = Inr x" "i = updated_issue (es 0) q x"
    "issue_admitted (sv_db s) i" and s': "s' = (let s1 = say ev (put_db s ((sv_db s)\<lparr>issues := upd_where (\<lambda>x. is_id x = is_id prev)
      (updated_issue (es 0) q) (issues (sv_db s))\<rparr>)) in if assignee_changed u prev i then reassign p (es 1) (es 2) s1 i else s1)"
    by blast
  have "sv_accounts s' = sv_accounts s" unfolding s' by (simp add: Let_def)
  with select_one_Inr [OF x(1)] x(2,3) s' show ?thesis by (intro that [of x ev]) auto
qed

text \<open>C31. Whoever creates an issue for an agent, or moves one to an agent with a body that says so, may set that agent to work.\<close>

theorem assigned_agent_allowed:
  assumes "create_issue p es s rq (Some b) = (s', Inr i)" "is_assignee_type i = Some ''agent''" "is_assignee i = Some a"
    and "update_issue p es' r rq ident (Some u) = (r', Inr j)" "up_assignee_type u = Some (Some ''agent'')"
      "up_assignee u = Some (Some x)" "api_uuid p x = Some c" "distinct (map is_id (issues (sv_db r)))"
  shows "agent_open_to p s rq (rq_workspace rq) a \<and> agent_open_to p r rq (uuid_text (is_workspace j)) c"
proof
  show "agent_open_to p s rq (rq_workspace rq) a"
    using assms(1)
  proof (rule create_issue_Inr)
    fix due acc n d
    assume may: "fst (may_assign p s rq (rq_workspace rq) (nb_assignee_type b) (nb_assignee b))"
      and "insert_new_issue p (es 0) (sv_db s) (rq_workspace rq) n (resolve_actor p (sv_db s) rq (rq_workspace rq)) b due = Inr (d, i)"
    from insert_new_issue_Inr [OF this(2)] assms(2,3) have "nb_assignee_type b = Some ''agent''" "bind_text (api_uuid p) (nb_assignee b) = Some a"
      by (auto simp: new_issue_def)
    with may show ?thesis by (auto simp: may_assign_def bind_text_def split: option.splits intro: can_assign_agent_open)
  qed
  from assms(4-7) obtain prev q where load: "load_issue_for_user p (sv_db r) rq ident = Inr prev"
    and may: "fst (may_assign p r rq (uuid_text (is_workspace prev)) (Some ''agent'') (Some x))"
    and up: "apply_update p es' r rq (uuid_text (is_workspace prev)) True prev u q = (r', Inr j)"
    by (auto simp: update_issue_def Let_def field_ptr_def or_else_def split: sum.splits option.splits if_splits prod.splits)
  from load_issue_Inr [OF load] have prev: "prev \<in> set (issues (sv_db r))" by simp
  from up have "is_workspace j = is_workspace prev"
  proof (rule apply_update_Inr)
    fix y
    assume "y \<in> set (issues (sv_db r))" "is_id y = is_id prev" "j = updated_issue (es' 0) q y"
    with prev assms(8) distinct_key_eq [of is_id "issues (sv_db r)" y prev] show ?thesis by (auto simp: updated_issue_def)
  qed
  with may assms(7) show "agent_open_to p r rq (uuid_text (is_workspace j)) c" by (auto simp: may_assign_def intro: can_assign_agent_open)
qed

section \<open>A workspace\<close>

definition demo_api :: api where
  "demo_api = \<lparr>api_uuid = demo_read_uuid, api_time = (\<lambda>_. None), api_codec = demo_codec, api_lifecycle = demo_handle, api_text = (\<lambda>_. '''')\<rparr>"

definition demo_space :: space_row where
  "demo_space = \<lparr>sp_id = 1, sp_name = ''Acme'', sp_slug = ''acme'', sp_description = None, sp_context = None, sp_settings = '''',
     sp_repos = '''', sp_prefix = ''ACM'', sp_counter = 2, sp_domain = '''', sp_sso = ''open'', sp_created_at = 0, sp_updated_at = 0\<rparr>"

text \<open>User 7 is a plain member of workspace 1; agent 11 is a private agent of workspace 2.\<close>

definition demo_foreign :: agent_row where
  "demo_foreign = demo_agent\<lparr>ag_id := 11, ag_workspace := 2, ag_visibility := ''private'', ag_owner := Some 8, ag_runtime := Some 22\<rparr>"

definition demo_server :: server where
  "demo_server = \<lparr>sv_world = \<lparr>w_db = demo0\<lparr>agents := [demo_agent, demo_foreign],
       runtimes := runtimes demo0 @ [(demo_runtime 22 ''online'')\<lparr>rt_workspace := 2\<rparr>]\<rparr>, w_bus = []\<rparr>,
     sv_accounts = \<lparr>ac_users = [], ac_spaces = [demo_space],
       ac_seats = [\<lparr>se_id = 3, se_workspace = 1, se_user = 7, se_role = ''member'', se_created_at = 0\<rparr>], ac_codes = []\<rparr>\<rparr>"

definition demo_request :: request where
  "demo_request = \<lparr>rq_user = uuid_text 7, rq_workspace = uuid_text 1, rq_agent = '''', rq_task = ''''\<rparr>"

definition demo_body :: issue_body where
  "demo_body = \<lparr>nb_title = ''t'', nb_description = None, nb_status = '''', nb_priority = '''', nb_assignee_type = Some ''agent'',
     nb_assignee = Some (uuid_text 10), nb_parent = None, nb_due = None\<rparr>"

definition no_change :: issue_update where
  "no_change = \<lparr>up_title = None, up_description = None, up_status = None, up_priority = None, up_assignee_type = None,
     up_assignee = None, up_due = None\<rparr>"

lemma demo_not_number: "split_identifier (uuid_text 30) = None"
  by code_simp

lemma demo_numbered: "split_identifier (uuid_text 32) = Some (''00000000-0000-0000-0000'', 20)"
  by code_simp

lemma demo_open: "fst (may_assign demo_api demo_server demo_request (uuid_text 1) (Some ''agent'') (Some (uuid_text 10)))"
  by (simp add: may_assign_def can_assign_agent_def demo_api_def demo_server_def get_agent_in_workspace_def select_one_def demo_read_uuid demo_agent_def demo_foreign_def)

definition demo_new_issue :: issue_row where
  "demo_new_issue = new_issue demo_api (demo_env 0) 1 3 (''member'', 7) demo_body None"

lemma demo_due: "parse_due demo_api None = Some None"
  by (simp add: parse_due_def)

lemma demo_created: "\<exists>s'. create_issue demo_api demo_env demo_server demo_request (Some demo_body) = (s', Inr demo_new_issue)"
proof -
  have "increment_issue_counter (sv_accounts demo_server) (api_uuid demo_api (rq_workspace demo_request)) =
      Inr ((sv_accounts demo_server)\<lparr>ac_spaces := [demo_space\<lparr>sp_counter := 3\<rparr>]\<rparr>, 3)"
    by (simp add: increment_issue_counter_def update_space_where_def get_workspace_def select_one_def or_fail_def upd_where_def
      demo_server_def demo_space_def demo_api_def demo_request_def demo_read_uuid)
  moreover have "resolve_actor demo_api (sv_db demo_server) demo_request (rq_workspace demo_request) = (''member'', uuid_text 7)"
    by (simp add: resolve_actor_def demo_request_def)
  moreover have "insert_new_issue demo_api (demo_env 0) (sv_db demo_server) (rq_workspace demo_request) 3 (''member'', uuid_text 7) demo_body None =
      Inr ((sv_db demo_server)\<lparr>issues := issues demo0 @ [demo_new_issue]\<rparr>, demo_new_issue)"
    by (simp add: insert_new_issue_def demo_api_def demo_request_def demo_read_uuid create_issue_row_def insert_row_def or_fail_def
      issue_admitted_def demo_new_issue_def new_issue_def bind_text_def demo_body_def demo_server_def demo0_def demo_issue_def demo_env_def
      issue_statuses_def issue_priorities_def)
  moreover have "may_assign demo_api demo_server demo_request (rq_workspace demo_request) (nb_assignee_type demo_body) (nb_assignee demo_body) = (True, '''')"
    by (simp add: may_assign_def can_assign_agent_def demo_body_def demo_api_def demo_server_def demo_request_def get_agent_in_workspace_def
      select_one_def demo_read_uuid demo_agent_def demo_foreign_def)
  moreover have "nb_title demo_body \<noteq> ''''" "rq_user demo_request \<noteq> ''''" "nb_due demo_body = None" "e_begin (demo_env 0)" "e_commit (demo_env 0)"
    by (simp_all add: demo_body_def demo_request_def demo_env_def uuid_text_nonempty)
  ultimately show ?thesis unfolding create_issue_def by (simp add: demo_due Let_def)
qed

definition demo_move :: issue_update where
  "demo_move = no_change\<lparr>up_assignee_type := Some (Some ''agent''), up_assignee := Some (Some (uuid_text 10))\<rparr>"

lemma demo_load: "load_issue_for_user demo_api (sv_db demo_server) demo_request (uuid_text 30) = Inr (demo_issue 30)"
  by (simp add: load_issue_for_user_def demo_request_def uuid_text_nonempty resolve_issue_by_identifier_def demo_not_number
    get_issue_in_workspace_def demo_api_def demo_read_uuid demo_server_def demo0_def select_one_def demo_issue_def)

lemma demo_moved: "\<exists>s' j. update_issue demo_api demo_env demo_server demo_request (uuid_text 30) (Some demo_move) = (s', Inr j)"
proof -
  let ?q = "\<lparr>iq_title = None, iq_description = None, iq_status = None, iq_priority = None, iq_assignee_type = Some ''agent'',
      iq_assignee = Some 10, iq_due = None\<rparr>"
  have q: "update_params demo_api (demo_issue 30) demo_move = Some ?q"
    by (simp add: update_params_def demo_move_def no_change_def or_else_def bind_text_def demo_api_def demo_read_uuid demo_issue_def)
  have "update_issue_row (demo_env 0) (sv_db demo_server) (is_id (demo_issue 30)) ?q =
      Inr ((sv_db demo_server)\<lparr>issues := upd_where (\<lambda>x. is_id x = 30) (updated_issue (demo_env 0) ?q) (issues demo0)\<rparr>,
        updated_issue (demo_env 0) ?q (demo_issue 30))"
    by (simp add: update_issue_row_def or_fail_def select_one_def demo_server_def demo0_def demo_issue_def issue_admitted_def updated_issue_def
      or_else_def issue_statuses_def issue_priorities_def)
  moreover have "may_assign demo_api demo_server demo_request (uuid_text (is_workspace (demo_issue 30)))
      (field_ptr (up_assignee_type demo_move)) (field_ptr (up_assignee demo_move)) = (True, '''')"
    by (simp add: may_assign_def can_assign_agent_def demo_move_def no_change_def field_ptr_def or_else_def demo_issue_def demo_api_def demo_server_def
      get_agent_in_workspace_def select_one_def demo_read_uuid demo_agent_def demo_foreign_def)
  ultimately show ?thesis unfolding update_issue_def by (simp add: demo_load q apply_update_def Let_def)
qed

lemma assigned_agent_allowed_witness:
  "agent_open_to demo_api demo_server demo_request (uuid_text 1) 10 \<and>
   (\<exists>j :: issue_row. agent_open_to demo_api demo_server demo_request (uuid_text (is_workspace j)) 10)"
proof -
  obtain s' r' j where made: "create_issue demo_api demo_env demo_server demo_request (Some demo_body) = (s', Inr demo_new_issue)"
    and moved: "update_issue demo_api demo_env demo_server demo_request (uuid_text 30) (Some demo_move) = (r', Inr j)"
    using demo_created demo_moved by blast
  have ids: "distinct (map is_id (issues (sv_db demo_server)))" by (simp add: demo_server_def demo0_def demo_issue_def)
  have "is_assignee_type demo_new_issue = Some ''agent''" "is_assignee demo_new_issue = Some 10" "rq_workspace demo_request = uuid_text 1"
    "up_assignee_type demo_move = Some (Some ''agent'')" "up_assignee demo_move = Some (Some (uuid_text 10))" "api_uuid demo_api (uuid_text 10) = Some 10"
    by (simp_all add: demo_new_issue_def new_issue_def demo_body_def bind_text_def demo_api_def demo_read_uuid demo_request_def demo_move_def no_change_def)
  then have "agent_open_to demo_api demo_server demo_request (rq_workspace demo_request) 10 \<and>
      agent_open_to demo_api demo_server demo_request (uuid_text (is_workspace j)) 10"
    by (intro assigned_agent_allowed [OF made _ _ moved _ _ _ ids])
  moreover have "rq_workspace demo_request = uuid_text 1" by (simp add: demo_request_def)
  ultimately show ?thesis by (intro conjI exI [of _ j]) simp_all
qed

section \<open>A change of the assignee and the queue\<close>

abbreviation unfinished :: "task_row \<Rightarrow> bool" where
  "unfinished t \<equiv> tk_status t = Queued \<or> active (tk_status t)"

lemma cancel_for_issue_Inr:
  "lc_cancel_for_issue l e d (Some i) = Inr (d', n) \<Longrightarrow>
     tasks d' = upd_where (\<lambda>t. tk_issue t = i \<and> unfinished t) (cancelled_task e) (tasks d) \<and> issues d' = issues d \<and> agents d' = agents d \<and>
     runtimes d' = runtimes d \<and> db_constraints d'"
  by (auto simp: lc_cancel_for_issue_def cancel_agent_tasks_by_issue_def close_batch_def Let_def res_simps split: if_splits)

lemma enqueue_for_issue_Inr:
  "enqueue_task_for_issue e d i trig = Inr (d', t) \<Longrightarrow>
     tasks d' = tasks d @ [t] \<and> issues d' = issues d \<and> tk_issue t = is_id i \<and> Some (tk_agent t) = is_assignee i \<and> tk_status t = Queued"
  by (auto simp: enqueue_task_for_issue_def enqueue_for_agent_def create_agent_task_def enqueue_params_def get_agent_def Let_def res_simps
      dest!: select_one_Inr split: if_splits option.splits)

lemma reassign_issues [simp]: "issues (sv_db (reassign p e e' s i)) = issues (sv_db s)"
  by (auto simp: reassign_def cancel_issue_tasks_def enqueue_issue_def Let_def dest!: cancel_for_issue_Inr enqueue_for_issue_Inr split: sum.splits)

lemma keys_upd_where: "(\<And>x. key (f x) = key x) \<Longrightarrow> key ` set (upd_where P f rows) = key ` set rows"
  unfolding set_upd_where image_image by (rule image_cong) simp_all

lemma cancel_for_issue_ok:
  assumes "db_constraints d" "handle_ok l" "fresh_ids e d"
  shows "\<exists>c. lc_cancel_for_issue l e d (Some i) = Inr c"
proof -
  have "is_ok (cancel_agent_tasks_by_issue e d (Some i))"
    unfolding cancel_agent_tasks_by_issue_def by (rule close_batch_ok [OF assms(1,3) ends_simps(2,4)])
  then show ?thesis using assms(2) by (auto simp: lc_cancel_for_issue_def handle_ok_def is_ok_def split: sum.splits)
qed

text \<open>Whom an assignment sets to work: an agent at hand, with a runtime, that listens to assignments.\<close>

definition agent_ready :: "codec \<Rightarrow> db \<Rightarrow> issue_row \<Rightarrow> bool" where
  "agent_ready c d i \<longleftrightarrow> is_assignee_type i = Some ''agent'' \<and> distinct (map ag_id (agents d)) \<and>
     (\<exists>a\<in>set (agents d). is_assignee i = Some (ag_id a) \<and> ag_archived_at a = None \<and>
        agent_has_trigger_enabled c (ag_triggers a) ''on_assign'' \<and> ag_runtime a \<in> (\<lambda>r. Some (rt_id r)) ` set (runtimes d))"

lemma queue_task_ok:
  assumes "db_constraints d" "e_gen e 0 \<notin> tk_id ` set (tasks d)" "\<And>t. t \<in> set (tasks d) \<Longrightarrow> tk_issue t = i \<Longrightarrow> \<not> pending (tk_status t)"
    "a \<in> ag_id ` set (agents d)" "r \<in> rt_id ` set (runtimes d)" "i \<in> is_id ` set (issues d)"
    "ct_agent q = Some a" "ct_runtime q = Some r" "ct_issue q = Some i" "ct_task_type q = None"
  shows "is_ok (create_agent_task e 0 d q)"
proof -
  have "db_constraints (d\<lparr>tasks := tasks d @ [t]\<rparr>)"
    if "tk_id t = e_gen e 0" "tk_issue t = i" "tk_agent t = a" "tk_runtime t = r" "tk_task_type t = ''standard''" "tk_active_run t = None" for t
  proof -
    have "i \<notin> tk_issue ` set (filter (\<lambda>t. pending (tk_status t)) (tasks d))" using assms(3) by auto
    with assms(1,2,4-6) that show ?thesis by (fastforce simp: constraint_defs task_types_def)
  qed
  then show ?thesis using assms(7-10) by (simp add: create_agent_task_def Let_def or_fail_def commit_stmt_def)
qed

lemma enqueue_issue_ok:
  assumes "agent_ready c d i" "db_constraints d" "e_gen e 0 \<notin> tk_id ` set (tasks d)" "is_id i \<in> is_id ` set (issues d)"
    "\<And>t. t \<in> set (tasks d) \<Longrightarrow> tk_issue t = is_id i \<Longrightarrow> \<not> pending (tk_status t)"
  shows "should_enqueue_agent_task c d i \<and> (\<exists>d' t. enqueue_task_for_issue e d i None = Inr (d', t))"
proof -
  from assms(1) obtain a r where a: "a \<in> set (agents d)" "is_assignee i = Some (ag_id a)" "ag_archived_at a = None"
      "agent_has_trigger_enabled c (ag_triggers a) ''on_assign''" "ag_runtime a = Some (rt_id r)" "r \<in> set (runtimes d)"
    and i: "is_assignee_type i = Some ''agent''" "distinct (map ag_id (agents d))" by (auto simp: agent_ready_def)
  have get: "get_agent d (is_assignee i) = Inr a"
    unfolding get_agent_def a(2) using a(1) i(2) by (intro select_one_key [of ag_id]) simp_all
  have "is_ok (create_agent_task e 0 d (enqueue_params a i None))"
    using a assms(2-5) by (intro queue_task_ok) (auto simp: enqueue_params_def)
  then show ?thesis using get a i
    by (auto simp: should_enqueue_agent_task_def is_agent_trigger_enabled_def enqueue_task_for_issue_def enqueue_for_agent_def is_ok_def or_wrap_def
      split: sum.splits)
qed

lemma reassign_queue:
  assumes "db_constraints (sv_db s)" "handle_ok (api_lifecycle p)" "fresh_ids e (sv_db s)"
  shows "\<exists>new. tasks (sv_db (reassign p e e' s i)) = upd_where (\<lambda>t. tk_issue t = is_id i \<and> unfinished t) (cancelled_task e) (tasks (sv_db s)) @ new \<and>
    (new = [] \<or> (\<exists>t. new = [t] \<and> tk_issue t = is_id i \<and> tk_status t = Queued \<and> is_assignee_type i = Some ''agent'' \<and> is_assignee i = Some (tk_agent t))) \<and>
    (agent_ready (api_codec p) (sv_db s) i \<and> is_id i \<in> is_id ` set (issues (sv_db s)) \<and> e_gen e' 0 \<notin> tk_id ` set (tasks (sv_db s)) \<longrightarrow> new \<noteq> [])"
proof -
  let ?P = "\<lambda>t. tk_issue t = is_id i \<and> unfinished t"
  obtain d n where c: "lc_cancel_for_issue (api_lifecycle p) e (sv_db s) (Some (is_id i)) = Inr (d, n)"
    using cancel_for_issue_ok [OF assms] by fastforce
  note d = cancel_for_issue_Inr [OF c]
  have idle: "t \<in> set (tasks d) \<Longrightarrow> tk_issue t = is_id i \<Longrightarrow> \<not> pending (tk_status t)" for t
    using d by (auto simp: set_upd_where cancelled_task_def pending_def active_def split: if_splits)
  have ids: "tk_id ` set (tasks d) = tk_id ` set (tasks (sv_db s))"
    using d by (simp add: keys_upd_where cancelled_task_def)
  show ?thesis
  proof (cases "\<exists>d' t. should_enqueue_agent_task (api_codec p) d i \<and> enqueue_task_for_issue e' d i None = Inr (d', t)")
    case True
    then obtain d' t where on: "should_enqueue_agent_task (api_codec p) d i" and t: "enqueue_task_for_issue e' d i None = Inr (d', t)" by blast
    have "sv_db (reassign p e e' s i) = d'"
      using on t by (simp add: reassign_def cancel_issue_tasks_def enqueue_issue_def c)
    moreover have "is_assignee_type i = Some ''agent''"
      using on by (simp add: should_enqueue_agent_task_def is_agent_trigger_enabled_def split: if_splits)
    ultimately show ?thesis using d enqueue_for_issue_Inr [OF t] by (intro exI [of _ "[t]"]) simp
  next
    case False
    then have "sv_db (reassign p e e' s i) = d"
      by (auto simp: reassign_def cancel_issue_tasks_def enqueue_issue_def c Let_def split: sum.splits)
    moreover have "\<not> (agent_ready (api_codec p) (sv_db s) i \<and> is_id i \<in> is_id ` set (issues (sv_db s)) \<and> e_gen e' 0 \<notin> tk_id ` set (tasks (sv_db s)))"
    proof
      assume h: "agent_ready (api_codec p) (sv_db s) i \<and> is_id i \<in> is_id ` set (issues (sv_db s)) \<and> e_gen e' 0 \<notin> tk_id ` set (tasks (sv_db s))"
      then have "agent_ready (api_codec p) d i" using d by (simp add: agent_ready_def)
      with enqueue_issue_ok [OF this, of e'] h d ids idle False show False by auto
    qed
    ultimately show ?thesis using d by (intro exI [of _ "[]"]) simp
  qed
qed

text \<open>What a body says of the assignee, and what the rows say.\<close>

definition names_assignee :: "issue_update \<Rightarrow> bool" where
  "names_assignee u \<longleftrightarrow> (\<exists>x. up_assignee_type u = Some (Some x)) \<or> (\<exists>x. up_assignee u = Some (Some x))"

definition same_assignee :: "issue_row \<Rightarrow> issue_row \<Rightarrow> bool" where
  "same_assignee i j \<longleftrightarrow> is_assignee_type i = is_assignee_type j \<and> is_assignee i = is_assignee j"

text \<open>An identifier has 128 bits.\<close>

definition sized :: "uuid option \<Rightarrow> bool" where
  "sized x \<longleftrightarrow> (case x of None \<Rightarrow> True | Some n \<Rightarrow> n < 2 ^ 128)"

lemma uuid_to_string_inj: "sized x \<Longrightarrow> sized y \<Longrightarrow> uuid_to_string x = uuid_to_string y \<longleftrightarrow> x = y"
  using uuid_text_inj uuid_text_nonempty uuid_text_nonempty [symmetric] by (auto simp: sized_def uuid_to_string_def split: option.splits)

lemma assignee_changed_iff:
  assumes "issue_admitted d old" "issue_admitted d' new" "sized (is_assignee old)" "sized (is_assignee new)"
  shows "assignee_changed u old new \<longleftrightarrow> names_assignee u \<and> \<not> same_assignee old new"
proof -
  have "text_of x = text_of y \<longleftrightarrow> x = y" if "x \<in> set [None, Some ''member'', Some ''agent'']" "y \<in> set [None, Some ''member'', Some ''agent'']" for x y
    using that by (auto simp: text_of_def or_else_def)
  then have "text_of (is_assignee_type old) = text_of (is_assignee_type new) \<longleftrightarrow> is_assignee_type old = is_assignee_type new"
    using assms(1,2) unfolding issue_admitted_def by blast
  moreover have "field_ptr x \<noteq> None \<longleftrightarrow> (\<exists>y. x = Some (Some y))" for x by (cases x) (auto simp: field_ptr_def or_else_def)
  ultimately show ?thesis
    unfolding assignee_changed_def names_assignee_def same_assignee_def uuid_to_string_inj [OF assms(3,4)] by blast
qed

lemma cancelled_rows:
  "upd_where (\<lambda>t. tk_issue t = i \<and> unfinished t) (cancelled_task e) ts =
     map (\<lambda>t. if tk_issue t = i \<and> (tk_status t = Queued \<or> tk_status t = Dispatched \<or> tk_status t = Running)
       then t\<lparr>tk_status := Cancelled, tk_completed_at := Some (e_now e), tk_active_run := None\<rparr> else t) ts"
  by (auto simp: upd_where_def cancelled_task_def active_def)

text \<open>C32. When an update names an assignee and the issue moves to another one (another type or identifier than before), the old work
  gives way to the new: on a database that meets its constraints, every queued, dispatched or running Work Item of the issue
  is now cancelled and has no active Run, every other one is untouched, and at most one is new. A new one is queued on the
  issue for the new assignee, an agent; and there is one whenever that agent is not archived, has a runtime and
  listens to assignments. Taking the assignee away with nulls is not such a move: \<open>unassign_keeps_work\<close> below.\<close>

theorem assignment_replaces_work:
  assumes "update_issue p es s rq ident (Some u) = (s', Inr i)" "load_issue_for_user p (sv_db s) rq ident = Inr prev"
    and "names_assignee u" "\<not> same_assignee prev i"
    and "issue_admitted (sv_db s) prev" "sized (is_assignee prev)" "sized (is_assignee i)"
    and "db_constraints (sv_db s)" "handle_ok (api_lifecycle p)" "fresh_ids (es 1) (sv_db s)"
  shows "\<exists>new. tasks (sv_db s') = map (\<lambda>t. if tk_issue t = is_id i \<and> (tk_status t = Queued \<or> tk_status t = Dispatched \<or> tk_status t = Running)
        then t\<lparr>tk_status := Cancelled, tk_completed_at := Some (e_now (es 1)), tk_active_run := None\<rparr> else t) (tasks (sv_db s)) @ new \<and>
    (new = [] \<or> (\<exists>t. new = [t] \<and> tk_issue t = is_id i \<and> tk_status t = Queued \<and> is_assignee_type i = Some ''agent'' \<and> is_assignee i = Some (tk_agent t))) \<and>
    (agent_ready (api_codec p) (sv_db s) i \<and> e_gen (es 2) 0 \<notin> tk_id ` set (tasks (sv_db s)) \<longrightarrow> new \<noteq> [])"
proof -
  from assms(1,2) obtain q ws where up: "apply_update p es s rq ws True prev u q = (s', Inr i)"
    by (auto simp: update_issue_def Let_def split: option.splits if_splits prod.splits sum.splits)
  let ?d = "\<lambda>q. (sv_db s)\<lparr>issues := upd_where (\<lambda>x. is_id x = is_id prev) (updated_issue (es 0) q) (issues (sv_db s))\<rparr>"
  from up show ?thesis
  proof (rule apply_update_Inr)
    fix x ev
    assume x: "x \<in> set (issues (sv_db s))" "is_id x = is_id prev" "i = updated_issue (es 0) q x" "issue_admitted (sv_db s) i"
      and s': "s' = (let s1 = say ev (put_db s (?d q)) in if assignee_changed u prev i then reassign p (es 1) (es 2) s1 i else s1)"
    have ids: "is_id ` set (issues (?d q)) = is_id ` set (issues (sv_db s))" by (simp add: keys_upd_where updated_issue_def)
    have "assignee_changed u prev i" using assignee_changed_iff [OF assms(5) x(4) assms(6,7)] assms(3,4) by simp
    then have r: "s' = reassign p (es 1) (es 2) (say ev (put_db s (?d q))) i" by (simp add: s')
    have "db_constraints (?d q)" using assms(8) ids by (auto simp: constraint_defs)
    moreover have "fresh_ids (es 1) (?d q)" using assms(10) by (simp add: fresh_ids_def)
    moreover have "agent_ready (api_codec p) (?d q) i = agent_ready (api_codec p) (sv_db s) i" by (simp add: agent_ready_def)
    moreover have "is_id i \<in> is_id ` set (issues (?d q))" using x(1,3) ids by (auto simp: updated_issue_def)
    moreover have "sv_db (say ev (put_db s (?d q))) = ?d q" "tasks (?d q) = tasks (sv_db s)" by simp_all
    ultimately show ?thesis
      using reassign_queue [of "say ev (put_db s (?d q))" p "es 1" "es 2" i] assms(9) unfolding r cancelled_rows by (simp only: simp_thms)
  qed
qed

definition demo_busy :: server where
  "demo_busy = put_db demo_server ((sv_db demo_server)\<lparr>agents := [demo_agent, demo_agent\<lparr>ag_id := 12\<rparr>], tasks := [demo_queued 1 3]\<rparr>)"

definition demo_hand_over :: issue_update where
  "demo_hand_over = no_change\<lparr>up_assignee_type := Some (Some ''agent''), up_assignee := Some (Some (uuid_text 12))\<rparr>"

abbreviation demo_handed :: issue_row where
  "demo_handed \<equiv> (demo_issue 30)\<lparr>is_assignee := Some 12\<rparr>"

lemma load_issue_cong:
  assumes "issues d = issues d'"
  shows "load_issue_for_user p d rq ident = load_issue_for_user p d' rq ident"
  unfolding load_issue_for_user_def resolve_issue_by_identifier_def get_issue_by_number_def get_issue_in_workspace_def assms ..

lemma demo_handed_over:
  "\<exists>s'. update_issue demo_api demo_env demo_busy demo_request (uuid_text 30) (Some demo_hand_over) = (s', Inr demo_handed) \<and>
     issues (sv_db s') = [demo_handed, demo_issue 31]"
proof -
  let ?q = "\<lparr>iq_title = None, iq_description = None, iq_status = None, iq_priority = None, iq_assignee_type = Some ''agent'',
      iq_assignee = Some 12, iq_due = None\<rparr>"
  have q: "update_params demo_api (demo_issue 30) demo_hand_over = Some ?q"
    by (simp add: update_params_def demo_hand_over_def no_change_def or_else_def bind_text_def demo_api_def demo_read_uuid demo_issue_def)
  have load: "load_issue_for_user demo_api (sv_db demo_busy) demo_request (uuid_text 30) = Inr (demo_issue 30)"
    using demo_load load_issue_cong [of "sv_db demo_busy" "sv_db demo_server"] by (simp add: demo_busy_def)
  have "update_issue_row (demo_env 0) (sv_db demo_busy) (is_id (demo_issue 30)) ?q =
      Inr ((sv_db demo_busy)\<lparr>issues := [demo_handed, demo_issue 31]\<rparr>, demo_handed)"
    by (simp add: update_issue_row_def or_fail_def select_one_def demo_busy_def demo_server_def demo0_def demo_issue_def issue_admitted_def
      updated_issue_def or_else_def issue_statuses_def issue_priorities_def upd_where_def demo_env_def)
  moreover have "may_assign demo_api demo_busy demo_request (uuid_text (is_workspace (demo_issue 30)))
      (field_ptr (up_assignee_type demo_hand_over)) (field_ptr (up_assignee demo_hand_over)) = (True, '''')"
    by (simp add: may_assign_def can_assign_agent_def demo_hand_over_def no_change_def field_ptr_def or_else_def demo_issue_def demo_api_def demo_busy_def
      demo_server_def get_agent_in_workspace_def select_one_def demo_read_uuid demo_agent_def demo_foreign_def)
  ultimately show ?thesis unfolding update_issue_def by (simp add: load q apply_update_def Let_def)
qed

lemma demo_busy_rows:
  "db_constraints (sv_db demo_busy)" "fresh_ids (demo_env k) (sv_db demo_busy)" "issue_admitted (sv_db demo_busy) (demo_issue 30)"
  "tasks (sv_db demo_busy) = [demo_queued 1 3]"
proof -
  show "db_constraints (sv_db demo_busy)"
    by (simp add: constraint_defs demo_busy_def demo_server_def demo0_def demo_queued_def demo_issue_def demo_agent_def demo_runtime_def task_types_def)
  show "fresh_ids (demo_env k) (sv_db demo_busy)"
    by (simp add: fresh_ids_def inj_def demo_env_def demo_busy_def demo_server_def demo0_def)
  show "issue_admitted (sv_db demo_busy) (demo_issue 30)"
    by (simp add: issue_admitted_def demo_issue_def issue_statuses_def issue_priorities_def)
qed (simp add: demo_busy_def)

lemma demo_ready: "agent_ready (api_codec demo_api) (sv_db demo_busy) demo_handed"
  by (simp add: agent_ready_def demo_busy_def demo_server_def demo0_def demo_issue_def demo_agent_def demo_runtime_def agent_has_trigger_enabled_def)

text \<open>Issue 30 goes from agent 10 to agent 12.\<close>

lemma assignment_replaces_work_witness:
  "\<exists>s' t. update_issue demo_api demo_env demo_busy demo_request (uuid_text 30) (Some demo_hand_over) = (s', Inr demo_handed) \<and>
     map tk_status (tasks (sv_db s')) = [Cancelled, Queued] \<and> map tk_agent (tasks (sv_db s')) = [10, 12]"
proof -
  obtain s' where up: "update_issue demo_api demo_env demo_busy demo_request (uuid_text 30) (Some demo_hand_over) = (s', Inr demo_handed)"
    using demo_handed_over by blast
  have load: "load_issue_for_user demo_api (sv_db demo_busy) demo_request (uuid_text 30) = Inr (demo_issue 30)"
    using demo_load load_issue_cong [of "sv_db demo_busy" "sv_db demo_server"] by (simp add: demo_busy_def)
  have side: "names_assignee demo_hand_over" "\<not> same_assignee (demo_issue 30) demo_handed" "sized (is_assignee (demo_issue 30))"
    "sized (is_assignee demo_handed)" "handle_ok (api_lifecycle demo_api)" "is_id demo_handed = 30"
    by (simp_all add: names_assignee_def demo_hand_over_def same_assignee_def sized_def demo_issue_def handle_ok_def demo_api_def demo_handle_def)
  have new: "e_gen (demo_env 2) 0 \<notin> tk_id ` set (tasks (sv_db demo_busy))"
    by (simp add: demo_busy_rows demo_env_def demo_queued_def)
  from assignment_replaces_work [OF up load side(1,2) demo_busy_rows(3) side(3,4) demo_busy_rows(1) side(5) demo_busy_rows(2)] new demo_ready
  obtain t where "tasks (sv_db s') = [(demo_queued 1 3)\<lparr>tk_status := Cancelled, tk_completed_at := Some (e_now (demo_env 1)), tk_active_run := None\<rparr>, t]"
    "tk_status t = Queued" "is_assignee demo_handed = Some (tk_agent t)"
    by (auto simp: demo_busy_rows(4) side(6)) (simp_all add: demo_queued_def)
  with up show ?thesis by (intro exI [of _ s']) (simp add: demo_queued_def)
qed

section \<open>Deletion\<close>

lemma cancel_issue_tasks_issues [simp]: "issues (sv_db (cancel_issue_tasks l e s (Some i))) = issues (sv_db s)"
  by (auto simp: cancel_issue_tasks_def dest!: cancel_for_issue_Inr split: sum.splits)

lemma delete_issue_of_gone:
  "i \<notin> is_id ` set (issues (delete_issue_of d i))" "i \<notin> tk_issue ` set (tasks (delete_issue_of d i))"
  "i \<notin> cm_issue ` set (comments (delete_issue_of d i))"
  by (auto simp: delete_issue_of_def Let_def image_image)

text \<open>Deleting an issue that its path names by its UUID removes it with its Work Items and comments. A path that names it by
  its identifier (\<^verbatim>\<open>ACM-1\<close>) is answered and announced in the same way, and the issue stays.\<close>

theorem delete_issue_outcome:
  assumes "load_issue_for_user p (sv_db s) rq ident = Inr i" "delete_issue p e s rq ident = (s', r)"
  shows "r = Inr () \<and> ev_type (last (w_bus (sv_world s'))) = ''issue:deleted'' \<and>
    (api_uuid p ident = Some (is_id i) \<longrightarrow> is_id i \<notin> is_id ` set (issues (sv_db s')) \<and>
       is_id i \<notin> tk_issue ` set (tasks (sv_db s')) \<and> is_id i \<notin> cm_issue ` set (comments (sv_db s'))) \<and>
    (api_uuid p ident = None \<longrightarrow> issues (sv_db s') = issues (sv_db s))"
proof -
  have "is_id i \<in> is_id ` set (issues (sv_db s))" using load_issue_Inr [OF assms(1)] by simp
  moreover let ?s = "cancel_issue_tasks (api_lifecycle p) e s (Some (is_id i))"
  from assms obtain ev where "s' = say ev (put_db ?s (delete_issue_row (sv_db ?s) (api_uuid p ident)))" "ev_type ev = ''issue:deleted''" "r = Inr ()"
    by (fastforce simp: delete_issue_def Let_def issue_event_def)
  ultimately show ?thesis by (simp add: delete_issue_row_def delete_issue_of_gone)
qed

lemma demo_load_number: "load_issue_for_user demo_api (sv_db demo_server) demo_request ''ACM-1'' = Inr (demo_issue 30)"
proof -
  have "split_identifier ''ACM-1'' = Some (''ACM'', 1)" by code_simp
  then show ?thesis
    by (simp add: load_issue_for_user_def demo_request_def uuid_text_nonempty resolve_issue_by_identifier_def get_issue_by_number_def
      demo_api_def demo_read_uuid demo_server_def demo0_def select_one_def demo_issue_def)
qed

lemma delete_issue_outcome_witness:
  "\<exists>s'. delete_issue demo_api (demo_env 0) demo_server demo_request ''ACM-1'' = (s', Inr ()) \<and> issues (sv_db s') = [demo_issue 30, demo_issue 31]"
proof -
  have "api_uuid demo_api ''ACM-1'' = None" by (simp add: demo_api_def demo_read_uuid_def)
  moreover have "issues (sv_db demo_server) = [demo_issue 30, demo_issue 31]" by (simp add: demo_server_def demo0_def)
  moreover obtain s' r where "delete_issue demo_api (demo_env 0) demo_server demo_request ''ACM-1'' = (s', r)" by fastforce
  ultimately show ?thesis using delete_issue_outcome [OF demo_load_number] by auto
qed

section \<open>What the check of the assignee misses\<close>

text \<open>Taking an issue away from everybody leaves its Work Items where they are.\<close>

lemma unassign_keeps_work:
  assumes "update_issue p es s rq ident (Some u) = (s', Inr i)" "up_assignee_type u = Some None" "up_assignee u = Some None"
  shows "is_assignee i = None \<and> tasks (sv_db s') = tasks (sv_db s)"
proof -
  from assms(1) obtain q ws prev where q: "update_params p prev u = Some q" and up: "apply_update p es s rq ws True prev u q = (s', Inr i)"
    by (auto simp: update_issue_def Let_def split: option.splits if_splits prod.splits sum.splits)
  have "\<not> assignee_changed u prev i" using assms(2,3) by (simp add: assignee_changed_def field_ptr_def or_else_def)
  moreover have "iq_assignee q = None" using q assms(3) by (auto simp: update_params_def bind_text_def split: option.splits)
  ultimately show ?thesis using up by (elim apply_update_Inr) (simp add: updated_issue_def Let_def)
qed

text \<open>A body with an assignee and no type is not checked: user 7 sets the private agent of workspace 2 to work on issue 30.\<close>

lemma private_agent_of_another_workspace:
  "\<exists>s' t. update_issue demo_api demo_env demo_server demo_request (uuid_text 30)
      (Some (no_change\<lparr>up_assignee := Some (Some (uuid_text 11))\<rparr>)) = (s', Inr ((demo_issue 30)\<lparr>is_assignee := Some 11\<rparr>)) \<and>
    tasks (sv_db s') = [t] \<and> tk_agent t = ag_id demo_foreign \<and> tk_status t = Queued"
proof -
  let ?u = "no_change\<lparr>up_assignee := Some (Some (uuid_text 11))\<rparr>" and ?i = "(demo_issue 30)\<lparr>is_assignee := Some 11\<rparr>"
  let ?q = "\<lparr>iq_title = None, iq_description = None, iq_status = None, iq_priority = None, iq_assignee_type = Some ''agent'',
      iq_assignee = Some 11, iq_due = None\<rparr>"
  let ?d = "(sv_db demo_server)\<lparr>issues := [?i, demo_issue 31]\<rparr>"
  have q: "update_params demo_api (demo_issue 30) ?u = Some ?q"
    by (simp add: update_params_def no_change_def or_else_def bind_text_def demo_api_def demo_read_uuid demo_issue_def)
  have row: "update_issue_row (demo_env 0) (sv_db demo_server) (is_id (demo_issue 30)) ?q = Inr (?d, ?i)"
    by (simp add: update_issue_row_def or_fail_def select_one_def demo_server_def demo0_def demo_issue_def issue_admitted_def
      updated_issue_def or_else_def issue_statuses_def issue_priorities_def upd_where_def demo_env_def)
  have may: "may_assign demo_api demo_server demo_request ws (field_ptr (up_assignee_type no_change)) (field_ptr (Some (Some (uuid_text 11)))) = (True, '''')" for ws
    by (simp add: may_assign_def no_change_def field_ptr_def or_else_def)
  have changed: "assignee_changed ?u (demo_issue 30) ?i"
    using uuid_text_inj [of 10 11] by (auto simp: assignee_changed_def no_change_def field_ptr_def or_else_def text_of_def
      demo_issue_def uuid_to_string_def)
  have cancel: "lc_cancel_for_issue (api_lifecycle demo_api) (demo_env (Suc 0)) ?d (Some (is_id (demo_issue 30))) = Inr (?d, 0)"
    by (simp add: lc_cancel_for_issue_def demo_api_def demo_handle_def cancel_agent_tasks_by_issue_def close_batch_def commit_stmt_def constraint_defs
      demo_server_def demo0_def demo_issue_def upd_where_def or_wrap_def or_fail_def batch_events_def Let_def)
  have on: "should_enqueue_agent_task (api_codec demo_api) ?d ?i"
    by (simp add: should_enqueue_agent_task_def is_agent_trigger_enabled_def demo_issue_def get_agent_def demo_server_def select_one_def
      demo_agent_def demo_foreign_def agent_has_trigger_enabled_def)
  have queue: "\<exists>d' t. enqueue_task_for_issue (demo_env 2) ?d ?i None = Inr (d', t) \<and> tasks d' = [t] \<and> tk_agent t = 11 \<and> tk_status t = Queued"
    by (simp add: enqueue_task_for_issue_def enqueue_for_agent_def create_agent_task_def enqueue_params_def get_agent_def select_one_def
      demo_server_def demo0_def demo_issue_def demo_agent_def demo_foreign_def demo_runtime_def commit_stmt_def constraint_defs or_wrap_def or_fail_def
      task_types_def Let_def)
  then obtain d' t where t: "enqueue_task_for_issue (demo_env 2) ?d ?i None = Inr (d', t)" "tasks d' = [t]" "tk_agent t = 11" "tk_status t = Queued"
    by blast
  have "ag_id demo_foreign = 11" by (simp add: demo_foreign_def)
  with t show ?thesis unfolding update_issue_def
    by (simp add: demo_load q may apply_update_def row changed reassign_def cancel_issue_tasks_def cancel on enqueue_issue_def Let_def)
qed

section \<open>What is not asked\<close>

text \<open>C37. Requests on issues do not ask who is a member: the routes under \<^verbatim>\<open>/api/issues\<close> only ask for a login, and the workspace
  is the one the caller names. Whatever the accounts hold, any user who names a workspace and an issue of it by its
  UUID is given the issue, and deletes it with its Work Items and comments.\<close>

theorem membership_not_asked:
  assumes "rq_user rq \<noteq> ''''" "rq_workspace rq \<noteq> ''''" "api_uuid p (rq_workspace rq) = Some (is_workspace i)"
    "api_uuid p ident = Some (is_id i)" "split_identifier ident = None" "i \<in> set (issues (sv_db s))" "distinct (map is_id (issues (sv_db s)))"
  shows "load_issue_for_user p (sv_db s) rq ident = Inr i \<and>
    (\<exists>s'. delete_issue p e (s\<lparr>sv_accounts := accounts\<rparr>) rq ident = (s', Inr ()) \<and> sv_accounts s' = accounts \<and>
       is_id i \<notin> is_id ` set (issues (sv_db s')) \<and> is_id i \<notin> tk_issue ` set (tasks (sv_db s')) \<and> is_id i \<notin> cm_issue ` set (comments (sv_db s')))"
proof -
  have "select_one (\<lambda>x. Some (is_id x) = Some (is_id i) \<and> Some (is_workspace x) = Some (is_workspace i)) (issues (sv_db s)) = Inr i"
    using assms(6,7) by (intro select_one_key [of is_id]) simp_all
  then have load: "load_issue_for_user p (sv_db s) rq ident = Inr i"
    using assms(1-5) by (simp add: load_issue_for_user_def resolve_issue_by_identifier_def get_issue_in_workspace_def)
  let ?t = "s\<lparr>sv_accounts := accounts\<rparr>" and ?s = "cancel_issue_tasks (api_lifecycle p) e (s\<lparr>sv_accounts := accounts\<rparr>) (Some (is_id i))"
  have "is_id i \<in> is_id ` set (issues (sv_db ?s))" using assms(6) by simp
  moreover obtain ev where "delete_issue p e ?t rq ident = (say ev (put_db ?s (delete_issue_row (sv_db ?s) (api_uuid p ident))), Inr ())"
    using load by (simp add: delete_issue_def Let_def)
  ultimately show ?thesis using load by (simp add: assms(4) delete_issue_row_def delete_issue_of_gone)
qed

text \<open>User 7 without any membership deletes issue 30 of workspace 1.\<close>

lemma membership_not_asked_witness:
  "\<exists>s'. delete_issue demo_api (demo_env 0) (demo_server\<lparr>sv_accounts := \<lparr>ac_users = [], ac_spaces = [], ac_seats = [], ac_codes = []\<rparr>\<rparr>)
     demo_request (uuid_text 30) = (s', Inr ()) \<and> 30 \<notin> is_id ` set (issues (sv_db s'))"
proof -
  have "rq_user demo_request \<noteq> ''''" "rq_workspace demo_request \<noteq> ''''" "api_uuid demo_api (rq_workspace demo_request) = Some (is_workspace (demo_issue 30))"
    "api_uuid demo_api (uuid_text 30) = Some (is_id (demo_issue 30))" "demo_issue 30 \<in> set (issues (sv_db demo_server))"
    "distinct (map is_id (issues (sv_db demo_server)))"
    by (simp_all add: demo_request_def demo_api_def demo_read_uuid demo_issue_def demo_server_def demo0_def)
  from membership_not_asked [OF this(1-4) demo_not_number this(5,6), of "demo_env 0" "\<lparr>ac_users = [], ac_spaces = [], ac_seats = [], ac_codes = []\<rparr>"]
  show ?thesis by (auto simp: demo_issue_def)
qed

end
