(* ===== verification/IssueNumbers.thy ===== *)
theory IssueNumbers
  imports IssueProps
begin

text \<open>
  The requests on issues and comments one after the other: through all of them the issues of a workspace carry
  different numbers, none above the counter of the workspace.
\<close>

datatype issue_request =
    CreateIssue "issue_body option"
  | UpdateIssue string "issue_update option"
  | BatchUpdateIssues "(string list \<times> issue_update) option"
  | DeleteIssue string
  | BatchDeleteIssues "string list option"
  | CreateComment string "comment_body option"
  | UpdateComment seat_row string "string option"
  | DeleteComment seat_row string

definition issue_step :: "api \<Rightarrow> (db \<Rightarrow> uuid \<Rightarrow> string \<Rightarrow> string) \<Rightarrow> (nat \<Rightarrow> env) \<Rightarrow> request \<Rightarrow> issue_request \<Rightarrow> server \<Rightarrow> server" where
  "issue_step p expand es rq req s =
     (case req of
        CreateIssue b \<Rightarrow> fst (create_issue p es s rq b)
      | UpdateIssue i u \<Rightarrow> fst (update_issue p es s rq i u)
      | BatchUpdateIssues b \<Rightarrow> fst (batch_update_issues p es s rq b)
      | DeleteIssue i \<Rightarrow> fst (delete_issue p (es 0) s rq i)
      | BatchDeleteIssues b \<Rightarrow> fst (batch_delete_issues p es s rq b)
      | CreateComment i b \<Rightarrow> fst (create_comment p expand es s rq i b)
      | UpdateComment m i b \<Rightarrow> fst (update_comment p s rq m i b)
      | DeleteComment m i \<Rightarrow> fst (delete_comment p s rq m i))"

fun issues_after ::
    "api \<Rightarrow> (db \<Rightarrow> uuid \<Rightarrow> string \<Rightarrow> string) \<Rightarrow> ((nat \<Rightarrow> env) \<times> request \<times> issue_request) list \<Rightarrow> server \<Rightarrow> server" where
  "issues_after p expand [] s = s"
| "issues_after p expand ((es, rq, req) # reqs) s = issues_after p expand reqs (issue_step p expand es rq req s)"

definition numbered :: "server \<Rightarrow> bool" where
  "numbered s \<longleftrightarrow> distinct (map (\<lambda>i. (is_workspace i, is_number i)) (issues (sv_db s))) \<and> distinct (map is_id (issues (sv_db s))) \<and>
     distinct (map sp_id (ac_spaces (sv_accounts s))) \<and> (\<forall>w\<in>set (ac_spaces (sv_accounts s)). 0 \<le> sp_counter w) \<and>
     (\<forall>i\<in>set (issues (sv_db s)). 1 \<le> is_number i \<and>
        (\<exists>w\<in>set (ac_spaces (sv_accounts s)). sp_id w = is_workspace i \<and> is_number i \<le> sp_counter w))"

text \<open>Rows that keep their keys: what updates and deletions do to the table of issues.\<close>

definition keys_within :: "server \<Rightarrow> server \<Rightarrow> bool" where
  "keys_within s s' \<longleftrightarrow> sv_accounts s' = sv_accounts s \<and>
     (\<exists>P f. issues (sv_db s') = map f (filter P (issues (sv_db s))) \<and> (\<forall>i. is_id (f i) = is_id i \<and> is_workspace (f i) = is_workspace i \<and> is_number (f i) = is_number i))"

lemma keys_within_same: "sv_accounts s' = sv_accounts s \<Longrightarrow> issues (sv_db s') = issues (sv_db s) \<Longrightarrow> keys_within s s'"
  unfolding keys_within_def by (intro conjI exI [of _ "\<lambda>_. True"] exI [of _ "\<lambda>i. i"]) simp_all

lemma keys_within_trans: "keys_within r s \<Longrightarrow> keys_within s t \<Longrightarrow> keys_within r t"
proof -
  assume "keys_within r s" "keys_within s t"
  then obtain P f Q g where f: "issues (sv_db s) = map f (filter P (issues (sv_db r)))" "issues (sv_db t) = map g (filter Q (issues (sv_db s)))"
    "\<forall>i. is_id (f i) = is_id i \<and> is_workspace (f i) = is_workspace i \<and> is_number (f i) = is_number i"
    "\<forall>i. is_id (g i) = is_id i \<and> is_workspace (g i) = is_workspace i \<and> is_number (g i) = is_number i"
    and acc: "sv_accounts t = sv_accounts r" by (auto simp: keys_within_def)
  have "issues (sv_db t) = map (g \<circ> f) (filter (\<lambda>i. P i \<and> Q (f i)) (issues (sv_db r)))"
    by (simp add: f filter_map conj_commute o_def)
  with f(3,4) acc show ?thesis unfolding keys_within_def by (intro conjI exI [of _ "\<lambda>i. P i \<and> Q (f i)"] exI [of _ "g \<circ> f"]) simp_all
qed

lemma numbered_within: "keys_within s s' \<Longrightarrow> numbered s \<Longrightarrow> numbered s'"
proof -
  assume "keys_within s s'" "numbered s"
  then obtain P f where f: "issues (sv_db s') = map f (filter P (issues (sv_db s)))"
    "\<forall>i. is_id (f i) = is_id i \<and> is_workspace (f i) = is_workspace i \<and> is_number (f i) = is_number i"
    and acc: "sv_accounts s' = sv_accounts s" by (auto simp: keys_within_def)
  have "(\<lambda>i. (is_workspace i, is_number i)) \<circ> f = (\<lambda>i. (is_workspace i, is_number i))" "is_id \<circ> f = is_id"
    using f(2) by (simp_all add: fun_eq_iff)
  with \<open>numbered s\<close> f(2) show ?thesis unfolding numbered_def f(1) acc by (auto simp: distinct_map_filter)
qed

section \<open>Every request\<close>

lemma upd_where_keys:
  "sv_accounts s' = sv_accounts s \<Longrightarrow> issues (sv_db s') = upd_where P f (issues (sv_db s)) \<Longrightarrow>
     (\<And>i. is_id (f i) = is_id i \<and> is_workspace (f i) = is_workspace i \<and> is_number (f i) = is_number i) \<Longrightarrow> keys_within s s'"
  unfolding keys_within_def upd_where_def by (intro conjI exI [of _ "\<lambda>_. True"] exI [of _ "\<lambda>i. if P i then f i else i"]) simp_all

lemma apply_update_within: "apply_update p es s rq ws single prev u q = (s', r) \<Longrightarrow> keys_within s s'"
proof (cases r)
  case (Inr i)
  assume "apply_update p es s rq ws single prev u q = (s', r)"
  then show ?thesis unfolding Inr
  proof (rule apply_update_Inr)
    fix x ev
    assume acc: "sv_accounts s' = sv_accounts s"
      and s': "s' = (let s1 = say ev (put_db s ((sv_db s)\<lparr>issues := upd_where (\<lambda>x. is_id x = is_id prev) (updated_issue (es 0) q) (issues (sv_db s))\<rparr>))
           in if assignee_changed u prev i then reassign p (es 1) (es 2) s1 i else s1)"
    have "issues (sv_db s') = upd_where (\<lambda>x. is_id x = is_id prev) (updated_issue (es 0) q) (issues (sv_db s))"
      unfolding s' by (simp add: Let_def)
    with acc show ?thesis by (rule upd_where_keys) (simp add: updated_issue_def)
  qed
next
  case (Inl err)
  assume "apply_update p es s rq ws single prev u q = (s', r)"
  with Inl show ?thesis by (auto simp: apply_update_def Let_def intro: keys_within_same split: sum.splits)
qed

lemma update_issue_within: "keys_within s (fst (update_issue p es s rq i u))"
  by (auto simp: update_issue_def Let_def split: sum.splits option.splits prod.splits intro: keys_within_same apply_update_within)

lemma update_each_within: "keys_within s (fst (update_each p es s rq u ids n))"
proof (induction ids arbitrary: es s n)
  case Nil
  then show ?case by (simp add: keys_within_same)
next
  case (Cons ident ids)
  then show ?case
    by (auto simp: Let_def split: sum.splits option.splits prod.splits intro: keys_within_trans [OF apply_update_within])
qed

lemma delete_issue_row_within:
  "sv_accounts s' = sv_accounts s \<Longrightarrow> issues (sv_db s') = issues (delete_issue_row d i) \<Longrightarrow> issues d = issues (sv_db s) \<Longrightarrow> keys_within s s'"
proof (cases "\<exists>x. i = Some x \<and> x \<in> is_id ` set (issues d)")
  case True
  assume h: "sv_accounts s' = sv_accounts s" "issues (sv_db s') = issues (delete_issue_row d i)" "issues d = issues (sv_db s)"
  from True obtain x where "i = Some x" "x \<in> is_id ` set (issues d)" by blast
  with h show ?thesis unfolding keys_within_def
    by (intro conjI exI [of _ "\<lambda>y. is_id y \<noteq> x"] exI [of _ "\<lambda>y. y\<lparr>is_parent := keep_ref [x] (is_parent y)\<rparr>"])
      (simp_all add: delete_issue_row_def delete_issue_of_def Let_def)
next
  case False
  assume h: "sv_accounts s' = sv_accounts s" "issues (sv_db s') = issues (delete_issue_row d i)" "issues d = issues (sv_db s)"
  with False show ?thesis by (intro keys_within_same) (auto simp: delete_issue_row_def split: option.splits)
qed

lemma delete_issue_within: "keys_within s (fst (delete_issue p e s rq i))"
  by (auto simp: delete_issue_def Let_def split: sum.splits intro: keys_within_same delete_issue_row_within)

lemma delete_each_within: "keys_within s (fst (delete_each p es s rq ids n))"
proof (induction ids arbitrary: es s n)
  case Nil
  then show ?case by (simp add: keys_within_same)
next
  case (Cons ident ids)
  have "keys_within s (say ev (put_db (cancel_issue_tasks l e s (Some i)) (delete_issue_row (sv_db (cancel_issue_tasks l e s (Some i))) x)))" for ev l e i x
    by (rule delete_issue_row_within [where d = "sv_db (cancel_issue_tasks l e s (Some i))" and i = x]) simp_all
  from keys_within_trans [OF this Cons.IH] Cons.IH show ?case by (auto simp: Let_def split: sum.splits)
qed

lemma enqueue_issue_issues [simp]: "issues (sv_db (enqueue_issue e s i t)) = issues (sv_db s)"
  by (auto simp: enqueue_issue_def dest!: enqueue_for_issue_Inr split: sum.splits)

lemma create_agent_task_issues: "create_agent_task e n d q = Inr (d', x) \<Longrightarrow> issues d' = issues d"
  by (auto simp: create_agent_task_def Let_def res_simps split: option.splits)

lemma enqueue_mention_Inr: "enqueue_task_for_mention e d i a t = Inr (d', x) \<Longrightarrow> issues d' = issues d"
  by (auto simp: enqueue_task_for_mention_def enqueue_for_agent_def res_simps split: if_splits dest: create_agent_task_issues)

lemma enqueue_mentioned_same: "issues (sv_db (enqueue_mentioned p es s i r author ms)) = issues (sv_db s) \<and> sv_accounts (enqueue_mentioned p es s i r author ms) = sv_accounts s"
proof (induction ms arbitrary: es s)
  case (Cons m ms)
  let ?s = "if mention_triggers p s i author m
      then (case enqueue_task_for_mention (es 0) (sv_db s) i (api_uuid p (mn_id m)) r of Inl _ \<Rightarrow> s | Inr (d, _) \<Rightarrow> put_db s d) else s"
  have "issues (sv_db ?s) = issues (sv_db s)" "sv_accounts ?s = sv_accounts s" by (auto dest!: enqueue_mention_Inr split: sum.splits)
  with Cons show ?case by simp
qed simp

lemma create_comment_within: "keys_within s (fst (create_comment p expand es s rq i b))"
  by (auto simp: create_comment_def create_comment_row_def or_fail_Inr insert_row_Inr Let_def enqueue_mentioned_agent_tasks_def
      enqueue_mentioned_same split: sum.splits option.splits intro!: keys_within_same)

lemma update_comment_within: "keys_within s (fst (update_comment p s rq m i b))"
  by (auto simp: update_comment_def update_comment_row_def or_fail_Inr split: sum.splits option.splits intro!: keys_within_same)

lemma delete_comment_within: "keys_within s (fst (delete_comment p s rq m i))"
  by (auto simp: delete_comment_def delete_comment_row_def Let_def split: sum.splits option.splits intro!: keys_within_same)

lemma increment_issue_counter_Inr:
  assumes "increment_issue_counter a w = Inr (a', n)"
  shows "\<exists>x\<in>set (ac_spaces a). Some (sp_id x) = w \<and> n = sp_counter x + 1 \<and>
    ac_spaces a' = upd_where (\<lambda>y. Some (sp_id y) = w) (\<lambda>y. y\<lparr>sp_counter := sp_counter y + 1\<rparr>) (ac_spaces a)"
  using assms by (fastforce simp: increment_issue_counter_def update_space_where_def get_workspace_def or_fail_Inr
      dest!: select_one_Inr split: sum.splits if_splits)

lemma create_issue_fails: "fst (create_issue p es s rq b) = s \<or> (\<exists>i. snd (create_issue p es s rq b) = Inr i)"
  by (simp add: create_issue_def Let_def split: option.split sum.split prod.split)

lemma batch_within:
  "keys_within s (fst (batch_update_issues p es s rq b))" "keys_within s (fst (batch_delete_issues p es s rq c))"
proof -
  have "update_each p es s rq u ids 0 = (s', n) \<Longrightarrow> keys_within s s'" "delete_each p es s rq ids 0 = (s', n) \<Longrightarrow> keys_within s s'" for u ids s' n
    using update_each_within [of s p es rq u ids 0] delete_each_within [of s p es rq ids 0] by simp_all
  then show "keys_within s (fst (batch_update_issues p es s rq b))" "keys_within s (fst (batch_delete_issues p es s rq c))"
    by (simp_all add: batch_update_issues_def batch_delete_issues_def keys_within_same split: option.split prod.split)
qed

lemma create_issue_numbered: "numbered s \<Longrightarrow> numbered (fst (create_issue p es s rq b))"
proof (cases "\<exists>body i s'. b = Some body \<and> create_issue p es s rq (Some body) = (s', Inr i)")
  case False
  then have "fst (create_issue p es s rq b) = s"
    using create_issue_fails [of p es s rq b] by (cases b; cases "create_issue p es s rq b") (auto simp: create_issue_def)
  then show "numbered s \<Longrightarrow> ?thesis" by simp
next
  case True
  assume num: "numbered s"
  from True obtain body i s' where b: "b = Some body" and made: "create_issue p es s rq (Some body) = (s', Inr i)" by blast
  from made show ?thesis
  proof (rule create_issue_Inr)
    fix due a n d
    assume inc: "increment_issue_counter (sv_accounts s) (api_uuid p (rq_workspace rq)) = Inr (a, n)"
      and ins: "insert_new_issue p (es 0) (sv_db s) (rq_workspace rq) n (resolve_actor p (sv_db s) rq (rq_workspace rq)) body due = Inr (d, i)"
      and acc: "sv_accounts s' = a" and d: "sv_db s' = d \<or> (\<exists>t. enqueue_task_for_issue (es 1) d i None = Inr (sv_db s', t))"
    from insert_new_issue_Inr [OF ins] obtain w c where w: "api_uuid p (rq_workspace rq) = Some w" and i: "is_workspace i = w" "is_number i = n"
        "is_id i \<notin> is_id ` set (issues (sv_db s))" "(w, n) \<notin> (\<lambda>x. (is_workspace x, is_number x)) ` set (issues (sv_db s))"
      and issues: "issues d = issues (sv_db s) @ [i]" by (auto simp: new_issue_def)
    from increment_issue_counter_Inr [OF inc] w obtain x where x: "x \<in> set (ac_spaces (sv_accounts s))" "sp_id x = w" "n = sp_counter x + 1"
      "ac_spaces a = upd_where (\<lambda>y. sp_id y = w) (\<lambda>y. y\<lparr>sp_counter := sp_counter y + 1\<rparr>) (ac_spaces (sv_accounts s))" by auto
    have is': "issues (sv_db s') = issues (sv_db s) @ [i]" using d issues by (auto dest!: enqueue_for_issue_Inr)
    have ids: "map sp_id (ac_spaces a) = map sp_id (ac_spaces (sv_accounts s))" unfolding x(4) by (simp add: map_upd_where)
    have grown: "\<exists>v\<in>set (ac_spaces a). sp_id v = sp_id y \<and> sp_counter y \<le> sp_counter v \<and> (sp_id y = w \<longrightarrow> sp_counter v = sp_counter y + 1)"
      if "y \<in> set (ac_spaces (sv_accounts s))" for y
      unfolding x(4) upd_where_def using that
      by (intro bexI [of _ "if sp_id y = w then y\<lparr>sp_counter := sp_counter y + 1\<rparr> else y"]) auto
    have counters: "\<forall>v\<in>set (ac_spaces a). 0 \<le> sp_counter v" using num unfolding x(4) by (auto simp: numbered_def set_upd_where)
    have "\<exists>v\<in>set (ac_spaces a). sp_id v = is_workspace k \<and> is_number k \<le> sp_counter v" if "k \<in> set (issues (sv_db s'))" for k
    proof (cases "k = i")
      case True
      with grown [OF x(1)] x(2,3) i show ?thesis by auto
    next
      case False
      with that is' num obtain y where "y \<in> set (ac_spaces (sv_accounts s))" "sp_id y = is_workspace k" "is_number k \<le> sp_counter y"
        by (auto simp: numbered_def)
      with grown [OF this(1)] show ?thesis by fastforce
    qed
    moreover have "1 \<le> n" using num x(1,3) by (auto simp: numbered_def)
    ultimately show "numbered (fst (create_issue p es s rq b))"
      using num i ids counters unfolding b made numbered_def acc is' fst_conv by auto
  qed
qed

text \<open>C33. Whatever requests are served one after the other: no two issues of a workspace have the same number, and every number lies
  between one and the counter of the workspace.\<close>

theorem issue_numbers_unique:
  assumes "issues (sv_db s) = []" "distinct (map sp_id (ac_spaces (sv_accounts s)))" "\<forall>w\<in>set (ac_spaces (sv_accounts s)). 0 \<le> sp_counter w"
  shows "distinct (map (\<lambda>i. (is_workspace i, is_number i)) (issues (sv_db (issues_after p expand reqs s)))) \<and>
    list_all (\<lambda>i. 1 \<le> is_number i \<and> list_ex (\<lambda>w. sp_id w = is_workspace i \<and> is_number i \<le> sp_counter w)
        (ac_spaces (sv_accounts (issues_after p expand reqs s)))) (issues (sv_db (issues_after p expand reqs s)))"
proof -
  have step: "numbered (issue_step p expand es rq req s)" if num: "numbered s" for es rq req and s :: server
  proof -
    have within: "keys_within s x \<Longrightarrow> numbered x" for x using numbered_within num by blast
    show ?thesis
      by (cases req) (simp_all add: issue_step_def num create_issue_numbered within batch_within update_issue_within
        delete_issue_within create_comment_within update_comment_within delete_comment_within)
  qed
  have "numbered s \<Longrightarrow> numbered (issues_after p expand reqs s)" for s
  proof (induction reqs arbitrary: s)
    case (Cons r reqs)
    then show ?case by (cases r) (simp add: step)
  qed simp
  moreover have "numbered s" using assms by (simp add: numbered_def)
  ultimately have "numbered (issues_after p expand reqs s)" by blast
  then show ?thesis by (simp add: numbered_def list_all_iff list_ex_iff)
qed

lemma issue_numbers_unique_witness:
  "distinct (map (\<lambda>i. (is_workspace i, is_number i)) (issues (sv_db (issues_after demo_api (\<lambda>_ _ x. x)
     [(demo_env, demo_request, CreateIssue (Some demo_body)), (\<lambda>k. demo_env (k + 3), demo_request, CreateIssue (Some demo_body))]
     (put_db demo_server ((sv_db demo_server)\<lparr>issues := []\<rparr>))))))"
proof -
  have "issues (sv_db (put_db demo_server ((sv_db demo_server)\<lparr>issues := []\<rparr>))) = []" by simp
  moreover have "ac_spaces (sv_accounts (put_db demo_server d)) = [demo_space]" "0 \<le> sp_counter demo_space" for d
    by (simp_all add: demo_server_def demo_space_def)
  ultimately show ?thesis
    by (intro issue_numbers_unique [THEN conjunct1]) (simp_all del: server_simps)
qed

end
