(* ===== verification/Notifications.thy ===== *)
theory Notifications
  imports TaskDerived IssueRequests RealtimeListeners
begin

text \<open>
  The listeners that turn the events of requests into subscriptions, activities and inbox items
  (\<^verbatim>\<open>server/cmd/server/subscriber_listeners.go\<close>, \<^verbatim>\<open>activity_listeners.go\<close>, \<^verbatim>\<open>notification_listeners.go\<close>), registered
  on the bus in this order by \<^verbatim>\<open>main.go\<close>. Their state is the world and the number of statements executed so far;
  \<open>nf_env f k\<close> is the environment of the \<open>k\<close>-th statement. What they publish themselves (\<open>subscriber:added\<close>,
  \<open>activity:created\<close>, \<open>inbox:new\<close>) has no other listener than the hub and is added to the sequence of events. A
  payload is the JSON value of the event; a response struct is the object with its fields in the order of the struct,
  which the maps Go prints in the order of their keys are not. The order in which Go ranges over a map is a parameter.
\<close>

record notifier =
  nf_uuid :: "string \<Rightarrow> uuid option"
  nf_codec :: codec
  nf_env :: "nat \<Rightarrow> env"
  nf_range :: "string list \<Rightarrow> string list"

record desk =
  dk_world :: world
  dk_clock :: nat

abbreviation dk_db :: "desk \<Rightarrow> db" where "dk_db k \<equiv> w_db (dk_world k)"

section \<open>Statements\<close>

record activity_params =
  aq_workspace :: "uuid option"
  aq_issue :: "uuid option"
  aq_actor_type :: pgtext
  aq_actor :: "uuid option"
  aq_action :: string
  aq_details :: string

definition activity_admitted :: "db \<Rightarrow> activity_row \<Rightarrow> bool" where
  "activity_admitted d a \<longleftrightarrow> ac_id a \<notin> ac_id ` set (activities d) \<and>
     (case ac_issue a of None \<Rightarrow> True | Some i \<Rightarrow> i \<in> is_id ` set (issues d)) \<and>
     ac_actor_type a \<in> set [None, Some ''member'', Some ''agent'', Some ''system'']"

definition create_activity :: "activity_params \<Rightarrow> env \<Rightarrow> db \<Rightarrow> (db \<times> activity_row) res" where
  "create_activity q e d =
     (case aq_workspace q of
        None \<Rightarrow> Inl ErrConstraint
      | Some ws \<Rightarrow>
          let a = \<lparr>ac_id = e_gen e 0, ac_workspace = ws, ac_issue = aq_issue q, ac_actor_type = aq_actor_type q, ac_actor = aq_actor q,
                   ac_action = aq_action q, ac_details = aq_details q, ac_created_at = e_now e, ac_event = None\<rparr>
          in if activity_admitted d a then Inr (d\<lparr>activities := activities d @ [a]\<rparr>, a) else Inl ErrConstraint)"

record letter =
  lt_workspace :: "uuid option"
  lt_recipient_type :: string
  lt_recipient :: "uuid option"
  lt_type :: string
  lt_severity :: string
  lt_issue :: "uuid option"
  lt_title :: string
  lt_body :: pgtext
  lt_actor_type :: pgtext
  lt_actor :: "uuid option"
  lt_details :: string

definition create_inbox_item :: "letter \<Rightarrow> env \<Rightarrow> db \<Rightarrow> (db \<times> inbox_row) res" where
  "create_inbox_item l e d =
     (case (lt_workspace l, lt_recipient l) of
        (Some ws, Some u) \<Rightarrow>
          let x = \<lparr>ib_id = e_gen e 0, ib_workspace = ws, ib_recipient_type = lt_recipient_type l, ib_recipient = u, ib_type = lt_type l,
                   ib_severity = lt_severity l, ib_issue = lt_issue l, ib_title = lt_title l, ib_body = lt_body l, ib_read = False,
                   ib_archived = False, ib_created_at = e_now e, ib_actor_type = lt_actor_type l, ib_actor = lt_actor l,
                   ib_details = lt_details l, ib_event = None\<rparr>
          in if inbox_admitted d x then Inr (d\<lparr>inbox := inbox d @ [x]\<rparr>, x) else Inl ErrConstraint
      | _ \<Rightarrow> Inl ErrConstraint)"

text \<open>One statement of a listener: an error is logged and dropped, a result is published.\<close>

definition run_statement :: "notifier \<Rightarrow> (env \<Rightarrow> db \<Rightarrow> (db \<times> 'a) res) \<Rightarrow> ('a \<Rightarrow> event) \<Rightarrow> desk \<Rightarrow> desk" where
  "run_statement f q hint k =
     (case q (nf_env f (dk_clock k)) (dk_db k) of
        Inl _ \<Rightarrow> k\<lparr>dk_clock := Suc (dk_clock k)\<rparr>
      | Inr (d, r) \<Rightarrow> \<lparr>dk_world = emit (hint r) (with_db (dk_world k) d), dk_clock = Suc (dk_clock k)\<rparr>)"

section \<open>Reading the payload of an event\<close>

definition pointer_at :: "jmap \<Rightarrow> string \<Rightarrow> pgtext" where
  "pointer_at m k = (case map_of m k of Some (JStr s) \<Rightarrow> Some s | _ \<Rightarrow> None)"

definition flag_at :: "jmap \<Rightarrow> string \<Rightarrow> bool" where
  "flag_at m k \<longleftrightarrow> map_of m k = Some (JBool True)"

record issue_view =
  iv_id :: string
  iv_workspace :: string
  iv_title :: string
  iv_description :: pgtext
  iv_status :: string
  iv_priority :: string
  iv_assignee_type :: pgtext
  iv_assignee :: pgtext
  iv_creator_type :: string
  iv_creator :: string
  iv_due :: pgtext

definition issue_fields :: "string list" where
  "issue_fields = [''id'', ''workspace_id'', ''number'', ''identifier'', ''title'', ''description'', ''status'', ''priority'',
     ''assignee_type'', ''assignee_id'', ''creator_type'', ''creator_id'', ''parent_issue_id'', ''due_date'', ''created_at'', ''updated_at'']"

definition issue_of_object :: "jmap \<Rightarrow> issue_view" where
  "issue_of_object m = \<lparr>iv_id = string_at m ''id'', iv_workspace = string_at m ''workspace_id'', iv_title = string_at m ''title'',
     iv_description = pointer_at m ''description'', iv_status = string_at m ''status'', iv_priority = string_at m ''priority'',
     iv_assignee_type = pointer_at m ''assignee_type'', iv_assignee = pointer_at m ''assignee_id'',
     iv_creator_type = string_at m ''creator_type'', iv_creator = string_at m ''creator_id'', iv_due = pointer_at m ''due_date''\<rparr>"

definition issue_at :: "jmap \<Rightarrow> issue_view option" where
  "issue_at m =
     (case object_at m ''issue'' of
        None \<Rightarrow> None
      | Some i \<Rightarrow> if map fst i = issue_fields then Some (issue_of_object i) else None)"

text \<open>A handler with the object of its event; without one it returns at once.\<close>

definition with_payload :: "(event \<Rightarrow> jmap \<Rightarrow> desk \<Rightarrow> desk) \<Rightarrow> desk handler" where
  "with_payload h e k = (case as_object (ev_payload e) of None \<Rightarrow> (k, False) | Some m \<Rightarrow> (h e m k, False))"

definition with_issue :: "(event \<Rightarrow> jmap \<Rightarrow> issue_view \<Rightarrow> desk \<Rightarrow> desk) \<Rightarrow> desk handler" where
  "with_issue h = with_payload (\<lambda>e m k. case issue_at m of None \<Rightarrow> k | Some i \<Rightarrow> h e m i k)"

text \<open>What happens only when both pointers are set.\<close>

definition if_both :: "pgtext \<Rightarrow> pgtext \<Rightarrow> (string \<Rightarrow> string \<Rightarrow> desk \<Rightarrow> desk) \<Rightarrow> desk \<Rightarrow> desk" where
  "if_both x y h = (case x of None \<Rightarrow> id | Some s \<Rightarrow> (case y of None \<Rightarrow> id | Some t \<Rightarrow> h s t))"

text \<open>The mentions of a new text that the old one did not have.\<close>

definition added_mentions :: "string \<Rightarrow> pgtext \<Rightarrow> mention list" where
  "added_mentions new old =
     (let seen = (case old of None \<Rightarrow> [] | Some s \<Rightarrow> map mention_key (parse_mentions s))
      in filter (\<lambda>m. mention_key m \<notin> set seen) (parse_mentions new))"

definition mentions_of :: "pgtext \<Rightarrow> mention list" where
  "mentions_of t = (case t of None \<Rightarrow> [] | Some s \<Rightarrow> if s = '''' then [] else parse_mentions s)"

definition option_list :: "pgtext list \<Rightarrow> string list" where
  "option_list ts = concat (map (\<lambda>t. case t of None \<Rightarrow> [] | Some s \<Rightarrow> [s]) ts)"

definition newly_mentioned :: "jmap \<Rightarrow> issue_view \<Rightarrow> mention list" where
  "newly_mentioned m i =
     (if \<not> flag_at m ''description_changed'' then []
      else case iv_description i of None \<Rightarrow> [] | Some s \<Rightarrow> added_mentions s (pointer_at m ''prev_description''))"

section \<open>Subscriptions\<close>

definition subscriber_event :: "string \<Rightarrow> string \<Rightarrow> string \<Rightarrow> string \<Rightarrow> string \<Rightarrow> event" where
  "subscriber_event ws i ty u reason = \<lparr>ev_id = '''', ev_type = ''subscriber:added'', ev_workspace = ws, ev_actor_type = '''', ev_actor = '''',
     ev_payload = JObj [(''issue_id'', JStr i), (''user_type'', JStr ty), (''user_id'', JStr u), (''reason'', JStr reason)]\<rparr>"

definition subscribe_statement :: "notifier \<Rightarrow> string \<Rightarrow> string \<Rightarrow> string \<Rightarrow> string \<Rightarrow> env \<Rightarrow> db \<Rightarrow> (db \<times> unit) res" where
  "subscribe_statement f i ty u reason e d =
     (case (nf_uuid f i, nf_uuid f u) of
        (Some i', Some u') \<Rightarrow> or_fail (add_issue_subscriber e d i' ty u' reason) (\<lambda>d. Inr (d, ()))
      | _ \<Rightarrow> Inl ErrConstraint)"

definition add_subscriber :: "notifier \<Rightarrow> string \<Rightarrow> string \<Rightarrow> string \<Rightarrow> string \<Rightarrow> string \<Rightarrow> desk \<Rightarrow> desk" where
  "add_subscriber f ws i ty u reason = run_statement f (subscribe_statement f i ty u reason) (\<lambda>_. subscriber_event ws i ty u reason)"

definition subscribe_mentioned :: "notifier \<Rightarrow> string \<Rightarrow> string \<Rightarrow> mention list \<Rightarrow> desk \<Rightarrow> desk" where
  "subscribe_mentioned f ws i ms = fold (\<lambda>m. add_subscriber f ws i (mn_type m) (mn_id m) ''mentioned'') ms"

definition subscribe_assignee :: "notifier \<Rightarrow> string \<Rightarrow> issue_view \<Rightarrow> desk \<Rightarrow> desk" where
  "subscribe_assignee f ws i =
     if_both (iv_assignee_type i) (iv_assignee i) (\<lambda>ty u. add_subscriber f ws (iv_id i) ty u ''assignee'')"

definition on_issue_created_subscribe :: "notifier \<Rightarrow> desk handler" where
  "on_issue_created_subscribe f = with_issue (\<lambda>e m i k.
     let ws = ev_workspace e;
         k1 = add_subscriber f ws (iv_id i) (iv_creator_type i) (iv_creator i) ''creator'' k;
         k2 = (if iv_assignee_type i = Some (iv_creator_type i) \<and> iv_assignee i = Some (iv_creator i) then k1 else subscribe_assignee f ws i k1)
     in subscribe_mentioned f ws (iv_id i) (mentions_of (iv_description i)) k2)"

definition on_issue_updated_subscribe :: "notifier \<Rightarrow> desk handler" where
  "on_issue_updated_subscribe f = with_issue (\<lambda>e m i k.
     subscribe_mentioned f (ev_workspace e) (iv_id i) (newly_mentioned m i)
       (if flag_at m ''assignee_changed'' then subscribe_assignee f (ev_workspace e) i k else k))"

definition on_comment_created_subscribe :: "notifier \<Rightarrow> desk handler" where
  "on_comment_created_subscribe f e k =
     (if ev_id e \<noteq> '''' then (k, False)
      else with_payload (\<lambda>e m k. case object_at m ''comment'' of
          None \<Rightarrow> k
        | Some c \<Rightarrow>
            if string_at c ''issue_id'' = '''' \<or> string_at c ''author_id'' = '''' then k
            else add_subscriber f (ev_workspace e) (string_at c ''issue_id'') (string_at c ''author_type'') (string_at c ''author_id'')
                   ''commenter'' k) e k)"

section \<open>Activities\<close>

definition activity_event :: "codec \<Rightarrow> event \<Rightarrow> activity_row \<Rightarrow> event" where
  "activity_event c e a = \<lparr>ev_id = '''', ev_type = ''activity:created'', ev_workspace = ev_workspace e,
     ev_actor_type = ev_actor_type e, ev_actor = ev_actor e,
     ev_payload = JObj [(''issue_id'', JStr (uuid_to_string (ac_issue a))),
       (''entry'', JObj [(''type'', JStr ''activity''), (''id'', JStr (uuid_text (ac_id a))), (''actor_type'', JStr (text_of (ac_actor_type a))),
          (''actor_id'', JStr (uuid_to_string (ac_actor a))), (''action'', JStr (ac_action a)),
          (''details'', json_any c (ac_details a)), (''created_at'', JStr (cd_time c (ac_created_at a)))])]\<rparr>"

definition record_activity :: "notifier \<Rightarrow> event \<Rightarrow> issue_view \<Rightarrow> string \<times> jmap \<Rightarrow> desk \<Rightarrow> desk" where
  "record_activity f e i = (\<lambda>(action, details).
     run_statement f (create_activity \<lparr>aq_workspace = nf_uuid f (iv_workspace i), aq_issue = nf_uuid f (iv_id i),
         aq_actor_type = str_to_text (ev_actor_type e), aq_actor = nf_uuid f (ev_actor e), aq_action = action,
         aq_details = json_text (JObj details)\<rparr>)
       (activity_event (nf_codec f) e))"

definition on_issue_created_activity :: "notifier \<Rightarrow> desk handler" where
  "on_issue_created_activity f = with_issue (\<lambda>e m i. record_activity f e i (''created'', []))"

definition from_to :: "string \<Rightarrow> string \<Rightarrow> jmap" where
  "from_to x y = [(''from'', JStr x), (''to'', JStr y)]"

text \<open>The keys that are present; \<^verbatim>\<open>json.Marshal\<close> prints them sorted.\<close>

definition present :: "(string \<times> pgtext) list \<Rightarrow> jmap" where
  "present kvs = concat (map (\<lambda>(k, v). case v of None \<Rightarrow> [] | Some s \<Rightarrow> [(k, JStr s)]) kvs)"

text \<open>The activities of an update, one for every flag that is set.\<close>

definition change_activities :: "jmap \<Rightarrow> issue_view \<Rightarrow> (string \<times> jmap) list" where
  "change_activities m i =
     (if flag_at m ''status_changed'' then [(''status_changed'', from_to (string_at m ''prev_status'') (iv_status i))] else []) @
     (if flag_at m ''priority_changed'' then [(''priority_changed'', from_to (string_at m ''prev_priority'') (iv_priority i))] else []) @
     (if flag_at m ''assignee_changed''
      then [(''assignee_changed'', present [(''from_id'', pointer_at m ''prev_assignee_id''), (''from_type'', pointer_at m ''prev_assignee_type''),
              (''to_id'', iv_assignee i), (''to_type'', iv_assignee_type i)])] else []) @
     (if flag_at m ''due_date_changed''
      then [(''due_date_changed'', from_to (text_of (pointer_at m ''prev_due_date'')) (text_of (iv_due i)))] else []) @
     (if flag_at m ''title_changed'' then [(''title_changed'', from_to (string_at m ''prev_title'') (iv_title i))] else []) @
     (if flag_at m ''description_changed'' then [(''description_updated'', [])] else [])"

definition on_issue_updated_activity :: "notifier \<Rightarrow> desk handler" where
  "on_issue_updated_activity f = with_issue (\<lambda>e m i. fold (record_activity f e i) (change_activities m i))"

definition on_task_activity :: "notifier \<Rightarrow> string \<Rightarrow> desk handler" where
  "on_task_activity f action e k =
     (if ev_id e \<noteq> '''' then (k, False)
      else with_payload (\<lambda>e m k.
          if string_at m ''issue_id'' = '''' then k
          else (case get_issue (dk_db k) (nf_uuid f (string_at m ''issue_id'')) of
            Inl _ \<Rightarrow> k
          | Inr i \<Rightarrow>
              run_statement f (create_activity \<lparr>aq_workspace = Some (is_workspace i), aq_issue = nf_uuid f (string_at m ''issue_id''),
                  aq_actor_type = Some ''agent'', aq_actor = nf_uuid f (string_at m ''agent_id''), aq_action = action, aq_details = ''{}''\<rparr>)
                (activity_event (nf_codec f) e) k)) e k)"

section \<open>Inbox items\<close>

definition inbox_item_to_response :: "codec \<Rightarrow> inbox_row \<Rightarrow> jmap" where
  "inbox_item_to_response c x =
     [(''id'', JStr (uuid_text (ib_id x))), (''workspace_id'', JStr (uuid_text (ib_workspace x))),
      (''recipient_type'', JStr (ib_recipient_type x)), (''recipient_id'', JStr (uuid_text (ib_recipient x))),
      (''type'', JStr (ib_type x)), (''severity'', JStr (ib_severity x)), (''issue_id'', uuid_to_ptr (ib_issue x)),
      (''title'', JStr (ib_title x)), (''body'', jstr_opt (ib_body x)), (''read'', JBool (ib_read x)),
      (''archived'', JBool (ib_archived x)), (''created_at'', JStr (cd_time c (ib_created_at x))),
      (''actor_type'', jstr_opt (ib_actor_type x)), (''actor_id'', uuid_to_ptr (ib_actor x)), (''details'', json_any c (ib_details x))]"

text \<open>What all items of a call share: the issue as the event names it, and the text.\<close>

record notice =
  nt_workspace :: string
  nt_issue :: string
  nt_status :: string
  nt_type :: string
  nt_severity :: string
  nt_title :: string
  nt_body :: string
  nt_details :: jmap

definition inbox_event :: "codec \<Rightarrow> event \<Rightarrow> notice \<Rightarrow> inbox_row \<Rightarrow> event" where
  "inbox_event c e n x = \<lparr>ev_id = '''', ev_type = ''inbox:new'', ev_workspace = nt_workspace n, ev_actor_type = ev_actor_type e,
     ev_actor = ev_actor e, ev_payload = JObj [(''item'', JObj (inbox_item_to_response c x @ [(''issue_status'', JStr (nt_status n))]))]\<rparr>"

definition letter_of :: "notifier \<Rightarrow> event \<Rightarrow> notice \<Rightarrow> string \<Rightarrow> uuid option \<Rightarrow> letter" where
  "letter_of f e n ty u = \<lparr>lt_workspace = nf_uuid f (nt_workspace n), lt_recipient_type = ty, lt_recipient = u, lt_type = nt_type n,
     lt_severity = nt_severity n, lt_issue = nf_uuid f (nt_issue n), lt_title = nt_title n, lt_body = str_to_text (nt_body n),
     lt_actor_type = str_to_text (ev_actor_type e), lt_actor = nf_uuid f (ev_actor e), lt_details = json_text (JObj (nt_details n))\<rparr>"

definition deliver :: "notifier \<Rightarrow> event \<Rightarrow> notice \<Rightarrow> string \<Rightarrow> uuid option \<Rightarrow> desk \<Rightarrow> desk" where
  "deliver f e n ty u = run_statement f (create_inbox_item (letter_of f e n ty u)) (inbox_event (nf_codec f) e n)"

definition notify_direct :: "notifier \<Rightarrow> event \<Rightarrow> notice \<Rightarrow> string \<Rightarrow> string \<Rightarrow> desk \<Rightarrow> desk" where
  "notify_direct f e n ty r k = (if r = ev_actor e then k else deliver f e n ty (nf_uuid f r) k)"

text \<open>The member subscribers of an issue, less the actor and the excluded.\<close>

definition subscribed_recipients :: "notifier \<Rightarrow> db \<Rightarrow> event \<Rightarrow> string \<Rightarrow> string list \<Rightarrow> uuid list" where
  "subscribed_recipients f d e i exclude =
     (case nf_uuid f i of
        None \<Rightarrow> []
      | Some x \<Rightarrow> filter (\<lambda>u. uuid_text u \<noteq> ev_actor e \<and> uuid_text u \<notin> set exclude) (member_subscribers d x))"

definition notify_subscribers :: "notifier \<Rightarrow> event \<Rightarrow> notice \<Rightarrow> string list \<Rightarrow> desk \<Rightarrow> desk" where
  "notify_subscribers f e n exclude k =
     fold (\<lambda>u. deliver f e n ''member'' (Some u)) (subscribed_recipients f (dk_db k) e (nt_issue n) exclude) k"

definition mentioned_ids :: "notifier \<Rightarrow> db \<Rightarrow> event \<Rightarrow> mention list \<Rightarrow> string list" where
  "mentioned_ids f d e ms = remdups
     (map mn_id (filter (\<lambda>m. mn_type m = ''member'') ms) @
      (if has_mention_all ms
       then (case nf_uuid f (ev_workspace e) of None \<Rightarrow> [] | Some ws \<Rightarrow> map (\<lambda>x. uuid_text (mb_user x)) (list_members d ws))
       else []))"

definition mentioned_notice :: "event \<Rightarrow> notice \<Rightarrow> notice" where
  "mentioned_notice e n = n\<lparr>nt_workspace := ev_workspace e, nt_type := ''mentioned'', nt_severity := ''info'', nt_body := ''''\<rparr>"

definition notify_mentioned_members :: "notifier \<Rightarrow> event \<Rightarrow> notice \<Rightarrow> mention list \<Rightarrow> string list \<Rightarrow> desk \<Rightarrow> desk" where
  "notify_mentioned_members f e n ms skip k =
     fold (\<lambda>r. if r = ev_actor e \<or> r \<in> set skip then id else deliver f e (mentioned_notice e n) ''member'' (nf_uuid f r))
       (nf_range f (mentioned_ids f (dk_db k) e ms)) k"

section \<open>Notifications\<close>

definition issue_notice :: "issue_view \<Rightarrow> string \<Rightarrow> string \<Rightarrow> string \<Rightarrow> jmap \<Rightarrow> notice" where
  "issue_notice i ws ty severity details = \<lparr>nt_workspace = ws, nt_issue = iv_id i, nt_status = iv_status i, nt_type = ty,
     nt_severity = severity, nt_title = iv_title i, nt_body = '''', nt_details = details\<rparr>"

definition on_issue_created_notify :: "notifier \<Rightarrow> desk handler" where
  "on_issue_created_notify f = with_issue (\<lambda>e m i k.
     let n = issue_notice i (iv_workspace i) ''issue_assigned'' ''action_required'' [];
         mentions = mentions_of (iv_description i);
         assignee = (if iv_assignee_type i = None then None else iv_assignee i)
     in notify_mentioned_members f e n mentions (ev_actor e # option_list [assignee])
          (if_both (iv_assignee_type i) (iv_assignee i) (notify_direct f e n) k))"

text \<open>The parts of an update, in the order of the listener.\<close>

definition notify_assignee_change :: "notifier \<Rightarrow> event \<Rightarrow> jmap \<Rightarrow> issue_view \<Rightarrow> desk \<Rightarrow> desk" where
  "notify_assignee_change f e m i k =
     (let old_type = pointer_at m ''prev_assignee_type''; old = pointer_at m ''prev_assignee_id'';
          details = present [(''new_assignee_id'', iv_assignee i), (''new_assignee_type'', iv_assignee_type i),
                             (''prev_assignee_id'', old), (''prev_assignee_type'', old_type)];
          n = (\<lambda>ty severity. issue_notice i (ev_workspace e) ty severity details);
          k1 = if_both (iv_assignee_type i) (iv_assignee i) (notify_direct f e (n ''issue_assigned'' ''action_required'')) k;
          k2 = if_both old_type old (\<lambda>ty u. if ty = ''member'' then notify_direct f e (n ''unassigned'' ''info'') ''member'' u else id) k1
      in notify_subscribers f e (n ''assignee_changed'' ''info'') (option_list [old, iv_assignee i]) k2)"

definition on_issue_updated_notify :: "notifier \<Rightarrow> desk handler" where
  "on_issue_updated_notify f = with_issue (\<lambda>e m i k.
     let changed = (\<lambda>flag details k.
           if flag_at m flag
           then notify_subscribers f e (issue_notice i (ev_workspace e) flag ''info'' details) [] k else k);
         k1 = (if flag_at m ''assignee_changed'' then notify_assignee_change f e m i k else k);
         k2 = changed ''status_changed'' (from_to (string_at m ''prev_status'') (iv_status i)) k1;
         k3 = changed ''priority_changed'' (from_to (string_at m ''prev_priority'') (iv_priority i)) k2;
         k4 = changed ''due_date_changed'' (from_to (text_of (pointer_at m ''prev_due_date'')) (text_of (iv_due i))) k3
     in notify_mentioned_members f e (issue_notice i (ev_workspace e) ''mentioned'' ''info'' []) (newly_mentioned m i) [ev_actor e] k4)"

definition on_comment_created_notify :: "notifier \<Rightarrow> desk handler" where
  "on_comment_created_notify f e k =
     (if ev_id e \<noteq> '''' then (k, False)
      else with_payload (\<lambda>e m k. case object_at m ''comment'' of
          None \<Rightarrow> k
        | Some c \<Rightarrow>
            let details = (if string_at c ''id'' = '''' then [] else [(''comment_id'', JStr (string_at c ''id''))]);
                n = \<lparr>nt_workspace = ev_workspace e, nt_issue = string_at c ''issue_id'', nt_status = string_at m ''issue_status'',
                     nt_type = ''new_comment'', nt_severity = ''info'', nt_title = string_at m ''issue_title'',
                     nt_body = string_at c ''content'', nt_details = details\<rparr>
            in notify_mentioned_members f e n (parse_mentions (string_at c ''content'')) [ev_actor e]
                 (notify_subscribers f e n [] k)) e k)"

definition reaction_fields :: "string \<Rightarrow> string list" where
  "reaction_fields parent = [''id'', parent, ''actor_type'', ''actor_id'', ''emoji'', ''created_at'']"

definition reaction_at :: "jmap \<Rightarrow> string \<Rightarrow> jmap option" where
  "reaction_at m parent =
     (case object_at m ''reaction'' of None \<Rightarrow> None | Some r \<Rightarrow> if map fst r = reaction_fields parent then Some r else None)"

definition reaction_notice :: "event \<Rightarrow> jmap \<Rightarrow> jmap \<Rightarrow> notice" where
  "reaction_notice e m details = \<lparr>nt_workspace = ev_workspace e, nt_issue = string_at m ''issue_id'', nt_status = string_at m ''issue_status'',
     nt_type = ''reaction_added'', nt_severity = ''info'', nt_title = string_at m ''issue_title'', nt_body = '''', nt_details = details\<rparr>"

definition on_issue_reaction_notify :: "notifier \<Rightarrow> desk handler" where
  "on_issue_reaction_notify f = with_payload (\<lambda>e m k.
     case reaction_at m ''issue_id'' of
       None \<Rightarrow> k
     | Some r \<Rightarrow>
         if string_at m ''creator_type'' = '''' \<or> string_at m ''creator_id'' = '''' then k
         else notify_direct f e (reaction_notice e m [(''emoji'', JStr (string_at r ''emoji''))])
                (string_at m ''creator_type'') (string_at m ''creator_id'') k)"

definition on_reaction_notify :: "notifier \<Rightarrow> desk handler" where
  "on_reaction_notify f = with_payload (\<lambda>e m k.
     case reaction_at m ''comment_id'' of
       None \<Rightarrow> k
     | Some r \<Rightarrow>
         if string_at m ''comment_author_type'' = '''' \<or> string_at m ''comment_author_id'' = '''' then k
         else notify_direct f e
                (reaction_notice e m ((if string_at m ''comment_id'' = '''' then [] else [(''comment_id'', JStr (string_at m ''comment_id''))]) @
                   [(''emoji'', JStr (string_at r ''emoji''))]))
                (string_at m ''comment_author_type'') (string_at m ''comment_author_id'') k)"

definition on_task_failed_notify :: "notifier \<Rightarrow> desk handler" where
  "on_task_failed_notify f e k =
     (if ev_id e \<noteq> '''' then (k, False)
      else with_payload (\<lambda>e m k.
          if string_at m ''issue_id'' = '''' then k
          else (case get_issue (dk_db k) (nf_uuid f (string_at m ''issue_id'')) of
            Inl _ \<Rightarrow> k
          | Inr i \<Rightarrow>
              let agent = string_at m ''agent_id'' in
              notify_subscribers f (e\<lparr>ev_actor_type := ''agent'', ev_actor := agent\<rparr>)
                \<lparr>nt_workspace = ev_workspace e, nt_issue = string_at m ''issue_id'', nt_status = is_status i, nt_type = ''task_failed'',
                 nt_severity = ''action_required'', nt_title = is_title i, nt_body = '''', nt_details = []\<rparr>
                (if agent = '''' then [] else [agent]) k)) e k)"

section \<open>Registration\<close>

definition desk_registrations :: "notifier \<Rightarrow> desk registration list" where
  "desk_registrations f =
     [On ''issue:created'' (on_issue_created_subscribe f), On ''issue:updated'' (on_issue_updated_subscribe f),
      On ''comment:created'' (on_comment_created_subscribe f)] @
     [On ''issue:created'' (on_issue_created_activity f), On ''issue:updated'' (on_issue_updated_activity f),
      On ''task:completed'' (on_task_activity f ''task_completed''), On ''task:failed'' (on_task_activity f ''task_failed'')] @
     [On ''issue:created'' (on_issue_created_notify f), On ''issue:updated'' (on_issue_updated_notify f),
      On ''comment:created'' (on_comment_created_notify f), On ''issue_reaction:added'' (on_issue_reaction_notify f),
      On ''reaction:added'' (on_reaction_notify f), On ''task:failed'' (on_task_failed_notify f)]"

definition server_bus :: "notifier \<Rightarrow> desk bus" where
  "server_bus f = fold register (desk_registrations f) new_bus"

end
