(* ===== verification/NotifyFacts.thy ===== *)
theory NotifyFacts
  imports Notifications "HOL-Library.Multiset"
begin

text \<open>
  What the statements of the listeners do to the tables: the inbox, the activities and the events only grow,
  every new inbox item has its event, and as long as the database draws fresh identifiers no admissible row is lost.
\<close>

section \<open>Growth\<close>

definition letters :: "event list \<Rightarrow> string list" where
  "letters evs = map event_recipient (filter (\<lambda>e. ev_type e = ''inbox:new'') evs)"

lemma letters_simps [simp]: "letters [] = []" "letters (xs @ ys) = letters xs @ letters ys"
  by (simp_all add: letters_def)

text \<open>The events of the listeners themselves.\<close>

definition own_events :: "string list" where
  "own_events = [''subscriber:added'', ''activity:created'', ''inbox:new'']"

text \<open>From one desk to a later one: the rows and events added, and the clock.\<close>

definition grows :: "notifier \<Rightarrow> desk \<Rightarrow> desk \<Rightarrow> inbox_row list \<Rightarrow> activity_row list \<Rightarrow> bool" where
  "grows f k k' xs as \<longleftrightarrow> inbox (dk_db k') = inbox (dk_db k) @ xs \<and> activities (dk_db k') = activities (dk_db k) @ as \<and>
     issues (dk_db k') = issues (dk_db k) \<and> members (dk_db k') = members (dk_db k) \<and> outbox (dk_db k') = outbox (dk_db k) \<and>
     dk_clock k \<le> dk_clock k' \<and>
     ib_id ` set xs \<union> ac_id ` set as \<subseteq> (\<lambda>n. e_gen (nf_env f n) 0) ` {dk_clock k..<dk_clock k'} \<and>
     (\<exists>evs. w_bus (dk_world k') = w_bus (dk_world k) @ evs \<and> ev_type ` set evs \<subseteq> set own_events \<and>
        letters evs = map (\<lambda>x. uuid_text (ib_recipient x)) xs)"

lemma growth_refl [simp]: "grows f k k [] []"
  by (simp add: grows_def)

lemma growth_trans: "grows f k1 k2 xs as \<Longrightarrow> grows f k2 k3 ys bs \<Longrightarrow> grows f k1 k3 (xs @ ys) (as @ bs)"
proof -
  assume g: "grows f k1 k2 xs as" "grows f k2 k3 ys bs"
  let ?g = "\<lambda>n. e_gen (nf_env f n) 0"
  have mid: "dk_clock k1 \<le> dk_clock k2" "dk_clock k2 \<le> dk_clock k3" using g by (simp_all add: grows_def)
  have 1: "ib_id ` set xs \<union> ac_id ` set as \<subseteq> ?g ` {dk_clock k1..<dk_clock k2}" using g(1) unfolding grows_def by (elim conjE)
  have 2: "ib_id ` set ys \<union> ac_id ` set bs \<subseteq> ?g ` {dk_clock k2..<dk_clock k3}" using g(2) unfolding grows_def by (elim conjE)
  have "?g ` {dk_clock k1..<dk_clock k3} = ?g ` {dk_clock k1..<dk_clock k2} \<union> ?g ` {dk_clock k2..<dk_clock k3}"
    unfolding image_Un [symmetric] using mid by (simp add: ivl_disj_un)
  moreover have "ib_id ` set (xs @ ys) \<union> ac_id ` set (as @ bs) = (ib_id ` set xs \<union> ac_id ` set as) \<union> (ib_id ` set ys \<union> ac_id ` set bs)"
    by (simp add: image_Un Un_ac)
  ultimately have "ib_id ` set (xs @ ys) \<union> ac_id ` set (as @ bs) \<subseteq> ?g ` {dk_clock k1..<dk_clock k3}"
    using Un_mono [OF 1 2] by simp
  moreover obtain evs where evs: "w_bus (dk_world k2) = w_bus (dk_world k1) @ evs" "ev_type ` set evs \<subseteq> set own_events"
    "letters evs = map (\<lambda>x. uuid_text (ib_recipient x)) xs" using g(1) unfolding grows_def by blast
  obtain evs' where evs': "w_bus (dk_world k3) = w_bus (dk_world k2) @ evs'" "ev_type ` set evs' \<subseteq> set own_events"
    "letters evs' = map (\<lambda>x. uuid_text (ib_recipient x)) ys" using g(2) unfolding grows_def by blast
  from evs evs' have "\<exists>evs. w_bus (dk_world k3) = w_bus (dk_world k1) @ evs \<and> ev_type ` set evs \<subseteq> set own_events \<and>
      letters evs = map (\<lambda>x. uuid_text (ib_recipient x)) (xs @ ys)"
    by (intro exI [of _ "evs @ evs'"]) (simp add: image_Un)
  ultimately show ?thesis using g by (simp add: grows_def)
qed

text \<open>The common case of a call that satisfies a predicate on what it adds.\<close>

definition adds :: "notifier \<Rightarrow> (inbox_row \<Rightarrow> bool) \<Rightarrow> (activity_row \<Rightarrow> bool) \<Rightarrow> desk \<Rightarrow> desk \<Rightarrow> bool" where
  "adds f P Q k k' \<longleftrightarrow> (\<exists>xs as. grows f k k' xs as \<and> list_all P xs \<and> list_all Q as)"

lemma adds_refl [simp, intro]: "adds f P Q k k"
  by (auto simp: adds_def intro!: exI [of _ "[]"])

lemma adds_trans [trans]: "adds f P Q k1 k2 \<Longrightarrow> adds f P Q k2 k3 \<Longrightarrow> adds f P Q k1 k3"
proof -
  assume "adds f P Q k1 k2" "adds f P Q k2 k3"
  then obtain xs as ys bs where "grows f k1 k2 xs as" "list_all P xs" "list_all Q as" "grows f k2 k3 ys bs" "list_all P ys" "list_all Q bs"
    by (auto simp: adds_def)
  then show "adds f P Q k1 k3" unfolding adds_def by (intro exI [of _ "xs @ ys"] exI [of _ "as @ bs"]) (simp add: growth_trans)
qed

lemma adds_fold: "(\<And>x k. x \<in> set xs \<Longrightarrow> adds f P Q k (h x k)) \<Longrightarrow> adds f P Q k (fold h xs k)"
proof (induction xs arbitrary: k)
  case (Cons x xs)
  have "adds f P Q k (h x k)" using Cons.prems by simp
  also have "adds f P Q (h x k) (fold h xs (h x k))" using Cons by simp
  finally show ?case by simp
qed simp

lemma run_statement_Inl: "q (nf_env f (dk_clock k)) (dk_db k) = Inl err \<Longrightarrow> run_statement f q hint k = k\<lparr>dk_clock := Suc (dk_clock k)\<rparr>"
  by (simp add: run_statement_def)

lemma run_statement_Inr:
  "q (nf_env f (dk_clock k)) (dk_db k) = Inr (d, r) \<Longrightarrow>
     run_statement f q hint k = \<lparr>dk_world = emit (hint r) (with_db (dk_world k) d), dk_clock = Suc (dk_clock k)\<rparr>"
  by (simp add: run_statement_def)

lemma tick_grows [simp]: "grows f k (k\<lparr>dk_clock := Suc (dk_clock k)\<rparr>) [] []"
  by (simp add: grows_def)

section \<open>The statements\<close>

lemma add_subscriber_grows: "grows f k (add_subscriber f ws i ty u reason k) [] []"
proof (cases "subscribe_statement f i ty u reason (nf_env f (dk_clock k)) (dk_db k)")
  case (Inl err)
  then show ?thesis by (simp add: add_subscriber_def run_statement_Inl)
next
  case (Inr r)
  then obtain d where d: "subscribe_statement f i ty u reason (nf_env f (dk_clock k)) (dk_db k) = Inr (d, ())" by (cases r) simp
  then have "\<exists>ss. d = (dk_db k)\<lparr>subscribers := ss\<rparr>"
    by (auto simp: subscribe_statement_def add_issue_subscriber_def res_simps split: option.splits if_splits intro: exI [of _ "subscribers (dk_db k)"])
  then show ?thesis
    by (auto simp: add_subscriber_def run_statement_Inr [of "subscribe_statement f i ty u reason", OF d] grows_def subscriber_event_def letters_def own_events_def)
qed

lemma subscribe_mentioned_grows: "grows f k (subscribe_mentioned f ws i ms k) [] []"
proof (induction ms arbitrary: k)
  case (Cons m ms)
  show ?case using growth_trans [OF add_subscriber_grows Cons] by (simp add: subscribe_mentioned_def)
qed (simp add: subscribe_mentioned_def)

lemma subscribe_assignee_grows: "grows f k (subscribe_assignee f ws i k) [] []"
  by (simp add: subscribe_assignee_def if_both_def add_subscriber_grows split: option.split)

lemma created_inbox_item:
  "create_inbox_item l e d = Inr (d', x) \<Longrightarrow> d' = d\<lparr>inbox := inbox d @ [x]\<rparr> \<and> lt_recipient l = Some (ib_recipient x) \<and>
     ib_id x = e_gen e 0 \<and> ib_type x = lt_type l \<and> ib_recipient_type x = lt_recipient_type l"
  by (auto simp: create_inbox_item_def Let_def split: option.splits if_splits)

lemma created_activity:
  "create_activity q e d = Inr (d', a) \<Longrightarrow> d' = d\<lparr>activities := activities d @ [a]\<rparr> \<and> aq_workspace q = Some (ac_workspace a) \<and>
     ac_id a = e_gen e 0 \<and> ac_action a = aq_action q \<and> ac_issue a = aq_issue q \<and> ac_details a = aq_details q \<and> ac_actor a = aq_actor q"
  by (auto simp: create_activity_def Let_def split: option.splits if_splits)

text \<open>A delivery adds nothing or one item, with its event.\<close>

lemma deliver_grows:
  obtains "grows f k (deliver f e n ty u k) [] []"
  | x where "grows f k (deliver f e n ty u k) [x] []" "u = Some (ib_recipient x)" "ib_type x = nt_type n" "ib_recipient_type x = ty"
proof (cases "create_inbox_item (letter_of f e n ty u) (nf_env f (dk_clock k)) (dk_db k)")
  case (Inl err)
  then show ?thesis using that(1) by (simp add: deliver_def run_statement_Inl)
next
  case (Inr r)
  then obtain d x where x: "create_inbox_item (letter_of f e n ty u) (nf_env f (dk_clock k)) (dk_db k) = Inr (d, x)" by (cases r) simp
  note x' = created_inbox_item [OF x]
  have "event_recipient (inbox_event (nf_codec f) e n x) = uuid_text (ib_recipient x)"
    by (simp add: event_recipient_def inbox_event_def inbox_item_to_response_def object_at_def string_at_def)
  then have "grows f k (deliver f e n ty u k) [x] []"
    unfolding deliver_def run_statement_Inr [of "create_inbox_item (letter_of f e n ty u)", OF x]
    using x' by (auto simp: grows_def letters_def own_events_def) (simp_all add: inbox_event_def)
  with x' show ?thesis by (intro that(2) [of x]) (simp_all add: letter_of_def)
qed

lemma run_statement_activity_grows:
  obtains "grows f k (run_statement f (create_activity q) (activity_event c e) k) [] []"
  | a where "grows f k (run_statement f (create_activity q) (activity_event c e) k) [] [a]" "aq_workspace q = Some (ac_workspace a)"
      "ac_action a = aq_action q" "ac_issue a = aq_issue q" "ac_details a = aq_details q"
proof (cases "create_activity q (nf_env f (dk_clock k)) (dk_db k)")
  case (Inl err)
  then show ?thesis using that(1) by (simp add: run_statement_Inl)
next
  case (Inr r)
  then obtain d a where a: "create_activity q (nf_env f (dk_clock k)) (dk_db k) = Inr (d, a)" by (cases r) simp
  note a' = created_activity [OF a]
  have "grows f k (run_statement f (create_activity q) (activity_event c e) k) [] [a]"
    unfolding run_statement_Inr [of "create_activity q", OF a] using a' by (simp add: grows_def letters_def activity_event_def own_events_def)
  with a' show ?thesis by (intro that(2) [of a]) simp_all
qed

section \<open>Who gets an item\<close>

text \<open>A text that is the only spelling of the identifier it stands for.\<close>

definition canonical :: "notifier \<Rightarrow> string \<Rightarrow> bool" where
  "canonical f s \<longleftrightarrow> (case nf_uuid f s of None \<Rightarrow> True | Some u \<Rightarrow> uuid_text u = s)"

text \<open>A text that does not stand for the identifier \<open>a\<close> in another spelling.\<close>

definition one_spelling :: "notifier \<Rightarrow> string \<Rightarrow> string \<Rightarrow> bool" where
  "one_spelling f a s \<longleftrightarrow> (case nf_uuid f s of None \<Rightarrow> True | Some u \<Rightarrow> uuid_text u = a \<longrightarrow> s = a)"

lemma canonical_spelling: "canonical f s \<Longrightarrow> one_spelling f a s"
  by (simp add: canonical_def one_spelling_def split: option.splits)

definition spares :: "string \<Rightarrow> inbox_row \<Rightarrow> bool" where
  "spares a x \<longleftrightarrow> uuid_text (ib_recipient x) \<noteq> a"

abbreviation any :: "'a \<Rightarrow> bool" where "any \<equiv> \<lambda>_. True"

lemma addsI: "grows f k k' xs as \<Longrightarrow> list_all P xs \<Longrightarrow> list_all Q as \<Longrightarrow> adds f P Q k k'"
  by (auto simp: adds_def)

lemma growth_adds: "grows f k k' [] [] \<Longrightarrow> adds f P Q k k'"
  by (erule addsI) simp_all

lemma deliver_adds: "(\<And>v. u = Some v \<Longrightarrow> uuid_text v \<noteq> a) \<Longrightarrow> adds f (spares a) any k (deliver f e n ty u k)"
  by (rule deliver_grows [of f k e n ty u]) (auto simp: spares_def intro: addsI growth_adds)

lemma notify_direct_adds: "one_spelling f (ev_actor e) r \<Longrightarrow> adds f (spares (ev_actor e)) any k (notify_direct f e n ty r k)"
  by (auto simp: notify_direct_def one_spelling_def split: option.splits intro: deliver_adds)

lemma notify_subscribers_adds: "adds f (spares (ev_actor e)) any k (notify_subscribers f e n ex k)"
  unfolding notify_subscribers_def
  by (rule adds_fold, rule deliver_adds) (auto simp: subscribed_recipients_def split: option.splits)

lemma adds_members: "adds f P Q k k' \<Longrightarrow> members (dk_db k') = members (dk_db k)"
  by (auto simp: adds_def grows_def)

text \<open>What the properties ask of the order of Go's maps and of the parser.\<close>

definition permutes :: "notifier \<Rightarrow> bool" where
  "permutes f \<longleftrightarrow> (\<forall>xs. mset (nf_range f xs) = mset xs)"

lemma permutes_set: "permutes f \<Longrightarrow> set (nf_range f xs) = set xs"
  by (metis permutes_def set_mset_mset)

definition canonical_members :: "notifier \<Rightarrow> desk \<Rightarrow> bool" where
  "canonical_members f k \<longleftrightarrow> (\<forall>x\<in>set (members (dk_db k)). canonical f (uuid_text (mb_user x)))"

definition one_spelling_of :: "notifier \<Rightarrow> string \<Rightarrow> mention list \<Rightarrow> bool" where
  "one_spelling_of f a ms \<longleftrightarrow> (\<forall>m\<in>set ms. one_spelling f a (mn_id m))"

lemma notify_mentioned_adds:
  assumes "permutes f" "canonical_members f k" "one_spelling_of f (ev_actor e) ms"
  shows "adds f (spares (ev_actor e)) any k (notify_mentioned_members f e n ms skip k)"
proof -
  have c: "one_spelling f (ev_actor e) r" if "r \<in> set (nf_range f (mentioned_ids f (dk_db k) e ms))" for r
  proof -
    from that have "r \<in> set (mentioned_ids f (dk_db k) e ms)" by (simp add: permutes_set [OF assms(1)])
    then have "(\<exists>m\<in>set ms. r = mn_id m) \<or> (\<exists>x\<in>set (members (dk_db k)). r = uuid_text (mb_user x))"
      by (cases "nf_uuid f (ev_workspace e)"; cases "has_mention_all ms"; simp add: mentioned_ids_def list_members_def image_iff; blast)
    then show ?thesis using assms(2,3) by (auto simp: canonical_members_def one_spelling_of_def intro: canonical_spelling)
  qed
  show ?thesis unfolding notify_mentioned_members_def
  proof (rule adds_fold)
    fix r k' assume "r \<in> set (nf_range f (mentioned_ids f (dk_db k) e ms))"
    from c [OF this] show "adds f (spares (ev_actor e)) any k'
        ((if r = ev_actor e \<or> r \<in> set skip then id else deliver f e (mentioned_notice e n) ''member'' (nf_uuid f r)) k')"
      by (auto simp: one_spelling_def split: option.splits intro: deliver_adds)
  qed
qed

lemma record_activity_adds: "adds f P any k (record_activity f e i c k)"
proof (cases c)
  case (Pair action details)
  let ?q = "\<lparr>aq_workspace = nf_uuid f (iv_workspace i), aq_issue = nf_uuid f (iv_id i), aq_actor_type = str_to_text (ev_actor_type e),
      aq_actor = nf_uuid f (ev_actor e), aq_action = action, aq_details = json_text (JObj details)\<rparr>"
  show ?thesis unfolding record_activity_def Pair prod.case
    by (rule run_statement_activity_grows [of f k ?q "nf_codec f" e]) (auto intro: addsI growth_adds)
qed

section \<open>Fresh identifiers\<close>

text \<open>The database draws a new identifier in every statement.\<close>

definition fresh :: "notifier \<Rightarrow> desk \<Rightarrow> bool" where
  "fresh f k \<longleftrightarrow> inj (\<lambda>n. e_gen (nf_env f n) 0) \<and>
     (\<forall>n\<ge>dk_clock k. e_gen (nf_env f n) 0 \<notin> ib_id ` set (inbox (dk_db k)) \<union> ac_id ` set (activities (dk_db k)))"

lemma fresh_grows:
  assumes "fresh f k" "grows f k k' xs as"
  shows "fresh f k'"
proof -
  let ?g = "\<lambda>n. e_gen (nf_env f n) 0"
  have inj: "inj ?g" using assms(1) by (simp add: fresh_def)
  have new: "ib_id ` set xs \<union> ac_id ` set as \<subseteq> ?g ` {dk_clock k..<dk_clock k'}" using assms(2) unfolding grows_def by (elim conjE)
  have tabs: "dk_clock k \<le> dk_clock k'" "inbox (dk_db k') = inbox (dk_db k) @ xs" "activities (dk_db k') = activities (dk_db k) @ as"
    using assms(2) by (simp_all add: grows_def)
  have "?g n \<notin> ib_id ` set (inbox (dk_db k')) \<union> ac_id ` set (activities (dk_db k'))" if n: "dk_clock k' \<le> n" for n
  proof -
    have "?g n \<notin> ?g ` {dk_clock k..<dk_clock k'}" using n inj_image_mem_iff [OF inj, of n "{dk_clock k..<dk_clock k'}"] by simp
    moreover have "?g n \<notin> ib_id ` set (inbox (dk_db k)) \<union> ac_id ` set (activities (dk_db k))"
      using assms(1) n tabs(1) by (simp add: fresh_def)
    ultimately show ?thesis using new unfolding tabs by auto
  qed
  with inj show ?thesis by (simp add: fresh_def)
qed

definition known_issue :: "notifier \<Rightarrow> desk \<Rightarrow> string \<Rightarrow> uuid \<Rightarrow> bool" where
  "known_issue f k s i \<longleftrightarrow> nf_uuid f s = Some i \<and> i \<in> is_id ` set (issues (dk_db k))"

lemma known_issue_grows: "known_issue f k s i \<Longrightarrow> grows f k k' xs as \<Longrightarrow> known_issue f k' s i"
  by (simp add: known_issue_def grows_def)

lemma record_activity_ok:
  assumes "fresh f k" "known_issue f k (iv_id i) x" "nf_uuid f (iv_workspace i) = Some ws" "ev_actor_type e \<in> set [''member'', ''agent'']"
  shows "\<exists>a. grows f k (record_activity f e i (action, details) k) [] [a] \<and> ac_workspace a = ws \<and> ac_issue a = Some x \<and>
    ac_action a = action \<and> ac_details a = json_text (JObj details)"
proof -
  let ?q = "\<lparr>aq_workspace = nf_uuid f (iv_workspace i), aq_issue = nf_uuid f (iv_id i), aq_actor_type = str_to_text (ev_actor_type e),
      aq_actor = nf_uuid f (ev_actor e), aq_action = action, aq_details = json_text (JObj details)\<rparr>"
  have "\<exists>r. create_activity ?q (nf_env f (dk_clock k)) (dk_db k) = Inr r"
    using assms by (auto simp: create_activity_def activity_admitted_def known_issue_def fresh_def str_to_text_def Let_def)
  then obtain d a where a: "create_activity ?q (nf_env f (dk_clock k)) (dk_db k) = Inr (d, a)" by auto
  note a' = created_activity [OF a]
  have "grows f k (record_activity f e i (action, details) k) [] [a]"
    unfolding record_activity_def prod.case run_statement_Inr [of "create_activity ?q", OF a]
    using a' by (simp add: grows_def letters_def activity_event_def own_events_def)
  with a' assms(2,3) show ?thesis by (intro exI [of _ a]) (simp add: known_issue_def)
qed

lemma record_activities_ok:
  assumes "fresh f k" "known_issue f k (iv_id i) x" "nf_uuid f (iv_workspace i) = Some ws" "ev_actor_type e \<in> set [''member'', ''agent'']"
  shows "\<exists>as. grows f k (fold (record_activity f e i) cs k) [] as \<and> list_all (\<lambda>a. ac_workspace a = ws \<and> ac_issue a = Some x) as \<and>
    map (\<lambda>a. (ac_action a, ac_details a)) as = map (\<lambda>(action, details). (action, json_text (JObj details))) cs"
  using assms(1,2)
proof (induction cs arbitrary: k)
  case Nil
  show ?case by (intro exI [of _ "[]"]) simp
next
  case (Cons c cs)
  obtain action details where c: "c = (action, details)" by (cases c)
  from record_activity_ok [OF Cons.prems assms(3,4)] obtain a where
    a: "grows f k (record_activity f e i c k) [] [a]" "ac_workspace a = ws \<and> ac_issue a = Some x \<and> ac_action a = action \<and> ac_details a = json_text (JObj details)"
    unfolding c by blast
  from Cons.IH [OF fresh_grows [OF Cons.prems(1) a(1)] known_issue_grows [OF Cons.prems(2) a(1)]] obtain as where
    as: "grows f (record_activity f e i c k) (fold (record_activity f e i) (c # cs) k) [] as" "list_all (\<lambda>a. ac_workspace a = ws \<and> ac_issue a = Some x) as"
      "map (\<lambda>a. (ac_action a, ac_details a)) as = map (\<lambda>(action, details). (action, json_text (JObj details))) cs" by auto
  show ?case using growth_trans [OF a(1) as(1)] a(2) as(2,3) by (intro exI [of _ "a # as"]) (simp add: c)
qed

lemma deliver_ok:
  assumes "fresh f k" "known_issue f k (nt_issue n) i" "nf_uuid f (nt_workspace n) = Some ws" "ty \<in> set [''member'', ''agent'']"
    "nt_severity n \<in> set [''action_required'', ''attention'', ''info'']"
  shows "\<exists>x. grows f k (deliver f e n ty (Some u) k) [x] [] \<and> ib_type x = nt_type n \<and> ib_recipient_type x = ty \<and> ib_recipient x = u"
proof -
  let ?l = "letter_of f e n ty (Some u)"
  have "\<exists>r. create_inbox_item ?l (nf_env f (dk_clock k)) (dk_db k) = Inr r"
    using assms by (auto simp: create_inbox_item_def inbox_admitted_def letter_of_def known_issue_def fresh_def Let_def)
  then obtain d x where x: "create_inbox_item ?l (nf_env f (dk_clock k)) (dk_db k) = Inr (d, x)" by auto
  note x' = created_inbox_item [OF x]
  show ?thesis
  proof (rule deliver_grows [of f k e n ty "Some u"])
    assume "grows f k (deliver f e n ty (Some u) k) [] []"
    then show ?thesis using x' by (simp add: deliver_def run_statement_Inr [of "create_inbox_item ?l", OF x] grows_def)
  qed auto
qed

end
