(* ===== verification/NotifyProps.thy ===== *)
theory NotifyProps
  imports NotifyFacts IssueProps
begin

text \<open>
  Properties of the listeners on the bus of the server, composed with the requests that publish the events and with
  the hub that delivers what the listeners publish.
\<close>

section \<open>The bus\<close>

lemma server_handlers:
  "listeners_of (server_bus f) ty = concat (map (typed_handler ty) (desk_registrations f))" "bus_globals (server_bus f) = []"
proof -
  show "listeners_of (server_bus f) ty = concat (map (typed_handler ty) (desk_registrations f))"
    by (simp add: server_bus_def fold_register_handlers new_bus_handlers)
  show "bus_globals (server_bus f) = []"
    unfolding server_bus_def fold_register_handlers by (simp add: desk_registrations_def new_bus_handlers)
qed

lemma publish_server:
  "publish (server_bus f) e k = fold (call_recovered e) (concat (map (typed_handler (ev_type e)) (desk_registrations f))) k"
  by (simp add: publish_def server_handlers)

lemma call_simps:
  "call_recovered e (with_payload h) k = (case as_object (ev_payload e) of None \<Rightarrow> k | Some m \<Rightarrow> h e m k)"
  "call_recovered e (with_issue h') k =
     (case as_object (ev_payload e) of None \<Rightarrow> k | Some m \<Rightarrow> (case issue_at m of None \<Rightarrow> k | Some i \<Rightarrow> h' e m i k))"
  by (simp_all add: call_recovered_def with_issue_def with_payload_def split: option.split)

section \<open>Nobody is told of what he did himself\<close>

text \<open>The strings of a payload the listeners read as recipients.\<close>

definition named_in :: "event \<Rightarrow> string list" where
  "named_in e =
     (case as_object (ev_payload e) of
        None \<Rightarrow> []
      | Some m \<Rightarrow>
          option_list [pointer_at m ''prev_assignee_id''] @ [string_at m ''creator_id'', string_at m ''comment_author_id''] @
          (case issue_at m of None \<Rightarrow> [] | Some i \<Rightarrow> option_list [iv_assignee i] @ map mn_id (mentions_of (iv_description i))) @
          (case object_at m ''comment'' of None \<Rightarrow> [] | Some c \<Rightarrow> map mn_id (parse_mentions (string_at c ''content''))))"

text \<open>Who did it: the actor of the event, of a failed Work Item its agent.\<close>

definition event_doer :: "event \<Rightarrow> string" where
  "event_doer e =
     (if ev_type e = ''task:failed'' then (case as_object (ev_payload e) of None \<Rightarrow> '''' | Some m \<Rightarrow> string_at m ''agent_id'') else ev_actor e)"

text \<open>None of them is the identifier of the actor in another spelling.\<close>

definition plain_names :: "notifier \<Rightarrow> event \<Rightarrow> bool" where
  "plain_names f e \<longleftrightarrow> (\<forall>s\<in>set (named_in e). one_spelling f (ev_actor e) s)"

lemma no_mentions [simp]: "parse_mentions '''' = []"
  by (simp add: parse_mentions_def find_mentions.simps [of "''''"] match_here_def)

lemma mentions_of_simps [simp]: "mentions_of None = []" "mentions_of (Some s) = parse_mentions s"
  by (simp_all add: mentions_of_def)

lemma newly_mentioned_plain: "one_spelling_of f a (mentions_of (iv_description i)) \<Longrightarrow> one_spelling_of f a (newly_mentioned m i)"
  by (cases "iv_description i") (auto simp: one_spelling_of_def newly_mentioned_def added_mentions_def Let_def split: option.splits if_splits)

lemma plain_issue:
  assumes "plain_names f e" "as_object (ev_payload e) = Some m" "issue_at m = Some i"
  shows "one_spelling_of f (ev_actor e) (mentions_of (iv_description i))" "iv_assignee i = Some u \<Longrightarrow> one_spelling f (ev_actor e) u"
    "pointer_at m ''prev_assignee_id'' = Some v \<Longrightarrow> one_spelling f (ev_actor e) v"
  using assms by (auto simp: plain_names_def named_in_def one_spelling_of_def option_list_def)

lemma plain_payload:
  assumes "plain_names f e" "as_object (ev_payload e) = Some m"
  shows "one_spelling f (ev_actor e) (string_at m ''creator_id'')" "one_spelling f (ev_actor e) (string_at m ''comment_author_id'')"
    "object_at m ''comment'' = Some c \<Longrightarrow> one_spelling_of f (ev_actor e) (parse_mentions (string_at c ''content''))"
  using assms by (auto simp: plain_names_def named_in_def one_spelling_of_def)

abbreviation spared :: "notifier \<Rightarrow> event \<Rightarrow> desk \<Rightarrow> desk \<Rightarrow> bool" where
  "spared f e \<equiv> adds f (spares (ev_actor e)) any"

lemma members_kept: "adds f P Q k k' \<Longrightarrow> canonical_members f k \<Longrightarrow> canonical_members f k'"
  by (simp add: canonical_members_def adds_members)

lemma if_both_adds: "(\<And>s t. x = Some s \<Longrightarrow> y = Some t \<Longrightarrow> adds f P Q k (h s t k)) \<Longrightarrow> adds f P Q k (if_both x y h k)"
  by (simp add: if_both_def split: option.split)

lemma notify_assignee_change_adds:
  assumes "\<And>u. iv_assignee i = Some u \<Longrightarrow> one_spelling f (ev_actor e) u" "\<And>u. pointer_at m ''prev_assignee_id'' = Some u \<Longrightarrow> one_spelling f (ev_actor e) u"
  shows "spared f e k (notify_assignee_change f e m i k)"
proof -
  define n where "n = (\<lambda>ty severity. issue_notice i (ev_workspace e) ty severity
    (present [(''new_assignee_id'', iv_assignee i), (''new_assignee_type'', iv_assignee_type i),
      (''prev_assignee_id'', pointer_at m ''prev_assignee_id''), (''prev_assignee_type'', pointer_at m ''prev_assignee_type'')]))"
  define k1 where "k1 = if_both (iv_assignee_type i) (iv_assignee i) (notify_direct f e (n ''issue_assigned'' ''action_required'')) k"
  define k2 where "k2 = if_both (pointer_at m ''prev_assignee_type'') (pointer_at m ''prev_assignee_id'')
      (\<lambda>ty u. if ty = ''member'' then notify_direct f e (n ''unassigned'' ''info'') ''member'' u else id) k1"
  have "spared f e k k1" unfolding k1_def by (rule if_both_adds) (simp add: assms(1) notify_direct_adds)
  also have "spared f e k1 k2" unfolding k2_def by (rule if_both_adds) (simp add: assms(2) notify_direct_adds)
  also have "spared f e k2 (notify_assignee_change f e m i k)"
    unfolding notify_assignee_change_def Let_def k1_def k2_def n_def by (rule notify_subscribers_adds)
  finally show ?thesis .
qed

lemma if_notify_subscribers_adds: "spared f e k (if b then notify_subscribers f e n ex k else k)"
  by (simp add: notify_subscribers_adds)

lemma updated_notify_adds:
  assumes "permutes f" "canonical_members f k" "one_spelling_of f (ev_actor e) (mentions_of (iv_description i))"
    "\<And>u. iv_assignee i = Some u \<Longrightarrow> one_spelling f (ev_actor e) u" "\<And>u. pointer_at m ''prev_assignee_id'' = Some u \<Longrightarrow> one_spelling f (ev_actor e) u"
    "as_object (ev_payload e) = Some m" "issue_at m = Some i"
  shows "spared f e k (call_recovered e (on_issue_updated_notify f) k)"
proof -
  let ?c = "\<lambda>flag details k. if flag_at m flag then notify_subscribers f e (issue_notice i (ev_workspace e) flag ''info'' details) [] k else k"
  define k1 where "k1 = (if flag_at m ''assignee_changed'' then notify_assignee_change f e m i k else k)"
  define k2 where "k2 = ?c ''status_changed'' (from_to (string_at m ''prev_status'') (iv_status i)) k1"
  define k3 where "k3 = ?c ''priority_changed'' (from_to (string_at m ''prev_priority'') (iv_priority i)) k2"
  define k4 where "k4 = ?c ''due_date_changed'' (from_to (text_of (pointer_at m ''prev_due_date'')) (text_of (iv_due i))) k3"
  have "spared f e k k1" using notify_assignee_change_adds [OF assms(4,5)] by (simp add: k1_def)
  also have "spared f e k1 k2" unfolding k2_def by (rule if_notify_subscribers_adds)
  also have "spared f e k2 k3" unfolding k3_def by (rule if_notify_subscribers_adds)
  also have "spared f e k3 k4" unfolding k4_def by (rule if_notify_subscribers_adds)
  finally have "spared f e k k4" .
  moreover have "call_recovered e (on_issue_updated_notify f) k =
      notify_mentioned_members f e (issue_notice i (ev_workspace e) ''mentioned'' ''info'' []) (newly_mentioned m i) [ev_actor e] k4"
    unfolding on_issue_updated_notify_def call_simps assms(6,7) option.case Let_def k1_def k2_def k3_def k4_def ..
  moreover have "spared f e k4 \<dots>"
    using assms(1) members_kept [OF \<open>spared f e k k4\<close> assms(2)] newly_mentioned_plain [OF assms(3)] by (rule notify_mentioned_adds)
  ultimately show ?thesis using adds_trans by metis
qed

lemma created_notify_adds:
  assumes "permutes f" "canonical_members f k" "plain_names f e"
  shows "spared f e k (call_recovered e (on_issue_created_notify f) k)"
proof -
  have "spared f e k (notify_mentioned_members f e n (mentions_of (iv_description i)) skip (if_both (iv_assignee_type i) (iv_assignee i) (notify_direct f e n) k))"
    if i: "as_object (ev_payload e) = Some m" "issue_at m = Some i" for n m i skip
  proof -
    note plain = plain_issue [OF assms(3) i]
    have direct: "spared f e k (if_both (iv_assignee_type i) (iv_assignee i) (notify_direct f e n) k)"
      by (rule if_both_adds) (simp add: plain(2) notify_direct_adds)
    also have "spared f e \<dots> (notify_mentioned_members f e n (mentions_of (iv_description i)) skip \<dots>)"
      by (rule notify_mentioned_adds [OF assms(1) members_kept [OF direct assms(2)] plain(1)])
    finally show ?thesis .
  qed
  then show ?thesis unfolding on_issue_created_notify_def call_simps Let_def by (auto split: option.split)
qed

lemma comment_notify_adds:
  assumes "permutes f" "canonical_members f k" "plain_names f e"
  shows "spared f e k (call_recovered e (on_comment_created_notify f) k)"
proof -
  have "spared f e k (notify_mentioned_members f e n (parse_mentions (string_at c ''content'')) skip (notify_subscribers f e n [] k))"
    if c: "as_object (ev_payload e) = Some m" "object_at m ''comment'' = Some c" for n m c skip
  proof -
    have subs: "spared f e k (notify_subscribers f e n [] k)" by (rule notify_subscribers_adds)
    also have "spared f e \<dots> (notify_mentioned_members f e n (parse_mentions (string_at c ''content'')) skip \<dots>)"
      by (rule notify_mentioned_adds [OF assms(1) members_kept [OF subs assms(2)] plain_payload(3) [OF assms(3) c]])
    finally show ?thesis .
  qed
  then show ?thesis
    unfolding on_comment_created_notify_def call_recovered_def with_payload_def Let_def by (auto split: option.split)
qed

lemma reaction_notify_adds:
  assumes "plain_names f e"
  shows "spared f e k (call_recovered e (on_issue_reaction_notify f) k)" "spared f e k (call_recovered e (on_reaction_notify f) k)"
  using plain_payload(1,2) [OF assms]
  unfolding on_issue_reaction_notify_def on_reaction_notify_def call_simps by (auto split: option.split intro: notify_direct_adds)

lemma failed_notify_adds:
  assumes "ev_type e = ''task:failed''"
  shows "adds f (spares (event_doer e)) any k (call_recovered e (on_task_failed_notify f) k)"
proof -
  have "adds f (spares a) any k (notify_subscribers f (e\<lparr>ev_actor_type := ''agent'', ev_actor := a\<rparr>) n ex k)" for a n ex
    using notify_subscribers_adds [of f "e\<lparr>ev_actor_type := ''agent'', ev_actor := a\<rparr>"] by simp
  then show ?thesis using assms
    unfolding on_task_failed_notify_def call_recovered_def with_payload_def event_doer_def Let_def
    by (auto split: option.split sum.split)
qed

lemma subscribing_adds:
  "adds f P Q k (call_recovered e (on_issue_created_subscribe f) k)"
  "adds f P Q k (call_recovered e (on_issue_updated_subscribe f) k)"
  "adds f P Q k (call_recovered e (on_comment_created_subscribe f) k)"
proof -
  have chain: "adds f P Q k (subscribe_mentioned f ws x ms (if b then k' else subscribe_assignee f ws i k'))"
    if "adds f P Q k k'" for ws x ms b k' i
    using that adds_trans growth_adds [OF subscribe_assignee_grows] growth_adds [OF subscribe_mentioned_grows] by (metis (full_types))
  have one: "adds f P Q k (add_subscriber f ws x ty u r k)" for ws x ty u r by (rule growth_adds [OF add_subscriber_grows])
  show "adds f P Q k (call_recovered e (on_issue_created_subscribe f) k)"
    unfolding on_issue_created_subscribe_def call_simps Let_def using chain [OF one] by (auto split: option.split)
  show "adds f P Q k (call_recovered e (on_issue_updated_subscribe f) k)"
    unfolding on_issue_updated_subscribe_def call_simps using chain [OF adds_refl, of _ _ _ True] chain [OF adds_refl, of _ _ _ False]
    by (auto split: option.split)
  show "adds f P Q k (call_recovered e (on_comment_created_subscribe f) k)"
    unfolding on_comment_created_subscribe_def call_recovered_def with_payload_def using one by (auto split: option.split)
qed

lemma activity_adds:
  "adds f P any k (call_recovered e (on_issue_created_activity f) k)"
  "adds f P any k (call_recovered e (on_issue_updated_activity f) k)"
  "adds f P any k (call_recovered e (on_task_activity f action) k)"
proof -
  have at: "adds f P any k (run_statement f (create_activity q) (activity_event c e) k)" for q c
    by (rule run_statement_activity_grows [of f k q c e]) (auto intro: addsI growth_adds)
  show "adds f P any k (call_recovered e (on_issue_created_activity f) k)"
    unfolding on_issue_created_activity_def call_simps by (auto split: option.split intro: record_activity_adds)
  show "adds f P any k (call_recovered e (on_issue_updated_activity f) k)"
    unfolding on_issue_updated_activity_def call_simps by (auto split: option.split intro: adds_fold record_activity_adds)
  show "adds f P any k (call_recovered e (on_task_activity f action) k)"
    unfolding on_task_activity_def call_recovered_def with_payload_def using at by (auto split: option.split sum.split)
qed

lemma updated_spared:
  assumes "permutes f" "canonical_members f k" "plain_names f e"
  shows "spared f e k (call_recovered e (on_issue_updated_notify f) k)"
proof (cases "as_object (ev_payload e)")
  case (Some m)
  show ?thesis
  proof (cases "issue_at m")
    case None
    with Some show ?thesis by (simp add: on_issue_updated_notify_def call_simps)
  next
    case i: (Some i)
    from plain_issue [OF assms(3) Some i] show ?thesis by (intro updated_notify_adds [OF assms(1,2) _ _ _ Some i])
  qed
qed (simp add: on_issue_updated_notify_def call_simps)

lemma typed_handlers: "h \<in> set (concat (map (typed_handler ty) rs)) \<longleftrightarrow> On ty h \<in> set rs"
proof (induction rs)
  case (Cons r rs)
  then show ?case by (cases r) auto
qed simp

lemma publish_adds:
  assumes "permutes f" "canonical_members f k" "plain_names f e"
  shows "adds f (spares (event_doer e)) any k (publish (server_bus f) e k)"
proof -
  have step: "adds f (spares (event_doer e)) any k' (call_recovered e h k')"
    if "h \<in> set (concat (map (typed_handler (ev_type e)) (desk_registrations f)))" "canonical_members f k'" for h k'
  proof -
    define ty where "ty = ev_type e"
    have ty: "ev_type e = ty" "On ty h \<in> set (desk_registrations f)"
      using that(1) by (simp_all only: typed_handlers ty_def)
    have own: "adds f (spares (event_doer e)) any k' (call_recovered e h k')"
      if "ev_type e = ty" "ty \<noteq> ''task:failed''" "spared f e k' (call_recovered e h k')" for ty h
      using that by (simp add: event_doer_def)
    from ty(2) consider "ty = ''issue:created'' \<and> h = on_issue_created_subscribe f" | "h = on_issue_updated_subscribe f"
      | "h = on_comment_created_subscribe f" | "h = on_issue_created_activity f" | "h = on_issue_updated_activity f"
      | "h = on_task_activity f ''task_completed''" | "h = on_task_activity f ''task_failed''"
      | "ty = ''issue:created'' \<and> h = on_issue_created_notify f" | "ty = ''issue:updated'' \<and> h = on_issue_updated_notify f"
      | "ty = ''comment:created'' \<and> h = on_comment_created_notify f" | "ty = ''issue_reaction:added'' \<and> h = on_issue_reaction_notify f"
      | "ty = ''reaction:added'' \<and> h = on_reaction_notify f" | "ty = ''task:failed'' \<and> h = on_task_failed_notify f"
      unfolding desk_registrations_def append.simps set_simps insert_iff empty_iff registration.inject by argo
    then show ?thesis
    proof cases
      case 8
      with own [OF ty(1) _ created_notify_adds [OF assms(1) that(2) assms(3)]] show ?thesis by simp
    next
      case 9
      with own [OF ty(1) _ updated_spared [OF assms(1) that(2) assms(3)]] show ?thesis by simp
    next
      case 10
      with own [OF ty(1) _ comment_notify_adds [OF assms(1) that(2) assms(3)]] show ?thesis by simp
    next
      case 11
      with own [OF ty(1) _ reaction_notify_adds(1) [OF assms(3)]] show ?thesis by simp
    next
      case 12
      with own [OF ty(1) _ reaction_notify_adds(2) [OF assms(3)]] show ?thesis by simp
    next
      case 13
      then show ?thesis using failed_notify_adds ty(1) by simp
    qed (simp_all only: subscribing_adds activity_adds)
  qed
  have "adds f (spares (event_doer e)) any k' (fold (call_recovered e) hs k')"
    if "set hs \<subseteq> set (concat (map (typed_handler (ev_type e)) (desk_registrations f)))" "canonical_members f k'" for hs k'
    using that
  proof (induction hs arbitrary: k')
    case (Cons h hs)
    then have h: "adds f (spares (event_doer e)) any k' (call_recovered e h k')" by (intro step) auto
    also have "adds f (spares (event_doer e)) any \<dots> (fold (call_recovered e) hs \<dots>)"
      using Cons members_kept [OF h] by simp
    finally show ?case by simp
  qed simp
  with assms(2) show ?thesis unfolding publish_server by blast
qed

section \<open>What the hub is told\<close>

fun told_by :: "hub_call \<Rightarrow> string list" where
  "told_by (SendToUser u msg ws) = [u]"
| "told_by (BroadcastToWorkspace ws msg) = []"
| "told_by (Broadcast msg) = []"

definition told :: "hub_call list \<Rightarrow> string list" where
  "told calls = concat (map told_by calls)"

definition hub_calls :: "event list \<Rightarrow> hub_call list" where
  "hub_calls evs = fold (publish (register_listeners new_bus)) evs []"

lemma told_publish:
  assumes "ev_type e \<in> set own_events"
  shows "told (publish (register_listeners new_bus) e calls) =
    told calls @ (if ev_type e = ''inbox:new'' \<and> event_recipient e \<noteq> '''' then [event_recipient e] else [])"
proof -
  consider "ev_type e = ''inbox:new''" | "ev_type e \<in> set [''subscriber:added'', ''activity:created'']" using assms by (auto simp: own_events_def)
  then show ?thesis
  proof cases
    case 1
    then show ?thesis
      by (simp add: publish_def hub_handlers call_recovered_def on_any_event_def personal_events_def on_inbox_new_def event_recipient_def
          send_to_recipient_def told_def split: option.split)
  next
    case 2
    then show ?thesis
      by (auto simp: publish_def hub_handlers call_recovered_def on_any_event_def personal_events_def told_def)
  qed
qed

lemma told_events: "ev_type ` set evs \<subseteq> set own_events \<Longrightarrow> told (fold (publish (register_listeners new_bus)) evs calls) =
    told calls @ filter (\<lambda>r. r \<noteq> '''') (letters evs)"
proof (induction evs arbitrary: calls)
  case (Cons e evs)
  then have "ev_type e \<in> set own_events" "ev_type ` set evs \<subseteq> set own_events" by auto
  with Cons.IH [of "publish (register_listeners new_bus) e calls"] show ?case by (simp add: told_publish letters_def)
qed simp

lemma grows_told:
  assumes "grows f k k' xs as"
  obtains evs where "w_bus (dk_world k') = w_bus (dk_world k) @ evs" "told (hub_calls evs) = map (\<lambda>x. uuid_text (ib_recipient x)) xs"
proof -
  obtain evs where evs: "w_bus (dk_world k') = w_bus (dk_world k) @ evs" "ev_type ` set evs \<subseteq> set own_events"
    "letters evs = map (\<lambda>x. uuid_text (ib_recipient x)) xs" using assms unfolding grows_def by blast
  have "filter (\<lambda>r. r \<noteq> '''') (map (\<lambda>x. uuid_text (ib_recipient x)) xs) = map (\<lambda>x. uuid_text (ib_recipient x)) xs"
    by (induction xs) simp_all
  with evs told_events [OF evs(2), of "[]"] show ?thesis by (intro that [of evs]) (simp_all add: hub_calls_def told_def)
qed

text \<open>C34. Whoever does something is not told of it by the inbox: publishing an event on the bus of the server puts new items into
  the inbox, the hub sends exactly one personal message for each of them, to its recipient, and neither goes to the one
  the listeners take for the doer. That is the actor of the event; for \<^verbatim>\<open>task:failed\<close> it is the agent the payload names, not the actor.
  The theorem holds for events that spell the identifier of the actor in one way only (\<open>plain_names\<close>: assignee, creator, comment author,
  mentions) and members whose printed identifiers are read back. The pattern of mentions also admits capital hexadecimal digits, and the
  code compares texts: in that spelling a mention of the actor does reach him (\<open>capital_mention_tells_actor\<close>).\<close>

theorem doer_not_notified:
  assumes "permutes f" "canonical_members f k" "plain_names f e"
  shows "\<exists>xs evs. inbox (dk_db (publish (server_bus f) e k)) = inbox (dk_db k) @ xs \<and>
    w_bus (dk_world (publish (server_bus f) e k)) = w_bus (dk_world k) @ evs \<and>
    told (hub_calls evs) = map (\<lambda>x. uuid_text (ib_recipient x)) xs \<and> event_doer e \<notin> set (told (hub_calls evs))"
proof -
  from publish_adds [OF assms] obtain xs as where
    g: "grows f k (publish (server_bus f) e k) xs as" "list_all (spares (event_doer e)) xs" unfolding adds_def by blast
  obtain evs where "w_bus (dk_world (publish (server_bus f) e k)) = w_bus (dk_world k) @ evs"
    "told (hub_calls evs) = map (\<lambda>x. uuid_text (ib_recipient x)) xs" by (rule grows_told [OF g(1)])
  moreover have "inbox (dk_db (publish (server_bus f) e k)) = inbox (dk_db k) @ xs" using g(1) by (simp add: grows_def)
  ultimately show ?thesis using g(2) by (intro exI [of _ xs] exI [of _ evs]) (auto simp: list_all_iff spares_def)
qed

section \<open>One activity per change\<close>

abbreviation none :: "'a \<Rightarrow> bool" where "none \<equiv> \<lambda>_. False"

lemma deliver_quiet: "adds f any none k (deliver f e n ty u k)"
  by (rule deliver_grows [of f k e n ty u]) (auto intro: addsI growth_adds)

lemma notify_quiet:
  "adds f any none k (notify_direct f e n ty r k)" "adds f any none k (notify_subscribers f e n ex k)"
  "adds f any none k (notify_mentioned_members f e n ms skip k)"
proof -
  show "adds f any none k (notify_direct f e n ty r k)" by (simp add: notify_direct_def deliver_quiet)
  show "adds f any none k (notify_subscribers f e n ex k)" unfolding notify_subscribers_def by (rule adds_fold) (rule deliver_quiet)
  show "adds f any none k (notify_mentioned_members f e n ms skip k)"
    unfolding notify_mentioned_members_def by (rule adds_fold) (simp add: deliver_quiet)
qed

lemma notify_assignee_change_quiet: "adds f any none k (notify_assignee_change f e m i k)"
proof -
  have both: "adds f any none k' (if_both x y (\<lambda>ty u. if b ty then notify_direct f e n (g ty) u else id) k')" for x y b g n k'
    by (rule if_both_adds) (simp add: notify_quiet)
  have direct: "adds f any none k' (if_both x y (notify_direct f e n) k')" for x y n k' by (rule if_both_adds) (rule notify_quiet)
  have pair: "adds f any none k (if_both x' y' (\<lambda>ty u. if b ty then notify_direct f e n (g ty) u else id) (if_both x y (notify_direct f e n') k))"
    for x y x' y' n n' b g using direct both by (rule adds_trans)
  show ?thesis unfolding notify_assignee_change_def Let_def by (rule adds_trans [OF pair notify_quiet(2)])
qed

lemma updated_notify_quiet: "adds f any none k (call_recovered e (on_issue_updated_notify f) k)"
proof -
  have flag: "adds f any none k k' \<Longrightarrow> adds f any none k (if b then notify_subscribers f e n ex k' else k')" for b n ex k'
    using adds_trans [OF _ notify_quiet(2)] by simp
  have assign: "adds f any none k (if b then notify_assignee_change f e m i k else k)" for b m i
    by (simp add: notify_assignee_change_quiet)
  have "adds f any none k (call_recovered e (on_issue_updated_notify f) k)"
    if "as_object (ev_payload e) = Some m" "issue_at m = Some i" for m i
    unfolding on_issue_updated_notify_def call_simps that option.case Let_def
    by (rule adds_trans [OF flag [OF flag [OF flag [OF assign]]] notify_quiet(3)])
  then show ?thesis by (cases "as_object (ev_payload e)"; cases "issue_at (the (as_object (ev_payload e)))")
      (auto simp: on_issue_updated_notify_def call_simps)
qed

lemma list_all_none: "list_all none xs \<longleftrightarrow> xs = []"
  by (cases xs) simp_all

lemma adds_quiet: "adds f any none k k' \<Longrightarrow> \<exists>xs. grows f k k' xs []"
  by (auto simp: adds_def list_all_none)

lemma publish_updated:
  "ev_type e = ''issue:updated'' \<Longrightarrow> publish (server_bus f) e k = call_recovered e (on_issue_updated_notify f)
     (call_recovered e (on_issue_updated_activity f) (call_recovered e (on_issue_updated_subscribe f) k))"
  by (simp add: publish_server desk_registrations_def)

lemma updated_activities:
  assumes "ev_type e = ''issue:updated''" "as_object (ev_payload e) = Some m" "issue_at m = Some i"
    "fresh f k" "known_issue f k (iv_id i) x" "nf_uuid f (iv_workspace i) = Some ws" "ev_actor_type e \<in> set [''member'', ''agent'']"
  shows "\<exists>as. activities (dk_db (publish (server_bus f) e k)) = activities (dk_db k) @ as \<and>
    list_all (\<lambda>a. ac_workspace a = ws \<and> ac_issue a = Some x) as \<and>
    map (\<lambda>a. (ac_action a, ac_details a)) as = map (\<lambda>(action, details). (action, json_text (JObj details))) (change_activities m i)"
proof -
  let ?k1 = "call_recovered e (on_issue_updated_subscribe f) k"
  let ?k2 = "call_recovered e (on_issue_updated_activity f) ?k1"
  have "adds f none none k ?k1" by (rule subscribing_adds)
  then have g1: "grows f k ?k1 [] []" by (auto simp: adds_def list_all_none)
  have k2: "?k2 = fold (record_activity f e i) (change_activities m i) ?k1"
    by (simp add: on_issue_updated_activity_def call_simps(2) assms(2,3))
  from record_activities_ok [OF fresh_grows [OF assms(4) g1] known_issue_grows [OF assms(5) g1] assms(6,7), of "change_activities m i"] obtain as
    where as: "grows f ?k1 ?k2 [] as" "list_all (\<lambda>a. ac_workspace a = ws \<and> ac_issue a = Some x) as"
      "map (\<lambda>a. (ac_action a, ac_details a)) as = map (\<lambda>(action, details). (action, json_text (JObj details))) (change_activities m i)"
    unfolding k2 by blast
  obtain xs where "grows f ?k2 (publish (server_bus f) e k) xs []"
    using adds_quiet [OF updated_notify_quiet] unfolding publish_updated [OF assms(1)] by blast
  from growth_trans [OF growth_trans [OF g1 as(1)] this] have "activities (dk_db (publish (server_bus f) e k)) = activities (dk_db k) @ as"
    by (simp add: grows_def)
  with as(2,3) show ?thesis by blast
qed

text \<open>From here on the event is the one a request to update an issue publishes.\<close>

lemma reassign_bus [simp]: "w_bus (sv_world (reassign p e e' s i)) = w_bus (sv_world s)"
  by (auto simp: reassign_def cancel_issue_tasks_def enqueue_issue_def Let_def split: sum.split)

lemma resolve_actor_type: "fst (resolve_actor p d rq ws) \<in> set [''member'', ''agent'']"
  by (simp add: resolve_actor_def split: sum.split)

definition view_of :: "codec \<Rightarrow> issue_row \<Rightarrow> issue_view" where
  "view_of c i = \<lparr>iv_id = uuid_text (is_id i), iv_workspace = uuid_text (is_workspace i), iv_title = is_title i,
     iv_description = is_description i, iv_status = is_status i, iv_priority = is_priority i, iv_assignee_type = is_assignee_type i,
     iv_assignee = map_option uuid_text (is_assignee i), iv_creator_type = is_creator_type i, iv_creator = uuid_text (is_creator i),
     iv_due = map_option (cd_time c) (is_due i)\<rparr>"

lemma pointer_cases:
  "(case jstr_opt t of JStr s \<Rightarrow> Some s | _ \<Rightarrow> None) = t" "(case uuid_to_ptr u of JStr s \<Rightarrow> Some s | _ \<Rightarrow> None) = map_option uuid_text u"
  "(case time_to_ptr c x of JStr s \<Rightarrow> Some s | _ \<Rightarrow> None) = map_option (cd_time c) x"
  by (simp_all add: jstr_opt_def uuid_to_ptr_def time_to_ptr_def split: option.split)

lemma pointer_at_Some: "map_of m k = Some j \<Longrightarrow> pointer_at m k = (case j of JStr s \<Rightarrow> Some s | _ \<Rightarrow> None)"
  by (simp add: pointer_at_def)

lemma string_at_Some: "map_of m k = Some (JStr s) \<Longrightarrow> string_at m k = s"
  by (simp add: string_at_def)

lemma flag_at_Some: "map_of m k = Some (JBool b) \<Longrightarrow> flag_at m k = b"
  by (simp add: flag_at_def)

lemma issue_of_response: "\<exists>m. issue_to_response c i prefix = JObj m \<and> map fst m = issue_fields \<and> issue_of_object m = view_of c i"
  unfolding issue_to_response_def
  by (intro exI conjI, rule refl, simp add: issue_fields_def)
    (simp add: issue_of_object_def view_of_def pointer_at_def string_at_def pointer_cases)

lemma issue_at_response: "map_of m ''issue'' = Some (issue_to_response c i prefix) \<Longrightarrow> issue_at m = Some (view_of c i)"
  using issue_of_response [of c i prefix] by (auto simp: issue_at_def object_at_def)

text \<open>What differs between two states of an issue, in the order of the log, with the old and the new value. Due dates are compared as
  they are printed.\<close>

definition row_changes :: "codec \<Rightarrow> issue_row \<Rightarrow> issue_row \<Rightarrow> (string \<times> jmap) list" where
  "row_changes c old new = concat
     [if is_status old \<noteq> is_status new then [(''status_changed'', from_to (is_status old) (is_status new))] else [],
      if is_priority old \<noteq> is_priority new then [(''priority_changed'', from_to (is_priority old) (is_priority new))] else [],
      if is_assignee_type old \<noteq> is_assignee_type new \<or> is_assignee old \<noteq> is_assignee new
      then [(''assignee_changed'', present [(''from_id'', map_option uuid_text (is_assignee old)), (''from_type'', is_assignee_type old),
             (''to_id'', map_option uuid_text (is_assignee new)), (''to_type'', is_assignee_type new)])] else [],
      if map_option (cd_time c) (is_due old) \<noteq> map_option (cd_time c) (is_due new)
      then [(''due_date_changed'', from_to (time_to_string c (is_due old)) (time_to_string c (is_due new)))] else [],
      if is_title old \<noteq> is_title new then [(''title_changed'', from_to (is_title old) (is_title new))] else []]"

text \<open>What the log says of an update: those differences, with two exceptions. A change of the assignee is left out when the body names no
  assignee (the nulls that unassign an issue), and there is an entry for the description whenever the body carries one, changed or not.\<close>

definition expected_activities :: "codec \<Rightarrow> issue_update \<Rightarrow> issue_row \<Rightarrow> issue_row \<Rightarrow> (string \<times> jmap) list" where
  "expected_activities c u old new =
     filter (\<lambda>(action, details). action = ''assignee_changed'' \<longrightarrow> names_assignee u) (row_changes c old new) @
     (if up_description u \<noteq> None then [(''description_updated'', [])] else [])"

text \<open>The flags of the handler against the rows.\<close>

lemma due_date_changed_iff: "due_date_changed c old new \<longleftrightarrow> map_option (cd_time c) (is_due old) \<noteq> map_option (cd_time c) (is_due new)"
  by (auto simp: due_date_changed_def same_ptr_def time_to_ptr_def Let_def split: option.splits)

lemma flags_of_update:
  assumes "update_params p old u = Some q" "new = updated_issue e q old"
  shows "status_changed u old new \<longleftrightarrow> is_status old \<noteq> is_status new" "priority_changed u old new \<longleftrightarrow> is_priority old \<noteq> is_priority new"
    "up_title u \<noteq> None \<and> is_title old \<noteq> is_title new \<longleftrightarrow> is_title old \<noteq> is_title new"
    "description_changed u old new \<longleftrightarrow> up_description u \<noteq> None" "is_description old \<noteq> is_description new \<Longrightarrow> up_description u \<noteq> None"
proof -
  have q: "iq_title q = up_title u" "iq_description q = up_description u" "iq_status q = up_status u" "iq_priority q = up_priority u"
    using assms(1) by (auto simp: update_params_def split: option.splits)
  show "status_changed u old new \<longleftrightarrow> is_status old \<noteq> is_status new" "priority_changed u old new \<longleftrightarrow> is_priority old \<noteq> is_priority new"
    "up_title u \<noteq> None \<and> is_title old \<noteq> is_title new \<longleftrightarrow> is_title old \<noteq> is_title new"
    "description_changed u old new \<longleftrightarrow> up_description u \<noteq> None" "is_description old \<noteq> is_description new \<Longrightarrow> up_description u \<noteq> None"
    using q by (auto simp: assms(2) updated_issue_def status_changed_def priority_changed_def description_changed_def same_ptr_def jstr_opt_def
      or_else_def split: option.splits if_splits)
qed

lemma flagged_activities:
  assumes "update_params p old u = Some q" "new = updated_issue e q old" "issue_admitted d old" "issue_admitted d' new"
    "sized (is_assignee old)" "sized (is_assignee new)"
  shows "concat
     [if status_changed u old new then [(''status_changed'', from_to (is_status old) (is_status new))] else [],
      if priority_changed u old new then [(''priority_changed'', from_to (is_priority old) (is_priority new))] else [],
      if assignee_changed u old new
      then [(''assignee_changed'', present [(''from_id'', map_option uuid_text (is_assignee old)), (''from_type'', is_assignee_type old),
             (''to_id'', map_option uuid_text (is_assignee new)), (''to_type'', is_assignee_type new)])] else [],
      if due_date_changed c old new then [(''due_date_changed'', from_to (time_to_string c (is_due old)) (time_to_string c (is_due new)))] else [],
      if up_title u \<noteq> None \<and> is_title old \<noteq> is_title new then [(''title_changed'', from_to (is_title old) (is_title new))] else [],
      if description_changed u old new then [(''description_updated'', [])] else []] = expected_activities c u old new"
  unfolding flags_of_update [OF assms(1,2)] due_date_changed_iff assignee_changed_iff [OF assms(3-6)]
  by (auto simp: expected_activities_def row_changes_def same_assignee_def)

lemma change_activities_of_update:
  assumes "update_params p old u = Some q" "new = updated_issue e q old" "issue_admitted d old" "issue_admitted d' new"
    "sized (is_assignee old)" "sized (is_assignee new)"
  shows "change_activities (update_payload c u old new prefix @ update_details c u old new) (view_of c new) = expected_activities c u old new"
proof -
  let ?m = "update_payload c u old new prefix @ update_details c u old new"
  have flags: "flag_at ?m ''status_changed'' = status_changed u old new" "flag_at ?m ''priority_changed'' = priority_changed u old new"
    "flag_at ?m ''assignee_changed'' = assignee_changed u old new" "flag_at ?m ''due_date_changed'' = due_date_changed c old new"
    "flag_at ?m ''title_changed'' = (up_title u \<noteq> None \<and> is_title old \<noteq> is_title new)"
    "flag_at ?m ''description_changed'' = description_changed u old new"
    by (rule flag_at_Some, simp add: update_payload_def update_details_def)+
  have texts: "string_at ?m ''prev_status'' = is_status old" "string_at ?m ''prev_priority'' = is_priority old"
    "string_at ?m ''prev_title'' = is_title old"
    by (rule string_at_Some, simp add: update_payload_def update_details_def)+
  have ptrs: "pointer_at ?m ''prev_assignee_id'' = map_option uuid_text (is_assignee old)" "pointer_at ?m ''prev_assignee_type'' = is_assignee_type old"
    "pointer_at ?m ''prev_due_date'' = map_option (cd_time c) (is_due old)"
    by (simp_all add: pointer_at_def update_payload_def update_details_def pointer_cases)
  have time: "text_of (map_option (cd_time c) x) = time_to_string c x" for x
    by (simp add: text_of_def or_else_def time_to_string_def split: option.split)
  show ?thesis unfolding change_activities_def flags texts ptrs flagged_activities [OF assms, symmetric] by (simp add: view_of_def time)
qed

lemma update_issue_rows:
  assumes "update_issue p es s rq ident (Some u) = (s', Inr new)" "load_issue_for_user p (sv_db s) rq ident = Inr old"
    "distinct (map is_id (issues (sv_db s)))"
  obtains q where "update_params p old u = Some q" "new = updated_issue (es 0) q old" "issue_admitted (sv_db s) new"
proof -
  from assms(1,2) obtain q ws where q: "update_params p old u = Some q" and up: "apply_update p es s rq ws True old u q = (s', Inr new)"
    by (auto simp: update_issue_def Let_def split: option.splits if_splits prod.splits sum.splits)
  from up show ?thesis
  proof (rule apply_update_Inr)
    fix x
    assume x: "x \<in> set (issues (sv_db s))" "is_id x = is_id old" "new = updated_issue (es 0) q x" "issue_admitted (sv_db s) new"
    have "x = old" using x(1,2) load_issue_Inr [OF assms(2)] assms(3) distinct_key_eq [of is_id "issues (sv_db s)" x old] by simp
    with x q show ?thesis by (intro that) simp_all
  qed
qed

text \<open>C35. What an update changes is recorded exactly once: a successful request to update an issue publishes one event, and on a desk
  that knows the issue and draws fresh identifiers that event adds to the activity log exactly one entry for each of status,
  priority, assignee, due date (as printed) and title that differs between the stored row before and after, in this order and with
  the old and the new value, and no other entry, with two exceptions of the code: the nulls that take the assignee away
  are not recorded (an entry for the assignee needs a body that names one), and a description that is sent is recorded without its
  texts, also when it is the old one; a description that differs always is.\<close>

theorem changes_recorded_once:
  assumes "update_issue p es s rq ident (Some u) = (s', Inr new)" "load_issue_for_user p (sv_db s) rq ident = Inr old"
    "distinct (map is_id (issues (sv_db s)))" "issue_admitted (sv_db s) old" "sized (is_assignee old)" "sized (is_assignee new)"
    "nf_codec f = api_codec p" "fresh f k" "known_issue f k (uuid_text (is_id new)) (is_id new)"
    "nf_uuid f (uuid_text (is_workspace new)) = Some (is_workspace new)"
  shows "(\<exists>e as. w_bus (sv_world s') = w_bus (sv_world s) @ [e] \<and>
    activities (dk_db (publish (server_bus f) e k)) = activities (dk_db k) @ as \<and>
    list_all (\<lambda>a. ac_workspace a = is_workspace new \<and> ac_issue a = Some (is_id new)) as \<and>
    map (\<lambda>a. (ac_action a, ac_details a)) as =
      map (\<lambda>(action, details). (action, json_text (JObj details)))
        (filter (\<lambda>(action, details). action = ''assignee_changed'' \<longrightarrow> names_assignee u) (row_changes (api_codec p) old new) @
         (if up_description u \<noteq> None then [(''description_updated'', [])] else []))) \<and>
    (is_description old \<noteq> is_description new \<longrightarrow> up_description u \<noteq> None)"
proof -
  let ?m = "\<lambda>prefix. update_payload (api_codec p) u old new prefix @ update_details (api_codec p) u old new"
  obtain q where q: "update_params p old u = Some q" "new = updated_issue (es 0) q old" "issue_admitted (sv_db s) new"
    by (rule update_issue_rows [OF assms(1-3)])
  note acts = change_activities_of_update [OF q(1,2) assms(4) q(3) assms(5,6)]
  obtain prefix ws d where e: "w_bus (sv_world s') =
      w_bus (sv_world s) @ [issue_event ''issue:updated'' ws (resolve_actor p d rq ws) (JObj (?m prefix))]"
    using assms(1) by (auto simp: update_issue_def assms(2) apply_update_def Let_def split: option.splits if_splits sum.splits prod.splits)
  let ?e = "issue_event ''issue:updated'' ws (resolve_actor p d rq ws) (JObj (?m prefix))"
  have "issue_at (?m prefix) = Some (view_of (api_codec p) new)" by (rule issue_at_response) (simp add: update_payload_def)
  then have "\<exists>as. activities (dk_db (publish (server_bus f) ?e k)) = activities (dk_db k) @ as \<and>
    list_all (\<lambda>a. ac_workspace a = is_workspace new \<and> ac_issue a = Some (is_id new)) as \<and>
    map (\<lambda>a. (ac_action a, ac_details a)) as =
      map (\<lambda>(action, details). (action, json_text (JObj details))) (change_activities (?m prefix) (view_of (api_codec p) new))"
    using assms(7-10) resolve_actor_type [of p d rq ws] by (intro updated_activities) (simp_all add: issue_event_def view_of_def)
  with e flags_of_update(5) [OF q(1,2)] show ?thesis unfolding acts expected_activities_def by blast
qed

section \<open>Witnesses\<close>

definition demo_notifier :: notifier where
  "demo_notifier = \<lparr>nf_uuid = demo_read_uuid, nf_codec = demo_codec, nf_env = demo_env, nf_range = rev\<rparr>"

text \<open>Members 7 and 8 of workspace 1 are subscribed to issue 30.\<close>

definition demo_desk :: desk where
  "demo_desk = \<lparr>dk_world = \<lparr>w_db = demo0\<lparr>
       subscribers := map (\<lambda>u. \<lparr>sb_issue = 30, sb_user_type = ''member'', sb_user = u, sb_reason = ''manual'', sb_created_at = 0\<rparr>) [7, 8],
       members := map (\<lambda>u. \<lparr>mb_workspace = 1, mb_user = u, mb_role = ''member''\<rparr>) [7, 8]\<rparr>, w_bus = []\<rparr>, dk_clock = 5\<rparr>"

lemma demo_fresh: "fresh demo_notifier demo_desk"
  by (simp add: fresh_def inj_def demo_notifier_def demo_env_def demo_desk_def demo0_def)

lemma demo_permutes: "permutes demo_notifier"
  by (simp add: permutes_def demo_notifier_def)

lemma demo_canonical: "u < 2 ^ 128 \<Longrightarrow> canonical demo_notifier (uuid_text u)"
  by (simp add: canonical_def demo_notifier_def demo_read_uuid)

lemma demo_empty: "canonical demo_notifier ''''"
  by (simp add: canonical_def demo_notifier_def demo_read_uuid_def)

lemma demo_known: "known_issue demo_notifier demo_desk (uuid_text 30) 30"
  by (simp add: known_issue_def demo_notifier_def demo_read_uuid demo_desk_def demo0_def demo_issue_def)

definition demo_status_event :: event where
  "demo_status_event = issue_event ''issue:updated'' (uuid_text 1) (''member'', uuid_text 7)
     (JObj [(''issue'', issue_to_response demo_codec (demo_issue 30) ''ACM''), (''status_changed'', JBool True)])"

lemma doer_not_notified_witness:
  "\<exists>xs evs. inbox (dk_db (publish (server_bus demo_notifier) demo_status_event demo_desk)) = xs \<and>
     told (hub_calls evs) = map (\<lambda>x. uuid_text (ib_recipient x)) xs \<and> uuid_text 7 \<notin> set (told (hub_calls evs))"
proof -
  have "canonical_members demo_notifier demo_desk"
    by (simp add: canonical_members_def demo_desk_def demo_canonical)
  moreover have "plain_names demo_notifier demo_status_event"
    by (simp add: plain_names_def named_in_def demo_status_event_def issue_event_def issue_at_response [of _ demo_codec "demo_issue 30" "''ACM''"]
      pointer_at_def string_at_def object_at_def option_list_def view_of_def demo_issue_def demo_canonical demo_empty canonical_spelling)
  moreover have "event_doer demo_status_event = uuid_text 7" "inbox (dk_db demo_desk) = []"
    by (simp_all add: event_doer_def demo_status_event_def issue_event_def demo_desk_def demo0_def)
  ultimately show ?thesis using doer_not_notified [OF demo_permutes] by (metis append_Nil)
qed

definition demo_retitle :: issue_update where
  "demo_retitle = no_change\<lparr>up_title := Some ''new'', up_status := Some ''in_review''\<rparr>"

lemma changes_recorded_once_witness:
  "\<exists>e as. activities (dk_db (publish (server_bus demo_notifier) e demo_desk)) = as \<and>
     map (\<lambda>a. (ac_action a, ac_issue a)) as = [(''status_changed'', Some 30), (''title_changed'', Some 30)]"
proof -
  let ?q = "\<lparr>iq_title = Some ''new'', iq_description = None, iq_status = Some ''in_review'', iq_priority = None,
      iq_assignee_type = is_assignee_type (demo_issue 30), iq_assignee = is_assignee (demo_issue 30), iq_due = is_due (demo_issue 30)\<rparr>"
  let ?i = "updated_issue (demo_env 0) ?q (demo_issue 30)"
  have q: "update_params demo_api (demo_issue 30) demo_retitle = Some ?q"
    by (simp add: update_params_def demo_retitle_def no_change_def or_else_def bind_text_def demo_api_def demo_read_uuid demo_issue_def)
  have row: "update_issue_row (demo_env 0) (sv_db demo_server) (is_id (demo_issue 30)) ?q =
      Inr ((sv_db demo_server)\<lparr>issues := upd_where (\<lambda>x. is_id x = 30) (updated_issue (demo_env 0) ?q) (issues demo0)\<rparr>, ?i)"
    by (simp add: update_issue_row_def or_fail_def select_one_def demo_server_def demo0_def demo_issue_def issue_admitted_def updated_issue_def
      or_else_def issue_statuses_def issue_priorities_def)
  have may: "may_assign demo_api demo_server demo_request ws (field_ptr (up_assignee_type demo_retitle)) (field_ptr (up_assignee demo_retitle)) = (True, '''')" for ws
    by (simp add: may_assign_def demo_retitle_def no_change_def field_ptr_def or_else_def)
  obtain s' where ok: "update_issue demo_api demo_env demo_server demo_request (uuid_text 30) (Some demo_retitle) = (s', Inr ?i)"
    unfolding update_issue_def by (simp add: demo_load q may apply_update_def row Let_def)
  have i: "is_id ?i = 30" "is_workspace ?i = 1" by (simp_all add: updated_issue_def demo_issue_def)
  have sz: "sized (is_assignee (demo_issue 30))" "sized (is_assignee ?i)" by (simp_all add: sized_def updated_issue_def demo_issue_def)
  have rows: "distinct (map is_id (issues (sv_db demo_server)))" "issue_admitted (sv_db demo_server) (demo_issue 30)"
    by (simp_all add: demo_server_def demo0_def issue_admitted_def demo_issue_def issue_statuses_def issue_priorities_def)
  have "\<exists>e as. w_bus (sv_world s') = w_bus (sv_world demo_server) @ [e] \<and>
    activities (dk_db (publish (server_bus demo_notifier) e demo_desk)) = activities (dk_db demo_desk) @ as \<and>
    list_all (\<lambda>a. ac_workspace a = is_workspace ?i \<and> ac_issue a = Some (is_id ?i)) as \<and>
    map (\<lambda>a. (ac_action a, ac_details a)) as =
      map (\<lambda>(action, details). (action, json_text (JObj details))) (expected_activities (api_codec demo_api) demo_retitle (demo_issue 30) ?i)"
    unfolding expected_activities_def
    by (rule conjunct1 [OF changes_recorded_once [OF ok demo_load rows(1,2) sz _ demo_fresh]])
      (simp_all only: i demo_known, simp_all add: demo_notifier_def demo_api_def demo_read_uuid)
  then obtain e as where as: "activities (dk_db (publish (server_bus demo_notifier) e demo_desk)) = activities (dk_db demo_desk) @ as"
    "list_all (\<lambda>a. ac_issue a = Some 30) as"
    "map (\<lambda>a. (ac_action a, ac_details a)) as =
      map (\<lambda>(action, details). (action, json_text (JObj details))) (expected_activities (api_codec demo_api) demo_retitle (demo_issue 30) ?i)"
    unfolding i by (auto simp: list_all_iff)
  have "map ac_action as = map fst (expected_activities (api_codec demo_api) demo_retitle (demo_issue 30) ?i)"
    using arg_cong [OF as(3), of "map fst"] by (simp add: comp_def split_beta)
  also have "\<dots> = [''status_changed'', ''title_changed'']"
    by (simp add: expected_activities_def row_changes_def demo_retitle_def no_change_def updated_issue_def or_else_def demo_issue_def)
  finally have acts: "map ac_action as = [''status_changed'', ''title_changed'']" .
  have "map (\<lambda>a. (ac_action a, ac_issue a)) as = map (\<lambda>a. (ac_action a, Some 30)) as" using as(2) by (simp add: list_all_iff)
  also have "\<dots> = map (\<lambda>x. (x, Some 30)) (map ac_action as)" by (simp add: comp_def)
  finally have "map (\<lambda>a. (ac_action a, ac_issue a)) as = [(''status_changed'', Some 30), (''title_changed'', Some 30)]" by (simp add: acts)
  moreover have "activities (dk_db demo_desk) = []" by (simp add: demo_desk_def demo0_def)
  ultimately show ?thesis using as(1) by (intro exI [of _ e] exI [of _ as]) simp
qed

end
