(* ===== verification/NotifyComments.thy ===== *)
theory NotifyComments
  imports NotifyProps
begin

text \<open>
  Who is told of a comment: the composition of the request that creates it with the listeners of its event.
\<close>

section \<open>Subscribers\<close>

lemma mset_sort_by [simp]: "mset (sort_by b rs) = mset rs"
proof -
  have "mset (insert_by b r ss) = add_mset r (mset ss)" for r ss by (induction ss) auto
  then show ?thesis by (induction rs) (simp_all add: sort_by_def)
qed

definition others :: "string \<Rightarrow> db \<Rightarrow> uuid \<Rightarrow> uuid multiset" where
  "others a d i = mset (filter (\<lambda>u. uuid_text u \<noteq> a) (member_subscribers d i))"

lemma others_rows: "others a d i =
    {#sb_user s. s \<in># {#s \<in># mset (subscribers d). sb_issue s = i \<and> sb_user_type s = ''member'' \<and> uuid_text (sb_user s) \<noteq> a#}#}"
proof -
  let ?P = "\<lambda>s. sb_issue s = i" and ?Q = "\<lambda>s. sb_user_type s = ''member''" and ?R = "\<lambda>s. uuid_text (sb_user s) \<noteq> a"
  have "others a d i = image_mset sb_user (filter_mset ?R (filter_mset ?Q (mset (list_issue_subscribers d i))))"
    by (simp add: others_def member_subscribers_def filter_map comp_def filter_filter_mset)
  also have "mset (list_issue_subscribers d i) = filter_mset ?P (mset (subscribers d))" by (simp add: list_issue_subscribers_def)
  finally show ?thesis by (simp add: filter_filter_mset conj_commute conj_left_commute)
qed

text \<open>Subscribing the one who is left out anyway changes nothing for the others.\<close>

lemma others_after_subscription:
  assumes "canonical f a"
  shows "others a (dk_db (add_subscriber f ws s ty a reason k)) i = others a (dk_db k) i"
proof (cases "subscribe_statement f s ty a reason (nf_env f (dk_clock k)) (dk_db k)")
  case (Inl err)
  then show ?thesis by (simp add: add_subscriber_def run_statement_Inl)
next
  case (Inr r)
  then obtain d where d: "subscribe_statement f s ty a reason (nf_env f (dk_clock k)) (dk_db k) = Inr (d, ())" by (cases r) simp
  from d assms have "subscribers d = subscribers (dk_db k) \<or> (\<exists>x. subscribers d = subscribers (dk_db k) @ [x] \<and> uuid_text (sb_user x) = a)"
    by (auto simp: subscribe_statement_def add_issue_subscriber_def canonical_def res_simps split: option.splits if_splits)
  then show ?thesis
    by (auto simp: others_rows add_subscriber_def run_statement_Inr [of "subscribe_statement f s ty a reason", OF d])
qed

section \<open>Exact deliveries\<close>

definition kinds :: "inbox_row list \<Rightarrow> (string \<times> uuid) multiset" where
  "kinds xs = mset (map (\<lambda>x. (ib_type x, ib_recipient x)) xs)"

lemma kinds_simps [simp]: "kinds [] = {#}" "kinds (xs @ ys) = kinds xs + kinds ys"
  by (simp_all add: kinds_def)

definition proper_notice :: "notifier \<Rightarrow> notice \<Rightarrow> bool" where
  "proper_notice f n \<longleftrightarrow> nf_uuid f (nt_workspace n) \<noteq> None \<and> nt_severity n \<in> set [''action_required'', ''attention'', ''info'']"

lemma deliver_exact:
  assumes "fresh f k" "known_issue f k (nt_issue n) i" "proper_notice f n"
  shows "\<exists>xs. grows f k (deliver f e n ''member'' u k) xs [] \<and> kinds xs = (case u of None \<Rightarrow> {#} | Some v \<Rightarrow> {#(nt_type n, v)#})"
proof (cases u)
  case None
  then show ?thesis by (intro exI [of _ "[]"]) (rule deliver_grows [of f k e n "''member''" u]; simp)
next
  case (Some v)
  from assms(3) obtain ws where "nf_uuid f (nt_workspace n) = Some ws" by (auto simp: proper_notice_def)
  from deliver_ok [OF assms(1,2) this, of "''member''" e v] assms(3) obtain x where
    "grows f k (deliver f e n ''member'' (Some v) k) [x] []" "ib_type x = nt_type n" "ib_recipient x = v" by (auto simp: proper_notice_def)
  then show ?thesis by (intro exI [of _ "[x]"]) (simp add: Some kinds_def)
qed

text \<open>A loop over recipients, some of which may be passed over or unreadable.\<close>

definition reached :: "('a \<Rightarrow> uuid option) \<Rightarrow> 'a list \<Rightarrow> uuid multiset" where
  "reached g rs = mset (List.map_filter g rs)"

lemma reached_simps [simp]:
  "reached g [] = {#}" "reached g (r # rs) = (case g r of None \<Rightarrow> {#} | Some u \<Rightarrow> {#u#}) + reached g rs"
  by (simp_all add: reached_def map_filter_def split: option.split)

lemma reached_perm: "mset rs = mset ss \<Longrightarrow> reached g rs = reached g ss"
  by (simp add: reached_def map_filter_def)

lemma deliver_each_exact:
  assumes "fresh f k" "known_issue f k (nt_issue n) i" "proper_notice f n"
  shows "\<exists>xs. grows f k (fold (\<lambda>r. if skip r then id else deliver f e n ''member'' (g r)) rs k) xs [] \<and>
    kinds xs = image_mset (Pair (nt_type n)) (reached (\<lambda>r. if skip r then None else g r) rs)"
  using assms(1,2)
proof (induction rs arbitrary: k)
  case Nil
  show ?case by (intro exI [of _ "[]"]) simp
next
  case (Cons r rs)
  let ?k1 = "(if skip r then id else deliver f e n ''member'' (g r)) k"
  obtain ys where ys: "grows f k ?k1 ys []"
    "kinds ys = image_mset (Pair (nt_type n)) (case if skip r then None else g r of None \<Rightarrow> {#} | Some u \<Rightarrow> {#u#})"
  proof (cases "skip r")
    case True
    then show ?thesis using that [of "[]"] by simp
  next
    case False
    with deliver_exact [OF Cons.prems assms(3), of e "g r"] that show ?thesis by (auto split: option.splits)
  qed
  from Cons.IH [OF fresh_grows [OF Cons.prems(1) ys(1)] known_issue_grows [OF Cons.prems(2) ys(1)]] obtain xs where
    xs: "grows f ?k1 (fold (\<lambda>r. if skip r then id else deliver f e n ''member'' (g r)) rs ?k1) xs []"
    "kinds xs = image_mset (Pair (nt_type n)) (reached (\<lambda>r. if skip r then None else g r) rs)" by blast
  show ?case using growth_trans [OF ys(1) xs(1)] ys(2) xs(2) by (intro exI [of _ "ys @ xs"]) simp
qed

lemma notify_subscribers_exact:
  assumes "fresh f k" "known_issue f k (nt_issue n) i" "proper_notice f n"
  shows "\<exists>xs. grows f k (notify_subscribers f e n [] k) xs [] \<and> kinds xs = image_mset (Pair (nt_type n)) (others (ev_actor e) (dk_db k) i)"
proof -
  let ?us = "filter (\<lambda>u. uuid_text u \<noteq> ev_actor e) (member_subscribers (dk_db k) i)"
  have "reached Some us = mset us" for us by (induction us) simp_all
  with deliver_each_exact [OF assms, of "\<lambda>_. False" e Some ?us] show ?thesis
    using assms(2) by (simp add: notify_subscribers_def subscribed_recipients_def known_issue_def others_def)
qed

lemma notify_mentioned_exact:
  assumes "fresh f k" "known_issue f k (nt_issue n) i" "permutes f" "nf_uuid f (ev_workspace e) \<noteq> None"
  shows "\<exists>xs. grows f k (notify_mentioned_members f e n ms [ev_actor e] k) xs [] \<and>
    kinds xs = image_mset (Pair ''mentioned'')
      (reached (\<lambda>r. if r = ev_actor e then None else nf_uuid f r) (mentioned_ids f (dk_db k) e ms))"
proof -
  have n: "known_issue f k (nt_issue (mentioned_notice e n)) i" "proper_notice f (mentioned_notice e n)"
    using assms(2,4) by (simp_all add: mentioned_notice_def proper_notice_def)
  have "reached g (nf_range f rs) = reached g rs" for g rs using assms(3) by (intro reached_perm) (simp add: permutes_def)
  with deliver_each_exact [OF assms(1) n, of "\<lambda>r. r = ev_actor e" e "nf_uuid f" "nf_range f (mentioned_ids f (dk_db k) e ms)"]
  show ?thesis by (simp add: notify_mentioned_members_def mentioned_notice_def)
qed

section \<open>A comment\<close>

lemma publish_comment:
  "ev_type e = ''comment:created'' \<Longrightarrow> publish (server_bus f) e k =
     call_recovered e (on_comment_created_notify f) (call_recovered e (on_comment_created_subscribe f) k)"
  by (simp add: publish_server desk_registrations_def)

lemma enqueue_mentioned_bus [simp]: "w_bus (sv_world (enqueue_mentioned p es s i r a ms)) = w_bus (sv_world s)"
proof (induction ms arbitrary: es s)
  case (Cons m ms)
  then show ?case by (auto split: sum.split)
qed simp

lemma enqueue_issue_bus [simp]: "w_bus (sv_world (enqueue_issue e s i t)) = w_bus (sv_world s)"
  by (auto simp: enqueue_issue_def split: sum.split)

text \<open>The payload of the event, as the request prints it.\<close>

definition comment_payload :: "codec \<Rightarrow> issue_row \<Rightarrow> comment_row \<Rightarrow> jmap" where
  "comment_payload cd i c = [(''comment'', comment_to_response cd c), (''issue_title'', JStr (is_title i)),
     (''issue_assignee_type'', jstr_opt (is_assignee_type i)), (''issue_assignee_id'', uuid_to_ptr (is_assignee i)),
     (''issue_status'', JStr (is_status i))]"

lemma create_comment_event:
  assumes "create_comment p expand es s rq ident (Some b) = (s', Inr c)"
  obtains i author where "w_bus (sv_world s') = w_bus (sv_world s) @
      [issue_event ''comment:created'' (uuid_text (cm_workspace c)) author (JObj (comment_payload (api_codec p) i c))]"
    "snd author \<in> {rq_user rq, rq_agent rq}" "cm_author_type c = fst author" "api_uuid p (snd author) = Some (cm_author c)"
    "cm_issue c = is_id i"
proof -
  obtain i where i: "load_issue_for_user p (sv_db s) rq ident = Inr i"
    using assms by (auto simp: create_comment_def split: sum.splits)
  let ?author = "resolve_actor p (sv_db s) rq (uuid_text (is_workspace i))"
  have "snd ?author \<in> {rq_user rq, rq_agent rq}" by (simp add: resolve_actor_def split: sum.split)
  moreover have "w_bus (sv_world s') = w_bus (sv_world s) @
      [issue_event ''comment:created'' (uuid_text (cm_workspace c)) ?author (JObj (comment_payload (api_codec p) i c))] \<and>
    cm_author_type c = fst ?author \<and> api_uuid p (snd ?author) = Some (cm_author c) \<and> cm_issue c = is_id i" (is ?result)
  proof -
    from assms obtain parent content d a where a: "api_uuid p (snd ?author) = Some a"
      and row: "create_comment_row (sv_db s) (new_comment_of (es 0) i (fst ?author, a) content b parent) = Inr (d, c)"
      and bus: "w_bus (sv_world s') = w_bus (sv_world s) @
        [issue_event ''comment:created'' (uuid_text (is_workspace i)) ?author (JObj (comment_payload (api_codec p) i c))]"
      unfolding create_comment_def i comment_payload_def enqueue_mentioned_agent_tasks_def Let_def
      by (simp split: option.splits if_splits sum.splits prod.splits) (blast | auto)+
    from row have "c = new_comment_of (es 0) i (fst ?author, a) content b parent" by (auto simp: create_comment_row_def res_simps)
    with a bus show ?result by (simp add: new_comment_of_def)
  qed
  ultimately show ?thesis using that by blast
qed

lemma comment_object: "\<exists>x. object_at (comment_payload cd i c) ''comment'' = Some x \<and> string_at x ''id'' = uuid_text (cm_id c) \<and>
    string_at x ''issue_id'' = uuid_text (cm_issue c) \<and> string_at x ''author_type'' = cm_author_type c \<and>
    string_at x ''author_id'' = uuid_text (cm_author c) \<and> string_at x ''content'' = cm_content c"
  by (simp add: object_at_def comment_payload_def comment_to_response_def string_at_def)

text \<open>C36. A comment reaches everybody it concerns and nobody else: a successful request to create one publishes one event,
  which puts exactly these items into the inbox, provided the desk knows the issue and draws fresh identifiers: a
  \<open>new_comment\<close> for each member who had subscribed to the issue and a \<open>mentioned\<close> for each member mentioned
  (everybody of the workspace with @all) whose identifier can be read, in both cases except the author. So a
  subscriber who is mentioned gets two items.\<close>

theorem comment_reaches_exactly:
  assumes "create_comment p expand es s rq ident (Some b) = (s', Inr c)"
    "nf_uuid f = api_uuid p" "canonical f (rq_user rq)" "canonical f (rq_agent rq)" "permutes f" "fresh f k"
    "known_issue f k (uuid_text (cm_issue c)) (cm_issue c)" "nf_uuid f (uuid_text (cm_workspace c)) \<noteq> None"
  shows "\<exists>e xs. w_bus (sv_world s') = w_bus (sv_world s) @ [e] \<and> ev_actor e = uuid_text (cm_author c) \<and>
    inbox (dk_db (publish (server_bus f) e k)) = inbox (dk_db k) @ xs \<and>
    kinds xs = image_mset (Pair ''new_comment'') (others (uuid_text (cm_author c)) (dk_db k) (cm_issue c)) +
      image_mset (Pair ''mentioned'') (reached (\<lambda>r. if r = uuid_text (cm_author c) then None else nf_uuid f r)
        (mentioned_ids f (dk_db k) e (parse_mentions (cm_content c))))"
proof -
  obtain i author where ev: "w_bus (sv_world s') = w_bus (sv_world s) @
      [issue_event ''comment:created'' (uuid_text (cm_workspace c)) author (JObj (comment_payload (api_codec p) i c))]"
    and author: "snd author \<in> {rq_user rq, rq_agent rq}" "api_uuid p (snd author) = Some (cm_author c)"
    by (rule create_comment_event [OF assms(1)]) blast
  define e where "e = issue_event ''comment:created'' (uuid_text (cm_workspace c)) author (JObj (comment_payload (api_codec p) i c))"
  have actor: "snd author = uuid_text (cm_author c)" "canonical f (uuid_text (cm_author c))"
    using author assms(2-4) by (auto simp: canonical_def)
  have e: "ev_id e = ''''" "ev_type e = ''comment:created''" "ev_workspace e = uuid_text (cm_workspace c)"
    "ev_actor e = uuid_text (cm_author c)" "as_object (ev_payload e) = Some (comment_payload (api_codec p) i c)"
    by (simp_all add: e_def issue_event_def actor)
  obtain x where x: "object_at (comment_payload (api_codec p) i c) ''comment'' = Some x" "string_at x ''issue_id'' = uuid_text (cm_issue c)"
    "string_at x ''author_id'' = uuid_text (cm_author c)" "string_at x ''content'' = cm_content c"
    using comment_object [of "api_codec p" i c] by blast
  define k1 where "k1 = call_recovered e (on_comment_created_subscribe f) k"
  have k1: "k1 = add_subscriber f (uuid_text (cm_workspace c)) (uuid_text (cm_issue c)) (string_at x ''author_type'') (uuid_text (cm_author c)) ''commenter'' k"
    by (simp add: k1_def on_comment_created_subscribe_def call_recovered_def with_payload_def e x)
  have g1: "grows f k k1 [] []" unfolding k1 by (rule add_subscriber_grows)
  have others: "others (uuid_text (cm_author c)) (dk_db k1) (cm_issue c) = others (uuid_text (cm_author c)) (dk_db k) (cm_issue c)"
    unfolding k1 by (rule others_after_subscription) (rule actor(2))
  define n where "n = \<lparr>nt_workspace = ev_workspace e, nt_issue = string_at x ''issue_id'',
      nt_status = string_at (comment_payload (api_codec p) i c) ''issue_status'', nt_type = ''new_comment'', nt_severity = ''info'',
      nt_title = string_at (comment_payload (api_codec p) i c) ''issue_title'', nt_body = string_at x ''content'',
      nt_details = (if string_at x ''id'' = '''' then [] else [(''comment_id'', JStr (string_at x ''id''))])\<rparr>"
  have n: "nt_issue n = uuid_text (cm_issue c)" "nt_type n = ''new_comment''" "proper_notice f n"
    using assms(8) by (simp_all add: n_def proper_notice_def e x)
  define k2 where "k2 = notify_subscribers f e n [] k1"
  have pub: "publish (server_bus f) e k = notify_mentioned_members f e n (parse_mentions (cm_content c)) [ev_actor e] k2"
    unfolding publish_comment [OF e(2)] k1_def [symmetric] k2_def
    by (simp add: on_comment_created_notify_def call_recovered_def with_payload_def e x n_def Let_def)
  have known: "known_issue f k1 (nt_issue n) (cm_issue c)" using known_issue_grows [OF assms(7) g1] by (simp add: n)
  obtain ys where ys: "grows f k1 k2 ys []" "kinds ys = image_mset (Pair ''new_comment'') (others (uuid_text (cm_author c)) (dk_db k) (cm_issue c))"
    using notify_subscribers_exact [OF fresh_grows [OF assms(6) g1] known n(3), of e] unfolding k2_def [symmetric] by (auto simp: n others e)
  note g2 = growth_trans [OF g1 ys(1)]
  have "list_members (dk_db k2) w = list_members (dk_db k) w" for w using g2 by (simp add: list_members_def grows_def)
  then have same: "mentioned_ids f (dk_db k2) e ms = mentioned_ids f (dk_db k) e ms" for ms by (simp add: mentioned_ids_def split: option.split)
  have ws: "nf_uuid f (ev_workspace e) \<noteq> None" using assms(8) by (simp add: e)
  obtain zs where zs: "grows f k2 (publish (server_bus f) e k) zs []"
    "kinds zs = image_mset (Pair ''mentioned'') (reached (\<lambda>r. if r = uuid_text (cm_author c) then None else nf_uuid f r)
        (mentioned_ids f (dk_db k) e (parse_mentions (cm_content c))))"
    using notify_mentioned_exact [OF fresh_grows [OF assms(6) g2] known_issue_grows [OF known ys(1)] assms(5) ws, of "parse_mentions (cm_content c)"]
    unfolding same e(4) pub [unfolded e(4), symmetric] by blast
  from growth_trans [OF g2 zs(1)] have "inbox (dk_db (publish (server_bus f) e k)) = inbox (dk_db k) @ (ys @ zs)" by (simp add: grows_def)
  then show ?thesis using ev ys(2) zs(2) e(4) unfolding e_def [symmetric] by (intro exI [of _ e] exI [of _ "ys @ zs"]) simp
qed

text \<open>Member 8 has subscribed to the issue and is mentioned: two items.\<close>

definition demo_note :: comment_body where
  "demo_note = \<lparr>cb_content = ''[@b](mention://member/00000000-0000-0000-0000-000000000008)'', cb_type = '''', cb_parent = None\<rparr>"

lemma demo_note_mentions: "parse_mentions (cb_content demo_note) = [\<lparr>mn_type = ''member'', mn_id = uuid_text 8\<rparr>]"
  unfolding demo_note_def by code_simp

lemma comment_reaches_exactly_witness:
  "\<exists>e xs. inbox (dk_db (publish (server_bus demo_notifier) e demo_desk)) = xs \<and> kinds xs = {#(''new_comment'', 8), (''mentioned'', 8)#}"
proof -
  let ?c = "new_comment_of (demo_env 0) (demo_issue 30) (''member'', 7) (cb_content demo_note) demo_note None"
  have actor: "resolve_actor demo_api (sv_db demo_server) demo_request ws = (''member'', uuid_text 7)" for ws
    by (simp add: resolve_actor_def demo_request_def)
  have row: "create_comment_row (sv_db demo_server) ?c = Inr ((sv_db demo_server)\<lparr>comments := [?c]\<rparr>, ?c)"
    by (simp add: create_comment_row_def insert_row_def or_fail_def new_comment_of_def demo_note_def demo_server_def demo0_def demo_issue_def comment_types_def)
  have body: "cb_content demo_note \<noteq> ''''" "cb_parent demo_note = None" "api_uuid demo_api (uuid_text 7) = Some 7"
    by (simp_all add: demo_note_def demo_api_def demo_read_uuid)
  obtain s' where ok: "create_comment demo_api (\<lambda>d w s. s) demo_env demo_server demo_request (uuid_text 30) (Some demo_note) = (s', Inr ?c)"
    unfolding create_comment_def
    by (simp add: demo_load actor row parent_comment_def body Let_def)
  have c: "cm_issue ?c = 30" "cm_workspace ?c = 1" "cm_author ?c = 7" "cm_content ?c = cb_content demo_note"
    by (simp_all add: new_comment_of_def demo_issue_def)
  have rq: "rq_user demo_request = uuid_text 7" "rq_agent demo_request = ''''" by (simp_all add: demo_request_def)
  have "\<exists>e xs. w_bus (sv_world s') = w_bus (sv_world demo_server) @ [e] \<and> ev_actor e = uuid_text (cm_author ?c) \<and>
    inbox (dk_db (publish (server_bus demo_notifier) e demo_desk)) = inbox (dk_db demo_desk) @ xs \<and>
    kinds xs = image_mset (Pair ''new_comment'') (others (uuid_text (cm_author ?c)) (dk_db demo_desk) (cm_issue ?c)) +
      image_mset (Pair ''mentioned'') (reached (\<lambda>r. if r = uuid_text (cm_author ?c) then None else nf_uuid demo_notifier r)
        (mentioned_ids demo_notifier (dk_db demo_desk) e (parse_mentions (cm_content ?c))))"
    by (rule comment_reaches_exactly [OF ok _ _ _ demo_permutes demo_fresh])
      (simp_all only: c rq demo_known demo_empty, simp_all add: demo_canonical, simp_all add: demo_notifier_def demo_api_def demo_read_uuid)
  moreover have "uuid_text 8 \<noteq> uuid_text 7" using uuid_text_inj [of 8 7] by auto
  moreover have "inbox (dk_db demo_desk) = []" by (simp add: demo_desk_def demo0_def)
  moreover from \<open>uuid_text 8 \<noteq> uuid_text 7\<close> have "others (uuid_text 7) (dk_db demo_desk) 30 = {#8#}"
    by (simp add: others_rows demo_desk_def)
  moreover have "mentioned_ids demo_notifier d e (parse_mentions (cb_content demo_note)) = [uuid_text 8]" for d e
    unfolding demo_note_mentions by (simp add: mentioned_ids_def has_mention_all_def is_mention_all_def)
  moreover have "nf_uuid demo_notifier (uuid_text 8) = Some 8" by (simp add: demo_notifier_def demo_read_uuid)
  ultimately show ?thesis unfolding c by (auto simp: add_mset_commute)
qed

section \<open>A spelling that defeats the check\<close>

text \<open>
  The recipient of a mention is compared with the actor as text, and the pattern of mentions admits capital hexadecimal
  digits: a member who mentions himself in capitals is told of it.
\<close>

definition any_case :: notifier where
  "any_case = demo_notifier\<lparr>nf_uuid := (\<lambda>s. demo_read_uuid (to_lower s))\<rparr>"

lemma capital_mention_tells_actor:
  "parse_mentions ''[@me](mention://member/00000000-0000-0000-0000-0000000000AB)'' =
     [\<lparr>mn_type = ''member'', mn_id = ''00000000-0000-0000-0000-0000000000AB''\<rparr>] \<and>
   nf_uuid any_case ''00000000-0000-0000-0000-0000000000AB'' = Some 171 \<and>
   uuid_text 171 \<noteq> ''00000000-0000-0000-0000-0000000000AB'' \<and>
   (ev_actor e = uuid_text 171 \<longrightarrow>
      reached (\<lambda>r. if r = ev_actor e then None else nf_uuid any_case r)
        (mentioned_ids any_case d e [\<lparr>mn_type = ''member'', mn_id = ''00000000-0000-0000-0000-0000000000AB''\<rparr>]) = {#171#})"
proof -
  have p: "parse_mentions ''[@me](mention://member/00000000-0000-0000-0000-0000000000AB)'' =
     [\<lparr>mn_type = ''member'', mn_id = ''00000000-0000-0000-0000-0000000000AB''\<rparr>]" by code_simp
  have u: "demo_read_uuid (to_lower ''00000000-0000-0000-0000-0000000000AB'') = Some 171" by code_simp
  have t: "uuid_text 171 = ''00000000-0000-0000-0000-0000000000ab''" by code_simp
  from p u t show ?thesis by (simp add: any_case_def mentioned_ids_def has_mention_all_def is_mention_all_def)
qed

end
