(* ===== verification/DaemonCalls.thy ===== *)
theory DaemonCalls
  imports IssueRequests
begin

text \<open>
  What a daemon calls while it works on a Work Item (\<^verbatim>\<open>server/internal/handler/daemon.go\<close>): claim, start, progress,
  stage, checkpoint, completion, failure and status, and the cancellation by a user. A handler gets the decoded body,
  none when it cannot be read. The answer of a claim is modelled without the skills of the agent and the
  repositories of the workspace, which are read from tables of their own.
\<close>

section \<open>The reference of a call\<close>

definition daemon_run_ref :: "api \<Rightarrow> string \<Rightarrow> string \<Rightarrow> run_ref reply" where
  "daemon_run_ref p task run =
     (let ref = \<lparr>rr_work_item = api_uuid p task, rr_run = api_uuid p (trim_space run)\<rparr> in
      if rr_work_item ref = None \<or> rr_run ref = None then Inl (400, ''run_id is required'') else Inr ref)"

definition run_transition_error :: "api \<Rightarrow> go_error \<Rightarrow> int \<times> string" where
  "run_transition_error p err = (if error_is err ErrStaleRun then (409, api_text p ErrStaleRun) else (400, api_text p err))"

definition answer_run :: "api \<Rightarrow> server \<Rightarrow> 'a io \<Rightarrow> 'a handled" where
  "answer_run p s r = (s\<lparr>sv_world := fst r\<rparr>, map_sum (run_transition_error p) id (snd r))"

definition with_run ::
    "api \<Rightarrow> server \<Rightarrow> string \<Rightarrow> string \<Rightarrow> (run_ref \<Rightarrow> 'a handled) \<Rightarrow> 'a handled" where
  "with_run p s task run k = (case daemon_run_ref p task run of Inl err \<Rightarrow> (s, Inl err) | Inr ref \<Rightarrow> k ref)"

section \<open>Claim\<close>

definition completed_later :: "task_row \<Rightarrow> task_row \<Rightarrow> bool" where
  "completed_later t u \<longleftrightarrow> (case (tk_completed_at t, tk_completed_at u) of
     (None, Some _) \<Rightarrow> True | (Some x, Some y) \<Rightarrow> y < x | _ \<Rightarrow> False)"

definition get_last_task_session :: "db \<Rightarrow> uuid \<Rightarrow> uuid \<Rightarrow> (pgtext \<times> pgtext) option" where
  "get_last_task_session d a i =
     map_option (\<lambda>t. (tk_session t, tk_work_dir t))
       (first_by completed_later
         (filter (\<lambda>t. tk_agent t = a \<and> tk_issue t = i \<and> tk_status t = Completed \<and> tk_session t \<noteq> None) (tasks d)))"

record claim_answer =
  ca_task :: task_row
  ca_run :: uuid
  ca_agent :: "(uuid \<times> string \<times> string) option"
  ca_workspace :: string
  ca_issue_title :: string
  ca_prior_session :: string
  ca_prior_work_dir :: string
  ca_branch :: string
  ca_iteration :: int

text \<open>A checkpoint of the Work Item itself takes precedence over the last completed conversation of agent and issue.\<close>

definition prior_session :: "db \<Rightarrow> task_row \<Rightarrow> string \<times> string" where
  "prior_session d t =
     (case tk_session t of
        Some s \<Rightarrow> (s, or_else (tk_work_dir t) '''')
      | None \<Rightarrow> (case get_last_task_session d (tk_agent t) (tk_issue t) of
          Some (Some s, dir) \<Rightarrow> (s, or_else dir '''')
        | _ \<Rightarrow> ('''', '''')))"

definition claim_details :: "db \<Rightarrow> claimed_task \<Rightarrow> claim_answer" where
  "claim_details d c =
     (let t = cl_task c; prior = prior_session d t in
      \<lparr>ca_task = t, ca_run = cl_run c,
       ca_agent = (case get_agent d (Some (tk_agent t)) of Inl _ \<Rightarrow> None
                   | Inr a \<Rightarrow> Some (ag_id a, ag_name a, ag_instructions a)),
       ca_workspace = (case get_issue d (Some (tk_issue t)) of Inl _ \<Rightarrow> '''' | Inr i \<Rightarrow> uuid_text (is_workspace i)),
       ca_issue_title = (case get_issue d (Some (tk_issue t)) of Inl _ \<Rightarrow> '''' | Inr i \<Rightarrow> is_title i),
       ca_prior_session = fst prior, ca_prior_work_dir = snd prior,
       ca_branch = (case tk_loop t of None \<Rightarrow> '''' | Some l \<Rightarrow>
         (case select_one (\<lambda>x. lr_id x = l) (loops d) of Inl _ \<Rightarrow> '''' | Inr x \<Rightarrow> or_else (lr_branch x) '''')),
       ca_iteration = (case tk_loop t of None \<Rightarrow> 0 | Some l \<Rightarrow>
         (case select_one (\<lambda>x. lr_id x = l) (loops d) of Inl _ \<Rightarrow> 0 | Inr x \<Rightarrow> lr_iteration x))\<rparr>)"

definition claim_task_by_runtime ::
    "api \<Rightarrow> (nat \<Rightarrow> env) \<Rightarrow> server \<Rightarrow> string \<Rightarrow> claim_answer option handled" where
  "claim_task_by_runtime p es s rt =
     (case claim_task_for_runtime (api_codec p) es (sv_world s) (api_uuid p rt) of
        (w, Inl err) \<Rightarrow> (s\<lparr>sv_world := w\<rparr>, Inl (500, ''failed to claim task: '' @ api_text p err))
      | (w, Inr None) \<Rightarrow> (s\<lparr>sv_world := w\<rparr>, Inr None)
      | (w, Inr (Some c)) \<Rightarrow> (s\<lparr>sv_world := w\<rparr>, Inr (Some (claim_details (w_db w) c))))"

definition list_pending_by_runtime :: "api \<Rightarrow> server \<Rightarrow> string \<Rightarrow> task_row list" where
  "list_pending_by_runtime p s rt = list_pending_tasks_by_runtime (sv_db s) (api_uuid p rt)"

section \<open>While the Run goes on\<close>

definition start_task_call ::
    "api \<Rightarrow> bool \<Rightarrow> env \<Rightarrow> uuid \<Rightarrow> server \<Rightarrow> string \<Rightarrow> string option \<Rightarrow> task_row handled" where
  "start_task_call p has_trace e trace_id s task body =
     (case body of
        None \<Rightarrow> refuse s 400 ''invalid request body''
      | Some run \<Rightarrow> with_run p s task run (\<lambda>ref.
          answer_run p s (start_task has_trace (api_lifecycle p) e trace_id (sv_world s) ref)))"

definition task_workspace :: "db \<Rightarrow> uuid option \<Rightarrow> string" where
  "task_workspace d i =
     (case get_task d i of Inl _ \<Rightarrow> '''' | Inr t \<Rightarrow>
       (case get_issue d (Some (tk_issue t)) of Inl _ \<Rightarrow> '''' | Inr x \<Rightarrow> uuid_text (is_workspace x)))"

record progress_body =
  pb_run :: string
  pb_summary :: string
  pb_step :: int
  pb_total :: int

definition progress_call :: "api \<Rightarrow> server \<Rightarrow> string \<Rightarrow> progress_body option \<Rightarrow> unit handled" where
  "progress_call p s task body =
     (case body of
        None \<Rightarrow> refuse s 400 ''invalid request body''
      | Some b \<Rightarrow> with_run p s task (pb_run b) (\<lambda>ref.
          answer_run p s (report_progress (api_lifecycle p) (sv_world s) ref (task_workspace (sv_db s) (rr_work_item ref))
            (pb_summary b) (pb_step b) (pb_total b))))"

definition stage_call :: "api \<Rightarrow> server \<Rightarrow> string \<Rightarrow> (string \<times> string) option \<Rightarrow> unit handled" where
  "stage_call p s task body =
     (case body of
        None \<Rightarrow> refuse s 400 ''invalid request body''
      | Some (run, stage) \<Rightarrow> with_run p s task run (\<lambda>ref.
          case get_task (sv_db s) (rr_work_item ref) of
            Inl _ \<Rightarrow> refuse s 404 ''task not found''
          | Inr t \<Rightarrow> answer_run p s (report_agent_stage (api_lifecycle p) (sv_world s) ref (uuid_text (tk_agent t))
              (task_workspace (sv_db s) (rr_work_item ref)) stage)))"

text \<open>Only this call and the messages ask whether the user belongs to the workspace.\<close>

definition checkpoint_call ::
    "api \<Rightarrow> env \<Rightarrow> server \<Rightarrow> string \<Rightarrow> string \<Rightarrow> (string \<times> string \<times> string) option \<Rightarrow> task_row handled" where
  "checkpoint_call p e s user task body =
     (case body of
        None \<Rightarrow> refuse s 400 ''invalid request body''
      | Some (run, session, dir) \<Rightarrow>
          if trim_space session = '''' \<or> trim_space dir = '''' then refuse s 400 ''session_id and work_dir are required''
          else with_run p s task run (\<lambda>ref.
            case get_task (sv_db s) (rr_work_item ref) of
              Inl _ \<Rightarrow> refuse s 404 ''task not found''
            | Inr t \<Rightarrow> (case get_issue (sv_db s) (Some (tk_issue t)) of
                Inl _ \<Rightarrow> refuse s 404 ''task not found''
              | Inr i \<Rightarrow> (case require_workspace_member (api_uuid p) (sv_accounts s) (uuid_text (is_workspace i)) user ''task not found'' of
                  Inl err \<Rightarrow> (s, Inl err)
                | Inr _ \<Rightarrow> answer_run p s (checkpoint_task_session (api_lifecycle p) e (sv_world s) ref
                    (trim_space session) (trim_space dir))))))"

section \<open>The end of a Run\<close>

record usage_body =
  ub_input :: i64
  ub_output :: i64
  ub_reasoning :: i64
  ub_cache_read :: i64
  ub_cache_write :: i64

record artifact =
  af_kind :: string
  af_path :: string
  af_uri :: string
  af_media :: string
  af_sha256 :: string

record completion_body =
  cb_run :: string
  cb_pr_url :: string
  cb_output :: string
  cb_session :: string
  cb_work_dir :: string
  cb_duration :: i64
  cb_usage :: "usage_body option"
  cb_artifacts :: "artifact list"

definition is_hex_char :: "char \<Rightarrow> bool" where
  "is_hex_char c \<longleftrightarrow> (let n = (of_char c :: nat) in 48 \<le> n \<and> n \<le> 57 \<or> 65 \<le> n \<and> n \<le> 70 \<or> 97 \<le> n \<and> n \<le> 102)"

text \<open>\<^verbatim>\<open>hex.DecodeString\<close> reads pairs of digits; 32 bytes are 64 of them.\<close>

definition is_sha256 :: "string \<Rightarrow> bool" where
  "is_sha256 s \<longleftrightarrow> list_all is_hex_char s \<and> length s = 64"

fun validate_artifacts :: "nat \<Rightarrow> artifact list \<Rightarrow> string option" where
  "validate_artifacts i [] = None"
| "validate_artifacts i (a # as) =
     (let name = ''artifacts['' @ itoa (int i) @ '']'' in
      if trim_space (af_kind a) = '''' then Some (name @ ''.kind is required'')
      else if trim_space (af_path a) = '''' \<and> trim_space (af_uri a) = '''' then Some (name @ '' requires path or uri'')
      else if af_sha256 a \<noteq> '''' \<and> \<not> is_sha256 (af_sha256 a) then Some (name @ ''.sha256 must be a 64-character hex digest'')
      else validate_artifacts (Suc i) as)"

definition validate_task_completion :: "completion_body \<Rightarrow> string option" where
  "validate_task_completion b =
     (if sint (cb_duration b) < 0 then Some ''duration_ms must not be negative''
      else if (case cb_usage b of None \<Rightarrow> False | Some u \<Rightarrow> sint (ub_input u) < 0 \<or> sint (ub_output u) < 0 \<or>
          sint (ub_reasoning u) < 0 \<or> sint (ub_cache_read u) < 0 \<or> sint (ub_cache_write u) < 0)
      then Some ''token_usage values must not be negative''
      else if length (cb_artifacts b) > 100 then Some ''artifacts must contain at most 100 entries''
      else validate_artifacts 0 (cb_artifacts b))"

text \<open>\<open>print\<close> is \<^verbatim>\<open>json.Marshal\<close> of the request, which becomes the result of the Work Item.\<close>

definition complete_task_call ::
    "api \<Rightarrow> (completion_body \<Rightarrow> string) \<Rightarrow> env \<Rightarrow> server \<Rightarrow> string \<Rightarrow> completion_body option \<Rightarrow> task_row handled" where
  "complete_task_call p print e s task body =
     (case body of
        None \<Rightarrow> refuse s 400 ''invalid request body''
      | Some b \<Rightarrow> (case validate_task_completion b of
          Some msg \<Rightarrow> refuse s 400 msg
        | None \<Rightarrow> with_run p s task (cb_run b) (\<lambda>ref.
            answer_run p s (complete_task (api_codec p) (api_lifecycle p) e (sv_world s) ref (Some (print b)) (cb_session b) (cb_work_dir b)))))"

definition fail_task_call ::
    "api \<Rightarrow> env \<Rightarrow> server \<Rightarrow> string \<Rightarrow> (string \<times> string) option \<Rightarrow> task_row handled" where
  "fail_task_call p e s task body =
     (case body of
        None \<Rightarrow> refuse s 400 ''invalid request body''
      | Some (run, msg) \<Rightarrow> with_run p s task run (\<lambda>ref. answer_run p s (fail_task (api_lifecycle p) e (sv_world s) ref msg)))"

definition task_status_call :: "api \<Rightarrow> server \<Rightarrow> string \<Rightarrow> string \<Rightarrow> string reply" where
  "task_status_call p s task run =
     (case daemon_run_ref p task run of
        Inl err \<Rightarrow> Inl err
      | Inr ref \<Rightarrow> map_sum (run_transition_error p) (\<lambda>t. status_str (tk_status t)) (lc_status (api_lifecycle p) (sv_db s) ref))"

section \<open>Users on the Work Items of an issue\<close>

definition cancel_task_call :: "api \<Rightarrow> env \<Rightarrow> server \<Rightarrow> string \<Rightarrow> task_row handled" where
  "cancel_task_call p e s task =
     (case cancel_task (api_lifecycle p) e (sv_world s) (api_uuid p task) of
        (w, Inl err) \<Rightarrow> (s\<lparr>sv_world := w\<rparr>, Inl (400, api_text p err))
      | (w, Inr t) \<Rightarrow> (s\<lparr>sv_world := w\<rparr>, Inr t))"

definition newest_first :: "task_row list \<Rightarrow> task_row list" where
  "newest_first = sort_by (\<lambda>t u. tk_created_at u < tk_created_at t)"

definition active_task_for_issue :: "api \<Rightarrow> server \<Rightarrow> string \<Rightarrow> task_row option" where
  "active_task_for_issue p s i =
     (case newest_first (filter (\<lambda>t. Some (tk_issue t) = api_uuid p i \<and> active (tk_status t)) (tasks (sv_db s))) of
        [] \<Rightarrow> None | t # _ \<Rightarrow> Some t)"

definition list_tasks_by_issue :: "api \<Rightarrow> server \<Rightarrow> string \<Rightarrow> task_row list" where
  "list_tasks_by_issue p s i = newest_first (filter (\<lambda>t. Some (tk_issue t) = api_uuid p i) (tasks (sv_db s)))"

end
