(* ===== verification/TaskMessages.thy ===== *)
theory TaskMessages
  imports DaemonCalls
begin

text \<open>
  The output of a Work Item as it is produced (\<^verbatim>\<open>handler/daemon.go\<close>, \<^verbatim>\<open>handler/trace.go\<close>, \<^verbatim>\<open>task_message.sql\<close>, the steps
  and tools of \<^verbatim>\<open>pkg/traces/service.go\<close>): batches of messages of the daemon, stored once per Run and number, announced
  on the bus and copied to the trace of the Run. The pattern matcher \<^verbatim>\<open>redact.Text\<close> and \<^verbatim>\<open>json.Marshal\<close> are parameters;
  a JSON column holds the value.
\<close>

section \<open>Messages\<close>

record message_body =
  ms_seq :: int
  ms_type :: string
  ms_tool :: string
  ms_content :: string
  ms_input :: "jmap option"
  ms_output :: string

record message_row =
  mg_id :: uuid
  mg_task :: uuid
  mg_run :: uuid
  mg_seq :: int
  mg_type :: string
  mg_tool :: pgtext
  mg_content :: pgtext
  mg_input :: "jmap option"
  mg_output :: pgtext
  mg_created_at :: time

record trace_step =
  ts_step :: int
  ts_type :: string
  ts_content :: string
  ts_error :: pgtext

record tool_call =
  tc_tool :: string
  tc_input :: "jmap option"
  tc_output :: string

text \<open>What the ledger adds to the server; steps and tools carry the trace they belong to.\<close>

record feed =
  fd_server :: server
  fd_rows :: "message_row list"
  fd_steps :: "(uuid \<times> trace_step) list"
  fd_tools :: "(uuid \<times> tool_call) list"

record redactor =
  rd_text :: "string \<Rightarrow> string"
  rd_size :: "jmap \<Rightarrow> nat"

definition field_bytes :: nat where "field_bytes = 64 * 1024"
definition batch_size :: nat where "batch_size = 100"

definition message_types :: "string list" where
  "message_types = [''text'', ''thinking'', ''tool_use'', ''tool_result'', ''error'']"

definition validate_task_message :: "redactor \<Rightarrow> message_body \<Rightarrow> string option" where
  "validate_task_message rd m =
     (if ms_seq m \<le> 0 \<or> 2147483647 < ms_seq m then Some ''seq must be between 1 and 2147483647''
      else if ms_type m \<notin> set message_types then Some (''unsupported message type '' @ quoted (ms_type m))
      else if field_bytes < length (ms_tool m) \<or> field_bytes < length (ms_content m) \<or> field_bytes < length (ms_output m)
      then Some (''message field exceeds '' @ itoa (int field_bytes) @ '' bytes'')
      else if (case ms_input m of None \<Rightarrow> False | Some j \<Rightarrow> field_bytes < rd_size rd j)
      then Some (''message input exceeds '' @ itoa (int field_bytes) @ '' bytes'')
      else None)"

text \<open>\<^verbatim>\<open>redact.InputMap\<close>: only the strings at the top level.\<close>

definition redact_input :: "redactor \<Rightarrow> jmap \<Rightarrow> jmap" where
  "redact_input rd = map (\<lambda>(k, v). (k, case v of JStr s \<Rightarrow> JStr (rd_text rd s) | _ \<Rightarrow> v))"

definition redacted :: "redactor \<Rightarrow> message_body \<Rightarrow> message_body" where
  "redacted rd m = m\<lparr>ms_content := rd_text rd (ms_content m), ms_output := rd_text rd (ms_output m),
     ms_input := map_option (redact_input rd) (ms_input m)\<rparr>"

section \<open>The ledger\<close>

definition run_accepts :: "db \<Rightarrow> uuid \<Rightarrow> uuid \<Rightarrow> bool" where
  "run_accepts d t r \<longleftrightarrow> (\<exists>x\<in>set (tasks d). tk_id x = t \<and> tk_active_run x = Some r \<and> tk_status x = Running) \<and>
     (\<exists>y\<in>set (runs d). rn_id y = r \<and> rn_task y = t \<and> rn_status y = Running)"

definition message_of :: "env \<Rightarrow> uuid \<Rightarrow> uuid \<Rightarrow> message_body \<Rightarrow> message_row" where
  "message_of e t r m = \<lparr>mg_id = e_gen e 0, mg_task = t, mg_run = r, mg_seq = ms_seq m, mg_type = ms_type m,
     mg_tool = opt_text (ms_tool m), mg_content = opt_text (ms_content m), mg_input = ms_input m,
     mg_output = opt_text (ms_output m), mg_created_at = e_now e\<rparr>"

text \<open>\<^verbatim>\<open>CreateTaskMessage\<close>: the rows, whether the Run was active, whether a row was added.\<close>

definition create_task_message ::
    "env \<Rightarrow> db \<Rightarrow> message_row list \<Rightarrow> uuid \<Rightarrow> uuid \<Rightarrow> message_body \<Rightarrow> (message_row list \<times> bool \<times> bool) res" where
  "create_task_message e d rows t r m =
     (if \<not> run_accepts d t r \<or> (\<exists>x\<in>set rows. mg_run x = r \<and> mg_seq x = ms_seq m) then Inr (rows, run_accepts d t r, False)
      else if e_gen e 0 \<in> mg_id ` set rows then Inl ErrConstraint
      else Inr (rows @ [message_of e t r m], True, True))"

definition map_message_type :: "string \<Rightarrow> string" where
  "map_message_type ty =
     (if ty \<in> set [''text'', ''thinking''] then ''assistant'' else if ty \<in> set [''tool-use'', ''tool-result''] then ''tool''
      else if ty \<in> set [''error'', ''status''] then ''system'' else ''assistant'')"

definition record_trace_message :: "uuid option \<Rightarrow> message_body \<Rightarrow> feed \<Rightarrow> feed" where
  "record_trace_message trace m f =
     (case trace of
        None \<Rightarrow> f
      | Some x \<Rightarrow>
          if x \<notin> xt_id ` set (xtraces (sv_db (fd_server f))) then f
          else if ms_type m \<in> set [''text'', ''thinking'', ''status'', ''error'']
          then f\<lparr>fd_steps := fd_steps f @ [(x, \<lparr>ts_step = ms_seq m, ts_type = map_message_type (ms_type m),
                 ts_content = ms_content m, ts_error = (if ms_type m = ''error'' then Some (ms_content m) else None)\<rparr>)]\<rparr>
          else if ms_type m = ''tool-use''
          then f\<lparr>fd_tools := fd_tools f @ [(x, \<lparr>tc_tool = ms_tool m, tc_input = ms_input m, tc_output = ''''\<rparr>)]\<rparr>
          else if ms_type m = ''tool-result''
          then f\<lparr>fd_tools := fd_tools f @ [(x, \<lparr>tc_tool = ms_tool m, tc_input = None, tc_output = ms_output m\<rparr>)]\<rparr>
          else f)"

text \<open>\<^verbatim>\<open>protocol.TaskMessagePayload\<close>; empty fields are omitted.\<close>

definition if_present :: "string \<Rightarrow> pgtext \<Rightarrow> jmap" where
  "if_present k t = (case t of None \<Rightarrow> [] | Some s \<Rightarrow> if s = '''' then [] else [(k, JStr s)])"

definition message_payload :: "string \<Rightarrow> string \<Rightarrow> message_row \<Rightarrow> json" where
  "message_payload task issue m = JObj
     ([(''task_id'', JStr task), (''run_id'', JStr (uuid_text (mg_run m)))] @ if_present ''issue_id'' (Some issue) @
      [(''seq'', JInt (mg_seq m)), (''type'', JStr (mg_type m))] @ if_present ''tool'' (mg_tool m) @
      if_present ''content'' (mg_content m) @
      (case mg_input m of None \<Rightarrow> [] | Some j \<Rightarrow> if j = [] then [] else [(''input'', JObj j)]) @ if_present ''output'' (mg_output m))"

definition message_event :: "string \<Rightarrow> uuid \<Rightarrow> message_row \<Rightarrow> event" where
  "message_event ws issue m = \<lparr>ev_id = '''', ev_type = ''task:message'', ev_workspace = ws, ev_actor_type = ''system'',
     ev_actor = '''', ev_payload = message_payload (uuid_text (mg_task m)) (uuid_text issue) m\<rparr>"

definition persist_task_message ::
    "redactor \<Rightarrow> env \<Rightarrow> feed \<Rightarrow> task_row \<Rightarrow> uuid \<Rightarrow> string \<Rightarrow> uuid option \<Rightarrow> message_body \<Rightarrow> feed \<times> bool res" where
  "persist_task_message rd e f t r ws trace raw =
     (let m = redacted rd raw in
      case create_task_message e (sv_db (fd_server f)) (fd_rows f) (tk_id t) r m of
        Inl err \<Rightarrow> (f, Inl (ErrWrap ''persist task message'' err))
      | Inr (rows, running, inserted) \<Rightarrow>
          if \<not> running then (f, Inl ErrStaleRun)
          else if \<not> inserted then (f, Inr False)
          else (let g = record_trace_message trace m (f\<lparr>fd_rows := rows\<rparr>) in
            (g\<lparr>fd_server := say (message_event ws (tk_issue t) (message_of e (tk_id t) r m)) (fd_server g)\<rparr>, Inr True)))"

section \<open>Requests\<close>

fun persist_messages ::
    "api \<Rightarrow> redactor \<Rightarrow> (nat \<Rightarrow> env) \<Rightarrow> nat \<Rightarrow> feed \<Rightarrow> task_row \<Rightarrow> uuid \<Rightarrow> string \<Rightarrow> uuid option \<Rightarrow> message_body list
       \<Rightarrow> feed \<times> unit reply" where
  "persist_messages p rd es k f t r ws trace [] = (f, Inr ())"
| "persist_messages p rd es k f t r ws trace (m # ms) =
     (case persist_task_message rd (es k) f t r ws trace m of
        (g, Inl err) \<Rightarrow> (g, Inl (if error_is err ErrStaleRun then run_transition_error p err else (500, ''failed to persist task messages'')))
      | (g, Inr _) \<Rightarrow> persist_messages p rd es (Suc k) g t r ws trace ms)"

definition trace_of_run :: "bool \<Rightarrow> db \<Rightarrow> uuid \<Rightarrow> uuid option" where
  "trace_of_run has_trace d r =
     (if \<not> has_trace then None else case select_one (\<lambda>x. xt_run x = r) (xtraces d) of Inl _ \<Rightarrow> None | Inr x \<Rightarrow> Some (xt_id x))"

definition task_of_member :: "api \<Rightarrow> server \<Rightarrow> string \<Rightarrow> string \<Rightarrow> (task_row \<times> string) reply" where
  "task_of_member p s user task =
     (case get_task (sv_db s) (api_uuid p task) of
        Inl _ \<Rightarrow> Inl (404, ''task not found'')
      | Inr t \<Rightarrow> (case get_issue (sv_db s) (Some (tk_issue t)) of
          Inl _ \<Rightarrow> Inl (404, ''task not found'')
        | Inr i \<Rightarrow> map_sum id (\<lambda>_. (t, uuid_text (is_workspace i)))
            (require_workspace_member (api_uuid p) (sv_accounts s) (uuid_text (is_workspace i)) user ''task not found'')))"

definition report_task_messages ::
    "api \<Rightarrow> redactor \<Rightarrow> bool \<Rightarrow> (nat \<Rightarrow> env) \<Rightarrow> feed \<Rightarrow> string \<Rightarrow> string \<Rightarrow> (string \<times> message_body list) option \<Rightarrow> feed \<times> unit reply" where
  "report_task_messages p rd has_trace es f user task body =
     (case body of
        None \<Rightarrow> (f, Inl (400, ''invalid request body''))
      | Some (run, ms) \<Rightarrow>
          if ms = [] then (f, Inr ())
          else (case api_uuid p (trim_space run) of
            None \<Rightarrow> (f, Inl (400, ''run_id is required''))
          | Some r \<Rightarrow>
              if batch_size < length ms then (f, Inl (400, ''messages must contain at most '' @ itoa (int batch_size) @ '' entries''))
              else (case find (\<lambda>m. validate_task_message rd m \<noteq> None) ms of
                Some m \<Rightarrow> (f, Inl (400, or_else (validate_task_message rd m) ''''))
              | None \<Rightarrow> (case task_of_member p (fd_server f) user task of
                  Inl err \<Rightarrow> (f, Inl err)
                | Inr (t, ws) \<Rightarrow>
                    if \<not> is_ok (get_active_task_run (sv_db (fd_server f)) (Some (tk_id t)) (Some r))
                    then (f, Inl (409, ''run_id is not the active run for this task''))
                    else persist_messages p rd es 0 f t r ws (trace_of_run has_trace (sv_db (fd_server f)) r) ms))))"

text \<open>\<^verbatim>\<open>strconv.Atoi\<close>: an optional sign and decimal digits within 64 bits.\<close>

definition atoi :: "string \<Rightarrow> int option" where
  "atoi s =
     (let neg = (take 1 s = ''-''); ds = (if take 1 s \<in> set [''-'', ''+''] then drop 1 s else s);
          n = foldl (\<lambda>n c. 10 * n + (int (of_char c) - 48)) 0 ds; v = (if neg then - n else n)
      in if ds = '''' \<or> list_ex (\<lambda>c. (of_char c :: nat) < 48 \<or> 57 < (of_char c :: nat)) ds \<or> v < - (2 ^ 63) \<or> 2 ^ 63 \<le> v
         then None else Some v)"

definition current_run :: "db \<Rightarrow> uuid option \<Rightarrow> uuid option" where
  "current_run d t = map_option rn_id
     (first_by (\<lambda>a b. rn_created_at b < rn_created_at a) (filter (\<lambda>r. Some (rn_task r) = t) (runs d)))"

definition messages_of_run :: "feed \<Rightarrow> uuid option \<Rightarrow> message_row list" where
  "messages_of_run f t = sort_by (\<lambda>a b. mg_seq a < mg_seq b)
     (filter (\<lambda>m. Some (mg_run m) = current_run (sv_db (fd_server f)) t) (fd_rows f))"

definition list_messages :: "feed \<Rightarrow> uuid option \<Rightarrow> nat \<Rightarrow> message_row list" where
  "list_messages f t limit = (let ms = messages_of_run f t in drop (length ms - limit) ms)"

definition list_messages_since :: "feed \<Rightarrow> uuid option \<Rightarrow> int \<Rightarrow> nat \<Rightarrow> message_row list" where
  "list_messages_since f t since limit = take limit (filter (\<lambda>m. since < mg_seq m) (messages_of_run f t))"

definition list_task_messages :: "api \<Rightarrow> feed \<Rightarrow> string \<Rightarrow> string \<Rightarrow> string \<Rightarrow> string \<Rightarrow> json list reply" where
  "list_task_messages p f user task limit_str since_str =
     (case task_of_member p (fd_server f) user task of
        Inl err \<Rightarrow> Inl err
      | Inr (t, _) \<Rightarrow>
          (case (if limit_str = '''' then Some 500 else atoi limit_str) of
             None \<Rightarrow> Inl (400, ''limit must be between 1 and 5000'')
           | Some limit \<Rightarrow>
               if limit < 1 \<or> 5000 < limit then Inl (400, ''limit must be between 1 and 5000'')
               else if since_str = '''' then Inr (map (message_payload task (uuid_text (tk_issue t))) (list_messages f (api_uuid p task) (nat limit)))
               else (case atoi since_str of
                 None \<Rightarrow> Inl (400, ''invalid since parameter'')
               | Some since \<Rightarrow>
                   if since < 0 \<or> 2147483647 < since then Inl (400, ''invalid since parameter'')
                   else Inr (map (message_payload task (uuid_text (tk_issue t))) (list_messages_since f (api_uuid p task) since (nat limit))))))"

end
