(* ===== verification/MessageProps.thy ===== *)
theory MessageProps
  imports TaskMessages IssueProps
begin

text \<open>
  The ledger of messages: a message is stored and announced once, only while its Run goes on, and only with its texts
  redacted; a batch sent again changes nothing; the trace never sees a call of a tool.
\<close>

section \<open>One message\<close>

definition message_events :: "server \<Rightarrow> event list" where
  "message_events s = filter (\<lambda>ev. ev_type ev = ''task:message'') (w_bus (sv_world s))"

lemma message_events_say [simp]: "message_events (say (message_event ws i m) s) = message_events s @ [message_event ws i m]"
  by (simp add: message_events_def message_event_def)

lemma trace_keeps [simp]:
  "fd_server (record_trace_message tr m f) = fd_server f" "fd_rows (record_trace_message tr m f) = fd_rows f"
  by (simp_all add: record_trace_message_def split: option.split)

lemma trace_tools: "ms_type m \<in> set message_types \<Longrightarrow> fd_tools (record_trace_message tr m f) = fd_tools f"
  by (auto simp: record_trace_message_def message_types_def split: option.split)

lemma redacted_simps [simp]: "ms_seq (redacted rd m) = ms_seq m" "ms_type (redacted rd m) = ms_type m" "ms_tool (redacted rd m) = ms_tool m"
  by (simp_all add: redacted_def)

definition has_key :: "message_row list \<Rightarrow> uuid \<Rightarrow> int \<Rightarrow> bool" where
  "has_key rows r n \<longleftrightarrow> (\<exists>x\<in>set rows. mg_run x = r \<and> mg_seq x = n)"

lemma has_key_append [simp]: "has_key (xs @ ys) r n \<longleftrightarrow> has_key xs r n \<or> has_key ys r n"
  by (auto simp: has_key_def)

text \<open>Refused, known, or added to rows and bus.\<close>

definition took :: "redactor \<Rightarrow> env \<Rightarrow> feed \<Rightarrow> task_row \<Rightarrow> uuid \<Rightarrow> string \<Rightarrow> message_body \<Rightarrow> feed \<Rightarrow> bool" where
  "took rd e f t r ws m g \<longleftrightarrow> (let row = message_of e (tk_id t) r (redacted rd m) in
     fd_rows g = fd_rows f @ [row] \<and> fd_server g = say (message_event ws (tk_issue t) row) (fd_server f) \<and>
     (ms_type m \<in> set message_types \<longrightarrow> fd_tools g = fd_tools f))"

lemma persist_refused:
  "\<not> run_accepts (sv_db (fd_server f)) (tk_id t) r \<Longrightarrow> persist_task_message rd e f t r ws tr m = (f, Inl ErrStaleRun)"
  by (simp add: persist_task_message_def Let_def create_task_message_def)

lemma persist_known:
  "run_accepts (sv_db (fd_server f)) (tk_id t) r \<Longrightarrow> has_key (fd_rows f) r (ms_seq m) \<Longrightarrow>
   persist_task_message rd e f t r ws tr m = (f, Inr False)"
  by (simp add: persist_task_message_def Let_def create_task_message_def has_key_def)

lemma persist_new:
  assumes "run_accepts (sv_db (fd_server f)) (tk_id t) r" "\<not> has_key (fd_rows f) r (ms_seq m)"
    and ok: "persist_task_message rd e f t r ws tr m = (g, x)"
  shows "g = f \<and> (\<exists>err. x = Inl err) \<or> x = Inr True \<and> took rd e f t r ws m g"
proof (cases "e_gen e 0 \<in> mg_id ` set (fd_rows f)")
  case True
  then have "create_task_message e (sv_db (fd_server f)) (fd_rows f) (tk_id t) r (redacted rd m) = Inl ErrConstraint"
    using assms(1,2) by (auto simp: create_task_message_def has_key_def)
  with ok show ?thesis by (auto simp: persist_task_message_def Let_def)
next
  case False
  then have "create_task_message e (sv_db (fd_server f)) (fd_rows f) (tk_id t) r (redacted rd m) =
      Inr (fd_rows f @ [message_of e (tk_id t) r (redacted rd m)], True, True)"
    using assms(1,2) by (auto simp: create_task_message_def has_key_def)
  with ok show ?thesis by (auto simp: persist_task_message_def Let_def took_def trace_tools)
qed

lemma persist_cases:
  assumes "persist_task_message rd e f t r ws tr m = (g, x)"
  shows "g = f \<and> ((\<exists>err. x = Inl err) \<or> x = Inr False \<and> run_accepts (sv_db (fd_server f)) (tk_id t) r \<and> has_key (fd_rows f) r (ms_seq m)) \<or>
    x = Inr True \<and> took rd e f t r ws m g \<and> run_accepts (sv_db (fd_server f)) (tk_id t) r \<and> \<not> has_key (fd_rows f) r (ms_seq m)"
proof (cases "run_accepts (sv_db (fd_server f)) (tk_id t) r")
  case False
  have "g = f" "x = Inl ErrStaleRun" using persist_refused [OF False, of rd e ws tr m] assms by simp_all
  then show ?thesis by simp
next
  case acc: True
  show ?thesis
  proof (cases "has_key (fd_rows f) r (ms_seq m)")
    case True
    have "g = f" "x = Inr False" using persist_known [OF acc True, of rd e ws tr] assms by simp_all
    with acc True show ?thesis by simp
  next
    case False
    from persist_new [OF acc False assms] acc False show ?thesis by blast
  qed
qed

lemma took_db: "took rd e f t r ws m g \<Longrightarrow> sv_db (fd_server g) = sv_db (fd_server f)"
  "took rd e f t r ws m g \<Longrightarrow> sv_accounts (fd_server g) = sv_accounts (fd_server f)"
  by (simp_all add: took_def Let_def)

lemma took_key:
  assumes "took rd e f t r ws m g"
  shows "has_key (fd_rows g) r' n \<longleftrightarrow> has_key (fd_rows f) r' n \<or> r' = r \<and> n = ms_seq m"
proof -
  have "fd_rows g = fd_rows f @ [message_of e (tk_id t) r (redacted rd m)]" using assms by (simp add: took_def Let_def)
  moreover have "has_key [message_of e (tk_id t) r (redacted rd m)] r' n \<longleftrightarrow> r' = r \<and> n = ms_seq m"
    by (auto simp: has_key_def message_of_def)
  ultimately show ?thesis by simp
qed

section \<open>A batch\<close>

text \<open>What one accepted message keeps, a batch keeps.\<close>

lemma batch_induct:
  assumes "P f"
    and "\<And>k f g m. m \<in> set ms \<Longrightarrow> P f \<Longrightarrow> took rd (es k) f t r ws m g \<Longrightarrow> run_accepts (sv_db (fd_server f)) (tk_id t) r \<Longrightarrow>
      \<not> has_key (fd_rows f) r (ms_seq m) \<Longrightarrow> P g"
  shows "P (fst (persist_messages p rd es k f t r ws tr ms))"
  using assms
proof (induction ms arbitrary: k f)
  case Nil
  then show ?case by simp
next
  case (Cons m ms)
  obtain g x where px: "persist_task_message rd (es k) f t r ws tr m = (g, x)" by fastforce
  from persist_cases [OF px] have "P g"
  proof
    assume "g = f \<and> ((\<exists>err. x = Inl err) \<or> x = Inr False \<and> run_accepts (sv_db (fd_server f)) (tk_id t) r \<and> has_key (fd_rows f) r (ms_seq m))"
    with Cons.prems(1) show "P g" by simp
  next
    assume "x = Inr True \<and> took rd (es k) f t r ws m g \<and> run_accepts (sv_db (fd_server f)) (tk_id t) r \<and> \<not> has_key (fd_rows f) r (ms_seq m)"
    with Cons.prems(1) show "P g" by (simp add: Cons.prems(2) [of m f k g])
  qed
  then have "P (fst (persist_messages p rd es (Suc k) g t r ws tr ms))"
    by (rule Cons.IH) (use Cons.prems(2) in auto)
  with \<open>P g\<close> show ?case by (cases x) (simp_all add: px)
qed

lemma batch_keeps:
  "sv_db (fd_server (fst (persist_messages p rd es k f t r ws tr ms))) = sv_db (fd_server f) \<and>
   sv_accounts (fd_server (fst (persist_messages p rd es k f t r ws tr ms))) = sv_accounts (fd_server f)"
proof (rule batch_induct)
  show "sv_db (fd_server f) = sv_db (fd_server f) \<and> sv_accounts (fd_server f) = sv_accounts (fd_server f)" by simp
next
  fix k f' g m
  assume "sv_db (fd_server f') = sv_db (fd_server f) \<and> sv_accounts (fd_server f') = sv_accounts (fd_server f)"
    and "took rd (es k) f' t r ws m g"
  then show "sv_db (fd_server g) = sv_db (fd_server f) \<and> sv_accounts (fd_server g) = sv_accounts (fd_server f)"
    using took_db by metis
qed

lemma batch_stored:
  assumes "persist_messages p rd es k f t r ws tr ms = (g, Inr ())"
  shows "(\<forall>m\<in>set ms. run_accepts (sv_db (fd_server g)) (tk_id t) r \<and> has_key (fd_rows g) r (ms_seq m)) \<and>
    (\<forall>r' n. has_key (fd_rows f) r' n \<longrightarrow> has_key (fd_rows g) r' n) \<and> sv_db (fd_server g) = sv_db (fd_server f)"
  using assms
proof (induction ms arbitrary: k f)
  case Nil
  then show ?case by simp
next
  case (Cons m ms)
  obtain h x where px: "persist_task_message rd (es k) f t r ws tr m = (h, x)" by fastforce
  with Cons.prems obtain b where x: "x = Inr b" "persist_messages p rd es (Suc k) h t r ws tr ms = (g, Inr ())"
    by (auto split: sum.splits)
  have "run_accepts (sv_db (fd_server f)) (tk_id t) r \<and> has_key (fd_rows h) r (ms_seq m) \<and> sv_db (fd_server h) = sv_db (fd_server f)"
    and "\<forall>r' n. has_key (fd_rows f) r' n \<longrightarrow> has_key (fd_rows h) r' n"
    using persist_cases [OF px] x(1) took_key [of rd "es k" f t r ws m h] took_db(1) [of rd "es k" f t r ws m h] by auto
  with Cons.IH [OF x(2)] show ?case by simp
qed

lemma batch_known:
  assumes "\<forall>m\<in>set ms. run_accepts (sv_db (fd_server f)) (tk_id t) r \<and> has_key (fd_rows f) r (ms_seq m)"
  shows "persist_messages p rd es k f t r ws tr ms = (f, Inr ())"
  using assms by (induction ms arbitrary: k) (simp_all add: persist_known)

section \<open>The feed over time\<close>





lemma validated:
  "validate_task_message rd m = None \<Longrightarrow> 1 \<le> ms_seq m \<and> ms_seq m \<le> 2147483647 \<and> ms_type m \<in> set message_types"
  by (simp add: validate_task_message_def split: if_splits)



text \<open>A request that gets as far as the ledger.\<close>

lemma report_cases:
  "report_task_messages p rd tr es f user task body = (f, Inr ()) \<and> (\<exists>run. body = Some (run, [])) \<or>
   (\<exists>err. report_task_messages p rd tr es f user task body = (f, Inl err)) \<or>
   (\<exists>run ms r t ws. body = Some (run, ms) \<and> ms \<noteq> [] \<and> api_uuid p (trim_space run) = Some r \<and> length ms \<le> batch_size \<and>
      (\<forall>m\<in>set ms. validate_task_message rd m = None) \<and> task_of_member p (fd_server f) user task = Inr (t, ws) \<and>
      is_ok (get_active_task_run (sv_db (fd_server f)) (Some (tk_id t)) (Some r)) \<and>
      report_task_messages p rd tr es f user task body =
        persist_messages p rd es 0 f t r ws (trace_of_run tr (sv_db (fd_server f)) r) ms)"
proof (cases body)
  case None
  then show ?thesis by (simp add: report_task_messages_def)
next
  case (Some b)
  then obtain run ms where b: "body = Some (run, ms)" by (cases b) simp
  consider "ms = []" | "ms \<noteq> []" "api_uuid p (trim_space run) = None"
    | r where "ms \<noteq> []" "api_uuid p (trim_space run) = Some r" by fastforce
  then show ?thesis
  proof cases
    case 3
    show ?thesis
    proof (cases "length ms \<le> batch_size \<and> find (\<lambda>m. validate_task_message rd m \<noteq> None) ms = None")
      case True
      then have v: "length ms \<le> batch_size" "find (\<lambda>m. validate_task_message rd m \<noteq> None) ms = None"
        "\<forall>m\<in>set ms. validate_task_message rd m = None"
        by (auto simp: find_None_iff simp del: not_None_eq)
      show ?thesis
      proof (cases "task_of_member p (fd_server f) user task")
        case (Inl err)
        with v 3 show ?thesis by (simp add: report_task_messages_def b)
      next
        case (Inr tw)
        obtain t ws where tw: "tw = (t, ws)" by (cases tw)
        show ?thesis using v 3 Inr tw
          by (cases "is_ok (get_active_task_run (sv_db (fd_server f)) (Some (tk_id t)) (Some r))") (simp_all add: report_task_messages_def b)
      qed
    next
      case False
      with 3 show ?thesis by (auto simp: report_task_messages_def b split: option.splits)
    qed
  qed (simp_all add: report_task_messages_def b)
qed



definition demo_feed :: feed where
  "demo_feed = \<lparr>fd_server = demo_server\<lparr>sv_world := \<lparr>w_db = demo3, w_bus = []\<rparr>\<rparr>, fd_rows = [], fd_steps = [], fd_tools = []\<rparr>"

definition demo_redactor :: redactor where
  "demo_redactor = \<lparr>rd_text = (\<lambda>s. if s = ''key'' then ''****'' else s), rd_size = length\<rparr>"

definition demo_messages :: "message_body list" where
  "demo_messages = map (\<lambda>n. \<lparr>ms_seq = n, ms_type = (if n = 1 then ''text'' else ''tool_use''), ms_tool = '''', ms_content = ''key'',
     ms_input = None, ms_output = ''''\<rparr>) [1, 2, 1]"

lemma demo_report:
  obtains g where "report_task_messages demo_api demo_redactor False (\<lambda>k. demo_env (9 + k)) demo_feed (uuid_text 7) (uuid_text 1000)
      (Some (uuid_text 2000, demo_messages)) = (g, Inr ())" "map (\<lambda>m. (mg_seq m, mg_content m)) (fd_rows g) = [(1, Some ''****''), (2, Some ''****'')]"
proof -
  have t: "task_of_member demo_api (fd_server demo_feed) (uuid_text 7) (uuid_text 1000) = Inr (demo_task, uuid_text 1)"
    by (simp add: task_of_member_def demo_feed_def demo_api_def demo_server_def get_task_def get_issue_def select_one_def demo_read_uuid
        demo3_def demo2_def demo1_def demo_rows require_workspace_member_def get_member_by_user_and_workspace_def)
  have c: "trim_space (uuid_text 2000) = uuid_text 2000" by code_simp
  have v: "find (\<lambda>m. validate_task_message demo_redactor m \<noteq> None) demo_messages = None"
    by (simp add: demo_messages_def validate_task_message_def message_types_def field_bytes_def demo_redactor_def)
  have a: "is_ok (get_active_task_run demo3 (Some 1000) (Some 2000))"
    by (simp add: get_active_task_run_def select_one_def demo3_def demo2_def demo1_def demo_rows)
  have b: "api_uuid demo_api (uuid_text 2000) = Some 2000" by (simp add: demo_api_def demo_read_uuid)
  have r: "run_accepts demo3 1000 2000" by (simp add: run_accepts_def demo3_def demo2_def demo1_def demo_rows)
  have i: "tk_id demo_task = 1000" by (simp add: demo_rows)
  have d: "sv_db (fd_server demo_feed) = demo3" by (simp add: demo_feed_def)
  have d: "sv_db (fd_server demo_feed) = demo3" by (simp add: demo_feed_def)
  have l: "\<not> batch_size < length demo_messages" "demo_messages \<noteq> []" by (simp_all add: batch_size_def demo_messages_def)
  have "\<exists>g. report_task_messages demo_api demo_redactor False (\<lambda>k. demo_env (9 + k)) demo_feed (uuid_text 7) (uuid_text 1000)
      (Some (uuid_text 2000, demo_messages)) = (g, Inr ()) \<and> map (\<lambda>m. (mg_seq m, mg_content m)) (fd_rows g) = [(1, Some ''****''), (2, Some ''****'')]"
    unfolding report_task_messages_def
    by (simp add: c d l b v t a i trace_of_run_def del: not_None_eq) (simp add: demo_messages_def batch_size_def demo_feed_def persist_task_message_def Let_def
        create_task_message_def r i redacted_def demo_redactor_def message_of_def demo_env_def record_trace_message_def opt_text_def)
  then show ?thesis by (elim exE conjE) (rule that)
qed

text \<open>C13. A batch that was accepted can be sent again: the answer is the same, and nothing is stored, announced or
  traced a second time.\<close>

theorem resend_changes_nothing:
  assumes "report_task_messages p rd tr es f user task body = (g, Inr ())"
  shows "report_task_messages p rd tr es' g user task body = (g, Inr ())"
  using report_cases [of p rd tr es f user task body]
proof (elim disjE exE conjE)
  fix run
  assume "report_task_messages p rd tr es f user task body = (f, Inr ())" "body = Some (run, [])"
  with assms show ?thesis by (simp add: report_task_messages_def)
next
  fix err
  assume "report_task_messages p rd tr es f user task body = (f, Inl err)"
  with assms show ?thesis by simp
next
  fix run ms r t ws
  let ?tr = "trace_of_run tr (sv_db (fd_server f)) r"
  assume b: "body = Some (run, ms)" "ms \<noteq> []" and r: "api_uuid p (trim_space run) = Some r" "length ms \<le> batch_size"
    and v: "\<forall>m\<in>set ms. validate_task_message rd m = None"
    and t: "task_of_member p (fd_server f) user task = Inr (t, ws)"
    and a: "is_ok (get_active_task_run (sv_db (fd_server f)) (Some (tk_id t)) (Some r))"
    and rep: "report_task_messages p rd tr es f user task body = persist_messages p rd es 0 f t r ws ?tr ms"
  from assms rep have ok: "persist_messages p rd es 0 f t r ws ?tr ms = (g, Inr ())" by simp
  have same: "sv_db (fd_server g) = sv_db (fd_server f)" "sv_accounts (fd_server g) = sv_accounts (fd_server f)"
    using batch_keeps [of p rd es 0 f t r ws ?tr ms] ok by simp_all
  have "task_of_member p (fd_server g) user task = Inr (t, ws)" using t unfolding task_of_member_def same .
  moreover have "find (\<lambda>m. validate_task_message rd m \<noteq> None) ms = None" using v by (simp add: find_None_iff)
  moreover have "persist_messages p rd es' 0 g t r ws tr' ms = (g, Inr ())" for tr'
    by (rule batch_known) (use batch_stored [OF ok] in blast)
  ultimately show ?thesis using b r a by (simp add: report_task_messages_def same)
qed

lemma resend_changes_nothing_witness:
  "\<exists>g. fd_rows g \<noteq> [] \<and> report_task_messages demo_api demo_redactor False (\<lambda>k. demo_env 7) g (uuid_text 7) (uuid_text 1000)
      (Some (uuid_text 2000, demo_messages)) = (g, Inr ())"
proof -
  obtain g where g: "report_task_messages demo_api demo_redactor False (\<lambda>k. demo_env (9 + k)) demo_feed (uuid_text 7) (uuid_text 1000)
      (Some (uuid_text 2000, demo_messages)) = (g, Inr ())"
    "map (\<lambda>m. (mg_seq m, mg_content m)) (fd_rows g) = [(1, Some ''****''), (2, Some ''****'')]" by (rule demo_report)
  then have "fd_rows g \<noteq> []" by auto
  with resend_changes_nothing [OF g(1)] show ?thesis by blast
qed


text \<open>C38. The trace of a Run never learns of a tool: the messages a daemon may send have the types \<^verbatim>\<open>tool_use\<close> and
  \<^verbatim>\<open>tool_result\<close>, the recorder looks for \<^verbatim>\<open>tool-use\<close> and \<^verbatim>\<open>tool-result\<close>.\<close>

theorem tool_calls_never_traced:
  "fd_tools (fst (report_task_messages p rd tr es f user task body)) = fd_tools f"
  using report_cases [of p rd tr es f user task body]
proof (elim disjE exE conjE)
  fix run ms r t ws
  assume v: "\<forall>m\<in>set ms. validate_task_message rd m = None"
    and r: "report_task_messages p rd tr es f user task body =
      persist_messages p rd es 0 f t r ws (trace_of_run tr (sv_db (fd_server f)) r) ms"
  show ?thesis unfolding r
  proof (rule batch_induct)
    fix k f' g m
    assume "m \<in> set ms" "took rd (es k) f' t r ws m g" "fd_tools f' = fd_tools f"
    then show "fd_tools g = fd_tools f" using validated [of rd m] v by (simp add: took_def Let_def)
  qed simp
qed simp_all

text \<open>Nothing is added for a Run that is over.\<close>

lemma closed_run_takes_nothing:
  assumes "report_task_messages p rd tr es f user task body = (g, x)" "fd_rows g \<noteq> fd_rows f"
  shows "\<exists>t r. run_accepts (sv_db (fd_server f)) t r"
  using report_cases [of p rd tr es f user task body]
proof (elim disjE exE conjE)
  fix run ms r t ws
  assume r: "report_task_messages p rd tr es f user task body =
      persist_messages p rd es 0 f t r ws (trace_of_run tr (sv_db (fd_server f)) r) ms"
  have "fd_rows (fst (persist_messages p rd es 0 f t r ws (trace_of_run tr (sv_db (fd_server f)) r) ms)) = fd_rows f"
    if "\<not> run_accepts (sv_db (fd_server f)) (tk_id t) r"
    using that by (cases ms) (simp_all add: persist_refused)
  with assms r have "run_accepts (sv_db (fd_server f)) (tk_id t) r" by auto
  then show ?thesis by blast
qed (use assms in auto)

end
