(* ===== verification/RuntimeCommands.thy ===== *)
theory RuntimeCommands
  imports Prelude
begin

text \<open>
  The commands the server keeps in memory for a daemon until its next heartbeat: pings
  (\<^verbatim>\<open>server/internal/handler/runtime_ping.go\<close>) and updates of the command line (\<^verbatim>\<open>runtime_update.go\<close>). A store is the list of
  its requests; the order in which the Go map is walked, which is arbitrary, is given by a rank of the keys. Times are in nanoseconds, the
  random identifier of a new request is an argument. The lock of a store makes each method one step.
\<close>

definition secs :: "int \<Rightarrow> time" where "secs n = n * 1000000000"

type_synonym rank = "string \<Rightarrow> nat"

definition walk :: "('r \<Rightarrow> string) \<Rightarrow> rank \<Rightarrow> 'r list \<Rightarrow> 'r list" where
  "walk key rank rs = sort_key (\<lambda>r. rank (key r)) rs"

lemma set_walk [simp]: "set (walk key rank rs) = set rs"
  by (simp add: walk_def)

section \<open>Pings\<close>

record ping =
  pg_id :: string
  pg_runtime :: string
  pg_status :: string
  pg_output :: string
  pg_error :: string
  pg_duration :: i64
  pg_created :: time
  pg_updated :: time

definition put_by :: "('r \<Rightarrow> string) \<Rightarrow> 'r \<Rightarrow> 'r list \<Rightarrow> 'r list" where
  "put_by key r rs = filter (\<lambda>x. key x \<noteq> key r) rs @ [r]"

definition ping_create :: "time \<Rightarrow> string \<Rightarrow> string \<Rightarrow> ping list \<Rightarrow> ping list \<times> ping" where
  "ping_create now i rt ps =
     (let p = \<lparr>pg_id = i, pg_runtime = rt, pg_status = ''pending'', pg_output = '''', pg_error = '''', pg_duration = 0,
            pg_created = now, pg_updated = now\<rparr>
      in (put_by pg_id p (filter (\<lambda>x. now - pg_created x \<le> secs 120) ps), p))"

definition timed_out_ping :: "time \<Rightarrow> ping \<Rightarrow> ping" where
  "timed_out_ping now p =
     (if pg_status p = ''pending'' \<and> secs 60 < now - pg_created p
      then p\<lparr>pg_status := ''timeout'', pg_error := ''daemon did not respond within 60 seconds'', pg_updated := now\<rparr> else p)"

definition ping_get :: "time \<Rightarrow> string \<Rightarrow> ping list \<Rightarrow> ping list \<times> ping option" where
  "ping_get now i ps = (upd_where (\<lambda>p. pg_id p = i) (timed_out_ping now) ps, map_option (timed_out_ping now) (find (\<lambda>p. pg_id p = i) ps))"

text \<open>The oldest pending one; the first met of those created at the same instant.\<close>

fun oldest_ping :: "ping option \<Rightarrow> ping list \<Rightarrow> ping option" where
  "oldest_ping best [] = best"
| "oldest_ping best (p # ps) =
     oldest_ping (case best of None \<Rightarrow> Some p | Some q \<Rightarrow> if pg_created p < pg_created q then Some p else Some q) ps"

definition ping_pop :: "rank \<Rightarrow> time \<Rightarrow> string \<Rightarrow> ping list \<Rightarrow> ping list \<times> ping option" where
  "ping_pop rank now rt ps =
     (case oldest_ping None (filter (\<lambda>p. pg_runtime p = rt \<and> pg_status p = ''pending'') (walk pg_id rank ps)) of
        None \<Rightarrow> (ps, None)
      | Some p \<Rightarrow> let f = (\<lambda>x. x\<lparr>pg_status := ''running'', pg_updated := now\<rparr>) in (upd_where (\<lambda>x. pg_id x = pg_id p) f ps, Some (f p)))"

definition ping_complete :: "time \<Rightarrow> string \<Rightarrow> string \<Rightarrow> i64 \<Rightarrow> ping list \<Rightarrow> ping list" where
  "ping_complete now i out dur = upd_where (\<lambda>p. pg_id p = i)
     (\<lambda>p. p\<lparr>pg_status := ''completed'', pg_output := out, pg_duration := dur, pg_updated := now\<rparr>)"

definition ping_fail :: "time \<Rightarrow> string \<Rightarrow> string \<Rightarrow> i64 \<Rightarrow> ping list \<Rightarrow> ping list" where
  "ping_fail now i msg dur = upd_where (\<lambda>p. pg_id p = i)
     (\<lambda>p. p\<lparr>pg_status := ''failed'', pg_error := msg, pg_duration := dur, pg_updated := now\<rparr>)"

section \<open>Updates\<close>

record update =
  ud_id :: string
  ud_runtime :: string
  ud_status :: string
  ud_target :: string
  ud_output :: string
  ud_error :: string
  ud_created :: time
  ud_updated :: time

definition open_update :: "update \<Rightarrow> bool" where
  "open_update u \<longleftrightarrow> ud_status u = ''pending'' \<or> ud_status u = ''running''"

definition update_create :: "time \<Rightarrow> string \<Rightarrow> string \<Rightarrow> string \<Rightarrow> update list \<Rightarrow> update list \<times> update option" where
  "update_create now i rt target us =
     (let kept = filter (\<lambda>u. now - ud_created u \<le> secs 300) us;
          u = \<lparr>ud_id = i, ud_runtime = rt, ud_status = ''pending'', ud_target = target, ud_output = '''', ud_error = '''',
               ud_created = now, ud_updated = now\<rparr>
      in if \<exists>x\<in>set kept. ud_runtime x = rt \<and> open_update x then (kept, None) else (put_by ud_id u kept, Some u))"

definition timed_out_update :: "time \<Rightarrow> update \<Rightarrow> update" where
  "timed_out_update now u =
     (if open_update u \<and> secs 120 < now - ud_created u
      then u\<lparr>ud_status := ''timeout'', ud_error := ''update did not complete within 120 seconds'', ud_updated := now\<rparr> else u)"

definition update_get :: "time \<Rightarrow> string \<Rightarrow> update list \<Rightarrow> update list \<times> update option" where
  "update_get now i us = (upd_where (\<lambda>u. ud_id u = i) (timed_out_update now) us, map_option (timed_out_update now) (find (\<lambda>u. ud_id u = i) us))"

definition update_pop :: "rank \<Rightarrow> time \<Rightarrow> string \<Rightarrow> update list \<Rightarrow> update list \<times> update option" where
  "update_pop rank now rt us =
     (case find (\<lambda>u. ud_runtime u = rt \<and> ud_status u = ''pending'') (walk ud_id rank us) of
        None \<Rightarrow> (us, None)
      | Some u \<Rightarrow> let f = (\<lambda>x. x\<lparr>ud_status := ''running'', ud_updated := now\<rparr>) in (upd_where (\<lambda>x. ud_id x = ud_id u) f us, Some (f u)))"

definition update_complete :: "time \<Rightarrow> string \<Rightarrow> string \<Rightarrow> update list \<Rightarrow> update list" where
  "update_complete now i out = upd_where (\<lambda>u. ud_id u = i) (\<lambda>u. u\<lparr>ud_status := ''completed'', ud_output := out, ud_updated := now\<rparr>)"

definition update_fail :: "time \<Rightarrow> string \<Rightarrow> string \<Rightarrow> update list \<Rightarrow> update list" where
  "update_fail now i msg = upd_where (\<lambda>u. ud_id u = i) (\<lambda>u. u\<lparr>ud_status := ''failed'', ud_error := msg, ud_updated := now\<rparr>)"

section \<open>Histories of a store\<close>

text \<open>The calls of the methods; a step tells which request it handed to a daemon.\<close>

datatype command_op =
    Create time string string string
  | Look time string
  | Pop rank time string
  | Finish time string string i64
  | Give_up time string string i64

fun ping_op :: "command_op \<Rightarrow> ping list \<Rightarrow> ping list \<times> string option" where
  "ping_op (Create now i rt target) ps = (fst (ping_create now i rt ps), None)"
| "ping_op (Look now i) ps = (fst (ping_get now i ps), None)"
| "ping_op (Pop rank now rt) ps = map_prod id (map_option pg_id) (ping_pop rank now rt ps)"
| "ping_op (Finish now i out dur) ps = (ping_complete now i out dur ps, None)"
| "ping_op (Give_up now i msg dur) ps = (ping_fail now i msg dur ps, None)"

fun update_op :: "command_op \<Rightarrow> update list \<Rightarrow> update list \<times> string option" where
  "update_op (Create now i rt target) us = (fst (update_create now i rt target us), None)"
| "update_op (Look now i) us = (fst (update_get now i us), None)"
| "update_op (Pop rank now rt) us = map_prod id (map_option ud_id) (update_pop rank now rt us)"
| "update_op (Finish now i out dur) us = (update_complete now i out us, None)"
| "update_op (Give_up now i msg dur) us = (update_fail now i msg us, None)"

fun makes :: "command_op \<Rightarrow> string list" where
  "makes (Create now i rt target) = [i]"
| "makes _ = []"

fun play :: "(command_op \<Rightarrow> 'r list \<Rightarrow> 'r list \<times> string option) \<Rightarrow> command_op list \<Rightarrow> 'r list \<Rightarrow> 'r list \<times> string list" where
  "play step [] rs = (rs, [])"
| "play step (x # xs) rs =
     (let (rs1, h) = step x rs; (rs2, hs) = play step xs rs1 in (rs2, case h of None \<Rightarrow> hs | Some i \<Rightarrow> i # hs))"

section \<open>The contract of a store\<close>

locale command_store =
  fixes key :: "'r \<Rightarrow> string" and waits :: "'r \<Rightarrow> bool" and step :: "command_op \<Rightarrow> 'r list \<Rightarrow> 'r list \<times> string option"
  assumes hands_waiting: "step x rs = (rs', Some i) \<Longrightarrow> \<exists>r\<in>set rs. key r = i \<and> waits r"
    and handed_gone: "step x rs = (rs', Some i) \<Longrightarrow> r \<in> set rs' \<Longrightarrow> waits r \<Longrightarrow> key r \<noteq> i"
    and hands_makes: "step x rs = (rs', Some i) \<Longrightarrow> makes x = []"
    and waits_from: "step x rs = (rs', h) \<Longrightarrow> r \<in> set rs' \<Longrightarrow> waits r \<Longrightarrow>
      key r \<in> set (makes x) \<or> (\<exists>s\<in>set rs. key s = key r \<and> waits s)"
begin

abbreviation waiting :: "'r list \<Rightarrow> string set" where
  "waiting rs \<equiv> key ` {r \<in> set rs. waits r}"

lemma waiting_step:
  assumes "step x rs = (rs', h)"
  shows "waiting rs' \<subseteq> set (makes x) \<union> waiting rs"
proof
  fix i
  assume "i \<in> waiting rs'"
  then obtain r where r: "r \<in> set rs'" "waits r" "i = key r" by blast
  from waits_from [OF assms r(1,2)] show "i \<in> set (makes x) \<union> waiting rs" unfolding r(3) by (metis (mono_tags, lifting) UnCI image_eqI mem_Collect_eq)
qed

lemma sets_apart: "A1 \<subseteq> M \<union> A \<Longrightarrow> A \<inter> (M \<union> C) = {} \<Longrightarrow> M \<inter> C = {} \<Longrightarrow> A1 \<inter> C = {}"
  by blast

lemma sets_grow: "G \<subseteq> A1 \<union> C \<Longrightarrow> A1 \<subseteq> M \<union> A \<Longrightarrow> G \<subseteq> A \<union> (M \<union> C)"
  by blast

lemma handed_once:
  assumes "distinct (concat (map makes xs))" "waiting rs \<inter> set (concat (map makes xs)) = {}" "play step xs rs = (rs', hs)"
  shows "distinct hs \<and> set hs \<subseteq> waiting rs \<union> set (concat (map makes xs))"
  using assms
proof (induction xs arbitrary: rs rs' hs)
  case Nil
  then show ?case by simp
next
  case (Cons x xs)
  obtain rs1 h where st: "step x rs = (rs1, h)" by fastforce
  obtain rs2 gs where pl: "play step xs rs1 = (rs2, gs)" by fastforce
  have hs: "hs = (case h of None \<Rightarrow> gs | Some i \<Rightarrow> i # gs)" using Cons.prems(3) by (simp add: st pl)
  note W = waiting_step [OF st]
  have "waiting rs1 \<inter> set (concat (map makes xs)) = {}"
    by (rule sets_apart [OF W]) (use Cons.prems(1,2) in simp_all)
  from Cons.IH [OF _ this pl] Cons.prems(1) have IH: "distinct gs" "set gs \<subseteq> waiting rs1 \<union> set (concat (map makes xs))" by simp_all
  show ?case
  proof (cases h)
    case None
    with IH(1) sets_grow [OF IH(2) W] show ?thesis by (simp add: hs)
  next
    case (Some i)
    have i: "i \<in> waiting rs" using hands_waiting [OF st [unfolded Some]] by blast
    moreover have "i \<notin> waiting rs1" using handed_gone [OF st [unfolded Some]] by blast
    ultimately have "i \<notin> set gs" using IH(2) Cons.prems(2) by auto
    with IH(1) sets_grow [OF IH(2) W] i show ?thesis by (simp add: hs Some)
  qed
qed

end

end
