(* ===== verification/RuntimeApi.thy ===== *)
theory RuntimeApi
  imports DaemonCalls RuntimeCommands
begin

text \<open>
  The runtimes of the daemons (\<^verbatim>\<open>handler/daemon.go\<close>, \<^verbatim>\<open>runtime_provider.go\<close>, \<^verbatim>\<open>runtime.sql\<close>): registration with the
  recovery of a restarted process, the heartbeat, deregistration and the sweeper (\<^verbatim>\<open>cmd/server/runtime_sweeper.go\<close>), and
  the requests that leave commands for a daemon. Registration also seeds default agents, which is left out.
\<close>

section \<open>Statements\<close>

definition get_runtime_by_identity :: "db \<Rightarrow> uuid option \<Rightarrow> pgtext \<Rightarrow> string \<Rightarrow> runtime_row res" where
  "get_runtime_by_identity d w daemon prov =
     select_one (\<lambda>x. Some (rt_workspace x) = w \<and> daemon \<noteq> None \<and> rt_daemon_id x = daemon \<and> rt_provider x = prov) (runtimes d)"

definition same_identity :: "runtime_row \<Rightarrow> runtime_row \<Rightarrow> bool" where
  "same_identity x y \<longleftrightarrow> rt_workspace x = rt_workspace y \<and> rt_daemon_id x \<noteq> None \<and> rt_daemon_id x = rt_daemon_id y \<and>
     rt_provider x = rt_provider y"

definition refreshed_runtime :: "env \<Rightarrow> runtime_row \<Rightarrow> runtime_row \<Rightarrow> runtime_row" where
  "refreshed_runtime e new x = x\<lparr>rt_name := rt_name new, rt_mode := rt_mode new, rt_status := rt_status new,
     rt_device_info := rt_device_info new, rt_metadata := rt_metadata new, rt_last_seen := Some (e_now e), rt_updated_at := e_now e\<rparr>"

definition upsert_agent_runtime :: "env \<Rightarrow> db \<Rightarrow> runtime_row \<Rightarrow> (db \<times> runtime_row) res" where
  "upsert_agent_runtime e d new =
     (if rt_mode new \<notin> set [''local'', ''cloud''] \<or> rt_status new \<notin> set [''online'', ''offline''] then Inl ErrConstraint
      else case select_one (same_identity new) (runtimes d) of
        Inr x \<Rightarrow> Inr (d\<lparr>runtimes := upd_where (same_identity new) (refreshed_runtime e new) (runtimes d)\<rparr>, refreshed_runtime e new x)
      | Inl _ \<Rightarrow> if rt_id new \<in> rt_id ` set (runtimes d) then Inl ErrConstraint
                 else Inr (d\<lparr>runtimes := runtimes d @ [new]\<rparr>, new))"

definition runtime_heartbeat :: "env \<Rightarrow> db \<Rightarrow> uuid option \<Rightarrow> (db \<times> runtime_row) res" where
  "runtime_heartbeat e d r =
     (let f = (\<lambda>x. x\<lparr>rt_status := ''online'', rt_last_seen := Some (e_now e), rt_updated_at := e_now e\<rparr>); P = (\<lambda>x. Some (rt_id x) = r) in
      or_fail (select_one P (runtimes d)) (\<lambda>x. Inr (d\<lparr>runtimes := upd_where P f (runtimes d)\<rparr>, f x)))"

definition set_runtime_offline :: "env \<Rightarrow> db \<Rightarrow> uuid option \<Rightarrow> db" where
  "set_runtime_offline e d r = d\<lparr>runtimes := upd_where (\<lambda>x. Some (rt_id x) = r)
     (\<lambda>x. x\<lparr>rt_status := ''offline'', rt_updated_at := e_now e\<rparr>) (runtimes d)\<rparr>"

definition stale_runtime :: "env \<Rightarrow> time \<Rightarrow> runtime_row \<Rightarrow> bool" where
  "stale_runtime e limit x \<longleftrightarrow> rt_status x = ''online'' \<and> older_than (e_now e) limit (rt_last_seen x)"

definition mark_stale_runtimes_offline :: "env \<Rightarrow> time \<Rightarrow> db \<Rightarrow> db \<times> (uuid \<times> uuid) list" where
  "mark_stale_runtimes_offline e limit d =
     (d\<lparr>runtimes := upd_where (stale_runtime e limit) (\<lambda>x. x\<lparr>rt_status := ''offline'', rt_updated_at := e_now e\<rparr>) (runtimes d)\<rparr>,
      map (\<lambda>x. (rt_id x, rt_workspace x)) (filter (stale_runtime e limit) (runtimes d)))"

section \<open>Agents after a registration\<close>

definition live_agents :: "db \<Rightarrow> uuid option \<Rightarrow> agent_row list" where
  "live_agents d w = sort_by (\<lambda>a b. ag_created_at a < ag_created_at b)
     (filter (\<lambda>a. Some (ag_workspace a) = w \<and> ag_archived_at a = None) (agents d))"

definition system_event :: "string \<Rightarrow> string \<Rightarrow> jmap \<Rightarrow> event" where
  "system_event ty ws payload = \<lparr>ev_id = '''', ev_type = ty, ev_workspace = ws, ev_actor_type = ''system'', ev_actor = '''', ev_payload = JObj payload\<rparr>"

definition reconcile_agent :: "env \<Rightarrow> string \<Rightarrow> server \<Rightarrow> agent_row \<Rightarrow> server" where
  "reconcile_agent e ws s a =
     (let status = (if 0 < count_running_tasks (sv_db s) (Some (ag_id a)) then ''working'' else ''idle'') in
      if ag_status a = status then s
      else case update_agent_status_stmt e (sv_db s) (Some (ag_id a)) status of
        Inl _ \<Rightarrow> s
      | Inr (d, u) \<Rightarrow> say (system_event ''agent:status'' ws
          [(''agent_id'', JStr (uuid_text (ag_id u))), (''status'', JStr (ag_status u))]) (put_db s d))"

definition reconcile_agents_for_workspace :: "api \<Rightarrow> env \<Rightarrow> server \<Rightarrow> string \<Rightarrow> server" where
  "reconcile_agents_for_workspace p e s ws = foldl (reconcile_agent e ws) s (live_agents (sv_db s) (api_uuid p ws))"

section \<open>Registration\<close>

definition validate_local_runtime_provider :: "string \<Rightarrow> string + string" where
  "validate_local_runtime_provider raw =
     (let prov = to_lower (trim_space raw) in
      if prov = '''' then Inl ''provider is required''
      else if descriptor_for prov = None then Inl (''unsupported local runtime provider '' @ quoted prov) else Inr prov)"

record runtime_body =
  ru_name :: string
  ru_type :: string
  ru_version :: string
  ru_status :: string

record register_body =
  rg_workspace :: string
  rg_daemon :: string
  rg_instance :: string
  rg_device :: string
  rg_cli :: string
  rg_runtimes :: "runtime_body list"

fun canonical_types :: "nat \<Rightarrow> runtime_body list \<Rightarrow> string + runtime_body list" where
  "canonical_types i [] = Inr []"
| "canonical_types i (r # rs) =
     (case validate_local_runtime_provider (ru_type r) of
        Inl msg \<Rightarrow> Inl (''runtimes['' @ itoa (int i) @ ''].type: '' @ msg)
      | Inr prov \<Rightarrow> map_sum id ((#) (r\<lparr>ru_type := prov\<rparr>)) (canonical_types (Suc i) rs))"

definition trimmed :: "register_body \<Rightarrow> register_body" where
  "trimmed b = b\<lparr>rg_workspace := trim_space (rg_workspace b), rg_daemon := trim_space (rg_daemon b),
     rg_instance := trim_space (rg_instance b), rg_device := trim_space (rg_device b)\<rparr>"

definition runtime_name :: "register_body \<Rightarrow> runtime_body \<Rightarrow> string" where
  "runtime_name b r =
     (if trim_space (ru_name r) \<noteq> '''' then trim_space (ru_name r)
      else if rg_device b \<noteq> '''' then ru_type r @ '' ('' @ rg_device b @ '')'' else ru_type r)"

text \<open>The two parts of the device are joined by a middle dot, two bytes in UTF-8.\<close>

definition device_info :: "register_body \<Rightarrow> runtime_body \<Rightarrow> string" where
  "device_info b r =
     (if ru_version r \<noteq> '''' \<and> trim_space (rg_device b) \<noteq> ''''
      then trim_space (rg_device b) @ [CHR '' '', CHR 0xC2, CHR 0xB7, CHR '' ''] @ ru_version r
      else if ru_version r \<noteq> '''' then ru_version r else trim_space (rg_device b))"

definition runtime_metadata :: "register_body \<Rightarrow> runtime_body \<Rightarrow> jmap" where
  "runtime_metadata b r = [(''cli_version'', JStr (rg_cli b)), (''instance_id'', JStr (rg_instance b)), (''version'', JStr (ru_version r))]"

text \<open>\<^verbatim>\<open>json.Unmarshal\<close> into a struct of one field, its error ignored.\<close>

definition read_instance :: "codec \<Rightarrow> string \<Rightarrow> string" where
  "read_instance c raw =
     (case cd_json c raw of
        Some (JObj kvs) \<Rightarrow> foldl (\<lambda>i (k, v). if to_lower k = ''instance_id'' then (case v of JStr s \<Rightarrow> s | _ \<Rightarrow> i) else i) '''' kvs
      | _ \<Rightarrow> '''')"

definition registered_row :: "(jmap \<Rightarrow> string) \<Rightarrow> env \<Rightarrow> uuid \<Rightarrow> register_body \<Rightarrow> runtime_body \<Rightarrow> runtime_row" where
  "registered_row print e w b r = \<lparr>rt_id = e_gen e 0, rt_workspace = w, rt_daemon_id = str_to_text (rg_daemon b),
     rt_name = runtime_name b r, rt_mode = ''local'', rt_provider = ru_type r,
     rt_status = (if ru_status r = ''offline'' then ''offline'' else ''online''), rt_device_info = device_info b r,
     rt_metadata = print (runtime_metadata b r), rt_last_seen = Some (e_now e), rt_created_at = e_now e, rt_updated_at = e_now e\<rparr>"

definition should_recover :: "codec \<Rightarrow> db \<Rightarrow> uuid \<Rightarrow> register_body \<Rightarrow> runtime_body \<Rightarrow> bool" where
  "should_recover c d w b r \<longleftrightarrow> rg_instance b \<noteq> '''' \<and>
     (case get_runtime_by_identity d (Some w) (str_to_text (rg_daemon b)) (ru_type r) of
        Inl _ \<Rightarrow> False
      | Inr x \<Rightarrow> read_instance c (rt_metadata x) \<noteq> rg_instance b)"

text \<open>One runtime of the request: the row is stored first, then the work of a former process is recovered.\<close>

definition register_runtime ::
    "api \<Rightarrow> (jmap \<Rightarrow> string) \<Rightarrow> env \<Rightarrow> env \<Rightarrow> db \<Rightarrow> uuid \<Rightarrow> register_body \<Rightarrow> runtime_body \<Rightarrow> db \<times> runtime_row reply" where
  "register_runtime p print e e' d w b r =
     (let recover = should_recover (api_codec p) d w b r; new = registered_row print e w b r in
      case upsert_agent_runtime e d new of
        Inl err \<Rightarrow> (d, Inl (500, ''failed to register runtime: '' @ api_text p err))
      | Inr (d1, row) \<Rightarrow>
          if rt_status new = ''online'' \<and> recover
          then (case lc_recover_tasks_for_runtime (api_lifecycle p) e' d1 (Some (rt_id row)) of
            Inl err \<Rightarrow> (d1, Inl (500, ''failed to recover runtime tasks: '' @ api_text p err))
          | Inr (d2, _) \<Rightarrow> (d2, Inr row))
          else (d1, Inr row))"

fun register_runtimes ::
    "api \<Rightarrow> (jmap \<Rightarrow> string) \<Rightarrow> (nat \<Rightarrow> env) \<Rightarrow> nat \<Rightarrow> db \<Rightarrow> uuid \<Rightarrow> register_body \<Rightarrow> runtime_body list \<Rightarrow> db \<times> runtime_row list reply" where
  "register_runtimes p print es k d w b [] = (d, Inr [])"
| "register_runtimes p print es k d w b (r # rs) =
     (case register_runtime p print (es k) (es (Suc k)) d w b r of
        (d1, Inl err) \<Rightarrow> (d1, Inl err)
      | (d1, Inr row) \<Rightarrow> map_prod id (map_sum id ((#) row)) (register_runtimes p print es (k + 2) d1 w b rs))"

definition runtime_json :: "codec \<Rightarrow> runtime_row \<Rightarrow> json" where
  "runtime_json c r = JObj [(''id'', JStr (uuid_text (rt_id r))), (''workspace_id'', JStr (uuid_text (rt_workspace r))),
     (''daemon_id'', jstr_opt (rt_daemon_id r)), (''name'', JStr (rt_name r)), (''runtime_mode'', JStr (rt_mode r)),
     (''provider'', JStr (rt_provider r)), (''status'', JStr (rt_status r)), (''device_info'', JStr (rt_device_info r)),
     (''metadata'', (case cd_json c (rt_metadata r) of None \<Rightarrow> JObj [] | Some JNull \<Rightarrow> JObj [] | Some j \<Rightarrow> j)),
     (''last_seen_at'', time_to_ptr c (rt_last_seen r)), (''created_at'', JStr (cd_time c (rt_created_at r))),
     (''updated_at'', JStr (cd_time c (rt_updated_at r)))]"

definition daemon_register ::
    "api \<Rightarrow> (jmap \<Rightarrow> string) \<Rightarrow> (nat \<Rightarrow> env) \<Rightarrow> env \<Rightarrow> server \<Rightarrow> string \<Rightarrow> register_body option \<Rightarrow> runtime_row list handled" where
  "daemon_register p print es e s user body =
     (case body of
        None \<Rightarrow> refuse s 400 ''invalid request body''
      | Some raw \<Rightarrow>
          let b = trimmed raw; ws = rg_workspace b in
          if rg_daemon b = '''' then refuse s 400 ''daemon_id is required''
          else if ws = '''' then refuse s 400 ''workspace_id is required''
          else if rg_runtimes b = [] then refuse s 400 ''at least one runtime is required''
          else (case canonical_types 0 (rg_runtimes b) of
            Inl msg \<Rightarrow> refuse s 400 msg
          | Inr rs \<Rightarrow> (case require_workspace_member (api_uuid p) (sv_accounts s) ws user ''workspace not found'' of
              Inl err \<Rightarrow> (s, Inl err)
            | Inr _ \<Rightarrow> (case get_workspace (sv_accounts s) (api_uuid p ws) of
                Inl _ \<Rightarrow> refuse s 404 ''workspace not found''
              | Inr w \<Rightarrow> (case register_runtimes p print es 0 (sv_db s) (sp_id w) b rs of
                  (d, Inl err) \<Rightarrow> (put_db s d, Inl err)
                | (d, Inr rows) \<Rightarrow>
                    (reconcile_agents_for_workspace p e (say (system_event ''daemon:register'' ws
                        [(''runtimes'', JArr (map (runtime_json (api_codec p)) rows))]) (put_db s d)) ws, Inr rows))))))"

section \<open>Deregistration and heartbeat\<close>

fun take_offline :: "api \<Rightarrow> (nat \<Rightarrow> env) \<Rightarrow> nat \<Rightarrow> db \<Rightarrow> string list \<Rightarrow> db \<times> uuid list" where
  "take_offline p es k d [] = (d, [])"
| "take_offline p es k d (i # is) =
     (case get_runtime d (api_uuid p i) of
        Inl _ \<Rightarrow> take_offline p es (Suc k) d is
      | Inr x \<Rightarrow> map_prod id ((#) (rt_workspace x)) (take_offline p es (Suc k) (set_runtime_offline (es k) d (api_uuid p i)) is))"

text \<open>Each workspace is told once; \<open>rank\<close> is the order in which the Go map is walked.\<close>

definition tell_workspaces :: "rank \<Rightarrow> string \<Rightarrow> uuid list \<Rightarrow> server \<Rightarrow> server" where
  "tell_workspaces rank action ws s =
     foldl (\<lambda>s w. say (system_event ''daemon:register'' w [(''action'', JStr action)]) s) s (walk id rank (remdups (map uuid_text ws)))"

definition daemon_deregister :: "api \<Rightarrow> rank \<Rightarrow> (nat \<Rightarrow> env) \<Rightarrow> server \<Rightarrow> string list option \<Rightarrow> unit handled" where
  "daemon_deregister p rank es s body =
     (case body of
        None \<Rightarrow> refuse s 400 ''invalid request body''
      | Some is \<Rightarrow>
          if is = [] then refuse s 400 ''runtime_ids is required''
          else (case take_offline p es 0 (sv_db s) is of (d, ws) \<Rightarrow> (tell_workspaces rank ''deregister'' ws (put_db s d), Inr ())))"

record depot =
  dp_server :: server
  dp_pings :: "ping list"
  dp_updates :: "update list"

definition daemon_heartbeat ::
    "api \<Rightarrow> rank \<Rightarrow> rank \<Rightarrow> env \<Rightarrow> depot \<Rightarrow> string option \<Rightarrow> depot \<times> (ping option \<times> update option) reply" where
  "daemon_heartbeat p rank rank' e q body =
     (case body of
        None \<Rightarrow> (q, Inl (400, ''invalid request body''))
      | Some i \<Rightarrow>
          if i = '''' then (q, Inl (400, ''runtime_id is required''))
          else (case runtime_heartbeat e (sv_db (dp_server q)) (api_uuid p i) of
            Inl _ \<Rightarrow> (q, Inl (500, ''heartbeat failed''))
          | Inr (d, _) \<Rightarrow>
              (case (ping_pop rank (e_wall e) i (dp_pings q), update_pop rank' (e_wall e) i (dp_updates q)) of
                 ((ps, x), (us, u)) \<Rightarrow> (q\<lparr>dp_server := put_db (dp_server q) d, dp_pings := ps, dp_updates := us\<rparr>, Inr (x, u)))))"

section \<open>Commands\<close>

definition runtime_of_member :: "api \<Rightarrow> server \<Rightarrow> string \<Rightarrow> string \<Rightarrow> runtime_row reply" where
  "runtime_of_member p s user i =
     (case get_runtime (sv_db s) (api_uuid p i) of
        Inl _ \<Rightarrow> Inl (404, ''runtime not found'')
      | Inr x \<Rightarrow> map_sum id (\<lambda>_. x)
          (require_workspace_member (api_uuid p) (sv_accounts s) (uuid_text (rt_workspace x)) user ''runtime not found''))"

definition initiate_ping :: "api \<Rightarrow> time \<Rightarrow> string \<Rightarrow> depot \<Rightarrow> string \<Rightarrow> string \<Rightarrow> depot \<times> ping reply" where
  "initiate_ping p now new q user i =
     (case runtime_of_member p (dp_server q) user i of
        Inl err \<Rightarrow> (q, Inl err)
      | Inr _ \<Rightarrow> (case ping_create now new i (dp_pings q) of (ps, x) \<Rightarrow> (q\<lparr>dp_pings := ps\<rparr>, Inr x)))"

definition get_ping :: "time \<Rightarrow> depot \<Rightarrow> string \<Rightarrow> depot \<times> ping reply" where
  "get_ping now q i =
     (case ping_get now i (dp_pings q) of
        (ps, None) \<Rightarrow> (q\<lparr>dp_pings := ps\<rparr>, Inl (404, ''ping not found''))
      | (ps, Some x) \<Rightarrow> (q\<lparr>dp_pings := ps\<rparr>, Inr x))"

definition report_ping_result :: "time \<Rightarrow> depot \<Rightarrow> string \<Rightarrow> (string \<times> string \<times> string \<times> i64) option \<Rightarrow> depot \<times> unit reply" where
  "report_ping_result now q i body =
     (case body of
        None \<Rightarrow> (q, Inl (400, ''invalid request body''))
      | Some (status, out, msg, dur) \<Rightarrow>
          (q\<lparr>dp_pings := (if status = ''completed'' then ping_complete now i out dur else ping_fail now i msg dur) (dp_pings q)\<rparr>, Inr ()))"

definition initiate_update ::
    "api \<Rightarrow> time \<Rightarrow> string \<Rightarrow> depot \<Rightarrow> string \<Rightarrow> string \<Rightarrow> string option \<Rightarrow> depot \<times> update reply" where
  "initiate_update p now new q user i body =
     (case runtime_of_member p (dp_server q) user i of
        Inl err \<Rightarrow> (q, Inl err)
      | Inr _ \<Rightarrow> (case body of
          None \<Rightarrow> (q, Inl (400, ''invalid request body''))
        | Some target \<Rightarrow>
            if target = '''' then (q, Inl (400, ''target_version is required''))
            else (case update_create now new i target (dp_updates q) of
              (us, None) \<Rightarrow> (q\<lparr>dp_updates := us\<rparr>, Inl (409, ''an update is already in progress for this runtime''))
            | (us, Some u) \<Rightarrow> (q\<lparr>dp_updates := us\<rparr>, Inr u))))"

definition get_update :: "time \<Rightarrow> depot \<Rightarrow> string \<Rightarrow> depot \<times> update reply" where
  "get_update now q i =
     (case update_get now i (dp_updates q) of
        (us, None) \<Rightarrow> (q\<lparr>dp_updates := us\<rparr>, Inl (404, ''update not found''))
      | (us, Some x) \<Rightarrow> (q\<lparr>dp_updates := us\<rparr>, Inr x))"

definition report_update_result :: "time \<Rightarrow> depot \<Rightarrow> string \<Rightarrow> (string \<times> string \<times> string) option \<Rightarrow> depot \<times> unit reply" where
  "report_update_result now q i body =
     (case body of
        None \<Rightarrow> (q, Inl (400, ''invalid request body''))
      | Some (status, out, msg) \<Rightarrow>
          if status = ''completed'' then (q\<lparr>dp_updates := update_complete now i out (dp_updates q)\<rparr>, Inr ())
          else if status = ''failed'' then (q\<lparr>dp_updates := update_fail now i msg (dp_updates q)\<rparr>, Inr ())
          else if status = ''running'' then (q, Inr ())
          else (q, Inl (400, ''invalid status: '' @ status)))"

section \<open>The sweeper\<close>

definition sweep_stale_runtimes :: "lifecycle_handle \<Rightarrow> rank \<Rightarrow> env \<Rightarrow> env \<Rightarrow> server \<Rightarrow> server" where
  "sweep_stale_runtimes l rank e e' s =
     (let (d, stale) = mark_stale_runtimes_offline e (secs 45) (sv_db s);
          d' = (case lc_fail_tasks_for_offline_runtimes l e' d of Inl _ \<Rightarrow> d | Inr (d', _) \<Rightarrow> d')
      in tell_workspaces rank ''stale_sweep'' (map snd stale) (put_db s d'))"

definition sweep_stale_tasks :: "lifecycle_handle \<Rightarrow> env \<Rightarrow> server \<Rightarrow> server" where
  "sweep_stale_tasks l e s =
     (case lc_fail_stale_tasks l e (sv_db s) (secs 300) (secs 9000) of Inl _ \<Rightarrow> s | Inr (d, _) \<Rightarrow> put_db s d)"

text \<open>One tick of \<^verbatim>\<open>runRuntimeSweeper\<close>.\<close>

definition sweep :: "lifecycle_handle \<Rightarrow> rank \<Rightarrow> (nat \<Rightarrow> env) \<Rightarrow> server \<Rightarrow> server" where
  "sweep l rank es s = sweep_stale_tasks l (es 2) (sweep_stale_runtimes l rank (es 0) (es 1) s)"

end
