(* ===== verification/CommandProps.thy ===== *)
theory CommandProps
  imports RuntimeCommands
begin

text \<open>
  Commands reach a daemon at most once, and a runtime has at most one update under way.
\<close>

section \<open>The stores meet the contract\<close>

abbreviation ping_waits :: "ping \<Rightarrow> bool" where "ping_waits p \<equiv> pg_status p = ''pending''"
abbreviation update_waits :: "update \<Rightarrow> bool" where "update_waits u \<equiv> ud_status u = ''pending''"

lemma oldest_ping_in: "oldest_ping best ps = Some p \<Longrightarrow> p \<in> set ps \<or> best = Some p"
proof (induction ps arbitrary: best)
  case (Cons q ps)
  from Cons.IH [OF Cons.prems [unfolded oldest_ping.simps]] show ?case by (auto split: option.splits if_splits)
qed simp

lemma found_in: "find P xs = Some x \<Longrightarrow> x \<in> set xs \<and> P x"
  by (induction xs) (auto split: if_splits)

lemma ping_pop_cases:
  assumes "ping_pop rank now rt ps = (ps', h)"
  shows "ps' = ps \<and> h = None \<or> (\<exists>p\<in>set ps. ping_waits p \<and> pg_runtime p = rt \<and>
    ps' = upd_where (\<lambda>x. pg_id x = pg_id p) (\<lambda>x. x\<lparr>pg_status := ''running'', pg_updated := now\<rparr>) ps \<and> map_option pg_id h = Some (pg_id p))"
  using assms by (auto simp: ping_pop_def Let_def split: option.splits dest!: oldest_ping_in)

lemma update_pop_cases:
  assumes "update_pop rank now rt us = (us', h)"
  shows "us' = us \<and> h = None \<or> (\<exists>u\<in>set us. update_waits u \<and> ud_runtime u = rt \<and>
    us' = upd_where (\<lambda>x. ud_id x = ud_id u) (\<lambda>x. x\<lparr>ud_status := ''running'', ud_updated := now\<rparr>) us \<and> map_option ud_id h = Some (ud_id u))"
  using assms by (auto simp: update_pop_def Let_def split: option.splits dest!: found_in)

lemma in_upd_where: "x \<in> set (upd_where P f rs) \<longleftrightarrow> (\<exists>r\<in>set rs. x = (if P r then f r else r))"
  by (auto simp: upd_where_def)

lemma still_waiting:
  "r \<in> set (upd_where (\<lambda>x. pg_id x = i) (\<lambda>x. x\<lparr>pg_status := ''running'', pg_updated := now\<rparr>) ps) \<Longrightarrow> ping_waits r \<Longrightarrow> pg_id r \<noteq> i \<and> r \<in> set ps"
  "q \<in> set (upd_where (\<lambda>x. ud_id x = i) (\<lambda>x. x\<lparr>ud_status := ''running'', ud_updated := now\<rparr>) us) \<Longrightarrow> update_waits q \<Longrightarrow> ud_id q \<noteq> i \<and> q \<in> set us"
  unfolding in_upd_where by (elim bexE, simp split: if_splits)+

interpretation ping_store: command_store pg_id ping_waits ping_op
proof
  show "\<exists>r\<in>set rs. pg_id r = i \<and> ping_waits r" if "ping_op x rs = (rs', Some i)" for x rs rs' i
    using that ping_pop_cases by (cases x) (fastforce simp: map_prod_def split: prod.splits)+
  show "pg_id r \<noteq> i" if "ping_op x rs = (rs', Some i)" "r \<in> set rs'" "ping_waits r" for x rs rs' i r
  proof (cases x)
    case (Pop rank now rt)
    obtain ps h where p: "ping_pop rank now rt rs = (ps, h)" by fastforce
    with that(1) Pop have "ps = rs'" "map_option pg_id h = Some i" by simp_all
    with ping_pop_cases [OF p] that(2,3) show ?thesis by (auto dest!: still_waiting)
  qed (use that(1) in simp_all)
  show "makes x = []" if "ping_op x rs = (rs', Some i)" for x rs rs' i
    using that by (cases x) simp_all
  show "pg_id r \<in> set (makes x) \<or> (\<exists>s\<in>set rs. pg_id s = pg_id r \<and> ping_waits s)"
    if "ping_op x rs = (rs', h)" "r \<in> set rs'" "ping_waits r" for x rs rs' h r
  proof (cases x)
    case (Pop rank now rt)
    obtain ps g where p: "ping_pop rank now rt rs = (ps, g)" by fastforce
    with that(1) Pop have "ps = rs'" by simp
    with ping_pop_cases [OF p] that(2,3) show ?thesis by (auto dest!: still_waiting)
  qed (use that in \<open>auto simp: ping_create_def put_by_def Let_def ping_get_def timed_out_ping_def ping_complete_def
      ping_fail_def in_upd_where split: if_splits\<close>)
qed

interpretation update_store: command_store ud_id update_waits update_op
proof
  show "\<exists>r\<in>set rs. ud_id r = i \<and> update_waits r" if "update_op x rs = (rs', Some i)" for x rs rs' i
    using that update_pop_cases by (cases x) (fastforce simp: map_prod_def split: prod.splits)+
  show "ud_id r \<noteq> i" if "update_op x rs = (rs', Some i)" "r \<in> set rs'" "update_waits r" for x rs rs' i r
  proof (cases x)
    case (Pop rank now rt)
    obtain us h where p: "update_pop rank now rt rs = (us, h)" by fastforce
    with that(1) Pop have "us = rs'" "map_option ud_id h = Some i" by simp_all
    with update_pop_cases [OF p] that(2,3) show ?thesis by (auto dest!: still_waiting)
  qed (use that(1) in simp_all)
  show "makes x = []" if "update_op x rs = (rs', Some i)" for x rs rs' i
    using that by (cases x) simp_all
  show "ud_id r \<in> set (makes x) \<or> (\<exists>s\<in>set rs. ud_id s = ud_id r \<and> update_waits s)"
    if "update_op x rs = (rs', h)" "r \<in> set rs'" "update_waits r" for x rs rs' h r
  proof (cases x)
    case (Pop rank now rt)
    obtain us g where p: "update_pop rank now rt rs = (us, g)" by fastforce
    with that(1) Pop have "us = rs'" by simp
    with update_pop_cases [OF p] that(2,3) show ?thesis by (auto dest!: still_waiting)
  qed (use that in \<open>auto simp: update_create_def put_by_def Let_def update_get_def timed_out_update_def update_complete_def
      update_fail_def in_upd_where split: if_splits\<close>)
qed

section \<open>At most once\<close>

text \<open>C39. A ping and an update are handed to a daemon at most once: in any sequence of calls in which the random
  identifiers of the requests differ, no heartbeat gets a request an earlier one got, and each gets only what was created.\<close>

theorem commands_handed_out_once:
  assumes "distinct (concat (map makes xs))"
  shows "distinct (snd (play ping_op xs [])) \<and> set (snd (play ping_op xs [])) \<subseteq> set (concat (map makes xs)) \<and>
    distinct (snd (play update_op xs [])) \<and> set (snd (play update_op xs [])) \<subseteq> set (concat (map makes xs))"
  using ping_store.handed_once [OF assms, of "[]" "fst (play ping_op xs [])" "snd (play ping_op xs [])"]
    update_store.handed_once [OF assms, of "[]" "fst (play update_op xs [])" "snd (play update_op xs [])"]
  by simp

lemma commands_handed_out_once_witness:
  "snd (play ping_op [Create 0 ''a'' ''r'' '''', Pop (\<lambda>_. 0) 1 ''r'', Create 2 ''b'' ''r'' '''', Pop (\<lambda>_. 0) 3 ''r'', Pop (\<lambda>_. 0) 4 ''r''] []) =
     [''a'', ''b''] \<and> distinct (snd (play ping_op [Create 0 ''a'' ''r'' '''', Pop (\<lambda>_. 0) 1 ''r'', Create 2 ''b'' ''r'' '''', Pop (\<lambda>_. 0) 3 ''r'',
       Pop (\<lambda>_. 0) 4 ''r''] []))"
proof
  show "distinct (snd (play ping_op [Create 0 ''a'' ''r'' '''', Pop (\<lambda>_. 0) 1 ''r'', Create 2 ''b'' ''r'' '''', Pop (\<lambda>_. 0) 3 ''r'',
       Pop (\<lambda>_. 0) 4 ''r''] []))"
    using commands_handed_out_once [of "[Create 0 ''a'' ''r'' '''', Pop (\<lambda>_. 0) 1 ''r'', Create 2 ''b'' ''r'' '''', Pop (\<lambda>_. 0) 3 ''r'',
       Pop (\<lambda>_. 0) 4 ''r'']"] by simp
qed (simp add: ping_create_def ping_pop_def put_by_def upd_where_def walk_def secs_def Let_def)

section \<open>One update at a time\<close>

definition updates_ok :: "update list \<Rightarrow> bool" where
  "updates_ok us \<longleftrightarrow> distinct (map ud_id us) \<and>
     (\<forall>u\<in>set us. \<forall>v\<in>set us. open_update u \<and> open_update v \<and> ud_runtime u = ud_runtime v \<longrightarrow> u = v)"

lemma distinct_put_by: "distinct (map key rs) \<Longrightarrow> distinct (map key (put_by key r rs))"
  by (auto simp: put_by_def distinct_map_filter)

lemma update_rewrite_ok:
  assumes "updates_ok us" "\<And>u. ud_id (f u) = ud_id u \<and> ud_runtime (f u) = ud_runtime u \<and> (open_update (f u) \<longrightarrow> P u \<longrightarrow> open_update u)"
  shows "updates_ok (upd_where P f us)"
proof -
  have "map ud_id (upd_where P f us) = map ud_id us" using assms(2) by (simp add: upd_where_def)
  moreover have "u = v" if "u \<in> set (upd_where P f us)" "v \<in> set (upd_where P f us)" "open_update u" "open_update v" "ud_runtime u = ud_runtime v" for u v
  proof -
    from that(1,2) obtain x y where x: "x \<in> set us" "u = (if P x then f x else x)" and y: "y \<in> set us" "v = (if P y then f y else y)"
      unfolding in_upd_where by blast
    have "x = y" using assms x y that(3,4,5) unfolding updates_ok_def by (metis (full_types))
    with x y show ?thesis by simp
  qed
  ultimately show ?thesis using assms(1) by (simp add: updates_ok_def)
qed

lemma create_ok:
  assumes "updates_ok us"
  shows "updates_ok (fst (update_create now i rt target us))"
proof -
  let ?kept = "filter (\<lambda>u. now - ud_created u \<le> secs 300) us"
  let ?u = "\<lparr>ud_id = i, ud_runtime = rt, ud_status = ''pending'', ud_target = target, ud_output = '''', ud_error = '''',
    ud_created = now, ud_updated = now\<rparr>"
  have k: "updates_ok ?kept" using assms by (simp add: updates_ok_def distinct_map_filter)
  show ?thesis
  proof (cases "\<exists>x\<in>set ?kept. ud_runtime x = rt \<and> open_update x")
    case True
    with k show ?thesis by (simp add: update_create_def Let_def)
  next
    case False
    have "distinct (map ud_id (put_by ud_id ?u ?kept))" using k by (intro distinct_put_by) (simp add: updates_ok_def)
    moreover have "x = y" if "x \<in> set (put_by ud_id ?u ?kept)" "y \<in> set (put_by ud_id ?u ?kept)" "open_update x" "open_update y"
        "ud_runtime x = ud_runtime y" for x y
      using that False k by (auto simp: put_by_def updates_ok_def)
    ultimately have "updates_ok (put_by ud_id ?u ?kept)" by (simp add: updates_ok_def)
    moreover have "fst (update_create now i rt target us) = put_by ud_id ?u ?kept"
      by (simp only: update_create_def Let_def if_not_P [OF False] fst_conv)
    ultimately show ?thesis by simp
  qed
qed

lemma open_simps [simp]:
  "\<not> open_update (u\<lparr>ud_status := ''completed'', ud_output := a, ud_updated := n\<rparr>)"
  "\<not> open_update (u\<lparr>ud_status := ''failed'', ud_error := a, ud_updated := n\<rparr>)"
  "\<not> open_update (u\<lparr>ud_status := ''timeout'', ud_error := a, ud_updated := n\<rparr>)"
  by (simp_all add: open_update_def)

lemma pop_ok:
  assumes "updates_ok us" "update_pop rank now rt us = (us', h)"
  shows "updates_ok us'"
proof -
  from update_pop_cases [OF assms(2)] consider "us' = us" | u where "u \<in> set us" "update_waits u"
    "us' = upd_where (\<lambda>x. ud_id x = ud_id u) (\<lambda>x. x\<lparr>ud_status := ''running'', ud_updated := now\<rparr>) us" by blast
  then show ?thesis
  proof cases
    case 2
    have same: "x = u" if "x \<in> set us" "ud_id x = ud_id u" for x
      using assms(1) 2(1) that by (auto simp: updates_ok_def distinct_map inj_on_def)
    have "us' = upd_where (\<lambda>x. x = u) (\<lambda>x. x\<lparr>ud_status := ''running'', ud_updated := now\<rparr>) us"
      unfolding 2(3) upd_where_def using same by (intro map_cong) auto
    moreover have "updates_ok (upd_where (\<lambda>x. x = u) (\<lambda>x. x\<lparr>ud_status := ''running'', ud_updated := now\<rparr>) us)"
      by (rule update_rewrite_ok [OF assms(1)]) (use 2(2) in \<open>simp add: open_update_def\<close>)
    ultimately show ?thesis by simp
  qed (use assms(1) in simp)
qed

lemma op_ok: "updates_ok us \<Longrightarrow> updates_ok (fst (update_op x us))"
proof (cases x)
  case (Pop rank now rt)
  then show "updates_ok us \<Longrightarrow> updates_ok (fst (update_op x us))"
    using pop_ok [of us rank now rt "fst (update_pop rank now rt us)" "snd (update_pop rank now rt us)"] by simp
qed (auto simp: create_ok update_get_def update_complete_def update_fail_def timed_out_update_def split: if_splits intro!: update_rewrite_ok)

lemma play_ok: "updates_ok us \<Longrightarrow> updates_ok (fst (play update_op xs us))"
proof (induction xs arbitrary: us)
  case (Cons x xs)
  from Cons.IH [OF op_ok [OF Cons.prems]] show ?case by (simp add: Let_def split: prod.split) (metis fst_conv)
qed simp

text \<open>Requests come from creations.\<close>

definition asked :: "command_op list \<Rightarrow> update \<Rightarrow> bool" where
  "asked xs u \<longleftrightarrow> (\<exists>i target. Create (ud_created u) i (ud_runtime u) target \<in> set xs)"

lemma op_asked:
  assumes "u \<in> set (fst (update_op x us))"
  shows "(\<exists>v\<in>set us. ud_created v = ud_created u \<and> ud_runtime v = ud_runtime u) \<or> asked [x] u"
proof (cases x)
  case (Pop rank now rt)
  obtain us' h where p: "update_pop rank now rt us = (us', h)" by fastforce
  with Pop assms have "u \<in> set us'" by simp
  have "\<exists>v\<in>set us. ud_created v = ud_created u \<and> ud_runtime v = ud_runtime u"
    if "u \<in> set (upd_where P (\<lambda>x. x\<lparr>ud_status := ''running'', ud_updated := now\<rparr>) us)" for P
    using that unfolding in_upd_where by (elim bexE) (intro bexI, auto split: if_splits)
  with update_pop_cases [OF p] \<open>u \<in> set us'\<close> show ?thesis by auto
qed (use assms in \<open>auto simp: update_create_def put_by_def Let_def update_get_def timed_out_update_def update_complete_def
      update_fail_def in_upd_where asked_def split: if_splits\<close>)

lemma play_asked:
  assumes "u \<in> set (fst (play update_op xs us))"
  shows "(\<exists>v\<in>set us. ud_created v = ud_created u \<and> ud_runtime v = ud_runtime u) \<or> asked xs u"
  using assms
proof (induction xs arbitrary: us)
  case (Cons x xs)
  have "u \<in> set (fst (play update_op xs (fst (update_op x us))))" using Cons.prems by (simp add: Let_def split: prod.splits)
  from Cons.IH [OF this] show ?case
  proof
    assume "\<exists>v\<in>set (fst (update_op x us)). ud_created v = ud_created u \<and> ud_runtime v = ud_runtime u"
    then obtain v where v: "v \<in> set (fst (update_op x us))" "ud_created v = ud_created u" "ud_runtime v = ud_runtime u" by blast
    from op_asked [OF v(1)] v(2,3) show ?thesis by (auto simp: asked_def)
  qed (auto simp: asked_def)
qed auto

lemma created_open:
  assumes "update_create now i rt target us = (us', Some u)" "x \<in> set us'" "ud_runtime x = rt" "update_waits x"
  shows "x = u"
  using assms by (auto simp: update_create_def put_by_def Let_def open_update_def split: if_splits)

text \<open>C40. A runtime has at most one update under way, and it is never shut out for longer than five minutes: an update
  asked more than five minutes after every earlier one of the runtime is accepted, and the next heartbeat of the runtime,
  however the map is walked, gets this one.\<close>

theorem updates_exclusive_and_possible:
  shows "(\<forall>u\<in>set (fst (play update_op xs [])). \<forall>v\<in>set (fst (play update_op xs [])).
      open_update u \<and> open_update v \<and> ud_runtime u = ud_runtime v \<longrightarrow> u = v) \<and>
    ((\<forall>t i target. Create t i rt target \<in> set xs \<longrightarrow> secs 300 < now - t) \<longrightarrow>
      (\<exists>us u. update_create now j rt version (fst (play update_op xs [])) = (us, Some u) \<and> ud_id u = j \<and>
        map_option ud_id (snd (update_pop rank later rt us)) = Some j))"
proof (intro conjI impI)
  have "updates_ok (fst (play update_op xs []))" by (rule play_ok) (simp add: updates_ok_def)
  then show "\<forall>u\<in>set (fst (play update_op xs [])). \<forall>v\<in>set (fst (play update_op xs [])).
      open_update u \<and> open_update v \<and> ud_runtime u = ud_runtime v \<longrightarrow> u = v" by (simp add: updates_ok_def)
next
  assume old: "\<forall>t i target. Create t i rt target \<in> set xs \<longrightarrow> secs 300 < now - t"
  let ?us = "fst (play update_op xs [])"
  have "secs 300 < now - ud_created u" if "u \<in> set ?us" "ud_runtime u = rt" for u
    using play_asked [OF that(1)] that(2) old by (auto simp: asked_def)
  then have "\<not> (\<exists>x\<in>set (filter (\<lambda>u. now - ud_created u \<le> secs 300) ?us). ud_runtime x = rt \<and> open_update x)" by fastforce
  then obtain us u where c: "update_create now j rt version ?us = (us, Some u)" "ud_id u = j" "u \<in> set us" "ud_runtime u = rt" "update_waits u"
    by (simp add: update_create_def Let_def put_by_def)
  have "snd (update_pop rank later rt us) = Some (u\<lparr>ud_status := ''running'', ud_updated := later\<rparr>)"
  proof (cases "find (\<lambda>u. ud_runtime u = rt \<and> update_waits u) (walk ud_id rank us)")
    case None
    with c(3-5) show ?thesis by (auto simp: find_None_iff)
  next
    case (Some x)
    with found_in [OF Some] have "x = u" by (intro created_open [OF c(1)]) simp_all
    with Some show ?thesis by (simp add: update_pop_def Let_def)
  qed
  with c(1,2) show "\<exists>us u. update_create now j rt version ?us = (us, Some u) \<and> ud_id u = j \<and>
      map_option ud_id (snd (update_pop rank later rt us)) = Some j" by auto
qed

lemma updates_exclusive_and_possible_witness:
  "snd (update_create 1 ''b'' ''r'' ''v2'' (fst (play update_op [Create 0 ''a'' ''r'' ''v1''] []))) = None \<and>
   (\<exists>us u. update_create (secs 400) ''b'' ''r'' ''v2'' (fst (play update_op [Create 0 ''a'' ''r'' ''v1''] [])) = (us, Some u))"
proof
  show "snd (update_create 1 ''b'' ''r'' ''v2'' (fst (play update_op [Create 0 ''a'' ''r'' ''v1''] []))) = None"
    by (simp add: update_create_def put_by_def Let_def secs_def open_update_def)
  have "\<forall>t i target. Create t i ''r'' target \<in> set [Create 0 ''a'' ''r'' ''v1''] \<longrightarrow> secs 300 < secs 400 - t"
    by (simp add: secs_def)
  with updates_exclusive_and_possible [of "[Create 0 ''a'' ''r'' ''v1'']" "''r''" "secs 400" "''b''" "''v2''" "\<lambda>_. 0" 0]
  show "\<exists>us u. update_create (secs 400) ''b'' ''r'' ''v2'' (fst (play update_op [Create 0 ''a'' ''r'' ''v1''] [])) = (us, Some u)"
    by blast
qed

end
