(* ===== verification/DaemonProps.thy ===== *)
theory DaemonProps
  imports TaskMessages IssueProps
begin

text \<open>
  The calls of a daemon: what a call for a superseded Run is answered, which conversation a claim resumes, and that
  no call takes the database out of what the lifecycle reaches.
\<close>

section \<open>Histories\<close>

lemma answer_run_db [simp]: "sv_db (fst (answer_run p s r)) = w_db (fst r)"
  by (simp add: answer_run_def)

lemma report_keeps_db [simp]:
  "w_db (fst (report_progress l w ref ws summary n m)) = w_db w" "w_db (fst (report_agent_stage l w ref a ws stage)) = w_db w"
  by (simp_all add: report_progress_def report_agent_stage_def split: sum.split)

lemma with_run_db:
  assumes "P (sv_db s)" "\<And>ref. P (sv_db (fst (k ref)))"
  shows "P (sv_db (fst (with_run p s task run k)))"
  using assms by (simp add: with_run_def split: sum.split)

lemma daemon_calls_reachable:
  assumes "lc_reachable (sv_db s)"
  shows "lc_reachable (sv_db (fst (claim_task_by_runtime p es s rt)))"
    and "lc_reachable (sv_db (fst (start_task_call p tr e x s task b1)))"
    and "lc_reachable (sv_db (fst (progress_call p s task b2)))"
    and "lc_reachable (sv_db (fst (stage_call p s task b3)))"
    and "lc_reachable (sv_db (fst (checkpoint_call p e s user task b4)))"
    and "lc_reachable (sv_db (fst (complete_task_call p print e s task b5)))"
    and "lc_reachable (sv_db (fst (fail_task_call p e s task b6)))"
    and "lc_reachable (sv_db (fst (cancel_task_call p e s task)))"
proof -
  note H = history_reachable [OF _ assms]
  show "lc_reachable (sv_db (fst (claim_task_by_runtime p es s rt)))"
    using claim_for_runtime_history [OF assms, THEN H, of "api_codec p" es "api_uuid p rt"]
    by (auto simp: claim_task_by_runtime_def split: prod.split sum.split option.split)
  show "lc_reachable (sv_db (fst (start_task_call p tr e x s task b1)))"
    using start_task_history [OF assms, THEN H] assms
    by (cases b1) (simp_all add: start_task_call_def with_run_db [of lc_reachable])
  show "lc_reachable (sv_db (fst (progress_call p s task b2)))"
    using assms by (cases b2) (simp_all add: progress_call_def with_run_db [of lc_reachable])
  have "lc_reachable (sv_db (fst (case get_task (sv_db s) (rr_work_item ref) of Inl _ \<Rightarrow> refuse s 404 ''task not found''
      | Inr t \<Rightarrow> answer_run p s (report_agent_stage (api_lifecycle p) (sv_world s) ref (uuid_text (tk_agent t))
          (task_workspace (sv_db s) (rr_work_item ref)) stage))))" for ref stage
    using assms by (simp split: sum.split)
  then show "lc_reachable (sv_db (fst (stage_call p s task b3)))"
    using assms by (cases b3) (auto simp: stage_call_def intro: with_run_db [of lc_reachable])
  show "lc_reachable (sv_db (fst (checkpoint_call p e s user task b4)))"
    using callback_history(1) [THEN H] assms
    by (auto simp: checkpoint_call_def intro!: with_run_db [of lc_reachable] split: option.split prod.split sum.split)
  show "lc_reachable (sv_db (fst (complete_task_call p print e s task b5)))"
    using callback_history(2) [THEN H] assms
    by (auto simp: complete_task_call_def intro!: with_run_db [of lc_reachable] split: option.split)
  show "lc_reachable (sv_db (fst (fail_task_call p e s task b6)))"
    using callback_history(4) [THEN H] assms
    by (auto simp: fail_task_call_def intro!: with_run_db [of lc_reachable] split: option.split)
  show "lc_reachable (sv_db (fst (cancel_task_call p e s task)))"
    using callback_history(5) [THEN H, of "api_lifecycle p" e "api_uuid p task"]
    by (auto simp: cancel_task_call_def split: prod.split sum.split)
qed

section \<open>A superseded Run\<close>

lemma assert_running_stale:
  assumes "handle_ok l" "\<not> ref_current d ref [Running]"
  shows "lc_assert_running l d ref = Inl ErrStaleRun"
proof (rule ccontr)
  assume n: "lc_assert_running l d ref \<noteq> Inl ErrStaleRun"
  with assms(1) obtain r t where r: "get_active_task_run d (rr_work_item ref) (rr_run ref) = Inr r"
    and t: "get_task d (rr_work_item ref) = Inr t" "tk_status t = Running" "tk_active_run t = rr_run ref"
    by (auto simp: lc_assert_running_def handle_ok_def split: if_splits sum.splits)
  from r have rr: "r \<in> set (runs d)" "Some (rn_id r) = rr_run ref" "Some (rn_task r) = rr_work_item ref" "rn_status r = Running"
    unfolding get_active_task_run_def by (auto dest: select_one_Inr)
  from get_task_Inr [OF t(1)] have tt: "t \<in> set (tasks d)" "Some (tk_id t) = rr_work_item ref" by simp_all
  have "rn_task r = tk_id t" using rr(3) tt(2) by (metis option.inject)
  then have "ref_current d ref [Running]"
    unfolding ref_current_def current_pair_def using t(2,3) rr tt by (intro bexI [of _ t] bexI [of _ r]) auto
  with assms(2) show False by blast
qed

lemma answer_stale:
  "error_is err ErrStaleRun \<Longrightarrow> answer_run p s (sv_world s, Inl err) = (s, Inl (409, api_text p ErrStaleRun))"
  by (simp add: answer_run_def run_transition_error_def)

text \<open>C11. A daemon whose Run was superseded is told so: a start, progress, completion or failure for a Run that is not
  the current one of the Work Item in a status the call expects is answered with \<^verbatim>\<open>409\<close> and changes nothing.\<close>

theorem superseded_daemon_told:
  assumes "handle_ok (api_lifecycle p)" "e_begin e" "daemon_run_ref p task run = Inr ref"
  shows "(\<not> ref_current (sv_db s) ref [Dispatched] \<longrightarrow>
      start_task_call p tr e x s task (Some run) = (s, Inl (409, api_text p ErrStaleRun))) \<and>
    (\<not> ref_current (sv_db s) ref [Running] \<longrightarrow>
      progress_call p s task (Some \<lparr>pb_run = run, pb_summary = msg, pb_step = n, pb_total = m\<rparr>) = (s, Inl (409, api_text p ErrStaleRun)) \<and>
      (cb_run b = run \<and> validate_task_completion b = None \<longrightarrow>
        complete_task_call p print e s task (Some b) = (s, Inl (409, api_text p ErrStaleRun)))) \<and>
    (\<not> ref_current (sv_db s) ref [Dispatched, Running] \<longrightarrow>
      fail_task_call p e s task (Some (run, msg)) = (s, Inl (409, api_text p ErrStaleRun)))"
proof (intro conjI impI)
  assume "\<not> ref_current (sv_db s) ref [Dispatched]"
  from with_locked_run_stale [OF assms(1,2) this] have "lc_start (api_lifecycle p) e (sv_db s) ref = Inl ErrStaleRun"
    by (simp add: lc_start_def)
  then show "start_task_call p tr e x s task (Some run) = (s, Inl (409, api_text p ErrStaleRun))"
    by (simp add: start_task_call_def with_run_def assms(3) start_task_def answer_stale)
next
  assume n: "\<not> ref_current (sv_db s) ref [Running]"
  then show "progress_call p s task (Some \<lparr>pb_run = run, pb_summary = msg, pb_step = n, pb_total = m\<rparr>) = (s, Inl (409, api_text p ErrStaleRun))"
    by (simp add: progress_call_def with_run_def assms(3) report_progress_def assert_running_stale [OF assms(1) n] answer_stale)
  assume "cb_run b = run \<and> validate_task_completion b = None"
  moreover have "lc_complete (api_lifecycle p) e (sv_db s) ref c = Inl ErrStaleRun" for c
    using with_locked_run_stale [OF assms(1,2) n] by (simp add: lc_complete_def)
  ultimately show "complete_task_call p print e s task (Some b) = (s, Inl (409, api_text p ErrStaleRun))"
    by (simp add: complete_task_call_def with_run_def assms(3) complete_task_def answer_stale)
next
  assume "\<not> ref_current (sv_db s) ref [Dispatched, Running]"
  from with_locked_run_stale [OF assms(1,2) this] have "lc_fail (api_lifecycle p) e (sv_db s) ref msg = Inl ErrStaleRun"
    by (simp add: lc_fail_def lc_fail_with_def)
  then show "fail_task_call p e s task (Some (run, msg)) = (s, Inl (409, api_text p ErrStaleRun))"
    by (simp add: fail_task_call_def with_run_def assms(3) fail_task_def answer_stale)
qed

lemma superseded_daemon_told_witness:
  "fail_task_call demo_api (demo_env 9) demo_server (uuid_text 1000) (Some (uuid_text 2000, ''x'')) =
     (demo_server, Inl (409, api_text demo_api ErrStaleRun))"
proof -
  have "trim_space (uuid_text 2000) = uuid_text 2000" by code_simp
  then have "daemon_run_ref demo_api (uuid_text 1000) (uuid_text 2000) = Inr demo_ref"
    by (simp add: daemon_run_ref_def demo_api_def demo_read_uuid demo_ref_def)
  moreover have "handle_ok (api_lifecycle demo_api)" "e_begin (demo_env 9)"
    by (simp_all add: demo_api_def demo_handle_def handle_ok_def demo_env_def)
  moreover have "\<not> ref_current (sv_db demo_server) demo_ref [Dispatched, Running]"
    by (simp add: ref_current_def demo_server_def demo0_def)
  ultimately show ?thesis using superseded_daemon_told [of demo_api "demo_env 9"] by blast
qed

section \<open>Which conversation a claim resumes\<close>

lemma candidate_in_db:
  "claim_task_candidate c e w cand = (w', Inr (Some cl, b)) \<Longrightarrow> cl_task cl \<in> set (tasks (w_db w'))"
  by (auto simp: claim_task_candidate_def update_agent_status_def update_agent_status_stmt_def Let_def res_simps
      split: sum.splits if_splits dest!: get_task_Inr)

lemma claim_loop_in_db:
  "claim_loop c es d k blocked w cands = (w', Inr (Some cl)) \<Longrightarrow> cl_task cl \<in> set (tasks (w_db w'))"
proof (induction cands arbitrary: k blocked w)
  case (Cons cand rest)
  from Cons.prems show ?case
    by (auto split: if_splits option.splits sum.splits prod.splits bool.splits intro: Cons.IH candidate_in_db)
qed simp

lemma prior_session_from:
  assumes "prior_session d t = (s, dir)" "s \<noteq> ''''" "t \<in> set (tasks d)"
  shows "\<exists>u\<in>set (tasks d). tk_agent u = tk_agent t \<and> tk_issue u = tk_issue t \<and> tk_session u = Some s \<and> (u = t \<or> tk_status u = Completed)"
proof (cases "tk_session t")
  case (Some x)
  with assms show ?thesis by (auto simp: prior_session_def)
next
  case None
  with assms(1,2) obtain y where g: "get_last_task_session d (tk_agent t) (tk_issue t) = Some (Some s, y)"
    by (auto simp: prior_session_def split: option.splits)
  then obtain u where "tk_session u = Some s"
    "first_by completed_later (filter (\<lambda>u. tk_agent u = tk_agent t \<and> tk_issue u = tk_issue t \<and> tk_status u = Completed \<and> tk_session u \<noteq> None)
       (tasks d)) = Some u"
    by (auto simp: get_last_task_session_def simp del: not_None_eq)
  with first_by_in [OF this(2)] show ?thesis by auto
qed

text \<open>A claim resumes only a conversation of the same agent on the same issue: its own last checkpoint or that of
  a completed Work Item of the two.\<close>

theorem resumes_own_conversation:
  assumes "claim_task_by_runtime p es s rt = (s', Inr (Some a))" "ca_prior_session a \<noteq> ''''"
  shows "\<exists>u\<in>set (tasks (sv_db s')). tk_agent u = tk_agent (ca_task a) \<and> tk_issue u = tk_issue (ca_task a) \<and>
    tk_session u = Some (ca_prior_session a) \<and> (u = ca_task a \<or> tk_status u = Completed)"
proof -
  from assms(1) obtain w cl where cl: "claim_task_for_runtime (api_codec p) es (sv_world s) (api_uuid p rt) = (w, Inr (Some cl))"
    "s' = s\<lparr>sv_world := w\<rparr>" "a = claim_details (w_db w) cl"
    by (auto simp: claim_task_by_runtime_def split: prod.splits sum.splits option.splits)
  from cl(1) have "cl_task cl \<in> set (tasks (w_db w))"
    by (auto simp: claim_task_for_runtime_def split: sum.splits option.splits intro: claim_loop_in_db)
  with prior_session_from [of "w_db w" "cl_task cl" "ca_prior_session a" "ca_prior_work_dir a"] assms(2) show ?thesis
    by (simp add: cl(2,3) claim_details_def Let_def)
qed

definition demo_resumable :: db where
  "demo_resumable = demo0\<lparr>tasks := [(demo_queued 1 3)\<lparr>tk_session := Some ''s''\<rparr>]\<rparr>"

lemma resumes_own_conversation_witness:
  "\<exists>s' a. claim_task_by_runtime demo_api (\<lambda>_. demo_env 2) (demo_server\<lparr>sv_world := \<lparr>w_db = demo_resumable, w_bus = []\<rparr>\<rparr>) (uuid_text 20) =
      (s', Inr (Some a)) \<and> ca_prior_session a = ''s'' \<and> (\<exists>u\<in>set (tasks (sv_db s')). tk_session u = Some ''s'')"
proof -
  let ?w = "\<lparr>w_db = demo_resumable, w_bus = []\<rparr>" and ?t = "(demo_queued 1 3)\<lparr>tk_session := Some ''s''\<rparr>"
  have rt: "get_runtime demo_resumable (Some 20) = Inr (demo_runtime 20 ''online'')"
    by (simp add: get_runtime_def select_one_def demo_resumable_def demo_rows)
  have "to_lower (trim_space ''claude'') = ''claude''" by code_simp
  then obtain d where d: "descriptor_for (to_lower (trim_space (rt_provider (demo_runtime 20 ''online'')))) = Some d"
    by (simp add: demo_runtime_def descriptor_for_def adapter_descriptors_def provider_claude_def)
  have ls: "list_pending_tasks_by_runtime demo_resumable (Some 20) = [?t]"
    by (simp add: list_pending_tasks_by_runtime_def sort_by_def demo_resumable_def demo_rows)
  have "trim_space ''standard'' = ''standard''" by code_simp
  then have std: "validate_adapter_for_task_type d ''standard'' = None" by (simp add: validate_adapter_for_task_type_def)
  have q: "tk_status ?t = Queued" "tk_task_type ?t = ''standard''" "tk_id ?t = 1000" "tk_agent ?t = 10" by (simp_all add: demo_queued_def)
  have ag: "get_agent demo_resumable (Some 10) = Inr demo_agent" by (simp add: get_agent_def select_one_def demo_resumable_def demo_rows)
  have n0: "count_running_tasks demo_resumable (Some 10) = 0" by (simp add: count_running_tasks_def demo_resumable_def demo_rows)
  let ?d = "demo_resumable\<lparr>tasks := [dispatched_task (demo_env 2) ?t], runs := [demo_new_run]\<rparr>"
  have by_id: "claim_agent_task_run_by_id (demo_env 2) demo_resumable 1000 = Inr (?d, 1000, 2000)"
    by (simp add: claim_agent_task_run_by_id_def select_one_def dispatch_candidate_def claimable_def upd_where_def
        commit_stmt_def Let_def or_fail_def constraint_defs task_types_def demo_resumable_def demo_rows)
  have gt: "get_task ?d (Some 1000) = Inr (dispatched_task (demo_env 2) ?t)" by (simp add: get_task_def select_one_def demo_rows)
  obtain w' where w': "claim_task_candidate demo_codec (demo_env 2) ?w ?t =
      (w', Inr (Some \<lparr>cl_task = dispatched_task (demo_env 2) ?t, cl_run = 2000\<rparr>, True))"
    using ag n0 gt by_id q by (simp add: claim_task_candidate_def demo_agent_def)
  have "claim_task_for_runtime demo_codec (\<lambda>_. demo_env 2) ?w (Some 20) = (w', Inr (Some \<lparr>cl_task = dispatched_task (demo_env 2) ?t, cl_run = 2000\<rparr>))"
    using rt d ls std q w' by (simp add: claim_task_for_runtime_def)
  then obtain s' a where ok: "claim_task_by_runtime demo_api (\<lambda>_. demo_env 2) (demo_server\<lparr>sv_world := ?w\<rparr>) (uuid_text 20) = (s', Inr (Some a))"
    and a: "ca_prior_session a = ''s''"
    by (simp add: claim_task_by_runtime_def demo_api_def demo_read_uuid claim_details_def Let_def prior_session_def dispatched_task_def)
  from a have "ca_prior_session a \<noteq> ''''" by simp
  from resumes_own_conversation [OF ok this] a ok show ?thesis by fastforce
qed

end
