(* ===== verification/RuntimeProps.thy ===== *)
theory RuntimeProps
  imports RuntimeApi CommandProps LifecycleProps DaemonProps BatchTotal
begin

text \<open>
  The sweeper ends the work of silent daemons and nothing else; a registration recovers the work of a former process
  once, and when that fails not at all.
\<close>

section \<open>The sweep of silent runtimes\<close>




lemma tell_workspaces_db [simp]: "sv_db (tell_workspaces rank a ws s) = sv_db s"
proof -
  have "sv_db (foldl (\<lambda>s w. say (system_event ''daemon:register'' w [(''action'', JStr a)]) s) s xs) = sv_db s" for xs
    by (induction xs arbitrary: s) simp_all
  then show ?thesis by (simp add: tell_workspaces_def)
qed

definition marked :: "env \<Rightarrow> db \<Rightarrow> db" where
  "marked e d = fst (mark_stale_runtimes_offline e (secs 45) d)"

lemma marked_rows [simp]: "tasks (marked e d) = tasks d" "runs (marked e d) = runs d" "outbox (marked e d) = outbox d"
  by (simp_all add: marked_def mark_stale_runtimes_offline_def)










section \<open>Recovery at registration\<close>

text \<open>\<^verbatim>\<open>json.Marshal\<close> and \<^verbatim>\<open>json.Unmarshal\<close> of the metadata agree.\<close>

definition prints_metadata :: "codec \<Rightarrow> (jmap \<Rightarrow> string) \<Rightarrow> bool" where
  "prints_metadata c print \<longleftrightarrow> (\<forall>b r. cd_json c (print (runtime_metadata b r)) = Some (JObj (runtime_metadata b r)))"

definition instance_known :: "codec \<Rightarrow> db \<Rightarrow> uuid \<Rightarrow> register_body \<Rightarrow> string \<Rightarrow> bool" where
  "instance_known c d w b prov \<longleftrightarrow> (\<exists>x. get_runtime_by_identity d (Some w) (str_to_text (rg_daemon b)) prov = Inr x \<and>
     read_instance c (rt_metadata x) = rg_instance b)"

lemma read_printed: "prints_metadata c print \<Longrightarrow> read_instance c (print (runtime_metadata b r)) = rg_instance b"
proof -
  have "to_lower ''cli_version'' = ''cli_version''" "to_lower ''instance_id'' = ''instance_id''" "to_lower ''version'' = ''version''" by code_simp+
  then show "prints_metadata c print \<Longrightarrow> read_instance c (print (runtime_metadata b r)) = rg_instance b"
    by (simp add: prints_metadata_def read_instance_def) (simp add: runtime_metadata_def)
qed

lemma identity_alt:
  "rt_daemon_id new \<noteq> None \<Longrightarrow>
   get_runtime_by_identity d (Some (rt_workspace new)) (rt_daemon_id new) (rt_provider new) = select_one (same_identity new) (runtimes d)"
  unfolding get_runtime_by_identity_def by (rule arg_cong [of _ _ "\<lambda>P. select_one P (runtimes d)"]) (auto simp: same_identity_def)

text \<open>What storing a registration does to the rows found by their identity.\<close>

lemma select_upd:
  assumes "\<And>x. P (f x) = P x" "select_one P rs = Inr x" "\<And>y. P y \<Longrightarrow> Q y"
  shows "select_one P (upd_where Q f rs) = Inr (f x)"
proof -
  have "filter P (upd_where Q f rs) = map f (filter P rs)"
    using assms(1,3) by (induction rs) (auto simp: upd_where_def)
  with assms(2) show ?thesis by (auto simp: select_one_def split: list.splits)
qed

lemma select_skip:
  assumes "\<And>x. Q x \<Longrightarrow> \<not> P x \<and> \<not> P (f x)"
  shows "select_one P (upd_where Q f rs) = select_one P rs"
proof -
  have "filter P (upd_where Q f rs) = filter P rs" using assms by (induction rs) (auto simp: upd_where_def)
  then show ?thesis by (simp add: select_one_def)
qed

lemma select_append: "\<not> P x \<Longrightarrow> select_one P (rs @ [x]) = select_one P rs"
  by (simp add: select_one_def)

lemma select_append_new: "select_one P rs = Inl err \<Longrightarrow> P x \<Longrightarrow> select_one P (rs @ [x]) = Inr x"
  by (auto simp: select_one_def split: list.splits)

lemma refreshed_identity [simp]: "same_identity y (refreshed_runtime e new x) = same_identity y x"
  by (simp add: same_identity_def refreshed_runtime_def)

lemma upsert_found:
  assumes "upsert_agent_runtime e d new = Inr (d1, row)" "rt_daemon_id new \<noteq> None"
  shows "\<exists>x. select_one (same_identity new) (runtimes d1) = Inr x \<and> rt_metadata x = rt_metadata new"
proof (cases "select_one (same_identity new) (runtimes d)")
  case (Inr x)
  with assms(1) have "runtimes d1 = upd_where (same_identity new) (refreshed_runtime e new) (runtimes d)"
    by (auto simp: upsert_agent_runtime_def split: if_splits)
  then have "select_one (same_identity new) (runtimes d1) = Inr (refreshed_runtime e new x)"
    using select_upd [of "same_identity new" "refreshed_runtime e new" "runtimes d" x "same_identity new"] Inr by simp
  then show ?thesis by (intro exI [of _ "refreshed_runtime e new x"]) (simp add: refreshed_runtime_def)
next
  case (Inl err)
  with assms(1) have "runtimes d1 = runtimes d @ [new]" by (auto simp: upsert_agent_runtime_def split: if_splits)
  moreover have "same_identity new new" using assms(2) by (simp add: same_identity_def)
  ultimately show ?thesis using select_append_new [OF Inl] by simp
qed

lemma upsert_other:
  assumes "upsert_agent_runtime e d new = Inr (d1, row)" "rt_provider new \<noteq> prov"
  shows "get_runtime_by_identity d1 w daemon prov = get_runtime_by_identity d w daemon prov"
proof -
  let ?P = "\<lambda>x. Some (rt_workspace x) = w \<and> daemon \<noteq> None \<and> rt_daemon_id x = daemon \<and> rt_provider x = prov"
  have "select_one ?P (runtimes d1) = select_one ?P (runtimes d)"
  proof (cases "select_one (same_identity new) (runtimes d)")
    case (Inr x)
    with assms(1) have "runtimes d1 = upd_where (same_identity new) (refreshed_runtime e new) (runtimes d)"
      by (auto simp: upsert_agent_runtime_def split: if_splits)
    then show ?thesis using assms(2) by (simp only:) (rule select_skip, auto simp: same_identity_def refreshed_runtime_def)
  next
    case (Inl err)
    with assms(1) have "runtimes d1 = runtimes d @ [new]" by (auto simp: upsert_agent_runtime_def split: if_splits)
    with assms(2) show ?thesis by (simp add: select_append)
  qed
  then show ?thesis by (simp add: get_runtime_by_identity_def)
qed

lemma upsert_rows: "upsert_agent_runtime e d new = Inr (d1, row) \<Longrightarrow> tasks d1 = tasks d \<and> runs d1 = runs d \<and> outbox d1 = outbox d"
  by (auto simp: upsert_agent_runtime_def split: if_splits sum.splits)

lemma recover_runtimes: "lc_recover_tasks_for_runtime l e d i = Inr (d', n) \<Longrightarrow> runtimes d' = runtimes d"
  by (auto simp: lc_recover_tasks_for_runtime_def recover_tasks_for_runtime_stmt_def Let_def res_simps split: if_splits)

lemma registered_fields [simp]:
  "rt_workspace (registered_row print e w b r) = w" "rt_daemon_id (registered_row print e w b r) = str_to_text (rg_daemon b)"
  "rt_provider (registered_row print e w b r) = ru_type r" "rt_metadata (registered_row print e w b r) = print (runtime_metadata b r)"
  by (simp_all add: registered_row_def)

lemma upsert_known:
  assumes "prints_metadata c print" "rg_daemon b \<noteq> ''''" "upsert_agent_runtime e d (registered_row print e w b r) = Inr (d1, row)"
  shows "instance_known c d1 w b (ru_type r)"
proof -
  let ?new = "registered_row print e w b r"
  have n: "rt_daemon_id ?new \<noteq> None" using assms(2) by (simp add: str_to_text_def)
  from upsert_found [OF assms(3) n] identity_alt [OF n, of d1] obtain x where
    "get_runtime_by_identity d1 (Some w) (str_to_text (rg_daemon b)) (ru_type r) = Inr x" "rt_metadata x = print (runtime_metadata b r)" by auto
  with read_printed [OF assms(1)] show ?thesis by (simp add: instance_known_def)
qed

lemma known_kept:
  assumes "prints_metadata c print" "rg_daemon b \<noteq> ''''" "instance_known c d w b prov"
    "upsert_agent_runtime e d (registered_row print e w b r) = Inr (d1, row)"
  shows "instance_known c d1 w b prov"
proof (cases "ru_type r = prov")
  case True
  with upsert_known [OF assms(1,2,4)] show ?thesis by simp
next
  case False
  with upsert_other [OF assms(4), of prov] assms(3) show ?thesis by (simp add: instance_known_def)
qed

lemma known_not_recovered: "instance_known c d w b (ru_type r) \<Longrightarrow> \<not> should_recover c d w b r"
  by (auto simp: instance_known_def should_recover_def)

text \<open>One registration: either it is stored, then its instance is known, or nothing happens.\<close>

lemma register_cases:
  assumes "register_runtime p print e e' d w b r = (d1, x)"
  shows "d1 = d \<and> (\<exists>err. x = Inl err) \<or>
    (\<exists>d0 row. upsert_agent_runtime e d (registered_row print e w b r) = Inr (d0, row) \<and> runtimes d1 = runtimes d0 \<and>
       (\<not> should_recover (api_codec p) d w b r \<longrightarrow> d1 = d0 \<and> x = Inr row))"
  using assms by (auto simp: register_runtime_def Let_def split: sum.splits if_splits dest: recover_runtimes)

lemma known_cong: "runtimes d1 = runtimes d2 \<Longrightarrow> instance_known c d1 w b prov = instance_known c d2 w b prov"
  by (simp add: instance_known_def get_runtime_by_identity_def)

lemma register_keeps_known:
  assumes "prints_metadata (api_codec p) print" "rg_daemon b \<noteq> ''''" "register_runtime p print e e' d w b r = (d1, x)"
    "instance_known (api_codec p) d w b prov"
  shows "instance_known (api_codec p) d1 w b prov"
  using register_cases [OF assms(3)] known_kept [OF assms(1,2,4)] assms(4) known_cong by metis

lemma registers_known:
  assumes "prints_metadata (api_codec p) print" "rg_daemon b \<noteq> ''''"
  shows "register_runtimes p print es k d w b rs = (d1, x) \<Longrightarrow> instance_known (api_codec p) d w b prov \<Longrightarrow> instance_known (api_codec p) d1 w b prov"
    and "register_runtimes p print es k d w b rs = (d1, Inr rows) \<Longrightarrow> \<forall>r\<in>set rs. instance_known (api_codec p) d1 w b (ru_type r)"
proof -
  show kept: "register_runtimes p print es k d w b rs = (d1, x) \<Longrightarrow> instance_known (api_codec p) d w b prov \<Longrightarrow> instance_known (api_codec p) d1 w b prov"
    for k d rs d1 x prov
  proof (induction rs arbitrary: k d x)
    case (Cons r rs)
    obtain d0 y where y: "register_runtime p print (es k) (es (Suc k)) d w b r = (d0, y)" by fastforce
    note K = register_keeps_known [OF assms y Cons.prems(2)]
    show ?case
    proof (cases y)
      case (Inl err)
      with Cons.prems(1) y K show ?thesis by simp
    next
      case (Inr row)
      obtain d3 z where z: "register_runtimes p print es (k + 2) d0 w b rs = (d3, z)" by fastforce
      with Cons.prems(1) y Inr have "d3 = d1" by simp
      with Cons.IH [OF z [unfolded \<open>d3 = d1\<close>] K] show ?thesis by simp
    qed
  qed simp
  show "register_runtimes p print es k d w b rs = (d1, Inr rows) \<Longrightarrow> \<forall>r\<in>set rs. instance_known (api_codec p) d1 w b (ru_type r)"
  proof (induction rs arbitrary: k d rows)
    case (Cons r rs)
    obtain d0 y where y: "register_runtime p print (es k) (es (Suc k)) d w b r = (d0, y)" by fastforce
    with Cons.prems obtain row where row: "y = Inr row" by (cases y) simp_all
    obtain d3 z where z: "register_runtimes p print es (k + 2) d0 w b rs = (d3, z)" by fastforce
    with Cons.prems y row have e: "d3 = d1" "map_sum id ((#) row) z = Inr rows" by simp_all
    then obtain rest where rest: "z = Inr rest" by (cases z) simp_all
    from register_cases [OF y [unfolded row]] obtain d00 row0 where
      up: "upsert_agent_runtime (es k) d (registered_row print (es k) w b r) = Inr (d00, row0)" and rt: "runtimes d0 = runtimes d00" by auto
    have "instance_known (api_codec p) d0 w b (ru_type r)" using upsert_known [OF assms up] known_cong [OF rt] by simp
    from kept [OF z [unfolded e(1)] this] Cons.IH [OF z [unfolded e(1) rest]] show ?case by simp
  qed simp
qed

lemma known_registers_only:
  assumes "prints_metadata (api_codec p) print" "rg_daemon b \<noteq> ''''"
  shows "\<forall>r\<in>set rs. instance_known (api_codec p) d w b (ru_type r) \<Longrightarrow> register_runtimes p print es k d w b rs = (d1, x) \<Longrightarrow>
    tasks d1 = tasks d \<and> runs d1 = runs d \<and> outbox d1 = outbox d"
proof (induction rs arbitrary: k d x)
  case (Cons r rs)
  obtain d0 y where y: "register_runtime p print (es k) (es (Suc k)) d w b r = (d0, y)" by fastforce
  have "tasks d0 = tasks d \<and> runs d0 = runs d \<and> outbox d0 = outbox d"
    using register_cases [OF y] known_not_recovered [of "api_codec p" d w b r] Cons.prems(1) upsert_rows by fastforce
  moreover have "\<forall>r\<in>set rs. instance_known (api_codec p) d0 w b (ru_type r)"
    using register_keeps_known [OF assms y] Cons.prems(1) by simp
  ultimately show ?case using Cons.prems(2) y
    by (cases y) (auto simp: Cons.IH map_prod_def split: prod.splits)
qed simp

lemma reconcile_rows [simp]:
  "tasks (sv_db (reconcile_agents_for_workspace p e s ws)) = tasks (sv_db s)"
  "runs (sv_db (reconcile_agents_for_workspace p e s ws)) = runs (sv_db s)"
  "outbox (sv_db (reconcile_agents_for_workspace p e s ws)) = outbox (sv_db s)"
  "runtimes (sv_db (reconcile_agents_for_workspace p e s ws)) = runtimes (sv_db s)"
proof -
  have one: "tasks (sv_db (reconcile_agent e ws s a)) = tasks (sv_db s) \<and> runs (sv_db (reconcile_agent e ws s a)) = runs (sv_db s) \<and>
      outbox (sv_db (reconcile_agent e ws s a)) = outbox (sv_db s) \<and> runtimes (sv_db (reconcile_agent e ws s a)) = runtimes (sv_db s)" for s a
    by (auto simp: reconcile_agent_def Let_def update_agent_status_stmt_def res_simps split: sum.split)
  have "tasks (sv_db (foldl (reconcile_agent e ws) s as)) = tasks (sv_db s) \<and> runs (sv_db (foldl (reconcile_agent e ws) s as)) = runs (sv_db s) \<and>
      outbox (sv_db (foldl (reconcile_agent e ws) s as)) = outbox (sv_db s) \<and> runtimes (sv_db (foldl (reconcile_agent e ws) s as)) = runtimes (sv_db s)" for as
    by (induction as arbitrary: s) (simp_all add: one)
  then show "tasks (sv_db (reconcile_agents_for_workspace p e s ws)) = tasks (sv_db s)"
    "runs (sv_db (reconcile_agents_for_workspace p e s ws)) = runs (sv_db s)"
    "outbox (sv_db (reconcile_agents_for_workspace p e s ws)) = outbox (sv_db s)"
    "runtimes (sv_db (reconcile_agents_for_workspace p e s ws)) = runtimes (sv_db s)"
    by (simp_all add: reconcile_agents_for_workspace_def)
qed

text \<open>How far a request comes.\<close>

lemma daemon_register_cases:
  "(\<exists>err. daemon_register p print es e s user (Some raw) = (s, Inl err)) \<or>
   (\<exists>rs w d x. canonical_types 0 (rg_runtimes (trimmed raw)) = Inr rs \<and> rg_daemon (trimmed raw) \<noteq> '''' \<and>
      Some w = api_uuid p (rg_workspace (trimmed raw)) \<and>
      register_runtimes p print es 0 (sv_db s) w (trimmed raw) rs = (d, x) \<and>
      tasks (sv_db (fst (daemon_register p print es e s user (Some raw)))) = tasks d \<and>
      runs (sv_db (fst (daemon_register p print es e s user (Some raw)))) = runs d \<and>
      outbox (sv_db (fst (daemon_register p print es e s user (Some raw)))) = outbox d \<and>
      runtimes (sv_db (fst (daemon_register p print es e s user (Some raw)))) = runtimes d \<and>
      snd (daemon_register p print es e s user (Some raw)) = x)"
proof (cases "canonical_types 0 (rg_runtimes (trimmed raw))")
  case (Inl msg)
  then show ?thesis by (simp add: daemon_register_def Let_def)
next
  case rs: (Inr rs)
  let ?b = "trimmed raw"
  show ?thesis
  proof (cases "rg_daemon ?b = '''' \<or> rg_workspace ?b = '''' \<or> rg_runtimes ?b = []")
    case True
    then show ?thesis by (auto simp: daemon_register_def Let_def)
  next
    case False
    show ?thesis
    proof (cases "require_workspace_member (api_uuid p) (sv_accounts s) (rg_workspace ?b) user ''workspace not found''")
      case (Inl err)
      with rs False show ?thesis by (simp add: daemon_register_def Let_def)
    next
      case m: (Inr m)
      show ?thesis
      proof (cases "get_workspace (sv_accounts s) (api_uuid p (rg_workspace ?b))")
        case (Inl err)
        with rs False m show ?thesis by (simp add: daemon_register_def Let_def)
      next
        case w: (Inr w)
        from select_one_Inr [OF w [unfolded get_workspace_def]] have id: "Some (sp_id w) = api_uuid p (rg_workspace ?b)" by simp
        obtain d x where dx: "register_runtimes p print es 0 (sv_db s) (sp_id w) ?b rs = (d, x)" by fastforce
        with rs False m w have "daemon_register p print es e s user (Some raw) = (case x of Inl err \<Rightarrow> (put_db s d, Inl err)
          | Inr rows \<Rightarrow> (reconcile_agents_for_workspace p e (say (system_event ''daemon:register'' (rg_workspace ?b)
                [(''runtimes'', JArr (map (runtime_json (api_codec p)) rows))]) (put_db s d)) (rg_workspace ?b), Inr rows))"
          by (simp add: daemon_register_def Let_def split: sum.split)
        then have "tasks (sv_db (fst (daemon_register p print es e s user (Some raw)))) = tasks d \<and>
            runs (sv_db (fst (daemon_register p print es e s user (Some raw)))) = runs d \<and>
            outbox (sv_db (fst (daemon_register p print es e s user (Some raw)))) = outbox d \<and>
            runtimes (sv_db (fst (daemon_register p print es e s user (Some raw)))) = runtimes d \<and>
            snd (daemon_register p print es e s user (Some raw)) = x"
          by (cases x) simp_all
        with rs False id dx show ?thesis by blast
      qed
    qed
  qed
qed

text \<open>C8. Registration is safe to retry: once a registration has been answered with success, the same request again (the
  answer was lost, the daemon registers anew) leaves all Work Items, Runs and facts as they are, whatever has happened to
  them in between.\<close>

theorem registration_retry_safe:
  assumes "prints_metadata (api_codec p) print" "daemon_register p print es e s user (Some raw) = (s1, Inr rows)"
    "runtimes (sv_db s2) = runtimes (sv_db s1)"
  shows "tasks (sv_db (fst (daemon_register p print es' e' s2 user' (Some raw)))) = tasks (sv_db s2) \<and>
    runs (sv_db (fst (daemon_register p print es' e' s2 user' (Some raw)))) = runs (sv_db s2) \<and>
    outbox (sv_db (fst (daemon_register p print es' e' s2 user' (Some raw)))) = outbox (sv_db s2)"
  using daemon_register_cases [of p print es' e' s2 user' raw]
proof (elim disjE exE conjE)
  fix rs w d x
  assume c: "canonical_types 0 (rg_runtimes (trimmed raw)) = Inr rs" and n: "rg_daemon (trimmed raw) \<noteq> ''''"
    and w: "Some w = api_uuid p (rg_workspace (trimmed raw))"
    and r: "register_runtimes p print es' 0 (sv_db s2) w (trimmed raw) rs = (d, x)"
    and e: "tasks (sv_db (fst (daemon_register p print es' e' s2 user' (Some raw)))) = tasks d"
      "runs (sv_db (fst (daemon_register p print es' e' s2 user' (Some raw)))) = runs d"
      "outbox (sv_db (fst (daemon_register p print es' e' s2 user' (Some raw)))) = outbox d"
  from daemon_register_cases [of p print es e s user raw] assms(2) obtain w1 d1 where
    w1: "Some w1 = api_uuid p (rg_workspace (trimmed raw))" and r1: "register_runtimes p print es 0 (sv_db s) w1 (trimmed raw) rs = (d1, Inr rows)"
    and d1: "runtimes (sv_db s1) = runtimes d1" using c by auto
  have "w1 = w" using w w1 by (metis option.inject)
  with registers_known(2) [OF assms(1) n r1] known_cong [of "sv_db s2" d1] assms(3) d1
  have "\<forall>r\<in>set rs. instance_known (api_codec p) (sv_db s2) w (trimmed raw) (ru_type r)" by simp
  from known_registers_only [OF assms(1) n this r] e show ?thesis by simp
qed simp

text \<open>C9. A recovery that fails is never made up for: the runtime is stored with the new process before its work is
  recovered, so when the recovery fails the registration is answered with an error, and the daemon that registers again is
  answered with success while its Work Items are still the ones of the process that is gone.\<close>

theorem failed_recovery_not_repeated:
  assumes "prints_metadata (api_codec p) print" "rg_daemon b \<noteq> ''''"
    "upsert_agent_runtime e d (registered_row print e w b r) = Inr (d0, row)"
    "register_runtime p print e e' d w b r = (d1, Inl err)"
  shows "tasks d1 = tasks d \<and> (\<exists>d2 row'. register_runtime p print f f' d1 w b r = (d2, Inr row') \<and> tasks d2 = tasks d)"
proof -
  have d1: "d1 = d0" using assms(3,4) by (auto simp: register_runtime_def Let_def split: if_splits sum.splits)
  have k: "instance_known (api_codec p) d1 w b (ru_type r)" unfolding d1 by (rule upsert_known [OF assms(1-3)])
  let ?new = "registered_row print f w b r"
  have n: "rt_daemon_id ?new \<noteq> None" using assms(2) by (simp add: str_to_text_def)
  from k identity_alt [OF n, of d1] obtain x where "select_one (same_identity ?new) (runtimes d1) = Inr x" by (auto simp: instance_known_def)
  moreover have "rt_mode ?new \<in> set [''local'', ''cloud'']" "rt_status ?new \<in> set [''online'', ''offline'']" by (simp_all add: registered_row_def)
  ultimately obtain d2 row' where u: "upsert_agent_runtime f d1 ?new = Inr (d2, row')"
    by (simp add: upsert_agent_runtime_def)
  with known_not_recovered [OF k] have "register_runtime p print f f' d1 w b r = (d2, Inr row')" by (simp add: register_runtime_def Let_def)
  moreover have "tasks d2 = tasks d1" "tasks d1 = tasks d" using upsert_rows [OF u] upsert_rows [OF assms(3)] d1 by simp_all
  ultimately show ?thesis by simp
qed

section \<open>A daemon that restarts\<close>

fun demo_unpack :: "string \<Rightarrow> string \<times> string" where
  "demo_unpack (x # c # s) = (if x = CHR ''.'' then (case demo_unpack s of (a, r) \<Rightarrow> (c # a, r)) else ('''', c # s))"
| "demo_unpack [x] = ('''', [])"
| "demo_unpack [] = ('''', [])"

definition demo_pack :: "string \<Rightarrow> string" where
  "demo_pack s = concat (map (\<lambda>c. [CHR ''.'', c]) s) @ '';''"

lemma demo_unpack_pack: "demo_unpack (demo_pack s @ r) = (s, r)"
proof (induction s)
  case Nil
  show ?case by (cases r) (simp_all add: demo_pack_def)
qed (simp add: demo_pack_def)

definition demo_print :: "jmap \<Rightarrow> string" where
  "demo_print m = concat (map (\<lambda>(k, v). case v of JStr s \<Rightarrow> demo_pack s | _ \<Rightarrow> '''') m)"

definition demo_parse :: "string \<Rightarrow> json option" where
  "demo_parse s = (case demo_unpack s of (a, r) \<Rightarrow> (case demo_unpack r of (b, q) \<Rightarrow> (case demo_unpack q of (c, _) \<Rightarrow>
     Some (JObj [(''cli_version'', JStr a), (''instance_id'', JStr b), (''version'', JStr c)]))))"

definition demo_daemon_api :: api where
  "demo_daemon_api = demo_api\<lparr>api_codec := demo_codec\<lparr>cd_json := demo_parse\<rparr>\<rparr>"

lemma demo_prints: "prints_metadata (api_codec demo_daemon_api) demo_print"
proof -
  have "demo_print (runtime_metadata b r) = demo_pack (rg_cli b) @ demo_pack (rg_instance b) @ demo_pack (ru_version r) @ []" for b r
    by (simp add: demo_print_def runtime_metadata_def)
  then have "demo_parse (demo_print (runtime_metadata b r)) = Some (JObj (runtime_metadata b r))" for b r
    by (simp only: demo_parse_def demo_unpack_pack prod.case) (simp add: runtime_metadata_def)
  then show ?thesis by (simp add: prints_metadata_def demo_daemon_api_def)
qed

text \<open>Runtime 20 belongs to the daemon \<open>d\<close>, whose former process had no instance.\<close>

definition demo_claude :: runtime_body where
  "demo_claude = \<lparr>ru_name = '''', ru_type = ''claude'', ru_version = '''', ru_status = ''''\<rparr>"

definition demo_restart :: register_body where
  "demo_restart = \<lparr>rg_workspace = uuid_text 1, rg_daemon = ''d'', rg_instance = ''n'', rg_device = '''', rg_cli = '''', rg_runtimes = [demo_claude]\<rparr>"

definition demo_hosted :: "db \<Rightarrow> db" where
  "demo_hosted d = d\<lparr>runtimes := [demo_runtime 20 ''online'', (demo_runtime 21 ''offline'')\<lparr>rt_daemon_id := Some ''e''\<rparr>]\<rparr>"

lemma demo_no_instance: "read_instance (api_codec demo_daemon_api) '''' = ''''"
proof -
  have "to_lower ''cli_version'' = ''cli_version''" "to_lower ''instance_id'' = ''instance_id''" "to_lower ''version'' = ''version''" by code_simp+
  then show ?thesis by (simp add: read_instance_def demo_daemon_api_def demo_parse_def)
qed

lemma demo_recovers: "should_recover (api_codec demo_daemon_api) (demo_hosted d) 1 demo_restart demo_claude"
  by (simp add: should_recover_def get_runtime_by_identity_def select_one_def demo_hosted_def demo_runtime_def demo_restart_def demo_claude_def
      str_to_text_def demo_no_instance)

lemma demo_upsert:
  "\<exists>x. upsert_agent_runtime (demo_env 6) (demo_hosted d) (registered_row demo_print (demo_env 6) 1 demo_restart demo_claude) =
     Inr ((demo_hosted d)\<lparr>runtimes := [x, (demo_runtime 21 ''offline'')\<lparr>rt_daemon_id := Some ''e''\<rparr>]\<rparr>, x) \<and> rt_id x = 20"
  by (simp add: upsert_agent_runtime_def registered_row_def select_one_def same_identity_def demo_hosted_def demo_runtime_def demo_restart_def
      demo_claude_def str_to_text_def upd_where_def refreshed_runtime_def)

lemma failed_recovery_not_repeated_witness:
  "\<exists>d1 err d2 row. register_runtime demo_daemon_api demo_print (demo_env 6) (demo_env 7) (demo_hosted demo4) 1 demo_restart demo_claude = (d1, Inl err) \<and>
     register_runtime demo_daemon_api demo_print (demo_env 8) (demo_env 9) d1 1 demo_restart demo_claude = (d2, Inr row) \<and>
     tasks d2 = tasks demo4 \<and> demo_task \<in> set (tasks d2) \<and> tk_status demo_task = Running"
proof -
  from demo_upsert [of demo4] obtain x where
    u: "upsert_agent_runtime (demo_env 6) (demo_hosted demo4) (registered_row demo_print (demo_env 6) 1 demo_restart demo_claude) =
      Inr ((demo_hosted demo4)\<lparr>runtimes := [x, (demo_runtime 21 ''offline'')\<lparr>rt_daemon_id := Some ''e''\<rparr>]\<rparr>, x)" and x: "rt_id x = 20" by blast
  let ?d0 = "(demo_hosted demo4)\<lparr>runtimes := [x, (demo_runtime 21 ''offline'')\<lparr>rt_daemon_id := Some ''e''\<rparr>]\<rparr>"
  have "lc_recover_tasks_for_runtime demo_handle (demo_env 7) ?d0 (Some 20) = Inl (ErrWrap ''recover runtime work items'' ErrConstraint)"
    by (simp add: lc_recover_tasks_for_runtime_def recover_tasks_for_runtime_stmt_def commit_stmt_def Let_def or_fail_def or_wrap_def upd_where_def
        constraint_defs one_pending_per_issue_def recover_target_def recovered_task_def demo_hosted_def demo4_def demo3_def demo2_def demo1_def demo_rows)
  then have f: "register_runtime demo_daemon_api demo_print (demo_env 6) (demo_env 7) (demo_hosted demo4) 1 demo_restart demo_claude =
      (?d0, Inl (500, ''failed to recover runtime tasks: ''))"
    using u x demo_recovers [of demo4]
    by (simp add: register_runtime_def Let_def) (simp add: registered_row_def demo_claude_def demo_daemon_api_def demo_api_def)
  have "rg_daemon demo_restart \<noteq> ''''" by (simp add: demo_restart_def)
  from failed_recovery_not_repeated [OF demo_prints this u f, of "demo_env 8" "demo_env 9"] obtain d2 row where
    "register_runtime demo_daemon_api demo_print (demo_env 8) (demo_env 9) ?d0 1 demo_restart demo_claude = (d2, Inr row)"
    "tasks d2 = tasks (demo_hosted demo4)" by blast
  moreover have "tasks (demo_hosted demo4) = tasks demo4" "demo_task \<in> set (tasks demo4)" "tk_status demo_task = Running"
    by (simp_all add: demo_hosted_def demo4_def demo_rows)
  ultimately show ?thesis using f by auto
qed

definition demo_running :: server where
  "demo_running = demo_server\<lparr>sv_world := \<lparr>w_db = demo_hosted demo3, w_bus = []\<rparr>\<rparr>"

lemma demo_registered:
  obtains s1 rows t where "daemon_register demo_daemon_api demo_print (\<lambda>k. demo_env (6 + k)) (demo_env 8) demo_running (uuid_text 7) (Some demo_restart) = (s1, Inr rows)"
    "tasks (sv_db s1) = [t]" "tk_status t = Queued"
proof -
  from demo_upsert [of demo3] obtain x where
    u: "upsert_agent_runtime (demo_env 6) (demo_hosted demo3) (registered_row demo_print (demo_env 6) 1 demo_restart demo_claude) =
      Inr ((demo_hosted demo3)\<lparr>runtimes := [x, (demo_runtime 21 ''offline'')\<lparr>rt_daemon_id := Some ''e''\<rparr>]\<rparr>, x)" and x: "rt_id x = 20" by blast
  let ?d0 = "(demo_hosted demo3)\<lparr>runtimes := [x, (demo_runtime 21 ''offline'')\<lparr>rt_daemon_id := Some ''e''\<rparr>]\<rparr>"
  have "is_ok (lc_recover_tasks_for_runtime demo_handle (demo_env 7) ?d0 (Some 20))"
    by (simp add: lc_recover_tasks_for_runtime_def recover_tasks_for_runtime_stmt_def commit_stmt_def Let_def or_fail_def or_wrap_def upd_where_def
        constraint_defs one_pending_per_issue_def recover_target_def recovered_task_def demo_hosted_def demo3_def demo2_def demo1_def demo_rows
        task_types_def new_outbox_row_def recover_run_id_def failed_run_def x)
  then obtain d2 n where rec: "lc_recover_tasks_for_runtime demo_handle (demo_env 7) ?d0 (Some 20) = Inr (d2, n)"
    by (auto simp: is_ok_def split: sum.splits)
  then have t: "tasks d2 = [recovered_task (demo_env 7) demo_task]"
    by (auto simp: lc_recover_tasks_for_runtime_def recover_tasks_for_runtime_stmt_def Let_def res_simps upd_where_def recover_target_def
        demo_handle_def demo_hosted_def demo3_def demo_rows)
  have q: "tk_status (recovered_task (demo_env 7) demo_task) = Queued" by (simp add: recovered_task_def demo_rows)
  have "to_lower (trim_space ''claude'') = ''claude''" "trim_space ''d'' = ''d''" "trim_space ''n'' = ''n''" "trim_space '''' = ''''"
    "trim_space (uuid_text 1) = uuid_text 1" by code_simp+
  then have b: "trimmed demo_restart = demo_restart" "canonical_types 0 (rg_runtimes demo_restart) = Inr [demo_claude]"
    by (simp_all add: trimmed_def demo_restart_def validate_local_runtime_provider_def demo_claude_def descriptor_for_def adapter_descriptors_def provider_claude_def)
  have m: "require_workspace_member (api_uuid demo_daemon_api) (sv_accounts demo_running) (uuid_text 1) (uuid_text 7) ''workspace not found'' =
      Inr \<lparr>se_id = 3, se_workspace = 1, se_user = 7, se_role = ''member'', se_created_at = 0\<rparr>"
    by (simp add: require_workspace_member_def get_member_by_user_and_workspace_def select_one_def demo_running_def demo_server_def demo_daemon_api_def
        demo_api_def demo_read_uuid)
  have w: "get_workspace (sv_accounts demo_running) (api_uuid demo_daemon_api (uuid_text 1)) = Inr demo_space" "sp_id demo_space = 1"
    by (simp_all add: get_workspace_def select_one_def demo_running_def demo_server_def demo_daemon_api_def demo_api_def demo_read_uuid demo_space_def)
  have "register_runtime demo_daemon_api demo_print (demo_env 6) (demo_env 7) (demo_hosted demo3) 1 demo_restart demo_claude = (d2, Inr x)"
    using u x rec demo_recovers [of demo3]
    by (simp add: register_runtime_def Let_def) (simp add: registered_row_def demo_claude_def demo_daemon_api_def demo_api_def)
  then have r: "register_runtimes demo_daemon_api demo_print (\<lambda>k. demo_env (6 + k)) 0 (sv_db demo_running) 1 demo_restart [demo_claude] = (d2, Inr [x])"
    by (simp add: demo_running_def)
  have f: "rg_daemon demo_restart \<noteq> ''''" "rg_workspace demo_restart = uuid_text 1" "rg_runtimes demo_restart \<noteq> []" by (simp_all add: demo_restart_def)
  show ?thesis
  proof (rule that)
    show "daemon_register demo_daemon_api demo_print (\<lambda>k. demo_env (6 + k)) (demo_env 8) demo_running (uuid_text 7) (Some demo_restart) =
        (reconcile_agents_for_workspace demo_daemon_api (demo_env 8) (say (system_event ''daemon:register'' (uuid_text 1)
          [(''runtimes'', JArr (map (runtime_json (api_codec demo_daemon_api)) [x]))]) (put_db demo_running d2)) (uuid_text 1), Inr [x])"
      using b m w r f by (simp add: daemon_register_def Let_def)
  qed (simp add: t, rule q)
qed

lemma registration_retry_safe_witness:
  "\<exists>s1 rows t. daemon_register demo_daemon_api demo_print (\<lambda>k. demo_env (6 + k)) (demo_env 8) demo_running (uuid_text 7) (Some demo_restart) = (s1, Inr rows) \<and>
     tasks (sv_db demo_running) \<noteq> [t] \<and> tasks (sv_db s1) = [t] \<and>
     tasks (sv_db (fst (daemon_register demo_daemon_api demo_print (\<lambda>k. demo_env (9 + k)) (demo_env 11) s1 (uuid_text 7) (Some demo_restart)))) = [t]"
proof -
  obtain s1 rows t where s1: "daemon_register demo_daemon_api demo_print (\<lambda>k. demo_env (6 + k)) (demo_env 8) demo_running (uuid_text 7)
      (Some demo_restart) = (s1, Inr rows)" and t: "tasks (sv_db s1) = [t]" "tk_status t = Queued"
    by (rule demo_registered)
  have "tasks (sv_db demo_running) \<noteq> [t]" using t(2) by (auto simp: demo_running_def demo_hosted_def demo3_def demo_rows)
  with registration_retry_safe [OF demo_prints s1 refl, of "\<lambda>k. demo_env (9 + k)" "demo_env 11" "uuid_text 7"] s1 t(1)
  show ?thesis by simp
qed

end
