(* ===== verification/Spec2Isabelle.thy ===== *)
theory Spec2Isabelle
  imports LifecycleProps TaskProps OutboxProps LoopOperators TaskDerivedProps PlannerProps RealtimeProps RealtimeListeners AccountsProps IssueNumbers NotifyComments MessageProps RuntimeProps
begin

text \<open>
  \<^bold>\<open>Verification of the Agentra server.\<close>

  Agentra is a platform on which members and coding agents work on issues. The server (\<^verbatim>\<open>server/\<close>, in Go)
  keeps everything in PostgreSQL; daemons on the members' machines claim Work Items for the agents and report back.
  This development models the server's core logic: how work is queued, claimed, run and closed, how the facts
  about it travel to everybody concerned, what drives an engineering loop from stage to stage, how an issue is
  decomposed into a graph of tasks, how events reach browsers, and who may sign up and own a workspace.

  \<^bold>\<open>How the parts interact.\<close> A handler or a loop stage queues a Work Item (\<open>TaskService\<close>,
  \<open>LoopCoordinator\<close>); a daemon claims it, which opens a Run, and its callbacks go through the one write module of
  attempts (\<open>RunLifecycle\<close>). Every change of status appends a fact to the lifecycle outbox in the same transaction.
  Three durable consumers read the facts: the outbox worker (\<open>OutboxWorker\<close>: comments, metrics, traces, agent
  status, bus events), the engineering loop (\<open>LoopProjector\<close>: the next stage) and the task-derived projector
  (\<open>TaskDerived\<close>: activities, subscriptions, inbox items). What they publish on the event bus (\<open>EventBus\<close>) the
  hub listeners (\<open>RealtimeListeners\<close>) hand to the WebSocket hub (\<open>RealtimeHub\<close>). Accounts, memberships and login
  (\<open>Accounts\<close>, \<open>Membership\<close>, \<open>Login\<close>) stand beside this, on tables of their own. The requests on issues and
  comments (\<open>IssueApi\<close>, \<open>IssueRequests\<close>, \<open>CommentRequests\<close>) are where the parts meet: they ask the accounts who may
  act, change the issue, queue or cancel its Work Items through the lifecycle, and publish what happened; the listeners
  of the bus (\<open>Notifications\<close>) turn that into subscriptions, entries of the activity log and inbox items. On the other
  side stand the daemons: they register their runtimes and send heartbeats (\<open>RuntimeApi\<close>), get the commands left for
  them (\<open>RuntimeCommands\<close>), claim and report on Work Items (\<open>DaemonCalls\<close>) and stream their output (\<open>TaskMessages\<close>); the
  sweeper (\<open>RuntimeApi\<close>) ends the work of those that fell silent.

  \<^bold>\<open>How code is translated.\<close> A table is the list of its rows, a row a record, a nullable column an option. A SQL
  statement is one definition: it computes the new tables, and fails with a constraint violation when a key, check or
  partial unique index of \<^verbatim>\<open>server/migrations\<close> would be broken. Go errors are values (\<open>go_error\<close>, with
  \<^verbatim>\<open>%w\<close> wrapping and \<^verbatim>\<open>errors.Is\<close>), fallible functions return \<open>error + result\<close>; a function that is not one
  transaction returns the state also with an error. A transaction gets an environment \<open>env\<close>: its time, the UUIDs it
  will draw, the rows other transactions have locked, whether it can begin and commit. Strings are bytes. 32-bit
  columns are integers whose range is checked where the database checks it and clamped where the code clamps.
  Code outside the repository (the JSON decoder and printer, UUID parser, mail address parser, language model, mail service,
  token signature) is an argument of the definitions that use it, and so are the regular expressions of
  \<^verbatim>\<open>pkg/redact\<close>. The random order in which Go walks a map is an argument as well.

  \<^bold>\<open>The theories.\<close>

  \<^item> \<open>Prelude\<close>: types, errors, JSON values, tables as lists (\<open>select_one\<close>, \<open>upd_where\<close>, \<open>first_by\<close>), the collections of
    simplification rules. \<open>GoText\<close>: \<^verbatim>\<open>strings\<close>, \<^verbatim>\<open>strconv\<close>, \<^verbatim>\<open>internal/util/pgx.go\<close>; printing a UUID is injective.
  \<^item> \<open>Store\<close>, \<open>Queries\<close>: rows, schema constraints and the statements of \<^verbatim>\<open>pkg/db/queries\<close> (agent, traces, runtime,
    lifecycle_outbox). \<open>RunLifecycle\<close>: \<^verbatim>\<open>internal/service/run_lifecycle.go\<close>, one definition per method.
    \<open>LifecycleInv\<close>, \<open>LifecycleOps\<close>, \<open>LifecycleBatch\<close>, \<open>LifecycleClaim\<close>, \<open>LifecycleEffect\<close>, \<open>LifecycleExact\<close>: the
    invariant of Work Items and Runs, its preservation by every statement and method, the step relation \<open>lc_step\<close>
    whose reachable states satisfy it, the graph of statuses, and the exact results of the callbacks. \<open>BatchTotal\<close>: the batch
    statements that end Work Items cannot fail on a database that meets its constraints.
    \<open>LifecycleDemo\<close>: a concrete history. \<open>LifecycleProps\<close>: the properties.
  \<^item> \<open>EventBus\<close>: \<^verbatim>\<open>internal/events/bus.go\<close>. \<open>TaskService\<close>, \<open>TaskProps\<close>: \<^verbatim>\<open>internal/service/task.go\<close>; every call is
    a history of lifecycle steps. \<open>AdapterContract\<close>: \<^verbatim>\<open>pkg/agent/contract.go\<close> and the dispatch policy of
    \<^verbatim>\<open>internal/loop/stages/tools.go\<close>.
  \<^item> \<open>Delivery\<close> and \<open>ConsumerLedger\<close>: the contracts of delivery as locales: a \<open>projection\<close> writes one row per key, a
    \<open>lease\<close> fences off a superseded worker, a \<open>fact_consumer\<close> consumes a fact once. They are interpreted on the
    statements of the model: comments and metrics and the outbox lease in \<open>OutboxQueries\<close>, activities, inbox items and
    the task-derived consumer in \<open>TaskDerivedProps\<close>, the loop consumer in \<open>LoopProjector\<close>.
  \<^item> \<open>OutboxQueries\<close>, \<open>OutboxWorker\<close>, \<open>OutboxReplay\<close>, \<open>OutboxProps\<close>: \<^verbatim>\<open>internal/service/lifecycle_outbox.go\<close>: order per
    Work Item, fencing, redelivery, back-off, the end of a drain.
  \<^item> \<open>LoopStore\<close>, \<open>LoopResult\<close>, \<open>LoopCoordinator\<close>, \<open>LoopProjector\<close>: \<^verbatim>\<open>internal/loop\<close> and \<^verbatim>\<open>handler/loop.go\<close>.
    \<open>LoopFacts\<close>, \<open>LoopDemo\<close>, \<open>LoopProps\<close>, \<open>LoopDelivery\<close>, \<open>LoopOperators\<close>: bounds of the iterations, a measure by which a
    loop ends, consumption of facts, and what operators can break.
  \<^item> \<open>Mentions\<close>, \<open>TaskDerived\<close>, \<open>TaskDerivedProps\<close>: \<^verbatim>\<open>internal/util/mention.go\<close> and
    \<^verbatim>\<open>internal/service/task_derived_projector.go\<close>.
  \<^item> \<open>Planner\<close>, \<open>PlannerProps\<close>: \<^verbatim>\<open>internal/service/planner.go\<close> and \<^verbatim>\<open>pkg/taskgraph/store.go\<close>.
  \<^item> \<open>RealtimeHub\<close>, \<open>RealtimeProps\<close>: \<^verbatim>\<open>internal/realtime/hub.go\<close> as a step relation over goroutines with the lock
    explicit. \<open>RealtimeListeners\<close>: \<^verbatim>\<open>cmd/server/listeners.go\<close>.
  \<^item> \<open>Accounts\<close>, \<open>Membership\<close>, \<open>Login\<close>, \<open>AccountsProps\<close>: \<^verbatim>\<open>internal/service/access_policy.go\<close>,
    \<^verbatim>\<open>internal/middleware/workspace.go\<close>, \<^verbatim>\<open>internal/handlerutil/member.go\<close>, \<^verbatim>\<open>handler/workspace.go\<close>, \<^verbatim>\<open>handler/auth.go\<close> and the
    routes of \<^verbatim>\<open>cmd/server/router.go\<close> over them, as requests.
  \<^item> \<open>IssueApi\<close>, \<open>IssueRequests\<close>, \<open>CommentRequests\<close>: \<^verbatim>\<open>handler/issue.go\<close>, \<^verbatim>\<open>handler/comment.go\<close> and what they use of
    \<^verbatim>\<open>handler/handler.go\<close> (the actor of a request, the issue a path names, the prefix of identifiers), one definition per
    handler over the server's database and accounts. \<open>IssueProps\<close>: identifiers, who may assign which agent, what an
    assignment does to the queue, what a deletion leaves. \<open>IssueNumbers\<close>: numbers stay unique under every request.
  \<^item> \<open>Notifications\<close>: \<^verbatim>\<open>cmd/server/subscriber_listeners.go\<close>, \<^verbatim>\<open>activity_listeners.go\<close> and \<^verbatim>\<open>notification_listeners.go\<close> in the
    order of \<^verbatim>\<open>main.go\<close>. \<open>NotifyFacts\<close>, \<open>NotifyProps\<close>, \<open>NotifyComments\<close>: who is told of what, and of what not.
  \<^item> \<open>DaemonCalls\<close>, \<open>TaskMessages\<close>: \<^verbatim>\<open>handler/daemon.go\<close>, one definition per handler, with \<^verbatim>\<open>handler/trace.go\<close> and
    \<^verbatim>\<open>task_message.sql\<close>. \<open>DaemonProps\<close>: what a superseded daemon is told, which conversation a claim resumes.
    \<open>MessageProps\<close>: messages are stored and announced once, only redacted.
  \<^item> \<open>RuntimeCommands\<close>: \<^verbatim>\<open>handler/runtime_ping.go\<close> and \<^verbatim>\<open>runtime_update.go\<close>, with the contract \<open>command_store\<close> as a locale that
    both stores interpret in \<open>CommandProps\<close>: a command is handed out once, a runtime has one update at a time.
  \<^item> \<open>RuntimeApi\<close>: registration, heartbeat and deregistration of \<^verbatim>\<open>handler/daemon.go\<close>, \<^verbatim>\<open>runtime.sql\<close> and
    \<^verbatim>\<open>cmd/server/runtime_sweeper.go\<close>. \<open>RuntimeProps\<close>: a sweep ends the work of silent runtimes and nothing else, a
    registration is safe to retry, a recovery that fails is not repeated.

  \<^bold>\<open>Bounds.\<close> Recursion is structural or has a measure, no definition needs fuel; the drain of the outbox has the number
  of open events as its measure and ends within as many rounds. A fact is attempted at most twenty times, by the outbox worker and
  by each consumer, the iterations of a loop at most its limit, the messages waiting for a connection at most 256.
  Time is in nanoseconds and unbounded. Case conversion is ASCII only; the bytes of other letters pass through
  unchanged, which is what the code's callers compare.

  \<^bold>\<open>Where the model is coarser than the code.\<close> Tables keep the constraints the properties rest on, not all: the foreign keys from a
  Work Item to its trigger comment and loop, from a loop to its workspace, and from activities and inbox items to their workspace are
  not checked, and a JSONB column holds any text (the result of a Work Item, the configuration of a loop). The histories of the lifecycle
  (\<open>lc_reachable\<close>) have no step for the deletion of an issue, which takes Work Items, Runs and facts away together (\<open>delete_issue_of\<close>);
  what is proved of them holds as long as no issue is deleted. Requests on issues, comments and accounts run one after the other,
  each as one step, although the code reads and writes in separate statements; where that matters for a property, the
  interleaving that breaks it is a lemma of its own (\<open>last_owner_race\<close>). The bodies of updates are given with the fields that were sent: that the
  decoder also takes keys in other case, while the check for sent fields does not, is left out. An issue in an event has the columns the listeners
  read; its position, reactions and attachments are left out. \<open>prints_metadata\<close> asks the JSON printer to keep every text, which
  \<^verbatim>\<open>encoding/json\<close> does for UTF-8.

  \<^bold>\<open>Not modelled\<close>, because it is input and output, glue, or beyond a single process: the HTTP encoding of requests
  and responses (handlers take decoded bodies and return a status or a value), the daemon
  (\<^verbatim>\<open>internal/daemon\<close>) and the provider back ends (\<^verbatim>\<open>pkg/agent\<close>) which drive external programs, the command line
  (\<^verbatim>\<open>cmd/agentra\<close>), file storage, GitHub, mail and tokens, the doctor, the handlers of agents, skills, projects, memory and files, the
  seeding of default agents at a registration and the usage reports of runtimes, and the front ends. PostgreSQL runs the statements of one transaction one after
  the other here; the interleaving of transactions is modelled where the code relies on it (locked rows,
  the lease, checks that are not part of the writing statement).
\<close>

end
